(* ===== verification/Prelude.thy ===== *)
theory Prelude
  imports Main "HOL-Library.Word"
begin

text \<open>
  Shared vocabulary of the development: the machine integer types, the faults a C++
  operation can end in, results as sums, and the list lemmas the buffer, queue and
  table models have in common.
\<close>

section \<open>Types and faults\<close>

type_synonym u8 = "8 word"
type_synonym u16 = "16 word"
type_synonym u32 = "32 word"
type_synonym u64 = "64 word"

text \<open>
  How an operation of the program can fail to return: a C++ exception
  (\<open>OutOfRange\<close>, \<open>InvalidArgument\<close>, \<open>LogicError\<close>, \<open>BadAlloc\<close>), a failed
  SERVER_CC_ASSERT, or behaviour the C++ standard leaves undefined and that ends in a
  crash in practice (a null dereference, an access outside an allocated block, a division
  by zero, the use of an indeterminate value, a shift or signed sum outside its range). \<open>Diverges\<close> marks a loop that never ends.
\<close>

datatype fault =
    OutOfRange
  | InvalidArgument
  | LogicError
  | BadAlloc
  | AssertFailed
  | NullDeref
  | BadAccess
  | DivByZero
  | Indeterminate
  | UndefinedArith
  | Diverges

type_synonym 'a res = "fault + 'a"

named_theorems res_simps \<open>evaluation of results\<close>

definition bindR :: "'a res \<Rightarrow> ('a \<Rightarrow> 'b res) \<Rightarrow> 'b res" where
  "bindR m f = (case m of Inl e \<Rightarrow> Inl e | Inr x \<Rightarrow> f x)"

lemma bindR_Inl [simp, res_simps]: "bindR (Inl e) f = Inl e"
  by (simp add: bindR_def)

lemma bindR_Inr [simp, res_simps]: "bindR (Inr x) f = f x"
  by (simp add: bindR_def)

lemma bindR_eq_Inr: "bindR m f = Inr y \<longleftrightarrow> (\<exists>x. m = Inr x \<and> f x = Inr y)"
  by (cases m) auto

lemma bindR_eq_Inl: "bindR m f = Inl e \<longleftrightarrow> m = Inl e \<or> (\<exists>x. m = Inr x \<and> f x = Inl e)"
  by (cases m) auto

lemma bindR_assoc: "bindR (bindR m f) g = bindR m (\<lambda>x. bindR (f x) g)"
  by (cases m) auto

lemma bindR_cong [fundef_cong]:
  "m = m' \<Longrightarrow> (\<And>x. m' = Inr x \<Longrightarrow> f x = g x) \<Longrightarrow> bindR m f = bindR m' g"
  by (cases m') auto

definition mapR :: "('a \<Rightarrow> 'b) \<Rightarrow> 'a res \<Rightarrow> 'b res" where
  "mapR f m = bindR m (\<lambda>x. Inr (f x))"

lemma mapR_simps [simp, res_simps]: "mapR f (Inl e) = Inl e" "mapR f (Inr x) = Inr (f x)"
  by (simp_all add: mapR_def)

lemma mapR_eq_Inr: "mapR f m = Inr y \<longleftrightarrow> (\<exists>x. m = Inr x \<and> y = f x)"
  by (cases m) auto

text \<open>An assertion that the code checks before it goes on.\<close>

definition assertR :: "bool \<Rightarrow> fault \<Rightarrow> unit res" where
  "assertR b e = (if b then Inr () else Inl e)"

lemma assertR_simps [simp, res_simps]: "assertR True e = Inr ()" "assertR False e = Inl e"
  by (simp_all add: assertR_def)

section \<open>Unsigned subtraction on size_t\<close>

text \<open>
  \<open>size_t\<close> values are natural numbers below \<open>2 ^ 64\<close>; their difference wraps.
\<close>

definition usub :: "nat \<Rightarrow> nat \<Rightarrow> nat" where
  "usub a b = (if b \<le> a then a - b else a + 2 ^ 64 - b)"

lemma usub_le [simp]: "b \<le> a \<Longrightarrow> usub a b = a - b"
  by (simp add: usub_def)

text \<open>A counter that cannot have wrapped is zero only if what it counts is empty.\<close>

lemma of_nat_eq_0_small: "n < 2 ^ 64 \<Longrightarrow> (of_nat n :: u64) = 0 \<longleftrightarrow> n = 0"
  using of_nat_inverse [of n "0 :: u64"] by auto

section \<open>One bit of a word\<close>

unbundle bit_operations_syntax

lemma one_bit:
  fixes x :: "'a::len word"
  assumes "k < LENGTH('a)"
  shows "(x OR 2 ^ k) AND 2 ^ k \<noteq> 0" and "(x AND NOT (2 ^ k)) AND 2 ^ k = 0"
    and "x AND 2 ^ k \<noteq> 0 \<Longrightarrow> x OR 2 ^ k = x"
    and "x AND 2 ^ k = 0 \<Longrightarrow> (x OR 2 ^ k) AND NOT (2 ^ k) = x"
proof -
  have b: "bit (2 ^ k :: 'a word) n \<longleftrightarrow> n = k" for n
    using assms by (auto simp: bit_exp_iff)
  have z: "y AND 2 ^ k = 0 \<longleftrightarrow> \<not> bit y k" for y :: "'a word"
    by (rule and_exp_eq_0_iff_not_bit)
  show "(x OR 2 ^ k) AND 2 ^ k \<noteq> 0" "(x AND NOT (2 ^ k)) AND 2 ^ k = 0"
    using assms by (simp_all add: z bit_or_iff bit_and_iff bit_not_iff b)
  show "x AND 2 ^ k \<noteq> 0 \<Longrightarrow> x OR 2 ^ k = x"
    by (rule bit_word_eqI) (auto simp: z bit_or_iff b)
  show "x AND 2 ^ k = 0 \<Longrightarrow> (x OR 2 ^ k) AND NOT (2 ^ k) = x"
    by (rule bit_word_eqI) (auto simp: z bit_or_iff bit_and_iff bit_not_iff b)
qed

section \<open>Lists\<close>

text \<open>Overwriting a slice of a list in place, as \<open>memcpy\<close> into a block does.\<close>

definition overwrite :: "nat \<Rightarrow> 'a list \<Rightarrow> 'a list \<Rightarrow> 'a list" where
  "overwrite p ys xs = take p xs @ ys @ drop (p + length ys) xs"

lemma length_overwrite [simp]:
  "p + length ys \<le> length xs \<Longrightarrow> length (overwrite p ys xs) = length xs"
  by (simp add: overwrite_def)

lemma overwrite_Nil [simp]: "overwrite p [] xs = xs"
  by (simp add: overwrite_def)

lemma take_overwrite [simp]: "p \<le> length xs \<Longrightarrow> take p (overwrite p ys xs) = take p xs"
  by (simp add: overwrite_def)

lemma drop_overwrite_end [simp]:
  "p \<le> length xs \<Longrightarrow> drop (p + length ys) (overwrite p ys xs) = drop (p + length ys) xs"
  by (simp add: overwrite_def)

lemma slice_overwrite:
  "p \<le> length xs \<Longrightarrow> drop p (overwrite p ys xs) = ys @ drop (p + length ys) xs"
  by (simp add: overwrite_def)

lemma overwrite_append:
  assumes "p + length ys + length zs \<le> length xs"
  shows "overwrite (p + length ys) zs (overwrite p ys xs) = overwrite p (ys @ zs) xs"
  using assms by (simp add: overwrite_def ac_simps)

lemma overwrite_shift:
  "length as \<le> p \<Longrightarrow> overwrite p ys (as @ bs) = as @ overwrite (p - length as) ys bs"
  by (simp add: overwrite_def)

lemma overwrite_prefix:
  "p + length ys \<le> length as \<Longrightarrow> overwrite p ys (as @ bs) = overwrite p ys as @ bs"
  by (simp add: overwrite_def)

text \<open>Lists of blocks that all have the same length.\<close>

definition uniform :: "nat \<Rightarrow> 'a list list \<Rightarrow> bool" where
  "uniform B xss \<longleftrightarrow> (\<forall>xs \<in> set xss. length xs = B)"

lemma uniform_simps [simp]:
  "uniform B []"
  "uniform B (xs # xss) \<longleftrightarrow> length xs = B \<and> uniform B xss"
  "uniform B (xss @ yss) \<longleftrightarrow> uniform B xss \<and> uniform B yss"
  by (auto simp: uniform_def)

lemma uniform_replicate [simp]: "length x = B \<Longrightarrow> uniform B (replicate n x)"
  by (auto simp: uniform_def)

lemma uniform_nth: "uniform B xss \<Longrightarrow> c < length xss \<Longrightarrow> length (xss ! c) = B"
  by (simp add: uniform_def)

lemma uniform_update: "uniform B xss \<Longrightarrow> length ys = B \<Longrightarrow> uniform B (xss[c := ys])"
  using set_update_subset_insert [of xss c ys] by (auto simp: uniform_def)

lemma length_concat_uniform: "uniform B xss \<Longrightarrow> length (concat xss) = length xss * B"
  by (induction xss) auto

lemma concat_update_block:
  assumes "uniform B xss" and "c < length xss" and "off + length ys \<le> B"
  shows "concat (xss[c := overwrite off ys (xss ! c)]) = overwrite (c * B + off) ys (concat xss)"
  using assms
proof (induction xss arbitrary: c)
  case Nil
  then show ?case by simp
next
  case (Cons xs xss)
  show ?case
  proof (cases c)
    case 0
    with Cons.prems show ?thesis by (simp add: overwrite_prefix)
  next
    case (Suc d)
    with Cons.prems Cons.IH [of d] show ?thesis by (simp add: overwrite_shift)
  qed
qed

lemma drop_concat_block:
  assumes "uniform B xss" and "c < length xss" and "off \<le> B"
  shows "drop (c * B + off) (concat xss) = drop off (xss ! c) @ drop ((c + 1) * B) (concat xss)"
  using assms
proof (induction xss arbitrary: c)
  case Nil
  then show ?case by simp
next
  case (Cons xs xss)
  show ?case
  proof (cases c)
    case 0
    with Cons.prems show ?thesis by simp
  next
    case (Suc d)
    with Cons.prems Cons.IH [of d] show ?thesis by (simp add: drop_Cons')
  qed
qed

text \<open>Removing the first element that satisfies a predicate (\<open>erase(find_if(..))\<close>).\<close>

fun remove_first :: "('a \<Rightarrow> bool) \<Rightarrow> 'a list \<Rightarrow> 'a list" where
  "remove_first P [] = []"
| "remove_first P (x # xs) = (if P x then xs else x # remove_first P xs)"

lemma remove_first_none [simp]: "\<not> (\<exists>x \<in> set xs. P x) \<Longrightarrow> remove_first P xs = xs"
  by (induction xs) auto

lemma set_remove_first_subset: "set (remove_first P xs) \<subseteq> set xs"
  by (induction xs) auto

lemma filter_remove_first: "filter (\<lambda>x. \<not> P x) (remove_first P xs) = filter (\<lambda>x. \<not> P x) xs"
  by (induction xs) auto

lemma remove_first_distinct_map:
  "distinct (map f xs) \<Longrightarrow> remove_first (\<lambda>x. f x = k) xs = filter (\<lambda>x. f x \<noteq> k) xs"
  by (induction xs) (auto simp: filter_id_conv image_iff intro!: sym [OF filter_True])

end
