(* ===== verification/Endian.thy ===== *)
theory Endian
  imports Prelude
begin

text \<open>
  \<^verbatim>\<open>src/src/endian.h\<close>: byte orders, the memory image of an integer and the byte swap.
  \<open>bswap_16\<close>, \<open>bswap_32\<close> and \<open>bswap_64\<close> are libc macros that reverse the
  bytes of their argument; the host's own byte order is a parameter of the model.
\<close>

section \<open>Byte orders\<close>

datatype byte_order = LITTLE_ENDIAN | BIG_ENDIAN

fun byte_order_code :: "byte_order \<Rightarrow> nat" where
  "byte_order_code LITTLE_ENDIAN = 1"
| "byte_order_code BIG_ENDIAN = 2"

lemma byte_order_code_inj: "byte_order_code a = byte_order_code b \<longleftrightarrow> a = b"
  by (cases a; cases b) auto

section \<open>Little endian images\<close>

text \<open>The \<open>n\<close> low bytes of a word, least significant first, and back.\<close>

fun le_bytes :: "nat \<Rightarrow> 'a::len word \<Rightarrow> u8 list" where
  "le_bytes 0 w = []"
| "le_bytes (Suc n) w = ucast w # le_bytes n (drop_bit 8 w)"

fun le_word :: "u8 list \<Rightarrow> 'a::len word" where
  "le_word [] = 0"
| "le_word (b # bs) = or (ucast b) (push_bit 8 (le_word bs))"

lemma length_le_bytes [simp]: "length (le_bytes n w) = n"
  by (induction n arbitrary: w) auto

lemma le_word_le_bytes: "le_word (le_bytes n w) = take_bit (8 * n) w"
proof (induction n arbitrary: w)
  case 0
  then show ?case by simp
next
  case (Suc n)
  have "or (ucast (ucast w :: u8)) (push_bit 8 (take_bit (8 * n) (drop_bit 8 w)))
      = take_bit (8 * Suc n) w"
    by (rule bit_word_eqI)
       (auto simp: bit_or_iff bit_push_bit_iff bit_take_bit_iff bit_drop_bit_eq bit_ucast_iff
         dest: bit_imp_le_length)
  with Suc show ?case by simp
qed

lemma le_word_le_bytes_full [simp]:
  "LENGTH('a::len) \<le> 8 * n \<Longrightarrow> le_word (le_bytes n (w :: 'a word)) = w"
  by (simp add: le_word_le_bytes take_bit_word_eq_self)

lemma byte_index_step [simp]: "(j + 8) div 8 - Suc 0 = j div (8 :: nat)"
  by simp

lemma bit_le_word:
  "8 * length bs \<le> LENGTH('a::len) \<Longrightarrow>
   bit (le_word bs :: 'a word) i \<longleftrightarrow> i < 8 * length bs \<and> bit (bs ! (i div 8)) (i mod 8)"
proof (induction bs arbitrary: i)
  case Nil
  then show ?case by simp
next
  case (Cons b bs)
  show ?case
  proof (cases "i < 8")
    case True
    then show ?thesis
      using Cons.prems by (auto simp: bit_or_iff bit_push_bit_iff bit_ucast_iff)
  next
    case False
    then obtain j where j: "i = j + 8" by (metis add.commute le_add_diff_inverse not_le)
    have "\<not> bit b i" using False by (auto dest: bit_imp_le_length)
    then show ?thesis
      using Cons.prems Cons.IH [of j] j
      by (auto simp: bit_or_iff bit_push_bit_iff bit_ucast_iff)
  qed
qed

lemma le_bytes_le_word [simp]:
  "8 * length bs \<le> LENGTH('a::len) \<Longrightarrow> le_bytes (length bs) (le_word bs :: 'a word) = bs"
proof (induction bs)
  case Nil
  then show ?case by simp
next
  case (Cons b bs)
  have low: "ucast (le_word (b # bs) :: 'a word) = b"
    using Cons.prems
    by (intro bit_word_eqI) (auto simp: bit_ucast_iff bit_or_iff bit_push_bit_iff)
  have "drop_bit 8 (le_word (b # bs) :: 'a word) = le_word bs"
  proof (rule bit_word_eqI)
    fix i assume "i < LENGTH('a)"
    have "bit (drop_bit 8 (le_word (b # bs) :: 'a word)) i = bit (le_word (b # bs) :: 'a word) (i + 8)"
      by (simp only: bit_drop_bit_eq comp_def add.commute)
    also have "\<dots> = bit (le_word bs :: 'a word) i"
      using Cons.prems by (simp only: bit_le_word) (simp add: bit_le_word)
    finally show "bit (drop_bit 8 (le_word (b # bs) :: 'a word)) i = bit (le_word bs :: 'a word) i" .
  qed
  with low Cons show ?case by simp
qed

section \<open>Memory images and the byte swap\<close>

text \<open>
  The bytes \<open>write(&value, sizeof(value))\<close> reads from memory and the value
  \<open>read(&v, sizeof(v))\<close> leaves there, on a host of the given byte order.
\<close>

definition mem_bytes :: "byte_order \<Rightarrow> nat \<Rightarrow> 'a::len word \<Rightarrow> u8 list" where
  "mem_bytes host n w = (if host = LITTLE_ENDIAN then le_bytes n w else rev (le_bytes n w))"

definition mem_word :: "byte_order \<Rightarrow> u8 list \<Rightarrow> 'a::len word" where
  "mem_word host bs = le_word (if host = LITTLE_ENDIAN then bs else rev bs)"

lemma length_mem_bytes [simp]: "length (mem_bytes host n w) = n"
  by (simp add: mem_bytes_def)

lemma mem_word_mem_bytes [simp]:
  "LENGTH('a::len) \<le> 8 * n \<Longrightarrow> mem_word host (mem_bytes host n (w :: 'a word)) = w"
  by (simp add: mem_word_def mem_bytes_def)

definition bswap_16 :: "u16 \<Rightarrow> u16" where
  "bswap_16 w = le_word (rev (le_bytes 2 w))"

definition bswap_32 :: "u32 \<Rightarrow> u32" where
  "bswap_32 w = le_word (rev (le_bytes 4 w))"

definition bswap_64 :: "u64 \<Rightarrow> u64" where
  "bswap_64 w = le_word (rev (le_bytes 8 w))"

lemma rev_le_bytes_swap:
  "LENGTH('a::len) = 8 * n \<Longrightarrow>
   le_bytes n (le_word (rev (le_bytes n (w :: 'a word))) :: 'a word) = rev (le_bytes n w)"
  using le_bytes_le_word [of "rev (le_bytes n w)", where ?'a = 'a] by simp

lemma mem_bytes_bswap:
  "mem_bytes host 2 (bswap_16 a) = rev (mem_bytes host 2 a)"
  "mem_bytes host 4 (bswap_32 b) = rev (mem_bytes host 4 b)"
  "mem_bytes host 8 (bswap_64 c) = rev (mem_bytes host 8 c)"
  by (simp_all add: mem_bytes_def bswap_16_def bswap_32_def bswap_64_def rev_le_bytes_swap)

lemma bswap_involution [simp]:
  "bswap_16 (bswap_16 a) = a" "bswap_32 (bswap_32 b) = b" "bswap_64 (bswap_64 c) = c"
  by (simp_all add: bswap_16_def bswap_32_def bswap_64_def rev_le_bytes_swap)

text \<open>
  The two conditional swaps of the header: \<open>byteswapOnLittleEndian\<close> is the identity
  on a big endian host and the swap otherwise; \<open>byteswapOnBigEndian\<close> the other way.
  They are given for the 16 and 32 bit arguments the address classes use.
\<close>

definition byteswapOnLittleEndian_16 :: "byte_order \<Rightarrow> u16 \<Rightarrow> u16" where
  "byteswapOnLittleEndian_16 host t = (if host = BIG_ENDIAN then t else bswap_16 t)"

definition byteswapOnLittleEndian_32 :: "byte_order \<Rightarrow> u32 \<Rightarrow> u32" where
  "byteswapOnLittleEndian_32 host t = (if host = BIG_ENDIAN then t else bswap_32 t)"

definition byteswapOnBigEndian_32 :: "byte_order \<Rightarrow> u32 \<Rightarrow> u32" where
  "byteswapOnBigEndian_32 host t = (if host = BIG_ENDIAN then bswap_32 t else t)"

lemma byteswapOnLittleEndian_involution [simp]:
  "byteswapOnLittleEndian_16 host (byteswapOnLittleEndian_16 host a) = a"
  "byteswapOnLittleEndian_32 host (byteswapOnLittleEndian_32 host b) = b"
  by (simp_all add: byteswapOnLittleEndian_16_def byteswapOnLittleEndian_32_def)

text \<open>The conditional swap turns a host value into one whose image is in network order.\<close>

lemma network_order:
  "mem_bytes host 4 (byteswapOnLittleEndian_32 host v) = rev (le_bytes 4 v)"
  by (cases host)
     (simp_all add: byteswapOnLittleEndian_32_def mem_bytes_def bswap_32_def rev_le_bytes_swap)

end
