(* ===== verification/ByteArray.thy ===== *)
theory ByteArray
  imports Prelude Endian
begin

text \<open>
  \<^verbatim>\<open>src/src/bytearray.cpp\<close>, \<^verbatim>\<open>bytearray.h\<close>: the chunked byte buffer. The chain of
  nodes from \<open>m_root\<close> is the list \<open>m_nodes\<close>; a node is its block of cells, and
  the pointer \<open>m_cur\<close> is an index into the chain, the null pointer being the length of
  the chain. A cell is \<open>None\<close> while it holds the indeterminate value of
  \<open>new char[]\<close>. The flat buffer at the end of the theory is the contract the
  operations implement.
\<close>

section \<open>State\<close>

type_synonym cell = "u8 option"
type_synonym node = "cell list"

record bytearray =
  m_baseSize :: nat
  m_position :: nat
  m_capacity :: nat
  m_size :: nat
  m_nodes :: "node list"
  m_cur :: nat
  m_endian :: byte_order

definition Node_new :: "nat \<Rightarrow> node" where
  "Node_new s = replicate s None"

definition ByteArray_new :: "nat \<Rightarrow> bytearray" where
  "ByteArray_new base_size =
     \<lparr>m_baseSize = base_size, m_position = 0, m_capacity = base_size, m_size = 0,
      m_nodes = [Node_new base_size], m_cur = 0, m_endian = BIG_ENDIAN\<rparr>"

definition getPosition :: "bytearray \<Rightarrow> nat" where
  "getPosition ba = m_position ba"

definition getBaseSize :: "bytearray \<Rightarrow> nat" where
  "getBaseSize ba = m_baseSize ba"

definition getSize :: "bytearray \<Rightarrow> nat" where
  "getSize ba = m_size ba"

definition getReadSize :: "bytearray \<Rightarrow> nat" where
  "getReadSize ba = usub (m_size ba) (m_position ba)"

definition getCapacity :: "bytearray \<Rightarrow> nat" where
  "getCapacity ba = usub (m_capacity ba) (m_position ba)"

definition isLittleEndian :: "bytearray \<Rightarrow> bool" where
  "isLittleEndian ba = (m_endian ba = BIG_ENDIAN)"

definition setIsLittleEndian :: "bool \<Rightarrow> bytearray \<Rightarrow> bytearray" where
  "setIsLittleEndian val ba =
     (if val then ba\<lparr>m_endian := LITTLE_ENDIAN\<rparr> else ba\<lparr>m_endian := BIG_ENDIAN\<rparr>)"

definition clear :: "bytearray \<Rightarrow> bytearray" where
  "clear ba = ba\<lparr>m_position := 0, m_capacity := m_baseSize ba, m_size := 0,
                 m_nodes := take 1 (m_nodes ba), m_cur := 0\<rparr>"

section \<open>Growing\<close>

text \<open>
  \<open>ceil(1.0 * size / m_baseSize)\<close> is the exact ceiling as long as \<open>size\<close> is below
  \<open>2 ^ 52\<close>, which any allocatable size is. A base size of zero makes the quotient
  infinite and its conversion undefined.
\<close>

definition ceil_div :: "nat \<Rightarrow> nat \<Rightarrow> nat" where
  "ceil_div a b = (a + b - 1) div b"

definition addCapacity :: "nat \<Rightarrow> bytearray \<Rightarrow> bytearray res" where
  "addCapacity sz ba =
     (if sz = 0 then Inr ba
      else let old_cap = getCapacity ba in
        if old_cap \<ge> sz then Inr ba
        else if m_baseSize ba = 0 then Inl DivByZero
        else let count = ceil_div (sz - old_cap) (m_baseSize ba);
                 first = length (m_nodes ba) in
          Inr (ba\<lparr>m_nodes := m_nodes ba @ replicate count (Node_new (m_baseSize ba)),
                  m_capacity := m_capacity ba + count * m_baseSize ba,
                  m_cur := (if old_cap = 0 then first else m_cur ba)\<rparr>))"

section \<open>Writing\<close>

text \<open>
  The loop of \<open>write\<close>. \<open>npos\<close> and \<open>ncap\<close> are the offset and the room in the
  current node; \<open>memcpy\<close> outside the node's block is a \<open>BadAccess\<close>, and reading
  \<open>m_cur->size\<close> through the null pointer a \<open>NullDeref\<close>.
\<close>

function write_loop ::
  "node list \<Rightarrow> nat \<Rightarrow> nat \<Rightarrow> nat \<Rightarrow> nat \<Rightarrow> u8 list \<Rightarrow> (node list \<times> nat \<times> nat) res" where
  "write_loop nodes cur npos ncap pos buf =
     (if buf = [] then Inr (nodes, cur, pos)
      else if cur \<ge> length nodes then Inl NullDeref
      else if ncap \<ge> length buf then
        (if npos + length buf > length (nodes ! cur) then Inl BadAccess
         else Inr (nodes[cur := overwrite npos (map Some buf) (nodes ! cur)],
                   (if length (nodes ! cur) = npos + length buf then cur + 1 else cur),
                   pos + length buf))
      else if npos + ncap > length (nodes ! cur) then Inl BadAccess
      else if cur + 1 \<ge> length nodes then Inl NullDeref
      else write_loop (nodes[cur := overwrite npos (map Some (take ncap buf)) (nodes ! cur)])
             (cur + 1) 0 (length (nodes ! (cur + 1))) (pos + ncap) (drop ncap buf))"
  by pat_completeness auto
termination
  by (relation "measure (\<lambda>(nodes, cur, _). length nodes - cur)") auto

declare write_loop.simps [simp del]

definition ba_write :: "u8 list \<Rightarrow> bytearray \<Rightarrow> bytearray res" where
  "ba_write buf ba =
     (if length buf = 0 then Inr ba
      else bindR (addCapacity (length buf) ba) (\<lambda>ba.
        if m_baseSize ba = 0 then Inl DivByZero
        else if m_cur ba \<ge> length (m_nodes ba) then Inl NullDeref
        else let npos = m_position ba mod m_baseSize ba;
                 ncap = usub (length (m_nodes ba ! m_cur ba)) npos in
          bindR (write_loop (m_nodes ba) (m_cur ba) npos ncap (m_position ba) buf)
            (\<lambda>(nodes, cur, pos).
              Inr (ba\<lparr>m_nodes := nodes, m_cur := cur, m_position := pos,
                      m_size := (if pos > m_size ba then pos else m_size ba)\<rparr>))))"

section \<open>Reading\<close>

text \<open>The loop both \<open>read\<close> functions run; it returns the copied cells.\<close>

function read_loop ::
  "node list \<Rightarrow> nat \<Rightarrow> nat \<Rightarrow> nat \<Rightarrow> nat \<Rightarrow> nat \<Rightarrow> (cell list \<times> nat \<times> nat) res" where
  "read_loop nodes cur npos ncap pos sz =
     (if sz = 0 then Inr ([], cur, pos)
      else if cur \<ge> length nodes then Inl NullDeref
      else if ncap \<ge> sz then
        (if npos + sz > length (nodes ! cur) then Inl BadAccess
         else Inr (take sz (drop npos (nodes ! cur)),
                   (if length (nodes ! cur) = npos + sz then cur + 1 else cur),
                   pos + sz))
      else if npos + ncap > length (nodes ! cur) then Inl BadAccess
      else if cur + 1 \<ge> length nodes then Inl NullDeref
      else bindR (read_loop nodes (cur + 1) 0 (length (nodes ! (cur + 1))) (pos + ncap) (sz - ncap))
             (\<lambda>(rest, cur', pos'). Inr (take ncap (drop npos (nodes ! cur)) @ rest, cur', pos')))"
  by pat_completeness auto
termination
  by (relation "measure (\<lambda>(nodes, cur, _). length nodes - cur)") auto

declare read_loop.simps [simp del]

text \<open>
  \<open>read(buf, size)\<close>. The node under \<open>m_cur\<close> is looked at before the loop tests
  \<open>size > 0\<close>, as in the source.
\<close>

definition ba_read :: "nat \<Rightarrow> bytearray \<Rightarrow> (cell list \<times> bytearray) res" where
  "ba_read sz ba =
     (if sz > getReadSize ba then Inl OutOfRange
      else if m_baseSize ba = 0 then Inl DivByZero
      else if m_cur ba \<ge> length (m_nodes ba) then Inl NullDeref
      else let npos = m_position ba mod m_baseSize ba;
               ncap = usub (length (m_nodes ba ! m_cur ba)) npos in
        bindR (read_loop (m_nodes ba) (m_cur ba) npos ncap (m_position ba) sz)
          (\<lambda>(cells, cur, pos). Inr (cells, ba\<lparr>m_cur := cur, m_position := pos\<rparr>)))"

text \<open>
  \<open>read(buf, size, position) const\<close>. The offset is taken from \<open>position\<close>, the node
  from \<open>m_cur\<close>.
\<close>

definition ba_read_at :: "nat \<Rightarrow> nat \<Rightarrow> bytearray \<Rightarrow> cell list res" where
  "ba_read_at sz position ba =
     (if sz > usub (m_size ba) position then Inl OutOfRange
      else if m_baseSize ba = 0 then Inl DivByZero
      else if m_cur ba \<ge> length (m_nodes ba) then Inl NullDeref
      else let npos = position mod m_baseSize ba;
               ncap = usub (length (m_nodes ba ! m_cur ba)) npos in
        mapR fst (read_loop (m_nodes ba) (m_cur ba) npos ncap position sz))"

section \<open>Seeking\<close>

text \<open>The walk of \<open>setPosition\<close>: skip whole nodes while \<open>v\<close> is larger than the node.\<close>

fun seek_loop :: "node list \<Rightarrow> nat \<Rightarrow> nat \<Rightarrow> nat res" where
  "seek_loop [] cur v = Inl NullDeref"
| "seek_loop (n # ns) cur v =
     (if v > length n then seek_loop ns (cur + 1) (v - length n)
      else if v = length n then Inr (cur + 1)
      else Inr cur)"

definition setPosition :: "nat \<Rightarrow> bytearray \<Rightarrow> bytearray res" where
  "setPosition v ba =
     (if v > m_capacity ba then Inl OutOfRange
      else bindR (seek_loop (m_nodes ba) 0 v) (\<lambda>cur.
        Inr (ba\<lparr>m_position := v, m_size := (if v > m_size ba then v else m_size ba),
                m_cur := cur\<rparr>)))"

section \<open>Scatter and gather lists\<close>

text \<open>An \<open>iovec\<close>: the node it points into, the offset in its block and the length.\<close>

record iov =
  iov_node :: nat
  iov_off :: nat
  iov_len :: nat

function iov_loop :: "node list \<Rightarrow> nat \<Rightarrow> nat \<Rightarrow> nat \<Rightarrow> nat \<Rightarrow> iov list res" where
  "iov_loop nodes cur npos ncap len =
     (if len = 0 then Inr []
      else if cur \<ge> length nodes then Inl NullDeref
      else if ncap \<ge> len then Inr [\<lparr>iov_node = cur, iov_off = npos, iov_len = len\<rparr>]
      else if cur + 1 \<ge> length nodes then Inl NullDeref
      else mapR (Cons \<lparr>iov_node = cur, iov_off = npos, iov_len = ncap\<rparr>)
             (iov_loop nodes (cur + 1) 0 (length (nodes ! (cur + 1))) (len - ncap)))"
  by pat_completeness auto
termination
  by (relation "measure (\<lambda>(nodes, cur, _). length nodes - cur)") auto

declare iov_loop.simps [simp del]

definition iov_from :: "nat \<Rightarrow> nat \<Rightarrow> nat \<Rightarrow> bytearray \<Rightarrow> iov list res" where
  "iov_from cur position len ba =
     (if m_baseSize ba = 0 then Inl DivByZero
      else if cur \<ge> length (m_nodes ba) then Inl NullDeref
      else let npos = position mod m_baseSize ba in
        iov_loop (m_nodes ba) cur npos (usub (length (m_nodes ba ! cur)) npos) len)"

definition getReadBuffers :: "nat \<Rightarrow> bytearray \<Rightarrow> (iov list \<times> nat) res" where
  "getReadBuffers len ba =
     (let len = (if len > getReadSize ba then getReadSize ba else len) in
      if len = 0 then Inr ([], 0)
      else mapR (\<lambda>v. (v, len)) (iov_from (m_cur ba) (m_position ba) len ba))"

text \<open>
  With a start position: the length is still cut to \<open>getReadSize()\<close>, which counts from
  \<open>m_position\<close>, and the node is found by \<open>position / m_baseSize\<close> steps from the
  root.
\<close>

definition getReadBuffers_at :: "nat \<Rightarrow> nat \<Rightarrow> bytearray \<Rightarrow> (iov list \<times> nat) res" where
  "getReadBuffers_at len position ba =
     (let len = (if len > getReadSize ba then getReadSize ba else len) in
      if len = 0 then Inr ([], 0)
      else if m_baseSize ba = 0 then Inl DivByZero
      else mapR (\<lambda>v. (v, len)) (iov_from (position div m_baseSize ba) position len ba))"

definition getWriteBuffers :: "nat \<Rightarrow> bytearray \<Rightarrow> (iov list \<times> nat \<times> bytearray) res" where
  "getWriteBuffers len ba =
     (if len = 0 then Inr ([], 0, ba)
      else bindR (addCapacity len ba) (\<lambda>ba.
        mapR (\<lambda>v. (v, len, ba)) (iov_from (m_cur ba) (m_position ba) len ba)))"

section \<open>Text and files\<close>

definition ba_toString :: "bytearray \<Rightarrow> cell list res" where
  "ba_toString ba =
     (if getReadSize ba = 0 then Inr [] else ba_read_at (getReadSize ba) (m_position ba) ba)"

definition hex_digit :: "nat \<Rightarrow> char" where
  "hex_digit d = ''0123456789abcdef'' ! d"

definition hex_byte :: "u8 \<Rightarrow> string" where
  "hex_byte b = [hex_digit (unat b div 16), hex_digit (unat b mod 16), CHR '' '']"

fun hex_from :: "nat \<Rightarrow> u8 list \<Rightarrow> string" where
  "hex_from i [] = []"
| "hex_from i (b # bs) =
     (if i > 0 \<and> i mod 32 = 0 then [CHR 0x0A] else []) @ hex_byte b @ hex_from (i + 1) bs"

text \<open>A cell whose value is used as a byte must be determinate.\<close>

definition bytes_of :: "cell list \<Rightarrow> u8 list res" where
  "bytes_of cs = (if None \<in> set cs then Inl Indeterminate else Inr (map the cs))"

definition toHexString :: "bytearray \<Rightarrow> string res" where
  "toHexString ba =
     bindR (ba_toString ba) (\<lambda>cs. mapR (hex_from 0) (bytes_of cs))"

text \<open>
  \<open>writeToFile\<close>: \<open>opened\<close> is whether the stream could be opened; the result is the
  returned flag and the bytes the file receives. \<open>diff\<close> is recomputed from the
  advancing position in every round and subtracted from the length in both branches; the
  pointer moves to the next node in every round. A negative length given to
  \<open>ofstream::write\<close> is a \<open>BadAccess\<close>, as is a block end beyond the node.
\<close>

function file_loop :: "nat \<Rightarrow> node list \<Rightarrow> nat \<Rightarrow> int \<Rightarrow> int \<Rightarrow> cell list res" where
  "file_loop base nodes cur pos read_size =
     (if read_size \<le> 0 then Inr []
      else if base = 0 then Inl DivByZero
      else let diff = pos mod int base;
               len = (if read_size > int base then int base else read_size) - diff in
        if cur \<ge> length nodes then Inl NullDeref
        else if len < 0 \<or> diff + len > int (length (nodes ! cur)) then Inl BadAccess
        else mapR (\<lambda>rest. take (nat len) (drop (nat diff) (nodes ! cur)) @ rest)
               (file_loop base nodes (cur + 1) (pos + len) (read_size - len)))"
  by pat_completeness auto
termination
  by (relation "measure (\<lambda>(base, nodes, cur, _). length nodes - cur)") auto

declare file_loop.simps [simp del]

definition writeToFile :: "bool \<Rightarrow> bytearray \<Rightarrow> (bool \<times> cell list) res" where
  "writeToFile opened ba =
     (if \<not> opened then Inr (False, [])
      else mapR (\<lambda>cs. (True, cs))
             (file_loop (m_baseSize ba) (m_nodes ba) (m_cur ba) (int (m_position ba))
                (int (getReadSize ba))))"

text \<open>
  \<open>readFromFile\<close>: the file's content is read in pieces of \<open>m_baseSize\<close> bytes; the
  last, short (perhaps empty) piece sets the end-of-file flag and ends the loop. Pieces of zero
  bytes would never reach the end of the file.
\<close>

function readFile_loop :: "u8 list \<Rightarrow> bytearray \<Rightarrow> bytearray res" where
  "readFile_loop content ba =
     (if m_baseSize ba = 0 then Inl Diverges
      else if length content < m_baseSize ba then ba_write content ba
      else bindR (ba_write (take (m_baseSize ba) content) ba)
             (readFile_loop (drop (m_baseSize ba) content)))"
  by pat_completeness auto
termination
  by (relation "measure (\<lambda>(content, _). length content)") auto

declare readFile_loop.simps [simp del]

definition readFromFile :: "u8 list option \<Rightarrow> bytearray \<Rightarrow> (bool \<times> bytearray) res" where
  "readFromFile file ba =
     (case file of
        None \<Rightarrow> Inr (False, ba)
      | Some content \<Rightarrow> mapR (\<lambda>ba. (True, ba)) (readFile_loop content ba))"

end
