(* ===== verification/ByteArray_Refine.thy ===== *)
theory ByteArray_Refine
  imports ByteArray
begin

text \<open>
  The contract of the byte buffer: a flat memory with a position and a size. The chunked
  operations of ByteArray preserve \<open>ba_wf\<close> and implement the flat ones through
  \<open>abs_ba\<close>, which forgets the chunks.
\<close>

section \<open>Specification\<close>

record flat =
  fl_mem :: "cell list"
  fl_pos :: nat
  fl_size :: nat

definition abs_ba :: "bytearray \<Rightarrow> flat" where
  "abs_ba ba = \<lparr>fl_mem = concat (m_nodes ba), fl_pos = m_position ba, fl_size = m_size ba\<rparr>"

definition ba_wf :: "bytearray \<Rightarrow> bool" where
  "ba_wf ba \<longleftrightarrow>
     0 < m_baseSize ba \<and> m_nodes ba \<noteq> [] \<and> uniform (m_baseSize ba) (m_nodes ba) \<and>
     m_capacity ba = length (m_nodes ba) * m_baseSize ba \<and>
     m_position ba \<le> m_size ba \<and> m_size ba \<le> m_capacity ba \<and>
     m_cur ba = m_position ba div m_baseSize ba"

definition flat_grow :: "nat \<Rightarrow> nat \<Rightarrow> flat \<Rightarrow> flat" where
  "flat_grow B n f =
     f\<lparr>fl_mem := fl_mem f @
        replicate (ceil_div (n - (length (fl_mem f) - fl_pos f)) B * B) None\<rparr>"

definition flat_write :: "nat \<Rightarrow> u8 list \<Rightarrow> flat \<Rightarrow> flat" where
  "flat_write B bs f =
     (let g = flat_grow B (length bs) f; p = fl_pos f + length bs in
      g\<lparr>fl_mem := overwrite (fl_pos f) (map Some bs) (fl_mem g), fl_pos := p,
        fl_size := max (fl_size f) p\<rparr>)"

definition flat_slice :: "nat \<Rightarrow> nat \<Rightarrow> flat \<Rightarrow> cell list" where
  "flat_slice p n f = take n (drop p (fl_mem f))"

section \<open>Capacity\<close>

lemma ceil_div_ge: "0 < b \<Longrightarrow> a \<le> ceil_div a b * b"
proof -
  assume b: "0 < b"
  have "(a + b - 1) div b * b + (a + b - 1) mod b = a + b - 1" by simp
  moreover have "(a + b - 1) mod b \<le> b - 1" using b by (simp add: Suc_leI less_Suc_eq_le [symmetric])
  ultimately show ?thesis using b unfolding ceil_div_def by linarith
qed

lemma ceil_div_0 [simp]: "0 < b \<Longrightarrow> ceil_div 0 b = 0"
  by (simp add: ceil_div_def)

lemma concat_replicate_None: "concat (replicate c (replicate B None)) = replicate (c * B) None"
  by (induction c) (auto simp: replicate_add)

lemma ba_wf_lens [simp]:
  "ba_wf ba \<Longrightarrow> getReadSize ba = m_size ba - m_position ba"
  "ba_wf ba \<Longrightarrow> getCapacity ba = m_capacity ba - m_position ba"
  "ba_wf ba \<Longrightarrow> length (concat (m_nodes ba)) = m_capacity ba"
  by (simp_all add: ba_wf_def getReadSize_def getCapacity_def length_concat_uniform)

lemma ba_wf_new: "0 < base \<Longrightarrow> ba_wf (ByteArray_new base)"
  by (simp add: ba_wf_def ByteArray_new_def Node_new_def)

lemma ba_wf_cur: "ba_wf ba \<Longrightarrow> m_position ba < m_capacity ba \<longleftrightarrow> m_cur ba < length (m_nodes ba)"
  by (auto simp: ba_wf_def less_mult_imp_div_less div_less_iff_less_mult)

lemma addCapacity_refines:
  assumes "ba_wf ba"
  shows "\<exists>ba'. addCapacity n ba = Inr ba' \<and> ba_wf ba' \<and>
           abs_ba ba' = flat_grow (m_baseSize ba) n (abs_ba ba) \<and>
           m_position ba + n \<le> m_capacity ba' \<and> m_baseSize ba' = m_baseSize ba \<and>
           m_endian ba' = m_endian ba"
proof (cases "n = 0 \<or> m_capacity ba - m_position ba \<ge> n")
  case True
  with assms show ?thesis
    by (auto simp: addCapacity_def abs_ba_def flat_grow_def ba_wf_def getCapacity_def
        length_concat_uniform)
next
  case False
  let ?B = "m_baseSize ba" and ?old = "m_capacity ba - m_position ba"
  let ?c = "ceil_div (n - ?old) ?B"
  have B: "0 < ?B" using assms by (simp add: ba_wf_def)
  have grow: "n - ?old \<le> ?c * ?B" by (rule ceil_div_ge [OF B])
  have cur: "(if ?old = 0 then length (m_nodes ba) else m_cur ba) = m_position ba div ?B"
  proof (cases "?old = 0")
    case True
    then have "m_position ba = length (m_nodes ba) * ?B"
      using assms unfolding ba_wf_def by linarith
    with True B show ?thesis by simp
  qed (use assms in \<open>auto simp: ba_wf_def\<close>)
  have wf: "m_position ba \<le> m_capacity ba" using assms by (simp add: ba_wf_def)
  let ?ba = "ba\<lparr>m_nodes := m_nodes ba @ replicate ?c (Node_new ?B),
      m_capacity := m_capacity ba + ?c * ?B, m_cur := m_position ba div ?B\<rparr>"
  have eq: "addCapacity n ba = Inr ?ba"
    using assms False B cur by (simp add: addCapacity_def Let_def)
  have "ba_wf ?ba"
    using assms B by (simp add: ba_wf_def Node_new_def add_mult_distrib)
  moreover have "abs_ba ?ba = flat_grow ?B n (abs_ba ba)"
    using assms by (simp add: abs_ba_def flat_grow_def Node_new_def concat_replicate_None)
  moreover have "m_position ba + n \<le> m_capacity ba + ?c * ?B"
    using grow wf by linarith
  ultimately show ?thesis
    using eq by simp
qed

section \<open>The copy loops\<close>

lemma block_index:
  fixes B :: nat
  assumes "0 < B" and "npos + k \<le> B" and "pos = c * B + npos"
  shows "(pos + k) div B = (if npos + k = B then c + 1 else c)"
proof -
  have "(pos + k) div B = c + (npos + k) div B"
    using assms div_mult_self3 [of B c "npos + k"] by (simp add: add.assoc)
  with assms show ?thesis by simp
qed

lemma write_loop_refines:
  assumes "uniform B nodes" and "0 < B" and "cur < length nodes" and "npos < B"
    and "ncap = B - npos" and "pos = cur * B + npos"
    and "pos + length buf \<le> length nodes * B" and "buf \<noteq> []"
  shows "\<exists>nodes'. write_loop nodes cur npos ncap pos buf
            = Inr (nodes', (pos + length buf) div B, pos + length buf) \<and>
          uniform B nodes' \<and> length nodes' = length nodes \<and>
          concat nodes' = overwrite pos (map Some buf) (concat nodes)"
  using assms
proof (induction nodes cur npos ncap pos buf rule: write_loop.induct)
  case (1 nodes cur npos ncap pos buf)
  note len = uniform_nth [OF "1.prems"(1,3)]
  show ?case
  proof (cases "ncap \<ge> length buf")
    case True
    have cur': "(if npos + length buf = B then cur + 1 else cur) = (pos + length buf) div B"
      using True "1.prems" block_index [of B npos "length buf" pos cur] by simp
    let ?n = "nodes[cur := overwrite npos (map Some buf) (nodes ! cur)]"
    have "uniform B ?n"
      using "1.prems" True len by (intro uniform_update) auto
    moreover have "concat ?n = overwrite pos (map Some buf) (concat nodes)"
      using "1.prems" True by (simp add: concat_update_block)
    ultimately show ?thesis
      using True "1.prems" len cur' by (auto simp: write_loop.simps [of nodes])
  next
    case False
    let ?n = "nodes[cur := overwrite npos (map Some (take ncap buf)) (nodes ! cur)]"
    have lt: "cur + 1 < length nodes"
    proof (rule ccontr)
      assume "\<not> ?thesis"
      then have "length nodes * B \<le> (cur + 1) * B" by (intro mult_le_mono1) simp
      with False "1.prems" show False by (simp add: algebra_simps)
    qed
    have un: "uniform B ?n"
      using "1.prems" len False by (intro uniform_update) auto
    have cc: "concat ?n = overwrite pos (map Some (take ncap buf)) (concat nodes)"
      using "1.prems" False by (simp add: concat_update_block)
    have nx: "length (nodes ! (cur + 1)) = B" by (rule uniform_nth [OF "1.prems"(1) lt])
    have pos': "pos + ncap = (cur + 1) * B + 0" using "1.prems" by (simp add: algebra_simps)
    have "\<exists>nodes'. write_loop ?n (cur + 1) 0 (length (nodes ! (cur + 1))) (pos + ncap) (drop ncap buf)
            = Inr (nodes', (pos + ncap + length (drop ncap buf)) div B,
                   pos + ncap + length (drop ncap buf)) \<and>
          uniform B nodes' \<and> length nodes' = length ?n \<and>
          concat nodes' = overwrite (pos + ncap) (map Some (drop ncap buf)) (concat ?n)"
      using un lt nx pos' False "1.prems" len by (intro "1.IH") auto
    then obtain nodes' where rec:
        "write_loop ?n (cur + 1) 0 (length (nodes ! (cur + 1))) (pos + ncap) (drop ncap buf)
           = Inr (nodes', (pos + length buf) div B, pos + length buf)"
        "uniform B nodes'" "length nodes' = length nodes"
        "concat nodes' = overwrite (pos + ncap) (map Some (drop ncap buf)) (concat ?n)"
      using False by auto
    moreover have "overwrite (pos + ncap) (map Some (drop ncap buf)) (concat ?n)
          = overwrite pos (map Some buf) (concat nodes)"
      using overwrite_append [of pos "map Some (take ncap buf)" "map Some (drop ncap buf)" "concat nodes"]
        cc False "1.prems" by (simp add: length_concat_uniform flip: map_append)
    moreover have "write_loop nodes cur npos ncap pos buf
        = write_loop ?n (cur + 1) 0 (length (nodes ! (cur + 1))) (pos + ncap) (drop ncap buf)"
      using False lt len "1.prems" by (subst write_loop.simps) simp
    ultimately show ?thesis
      by metis
  qed
qed

lemma read_loop_refines:
  assumes "uniform B nodes" and "0 < B" and "cur < length nodes" and "npos < B"
    and "ncap = B - npos" and "pos = cur * B + npos"
    and "pos + n \<le> length nodes * B"
  shows "read_loop nodes cur npos ncap pos n
    = Inr (take n (drop pos (concat nodes)), (pos + n) div B, pos + n)"
  using assms
proof (induction nodes cur npos ncap pos n rule: read_loop.induct)
  case (1 nodes cur npos ncap pos n)
  note len = uniform_nth [OF "1.prems"(1,3)]
  have dr: "drop pos (concat nodes) = drop npos (nodes ! cur) @ drop ((cur + 1) * B) (concat nodes)"
    using drop_concat_block [of B nodes cur npos] "1.prems" by simp
  show ?case
  proof (cases "n = 0")
    case True
    with "1.prems" show ?thesis by (subst read_loop.simps) simp
  next
    case nz: False
    show ?thesis
    proof (cases "ncap \<ge> n")
      case True
      then have "npos + n \<le> B" using "1.prems" by linarith
      with True nz "1.prems" len dr block_index [of B npos n pos cur]
      show ?thesis by (subst read_loop.simps) simp
    next
      case False
      have lt: "cur + 1 < length nodes"
      proof (rule ccontr)
        assume "\<not> ?thesis"
        then have "length nodes * B \<le> (cur + 1) * B" by (intro mult_le_mono1) simp
        with False "1.prems" show False by (simp add: algebra_simps)
      qed
      have nx: "length (nodes ! (cur + 1)) = B" by (rule uniform_nth [OF "1.prems"(1) lt])
      have pos': "pos + ncap = (cur + 1) * B + 0" using "1.prems" by (simp add: algebra_simps)
      have "read_loop nodes (cur + 1) 0 (length (nodes ! (cur + 1))) (pos + ncap) (n - ncap)
          = Inr (take (n - ncap) (drop (pos + ncap) (concat nodes)),
                 (pos + ncap + (n - ncap)) div B, pos + ncap + (n - ncap))"
        using nz lt nx pos' False "1.prems" len by (intro "1.IH") auto
      then show ?thesis
        using nz False lt len dr pos' "1.prems" by (subst read_loop.simps) (simp add: add.commute)
    qed
  qed
qed

lemma seek_loop_refines:
  assumes "uniform B nodes" and "0 < B" and "nodes \<noteq> []" and "v \<le> length nodes * B"
  shows "seek_loop nodes c v = Inr (c + v div B)"
  using assms
proof (induction nodes c v rule: seek_loop.induct)
  case (2 n ns cur v)
  have "ns \<noteq> []" if "v > B" using that 2 by auto
  with 2 show ?case by (auto simp: le_div_geq)
qed simp

section \<open>Writing, reading and seeking\<close>

lemma ba_write_refines:
  assumes "ba_wf ba"
  shows "\<exists>ba'. ba_write bs ba = Inr ba' \<and> ba_wf ba' \<and>
           abs_ba ba' = flat_write (m_baseSize ba) bs (abs_ba ba) \<and>
           m_baseSize ba' = m_baseSize ba \<and> m_endian ba' = m_endian ba"
proof (cases "bs = []")
  case True
  with assms show ?thesis
    by (auto simp: ba_write_def flat_write_def flat_grow_def abs_ba_def ba_wf_def)
next
  case False
  let ?B = "m_baseSize ba"
  obtain g where g: "addCapacity (length bs) ba = Inr g" "ba_wf g"
      "abs_ba g = flat_grow ?B (length bs) (abs_ba ba)"
      "m_position ba + length bs \<le> m_capacity g" "m_baseSize g = ?B" "m_endian g = m_endian ba"
    using addCapacity_refines [OF assms] by blast
  have pos: "m_position g = m_position ba" "m_size g = m_size ba"
    using g(3) by (simp_all add: abs_ba_def flat_grow_def)
  have B: "0 < ?B" "uniform ?B (m_nodes g)" "m_capacity g = length (m_nodes g) * ?B"
      "m_cur g = m_position g div ?B"
    using g(2,5) by (simp_all add: ba_wf_def)
  have cur: "m_cur g < length (m_nodes g)"
    using ba_wf_cur [OF g(2)] g(4) pos False by (simp add: less_le_trans [rotated])
  obtain nodes' where w: "write_loop (m_nodes g) (m_cur g) (m_position g mod ?B)
        (?B - m_position g mod ?B) (m_position g) bs
      = Inr (nodes', (m_position g + length bs) div ?B, m_position g + length bs)"
      "uniform ?B nodes'" "length nodes' = length (m_nodes g)"
      "concat nodes' = overwrite (m_position g) (map Some bs) (concat (m_nodes g))"
    using write_loop_refines [of ?B "m_nodes g" "m_cur g" "m_position g mod ?B"
        "?B - m_position g mod ?B" "m_position g" bs] B cur False g(4) pos by auto
  let ?g = "g\<lparr>m_nodes := nodes', m_cur := (m_position g + length bs) div ?B,
      m_position := m_position g + length bs, m_size := max (m_size g) (m_position g + length bs)\<rparr>"
  have "ba_write bs ba = Inr ?g"
    using False g(1,5) B cur w(1) uniform_nth [OF B(2) cur]
    by (simp add: ba_write_def Let_def max_def)
  moreover have "ba_wf ?g"
    using g(2,4,5) w(2,3) pos by (auto simp: ba_wf_def)
  moreover have "abs_ba ?g = flat_write ?B bs (abs_ba ba)"
    using g(3) w(4) pos by (simp add: flat_write_def abs_ba_def flat_grow_def Let_def)
  ultimately show ?thesis
    using g(5,6) by simp
qed

definition ba_advance :: "nat \<Rightarrow> bytearray \<Rightarrow> bytearray" where
  "ba_advance n ba = ba\<lparr>m_cur := (m_position ba + n) div m_baseSize ba, m_position := m_position ba + n\<rparr>"

lemma ba_advance_wf: "ba_wf ba \<Longrightarrow> n \<le> m_size ba - m_position ba \<Longrightarrow> ba_wf (ba_advance n ba)"
  by (auto simp: ba_wf_def ba_advance_def)

lemma ba_advance_fields [simp]:
  "m_position (ba_advance n ba) = m_position ba + n"
  "m_size (ba_advance n ba) = m_size ba"
  "m_nodes (ba_advance n ba) = m_nodes ba"
  "m_capacity (ba_advance n ba) = m_capacity ba"
  "m_baseSize (ba_advance n ba) = m_baseSize ba"
  "m_endian (ba_advance n ba) = m_endian ba"
  by (simp_all add: ba_advance_def)

lemma ba_read_loop:
  assumes "ba_wf ba" and "m_position ba < m_capacity ba" and "n \<le> m_size ba - m_position ba"
  shows "read_loop (m_nodes ba) (m_cur ba) (m_position ba mod m_baseSize ba)
      (usub (length (m_nodes ba ! m_cur ba)) (m_position ba mod m_baseSize ba)) (m_position ba) n
    = Inr (flat_slice (m_position ba) n (abs_ba ba), (m_position ba + n) div m_baseSize ba,
           m_position ba + n)"
proof -
  have cur: "m_cur ba < length (m_nodes ba)" using ba_wf_cur assms by blast
  then have "length (m_nodes ba ! m_cur ba) = m_baseSize ba"
    using assms uniform_nth by (auto simp: ba_wf_def)
  with cur assms show ?thesis
    by (subst read_loop_refines [of "m_baseSize ba"])
       (auto simp: ba_wf_def flat_slice_def abs_ba_def intro: order_trans)
qed

lemma ba_read_eq:
  assumes "ba_wf ba"
  shows "ba_read n ba =
    (if n > m_size ba - m_position ba then Inl OutOfRange
     else if m_position ba = m_capacity ba then Inl NullDeref
     else Inr (flat_slice (m_position ba) n (abs_ba ba), ba_advance n ba))"
proof -
  have "m_position ba = m_capacity ba \<longleftrightarrow> \<not> m_cur ba < length (m_nodes ba)"
    using ba_wf_cur [OF assms] assms unfolding ba_wf_def by linarith
  then show ?thesis
    using ba_read_loop [OF assms] assms
    by (auto simp: ba_read_def ba_advance_def Let_def ba_wf_def getReadSize_def)
qed

lemma setPosition_eq:
  assumes "ba_wf ba"
  shows "setPosition v ba =
    (if v > m_capacity ba then Inl OutOfRange
     else Inr (ba\<lparr>m_position := v, m_size := max (m_size ba) v, m_cur := v div m_baseSize ba\<rparr>))"
  using assms seek_loop_refines [of "m_baseSize ba" "m_nodes ba" v 0]
  by (auto simp: setPosition_def ba_wf_def max_def)

lemma setPosition_wf: "ba_wf ba \<Longrightarrow> setPosition v ba = Inr ba' \<Longrightarrow> ba_wf ba'"
  by (auto simp: setPosition_eq split: if_splits) (auto simp: ba_wf_def)

lemma clear_wf:
  assumes "ba_wf ba"
  shows "ba_wf (clear ba)"
proof -
  obtain n ns where "m_nodes ba = n # ns" using assms by (cases "m_nodes ba") (auto simp: ba_wf_def)
  with assms show ?thesis by (auto simp: ba_wf_def clear_def)
qed

lemma ba_read_at_same_node:
  assumes "ba_wf ba" and "p div m_baseSize ba = m_position ba div m_baseSize ba"
    and "m_position ba < m_capacity ba" and "p \<le> m_size ba" and "n \<le> m_size ba - p"
  shows "ba_read_at n p ba = Inr (flat_slice p n (abs_ba ba))"
proof -
  have cur: "m_cur ba < length (m_nodes ba)" using ba_wf_cur assms by blast
  note wf = assms(1) [unfolded ba_wf_def]
  have len: "length (m_nodes ba ! m_cur ba) = m_baseSize ba"
    by (rule uniform_nth) (use wf cur in auto)
  have "m_cur ba = p div m_baseSize ba" using wf assms(2) by metis
  then have "p = m_cur ba * m_baseSize ba + p mod m_baseSize ba" by simp
  then have "read_loop (m_nodes ba) (m_cur ba) (p mod m_baseSize ba)
      (m_baseSize ba - p mod m_baseSize ba) p n
    = Inr (take n (drop p (concat (m_nodes ba))), (p + n) div m_baseSize ba, p + n)"
    by (intro read_loop_refines) (use wf cur assms(4,5) in auto)
  with len cur wf assms(4,5) show ?thesis
    by (simp add: ba_read_at_def Let_def flat_slice_def abs_ba_def)
qed

lemma ba_toString_eq:
  assumes "ba_wf ba"
  shows "ba_toString ba = Inr (flat_slice (m_position ba) (m_size ba - m_position ba) (abs_ba ba))"
proof (cases "m_size ba = m_position ba")
  case True
  with assms show ?thesis by (simp add: ba_toString_def flat_slice_def)
next
  case False
  with assms have "m_position ba < m_capacity ba" unfolding ba_wf_def by linarith
  with assms False show ?thesis
    by (simp add: ba_toString_def ba_read_at_same_node ba_wf_def getReadSize_def)
qed

end
