(* ===== verification/ByteArray_IO.thy ===== *)
theory ByteArray_IO
  imports ByteArray_Refine
begin

text \<open>
  The scatter and gather lists of the byte buffer and its file operations: the addresses
  an \<open>iovec\<close> list covers, and when \<open>writeToFile\<close> writes the readable bytes.
\<close>

section \<open>Scatter and gather lists\<close>

definition iov_addrs :: "nat \<Rightarrow> iov \<Rightarrow> nat list" where
  "iov_addrs B v = [iov_node v * B + iov_off v ..< iov_node v * B + iov_off v + iov_len v]"

definition iov_ok :: "nat \<Rightarrow> node list \<Rightarrow> iov \<Rightarrow> bool" where
  "iov_ok B nodes v \<longleftrightarrow>
     iov_node v < length nodes \<and> 0 < iov_len v \<and> iov_off v + iov_len v \<le> B"

text \<open>An \<open>iovec\<close> list that covers the addresses from \<open>p\<close> up to \<open>p + n\<close>, in order.\<close>

definition iov_covers :: "nat \<Rightarrow> node list \<Rightarrow> iov list \<Rightarrow> nat \<Rightarrow> nat \<Rightarrow> bool" where
  "iov_covers B nodes vs p n \<longleftrightarrow>
     concat (map (iov_addrs B) vs) = [p ..< p + n] \<and> list_all (iov_ok B nodes) vs"

lemma iov_covers_Nil [simp]: "iov_covers B nodes [] p 0"
  by (simp add: iov_covers_def)

lemma iov_loop_covers:
  assumes "uniform B nodes" and "0 < B" and "cur < length nodes" and "npos < B"
    and "ncap = B - npos" and "pos = cur * B + npos" and "pos + n \<le> length nodes * B"
  shows "\<exists>vs. iov_loop nodes cur npos ncap n = Inr vs \<and> iov_covers B nodes vs pos n"
  using assms
proof (induction nodes cur npos ncap n arbitrary: pos rule: iov_loop.induct)
  case (1 nodes cur npos ncap n)
  show ?case
  proof (cases "n = 0 \<or> ncap \<ge> n")
    case True
    then have "npos + n \<le> B" using "1.prems" by auto
    with True "1.prems" show ?thesis
      by (subst iov_loop.simps) (auto simp: iov_covers_def iov_addrs_def iov_ok_def)
  next
    case False
    have lt: "cur + 1 < length nodes"
    proof (rule ccontr)
      assume "\<not> ?thesis"
      then have "length nodes * B \<le> (cur + 1) * B" by (intro mult_le_mono1) simp
      moreover have "B < npos + n" using False "1.prems" by linarith
      ultimately show False using "1.prems" by (simp add: algebra_simps)
    qed
    have nx: "length (nodes ! (cur + 1)) = B" by (rule uniform_nth [OF "1.prems"(1) lt])
    have pos': "pos + ncap = (cur + 1) * B + 0" using "1.prems" by (simp add: algebra_simps)
    have "\<exists>vs. iov_loop nodes (cur + 1) 0 (length (nodes ! (cur + 1))) (n - ncap) = Inr vs \<and>
        iov_covers B nodes vs (pos + ncap) (n - ncap)"
      using lt nx pos' False "1.prems" by (intro "1.IH") auto
    then obtain vs where vs:
        "iov_loop nodes (cur + 1) 0 (length (nodes ! (cur + 1))) (n - ncap) = Inr vs"
        "iov_covers B nodes vs (pos + ncap) (n - ncap)"
      by blast
    have "[pos ..< pos + ncap] @ [pos + ncap ..< pos + ncap + (n - ncap)] = [pos ..< pos + n]"
      using False upt_add_eq_append [of pos "pos + ncap" "n - ncap"] by simp
    moreover have "iov_addrs B \<lparr>iov_node = cur, iov_off = npos, iov_len = ncap\<rparr> = [pos ..< pos + ncap]"
      using "1.prems" by (simp add: iov_addrs_def)
    moreover have "iov_ok B nodes \<lparr>iov_node = cur, iov_off = npos, iov_len = ncap\<rparr>"
      using "1.prems" by (simp add: iov_ok_def)
    ultimately have "iov_covers B nodes (\<lparr>iov_node = cur, iov_off = npos, iov_len = ncap\<rparr> # vs) pos n"
      using vs(2) by (simp only: iov_covers_def list.map concat.simps list.pred_inject simp_thms)
    then show ?thesis
      using vs(1) False lt "1.prems" by (subst iov_loop.simps) simp
  qed
qed

lemma iov_from_covers:
  assumes "ba_wf ba" and "pos + n \<le> m_capacity ba" and "0 < n"
  shows "\<exists>vs. iov_from (pos div m_baseSize ba) pos n ba = Inr vs \<and>
           iov_covers (m_baseSize ba) (m_nodes ba) vs pos n"
proof -
  let ?B = "m_baseSize ba"
  have wf: "0 < ?B" "uniform ?B (m_nodes ba)" "m_capacity ba = length (m_nodes ba) * ?B"
    using assms(1) by (simp_all add: ba_wf_def)
  have cur: "pos div ?B < length (m_nodes ba)"
    using assms(2,3) wf by (simp add: less_mult_imp_div_less)
  with wf have "length (m_nodes ba ! (pos div ?B)) = ?B" by (simp add: uniform_nth)
  moreover have "\<exists>vs. iov_loop (m_nodes ba) (pos div ?B) (pos mod ?B) (?B - pos mod ?B) n = Inr vs \<and>
      iov_covers ?B (m_nodes ba) vs pos n"
    using wf cur assms(2) by (intro iov_loop_covers) auto
  ultimately show ?thesis
    using cur wf by (simp add: iov_from_def Let_def)
qed

lemma getReadBuffers_covers:
  assumes "ba_wf ba"
  shows "\<exists>vs. getReadBuffers n ba = Inr (vs, min n (m_size ba - m_position ba)) \<and>
           iov_covers (m_baseSize ba) (m_nodes ba) vs (m_position ba)
             (min n (m_size ba - m_position ba))"
proof (cases "min n (m_size ba - m_position ba) = 0")
  case True
  then show ?thesis
    using assms by (auto simp: getReadBuffers_def min_def split: if_splits)
next
  case False
  have "m_cur ba = m_position ba div m_baseSize ba" using assms by (simp add: ba_wf_def)
  moreover have "\<exists>vs. iov_from (m_position ba div m_baseSize ba) (m_position ba)
        (min n (m_size ba - m_position ba)) ba = Inr vs \<and>
      iov_covers (m_baseSize ba) (m_nodes ba) vs (m_position ba) (min n (m_size ba - m_position ba))"
    using False assms by (intro iov_from_covers) (auto simp: ba_wf_def)
  ultimately show ?thesis
    using False assms by (auto simp: getReadBuffers_def Let_def min_def split: if_splits)
qed

lemma getWriteBuffers_covers:
  assumes "ba_wf ba"
  shows "\<exists>vs ba'. getWriteBuffers n ba = Inr (vs, n, ba') \<and> ba_wf ba' \<and>
           abs_ba ba' = flat_grow (m_baseSize ba) n (abs_ba ba) \<and>
           m_baseSize ba' = m_baseSize ba \<and> m_position ba + n \<le> m_capacity ba' \<and>
           iov_covers (m_baseSize ba) (m_nodes ba') vs (m_position ba) n"
proof (cases "n = 0")
  case True
  with assms show ?thesis
    by (auto simp: getWriteBuffers_def flat_grow_def abs_ba_def ba_wf_def)
next
  case False
  obtain g where g: "addCapacity n ba = Inr g" "ba_wf g"
      "abs_ba g = flat_grow (m_baseSize ba) n (abs_ba ba)"
      "m_position ba + n \<le> m_capacity g" "m_baseSize g = m_baseSize ba"
    using addCapacity_refines [OF assms] by blast
  have pos: "m_position g = m_position ba" using g(3) by (simp add: abs_ba_def flat_grow_def)
  have "m_cur g = m_position g div m_baseSize g" using g(2) by (simp add: ba_wf_def)
  with False g pos iov_from_covers [OF g(2), of "m_position g" n] show ?thesis
    by (auto simp: getWriteBuffers_def)
qed

section \<open>Files\<close>

lemma file_loop_aligned:
  assumes "uniform B nodes" and "0 < B" and "cur * B + n \<le> length nodes * B"
  shows "file_loop B nodes cur (int (cur * B)) (int n) = Inr (take n (drop (cur * B) (concat nodes)))"
  using assms(3)
proof (induction n arbitrary: cur rule: less_induct)
  case (less n)
  show ?case
  proof (cases "n = 0")
    case True
    then show ?thesis by (subst file_loop.simps) simp
  next
    case nz: False
    have cur: "cur < length nodes"
    proof (rule ccontr)
      assume "\<not> ?thesis"
      then have "length nodes * B \<le> cur * B" by (intro mult_le_mono1) simp
      with nz less.prems show False by simp
    qed
    have len: "length (nodes ! cur) = B" by (rule uniform_nth [OF assms(1) cur])
    have dr: "drop (cur * B) (concat nodes) = nodes ! cur @ drop ((cur + 1) * B) (concat nodes)"
      using drop_concat_block [OF assms(1) cur, of 0] by simp
    show ?thesis
    proof (cases "n > B")
      case True
      have "file_loop B nodes (cur + 1) (int ((cur + 1) * B)) (int (n - B))
          = Inr (take (n - B) (drop ((cur + 1) * B) (concat nodes)))"
        using True less.prems assms(2) by (intro less.IH) (auto simp: algebra_simps)
      then have "file_loop B nodes (cur + 1) (int (cur * B) + int B) (int n - int B)
          = Inr (take (n - B) (drop ((cur + 1) * B) (concat nodes)))"
        using True by (simp add: of_nat_diff algebra_simps)
      with True nz cur len dr assms(2) show ?thesis
        by (subst file_loop.simps) (simp add: Let_def)
    next
      case False
      have "file_loop B nodes (cur + 1) p 0 = Inr []" for p
        by (subst file_loop.simps) simp
      with False nz cur len dr show ?thesis
        by (subst file_loop.simps) (simp add: Let_def)
    qed
  qed
qed

text \<open>When the unread rest and the offset in the node are equal, no round writes a byte.\<close>

lemma file_loop_stuck:
  assumes "0 < d" and "d < int B" and "pos mod int B = d" and "uniform B nodes"
  shows "file_loop B nodes cur pos d = Inl NullDeref"
  using assms
proof (induction "length nodes - cur" arbitrary: cur)
  case 0
  then show ?case by (subst file_loop.simps) (simp add: Let_def)
next
  case (Suc k)
  then have "file_loop B nodes (cur + 1) pos d = Inl NullDeref" by (intro Suc.hyps) auto
  moreover have "length (nodes ! cur) = B" using Suc by (simp add: uniform_nth)
  ultimately show ?case
    using Suc by (subst file_loop.simps) (simp add: Let_def)
qed

lemma file_loop_first_block:
  assumes "uniform B nodes" and "cur < length nodes" and "0 < d" and "d < B" and "B \<le> n"
    and "cur * B + d + n \<le> length nodes * B"
  shows "file_loop B nodes cur (int (cur * B + d)) (int n)
     = Inr (take n (drop (cur * B + d) (concat nodes)))"
proof -
  have len: "length (nodes ! cur) = B" by (rule uniform_nth [OF assms(1,2)])
  have dr: "drop (cur * B + d) (concat nodes) = drop d (nodes ! cur) @ drop ((cur + 1) * B) (concat nodes)"
    using drop_concat_block [OF assms(1,2), of d] assms by simp
  define p where "p = int (cur * B + d)"
  have rec: "file_loop B nodes (cur + 1) (int ((cur + 1) * B)) (int (n - (B - d)))
      = Inr (take (n - (B - d)) (drop ((cur + 1) * B) (concat nodes)))"
    using assms by (intro file_loop_aligned) (auto simp: algebra_simps)
  have pos: "int ((cur + 1) * B) = p + (int B - int d)"
    by (simp add: p_def algebra_simps)
  have rest: "int (n - (B - d)) = int n - (int B - int d)"
    using assms(4,5) by (simp add: of_nat_diff)
  have md: "p mod int B = int d"
    using assms by (simp add: p_def flip: of_nat_mod)
  have full: "(if int n > int B then int B else int n) = int B" using assms(5) by simp
  have lenB: "nat (int B - int d) = B - d" using assms(4) by (simp add: nat_diff_distrib)
  have c1: "\<not> int n \<le> 0" "B \<noteq> 0" "\<not> length nodes \<le> cur" using assms(2-5) by auto
  have c2: "\<not> (int B - int d < 0 \<or> int (length (nodes ! cur)) < int d + (int B - int d))"
    using assms(4) len by simp
  have split: "take (B - d) (drop d (nodes ! cur)) @ take (n - (B - d)) (drop ((cur + 1) * B) (concat nodes))
      = take n (drop (cur * B + d) (concat nodes))"
    using assms(4,5) len dr by simp
  have "file_loop B nodes cur p (int n) = Inr (take n (drop (cur * B + d) (concat nodes)))"
    by (subst file_loop.simps)
       (simp only: Let_def c1 c2 if_False md full lenB nat_int rec [unfolded pos rest] mapR_simps split)
  then show ?thesis by (simp only: p_def)
qed

lemma file_loop_short:
  assumes "uniform B nodes" and "cur < length nodes" and "0 < d" and "d < B" and "0 < n" and "n < B"
  shows "\<exists>e. file_loop B nodes cur (int (cur * B + d)) (int n) = Inl e"
proof -
  have len: "length (nodes ! cur) = B" by (rule uniform_nth [OF assms(1,2)])
  have md: "int (cur * B + d) mod int B = int d" using assms by (simp flip: of_nat_mod)
  consider "n < d" | "n = d" | "d < n" by linarith
  then show ?thesis
  proof cases
    case 1
    with assms len md show ?thesis by (subst file_loop.simps) (simp add: Let_def)
  next
    case 2
    with assms md file_loop_stuck [of "int d" B "int (cur * B + d)" nodes cur] show ?thesis by simp
  next
    case 3
    have md': "(int (cur * B + d) + (int n - int d)) mod int B = int n"
      using assms 3 by (simp add: algebra_simps flip: of_nat_mod)
    have "\<exists>e. file_loop B nodes (cur + 1) (int (cur * B + d) + (int n - int d)) (int d) = Inl e"
      using md' 3 assms by (subst file_loop.simps) (auto simp: Let_def)
    then show ?thesis
      using assms len md 3 by (subst file_loop.simps) (auto simp: Let_def)
  qed
qed

lemma writeToFile_works:
  assumes "ba_wf ba"
    and "m_position ba mod m_baseSize ba = 0 \<or> m_size ba = m_position ba \<or>
         m_baseSize ba \<le> m_size ba - m_position ba"
  shows "writeToFile True ba
    = Inr (True, flat_slice (m_position ba) (m_size ba - m_position ba) (abs_ba ba))"
proof -
  let ?B = "m_baseSize ba" and ?p = "m_position ba"
  let ?n = "m_size ba - ?p" and ?c = "m_position ba div m_baseSize ba"
  have wf: "0 < ?B" "uniform ?B (m_nodes ba)" "m_cur ba = ?c"
      "?p \<le> m_size ba" "m_size ba \<le> length (m_nodes ba) * ?B"
    using assms(1) by (simp_all add: ba_wf_def)
  have p: "?p = ?c * ?B + ?p mod ?B" by simp
  have "file_loop ?B (m_nodes ba) ?c (int ?p) (int ?n) = Inr (take ?n (drop ?p (concat (m_nodes ba))))"
  proof (cases "?p mod ?B = 0 \<or> ?n = 0")
    case True
    show ?thesis
    proof (cases "?n = 0")
      case True
      then show ?thesis by (subst file_loop.simps) simp
    next
      case False
      with True p have "?p = ?c * ?B" by (metis add_0_right)
      then show ?thesis
        using file_loop_aligned [OF wf(2,1), of ?c ?n] wf(4,5) by simp
    qed
  next
    case False
    with assms(2) have B: "?B \<le> ?n" by auto
    have "?c < length (m_nodes ba)"
      using wf(1,4,5) False by (intro less_mult_imp_div_less) auto
    then have "file_loop ?B (m_nodes ba) ?c (int (?c * ?B + ?p mod ?B)) (int ?n)
        = Inr (take ?n (drop (?c * ?B + ?p mod ?B) (concat (m_nodes ba))))"
      using wf False B by (intro file_loop_first_block) auto
    then show ?thesis by simp
  qed
  then show ?thesis
    using assms(1) wf by (simp add: writeToFile_def flat_slice_def abs_ba_def)
qed

lemma writeToFile_fails:
  assumes "ba_wf ba" and "m_position ba mod m_baseSize ba \<noteq> 0"
    and "m_position ba < m_size ba" and "m_size ba - m_position ba < m_baseSize ba"
  shows "\<exists>e. writeToFile True ba = Inl e"
proof -
  let ?B = "m_baseSize ba" and ?p = "m_position ba"
  let ?n = "m_size ba - ?p" and ?c = "m_position ba div m_baseSize ba"
  have wf: "0 < ?B" "uniform ?B (m_nodes ba)" "m_cur ba = ?c"
      "?p \<le> m_size ba" "m_size ba \<le> length (m_nodes ba) * ?B"
    using assms(1) by (simp_all add: ba_wf_def)
  have "?c < length (m_nodes ba)"
    using wf(1,4,5) assms(3) by (intro less_mult_imp_div_less) auto
  then have "\<exists>e. file_loop ?B (m_nodes ba) ?c (int (?c * ?B + ?p mod ?B)) (int ?n) = Inl e"
    using wf assms by (intro file_loop_short) auto
  with assms(1) wf show ?thesis by (auto simp: writeToFile_def)
qed

lemma flat_grow_fields [simp]:
  "fl_pos (flat_grow B n f) = fl_pos f" "fl_size (flat_grow B n f) = fl_size f"
  by (simp_all add: flat_grow_def)

lemma flat_write_fields:
  "fl_pos (flat_write B bs f) = fl_pos f + length bs"
  "fl_size (flat_write B bs f) = max (fl_size f) (fl_pos f + length bs)"
  by (simp_all add: flat_write_def Let_def)

lemma flat_grow_room: "0 < B \<Longrightarrow> fl_pos f \<le> length (fl_mem f) \<Longrightarrow> fl_pos f + n \<le> length (fl_mem (flat_grow B n f))"
  using ceil_div_ge [of B "n - (length (fl_mem f) - fl_pos f)"] by (simp add: flat_grow_def)

lemma flat_write_mem:
  assumes "0 < B" and "fl_pos f \<le> length (fl_mem f)"
  shows "take (fl_pos f + length bs) (fl_mem (flat_write B bs f)) = take (fl_pos f) (fl_mem f) @ map Some bs"
proof -
  have "take (fl_pos f) (fl_mem (flat_grow B (length bs) f)) = take (fl_pos f) (fl_mem f)"
    using assms(2) by (simp add: flat_grow_def)
  with flat_grow_room [OF assms, of "length bs"] assms(2) show ?thesis
    by (simp add: flat_write_def Let_def overwrite_def)
qed

text \<open>
  Reading a file appends exactly its bytes at the position (the new cells of a write are
  the written bytes, and the rounds of the loop are consecutive).
\<close>

lemma readFile_loop_refines:
  assumes "ba_wf ba"
  shows "\<exists>ba'. readFile_loop content ba = Inr ba' \<and> ba_wf ba' \<and>
           m_position ba' = m_position ba + length content \<and>
           m_size ba' = max (m_size ba) (m_position ba + length content) \<and>
           m_baseSize ba' = m_baseSize ba \<and>
           take (m_position ba') (concat (m_nodes ba'))
             = take (m_position ba) (concat (m_nodes ba)) @ map Some content"
  using assms
proof (induction content ba rule: readFile_loop.induct)
  case (1 content ba)
  let ?B = "m_baseSize ba"
  have step: "\<exists>ba'. ba_write bs ba = Inr ba' \<and> ba_wf ba' \<and> m_baseSize ba' = ?B \<and>
      m_position ba' = m_position ba + length bs \<and>
      m_size ba' = max (m_size ba) (m_position ba + length bs) \<and>
      take (m_position ba') (concat (m_nodes ba'))
        = take (m_position ba) (concat (m_nodes ba)) @ map Some bs" for bs
  proof -
    obtain ba' where w: "ba_write bs ba = Inr ba'" "ba_wf ba'" "m_baseSize ba' = ?B"
        "abs_ba ba' = flat_write ?B bs (abs_ba ba)"
      using ba_write_refines [OF "1.prems"] by blast
    have "fl_pos (abs_ba ba) \<le> length (fl_mem (abs_ba ba))"
      using "1.prems" by (simp add: abs_ba_def ba_wf_def length_concat_uniform)
    from flat_write_mem [OF _ this, of ?B bs] w(4) flat_write_fields [of ?B bs "abs_ba ba"] "1.prems"
    have "m_position ba' = m_position ba + length bs"
      "m_size ba' = max (m_size ba) (m_position ba + length bs)"
      "take (m_position ba') (concat (m_nodes ba'))
         = take (m_position ba) (concat (m_nodes ba)) @ map Some bs"
      by (auto simp: abs_ba_def ba_wf_def dest: sym)
    with w show ?thesis by blast
  qed
  have B: "0 < ?B" using "1.prems" by (simp add: ba_wf_def)
  show ?case
  proof (cases "length content < ?B")
    case True
    with B step [of content] show ?thesis by (subst readFile_loop.simps) auto
  next
    case False
    obtain ba1 where w: "ba_write (take ?B content) ba = Inr ba1" "ba_wf ba1" "m_baseSize ba1 = ?B"
        "m_position ba1 = m_position ba + ?B" "m_size ba1 = max (m_size ba) (m_position ba + ?B)"
        "take (m_position ba1) (concat (m_nodes ba1))
           = take (m_position ba) (concat (m_nodes ba)) @ map Some (take ?B content)"
      using step [of "take ?B content"] False by auto
    have "\<exists>ba'. readFile_loop (drop ?B content) ba1 = Inr ba' \<and> ba_wf ba' \<and>
        m_position ba' = m_position ba1 + length (drop ?B content) \<and>
        m_size ba' = max (m_size ba1) (m_position ba1 + length (drop ?B content)) \<and>
        m_baseSize ba' = m_baseSize ba1 \<and>
        take (m_position ba') (concat (m_nodes ba'))
          = take (m_position ba1) (concat (m_nodes ba1)) @ map Some (drop ?B content)"
      using B False w(1,2) by (intro "1.IH") auto
    with w B False show ?thesis
      by (subst readFile_loop.simps) (auto simp: max_def simp flip: map_append)
  qed
qed

end
