(* ===== verification/ByteArray_Codec.thy ===== *)
theory ByteArray_Codec
  imports ByteArray_Refine
begin

text \<open>
  The typed reads and writes of \<^verbatim>\<open>src/src/bytearray.cpp\<close>: fixed width integers in the
  buffer's byte order, zigzag and variable length integers, strings with a length prefix.
  An \<open>intN_t\<close> is the word of its two's complement, a \<open>float\<close> or \<open>double\<close> the
  word of its image, a \<open>std::string\<close> the list of its bytes. The codecs are clients of
  a byte source, stated as a locale and interpreted on \<open>ba_read\<close>.
\<close>

section \<open>Byte order\<close>

definition order16 :: "byte_order \<Rightarrow> byte_order \<Rightarrow> u16 \<Rightarrow> u16" where
  "order16 host e v = (if e \<noteq> host then bswap_16 v else v)"

definition order32 :: "byte_order \<Rightarrow> byte_order \<Rightarrow> u32 \<Rightarrow> u32" where
  "order32 host e v = (if e \<noteq> host then bswap_32 v else v)"

definition order64 :: "byte_order \<Rightarrow> byte_order \<Rightarrow> u64 \<Rightarrow> u64" where
  "order64 host e v = (if e \<noteq> host then bswap_64 v else v)"

lemma order_involution [simp]:
  "order16 host e (order16 host e a) = a"
  "order32 host e (order32 host e b) = b"
  "order64 host e (order64 host e c) = c"
  by (simp_all add: order16_def order32_def order64_def)

text \<open>The bytes on the wire depend on the buffer's byte order only, never on the host's.\<close>

lemma wire_bytes:
  "mem_bytes host 2 (order16 host e a) = mem_bytes e 2 a"
  "mem_bytes host 4 (order32 host e b) = mem_bytes e 4 b"
  "mem_bytes host 8 (order64 host e c) = mem_bytes e 8 c"
  by (cases host; cases e;
      simp add: order16_def order32_def order64_def mem_bytes_bswap; simp add: mem_bytes_def)+

section \<open>Fixed width writes\<close>

definition writeFuint8 :: "byte_order \<Rightarrow> u8 \<Rightarrow> bytearray \<Rightarrow> bytearray res" where
  "writeFuint8 host value ba = ba_write (mem_bytes host 1 value) ba"

definition writeFint8 :: "byte_order \<Rightarrow> u8 \<Rightarrow> bytearray \<Rightarrow> bytearray res" where
  "writeFint8 host value ba = ba_write (mem_bytes host 1 value) ba"

definition writeFint16 :: "byte_order \<Rightarrow> u16 \<Rightarrow> bytearray \<Rightarrow> bytearray res" where
  "writeFint16 host value ba = ba_write (mem_bytes host 2 (order16 host (m_endian ba) value)) ba"

definition writeFuint16 :: "byte_order \<Rightarrow> u16 \<Rightarrow> bytearray \<Rightarrow> bytearray res" where
  "writeFuint16 host value ba = ba_write (mem_bytes host 2 (order16 host (m_endian ba) value)) ba"

definition writeFint32 :: "byte_order \<Rightarrow> u32 \<Rightarrow> bytearray \<Rightarrow> bytearray res" where
  "writeFint32 host value ba = ba_write (mem_bytes host 4 (order32 host (m_endian ba) value)) ba"

definition writeFuint32 :: "byte_order \<Rightarrow> u32 \<Rightarrow> bytearray \<Rightarrow> bytearray res" where
  "writeFuint32 host value ba = ba_write (mem_bytes host 4 (order32 host (m_endian ba) value)) ba"

definition writeFint64 :: "byte_order \<Rightarrow> u64 \<Rightarrow> bytearray \<Rightarrow> bytearray res" where
  "writeFint64 host value ba = ba_write (mem_bytes host 8 (order64 host (m_endian ba) value)) ba"

definition writeFuint64 :: "byte_order \<Rightarrow> u64 \<Rightarrow> bytearray \<Rightarrow> bytearray res" where
  "writeFuint64 host value ba = ba_write (mem_bytes host 8 (order64 host (m_endian ba) value)) ba"

definition writeFloat :: "byte_order \<Rightarrow> u32 \<Rightarrow> bytearray \<Rightarrow> bytearray res" where
  "writeFloat host value ba = writeFuint32 host value ba"

definition writeDouble :: "byte_order \<Rightarrow> u64 \<Rightarrow> bytearray \<Rightarrow> bytearray res" where
  "writeDouble host value ba = writeFuint64 host value ba"

section \<open>Fixed width reads\<close>

text \<open>Copy \<open>n\<close> bytes out of the source into an object of that size.\<close>

definition read_bytes :: "(nat \<Rightarrow> 's \<Rightarrow> (cell list \<times> 's) res) \<Rightarrow> nat \<Rightarrow> 's \<Rightarrow> (u8 list \<times> 's) res" where
  "read_bytes rd n s = bindR (rd n s) (\<lambda>(cs, s'). mapR (\<lambda>bs. (bs, s')) (bytes_of cs))"

definition readFuint8 :: "byte_order \<Rightarrow> bytearray \<Rightarrow> (u8 \<times> bytearray) res" where
  "readFuint8 host ba = mapR (\<lambda>(bs, ba'). (mem_word host bs, ba')) (read_bytes ba_read 1 ba)"

definition readFint8 :: "byte_order \<Rightarrow> bytearray \<Rightarrow> (u8 \<times> bytearray) res" where
  "readFint8 host ba = mapR (\<lambda>(bs, ba'). (mem_word host bs, ba')) (read_bytes ba_read 1 ba)"

definition readFuint16 :: "byte_order \<Rightarrow> bytearray \<Rightarrow> (u16 \<times> bytearray) res" where
  "readFuint16 host ba =
     mapR (\<lambda>(bs, ba'). (order16 host (m_endian ba) (mem_word host bs), ba')) (read_bytes ba_read 2 ba)"

definition readFint16 :: "byte_order \<Rightarrow> bytearray \<Rightarrow> (u16 \<times> bytearray) res" where
  "readFint16 host ba =
     mapR (\<lambda>(bs, ba'). (order16 host (m_endian ba) (mem_word host bs), ba')) (read_bytes ba_read 2 ba)"

definition readFuint32 :: "byte_order \<Rightarrow> bytearray \<Rightarrow> (u32 \<times> bytearray) res" where
  "readFuint32 host ba =
     mapR (\<lambda>(bs, ba'). (order32 host (m_endian ba) (mem_word host bs), ba')) (read_bytes ba_read 4 ba)"

definition readFint32 :: "byte_order \<Rightarrow> bytearray \<Rightarrow> (u32 \<times> bytearray) res" where
  "readFint32 host ba =
     mapR (\<lambda>(bs, ba'). (order32 host (m_endian ba) (mem_word host bs), ba')) (read_bytes ba_read 4 ba)"

definition readFuint64 :: "byte_order \<Rightarrow> bytearray \<Rightarrow> (u64 \<times> bytearray) res" where
  "readFuint64 host ba =
     mapR (\<lambda>(bs, ba'). (order64 host (m_endian ba) (mem_word host bs), ba')) (read_bytes ba_read 8 ba)"

definition readFint64 :: "byte_order \<Rightarrow> bytearray \<Rightarrow> (u64 \<times> bytearray) res" where
  "readFint64 host ba =
     mapR (\<lambda>(bs, ba'). (order64 host (m_endian ba) (mem_word host bs), ba')) (read_bytes ba_read 8 ba)"

definition readFloat :: "byte_order \<Rightarrow> bytearray \<Rightarrow> (u32 \<times> bytearray) res" where
  "readFloat host ba = readFuint32 host ba"

definition readDouble :: "byte_order \<Rightarrow> bytearray \<Rightarrow> (u64 \<times> bytearray) res" where
  "readDouble host ba = readFuint64 host ba"

section \<open>Zigzag\<close>

text \<open>Negation of the least value wraps, as the compiled code does.\<close>

definition zigzag_enc :: "'a::len word \<Rightarrow> 'a word" where
  "zigzag_enc v = (if sint v < 0 then (- v) * 2 - 1 else v * 2)"

definition zigzag_dec :: "'a::len word \<Rightarrow> 'a word" where
  "zigzag_dec v = xor (drop_bit 1 v) (- (and v 1))"

definition EncodeZigzag32 :: "u32 \<Rightarrow> u32" where
  "EncodeZigzag32 v = zigzag_enc v"

definition EncodeZigzag64 :: "u64 \<Rightarrow> u64" where
  "EncodeZigzag64 v = zigzag_enc v"

definition DecodeZigzag32 :: "u32 \<Rightarrow> u32" where
  "DecodeZigzag32 v = zigzag_dec v"

definition DecodeZigzag64 :: "u64 \<Rightarrow> u64" where
  "DecodeZigzag64 v = zigzag_dec v"

section \<open>Variable length integers\<close>

text \<open>The groups of seven bits that the two encoding loops put into \<open>tmp\<close>.\<close>

function varint32 :: "u32 \<Rightarrow> u8 list" where
  "varint32 value =
     (if value \<ge> 0x80 then ucast (or (and value 0x7F) 0x80) # varint32 (drop_bit 7 value)
      else [ucast value])"
  by pat_completeness auto
termination
  by (relation "measure unat") (auto simp: unat_drop_bit_eq drop_bit_eq_div word_le_nat_alt unat_div)

function varint64 :: "u64 \<Rightarrow> u8 list" where
  "varint64 value =
     (if value \<ge> 0x80 then ucast (or (and value 0x7F) 0x80) # varint64 (drop_bit 7 value)
      else [ucast value])"
  by pat_completeness auto
termination
  by (relation "measure unat") (auto simp: unat_drop_bit_eq drop_bit_eq_div word_le_nat_alt unat_div)

declare varint32.simps [simp del] varint64.simps [simp del]

text \<open>A store beyond \<open>tmp[5]\<close> or \<open>tmp[10]\<close> would be an access outside the array.\<close>

definition writeUint32 :: "u32 \<Rightarrow> bytearray \<Rightarrow> bytearray res" where
  "writeUint32 value ba =
     (let tmp = varint32 value in if length tmp > 5 then Inl BadAccess else ba_write tmp ba)"

definition writeUint64 :: "u64 \<Rightarrow> bytearray \<Rightarrow> bytearray res" where
  "writeUint64 value ba =
     (let tmp = varint64 value in if length tmp > 10 then Inl BadAccess else ba_write tmp ba)"

definition writeInt32 :: "u32 \<Rightarrow> bytearray \<Rightarrow> bytearray res" where
  "writeInt32 value ba = writeUint32 (EncodeZigzag32 value) ba"

definition writeInt64 :: "u64 \<Rightarrow> bytearray \<Rightarrow> bytearray res" where
  "writeInt64 value ba = writeUint64 (EncodeZigzag64 value) ba"

text \<open>
  The decoding loop \<open>for(int i = 0; i < width; i += 7)\<close>, over the function that reads
  one byte (\<open>readFuint8\<close>).
\<close>

function varint_loop ::
  "('s \<Rightarrow> (u8 \<times> 's) res) \<Rightarrow> nat \<Rightarrow> 'a::len word \<Rightarrow> 's \<Rightarrow> ('a word \<times> 's) res" where
  "varint_loop rd8 i result s =
     (if i < LENGTH('a) then
        bindR (rd8 s) (\<lambda>(b, s').
          if b < 0x80 then Inr (or result (push_bit i (ucast b)), s')
          else varint_loop rd8 (i + 7) (or result (push_bit i (ucast (and b 0x7F)))) s')
      else Inr (result, s))"
  by pat_completeness auto
termination
  by (relation "measure (\<lambda>(_, i, r, _). size r - i)") (auto simp: word_size)

declare varint_loop.simps [simp del]

definition readUint32 :: "byte_order \<Rightarrow> bytearray \<Rightarrow> (u32 \<times> bytearray) res" where
  "readUint32 host ba = varint_loop (readFuint8 host) 0 0 ba"

definition readUint64 :: "byte_order \<Rightarrow> bytearray \<Rightarrow> (u64 \<times> bytearray) res" where
  "readUint64 host ba = varint_loop (readFuint8 host) 0 0 ba"

definition readInt32 :: "byte_order \<Rightarrow> bytearray \<Rightarrow> (u32 \<times> bytearray) res" where
  "readInt32 host ba = mapR (\<lambda>(v, ba'). (DecodeZigzag32 v, ba')) (readUint32 host ba)"

definition readInt64 :: "byte_order \<Rightarrow> bytearray \<Rightarrow> (u64 \<times> bytearray) res" where
  "readInt64 host ba = mapR (\<lambda>(v, ba'). (DecodeZigzag64 v, ba')) (readUint64 host ba)"

section \<open>Strings\<close>

text \<open>\<open>value.size()\<close> is converted to the width of the length field.\<close>

definition writeStringF16 :: "byte_order \<Rightarrow> u8 list \<Rightarrow> bytearray \<Rightarrow> bytearray res" where
  "writeStringF16 host value ba =
     bindR (writeFuint16 host (of_nat (length value)) ba) (ba_write value)"

definition writeStringF32 :: "byte_order \<Rightarrow> u8 list \<Rightarrow> bytearray \<Rightarrow> bytearray res" where
  "writeStringF32 host value ba =
     bindR (writeFuint32 host (of_nat (length value)) ba) (ba_write value)"

definition writeStringF64 :: "byte_order \<Rightarrow> u8 list \<Rightarrow> bytearray \<Rightarrow> bytearray res" where
  "writeStringF64 host value ba =
     bindR (writeFuint64 host (of_nat (length value)) ba) (ba_write value)"

definition writeStringVint :: "u8 list \<Rightarrow> bytearray \<Rightarrow> bytearray res" where
  "writeStringVint value ba = bindR (writeUint64 (of_nat (length value)) ba) (ba_write value)"

definition writeStringWithoutLength :: "u8 list \<Rightarrow> bytearray \<Rightarrow> bytearray res" where
  "writeStringWithoutLength value ba = ba_write value ba"

definition readStringF16 :: "byte_order \<Rightarrow> bytearray \<Rightarrow> (u8 list \<times> bytearray) res" where
  "readStringF16 host ba = bindR (readFuint16 host ba) (\<lambda>(len, ba'). read_bytes ba_read (unat len) ba')"

definition readStringF32 :: "byte_order \<Rightarrow> bytearray \<Rightarrow> (u8 list \<times> bytearray) res" where
  "readStringF32 host ba = bindR (readFuint32 host ba) (\<lambda>(len, ba'). read_bytes ba_read (unat len) ba')"

definition readStringF64 :: "byte_order \<Rightarrow> bytearray \<Rightarrow> (u8 list \<times> bytearray) res" where
  "readStringF64 host ba = bindR (readFuint64 host ba) (\<lambda>(len, ba'). read_bytes ba_read (unat len) ba')"

definition readStringVint :: "byte_order \<Rightarrow> bytearray \<Rightarrow> (u8 list \<times> bytearray) res" where
  "readStringVint host ba = bindR (readUint64 host ba) (\<lambda>(len, ba'). read_bytes ba_read (unat len) ba')"

section \<open>Zigzag is a bijection\<close>

lemma zigzag_dec_enc:
  fixes v :: "'a::len word"
  assumes "1 < LENGTH('a)"
  shows "zigzag_dec (zigzag_enc v) = v"
proof (cases "sint v < 0")
  case False
  have "bit v (LENGTH('a) - 1) \<longleftrightarrow> sint v < 0"
    by (simp add: bit_last_iff)
  with False have top: "\<not> bit v (LENGTH('a) - 1)" by simp
  have "drop_bit 1 (v * 2) = v"
  proof (rule bit_word_eqI)
    fix n assume "n < LENGTH('a)"
    then show "bit (drop_bit 1 (v * 2)) n = bit v n"
      using top by (cases "n = LENGTH('a) - 1")
        (auto simp: bit_drop_bit_eq bit_double_iff mult.commute [of v] dest: bit_imp_le_length)
  qed
  moreover have "and (v * 2) 1 = 0"
    by (rule bit_word_eqI) (auto simp: bit_and_iff bit_1_iff bit_double_iff mult.commute [of v])
  ultimately show ?thesis
    using False by (simp add: zigzag_dec_def zigzag_enc_def)
next
  case True
  define u where "u = - v - 1"
  have "not u = - u - 1" by (rule not_eq_complement)
  moreover have "- u - 1 = v" by (simp add: u_def)
  ultimately have v: "v = not u" by simp
  have "bit v (LENGTH('a) - 1)" using True by (simp add: bit_last_iff)
  then have top: "\<not> bit u (LENGTH('a) - 1)" by (simp add: v bit_not_iff)
  have e: "(- v) * 2 - 1 = 1 + 2 * u" by (simp add: u_def algebra_simps)
  have "drop_bit 1 (1 + 2 * u) = u"
  proof (rule bit_word_eqI)
    fix n assume "n < LENGTH('a)"
    then show "bit (drop_bit 1 (1 + 2 * u)) n = bit u n"
      using top by (cases "n = LENGTH('a) - 1")
        (auto simp: bit_drop_bit_eq bit_double_iff even_bit_succ_iff dest: bit_imp_le_length)
  qed
  moreover have "and (1 + 2 * u) 1 = 1"
    by (rule bit_word_eqI) (auto simp: bit_and_iff bit_1_iff bit_double_iff even_bit_succ_iff)
  ultimately show ?thesis
    using True e by (simp add: zigzag_dec_def zigzag_enc_def v bit.xor_one_right)
qed

end
