(* ===== verification/ByteArray_RoundTrip.thy ===== *)
theory ByteArray_RoundTrip
  imports ByteArray_Codec ByteArray_IO
begin

text \<open>
  What was written is read back: the reference encoding of variable length integers on
  natural numbers, the byte source locale with the decoders' correctness, its
  interpretation on \<open>ba_read\<close>, and the round trips of every typed pair.
\<close>

section \<open>Groups of seven bits\<close>

lemma mask7 [simp]: "and v 0x7F = take_bit 7 (v :: 'a::len word)"
  by (simp add: take_bit_eq_mask mask_eq_exp_minus_1)

lemma exp7: "(0x80 :: 'a::len word) = 2 ^ 7"
  by simp

lemma bit_exp7: "bit (0x80 :: 'a::len word) n \<longleftrightarrow> n = 7 \<and> 7 < LENGTH('a)"
  by (simp only: exp7 bit_exp_iff) auto

lemma unat_exp: "k < LENGTH('a::len) \<Longrightarrow> unat (2 ^ k :: 'a word) = 2 ^ k"
proof -
  assume "k < LENGTH('a)"
  then have "take_bit LENGTH('a) (2 ^ k) = (2 ^ k :: nat)"
    by (intro take_bit_nat_eq_self) simp
  then have "unat (of_nat (2 ^ k) :: 'a word) = 2 ^ k" by (simp only: unsigned_of_nat of_nat_id)
  then show ?thesis by (simp only: of_nat_power of_nat_numeral)
qed

lemma less_exp_bits:
  fixes v :: "'a::len word"
  assumes "k < LENGTH('a)"
  shows "v < 2 ^ k \<longleftrightarrow> take_bit k v = v"
proof
  assume "v < 2 ^ k"
  then have "unat v < 2 ^ k" using assms by (simp add: word_less_nat_alt unat_exp)
  then show "take_bit k v = v"
    by (metis take_bit_nat_eq_self unsigned_take_bit_eq word_unat_eq_iff)
next
  assume "take_bit k v = v"
  then have "take_bit k (unat v) = unat v" by (metis unsigned_take_bit_eq)
  then have "unat v < 2 ^ k" by (metis take_bit_nat_less_exp)
  then show "v < 2 ^ k" using assms by (simp add: word_less_nat_alt unat_exp)
qed

text \<open>The marked byte of a group, and what the decoder takes from it.\<close>

definition marked :: "'a::len word \<Rightarrow> u8" where
  "marked v = ucast (or (and v 0x7F) 0x80)"

lemma bit_marked:
  "8 \<le> LENGTH('a::len) \<Longrightarrow>
   bit (marked (v :: 'a word)) n \<longleftrightarrow> n = 7 \<or> n < 7 \<and> bit v n"
  unfolding marked_def mask7
  by (simp only: bit_ucast_iff bit_or_iff bit_take_bit_iff bit_exp7) auto

lemma marked_ge:
  assumes "8 \<le> LENGTH('a::len)"
  shows "\<not> marked (v :: 'a word) < 0x80"
proof
  assume "marked v < 0x80"
  then have "take_bit 7 (marked v) = marked v"
    using less_exp_bits [of 7 "marked v"] by simp
  then have "\<not> bit (marked v) 7" by (metis bit_take_bit_iff less_irrefl)
  with assms show False by (simp add: bit_marked)
qed

lemma marked_payload:
  "8 \<le> LENGTH('a::len) \<Longrightarrow> ucast (and (marked (v :: 'a word)) 0x7F) = take_bit 7 v"
  by (rule bit_word_eqI)
     (auto simp: bit_ucast_iff bit_take_bit_iff bit_marked)

lemma group_join:
  "or (push_bit i (take_bit 7 v)) (push_bit (i + 7) (drop_bit 7 v)) = push_bit i (v :: 'a::len word)"
proof (rule bit_word_eqI)
  fix n assume "n < LENGTH('a)"
  then show "bit (or (push_bit i (take_bit 7 v)) (push_bit (i + 7) (drop_bit 7 v))) n = bit (push_bit i v) n"
    by (auto simp: bit_or_iff bit_push_bit_iff bit_take_bit_iff bit_drop_bit_eq)
       (metis add.commute add_diff_inverse_nat diff_diff_left not_le not_less)+
qed

lemma small_byte:
  fixes v :: "'a::len word"
  assumes "8 \<le> LENGTH('a)" and "v < 0x80"
  shows "(ucast v :: u8) < 0x80" and "ucast (ucast v :: u8) = v"
proof -
  have v: "take_bit 7 v = v" using assms less_exp_bits [of 7 v] by simp
  have bits: "bit v n \<Longrightarrow> n < 7" for n by (metis v bit_take_bit_iff)
  have "take_bit 7 (ucast v :: u8) = ucast v"
    by (rule bit_word_eqI) (auto simp: bit_take_bit_iff bit_ucast_iff dest: bits)
  then show "(ucast v :: u8) < 0x80" using less_exp_bits [of 7 "ucast v :: u8"] by simp
  show "ucast (ucast v :: u8) = v"
    by (rule bit_word_eqI) (use assms in \<open>auto simp: bit_ucast_iff dest: bits\<close>)
qed

lemma drop7_bound:
  fixes v :: "'a::len word"
  assumes "take_bit k v = v"
  shows "take_bit (k - 7) (drop_bit 7 v) = drop_bit 7 v"
proof (rule bit_word_eqI)
  fix n
  have "bit v (7 + n) \<Longrightarrow> 7 + n < k" by (metis assms bit_take_bit_iff)
  then show "bit (take_bit (k - 7) (drop_bit 7 v)) n = bit (drop_bit 7 v) n"
    by (auto simp: bit_take_bit_iff bit_drop_bit_eq)
qed

text \<open>Both encoders satisfy the same equation.\<close>

definition is_varint :: "('a::len word \<Rightarrow> u8 list) \<Rightarrow> bool" where
  "is_varint enc \<longleftrightarrow>
     8 \<le> LENGTH('a) \<and>
     (\<forall>v. enc v = (if v \<ge> 0x80 then marked v # enc (drop_bit 7 v) else [ucast v]))"

lemma is_varint_encoders: "is_varint varint32" "is_varint varint64"
  unfolding is_varint_def marked_def by (auto simp: varint32.simps varint64.simps)

lemma is_varint_last: "is_varint enc \<Longrightarrow> v < 0x80 \<Longrightarrow> enc v = [ucast v]"
  unfolding is_varint_def by (metis not_le)

lemma is_varint_more: "is_varint enc \<Longrightarrow> \<not> v < 0x80 \<Longrightarrow> enc v = marked v # enc (drop_bit 7 v)"
  unfolding is_varint_def by (metis not_le)

lemma varint_more_bits:
  assumes "\<not> (v :: 'a::len word) < 0x80" and "take_bit k v = v" and "8 \<le> LENGTH('a)"
  shows "7 < k"
proof (rule ccontr)
  assume "\<not> ?thesis"
  then have "take_bit 7 v = v" by (metis assms(2) min.absorb2 not_le take_bit_take_bit)
  with assms(1,3) show False using less_exp_bits [of 7 v] by simp
qed

lemma varint_length:
  assumes "is_varint (enc :: 'a::len word \<Rightarrow> u8 list)" and "take_bit k v = v" and "0 < k"
  shows "length (enc v) \<le> (k + 6) div 7"
  using assms(2,3)
proof (induction k arbitrary: v rule: less_induct)
  case (less k)
  have L: "8 \<le> LENGTH('a)" using assms(1) by (simp add: is_varint_def)
  show ?case
  proof (cases "v < 0x80")
    case True
    have "1 \<le> (k + 6) div 7" using less.prems(2) by presburger
    then show ?thesis by (simp only: is_varint_last [OF assms(1) True] list.size)
  next
    case False
    note more = False is_varint_more [OF assms(1) False]
    then have k: "7 < k" using varint_more_bits less.prems(1) L by blast
    then have "length (enc (drop_bit 7 v)) \<le> (k - 7 + 6) div 7"
      using k by (intro less.IH drop7_bound [OF less.prems(1)]) auto
    moreover have "(k + 6) div 7 = (k - 7 + 6) div 7 + 1"
      using k div_add_self2 [of 7 "k - 7 + 6"] by simp
    ultimately show ?thesis using more by simp
  qed
qed

section \<open>Byte sources\<close>

text \<open>
  What the decoders rely on: \<open>rd n\<close> takes the next \<open>n\<close> available cells, and
  refuses when there are fewer.
\<close>

locale byte_source =
  fixes rd :: "nat \<Rightarrow> 's \<Rightarrow> (cell list \<times> 's) res"
    and avail :: "'s \<Rightarrow> cell list"
    and ok :: "'s \<Rightarrow> bool"
  assumes rd_takes: "ok s \<Longrightarrow> 0 < n \<Longrightarrow> n \<le> length (avail s) \<Longrightarrow>
      \<exists>s'. rd n s = Inr (take n (avail s), s') \<and> ok s' \<and> avail s' = drop n (avail s)"
    and rd_refuses: "ok s \<Longrightarrow> length (avail s) < n \<Longrightarrow> rd n s = Inl OutOfRange"
begin

definition rd8 :: "byte_order \<Rightarrow> 's \<Rightarrow> (u8 \<times> 's) res" where
  "rd8 host s = mapR (\<lambda>(bs, s'). (mem_word host bs, s')) (read_bytes rd 1 s)"

lemma read_bytes_prefix:
  assumes "ok s" and "avail s = map Some bs @ rest" and "bs \<noteq> []"
  shows "\<exists>s'. read_bytes rd (length bs) s = Inr (bs, s') \<and> ok s' \<and> avail s' = rest"
  using rd_takes [OF assms(1), of "length bs"] assms(2,3)
  by (force simp: read_bytes_def bytes_of_def comp_def)

lemma rd8_next:
  assumes "ok s" and "avail s = Some b # rest"
  shows "\<exists>s'. rd8 host s = Inr (b, s') \<and> ok s' \<and> avail s' = rest"
  using read_bytes_prefix [OF assms(1), of "[b]" rest] assms(2)
  by (auto simp: rd8_def mem_word_def)

lemma rd8_end: "ok s \<Longrightarrow> avail s = [] \<Longrightarrow> rd8 host s = Inl OutOfRange"
  by (simp add: rd8_def read_bytes_def rd_refuses)

lemma varint_decodes:
  assumes enc: "is_varint (enc :: 'a::len word \<Rightarrow> u8 list)"
    and "ok s" and "avail s = map Some (enc v) @ rest"
    and "take_bit k v = v" and "i + k \<le> LENGTH('a)" and "i < LENGTH('a)"
  shows "\<exists>s'. varint_loop (rd8 host) i r s = Inr (or r (push_bit i v), s') \<and> ok s' \<and> avail s' = rest"
  using assms(2-)
proof (induction k arbitrary: v i r s rule: less_induct)
  case (less k)
  have L: "8 \<le> LENGTH('a)" using enc by (simp add: is_varint_def)
  show ?case
  proof (cases "v < 0x80")
    case True
    note last = True is_varint_last [OF enc True]
    then obtain s' where "rd8 host s = Inr (ucast v, s')" "ok s'" "avail s' = rest"
      using rd8_next [OF less.prems(1), of "ucast v" rest host] less.prems(2) by auto
    with last small_byte [OF L last(1)] less.prems(5) show ?thesis
      by (subst varint_loop.simps) simp
  next
    case False
    note more = False is_varint_more [OF enc False]
    then have k: "7 < k" using varint_more_bits less.prems(3) L by blast
    obtain s1 where s1: "rd8 host s = Inr (marked v, s1)" "ok s1"
        "avail s1 = map Some (enc (drop_bit 7 v)) @ rest"
      using rd8_next [OF less.prems(1), of "marked v" _ host] less.prems(2) more by auto
    have "\<exists>s'. varint_loop (rd8 host) (i + 7) (or r (push_bit i (take_bit 7 v))) s1
          = Inr (or (or r (push_bit i (take_bit 7 v))) (push_bit (i + 7) (drop_bit 7 v)), s') \<and>
        ok s' \<and> avail s' = rest"
      using k less.prems(4,5) s1(2,3) by (intro less.IH [of "k - 7"] drop7_bound [OF less.prems(3)]) auto
    moreover have "varint_loop (rd8 host) i r s
        = varint_loop (rd8 host) (i + 7) (or r (push_bit i (take_bit 7 v))) s1"
      using s1 less.prems(5) marked_ge [OF L, of v] marked_payload [OF L, of v]
      by (subst varint_loop.simps) (simp del: mask7)
    ultimately show ?thesis
      by (simp add: or.assoc group_join)
  qed
qed

lemma varint_decodes_all:
  assumes "is_varint (enc :: 'a::len word \<Rightarrow> u8 list)" and "ok s"
    and "avail s = map Some (enc v) @ rest"
  shows "\<exists>s'. varint_loop (rd8 host) 0 0 s = Inr (v, s') \<and> ok s' \<and> avail s' = rest"
  using varint_decodes [OF assms, of "LENGTH('a)" 0 host 0] by (simp add: take_bit_word_eq_self)

end

text \<open>The byte buffer is a byte source, in either byte order.\<close>

definition ba_avail :: "bytearray \<Rightarrow> cell list" where
  "ba_avail ba = flat_slice (m_position ba) (m_size ba - m_position ba) (abs_ba ba)"

lemma length_ba_avail: "ba_wf ba \<Longrightarrow> length (ba_avail ba) = m_size ba - m_position ba"
  by (auto simp: ba_avail_def flat_slice_def abs_ba_def ba_wf_def length_concat_uniform min_def)

lemma ba_avail_advance:
  "ba_wf ba \<Longrightarrow> n \<le> m_size ba - m_position ba \<Longrightarrow> ba_avail (ba_advance n ba) = drop n (ba_avail ba)"
  by (simp add: ba_avail_def flat_slice_def abs_ba_def drop_take add.commute)

definition ba_ok :: "byte_order \<Rightarrow> nat \<Rightarrow> bytearray \<Rightarrow> bool" where
  "ba_ok e sz ba \<longleftrightarrow> ba_wf ba \<and> m_endian ba = e \<and> m_size ba = sz"

interpretation ba_src: byte_source ba_read ba_avail "ba_ok e sz" for e sz
proof unfold_locales
  fix ba n
  assume ok: "ba_ok e sz ba" and n: "0 < n" "n \<le> length (ba_avail ba)"
  then have sz: "n \<le> m_size ba - m_position ba" by (simp add: length_ba_avail ba_ok_def)
  have "m_position ba \<noteq> m_capacity ba" using ok n(1) sz unfolding ba_wf_def ba_ok_def by linarith
  moreover have "flat_slice (m_position ba) n (abs_ba ba) = take n (ba_avail ba)"
    using sz by (simp add: ba_avail_def flat_slice_def min_def)
  ultimately show "\<exists>s'. ba_read n ba = Inr (take n (ba_avail ba), s') \<and>
      ba_ok e sz s' \<and> ba_avail s' = drop n (ba_avail ba)"
    using ok sz by (simp add: ba_read_eq ba_advance_wf ba_avail_advance ba_ok_def)
next
  fix ba n
  assume "ba_ok e sz ba" and "length (ba_avail ba) < n"
  then show "ba_read n ba = Inl OutOfRange"
    by (simp add: ba_read_eq length_ba_avail ba_ok_def)
qed

section \<open>Writers and readers\<close>

text \<open>\<open>ba1\<close> is \<open>ba\<close> after \<open>bs\<close> has been written at its position.\<close>

definition ba_wrote :: "bytearray \<Rightarrow> u8 list \<Rightarrow> bytearray \<Rightarrow> bool" where
  "ba_wrote ba bs ba1 \<longleftrightarrow>
     ba_wf ba1 \<and> m_endian ba1 = m_endian ba \<and> m_position ba1 = m_position ba + length bs \<and>
     take (m_position ba1) (concat (m_nodes ba1))
       = take (m_position ba) (concat (m_nodes ba)) @ map Some bs"

lemma ba_write_wrote:
  assumes "ba_wf ba"
  shows "\<exists>ba1. ba_write bs ba = Inr ba1 \<and> ba_wrote ba bs ba1"
proof -
  obtain ba1 where w: "ba_write bs ba = Inr ba1" "ba_wf ba1" "m_endian ba1 = m_endian ba"
      "abs_ba ba1 = flat_write (m_baseSize ba) bs (abs_ba ba)"
    using ba_write_refines [OF assms] by blast
  have "fl_pos (abs_ba ba) \<le> length (fl_mem (abs_ba ba))" "0 < m_baseSize ba"
    using assms by (simp_all add: abs_ba_def ba_wf_def length_concat_uniform)
  from flat_write_mem [OF this(2,1), of bs] w flat_write_fields [of "m_baseSize ba" bs "abs_ba ba"]
  show ?thesis by (auto simp: ba_wrote_def abs_ba_def dest: sym)
qed

lemma ba_wrote_trans: "ba_wrote ba bs ba1 \<Longrightarrow> ba_wrote ba1 cs ba2 \<Longrightarrow> ba_wrote ba (bs @ cs) ba2"
  by (auto simp: ba_wrote_def)

lemma ba_wrote_seek:
  assumes "ba_wf ba" and "ba_wrote ba bs ba1"
  shows "\<exists>ba2 rest. setPosition (m_position ba) ba1 = Inr ba2 \<and>
           ba_ok (m_endian ba) (m_size ba1) ba2 \<and> m_position ba2 = m_position ba \<and>
           ba_avail ba2 = map Some bs @ rest"
proof -
  have wf1: "ba_wf ba1" and p1: "m_position ba1 = m_position ba + length bs"
    using assms(2) by (simp_all add: ba_wrote_def)
  then have le: "m_position ba \<le> m_capacity ba1" "m_position ba1 \<le> m_size ba1"
    unfolding ba_wf_def by linarith+
  obtain ba2 where s: "setPosition (m_position ba) ba1 = Inr ba2" "m_position ba2 = m_position ba"
      "m_size ba2 = m_size ba1" "m_nodes ba2 = m_nodes ba1" "m_endian ba2 = m_endian ba1"
    using setPosition_eq [OF wf1, of "m_position ba"] le p1 by simp
  have len: "length (take (m_position ba) (concat (m_nodes ba))) = m_position ba"
    using assms(1) by (simp add: ba_wf_def length_concat_uniform)
  have "take (length bs) (drop (m_position ba) (concat (m_nodes ba1))) = map Some bs"
  proof -
    have "take (m_position ba1) (concat (m_nodes ba1)) = take (m_position ba) (concat (m_nodes ba)) @ map Some bs"
      using assms(2) unfolding ba_wrote_def by blast
    then have "drop (m_position ba) (take (m_position ba1) (concat (m_nodes ba1))) = map Some bs"
      by (metis len append_eq_conv_conj)
    with p1 show ?thesis by (simp add: drop_take)
  qed
  moreover have "length bs \<le> m_size ba1 - m_position ba" using le(2) p1 by linarith
  ultimately have "take (length bs) (ba_avail ba2) = map Some bs"
    using s le p1 by (simp add: ba_avail_def flat_slice_def abs_ba_def min_def)
  then have "ba_avail ba2 = map Some bs @ drop (length bs) (ba_avail ba2)"
    by (metis append_take_drop_id)
  moreover have "ba_ok (m_endian ba) (m_size ba1) ba2"
    using s setPosition_wf [OF wf1 s(1)] assms(2) by (simp add: ba_ok_def ba_wrote_def)
  ultimately show ?thesis using s by blast
qed

text \<open>
  \<open>encodes wr v bs\<close>: writing \<open>v\<close> appends \<open>bs\<close>. \<open>decodes e rd bs v\<close>: a
  reader takes exactly \<open>bs\<close> off a buffer of byte order \<open>e\<close> and returns \<open>v\<close>.
\<close>

definition encodes :: "(bytearray \<Rightarrow> bytearray res) \<Rightarrow> byte_order \<Rightarrow> u8 list \<Rightarrow> bool" where
  "encodes wr e bs \<longleftrightarrow>
     (\<forall>ba. ba_wf ba \<and> m_endian ba = e \<longrightarrow> (\<exists>ba1. wr ba = Inr ba1 \<and> ba_wrote ba bs ba1))"

definition decodes :: "(bytearray \<Rightarrow> ('v \<times> bytearray) res) \<Rightarrow> byte_order \<Rightarrow> u8 list \<Rightarrow> 'v \<Rightarrow> bool" where
  "decodes rd e bs v \<longleftrightarrow>
     (\<forall>sz s rest. ba_ok e sz s \<and> ba_avail s = map Some bs @ rest \<longrightarrow>
        (\<exists>s'. rd s = Inr (v, s') \<and> ba_ok e sz s' \<and> ba_avail s' = rest))"

definition round_trip ::
  "(bytearray \<Rightarrow> bytearray res) \<Rightarrow> (bytearray \<Rightarrow> ('v \<times> bytearray) res) \<Rightarrow> 'v \<Rightarrow> bytearray \<Rightarrow> bool" where
  "round_trip wr rd v ba \<longleftrightarrow>
     (\<exists>ba1 ba2 ba3. wr ba = Inr ba1 \<and> setPosition (m_position ba) ba1 = Inr ba2 \<and>
        rd ba2 = Inr (v, ba3) \<and> ba_wf ba3 \<and> m_position ba3 = m_position ba1)"

lemma round_tripI:
  assumes "ba_wf ba" and "encodes wr (m_endian ba) bs" and "decodes rd (m_endian ba) bs v"
  shows "round_trip wr rd v ba"
proof -
  obtain ba1 where w: "wr ba = Inr ba1" "ba_wrote ba bs ba1"
    using assms(1,2) by (auto simp: encodes_def)
  obtain ba2 rest where s: "setPosition (m_position ba) ba1 = Inr ba2"
      "ba_ok (m_endian ba) (m_size ba1) ba2" "m_position ba2 = m_position ba"
      "ba_avail ba2 = map Some bs @ rest"
    using ba_wrote_seek [OF assms(1) w(2)] by blast
  obtain ba3 where r: "rd ba2 = Inr (v, ba3)" "ba_ok (m_endian ba) (m_size ba1) ba3"
      "ba_avail ba3 = rest"
    using assms(3) s(2,4) unfolding decodes_def by blast
  have "length (ba_avail ba2) = length bs + length (ba_avail ba3)" using s(4) r(3) by simp
  then have "m_position ba3 = m_position ba1"
    using s(2,3) r(2) w(2)
    by (auto simp: length_ba_avail ba_ok_def ba_wrote_def) (auto simp: ba_wf_def)
  with w s r show ?thesis by (auto simp: round_trip_def ba_ok_def)
qed

lemma encodes_write: "encodes (ba_write bs) e bs"
  using ba_write_wrote by (simp add: encodes_def)

lemma encodes_bind:
  assumes "encodes f e bs" and "encodes g e cs"
  shows "encodes (\<lambda>ba. bindR (f ba) g) e (bs @ cs)"
  unfolding encodes_def
proof (intro allI impI)
  fix ba assume ba: "ba_wf ba \<and> m_endian ba = e"
  then obtain ba1 where 1: "f ba = Inr ba1" "ba_wrote ba bs ba1"
    using assms(1) by (auto simp: encodes_def)
  with ba obtain ba2 where "g ba1 = Inr ba2" "ba_wrote ba1 cs ba2"
    using assms(2) by (auto simp: encodes_def ba_wrote_def)
  with 1 show "\<exists>ba1. bindR (f ba) g = Inr ba1 \<and> ba_wrote ba (bs @ cs) ba1"
    using ba_wrote_trans by auto
qed

lemma decodes_bytes: "bs \<noteq> [] \<Longrightarrow> decodes (read_bytes ba_read (length bs)) e bs bs"
  unfolding decodes_def using ba_src.read_bytes_prefix by blast

lemma decodes_map: "decodes rd e bs v \<Longrightarrow> decodes (\<lambda>ba. mapR (\<lambda>(v, ba'). (f v, ba')) (rd ba)) e bs (f v)"
  unfolding decodes_def by fastforce

lemma decodes_bind:
  assumes "decodes rd e bs v" and "decodes (g v) e cs w"
  shows "decodes (\<lambda>ba. bindR (rd ba) (\<lambda>(v, ba'). g v ba')) e (bs @ cs) w"
  using assms unfolding decodes_def by fastforce

lemma decodes_varint:
  assumes "is_varint enc"
  shows "decodes (varint_loop (readFuint8 host) 0 0) e (enc v) v"
proof -
  have "readFuint8 host = byte_source.rd8 ba_read host"
    by (simp add: fun_eq_iff readFuint8_def ba_src.rd8_def)
  then show ?thesis
    unfolding decodes_def using ba_src.varint_decodes_all [OF assms] by simp
qed

section \<open>The typed pairs\<close>

lemma decodes_fixed:
  assumes "bs \<noteq> []"
    and "\<And>ba. m_endian ba = e \<Longrightarrow> rd ba = mapR (\<lambda>(bs, ba'). (f bs, ba')) (read_bytes ba_read (length bs) ba)"
  shows "decodes rd e bs (f bs)"
  unfolding decodes_def
proof (intro allI impI)
  fix sz s rest assume s: "ba_ok e sz s \<and> ba_avail s = map Some bs @ rest"
  then obtain s' where "read_bytes ba_read (length bs) s = Inr (bs, s')" "ba_ok e sz s'" "ba_avail s' = rest"
    using ba_src.read_bytes_prefix assms(1) by blast
  with s assms(2) [of s] show "\<exists>s'. rd s = Inr (f bs, s') \<and> ba_ok e sz s' \<and> ba_avail s' = rest"
    by (simp add: ba_ok_def)
qed

lemma word_of_wire:
  "order16 host e (mem_word host (mem_bytes e 2 a)) = a"
  "order32 host e (mem_word host (mem_bytes e 4 b)) = b"
  "order64 host e (mem_word host (mem_bytes e 8 c)) = c"
  by (subst wire_bytes [of host, symmetric], simp)+

lemma mem_bytes_not_Nil [simp]: "mem_bytes e n v \<noteq> [] \<longleftrightarrow> 0 < n"
  by (metis length_greater_0_conv length_mem_bytes)

lemma mem_bytes_1: "mem_bytes host 1 (v :: u8) = [v]"
  by (simp add: mem_bytes_def)

lemma encodes_wire: "(\<And>ba. m_endian ba = e \<Longrightarrow> wr ba = ba_write bs ba) \<Longrightarrow> encodes wr e bs"
  using ba_write_wrote by (simp add: encodes_def)

lemma encodes_fixed:
  "encodes (writeFuint8 host v8) e [v8]" "encodes (writeFint8 host v8) e [v8]"
  "encodes (writeFuint16 host v16) e (mem_bytes e 2 v16)"
  "encodes (writeFint16 host v16) e (mem_bytes e 2 v16)"
  "encodes (writeFuint32 host v32) e (mem_bytes e 4 v32)"
  "encodes (writeFint32 host v32) e (mem_bytes e 4 v32)"
  "encodes (writeFuint64 host v64) e (mem_bytes e 8 v64)"
  "encodes (writeFint64 host v64) e (mem_bytes e 8 v64)"
  by (rule encodes_wire; simp only: writeFuint8_def writeFint8_def writeFuint16_def writeFint16_def
      writeFuint32_def writeFint32_def writeFuint64_def writeFint64_def wire_bytes mem_bytes_1)+

lemma decodes_fixed_width:
  "decodes (readFuint8 host) e [v8] v8" "decodes (readFint8 host) e [v8] v8"
  "decodes (readFuint16 host) e (mem_bytes e 2 v16) v16"
  "decodes (readFint16 host) e (mem_bytes e 2 v16) v16"
  "decodes (readFuint32 host) e (mem_bytes e 4 v32) v32"
  "decodes (readFint32 host) e (mem_bytes e 4 v32) v32"
  "decodes (readFuint64 host) e (mem_bytes e 8 v64) v64"
  "decodes (readFint64 host) e (mem_bytes e 8 v64) v64"
proof -
  have 8: "mem_word host [v8] = v8" by (simp add: mem_word_def)
  show "decodes (readFuint8 host) e [v8] v8" "decodes (readFint8 host) e [v8] v8"
    using decodes_fixed [of "[v8]" e "readFuint8 host" "mem_word host"]
      decodes_fixed [of "[v8]" e "readFint8 host" "mem_word host"]
    by (simp_all add: 8 readFuint8_def readFint8_def)
  show "decodes (readFuint16 host) e (mem_bytes e 2 v16) v16"
    "decodes (readFint16 host) e (mem_bytes e 2 v16) v16"
    using decodes_fixed [of "mem_bytes e 2 v16" e "readFuint16 host" "\<lambda>bs. order16 host e (mem_word host bs)"]
      decodes_fixed [of "mem_bytes e 2 v16" e "readFint16 host" "\<lambda>bs. order16 host e (mem_word host bs)"]
    by (simp_all add: word_of_wire readFuint16_def readFint16_def)
  show "decodes (readFuint32 host) e (mem_bytes e 4 v32) v32"
    "decodes (readFint32 host) e (mem_bytes e 4 v32) v32"
    using decodes_fixed [of "mem_bytes e 4 v32" e "readFuint32 host" "\<lambda>bs. order32 host e (mem_word host bs)"]
      decodes_fixed [of "mem_bytes e 4 v32" e "readFint32 host" "\<lambda>bs. order32 host e (mem_word host bs)"]
    by (simp_all add: word_of_wire readFuint32_def readFint32_def)
  show "decodes (readFuint64 host) e (mem_bytes e 8 v64) v64"
    "decodes (readFint64 host) e (mem_bytes e 8 v64) v64"
    using decodes_fixed [of "mem_bytes e 8 v64" e "readFuint64 host" "\<lambda>bs. order64 host e (mem_word host bs)"]
      decodes_fixed [of "mem_bytes e 8 v64" e "readFint64 host" "\<lambda>bs. order64 host e (mem_word host bs)"]
    by (simp_all add: word_of_wire readFuint64_def readFint64_def)
qed

lemma varint_fits: "length (varint32 v) \<le> 5" "length (varint64 w) \<le> 10"
  using varint_length [OF is_varint_encoders(1), where k = 32 and v = v]
    varint_length [OF is_varint_encoders(2), where k = 64 and v = w]
  by (simp_all add: take_bit_word_eq_self)

lemma writeUint_eq: "writeUint32 v = ba_write (varint32 v)" "writeUint64 w = ba_write (varint64 w)"
  using varint_fits(1) [of v] varint_fits(2) [of w] by (auto simp: fun_eq_iff writeUint32_def writeUint64_def Let_def)

lemma encodes_varint: "encodes (writeUint32 v) e (varint32 v)" "encodes (writeUint64 w) e (varint64 w)"
  by (simp_all add: writeUint_eq encodes_write)

lemma decodes_uint: "decodes (readUint32 host) e (varint32 v) v" "decodes (readUint64 host) e (varint64 w) w"
proof -
  have "readUint32 host = varint_loop (readFuint8 host) 0 0"
    "readUint64 host = varint_loop (readFuint8 host) 0 0"
    by (simp_all add: fun_eq_iff readUint32_def readUint64_def)
  then show "decodes (readUint32 host) e (varint32 v) v" "decodes (readUint64 host) e (varint64 w) w"
    using decodes_varint is_varint_encoders by metis+
qed

lemma decodes_int:
  "decodes (readInt32 host) e (varint32 (EncodeZigzag32 v)) v"
  "decodes (readInt64 host) e (varint64 (EncodeZigzag64 w)) w"
proof -
  have z: "DecodeZigzag32 (EncodeZigzag32 v) = v" "DecodeZigzag64 (EncodeZigzag64 w) = w"
    by (simp_all add: DecodeZigzag32_def EncodeZigzag32_def DecodeZigzag64_def EncodeZigzag64_def
        zigzag_dec_enc)
  have f: "readInt32 host = (\<lambda>ba. mapR (\<lambda>(v, ba'). (DecodeZigzag32 v, ba')) (readUint32 host ba))"
    "readInt64 host = (\<lambda>ba. mapR (\<lambda>(v, ba'). (DecodeZigzag64 v, ba')) (readUint64 host ba))"
    by (simp_all add: fun_eq_iff readInt32_def readInt64_def)
  show "decodes (readInt32 host) e (varint32 (EncodeZigzag32 v)) v"
    "decodes (readInt64 host) e (varint64 (EncodeZigzag64 w)) w"
    using decodes_map [where f = DecodeZigzag32, OF decodes_uint(1)]
      decodes_map [where f = DecodeZigzag64, OF decodes_uint(2)] f z by metis+
qed

text \<open>
  Strings. The length field holds \<open>length v mod 2 ^ w\<close>; a non-empty rest of the
  string is read back to that length.
\<close>

lemma decodes_string:
  assumes "decodes rd e bs n" and "unat n = length v" and "v \<noteq> []"
  shows "decodes (\<lambda>ba. bindR (rd ba) (\<lambda>(len, ba'). read_bytes ba_read (unat len) ba')) e (bs @ v) v"
  using decodes_bind [OF assms(1), where g = "\<lambda>len. read_bytes ba_read (unat len)" and cs = v and w = v]
    decodes_bytes [OF assms(3)] assms(2) by simp

lemma string_lengths:
  "length v < 2 ^ 16 \<Longrightarrow> unat (of_nat (length v) :: u16) = length v"
  "length v < 2 ^ 32 \<Longrightarrow> unat (of_nat (length v) :: u32) = length v"
  "length v < 2 ^ 64 \<Longrightarrow> unat (of_nat (length v) :: u64) = length v"
  by (simp_all add: unsigned_of_nat take_bit_nat_eq_self)

lemma round_trip_strings:
  assumes "ba_wf ba" and "v \<noteq> []"
  shows "length v < 2 ^ 16 \<Longrightarrow> round_trip (writeStringF16 host v) (readStringF16 host') v ba"
    and "length v < 2 ^ 32 \<Longrightarrow> round_trip (writeStringF32 host v) (readStringF32 host') v ba"
    and "length v < 2 ^ 64 \<Longrightarrow> round_trip (writeStringF64 host v) (readStringF64 host') v ba"
    and "length v < 2 ^ 64 \<Longrightarrow> round_trip (writeStringVint v) (readStringVint host') v ba"
proof -
  let ?e = "m_endian ba"
  note funs = writeStringF16_def [abs_def] readStringF16_def [abs_def] writeStringF32_def [abs_def]
    readStringF32_def [abs_def] writeStringF64_def [abs_def] readStringF64_def [abs_def]
    writeStringVint_def [abs_def] readStringVint_def [abs_def]
  show "round_trip (writeStringF16 host v) (readStringF16 host') v ba" if "length v < 2 ^ 16"
    using round_tripI [OF assms(1) encodes_bind [OF encodes_fixed(3) encodes_write]
        decodes_string [OF decodes_fixed_width(3) string_lengths(1) [OF that] assms(2)]]
    by (simp add: funs)
  show "round_trip (writeStringF32 host v) (readStringF32 host') v ba" if "length v < 2 ^ 32"
    using round_tripI [OF assms(1) encodes_bind [OF encodes_fixed(5) encodes_write]
        decodes_string [OF decodes_fixed_width(5) string_lengths(2) [OF that] assms(2)]]
    by (simp add: funs)
  show "round_trip (writeStringF64 host v) (readStringF64 host') v ba" if "length v < 2 ^ 64"
    using round_tripI [OF assms(1) encodes_bind [OF encodes_fixed(7) encodes_write]
        decodes_string [OF decodes_fixed_width(7) string_lengths(3) [OF that] assms(2)]]
    by (simp add: funs)
  show "round_trip (writeStringVint v) (readStringVint host') v ba" if "length v < 2 ^ 64"
    using round_tripI [OF assms(1) encodes_bind [OF encodes_varint(2) encodes_write]
        decodes_string [OF decodes_uint(2) string_lengths(3) [OF that] assms(2)]]
    by (simp add: funs)
qed

end
