(* ===== verification/ByteArray_Props.thy ===== *)
theory ByteArray_Props
  imports ByteArray_IO ByteArray_RoundTrip
begin

text \<open>
  Properties of the byte buffer: the chain of blocks behaves as one growing array of bytes,
  what is written is read back, and where it does not hold.
\<close>

section \<open>Operations as one program\<close>

datatype ba_op = Write "u8 list" | Read nat | Seek nat | Clear | Dump

fun ba_exec :: "ba_op \<Rightarrow> bytearray \<Rightarrow> (cell list \<times> bytearray) res" where
  "ba_exec (Write bs) ba = mapR (\<lambda>ba'. ([], ba')) (ba_write bs ba)"
| "ba_exec (Read n) ba = ba_read n ba"
| "ba_exec (Seek v) ba = mapR (\<lambda>ba'. ([], ba')) (setPosition v ba)"
| "ba_exec Clear ba = Inr ([], clear ba)"
| "ba_exec Dump ba = mapR (\<lambda>cs. (cs, ba)) (ba_toString ba)"

text \<open>The same operations on one flat array that grows in steps of \<open>B\<close> bytes.\<close>

fun flat_exec :: "nat \<Rightarrow> ba_op \<Rightarrow> flat \<Rightarrow> (cell list \<times> flat) res" where
  "flat_exec B (Write bs) f = Inr ([], flat_write B bs f)"
| "flat_exec B (Read n) f =
     (if n > fl_size f - fl_pos f then Inl OutOfRange
      else if fl_pos f = length (fl_mem f) then Inl NullDeref
      else Inr (flat_slice (fl_pos f) n f, f\<lparr>fl_pos := fl_pos f + n\<rparr>))"
| "flat_exec B (Seek v) f =
     (if v > length (fl_mem f) then Inl OutOfRange
      else Inr ([], f\<lparr>fl_pos := v, fl_size := max (fl_size f) v\<rparr>))"
| "flat_exec B Clear f = Inr ([], \<lparr>fl_mem = take B (fl_mem f), fl_pos = 0, fl_size = 0\<rparr>)"
| "flat_exec B Dump f = Inr (flat_slice (fl_pos f) (fl_size f - fl_pos f) f, f)"

fun ba_run :: "ba_op list \<Rightarrow> bytearray \<Rightarrow> (cell list list \<times> bytearray) res" where
  "ba_run [] ba = Inr ([], ba)"
| "ba_run (op # ops) ba =
     bindR (ba_exec op ba) (\<lambda>(out, ba1). mapR (\<lambda>(outs, ba2). (out # outs, ba2)) (ba_run ops ba1))"

fun flat_run :: "nat \<Rightarrow> ba_op list \<Rightarrow> flat \<Rightarrow> (cell list list \<times> flat) res" where
  "flat_run B [] f = Inr ([], f)"
| "flat_run B (op # ops) f =
     bindR (flat_exec B op f) (\<lambda>(out, f1). mapR (\<lambda>(outs, f2). (out # outs, f2)) (flat_run B ops f1))"

lemma length_fl_mem: "ba_wf ba \<Longrightarrow> length (fl_mem (abs_ba ba)) = m_capacity ba"
  by (simp add: abs_ba_def ba_wf_def length_concat_uniform)

lemma ba_exec_refines:
  assumes "ba_wf ba" and "m_baseSize ba = B"
  shows "mapR (\<lambda>(out, ba'). (out, abs_ba ba')) (ba_exec op ba) = flat_exec B op (abs_ba ba)
    \<and> (\<forall>out ba'. ba_exec op ba = Inr (out, ba') \<longrightarrow> ba_wf ba' \<and> m_baseSize ba' = B)"
proof (cases op)
  case (Write bs)
  with ba_write_refines [OF assms(1), of bs] assms(2) show ?thesis by auto
next
  case (Read n)
  have "ba_wf (ba_advance n ba)" if "n \<le> m_size ba - m_position ba"
    by (rule ba_advance_wf [OF assms(1) that])
  then show ?thesis
    using Read assms length_fl_mem [OF assms(1)]
    by (simp add: ba_read_eq [OF assms(1)]) (auto simp: abs_ba_def ba_advance_def flat_slice_def)
next
  case (Seek v)
  then show ?thesis
    using assms length_fl_mem [OF assms(1)] setPosition_wf [OF assms(1), of v]
    by (auto simp: setPosition_eq [OF assms(1)] abs_ba_def)
next
  case Clear
  obtain n ns where "m_nodes ba = n # ns" using assms by (cases "m_nodes ba") (auto simp: ba_wf_def)
  with Clear assms clear_wf [OF assms(1)] show ?thesis
    by (auto simp: abs_ba_def clear_def ba_wf_def)
next
  case Dump
  then show ?thesis using assms by (simp add: ba_toString_eq [OF assms(1)]) (simp add: abs_ba_def)
qed

lemma ba_run_refines:
  "ba_wf ba \<Longrightarrow> m_baseSize ba = B \<Longrightarrow>
   mapR (\<lambda>(outs, ba'). (outs, abs_ba ba')) (ba_run ops ba) = flat_run B ops (abs_ba ba)
   \<and> (\<forall>outs ba'. ba_run ops ba = Inr (outs, ba') \<longrightarrow> ba_wf ba')"
proof (induction ops arbitrary: ba)
  case (Cons op ops)
  note E = ba_exec_refines [OF Cons.prems, of op]
  show ?case
  proof (cases "ba_exec op ba")
    case (Inl e)
    with E show ?thesis by (cases "flat_exec B op (abs_ba ba)") auto
  next
    case (Inr r)
    obtain out ba1 where r: "r = (out, ba1)" by (cases r)
    with Inr E have f: "flat_exec B op (abs_ba ba) = Inr (out, abs_ba ba1)" and wf: "ba_wf ba1" "m_baseSize ba1 = B"
      by auto
    from Cons.IH [OF wf] Inr r f show ?thesis
      by (cases "ba_run ops ba1") (auto simp: mapR_eq_Inr dest: sym)
  qed
qed simp

text \<open>
  C1. The chain of blocks is one growing array: for every base size above zero and every
  program of write, read, setPosition, clear and toString on a new ByteArray, the bytes
  returned, the faults and the final position, size and memory are those of a flat array
  that grows in multiples of the base size, and the chain stays well formed.
\<close>

theorem bytearray_refines_flat_array:
  assumes "0 < base"
  shows "mapR (\<lambda>(outs, ba). (outs, abs_ba ba)) (ba_run ops (ByteArray_new base))
      = flat_run base ops \<lparr>fl_mem = replicate base None, fl_pos = 0, fl_size = 0\<rparr>
    \<and> (\<forall>outs ba. ba_run ops (ByteArray_new base) = Inr (outs, ba) \<longrightarrow> ba_wf ba)"
proof -
  have "abs_ba (ByteArray_new base) = \<lparr>fl_mem = replicate base None, fl_pos = 0, fl_size = 0\<rparr>"
    "m_baseSize (ByteArray_new base) = base"
    by (simp_all add: abs_ba_def ByteArray_new_def Node_new_def)
  with ba_run_refines [OF ba_wf_new [OF assms], of base ops] show ?thesis by simp
qed

lemma bytearray_refines_flat_array_witness:
  "\<exists>ba. ba_run [Write [1, 2, 3, 4, 5], Seek 1, Read 3] (ByteArray_new 2)
     = Inr ([[], [], [Some 2, Some 3, Some 4]], ba)"
proof -
  have "flat_run 2 [Write [1, 2, 3, 4, 5], Seek 1, Read 3] \<lparr>fl_mem = replicate 2 None, fl_pos = 0, fl_size = 0\<rparr>
     = Inr ([[], [], [Some 2, Some 3, Some 4]],
        \<lparr>fl_mem = map Some [1, 2, 3, 4, 5] @ [None], fl_pos = 4, fl_size = 5\<rparr>)"
    by code_simp
  with bytearray_refines_flat_array [of 2 "[Write [1, 2, 3, 4, 5], Seek 1, Read 3]"] show ?thesis
    by (auto simp: mapR_eq_Inr)
qed

section \<open>Round trips\<close>

text \<open>
  Every fixed-width writer is read back by its reader: on any well-formed buffer, in
  either byte order, writing a value of 8 to 64 bits (or a float or a double), seeking back
  and reading returns it, even when the reading machine has the other byte order.
\<close>

theorem fixed_width_round_trips:
  assumes "ba_wf ba"
  shows "round_trip (writeFuint8 h v8) (readFuint8 h') v8 ba \<and> round_trip (writeFint8 h v8) (readFint8 h') v8 ba
    \<and> round_trip (writeFuint16 h v16) (readFuint16 h') v16 ba \<and> round_trip (writeFint16 h v16) (readFint16 h') v16 ba
    \<and> round_trip (writeFuint32 h v32) (readFuint32 h') v32 ba \<and> round_trip (writeFint32 h v32) (readFint32 h') v32 ba
    \<and> round_trip (writeFuint64 h v64) (readFuint64 h') v64 ba \<and> round_trip (writeFint64 h v64) (readFint64 h') v64 ba
    \<and> round_trip (writeFloat h v32) (readFloat h') v32 ba \<and> round_trip (writeDouble h v64) (readDouble h') v64 ba"
proof -
  have f: "writeFloat h v32 = writeFuint32 h v32" "readFloat h' = readFuint32 h'"
    "writeDouble h v64 = writeFuint64 h v64" "readDouble h' = readFuint64 h'"
    by (simp_all add: fun_eq_iff writeFloat_def readFloat_def writeDouble_def readDouble_def)
  show ?thesis
    unfolding f by (intro conjI; (rule round_tripI [OF assms], rule encodes_fixed, rule decodes_fixed_width))
qed

lemma fixed_width_round_trips_witness:
  "round_trip (writeFuint32 LITTLE_ENDIAN 258) (readFuint32 BIG_ENDIAN) 258 (ByteArray_new 2)"
  using fixed_width_round_trips [OF ba_wf_new, of 2] by simp



text \<open>
  C9. A non-empty string that fits its length field is read back by the matching reader for
  each of the four length encodings.
\<close>

theorem string_round_trips:
  assumes "ba_wf ba" and "v \<noteq> []"
  shows "(length v < 2 ^ 16 \<longrightarrow> round_trip (writeStringF16 h v) (readStringF16 h') v ba)
    \<and> (length v < 2 ^ 32 \<longrightarrow> round_trip (writeStringF32 h v) (readStringF32 h') v ba)
    \<and> (length v < 2 ^ 64 \<longrightarrow> round_trip (writeStringF64 h v) (readStringF64 h') v ba)
    \<and> (length v < 2 ^ 64 \<longrightarrow> round_trip (writeStringVint v) (readStringVint h') v ba)"
  using round_trip_strings [OF assms] by blast

lemma string_round_trips_witness:
  "round_trip (writeStringVint [104, 105]) (readStringVint LITTLE_ENDIAN) [104, 105] (ByteArray_new 2)"
  using string_round_trips [OF ba_wf_new, of 2 "[104, 105]"] by simp

section \<open>Scatter lists and files\<close>

text \<open>
  C10. The iovec lists name the right memory: getReadBuffers returns min(len, unread) and
  blocks that cover exactly the unread bytes from the position on, in order and each inside
  one node; getWriteBuffers grows the chain so that its list covers the next len bytes, and
  changes neither position, size nor content.
\<close>

theorem iovecs_cover_the_bytes:
  assumes "ba_wf ba"
  shows "(\<exists>vs. getReadBuffers n ba = Inr (vs, min n (m_size ba - m_position ba))
        \<and> iov_covers (m_baseSize ba) (m_nodes ba) vs (m_position ba) (min n (m_size ba - m_position ba)))
    \<and> (\<exists>vs ba'. getWriteBuffers n ba = Inr (vs, n, ba') \<and> ba_wf ba'
        \<and> abs_ba ba' = flat_grow (m_baseSize ba) n (abs_ba ba)
        \<and> iov_covers (m_baseSize ba) (m_nodes ba') vs (m_position ba) n)"
  using getReadBuffers_covers [OF assms, of n] getWriteBuffers_covers [OF assms, of n] by blast

lemma iovecs_cover_the_bytes_witness:
  "\<exists>vs ba'. getWriteBuffers 5 (ByteArray_new 2) = Inr (vs, 5, ba') \<and> concat (map (iov_addrs 2) vs) = [0..<5]"
  using iovecs_cover_the_bytes [OF ba_wf_new, of 2 5] by (auto simp: iov_covers_def ByteArray_new_def)

text \<open>
  A buffer survives a file: what writeToFile stores from a block boundary, readFromFile
  puts back into any other well-formed buffer at its position, byte for byte.
\<close>

theorem file_round_trip:
  assumes "ba_wf ba" and "m_position ba mod m_baseSize ba = 0"
    and "flat_slice (m_position ba) (m_size ba - m_position ba) (abs_ba ba) = map Some bs"
    and "ba_wf ba2"
  shows "writeToFile True ba = Inr (True, map Some bs)
    \<and> (\<exists>ba3. readFromFile (Some bs) ba2 = Inr (True, ba3) \<and> ba_wf ba3
        \<and> m_position ba3 = m_position ba2 + length bs
        \<and> flat_slice (m_position ba2) (length bs) (abs_ba ba3) = map Some bs)"
proof -
  obtain ba3 where r: "readFile_loop bs ba2 = Inr ba3" "ba_wf ba3" "m_position ba3 = m_position ba2 + length bs"
    and t: "take (m_position ba3) (concat (m_nodes ba3)) = take (m_position ba2) (concat (m_nodes ba2)) @ map Some bs"
    using readFile_loop_refines [OF assms(4)] by blast
  have len: "length (take (m_position ba2) (concat (m_nodes ba2))) = m_position ba2"
    using assms(4) by (simp add: ba_wf_def length_concat_uniform)
  have "drop (m_position ba2) (take (m_position ba3) (concat (m_nodes ba3))) = map Some bs"
    unfolding t using len by (metis append_eq_conv_conj)
  then have "flat_slice (m_position ba2) (length bs) (abs_ba ba3) = map Some bs"
    using r(3) by (simp add: flat_slice_def abs_ba_def drop_take)
  with r writeToFile_works [OF assms(1)] assms(2,3) show ?thesis by (simp add: readFromFile_def)
qed

lemma file_round_trip_witness:
  "\<exists>ba3. readFromFile (Some []) (ByteArray_new 3) = Inr (True, ba3) \<and> m_position ba3 = 0"
  using file_round_trip [OF ba_wf_new _ _ ba_wf_new, of 4 "[]" 3]
  by (auto simp: ByteArray_new_def flat_slice_def abs_ba_def)

text \<open>
  writeToFile fails from inside a block: with fewer unread bytes than the base size and a
  position that is not a multiple of it, the offset is subtracted from the length a second
  time and the call never succeeds.
\<close>

theorem writeToFile_misaligned_fails:
  assumes "ba_wf ba" and "m_position ba mod m_baseSize ba \<noteq> 0"
    and "m_position ba < m_size ba" and "m_size ba - m_position ba < m_baseSize ba"
  shows "\<nexists>r. writeToFile True ba = Inr r"
  using writeToFile_fails [OF assms] by auto

lemma writeToFile_misaligned_fails_witness:
  "\<exists>ba. ba_write [1, 2, 3] (ByteArray_new 4) = Inr ba
    \<and> (\<exists>ba'. setPosition 1 ba = Inr ba' \<and> \<not> (\<exists>r. writeToFile True ba' = Inr r))"
proof -
  obtain ba where w: "ba_write [1, 2, 3] (ByteArray_new 4) = Inr ba" "ba_wf ba" "m_baseSize ba = 4"
    "abs_ba ba = flat_write 4 [1, 2, 3] (abs_ba (ByteArray_new 4))"
    using ba_write_refines [OF ba_wf_new, of 4 "[1, 2, 3]"] by (auto simp: ByteArray_new_def)
  then have sz: "m_size ba = 3" and cap: "m_capacity ba \<ge> 3"
    by (auto simp: abs_ba_def flat_write_def flat_grow_def Let_def ByteArray_new_def ba_wf_def)
  then obtain ba' where s: "setPosition 1 ba = Inr ba'" "m_position ba' = 1" "m_size ba' = 3" "m_baseSize ba' = 4"
    using w by (auto simp: setPosition_eq)
  with writeToFile_misaligned_fails [OF setPosition_wf [OF w(2) s(1)]] w(1) show ?thesis by auto
qed

text \<open>
  The length field of writeStringF16 wraps: a string of 65536 bytes is written with
  length 0, so the reader consumes none of it.
\<close>

theorem writeStringF16_truncates_length:
  assumes "ba_wf ba" and "length v = 65536"
  shows "\<exists>ba1 ba2. writeStringF16 h v ba = Inr ba1 \<and> m_position ba1 = m_position ba + 65538
    \<and> setPosition (m_position ba) ba1 = Inr ba2
    \<and> (\<exists>ba3. readFuint16 h' ba2 = Inr (0, ba3))"
proof -
  let ?e = "m_endian ba"
  have enc: "encodes (writeStringF16 h v) ?e (mem_bytes ?e 2 (of_nat (length v) :: u16) @ v)"
    using encodes_bind [OF encodes_fixed(3) encodes_write] by (simp add: writeStringF16_def [abs_def])
  have z: "(of_nat (length v) :: u16) = 0" using assms(2) by simp
  obtain ba1 where w: "writeStringF16 h v ba = Inr ba1" "ba_wrote ba (mem_bytes ?e 2 (0 :: u16) @ v) ba1"
    using enc assms(1) unfolding encodes_def z by blast
  obtain ba2 rest where s: "setPosition (m_position ba) ba1 = Inr ba2" "ba_ok ?e (m_size ba1) ba2"
    "ba_avail ba2 = map Some (mem_bytes ?e 2 (0 :: u16) @ v) @ rest"
    using ba_wrote_seek [OF assms(1) w(2)] by blast
  then have "\<exists>s'. readFuint16 h' ba2 = Inr (0, s')"
    using decodes_fixed_width(3) [of h' ?e 0] unfolding decodes_def by (metis append_assoc map_append)
  with w s assms(2) show ?thesis by (auto simp: ba_wrote_def)
qed

lemma writeStringF16_truncates_length_witness:
  "\<exists>ba1 ba2 ba3. writeStringF16 LITTLE_ENDIAN (replicate 65536 7) (ByteArray_new 4096) = Inr ba1
    \<and> setPosition 0 ba1 = Inr ba2 \<and> readFuint16 LITTLE_ENDIAN ba2 = Inr (0, ba3)"
  using writeStringF16_truncates_length [OF ba_wf_new, of 4096 "replicate 65536 7" LITTLE_ENDIAN LITTLE_ENDIAN]
  by (auto simp: ByteArray_new_def)

text \<open>An empty string read back at the very end of the last block dereferences the null node.\<close>

lemma empty_string_at_block_end:
  "bindR (bindR (writeStringF16 LITTLE_ENDIAN [] (ByteArray_new 2)) (setPosition 0)) (readStringF16 LITTLE_ENDIAN)
     = Inl NullDeref"
  by code_simp

end
