(* ===== verification/Fiber.thy ===== *)
theory Fiber
  imports Prelude
begin

text \<open>
  Coroutines (fiber.h, fiber.cpp). A fiber is an object at an address; the thread-local
  variables of fiber.cpp and scheduler.cpp are functions of the thread. A
  \<open>ucontext_t\<close> is modelled by what a switch to it would continue: \<open>ctx p\<close> is the fiber
  whose execution is saved in \<open>p\<close>'s \<open>m_ctx\<close>, \<open>cpu t\<close> the fiber whose execution thread
  \<open>t\<close> is running now (\<open>None\<close> while the thread has no fiber yet), and
  \<open>swapcontext(a, b)\<close> saves into the one and continues the other. \<open>getcontext\<close>,
  \<open>swapcontext\<close> and \<open>malloc\<close> are assumed to succeed. Addresses of new objects are
  arguments.
\<close>

section \<open>State\<close>

datatype State = INIT | HOLD | EXEC | TERM' | READY | EXCEPT

record 'c fiber =
  fb_id :: u64
  fb_stack :: bool
  fb_stacksize :: u32
  fb_state :: State
  fb_cb :: "'c option"

record 'c fworld =
  fibers :: "nat \<rightharpoonup> 'c fiber"
  s_fiber_count :: u64
  s_fiber_id :: u64
  t_fiber :: "nat \<Rightarrow> nat option"
  t_threadFiber :: "nat \<Rightarrow> nat option"
  t_scheduler_fiber :: "nat \<Rightarrow> nat option"
  ctx :: "nat \<Rightarrow> nat"
  cpu :: "nat \<Rightarrow> nat option"

definition fworld_init :: "'c fworld" where
  "fworld_init = \<lparr>fibers = Map.empty, s_fiber_count = 0, s_fiber_id = 0, t_fiber = (\<lambda>_. None),
     t_threadFiber = (\<lambda>_. None), t_scheduler_fiber = (\<lambda>_. None), ctx = id, cpu = (\<lambda>_. None)\<rparr>"

definition get_fiber :: "nat \<Rightarrow> 'c fworld \<Rightarrow> 'c fiber res" where
  "get_fiber p w = (case fibers w p of None \<Rightarrow> Inl BadAccess | Some f \<Rightarrow> Inr f)"

definition upd_fiber :: "nat \<Rightarrow> ('c fiber \<Rightarrow> 'c fiber) \<Rightarrow> 'c fworld \<Rightarrow> 'c fworld" where
  "upd_fiber p g w = w\<lparr>fibers := (fibers w)(p := map_option g (fibers w p))\<rparr>"

definition set_state :: "nat \<Rightarrow> State \<Rightarrow> 'c fworld \<Rightarrow> 'c fworld" where
  "set_state p s w = upd_fiber p (fb_state_update (\<lambda>_. s)) w"

text \<open>Thread \<open>t\<close> saves what it runs in \<open>a\<close> and continues what is saved in \<open>b\<close>.\<close>

definition swapcontext :: "nat \<Rightarrow> nat \<Rightarrow> nat \<Rightarrow> 'c fworld \<Rightarrow> 'c fworld" where
  "swapcontext t a b w =
     (let c = (case cpu w t of None \<Rightarrow> ctx w | Some q \<Rightarrow> (ctx w)(a := q))
      in w\<lparr>ctx := c, cpu := (cpu w)(t := Some (c b))\<rparr>)"

section \<open>Construction and destruction\<close>

definition SetThis :: "nat \<Rightarrow> nat option \<Rightarrow> 'c fworld \<Rightarrow> 'c fworld" where
  "SetThis t p w = w\<lparr>t_fiber := (t_fiber w)(t := p)\<rparr>"

text \<open>\<open>Fiber()\<close>: the object that stands for the thread's own stack.\<close>

definition Fiber_main :: "nat \<Rightarrow> nat \<Rightarrow> 'c fworld \<Rightarrow> 'c fworld" where
  "Fiber_main p t w =
     (SetThis t (Some p) w)
       \<lparr>fibers := (fibers w)(p \<mapsto> \<lparr>fb_id = 0, fb_stack = False, fb_stacksize = 0, fb_state = EXEC, fb_cb = None\<rparr>),
        s_fiber_count := s_fiber_count w + 1,
        ctx := (ctx w)(p := p),
        cpu := (cpu w)(t := Some p)\<rparr>"

text \<open>
  \<open>m_stacksize\<close> is a \<open>uint32_t\<close>, the argument a \<open>size_t\<close>; \<open>conf\<close> is the value of
  \<open>fiber.stacksize\<close>. \<open>use_caller\<close> only selects the entry function.
\<close>

definition Fiber_new :: "nat \<Rightarrow> 'c option \<Rightarrow> u64 \<Rightarrow> u32 \<Rightarrow> 'c fworld \<Rightarrow> 'c fworld" where
  "Fiber_new p cb stack_size conf w =
     w\<lparr>fibers := (fibers w)(p \<mapsto>
         \<lparr>fb_id = s_fiber_id w + 1, fb_stack = True,
          fb_stacksize = (if stack_size \<noteq> 0 then ucast stack_size else conf),
          fb_state = INIT, fb_cb = cb\<rparr>),
       s_fiber_id := s_fiber_id w + 1,
       s_fiber_count := s_fiber_count w + 1,
       ctx := (ctx w)(p := p)\<rparr>"

definition Fiber_destroy :: "nat \<Rightarrow> nat \<Rightarrow> 'c fworld \<Rightarrow> 'c fworld res" where
  "Fiber_destroy p t w =
     bindR (get_fiber p w) (\<lambda>f.
       if fb_stack f then
         bindR (assertR (fb_state f = TERM' \<or> fb_state f = EXCEPT \<or> fb_state f = INIT) AssertFailed) (\<lambda>_.
           Inr (w\<lparr>fibers := (fibers w)(p := None), s_fiber_count := s_fiber_count w - 1\<rparr>))
       else
         bindR (assertR (fb_cb f = None) AssertFailed) (\<lambda>_.
         bindR (assertR (fb_state f = EXEC) AssertFailed) (\<lambda>_.
           let w' = (if t_fiber w t = Some p then SetThis t None w else w)
           in Inr (w'\<lparr>fibers := (fibers w)(p := None), s_fiber_count := s_fiber_count w - 1\<rparr>))))"

section \<open>Switching\<close>

definition Fiber_reset :: "nat \<Rightarrow> 'c option \<Rightarrow> 'c fworld \<Rightarrow> 'c fworld res" where
  "Fiber_reset p cb w =
     bindR (get_fiber p w) (\<lambda>f.
     bindR (assertR (fb_stack f) AssertFailed) (\<lambda>_.
     bindR (assertR (fb_state f = TERM' \<or> fb_state f = EXCEPT \<or> fb_state f = INIT) AssertFailed) (\<lambda>_.
       Inr ((upd_fiber p (\<lambda>f. f\<lparr>fb_cb := cb, fb_state := INIT\<rparr>) w)\<lparr>ctx := (ctx w)(p := p)\<rparr>))))"

definition swapIn :: "nat \<Rightarrow> nat \<Rightarrow> 'c fworld \<Rightarrow> 'c fworld res" where
  "swapIn p t w =
     (let w1 = SetThis t (Some p) w in
      bindR (get_fiber p w1) (\<lambda>f.
      bindR (assertR (fb_state f \<noteq> EXEC) AssertFailed) (\<lambda>_.
        case t_scheduler_fiber w t of
          None \<Rightarrow> Inl NullDeref
        | Some m \<Rightarrow> Inr (swapcontext t m p (set_state p EXEC w1)))))"

definition swapOut :: "nat \<Rightarrow> nat \<Rightarrow> 'c fworld \<Rightarrow> 'c fworld res" where
  "swapOut p t w =
     (case t_scheduler_fiber w t of
        None \<Rightarrow> Inl NullDeref
      | Some m \<Rightarrow> Inr (swapcontext t p m (SetThis t (Some m) w)))"

definition Fiber_call :: "nat \<Rightarrow> nat \<Rightarrow> 'c fworld \<Rightarrow> 'c fworld res" where
  "Fiber_call p t w =
     (case t_threadFiber w t of
        None \<Rightarrow> Inl NullDeref
      | Some m \<Rightarrow> Inr (swapcontext t m p (set_state p EXEC (SetThis t (Some p) w))))"

definition Fiber_back :: "nat \<Rightarrow> nat \<Rightarrow> 'c fworld \<Rightarrow> 'c fworld res" where
  "Fiber_back p t w =
     (case t_threadFiber w t of
        None \<Rightarrow> Inl NullDeref
      | Some m \<Rightarrow> Inr (swapcontext t p m (SetThis t (Some m) w)))"

text \<open>\<open>np\<close> is the address of the main fiber when the thread has none.\<close>

definition Fiber_GetThis :: "nat \<Rightarrow> nat \<Rightarrow> 'c fworld \<Rightarrow> nat \<times> 'c fworld" where
  "Fiber_GetThis np t w =
     (case t_fiber w t of
        Some p \<Rightarrow> (p, w)
      | None \<Rightarrow> (np, (Fiber_main np t w)\<lparr>t_threadFiber := (t_threadFiber w)(t := Some np)\<rparr>))"

definition GetFiberId :: "nat \<Rightarrow> 'c fworld \<Rightarrow> u64 res" where
  "GetFiberId t w =
     (case t_fiber w t of None \<Rightarrow> Inr 0 | Some p \<Rightarrow> mapR fb_id (get_fiber p w))"

definition TotalFibers :: "'c fworld \<Rightarrow> u64" where
  "TotalFibers w = s_fiber_count w"

text \<open>
  The two yields. They publish the new state before they leave the stack; the first half
  is a definition of its own because another thread can run between the two.
\<close>

definition yield_mark :: "State \<Rightarrow> nat \<Rightarrow> nat \<Rightarrow> 'c fworld \<Rightarrow> (nat \<times> 'c fworld) res" where
  "yield_mark s np t w =
     (case Fiber_GetThis np t w of
        (p, w1) \<Rightarrow>
          bindR (get_fiber p w1) (\<lambda>f.
          bindR (assertR (fb_state f = EXEC) AssertFailed) (\<lambda>_.
            Inr (p, set_state p s w1))))"

definition YieldToReady :: "nat \<Rightarrow> nat \<Rightarrow> 'c fworld \<Rightarrow> 'c fworld res" where
  "YieldToReady np t w = bindR (yield_mark READY np t w) (\<lambda>(p, w1). swapOut p t w1)"

definition YieldToHold :: "nat \<Rightarrow> nat \<Rightarrow> 'c fworld \<Rightarrow> 'c fworld res" where
  "YieldToHold np t w = bindR (yield_mark HOLD np t w) (\<lambda>(p, w1). swapOut p t w1)"

text \<open>
  \<open>MainFunc\<close> and \<open>CallerMainFunc\<close> around the callback: what they do when it has
  returned, or has thrown. Calling an empty \<open>std::function\<close> throws.
\<close>

datatype outcome = Returned | Threw

definition main_end :: "outcome \<Rightarrow> nat \<Rightarrow> 'c fworld \<Rightarrow> 'c fworld res" where
  "main_end oc p w =
     bindR (get_fiber p w) (\<lambda>f.
       Inr (if oc = Returned \<and> fb_cb f \<noteq> None
            then upd_fiber p (\<lambda>f. f\<lparr>fb_cb := None, fb_state := TERM'\<rparr>) w
            else set_state p EXCEPT w))"

definition MainFunc :: "outcome \<Rightarrow> nat \<Rightarrow> nat \<Rightarrow> 'c fworld \<Rightarrow> 'c fworld res" where
  "MainFunc oc np t w =
     (case Fiber_GetThis np t w of
        (p, w1) \<Rightarrow> bindR (main_end oc p w1) (swapOut p t))"

definition CallerMainFunc :: "outcome \<Rightarrow> nat \<Rightarrow> nat \<Rightarrow> 'c fworld \<Rightarrow> 'c fworld res" where
  "CallerMainFunc oc np t w =
     (case Fiber_GetThis np t w of
        (p, w1) \<Rightarrow> bindR (main_end oc p w1) (Fiber_back p t))"

end
