(* ===== verification/Fiber_Exclusive.thy ===== *)
theory Fiber_Exclusive
  imports Fiber
begin

text \<open>
  The switching discipline of the worker threads: a worker switches to a fiber from its
  scheduling fiber only, and a fiber gives the processor back by yielding or ending. Under
  it a fiber is in state \<open>EXEC\<close> exactly while one thread runs it.
\<close>

section \<open>Field lemmas\<close>

lemma get_fiber_eq [simp]: "get_fiber p w = Inr f \<longleftrightarrow> fibers w p = Some f"
  by (auto simp: get_fiber_def split: option.splits)

lemma fibers_set_state: "fibers (set_state p s w) q =
    (if q = p then map_option (fb_state_update (\<lambda>_. s)) (fibers w p) else fibers w q)"
  by (simp add: set_state_def upd_fiber_def)

lemma set_state_fields [simp]:
  "s_fiber_count (set_state p s w) = s_fiber_count w" "s_fiber_id (set_state p s w) = s_fiber_id w"
  "t_fiber (set_state p s w) = t_fiber w" "t_scheduler_fiber (set_state p s w) = t_scheduler_fiber w"
  "t_threadFiber (set_state p s w) = t_threadFiber w"
  "ctx (set_state p s w) = ctx w" "cpu (set_state p s w) = cpu w"
  by (simp_all add: set_state_def upd_fiber_def)

lemma upd_fiber_fields [simp]:
  "s_fiber_count (upd_fiber p g w) = s_fiber_count w" "s_fiber_id (upd_fiber p g w) = s_fiber_id w"
  "t_fiber (upd_fiber p g w) = t_fiber w" "t_scheduler_fiber (upd_fiber p g w) = t_scheduler_fiber w"
  "ctx (upd_fiber p g w) = ctx w" "cpu (upd_fiber p g w) = cpu w"
  by (simp_all add: upd_fiber_def)

lemma fibers_upd_fiber: "fibers (upd_fiber p g w) q =
    (if q = p then map_option g (fibers w p) else fibers w q)"
  by (simp add: upd_fiber_def)

lemma SetThis_fields [simp]:
  "fibers (SetThis t p w) = fibers w" "s_fiber_count (SetThis t p w) = s_fiber_count w"
  "s_fiber_id (SetThis t p w) = s_fiber_id w"
  "t_scheduler_fiber (SetThis t p w) = t_scheduler_fiber w"
  "ctx (SetThis t p w) = ctx w" "cpu (SetThis t p w) = cpu w"
  "t_fiber (SetThis t p w) = (t_fiber w)(t := p)"
  by (simp_all add: SetThis_def)

lemma swapcontext_fields [simp]:
  "fibers (swapcontext t a b w) = fibers w" "s_fiber_count (swapcontext t a b w) = s_fiber_count w"
  "s_fiber_id (swapcontext t a b w) = s_fiber_id w" "t_fiber (swapcontext t a b w) = t_fiber w"
  "t_scheduler_fiber (swapcontext t a b w) = t_scheduler_fiber w"
  by (simp_all add: swapcontext_def Let_def)

text \<open>A switch that saves what runs under its own name is a plain change of \<open>cpu\<close>.\<close>

lemma swapcontext_own:
  assumes "cpu w t = Some a" and "ctx w a = a" and "ctx w b = b"
  shows "swapcontext t a b w = w\<lparr>cpu := (cpu w)(t := Some b)\<rparr>"
proof -
  have "(ctx w)(a := a) = ctx w" using assms(2) by auto
  with assms show ?thesis by (simp add: swapcontext_def)
qed

section \<open>Invariant\<close>

definition state_of :: "'c fworld \<Rightarrow> nat \<Rightarrow> State option" where
  "state_of w p = map_option fb_state (fibers w p)"

definition stackful :: "'c fworld \<Rightarrow> nat \<Rightarrow> bool" where
  "stackful w p \<longleftrightarrow> (\<exists>f. fibers w p = Some f \<and> fb_stack f)"

definition fw_inv :: "'c fworld \<Rightarrow> bool" where
  "fw_inv w \<longleftrightarrow>
     (\<forall>p \<in> dom (fibers w). ctx w p = p)
   \<and> (\<forall>t. t_fiber w t = cpu w t)
   \<and> (\<forall>t p. cpu w t = Some p \<longrightarrow> state_of w p = Some EXEC)
   \<and> (\<forall>t t' p. cpu w t = Some p \<longrightarrow> cpu w t' = Some p \<longrightarrow> t = t')
   \<and> (\<forall>p. stackful w p \<longrightarrow> state_of w p = Some EXEC \<longrightarrow> (\<exists>t. cpu w t = Some p))
   \<and> (\<forall>t p. cpu w t = Some p \<longrightarrow> (\<exists>m. t_scheduler_fiber w t = Some m \<and> (stackful w p \<or> p = m)))
   \<and> (\<forall>t m. t_scheduler_fiber w t = Some m \<longrightarrow> cpu w t \<noteq> None \<and> \<not> stackful w m
        \<and> state_of w m = Some EXEC)
   \<and> (\<forall>t t' m. t_scheduler_fiber w t = Some m \<longrightarrow> t_scheduler_fiber w t' = Some m \<longrightarrow> t = t')
   \<and> finite (dom (fibers w)) \<and> s_fiber_count w = of_nat (card (dom (fibers w)))"

lemma fw_invD:
  assumes "fw_inv w"
  shows "fibers w p = Some f \<Longrightarrow> ctx w p = p"
    and "t_fiber w t = cpu w t"
    and "cpu w t = Some p \<Longrightarrow> state_of w p = Some EXEC"
    and "cpu w t = Some p \<Longrightarrow> cpu w t' = Some p \<Longrightarrow> t = t'"
    and "stackful w p \<Longrightarrow> state_of w p = Some EXEC \<Longrightarrow> \<exists>t. cpu w t = Some p"
    and "cpu w t = Some p \<Longrightarrow> \<exists>m. t_scheduler_fiber w t = Some m \<and> (stackful w p \<or> p = m)"
    and "t_scheduler_fiber w t = Some m \<Longrightarrow> cpu w t \<noteq> None \<and> \<not> stackful w m \<and> state_of w m = Some EXEC"
    and "t_scheduler_fiber w t = Some m \<Longrightarrow> t_scheduler_fiber w t' = Some m \<Longrightarrow> t = t'"
    and "finite (dom (fibers w))" and "s_fiber_count w = of_nat (card (dom (fibers w)))"
  using assms unfolding fw_inv_def by (blast+)

lemma fw_inv_init: "fw_inv fworld_init"
  by (simp add: fw_inv_def fworld_init_def stackful_def state_of_def)

section \<open>Steps\<close>

text \<open>
  \<open>worker_start\<close> is what \<open>Scheduler::run\<close> does first on a new thread:
  \<open>t_scheduler_fiber = Fiber::GetThis().get()\<close>.
\<close>

definition worker_start :: "nat \<Rightarrow> nat \<Rightarrow> 'c fworld \<Rightarrow> 'c fworld" where
  "worker_start np t w =
     (case Fiber_GetThis np t w of
        (p, w1) \<Rightarrow> w1\<lparr>t_scheduler_fiber := (t_scheduler_fiber w1)(t := Some p)\<rparr>)"

definition in_fiber :: "'c fworld \<Rightarrow> nat \<Rightarrow> nat \<Rightarrow> bool" where
  "in_fiber w t p \<longleftrightarrow> cpu w t = Some p \<and> t_scheduler_fiber w t \<noteq> Some p"

inductive fw_step :: "'c fworld \<Rightarrow> 'c fworld \<Rightarrow> bool" where
  fw_start: "cpu w t = None \<Longrightarrow> fibers w p = None \<Longrightarrow> fw_step w (worker_start p t w)"
| fw_new: "fibers w p = None \<Longrightarrow> fw_step w (Fiber_new p cb stack_size conf w)"
| fw_in: "cpu w t = t_scheduler_fiber w t \<Longrightarrow> swapIn p t w = Inr w' \<Longrightarrow> fw_step w w'"
| fw_ready: "in_fiber w t p \<Longrightarrow> YieldToReady np t w = Inr w' \<Longrightarrow> fw_step w w'"
| fw_hold: "in_fiber w t p \<Longrightarrow> YieldToHold np t w = Inr w' \<Longrightarrow> fw_step w w'"
| fw_end: "in_fiber w t p \<Longrightarrow> MainFunc oc np t w = Inr w' \<Longrightarrow> fw_step w w'"
| fw_reset: "Fiber_reset p cb w = Inr w' \<Longrightarrow> fw_step w w'"
| fw_destroy: "stackful w p \<Longrightarrow> Fiber_destroy p t w = Inr w' \<Longrightarrow> fw_step w w'"

text \<open>What a switch amounts to when the invariant holds.\<close>

lemma swapIn_eq:
  assumes inv: "fw_inv w" and at: "cpu w t = t_scheduler_fiber w t"
  shows "swapIn p t w =
    (case state_of w p of
       None \<Rightarrow> Inl BadAccess
     | Some s \<Rightarrow>
         if s = EXEC then Inl AssertFailed
         else if cpu w t = None then Inl NullDeref
         else Inr ((set_state p EXEC (SetThis t (Some p) w))\<lparr>cpu := (cpu w)(t := Some p)\<rparr>))"
proof (cases "fibers w p")
  case None
  then show ?thesis by (simp add: swapIn_def get_fiber_def state_of_def)
next
  case (Some f)
  show ?thesis
  proof (cases "t_scheduler_fiber w t")
    case None
    then show ?thesis using Some at by (auto simp: swapIn_def get_fiber_def state_of_def assertR_def)
  next
    case (Some m)
    obtain g where "fibers w m = Some g"
      using fw_invD(7) [OF inv Some] by (auto simp: state_of_def)
    then have "swapcontext t m p (set_state p EXEC (SetThis t (Some p) w))
       = (set_state p EXEC (SetThis t (Some p) w))\<lparr>cpu := (cpu w)(t := Some p)\<rparr>"
      using fw_invD(1) [OF inv] \<open>fibers w p = Some f\<close> Some at by (simp add: swapcontext_own)
    with Some \<open>fibers w p = Some f\<close> at show ?thesis
      by (simp add: swapIn_def get_fiber_def state_of_def assertR_def)
  qed
qed

lemma swapOut_eq:
  assumes inv: "fw_inv w" and "in_fiber w t p" and "t_scheduler_fiber w t = Some m"
    and same: "ctx w' = ctx w" "cpu w' = cpu w" "t_scheduler_fiber w' = t_scheduler_fiber w"
  shows "swapOut p t w' = Inr ((SetThis t (Some m) w')\<lparr>cpu := (cpu w)(t := Some m)\<rparr>)"
proof -
  obtain f g where "fibers w p = Some f" "fibers w m = Some g"
    using fw_invD(7) [OF inv assms(3)] fw_invD(3) [OF inv, of t p] assms(2)
    by (auto simp: in_fiber_def state_of_def)
  then have "ctx w p = p" "ctx w m = m" using fw_invD(1) [OF inv] by auto
  then show ?thesis using assms(2,3) same
    by (simp add: swapOut_def in_fiber_def swapcontext_own)
qed

lemma yield_mark_eq:
  assumes inv: "fw_inv w" and "in_fiber w t p"
  shows "yield_mark s np t w = Inr (p, set_state p s w)"
  using fw_invD(2) [OF inv, of t] fw_invD(3) [OF inv, of t p] assms(2)
  by (auto simp: yield_mark_def Fiber_GetThis_def in_fiber_def state_of_def get_fiber_def)

lemma in_fiber_sched: "fw_inv w \<Longrightarrow> in_fiber w t p \<Longrightarrow> \<exists>m. t_scheduler_fiber w t = Some m \<and> m \<noteq> p \<and> stackful w p"
  using fw_invD(6) [of w t p] by (auto simp: in_fiber_def)

lemma yield_eq:
  assumes "fw_inv w" and "in_fiber w t p" and "t_scheduler_fiber w t = Some m"
  shows "YieldToReady np t w = Inr ((SetThis t (Some m) (set_state p READY w))\<lparr>cpu := (cpu w)(t := Some m)\<rparr>)"
    and "YieldToHold np t w = Inr ((SetThis t (Some m) (set_state p HOLD w))\<lparr>cpu := (cpu w)(t := Some m)\<rparr>)"
  by (simp_all add: YieldToReady_def YieldToHold_def yield_mark_eq [OF assms(1,2)] swapOut_eq [OF assms])

lemma MainFunc_eq:
  assumes inv: "fw_inv w" and "in_fiber w t p" and "t_scheduler_fiber w t = Some m"
  shows "\<exists>g. MainFunc oc np t w = Inr ((SetThis t (Some m) (upd_fiber p g w))\<lparr>cpu := (cpu w)(t := Some m)\<rparr>)
     \<and> (\<forall>f. fb_stack (g f) = fb_stack f \<and> fb_state (g f) \<in> {TERM', EXCEPT})"
proof -
  obtain f where f: "fibers w p = Some f"
    using fw_invD(3) [OF inv, of t p] assms(2) by (auto simp: in_fiber_def state_of_def)
  have gt: "Fiber_GetThis np t w = (p, w)"
    using fw_invD(2) [OF inv, of t] assms(2) by (simp add: Fiber_GetThis_def in_fiber_def)
  let ?g = "if oc = Returned \<and> fb_cb f \<noteq> None then (\<lambda>f. f\<lparr>fb_cb := None, fb_state := TERM'\<rparr>)
       else fb_state_update (\<lambda>_. EXCEPT)"
  have "main_end oc p w = Inr (upd_fiber p ?g w)"
    using f by (cases "fb_cb f") (simp_all add: main_end_def get_fiber_def set_state_def)
  moreover have "\<forall>h. fb_stack (?g h) = fb_stack h \<and> fb_state (?g h) \<in> {TERM', EXCEPT}"
    by (cases "oc = Returned \<and> fb_cb f \<noteq> None") (simp_all only: if_True if_False, simp_all)
  ultimately show ?thesis
    by (intro exI [of _ ?g]) (simp add: MainFunc_def gt swapOut_eq [OF assms])
qed

lemma state_of_set_state:
  "state_of (set_state p s w) q = (if q = p then map_option (\<lambda>_. s) (state_of w p) else state_of w q)"
  by (simp add: state_of_def fibers_set_state option.map_comp comp_def)

section \<open>Preservation\<close>

lemma dom_upd_fiber [simp]: "dom (fibers (upd_fiber p g w)) = dom (fibers w)"
  by (auto simp: upd_fiber_def)

lemma state_of_upd_fiber:
  "state_of (upd_fiber p g w) q = (if q = p then map_option (fb_state \<circ> g) (fibers w p) else state_of w q)"
  by (simp add: state_of_def fibers_upd_fiber option.map_comp)

lemma stackful_upd_fiber:
  "(\<And>f. fb_stack (g f) = fb_stack f) \<Longrightarrow> stackful (upd_fiber p g w) q = stackful w q"
  by (auto simp: stackful_def fibers_upd_fiber)

lemma cpu_upd_state [simp]:
  "state_of (w\<lparr>cpu := c\<rparr>) p = state_of w p" "stackful (w\<lparr>cpu := c\<rparr>) p = stackful w p"
  "state_of (SetThis t q w) p = state_of w p" "stackful (SetThis t q w) p = stackful w p"
  by (simp_all add: state_of_def stackful_def)

lemma fw_leave:
  assumes inv: "fw_inv w" and "in_fiber w t p" and m: "t_scheduler_fiber w t = Some m"
    and g: "\<And>f. fb_stack (g f) = fb_stack f" "\<And>f. fb_state (g f) \<noteq> EXEC"
  shows "fw_inv ((SetThis t (Some m) (upd_fiber p g w))\<lparr>cpu := (cpu w)(t := Some m)\<rparr>)"
proof -
  have p: "cpu w t = Some p" "p \<noteq> m" using assms(2) m by (auto simp: in_fiber_def)
  note D = fw_invD [OF inv]
  have sm: "state_of w m = Some EXEC" "\<not> stackful w m" using D(7) [OF m] by auto
  have alone: "cpu w t' \<noteq> Some m" if "t' \<noteq> t" for t'
    using D(6) [of t' m] D(8) [OF m, of t'] sm(2) that by auto
  have pst: "stackful w p" using D(6) [OF p(1)] m p(2) by auto
  have "state_of (upd_fiber p g w) q = Some EXEC \<longleftrightarrow> q \<noteq> p \<and> state_of w q = Some EXEC" for q
    using g(2) by (auto simp: state_of_upd_fiber)
  note st = this stackful_upd_fiber [OF g(1)]
  show ?thesis
    unfolding fw_inv_def
  proof (intro conjI allI ballI impI, goal_cases)
    case (1 q)
    then show ?case using D(1) by auto
  next
    case (2 t')
    then show ?case using D(2) by simp
  next
    case (3 t' q)
    show ?case
    proof (cases "t' = t")
      case False
      with 3 D(4) [OF p(1), of t'] D(3) [of t' q] show ?thesis by (auto simp: st)
    qed (use 3 sm p st in auto)
  next
    case (4 t1 t2 q)
    then show ?case using D(4) [of t1 q t2] alone [of t1] alone [of t2]
      by (cases "t1 = t"; cases "t2 = t") auto
  next
    case (5 q)
    then obtain t' where "cpu w t' = Some q" "q \<noteq> p" using D(5) [of q] by (auto simp: st)
    then show ?case using p by (auto intro!: exI [of _ t'])
  next
    case (6 t' q)
    then show ?case using D(6) [of t' q] m by (auto simp: st split: if_splits)
  next
    case (7 t' q)
    then show ?case using D(7) [of t' q] by auto
  next
    case (8 t' q)
    then have "t_scheduler_fiber w t' = Some q" by simp
    from D(7) [OF this] show ?case by (simp add: st)
  next
    case (9 t' q)
    then have "t_scheduler_fiber w t' = Some q" by simp
    with D(7) [OF this] pst show ?case by (auto simp: st)
  next
    case (10 t1 t2 q)
    then show ?case using D(8) by auto
  next
    case 11
    then show ?case using D(9) by simp
  next
    case 12
    then show ?case using D(10) by simp
  qed
qed

lemma fw_enter:
  assumes inv: "fw_inv w" and m: "cpu w t = Some m" "t_scheduler_fiber w t = Some m"
    and s: "state_of w p = Some s" "s \<noteq> EXEC"
    and st: "stackful w p"
  shows "fw_inv ((set_state p EXEC (SetThis t (Some p) w))\<lparr>cpu := (cpu w)(t := Some p)\<rparr>)"
proof -
  note D = fw_invD [OF inv]
  let ?g = "fb_state_update (\<lambda>_. EXEC)"
  have idle: "cpu w t' \<noteq> Some p" for t' using D(3) [of t' p] s by auto
  have ex: "state_of (upd_fiber p ?g w) q = Some EXEC \<longleftrightarrow> q = p \<or> state_of w q = Some EXEC" for q
    using s(1) by (cases "fibers w p") (auto simp: state_of_upd_fiber state_of_def [of w p])
  have sf: "stackful (upd_fiber p ?g w) q = stackful w q" for q by (rule stackful_upd_fiber) simp
  have eq: "set_state p EXEC (SetThis t (Some p) w) = SetThis t (Some p) (upd_fiber p ?g w)"
    by (simp add: set_state_def upd_fiber_def SetThis_def)
  have sm: "\<not> stackful w m" using D(7) [OF m(2)] by auto
  show ?thesis
    unfolding fw_inv_def eq
  proof (intro conjI allI ballI impI, goal_cases)
    case (1 q)
    then show ?case using D(1) by auto
  next
    case (2 t')
    then show ?case using D(2) by simp
  next
    case (3 t' q)
    then show ?case using D(3) [of t' q] by (auto simp: ex split: if_splits)
  next
    case (4 t1 t2 q)
    then show ?case using D(4) [of t1 q t2] idle [of t1] idle [of t2]
      by (cases "t1 = t"; cases "t2 = t") auto
  next
    case (5 q)
    show ?case
    proof (cases "q = p")
      case False
      with 5 obtain t' where "cpu w t' = Some q" using D(5) [of q] by (auto simp: ex sf)
      with 5 m sm show ?thesis by (intro exI [of _ t']) (auto simp: sf)
    qed auto
  next
    case (6 t' q)
    then show ?case using D(6) [of t' q] m st by (auto simp: sf split: if_splits)
  next
    case (7 t' q)
    then show ?case using D(7) [of t' q] by auto
  next
    case (8 t' q)
    then have "t_scheduler_fiber w t' = Some q" by simp
    from D(7) [OF this] show ?case by (simp add: sf)
  next
    case (9 t' q)
    then have "t_scheduler_fiber w t' = Some q" by simp
    with D(7) [OF this] show ?case by (auto simp: ex)
  next
    case (10 t1 t2 q)
    then show ?case using D(8) by auto
  next
    case 11
    then show ?case using D(9) by simp
  next
    case 12
    then show ?case using D(10) by simp
  qed
qed

lemma fresh_fiber:
  assumes inv: "fw_inv w" and fresh: "fibers w p = None"
  shows "cpu w t \<noteq> Some p" and "t_scheduler_fiber w t \<noteq> Some p"
  using fw_invD(3) [OF inv, of t p] fw_invD(7) [OF inv, of t p] fresh by (auto simp: state_of_def)

lemma fw_new_inv:
  assumes inv: "fw_inv w" and fresh: "fibers w p = None"
  shows "fw_inv (Fiber_new p cb stack_size conf w)"
proof -
  note D = fw_invD [OF inv]
  let ?w = "Fiber_new p cb stack_size conf w"
  have st: "state_of ?w q = (if q = p then Some INIT else state_of w q)"
    and sf: "stackful ?w q \<longleftrightarrow> q = p \<or> stackful w q" for q
    using fresh by (auto simp: Fiber_new_def state_of_def stackful_def)
  have same: "cpu ?w = cpu w" "t_fiber ?w = t_fiber w" "t_scheduler_fiber ?w = t_scheduler_fiber w"
    by (simp_all add: Fiber_new_def)
  have count: "card (insert p (dom (fibers w))) = Suc (card (dom (fibers w)))"
    using D(9) fresh by (subst card_insert_disjoint) auto
  have 1: "\<forall>q \<in> dom (fibers ?w). ctx ?w q = q" using D(1) by (auto simp: Fiber_new_def)
  have 2: "finite (dom (fibers ?w)) \<and> s_fiber_count ?w = of_nat (card (dom (fibers ?w)))"
    using D(9,10) count by (simp add: Fiber_new_def)
  show ?thesis
    unfolding fw_inv_def same st sf
    using 1 2 D(2,3,4,5,6,7,8) fresh_fiber [OF inv fresh] by (intro conjI) (auto, metis+)
qed

lemma fw_start_inv:
  assumes inv: "fw_inv w" and fresh: "fibers w p = None" and t: "cpu w t = None"
  shows "fw_inv (worker_start p t w)"
proof -
  note D = fw_invD [OF inv]
  let ?w = "worker_start p t w"
  have none: "t_fiber w t = None" using D(2) t by simp
  have st: "state_of ?w q = (if q = p then Some EXEC else state_of w q)"
    and sf: "stackful ?w q \<longleftrightarrow> q \<noteq> p \<and> stackful w q" for q
    using fresh by (auto simp: worker_start_def Fiber_GetThis_def none Fiber_main_def state_of_def stackful_def)
  have same: "cpu ?w = (cpu w)(t := Some p)" "t_fiber ?w = (t_fiber w)(t := Some p)"
    "t_scheduler_fiber ?w = (t_scheduler_fiber w)(t := Some p)"
    by (simp_all add: worker_start_def Fiber_GetThis_def none Fiber_main_def)
  have count: "card (insert p (dom (fibers w))) = Suc (card (dom (fibers w)))"
    using D(9) fresh by (subst card_insert_disjoint) auto
  have 1: "\<forall>q \<in> dom (fibers ?w). ctx ?w q = q"
    using D(1) by (auto simp: worker_start_def Fiber_GetThis_def none Fiber_main_def)
  have 2: "finite (dom (fibers ?w)) \<and> s_fiber_count ?w = of_nat (card (dom (fibers ?w)))"
    using D(9,10) count by (simp add: worker_start_def Fiber_GetThis_def none Fiber_main_def)
  have sched: "t_scheduler_fiber w t = None" using D(7) [of t] t by (cases "t_scheduler_fiber w t") auto
  have E: "q \<noteq> p \<and> (\<exists>t'. t' \<noteq> t \<and> cpu w t' = Some q)" if "q \<noteq> p" "stackful w q" "state_of w q = Some EXEC" for q
    using D(5) [of q] that t by (metis option.distinct(1))
  show ?thesis
    unfolding fw_inv_def same st sf
  proof (intro conjI allI impI, goal_cases)
    case (5 q)
    then show ?case using E [of q] by auto
  next
    case (6 t' q)
    then show ?case using D(6) [of t' q] fresh_fiber [OF inv fresh] by (auto split: if_splits)
  next
    case (9 t' q)
    then show ?case using D(7) [of t' q] by (auto split: if_splits)
  qed (use 1 2 D(2,3,4,7,8) fresh_fiber [OF inv fresh] in \<open>auto split: if_splits\<close>)
qed

lemma fw_reset_inv:
  assumes inv: "fw_inv w" and "Fiber_reset p cb w = Inr w'"
  shows "fw_inv w'"
proof -
  note D = fw_invD [OF inv]
  from assms(2) obtain f where f: "fibers w p = Some f" "fb_stack f" "fb_state f \<noteq> EXEC"
    and w': "w' = (upd_fiber p (\<lambda>f. f\<lparr>fb_cb := cb, fb_state := INIT\<rparr>) w)\<lparr>ctx := (ctx w)(p := p)\<rparr>"
    by (auto simp: Fiber_reset_def bindR_eq_Inr assertR_def split: if_splits)
  have st: "state_of w' q = (if q = p then Some INIT else state_of w q)"
    and sf: "stackful w' q = stackful w q" for q
    using f by (auto simp: w' state_of_def stackful_def fibers_upd_fiber)
  have same: "cpu w' = cpu w" "t_fiber w' = t_fiber w" "t_scheduler_fiber w' = t_scheduler_fiber w"
    "dom (fibers w') = dom (fibers w)" "s_fiber_count w' = s_fiber_count w"
    using f by (auto simp: w' fibers_upd_fiber dom_def)
  have 1: "\<forall>q \<in> dom (fibers w). ctx w' q = q" using D(1) by (auto simp: w')
  have np: "state_of w p \<noteq> Some EXEC" using f by (simp add: state_of_def)
  show ?thesis
    unfolding fw_inv_def same st sf
  proof (intro conjI, goal_cases)
    case 3
    then show ?case using D(3) np by (metis)
  next
    case 7
    then show ?case using D(7) np by metis
  qed (use 1 D(2,4,5,6,8,9,10) in \<open>auto split: if_splits\<close>)
qed

lemma fw_destroy_inv:
  assumes inv: "fw_inv w" and "stackful w p" and "Fiber_destroy p t w = Inr w'"
  shows "fw_inv w'"
proof -
  note D = fw_invD [OF inv]
  from assms(2,3) obtain f where f: "fibers w p = Some f" "fb_state f \<noteq> EXEC"
    and w': "w' = w\<lparr>fibers := (fibers w)(p := None), s_fiber_count := s_fiber_count w - 1\<rparr>"
    by (auto simp: Fiber_destroy_def stackful_def bindR_eq_Inr assertR_def split: if_splits)
  have st: "state_of w' q = (if q = p then None else state_of w q)"
    and sf: "stackful w' q \<longleftrightarrow> q \<noteq> p \<and> stackful w q" for q
    using f by (auto simp: w' state_of_def stackful_def)
  have same: "cpu w' = cpu w" "t_fiber w' = t_fiber w" "t_scheduler_fiber w' = t_scheduler_fiber w"
    "ctx w' = ctx w"
    by (simp_all add: w')
  have np: "state_of w p \<noteq> Some EXEC" using f by (simp add: state_of_def)
  have idle: "cpu w t \<noteq> Some p" "t_scheduler_fiber w t \<noteq> Some p" for t
    using D(3) [of t p] D(7) [of t p] np by auto
  have dom: "dom (fibers w') = dom (fibers w) - {p}" by (auto simp: w')
  have card: "card (dom (fibers w)) = Suc (card (dom (fibers w) - {p}))"
    by (rule card.remove [OF D(9)]) (use f in auto)
  have "s_fiber_count w' = s_fiber_count w - 1" by (simp add: w')
  then have count: "s_fiber_count w' = of_nat (card (dom (fibers w')))"
    unfolding dom D(10) card by simp
  show ?thesis
    unfolding fw_inv_def same st sf
  proof (intro conjI, goal_cases)
    case 1
    then show ?case using D(1) dom by auto
  next
    case 3
    then show ?case using D(3) idle by metis
  next
    case 5
    then show ?case using D(5) by simp
  next
    case 6
    then show ?case using D(6) idle by metis
  next
    case 7
    then show ?case using D(7) idle by metis
  next
    case 9
    then show ?case using D(9) dom by simp
  next
    case 10
    then show ?case using count by simp
  next
    case 2
    then show ?case using D(2) by simp
  next
    case 4
    then show ?case using D(4) by blast
  next
    case 8
    then show ?case using D(8) by blast
  qed
qed

text \<open>The fibers that stand for a thread's own stack never leave \<open>EXEC\<close>.\<close>

definition mains_exec :: "'c fworld \<Rightarrow> bool" where
  "mains_exec w \<longleftrightarrow> (\<forall>p f. fibers w p = Some f \<longrightarrow> \<not> fb_stack f \<longrightarrow> fb_state f = EXEC)"

lemma mains_exec_upd:
  assumes "mains_exec w" and "stackful w p" and "\<And>f. fb_stack (g f) = fb_stack f"
  shows "mains_exec ((SetThis t m (upd_fiber p g w))\<lparr>cpu := c\<rparr>)"
  using assms by (auto simp: mains_exec_def stackful_def fibers_upd_fiber)

lemma fw_step_inv:
  assumes "fw_step w w'" and "fw_inv w" and me: "mains_exec w"
  shows "fw_inv w' \<and> mains_exec w'"
  using assms(1)
proof cases
  case (fw_start t p)
  have "mains_exec (worker_start p t w)"
    using me fw_invD(2) [OF assms(2), of t] fw_start
    by (auto simp: mains_exec_def worker_start_def Fiber_GetThis_def Fiber_main_def)
  with fw_start fw_start_inv [OF assms(2)] show ?thesis by blast
next
  case (fw_new p cb stack_size conf)
  then show ?thesis using fw_new_inv [OF assms(2)] me by (auto simp: mains_exec_def Fiber_new_def)
next
  case (fw_in t p)
  then obtain s m where s: "state_of w p = Some s" "s \<noteq> EXEC" and m: "cpu w t = Some m"
    and w': "w' = (set_state p EXEC (SetThis t (Some p) w))\<lparr>cpu := (cpu w)(t := Some p)\<rparr>"
    by (auto simp: swapIn_eq [OF assms(2)] split: option.splits if_splits)
  have "stackful w p" using me s by (auto simp: mains_exec_def state_of_def stackful_def)
  moreover have "set_state p EXEC (SetThis t (Some p) w) = SetThis t (Some p) (upd_fiber p (fb_state_update (\<lambda>_. EXEC)) w)"
    by (simp add: set_state_def upd_fiber_def SetThis_def)
  ultimately show ?thesis
    using fw_enter [OF assms(2) m _ s] fw_in(1) m mains_exec_upd [OF me] by (simp add: w')
next
  case (fw_ready t p np)
  from in_fiber_sched [OF assms(2) this(1)] obtain m where m: "t_scheduler_fiber w t = Some m" "stackful w p" by blast
  with fw_ready fw_leave [OF assms(2) fw_ready(1) m(1), of "fb_state_update (\<lambda>_. READY)"]
    mains_exec_upd [OF me m(2)] yield_eq(1) [OF assms(2) fw_ready(1) m(1)]
  show ?thesis by (auto simp: set_state_def)
next
  case (fw_hold t p np)
  from in_fiber_sched [OF assms(2) this(1)] obtain m where m: "t_scheduler_fiber w t = Some m" "stackful w p" by blast
  with fw_hold fw_leave [OF assms(2) fw_hold(1) m(1), of "fb_state_update (\<lambda>_. HOLD)"]
    mains_exec_upd [OF me m(2)] yield_eq(2) [OF assms(2) fw_hold(1) m(1)]
  show ?thesis by (auto simp: set_state_def)
next
  case (fw_end t p oc np)
  from in_fiber_sched [OF assms(2) this(1)] obtain m where m: "t_scheduler_fiber w t = Some m" "stackful w p" by blast
  obtain g where g: "MainFunc oc np t w = Inr ((SetThis t (Some m) (upd_fiber p g w))\<lparr>cpu := (cpu w)(t := Some m)\<rparr>)"
    and kept: "\<forall>f. fb_stack (g f) = fb_stack f \<and> fb_state (g f) \<in> {TERM', EXCEPT}"
    using MainFunc_eq [OF assms(2) fw_end(1) m(1), of oc np] by blast
  have g': "fb_stack (g f) = fb_stack f" "fb_state (g f) \<noteq> EXEC" for f
    using spec [OF kept, of f] by auto
  with g fw_end fw_leave [OF assms(2) fw_end(1) m(1) g'] mains_exec_upd [OF me m(2) g'(1)]
  show ?thesis by simp
next
  case (fw_reset p cb)
  then show ?thesis using fw_reset_inv [OF assms(2)] me
    by (auto simp: mains_exec_def Fiber_reset_def fibers_upd_fiber bindR_eq_Inr assertR_def split: if_splits)
next
  case (fw_destroy p t)
  then show ?thesis using fw_destroy_inv [OF assms(2)] me
    by (auto simp: mains_exec_def Fiber_destroy_def stackful_def bindR_eq_Inr assertR_def split: if_splits)
qed

inductive fw_run :: "'c fworld \<Rightarrow> bool" where
  fw_run_init: "fw_run fworld_init"
| fw_run_step: "fw_run w \<Longrightarrow> fw_step w w' \<Longrightarrow> fw_run w'"

lemma fw_run_inv: "fw_run w \<Longrightarrow> fw_inv w \<and> mains_exec w"
proof (induction rule: fw_run.induct)
  case fw_run_init
  show ?case using fw_inv_init by (auto simp: mains_exec_def fworld_init_def)
qed (blast dest: fw_step_inv)

section \<open>Properties\<close>

text \<open>Two workers, and a fiber that the first one runs, for the concrete instances.\<close>

definition demo_workers :: "nat fworld" where
  "demo_workers = Fiber_new 20 (Some 7) 0 131072 (worker_start 11 1 (worker_start 10 0 fworld_init))"

definition demo_world :: "nat fworld" where
  "demo_world = (case swapIn 20 0 demo_workers of Inr w \<Rightarrow> w | Inl _ \<Rightarrow> demo_workers)"

lemmas demo_defs = demo_workers_def worker_start_def Fiber_GetThis_def Fiber_main_def Fiber_new_def
  fworld_init_def SetThis_def

lemma demo_workers_run: "fw_run demo_workers"
  unfolding demo_workers_def
  by (rule fw_run_step [OF fw_run_step [OF fw_run_step [OF fw_run_init fw_start] fw_start] fw_new])
    (simp_all add: demo_defs)

lemma demo_swapIn: "swapIn 20 0 demo_workers = Inr demo_world"
  by (simp add: demo_world_def swapIn_def get_fiber_def demo_defs assertR_def)

lemma demo_world_run: "fw_run demo_world"
  by (rule fw_run_step [OF demo_workers_run fw_in [OF _ demo_swapIn]]) (simp add: demo_defs)

lemma demo_world_facts:
  "in_fiber demo_world 0 20" "cpu demo_world 0 = Some 20"
  "cpu demo_world 1 = Some 11" "t_scheduler_fiber demo_world 1 = Some 11" "stackful demo_world 20"
  by (simp_all add: demo_world_def swapIn_def get_fiber_def demo_defs assertR_def in_fiber_def
      swapcontext_def set_state_def upd_fiber_def stackful_def)



text \<open>
  A running fiber can always yield: YieldToHold (and YieldToReady) from it never fails,
  leaves it in state HOLD (READY), and continues the scheduling fiber of its thread; a later
  swapIn on the same thread continues it, with every fiber as it was.
\<close>

theorem yield_and_resume:
  assumes "fw_run w" and "cpu w t = Some p" and "t_scheduler_fiber w t \<noteq> Some p"
  shows "\<exists>m w1 w2. YieldToHold np t w = Inr w1 \<and> t_scheduler_fiber w t = Some m
    \<and> cpu w1 t = Some m \<and> t_fiber w1 t = Some m
    \<and> map_option fb_state (fibers w1 p) = Some HOLD
    \<and> (\<exists>w3. YieldToReady np t w = Inr w3 \<and> cpu w3 t = Some m \<and> map_option fb_state (fibers w3 p) = Some READY)
    \<and> swapIn p t w1 = Inr w2 \<and> cpu w2 = cpu w \<and> t_fiber w2 = t_fiber w \<and> fibers w2 = fibers w"
proof -
  have inv: "fw_inv w" using fw_run_inv [OF assms(1)] by simp
  have inf: "in_fiber w t p" using assms(2,3) by (simp add: in_fiber_def)
  from in_fiber_sched [OF inv inf] obtain m where m: "t_scheduler_fiber w t = Some m" by blast
  obtain f where f: "fibers w p = Some f" "fb_state f = EXEC"
    using fw_invD(3) [OF inv assms(2)] by (auto simp: state_of_def)
  let ?w1 = "(SetThis t (Some m) (set_state p HOLD w))\<lparr>cpu := (cpu w)(t := Some m)\<rparr>"
  note y = yield_eq [OF inv inf m, of np]
  have "fw_run ?w1" by (rule fw_run_step [OF assms(1) fw_hold [OF inf y(2)]])
  then have inv1: "fw_inv ?w1" using fw_run_inv by blast
  have "swapIn p t ?w1 = Inr ((set_state p EXEC (SetThis t (Some p) ?w1))\<lparr>cpu := (cpu ?w1)(t := Some p)\<rparr>)"
    using f m by (simp add: swapIn_eq [OF inv1] state_of_set_state state_of_def fibers_set_state)
  moreover have "t_fiber w t = Some p" using fw_invD(2) [OF inv] assms(2) by simp
  moreover have "fibers (set_state p EXEC (SetThis t (Some p) ?w1)) = fibers w"
    using f by (auto simp: set_state_def upd_fiber_def)
  ultimately show ?thesis
    using y m f assms(2) by (auto simp: fibers_set_state fun_upd_idem)
qed

lemma yield_and_resume_witness:
  "\<exists>w1 w2. YieldToHold 99 0 demo_world = Inr w1 \<and> swapIn 20 0 w1 = Inr w2 \<and> fibers w2 = fibers demo_world"
  using yield_and_resume [OF demo_world_run, of 0 20 99] demo_world_facts by (auto simp: in_fiber_def)

text \<open>
  The yields publish the new state before they leave the stack, and nothing protects the
  window: once YieldToHold has marked the fiber, an idle second worker that has been handed
  the fiber switches to it, and both threads run on its stack.
\<close>

theorem yield_window_race:
  assumes "fw_run w" and "cpu w t = Some p" and "t_scheduler_fiber w t \<noteq> Some p"
    and "t' \<noteq> t" and "cpu w t' = Some m" and "t_scheduler_fiber w t' = Some m"
  shows "\<exists>w1 w2. yield_mark HOLD np t w = Inr (p, w1) \<and> swapIn p t' w1 = Inr w2
    \<and> cpu w2 t = Some p \<and> cpu w2 t' = Some p"
proof -
  have inv: "fw_inv w" using fw_run_inv [OF assms(1)] by simp
  have inf: "in_fiber w t p" using assms(2,3) by (simp add: in_fiber_def)
  obtain f g where f: "fibers w p = Some f" and "fibers w m = Some g"
    using fw_invD(3) [OF inv assms(2)] fw_invD(3) [OF inv assms(5)] by (auto simp: state_of_def)
  then have "ctx w p = p" "ctx w m = m" using fw_invD(1) [OF inv] by auto
  then show ?thesis
    using f assms by (auto simp: yield_mark_eq [OF inv inf] swapIn_def get_fiber_def fibers_set_state
        assertR_def swapcontext_def Let_def)
qed

lemma yield_window_race_witness:
  "\<exists>w1 w2. yield_mark HOLD 99 0 demo_world = Inr (20, w1) \<and> swapIn 20 1 w1 = Inr w2
    \<and> cpu w2 0 = Some 20 \<and> cpu w2 1 = Some 20"
  using yield_window_race [OF demo_world_run, of 0 20 1 11 99] demo_world_facts by (auto simp: in_fiber_def)

end
