(* ===== verification/Scheduler.thy ===== *)
theory Scheduler
  imports Fiber_Exclusive
begin

text \<open>
  The scheduler (scheduler.h, scheduler.cpp): the task queue, the run loop of a worker as
  a machine that stops wherever another thread can interfere (after the locked scan, at
  every switch to a fiber, after the fiber came back), and start/stop. The virtual
  \<open>tickle\<close> and \<open>idle\<close> are the hooks IOManager overrides: a step says whether it calls
  tickle, and the idle fiber's loop is a step of its own.
\<close>

section \<open>State\<close>

text \<open>\<open>FiberOrCb\<close>; \<open>tk_thread\<close> is -1 for any thread.\<close>

record 'c task =
  tk_fiber :: "nat option"
  tk_cb :: "'c option"
  tk_thread :: int

record 'c scheduler =
  m_threads :: "nat list"
  m_fibers :: "'c task list"
  m_rootFiber :: "nat option"
  m_threadIds :: "int list"
  m_threadNum :: u64
  m_activeThreadCount :: u64
  m_idleThreadCount :: u64
  m_stopping :: bool
  m_rootThread :: int

text \<open>What \<open>schedule\<close> is called with.\<close>

datatype 'c work = Fib "nat option" | Fun "'c option"

fun FiberOrCb :: "'c work \<Rightarrow> int \<Rightarrow> 'c task" where
  "FiberOrCb (Fib f) thr = \<lparr>tk_fiber = f, tk_cb = None, tk_thread = thr\<rparr>"
| "FiberOrCb (Fun c) thr = \<lparr>tk_fiber = None, tk_cb = c, tk_thread = thr\<rparr>"

definition FiberOrCb_reset :: "'c task" where
  "FiberOrCb_reset = \<lparr>tk_fiber = None, tk_cb = None, tk_thread = -1\<rparr>"

text \<open>
  The constructor: with \<open>use_caller\<close> the calling thread is one of the \<open>thread_num\<close> and
  gets a root fiber at address \<open>rp\<close>.
\<close>

definition Scheduler_new :: "u64 \<Rightarrow> bool \<Rightarrow> int \<Rightarrow> nat \<Rightarrow> 'c scheduler" where
  "Scheduler_new thread_num use_caller tid rp =
     \<lparr>m_threads = [], m_fibers = [],
      m_rootFiber = (if use_caller then Some rp else None),
      m_threadIds = (if use_caller then [tid] else []),
      m_threadNum = (if use_caller then thread_num - 1 else thread_num),
      m_activeThreadCount = 0, m_idleThreadCount = 0, m_stopping = True,
      m_rootThread = (if use_caller then tid else -1)\<rparr>"

section \<open>The queue\<close>

definition scheduleNoLock :: "'c work \<Rightarrow> int \<Rightarrow> 'c scheduler \<Rightarrow> 'c scheduler \<times> bool" where
  "scheduleNoLock fc thread s =
     (let need_tickle = (m_fibers s = []); ft = FiberOrCb fc thread
      in (if tk_fiber ft \<noteq> None \<or> tk_cb ft \<noteq> None then s\<lparr>m_fibers := m_fibers s @ [ft]\<rparr> else s, need_tickle))"

text \<open>The result says whether \<open>tickle\<close> is called after the unlock.\<close>

definition schedule :: "'c work \<Rightarrow> int \<Rightarrow> 'c scheduler \<Rightarrow> 'c scheduler \<times> bool" where
  "schedule fc thread s = scheduleNoLock fc thread s"

fun schedule_range_loop :: "'c work list \<Rightarrow> 'c scheduler \<Rightarrow> bool \<Rightarrow> 'c scheduler \<times> bool" where
  "schedule_range_loop [] s need_tickle = (s, need_tickle)"
| "schedule_range_loop (fc # fcs) s need_tickle =
     (case scheduleNoLock fc (-1) s of
        (s', b) \<Rightarrow> schedule_range_loop fcs s' (b \<or> need_tickle))"

definition schedule_range :: "'c work list \<Rightarrow> 'c scheduler \<Rightarrow> 'c scheduler \<times> bool" where
  "schedule_range fcs s = schedule_range_loop fcs s False"

definition stopping :: "'c scheduler \<Rightarrow> bool" where
  "stopping s \<longleftrightarrow> m_stopping s \<and> m_fibers s = [] \<and> m_activeThreadCount s = 0"

text \<open>
  The scan of the run loop under the lock: the task it takes, the queue it leaves, and
  \<open>tickle_me\<close>.
\<close>

fun scan_loop ::
  "int \<Rightarrow> (nat \<Rightarrow> State option) \<Rightarrow> 'c task list \<Rightarrow> bool \<Rightarrow> ('c task option \<times> 'c task list \<times> bool) res" where
  "scan_loop tid st [] tickle_me = Inr (None, [], tickle_me)"
| "scan_loop tid st (x # xs) tickle_me =
     (if tk_thread x \<noteq> -1 \<and> tk_thread x \<noteq> tid then
        mapR (\<lambda>(ft, rest, tm). (ft, x # rest, tm)) (scan_loop tid st xs True)
      else bindR (assertR (tk_fiber x \<noteq> None \<or> tk_cb x \<noteq> None) AssertFailed) (\<lambda>_.
        if tk_fiber x \<noteq> None \<and> st (the (tk_fiber x)) = Some EXEC then
          mapR (\<lambda>(ft, rest, tm). (ft, x # rest, tm)) (scan_loop tid st xs tickle_me)
        else Inr (Some x, xs, tickle_me \<or> xs \<noteq> [])))"

section \<open>The run loop\<close>

text \<open>
  Where a worker is: before the scan, holding what the scan returned, inside a fiber
  it switched to (a scheduled one, the one it runs callbacks on, the idle one), or out of
  the loop.
\<close>

datatype 'c pc =
    Outside
  | Scanning
  | Dispatch "'c task" bool
  | InTask nat
  | InCb
  | InIdle
  | Exited

record 'c sys =
  sched :: "'c scheduler"
  world :: "'c fworld"
  at :: "nat \<Rightarrow> 'c pc"
  cb_fiber :: "nat \<Rightarrow> nat option"
  idle_fiber :: "nat \<Rightarrow> nat"

abbreviation set_at :: "nat \<Rightarrow> 'c pc \<Rightarrow> 'c sys \<Rightarrow> 'c sys" where
  "set_at t l y \<equiv> y\<lparr>at := (at y)(t := l)\<rparr>"

definition run_enter :: "nat \<Rightarrow> nat \<Rightarrow> 'c \<Rightarrow> u32 \<Rightarrow> nat \<Rightarrow> 'c sys \<Rightarrow> 'c sys" where
  "run_enter mp ip idle_cb conf t y =
     (let w1 = (if int t \<noteq> m_rootThread (sched y) then worker_start mp t (world y) else world y);
          w2 = Fiber_new ip (Some idle_cb) 0 conf w1
      in set_at t Scanning (y\<lparr>world := w2, idle_fiber := (idle_fiber y)(t := ip),
                              cb_fiber := (cb_fiber y)(t := None)\<rparr>))"

definition run_scan :: "nat \<Rightarrow> 'c sys \<Rightarrow> ('c sys \<times> bool) res" where
  "run_scan t y =
     bindR (scan_loop (int t) (state_of (world y)) (m_fibers (sched y)) False) (\<lambda>(ft, rest, tickle_me).
       Inr (case ft of
              None \<Rightarrow> (set_at t (Dispatch FiberOrCb_reset False) y, tickle_me)
            | Some x \<Rightarrow>
                (set_at t (Dispatch x True)
                   (y\<lparr>sched := (sched y)\<lparr>m_fibers := rest,
                                         m_activeThreadCount := m_activeThreadCount (sched y) + 1\<rparr>\<rparr>),
                 tickle_me)))"

text \<open>\<open>np\<close> is the address of a new callback fiber, \<open>conf\<close> the configured stack size.\<close>

definition run_dispatch :: "nat \<Rightarrow> u32 \<Rightarrow> nat \<Rightarrow> 'c sys \<Rightarrow> 'c sys res" where
  "run_dispatch np conf t y =
     (case at y t of
        Dispatch ft is_active \<Rightarrow>
          (if (case tk_fiber ft of None \<Rightarrow> False
               | Some p \<Rightarrow> state_of (world y) p \<noteq> Some TERM' \<and> state_of (world y) p \<noteq> Some EXCEPT) then
             (let p = the (tk_fiber ft) in
              mapR (\<lambda>w. set_at t (InTask p) (y\<lparr>world := w\<rparr>)) (swapIn p t (world y)))
           else if tk_cb ft \<noteq> None then
             (case cb_fiber y t of
                Some p \<Rightarrow>
                  bindR (Fiber_reset p (tk_cb ft) (world y)) (\<lambda>w1.
                  mapR (\<lambda>w. set_at t InCb (y\<lparr>world := w\<rparr>)) (swapIn p t w1))
              | None \<Rightarrow>
                  mapR (\<lambda>w. set_at t InCb (y\<lparr>world := w, cb_fiber := (cb_fiber y)(t := Some np)\<rparr>))
                    (swapIn np t (Fiber_new np (tk_cb ft) 0 conf (world y))))
           else if is_active then
             Inr (set_at t Scanning
                    (y\<lparr>sched := (sched y)\<lparr>m_activeThreadCount := m_activeThreadCount (sched y) - 1\<rparr>\<rparr>))
           else if state_of (world y) (idle_fiber y t) = Some TERM' then Inr (set_at t Exited y)
           else
             mapR (\<lambda>w. set_at t InIdle
                     (y\<lparr>world := w,
                        sched := (sched y)\<lparr>m_idleThreadCount := m_idleThreadCount (sched y) + 1\<rparr>\<rparr>))
               (swapIn (idle_fiber y t) t (world y)))
      | _ \<Rightarrow> Inl BadAccess)"

text \<open>After the fiber has switched back. The flag is the tickle of a re-schedule.\<close>

definition run_after :: "nat \<Rightarrow> 'c sys \<Rightarrow> ('c sys \<times> bool) res" where
  "run_after t y =
     (let s1 = (sched y)\<lparr>m_activeThreadCount := m_activeThreadCount (sched y) - 1\<rparr> in
      case at y t of
        InTask p \<Rightarrow>
          (if state_of (world y) p = Some READY then
             (case schedule (Fib (Some p)) (-1) s1 of
                (s2, b) \<Rightarrow> Inr (set_at t Scanning (y\<lparr>sched := s2\<rparr>), b))
           else if state_of (world y) p \<noteq> Some TERM' \<and> state_of (world y) p \<noteq> Some EXCEPT then
             Inr (set_at t Scanning (y\<lparr>sched := s1, world := set_state p HOLD (world y)\<rparr>), False)
           else Inr (set_at t Scanning (y\<lparr>sched := s1\<rparr>), False))
      | InCb \<Rightarrow>
          (let p = the (cb_fiber y t) in
           if state_of (world y) p = Some READY then
             (case schedule (Fib (Some p)) (-1) s1 of
                (s2, b) \<Rightarrow> Inr (set_at t Scanning (y\<lparr>sched := s2, cb_fiber := (cb_fiber y)(t := None)\<rparr>), b))
           else if state_of (world y) p = Some EXCEPT \<or> state_of (world y) p = Some TERM' then
             mapR (\<lambda>w. (set_at t Scanning (y\<lparr>sched := s1, world := w\<rparr>), False))
               (Fiber_reset p None (world y))
           else
             Inr (set_at t Scanning
                    (y\<lparr>sched := s1, world := set_state p HOLD (world y), cb_fiber := (cb_fiber y)(t := None)\<rparr>),
                  False))
      | InIdle \<Rightarrow>
          (let p = idle_fiber y t;
               s2 = (sched y)\<lparr>m_idleThreadCount := m_idleThreadCount (sched y) - 1\<rparr>;
               w = (if state_of (world y) p \<noteq> Some TERM' \<and> state_of (world y) p \<noteq> Some EXCEPT
                    then set_state p HOLD (world y) else world y)
           in Inr (set_at t Scanning (y\<lparr>sched := s2, world := w\<rparr>), False))
      | _ \<Rightarrow> Inl BadAccess)"

text \<open>
  \<open>Scheduler::idle\<close>: one turn of its loop, on the idle fiber. It ends when \<open>stopping()\<close>
  holds.
\<close>

definition idle_turn :: "nat \<Rightarrow> nat \<Rightarrow> 'c sys \<Rightarrow> 'c sys res" where
  "idle_turn np t y =
     (if \<not> stopping (sched y) then mapR (\<lambda>w. y\<lparr>world := w\<rparr>) (YieldToHold np t (world y))
      else mapR (\<lambda>w. y\<lparr>world := w\<rparr>) (MainFunc Returned np t (world y)))"

section \<open>Start and stop\<close>

text \<open>\<open>tids\<close> are the ids of the threads that the system creates.\<close>

definition start :: "nat list \<Rightarrow> 'c scheduler \<Rightarrow> 'c scheduler res" where
  "start tids s =
     (if \<not> m_stopping s then Inr s
      else bindR (assertR (m_threads s = []) AssertFailed) (\<lambda>_.
        let new = take (unat (m_threadNum s)) tids
        in Inr (s\<lparr>m_stopping := False, m_threads := new, m_threadIds := m_threadIds s @ map int new\<rparr>)))"

text \<open>
  \<open>stop\<close> up to the switch to the root fiber and the joins: the state, how often it calls
  \<open>tickle\<close>, whether it calls the root fiber, and which threads it then joins.
  \<open>own\<close> says whether \<open>GetThis() == this\<close>, \<open>stopping'\<close> is the virtual stopping().
\<close>

record 'c stop_result =
  sr_sched :: "'c scheduler"
  sr_tickles :: nat
  sr_call_root :: bool
  sr_join :: "nat list"

definition stop ::
  "('c scheduler \<Rightarrow> bool) \<Rightarrow> bool \<Rightarrow> (nat \<Rightarrow> State option) \<Rightarrow> 'c scheduler \<Rightarrow> 'c stop_result res" where
  "stop stopping' own st s =
     (let root_only = (m_rootFiber s \<noteq> None \<and> m_threadNum s = 0
            \<and> (st (the (m_rootFiber s)) = Some TERM' \<or> st (the (m_rootFiber s)) = Some INIT));
          s1 = (if root_only then s\<lparr>m_stopping := True\<rparr> else s)
      in if root_only \<and> stopping' s1
         then Inr \<lparr>sr_sched = s1, sr_tickles = 0, sr_call_root = False, sr_join = []\<rparr>
         else bindR (assertR (if m_rootThread s1 \<noteq> -1 then own else \<not> own) AssertFailed) (\<lambda>_.
           let s2 = s1\<lparr>m_stopping := True\<rparr>;
               tickles = unat (m_threadNum s2) + (if m_rootFiber s2 \<noteq> None then 1 else 0);
               call_root = (m_rootFiber s2 \<noteq> None \<and> \<not> stopping' s2)
           in Inr \<lparr>sr_sched = s2\<lparr>m_threads := []\<rparr>, sr_tickles = tickles, sr_call_root = call_root,
                   sr_join = m_threads s2\<rparr>))"

text \<open>The destructor's assertion.\<close>

definition Scheduler_destroy :: "'c scheduler \<Rightarrow> unit res" where
  "Scheduler_destroy s = assertR (m_stopping s) AssertFailed"

end
