(* ===== verification/Scheduler_Run.thy ===== *)
theory Scheduler_Run
  imports Scheduler
begin

text \<open>
  Properties of the scheduler: which task a scan takes, the interleaving of the workers'
  steps with its counters, and when a worker leaves the loop.
\<close>

section \<open>The scan\<close>

definition foreign :: "int \<Rightarrow> 'c task \<Rightarrow> bool" where
  "foreign tid x \<longleftrightarrow> tk_thread x \<noteq> -1 \<and> tk_thread x \<noteq> tid"

definition eligible :: "int \<Rightarrow> (nat \<Rightarrow> State option) \<Rightarrow> 'c task \<Rightarrow> bool" where
  "eligible tid st x \<longleftrightarrow> \<not> foreign tid x \<and> \<not> (\<exists>p. tk_fiber x = Some p \<and> st p = Some EXEC)"

definition task_ok :: "'c task \<Rightarrow> bool" where
  "task_ok x \<longleftrightarrow> tk_fiber x \<noteq> None \<or> tk_cb x \<noteq> None"

lemma scan_loop_eq:
  assumes "\<forall>x \<in> set q. task_ok x"
  shows "scan_loop tid st q tm =
    (let before = takeWhile (\<lambda>x. \<not> eligible tid st x) q; from_it = dropWhile (\<lambda>x. \<not> eligible tid st x) q;
         f = (tm \<or> (\<exists>x \<in> set before. foreign tid x))
     in case from_it of [] \<Rightarrow> Inr (None, q, f) | x # after \<Rightarrow> Inr (Some x, before @ after, f \<or> after \<noteq> []))"
  using assms
proof (induction q arbitrary: tm)
  case (Cons x xs)
  have ok: "tk_fiber x \<noteq> None \<or> tk_cb x \<noteq> None" using Cons.prems by (simp add: task_ok_def)
  note IH = Cons.IH [unfolded Let_def]
  consider (other) "foreign tid x" | (exec) p where "\<not> foreign tid x" "tk_fiber x = Some p" "st p = Some EXEC"
    | (mine) "eligible tid st x" by (auto simp: eligible_def)
  then show ?case
  proof cases
    case other
    then have "\<not> eligible tid st x" "tk_thread x \<noteq> -1 \<and> tk_thread x \<noteq> tid" by (auto simp: eligible_def foreign_def)
    with other Cons.prems show ?thesis by (simp add: IH Let_def del: dropWhile_eq_Nil_conv split: list.splits)
  next
    case exec
    then have "\<not> eligible tid st x" "\<not> (tk_thread x \<noteq> -1 \<and> tk_thread x \<noteq> tid)" by (auto simp: eligible_def foreign_def)
    with exec Cons.prems show ?thesis
      by (simp only: scan_loop.simps if_False) (simp add: IH assertR_def Let_def task_ok_def del: dropWhile_eq_Nil_conv split: list.splits)
  next
    case mine
    then have "\<not> (tk_thread x \<noteq> -1 \<and> tk_thread x \<noteq> tid)"
      "\<not> (tk_fiber x \<noteq> None \<and> st (the (tk_fiber x)) = Some EXEC)" by (auto simp: eligible_def foreign_def)
    with mine ok show ?thesis by (simp only: scan_loop.simps if_False) (simp add: assertR_def)
  qed
qed simp

text \<open>
  The scan of the run loop takes the first task in the queue that this thread may run,
  that is, one not pinned to another thread and not a fiber that is still executing; it
  leaves all other tasks in order, and asks for a tickle exactly when it passed a task of
  another thread or left tasks behind the one it took.
\<close>

theorem scan_takes_first_eligible:
  assumes "\<forall>x \<in> set q. tk_fiber x \<noteq> None \<or> tk_cb x \<noteq> None"
    and "scan_loop tid st q False = Inr (ft, rest, tickle_me)"
  shows "case ft of
      None \<Rightarrow> rest = q \<and> (\<forall>x \<in> set q. \<not> eligible tid st x) \<and> (tickle_me \<longleftrightarrow> (\<exists>x \<in> set q. foreign tid x))
    | Some x \<Rightarrow> (\<exists>before after. q = before @ x # after \<and> rest = before @ after
        \<and> eligible tid st x \<and> (\<forall>y \<in> set before. \<not> eligible tid st y)
        \<and> (tickle_me \<longleftrightarrow> (\<exists>y \<in> set before. foreign tid y) \<or> after \<noteq> []))"
proof (cases "dropWhile (\<lambda>x. \<not> eligible tid st x) q")
  case Nil
  then have "takeWhile (\<lambda>x. \<not> eligible tid st x) q = q" "\<forall>x \<in> set q. \<not> eligible tid st x"
    by (simp_all add: dropWhile_eq_Nil_conv)
  moreover have "scan_loop tid st q False = Inr (None, q, \<exists>x \<in> set q. foreign tid x)"
    using scan_loop_eq [of q tid st False] assms(1) calculation
    unfolding Nil Let_def list.case by (simp add: task_ok_def)
  ultimately show ?thesis using assms(2) by simp
next
  case (Cons x after)
  let ?before = "takeWhile (\<lambda>x. \<not> eligible tid st x) q"
  have q: "q = ?before @ x # after" unfolding Cons [symmetric] by simp
  have "eligible tid st x" using Cons hd_dropWhile [of "\<lambda>x. \<not> eligible tid st x" q] by simp
  moreover have "\<forall>y \<in> set ?before. \<not> eligible tid st y" by (auto dest: set_takeWhileD)
  moreover have "ft = Some x" "rest = ?before @ after"
    "tickle_me \<longleftrightarrow> (\<exists>y \<in> set ?before. foreign tid y) \<or> after \<noteq> []"
    using assms Cons by (simp_all add: scan_loop_eq task_ok_def Let_def)
  ultimately show ?thesis using q by (simp only: option.case) blast
qed

lemma scan_takes_first_eligible_witness:
  "\<exists>rest. scan_loop 3 (\<lambda>p. if p = 9 then Some EXEC else Some INIT)
      [FiberOrCb (Fun (Some CHR ''a'')) 4, FiberOrCb (Fib (Some 9)) (-1), FiberOrCb (Fun (Some CHR ''b'')) 3] False
      = Inr (Some (FiberOrCb (Fun (Some CHR ''b'')) 3), rest, True) \<and> length rest = 2"
  using scan_takes_first_eligible [of "[FiberOrCb (Fun (Some CHR ''a'')) 4, FiberOrCb (Fib (Some 9)) (-1),
      FiberOrCb (Fun (Some CHR ''b'')) 3]" 3 "\<lambda>p. if p = 9 then Some EXEC else Some INIT"]
  by (simp add: assertR_def)

section \<open>Interleavings\<close>

definition busy :: "'c pc \<Rightarrow> bool" where
  "busy l \<longleftrightarrow> (case l of Dispatch _ a \<Rightarrow> a | InTask _ \<Rightarrow> True | InCb \<Rightarrow> True | _ \<Rightarrow> False)"

lemma busy_simps [simp]:
  "\<not> busy Outside" "\<not> busy Scanning" "busy (Dispatch x a) = a" "busy (InTask p)" "busy InCb"
  "\<not> busy InIdle" "\<not> busy Exited"
  by (simp_all add: busy_def)

inductive sys_step :: "'c sys \<Rightarrow> 'c sys \<Rightarrow> bool" where
  sys_enter: "at y t = Outside \<Longrightarrow> sys_step y (run_enter mp ip icb conf t y)"
| sys_scan: "at y t = Scanning \<Longrightarrow> run_scan t y = Inr (y', b) \<Longrightarrow> sys_step y y'"
| sys_dispatch: "run_dispatch np conf t y = Inr y' \<Longrightarrow> sys_step y y'"
| sys_after: "cpu (world y) t = t_scheduler_fiber (world y) t \<Longrightarrow> run_after t y = Inr (y', b) \<Longrightarrow> sys_step y y'"
| sys_idle: "at y t = InIdle \<Longrightarrow> idle_turn np t y = Inr y' \<Longrightarrow> sys_step y y'"
| sys_fiber: "fw_step (world y) w \<Longrightarrow> sys_step y (y\<lparr>world := w\<rparr>)"
| sys_schedule: "sys_step y (y\<lparr>sched := fst (schedule fc thread (sched y))\<rparr>)"
| sys_range: "sys_step y (y\<lparr>sched := fst (schedule_range fcs (sched y))\<rparr>)"
| sys_start: "start tids (sched y) = Inr s \<Longrightarrow> sys_step y (y\<lparr>sched := s\<rparr>)"
| sys_stop: "stop v own st (sched y) = Inr r \<Longrightarrow> sys_step y (y\<lparr>sched := sr_sched r\<rparr>)"

definition sys_init :: "'c scheduler \<Rightarrow> 'c fworld \<Rightarrow> 'c sys" where
  "sys_init s w = \<lparr>sched = s, world = w, at = (\<lambda>_. Outside), cb_fiber = (\<lambda>_. None), idle_fiber = (\<lambda>_. 0)\<rparr>"

inductive sys_run :: "'c sys \<Rightarrow> bool" where
  sys_run_init: "sys_run (sys_init (Scheduler_new n uc tid rp) w)"
| sys_run_step: "sys_run y \<Longrightarrow> sys_step y y' \<Longrightarrow> sys_run y'"

definition counts_ok :: "'c sys \<Rightarrow> bool" where
  "counts_ok y \<longleftrightarrow>
     finite {t. busy (at y t)} \<and> m_activeThreadCount (sched y) = of_nat (card {t. busy (at y t)})
   \<and> finite {t. at y t = InIdle} \<and> m_idleThreadCount (sched y) = of_nat (card {t. at y t = InIdle})
   \<and> (\<forall>x \<in> set (m_fibers (sched y)). task_ok x)
   \<and> (\<forall>t ft. at y t = Dispatch ft False \<longrightarrow> ft = FiberOrCb_reset)"

text \<open>Moving one thread changes the count of the threads in a set of places by that thread.\<close>

lemma card_move:
  fixes c :: u64
  assumes "finite {t. P (f t)}" and "c = of_nat (card {t. P (f t)})"
  shows "finite {t'. P ((f(t := l)) t')} \<and>
    of_nat (card {t'. P ((f(t := l)) t')})
      = c + (if P l \<and> \<not> P (f t) then 1 else if \<not> P l \<and> P (f t) then - 1 else 0)"
proof -
  let ?A = "{t. P (f t)}" and ?B = "{t'. P ((f(t := l)) t')}"
  have A: "card ?A = Suc (card (?A - {t}))" if "P (f t)"
    by (rule card.remove [OF assms(1)]) (simp add: that)
  consider "P l \<longleftrightarrow> P (f t)" | "P l" "\<not> P (f t)" | "\<not> P l" "P (f t)" by blast
  then show ?thesis
  proof cases
    case 1
    then have "?B = ?A" by auto
    then show ?thesis using 1 assms(1) by (simp only: assms(2)) simp
  next
    case 2
    then have "?B = insert t ?A" by auto
    moreover have "card (insert t ?A) = Suc (card ?A)"
      by (rule card_insert_disjoint [OF assms(1)]) (simp add: 2)
    ultimately show ?thesis using 2 assms(1) by (simp add: assms(2))
  next
    case 3
    then have "?B = ?A - {t}" by auto
    moreover obtain n where "card (?A - {t}) = n" "card ?A = Suc n" using A 3 by blast
    ultimately show ?thesis using 3 assms(1) by (simp only: assms(2)) simp
  qed
qed

lemma counts_move:
  assumes "counts_ok y"
    and "at y' = (at y)(t := l)"
    and "m_activeThreadCount (sched y') = m_activeThreadCount (sched y)
           + (if busy l \<and> \<not> busy (at y t) then 1 else if \<not> busy l \<and> busy (at y t) then - 1 else 0)"
    and "m_idleThreadCount (sched y') = m_idleThreadCount (sched y)
           + (if l = InIdle \<and> at y t \<noteq> InIdle then 1 else if l \<noteq> InIdle \<and> at y t = InIdle then - 1 else 0)"
    and "\<forall>x \<in> set (m_fibers (sched y')). task_ok x"
    and "\<forall>ft. l = Dispatch ft False \<longrightarrow> ft = FiberOrCb_reset"
  shows "counts_ok y'"
  using card_move [of busy "at y" "m_activeThreadCount (sched y)" t l]
    card_move [of "\<lambda>l. l = InIdle" "at y" "m_idleThreadCount (sched y)" t l] assms
  by (simp add: counts_ok_def)

lemma counts_same:
  "counts_ok y \<Longrightarrow> at y' = at y \<Longrightarrow> m_activeThreadCount (sched y') = m_activeThreadCount (sched y) \<Longrightarrow>
   m_idleThreadCount (sched y') = m_idleThreadCount (sched y) \<Longrightarrow>
   \<forall>x \<in> set (m_fibers (sched y')). task_ok x \<Longrightarrow> counts_ok y'"
  by (simp add: counts_ok_def)

lemma scheduleNoLock_fields:
  "m_activeThreadCount (fst (scheduleNoLock fc thr s)) = m_activeThreadCount s"
  "m_idleThreadCount (fst (scheduleNoLock fc thr s)) = m_idleThreadCount s"
  "\<forall>x \<in> set (m_fibers s). task_ok x \<Longrightarrow> \<forall>x \<in> set (m_fibers (fst (scheduleNoLock fc thr s))). task_ok x"
  by (auto simp: scheduleNoLock_def Let_def task_ok_def)

lemma schedule_range_fields:
  "m_activeThreadCount (fst (schedule_range_loop fcs s b)) = m_activeThreadCount s \<and>
   m_idleThreadCount (fst (schedule_range_loop fcs s b)) = m_idleThreadCount s \<and>
   ((\<forall>x \<in> set (m_fibers s). task_ok x) \<longrightarrow> (\<forall>x \<in> set (m_fibers (fst (schedule_range_loop fcs s b))). task_ok x))"
proof (induction fcs arbitrary: s b)
  case (Cons fc fcs)
  obtain s' b' where e: "scheduleNoLock fc (-1) s = (s', b')" by force
  show ?case
    using scheduleNoLock_fields [where fc = fc and thr = "-1" and s = s] Cons.IH [of s' "b' \<or> b"]
    by (simp add: e)
qed simp

lemma scan_loop_subset: "scan_loop tid st q tm = Inr (ft, rest, b) \<Longrightarrow> set rest \<subseteq> set q"
proof (induction q arbitrary: tm ft rest b)
  case (Cons x xs)
  then show ?case
    by (fastforce simp: mapR_eq_Inr bindR_eq_Inr split: if_splits)
qed simp

lemma run_scan_counts:
  assumes "counts_ok y" "at y t = Scanning" "run_scan t y = Inr (y', b)"
  shows "counts_ok y'"
proof -
  have ok: "\<forall>x \<in> set (m_fibers (sched y)). task_ok x" using assms(1) by (simp add: counts_ok_def)
  from assms(3) obtain ft rest tm where scan:
    "scan_loop (int t) (state_of (world y)) (m_fibers (sched y)) False = Inr (ft, rest, tm)"
    and y': "y' = (case ft of None \<Rightarrow> set_at t (Dispatch FiberOrCb_reset False) y
      | Some x \<Rightarrow> set_at t (Dispatch x True) (y\<lparr>sched := (sched y)\<lparr>m_fibers := rest,
            m_activeThreadCount := m_activeThreadCount (sched y) + 1\<rparr>\<rparr>))"
    by (auto simp: run_scan_def bindR_eq_Inr split: option.splits)
  show ?thesis
  proof (cases ft)
    case None
    then show ?thesis
      using ok assms(2) y' by (intro counts_move [OF assms(1), where t = t and l = "Dispatch FiberOrCb_reset False"]) auto
  next
    case (Some x)
    have "set rest \<subseteq> set (m_fibers (sched y))"
      by (rule scan_loop_subset [OF scan])
    then show ?thesis
      using ok assms(2) y' Some by (intro counts_move [OF assms(1), where t = t and l = "Dispatch x True"]) auto
  qed
qed

lemma run_dispatch_counts:
  assumes c: "counts_ok y" and "run_dispatch np conf t y = Inr y'"
  shows "counts_ok y'"
proof -
  have ok: "\<forall>x \<in> set (m_fibers (sched y)). task_ok x" using c by (simp add: counts_ok_def)
  obtain ft a where d: "at y t = Dispatch ft a"
    using assms(2) by (cases "at y t") (auto simp: run_dispatch_def)
  have "ft \<noteq> FiberOrCb_reset \<Longrightarrow> a"
    using c d by (cases a) (auto simp: counts_ok_def)
  then have a: "\<And>p. tk_fiber ft = Some p \<Longrightarrow> a" "\<And>cb. tk_cb ft = Some cb \<Longrightarrow> a"
    unfolding FiberOrCb_reset_def by (metis option.distinct(1) task.select_convs(1),
      metis option.distinct(1) task.select_convs(2))
  have "at y' = (at y)(t := at y' t) \<and> m_fibers (sched y') = m_fibers (sched y)
    \<and> (case at y' t of
         InTask p \<Rightarrow> a \<and> m_activeThreadCount (sched y') = m_activeThreadCount (sched y)
           \<and> m_idleThreadCount (sched y') = m_idleThreadCount (sched y)
       | InCb \<Rightarrow> a \<and> m_activeThreadCount (sched y') = m_activeThreadCount (sched y)
           \<and> m_idleThreadCount (sched y') = m_idleThreadCount (sched y)
       | Scanning \<Rightarrow> a \<and> m_activeThreadCount (sched y') = m_activeThreadCount (sched y) - 1
           \<and> m_idleThreadCount (sched y') = m_idleThreadCount (sched y)
       | Exited \<Rightarrow> \<not> a \<and> sched y' = sched y
       | InIdle \<Rightarrow> \<not> a \<and> m_activeThreadCount (sched y') = m_activeThreadCount (sched y)
           \<and> m_idleThreadCount (sched y') = m_idleThreadCount (sched y) + 1
       | _ \<Rightarrow> False)"
    using assms(2) a
    by (auto simp: run_dispatch_def d mapR_eq_Inr bindR_eq_Inr Let_def split: if_splits option.splits)
  then show ?thesis
    using ok d by (intro counts_move [OF c, where t = t and l = "at y' t"]) (auto split: pc.splits)
qed

lemma run_after_counts:
  assumes c: "counts_ok y" and "run_after t y = Inr (y', b)"
  shows "counts_ok y'"
proof -
  have ok: "\<forall>x \<in> set (m_fibers (sched y)). task_ok x" using c by (simp add: counts_ok_def)
  have resched: "m_activeThreadCount (fst (schedule fc thr s)) = m_activeThreadCount s"
    "m_idleThreadCount (fst (schedule fc thr s)) = m_idleThreadCount s"
    "\<forall>x \<in> set (m_fibers s). task_ok x \<Longrightarrow> \<forall>x \<in> set (m_fibers (fst (schedule fc thr s))). task_ok x"
    for fc :: "'a work" and thr and s :: "'a scheduler"
    unfolding schedule_def by (rule scheduleNoLock_fields; assumption)+
  have "at y' = (at y)(t := Scanning) \<and> (\<forall>x \<in> set (m_fibers (sched y')). task_ok x)
    \<and> (if at y t = InIdle
       then m_activeThreadCount (sched y') = m_activeThreadCount (sched y)
          \<and> m_idleThreadCount (sched y') = m_idleThreadCount (sched y) - 1
       else busy (at y t) \<and> m_activeThreadCount (sched y') = m_activeThreadCount (sched y) - 1
          \<and> m_idleThreadCount (sched y') = m_idleThreadCount (sched y))"
  proof (cases "at y t")
    case (InTask p)
    obtain s2 b2 where e: "schedule (Fib (Some p)) (-1)
        ((sched y)\<lparr>m_activeThreadCount := m_activeThreadCount (sched y) - 1\<rparr>) = (s2, b2)" by force
    from resched [where fc = "Fib (Some p)" and thr = "-1" and s = "(sched y)\<lparr>m_activeThreadCount := m_activeThreadCount (sched y) - 1\<rparr>"]
      assms(2) ok show ?thesis by (auto simp: run_after_def InTask e Let_def split: if_splits)
  next
    case InCb
    obtain s2 b2 where e: "schedule (Fib (Some (the (cb_fiber y t)))) (-1)
        ((sched y)\<lparr>m_activeThreadCount := m_activeThreadCount (sched y) - 1\<rparr>) = (s2, b2)" by force
    from resched [where fc = "Fib (Some (the (cb_fiber y t)))" and thr = "-1"
        and s = "(sched y)\<lparr>m_activeThreadCount := m_activeThreadCount (sched y) - 1\<rparr>"]
      assms(2) ok show ?thesis by (auto simp: run_after_def InCb e Let_def mapR_eq_Inr split: if_splits)
  qed (use assms(2) ok in \<open>auto simp: run_after_def Let_def\<close>)
  then show ?thesis
    by (intro counts_move [OF c, where t = t and l = Scanning]) (auto split: if_splits)
qed

lemma sys_step_counts:
  assumes "sys_step y y'" and c: "counts_ok y"
  shows "counts_ok y'"
proof -
  have ok: "\<forall>x \<in> set (m_fibers (sched y)). task_ok x" using c by (simp add: counts_ok_def)
  show ?thesis
    using assms(1)
  proof cases
    case (sys_enter t mp ip icb conf)
    then show ?thesis
      using ok by (intro counts_move [OF c, where t = t and l = Scanning]) (auto simp: run_enter_def Let_def)
  next
    case (sys_scan t b)
    then show ?thesis using run_scan_counts [OF c] by blast
  next
    case (sys_dispatch np conf t)
    then show ?thesis using run_dispatch_counts [OF c] by blast
  next
    case (sys_after t b)
    then show ?thesis using run_after_counts [OF c] by blast
  next
    case (sys_idle t np)
    then show ?thesis
      using ok by (intro counts_same [OF c]) (auto simp: idle_turn_def mapR_eq_Inr split: if_splits)
  next
    case (sys_fiber w)
    then show ?thesis using ok by (intro counts_same [OF c]) auto
  next
    case (sys_schedule fc thread)
    then show ?thesis
      using ok scheduleNoLock_fields(3) [OF ok, of fc thread]
      by (intro counts_same [OF c]) (simp_all add: schedule_def scheduleNoLock_fields)
  next
    case (sys_range fcs)
    then show ?thesis
      using ok schedule_range_fields [of fcs "sched y" False]
      by (intro counts_same [OF c]) (auto simp: schedule_range_def)
  next
    case (sys_start tids s)
    then show ?thesis
      using ok by (intro counts_same [OF c]) (auto simp: start_def Let_def bindR_eq_Inr split: if_splits)
  next
    case (sys_stop v own st r)
    then show ?thesis
      using ok by (intro counts_same [OF c]) (auto simp: stop_def Let_def bindR_eq_Inr split: if_splits)
  qed
qed

lemma sys_run_counts: "sys_run y \<Longrightarrow> counts_ok y"
proof (induction rule: sys_run.induct)
  case sys_run_init
  show ?case by (simp add: counts_ok_def sys_init_def Scheduler_new_def)
qed (blast dest: sys_step_counts)



text \<open>
  C11. A worker leaves the run loop only when it may: one turn of the idle loop followed by
  the bookkeeping after the switch and by a dispatch that found no task ends the loop if
  stopping() held at that turn, and otherwise switches to the idle fiber again; none of the
  steps fails.
\<close>

theorem worker_exits_only_when_stopping:
  assumes "fw_run (world y)" and "at y t = InIdle"
    and "cpu (world y) t = Some (idle_fiber y t)" and "t_scheduler_fiber (world y) t \<noteq> Some (idle_fiber y t)"
    and "fibers (world y) (idle_fiber y t) = Some f" and "fb_cb f \<noteq> None"
  shows "\<exists>y1 y2 y3. idle_turn np t y = Inr y1 \<and> run_after t y1 = Inr (y2, False) \<and> at y2 t = Scanning
    \<and> run_dispatch np' conf t (set_at t (Dispatch FiberOrCb_reset False) y2) = Inr y3
    \<and> at y3 t = (if stopping (sched y) then Exited else InIdle)"
proof -
  let ?p = "idle_fiber y t" and ?w = "world y"
  have inv: "fw_inv ?w" using fw_run_inv [OF assms(1)] by simp
  have inf: "in_fiber ?w t ?p" using assms(3,4) by (simp add: in_fiber_def)
  from in_fiber_sched [OF inv inf] obtain m where m: "t_scheduler_fiber ?w t = Some m" by blast
  show ?thesis
  proof (cases "stopping (sched y)")
    case True
    have "Fiber_GetThis np t ?w = (?p, ?w)"
      using fw_invD(2) [OF inv, of t] assms(3) by (simp add: Fiber_GetThis_def)
    then have "MainFunc Returned np t ?w = Inr ((SetThis t (Some m)
        (upd_fiber ?p (\<lambda>f. f\<lparr>fb_cb := None, fb_state := TERM'\<rparr>) ?w))\<lparr>cpu := (cpu ?w)(t := Some m)\<rparr>)"
      using assms(5,6) by (simp add: MainFunc_def main_end_def get_fiber_def swapOut_eq [OF inv inf m])
    then show ?thesis using True assms(2,5)
      by (simp add: idle_turn_def run_after_def run_dispatch_def Let_def FiberOrCb_reset_def state_of_upd_fiber)
  next
    case False
    let ?w1 = "(SetThis t (Some m) (set_state ?p HOLD ?w))\<lparr>cpu := (cpu ?w)(t := Some m)\<rparr>"
    note yield = yield_eq(2) [OF inv inf m, of np]
    have "fw_run ?w1" by (rule fw_run_step [OF assms(1) fw_hold [OF inf yield]])
    then have inv1: "fw_inv ?w1" using fw_run_inv by blast
    have same: "set_state ?p HOLD ?w1 = ?w1" using assms(5) by (simp add: set_state_def upd_fiber_def SetThis_def)
    show ?thesis using False assms(2,5) m
      by (simp add: idle_turn_def yield run_after_def same run_dispatch_def Let_def FiberOrCb_reset_def
          state_of_set_state swapIn_eq [OF inv1])
        (simp add: state_of_def)
  qed
qed

lemma worker_exits_only_when_stopping_witness:
  defines "y \<equiv> (sys_init (Scheduler_new 2 False 0 0) demo_world)\<lparr>at := (\<lambda>_. InIdle), idle_fiber := (\<lambda>_. 20)\<rparr>"
  shows "\<exists>y1 y2 y3. idle_turn 99 0 y = Inr y1 \<and> run_after 0 y1 = Inr (y2, False)
    \<and> run_dispatch 99 131072 0 (set_at 0 (Dispatch FiberOrCb_reset False) y2) = Inr y3 \<and> at y3 0 = Exited"
proof -
  have f: "fibers demo_world 20 = Some \<lparr>fb_id = 1, fb_stack = True, fb_stacksize = 131072, fb_state = EXEC, fb_cb = Some 7\<rparr>"
    by (simp add: demo_world_def swapIn_def get_fiber_def demo_defs assertR_def swapcontext_def set_state_def upd_fiber_def)
  have "stopping (sched y)" by (simp add: y_def sys_init_def Scheduler_new_def stopping_def)
  with worker_exits_only_when_stopping [of y 0 _ 99 99 131072] demo_world_run demo_world_facts f
  show ?thesis by (simp add: y_def sys_init_def in_fiber_def) blast
qed

text \<open>
  The bookkeeping after a switch is not protected either: a fiber that yielded with
  YieldToHold and that a second worker has already continued is marked HOLD by the first
  worker's run loop, so that its own next YieldToHold fails the assertion.
\<close>

theorem hold_write_race:
  assumes "fw_run (world y)" and "at y t = InTask p"
    and "cpu (world y) t' = Some p" and "t_scheduler_fiber (world y) t' \<noteq> Some p"
  shows "\<exists>y'. run_after t y = Inr (y', False)
    \<and> cpu (world y') t' = Some p \<and> state_of (world y') p = Some HOLD
    \<and> YieldToHold np t' (world y') = Inl AssertFailed"
proof -
  have inv: "fw_inv (world y)" using fw_run_inv [OF assms(1)] by simp
  have "state_of (world y) p = Some EXEC" by (rule fw_invD(3) [OF inv assms(3)])
  moreover have "t_fiber (world y) t' = Some p" using fw_invD(2) [OF inv] assms(3) by simp
  ultimately show ?thesis
    using assms(2,3)
    by (auto simp: run_after_def Let_def state_of_def fibers_set_state YieldToHold_def yield_mark_def
        Fiber_GetThis_def get_fiber_def assertR_def)
qed

lemma hold_write_race_witness:
  "\<exists>y'. run_after 1 ((sys_init (Scheduler_new 2 False 0 0) demo_world)\<lparr>at := (\<lambda>_. InTask 20)\<rparr>) = Inr (y', False)
    \<and> YieldToHold 99 0 (world y') = Inl AssertFailed"
  using hold_write_race [of "(sys_init (Scheduler_new 2 False 0 0) demo_world)\<lparr>at := (\<lambda>_. InTask 20)\<rparr>" 1 20 0 99]
    demo_world_run demo_world_facts by (auto simp: sys_init_def in_fiber_def)

end
