(* ===== verification/StdContainers.thy ===== *)
theory StdContainers
  imports Prelude
begin

text \<open>
  The ordered containers of the C++ library the sources use, as sorted lists: a
  \<open>std::set\<close> and a \<open>std::map\<close> over a comparator. The comparator's contract (a
  strict weak order) is a locale; the components that pass a comparator interpret it.
\<close>

section \<open>Operations\<close>

text \<open>\<open>insert\<close> leaves an equivalent element in place.\<close>

fun sset_insert :: "('k \<Rightarrow> 'k \<Rightarrow> bool) \<Rightarrow> 'k \<Rightarrow> 'k list \<Rightarrow> 'k list" where
  "sset_insert lt k [] = [k]"
| "sset_insert lt k (x # xs) =
     (if lt x k then x # sset_insert lt k xs else if lt k x then k # x # xs else x # xs)"

text \<open>\<open>find\<close>: the first element that is not smaller, if it is not larger either.\<close>

fun sset_find :: "('k \<Rightarrow> 'k \<Rightarrow> bool) \<Rightarrow> 'k \<Rightarrow> 'k list \<Rightarrow> 'k option" where
  "sset_find lt k [] = None"
| "sset_find lt k (x # xs) =
     (if lt x k then sset_find lt k xs else if lt k x then None else Some x)"

text \<open>\<open>erase(it)\<close> of the element \<open>find\<close> returned.\<close>

fun sset_erase :: "('k \<Rightarrow> 'k \<Rightarrow> bool) \<Rightarrow> 'k \<Rightarrow> 'k list \<Rightarrow> 'k list" where
  "sset_erase lt k [] = []"
| "sset_erase lt k (x # xs) =
     (if lt x k then x # sset_erase lt k xs else if lt k x then x # xs else xs)"

text \<open>\<open>m[k] = v\<close>: an equivalent key keeps its key object and gets the new value.\<close>

fun smap_set :: "('k \<Rightarrow> 'k \<Rightarrow> bool) \<Rightarrow> 'k \<Rightarrow> 'v \<Rightarrow> ('k \<times> 'v) list \<Rightarrow> ('k \<times> 'v) list" where
  "smap_set lt k v [] = [(k, v)]"
| "smap_set lt k v ((x, w) # xs) =
     (if lt x k then (x, w) # smap_set lt k v xs
      else if lt k x then (k, v) # (x, w) # xs else (x, v) # xs)"

fun smap_find :: "('k \<Rightarrow> 'k \<Rightarrow> bool) \<Rightarrow> 'k \<Rightarrow> ('k \<times> 'v) list \<Rightarrow> 'v option" where
  "smap_find lt k [] = None"
| "smap_find lt k ((x, w) # xs) =
     (if lt x k then smap_find lt k xs else if lt k x then None else Some w)"

fun smap_erase :: "('k \<Rightarrow> 'k \<Rightarrow> bool) \<Rightarrow> 'k \<Rightarrow> ('k \<times> 'v) list \<Rightarrow> ('k \<times> 'v) list" where
  "smap_erase lt k [] = []"
| "smap_erase lt k ((x, w) # xs) =
     (if lt x k then (x, w) # smap_erase lt k xs else if lt k x then (x, w) # xs else xs)"

section \<open>Comparators\<close>

locale comparator =
  fixes lt :: "'k \<Rightarrow> 'k \<Rightarrow> bool"
  assumes lt_irrefl: "\<not> lt x x"
    and lt_trans: "lt x y \<Longrightarrow> lt y z \<Longrightarrow> lt x z"
    and lt_negtrans: "\<not> lt x y \<Longrightarrow> \<not> lt y z \<Longrightarrow> \<not> lt x z"
begin

definition equiv :: "'k \<Rightarrow> 'k \<Rightarrow> bool" where
  "equiv x y \<longleftrightarrow> \<not> lt x y \<and> \<not> lt y x"

lemma lt_asym: "lt x y \<Longrightarrow> \<not> lt y x"
  using lt_irrefl lt_trans by blast

lemma equiv_refl: "equiv x x"
  by (simp add: equiv_def lt_irrefl)

lemma equiv_sym: "equiv x y \<Longrightarrow> equiv y x"
  by (simp add: equiv_def)

lemma equiv_trans: "equiv x y \<Longrightarrow> equiv y z \<Longrightarrow> equiv x z"
  using lt_negtrans by (auto simp: equiv_def)

lemma equiv_lt: "equiv x y \<Longrightarrow> lt x z \<longleftrightarrow> lt y z" "equiv x y \<Longrightarrow> lt z x \<longleftrightarrow> lt z y"
  using lt_negtrans by (auto simp: equiv_def)

lemma set_sset_insert: "set (sset_insert lt k xs) \<subseteq> insert k (set xs)"
  by (induction xs) auto

lemma sset_insert_sorted: "sorted_wrt lt xs \<Longrightarrow> sorted_wrt lt (sset_insert lt k xs)"
  using set_sset_insert [of k] by (induction xs) (auto dest: lt_trans)

lemma sset_erase_sorted: "sorted_wrt lt xs \<Longrightarrow> sorted_wrt lt (sset_erase lt k xs)"
proof (induction xs)
  case (Cons x xs)
  have "set (sset_erase lt k xs) \<subseteq> set xs" by (induction xs) auto
  with Cons show ?case by auto
qed simp

lemma sset_find_none: "sorted_wrt lt xs \<Longrightarrow> sset_find lt k xs = None \<longleftrightarrow> \<not> (\<exists>x \<in> set xs. equiv x k)"
  by (induction xs) (auto simp: equiv_def dest: lt_trans lt_asym)

lemma sset_find_some: "sset_find lt k xs = Some x \<Longrightarrow> x \<in> set xs \<and> equiv x k"
  by (induction xs) (auto simp: equiv_def split: if_splits)

lemma set_sset_insert_new:
  "sorted_wrt lt xs \<Longrightarrow> \<not> (\<exists>x \<in> set xs. equiv x k) \<Longrightarrow> set (sset_insert lt k xs) = insert k (set xs)"
  by (induction xs) (auto simp: equiv_def)

lemma sset_insert_present:
  "sorted_wrt lt xs \<Longrightarrow> x \<in> set xs \<Longrightarrow> equiv x k \<Longrightarrow> sset_insert lt k xs = xs"
  by (induction xs) (auto simp: equiv_def dest: lt_trans)

lemma set_sset_erase:
  "sorted_wrt lt xs \<Longrightarrow> set (sset_erase lt k xs) = {x \<in> set xs. \<not> equiv x k}"
proof (induction xs)
  case (Cons x xs)
  have "\<forall>y \<in> set xs. lt x y" using Cons.prems by simp
  then show ?case
    using Cons by (auto simp: equiv_def dest: lt_trans lt_asym lt_negtrans)
qed simp

lemma smap_set_keys: "fst ` set (smap_set lt k v xs) \<subseteq> insert k (fst ` set xs)"
  by (induction lt k v xs rule: smap_set.induct) auto

lemma smap_set_sorted: "sorted_wrt lt (map fst xs) \<Longrightarrow> sorted_wrt lt (map fst (smap_set lt k v xs))"
proof (induction xs)
  case (Cons x xs)
  obtain a b where x: "x = (a, b)" by (cases x)
  have "fst y = k \<or> lt a (fst y)" if "y \<in> set (smap_set lt k v xs)" for y
    using smap_set_keys [of k v xs] that Cons.prems by (fastforce simp: x)
  then show ?case using Cons by (fastforce simp: x dest: lt_trans)
qed simp

lemma smap_erase_keys: "fst ` set (smap_erase lt k xs) \<subseteq> fst ` set xs"
  by (induction lt k xs rule: smap_erase.induct) auto

lemma smap_erase_sorted: "sorted_wrt lt (map fst xs) \<Longrightarrow> sorted_wrt lt (map fst (smap_erase lt k xs))"
proof (induction xs)
  case (Cons x xs)
  obtain a b where x: "x = (a, b)" by (cases x)
  have "lt a (fst y)" if "y \<in> set (smap_erase lt k xs)" for y
    using smap_erase_keys [of k xs] that Cons.prems by (fastforce simp: x)
  with Cons show ?case by (auto simp: x)
qed simp

lemma smap_find_equiv: "equiv k j \<Longrightarrow> smap_find lt k xs = smap_find lt j xs"
proof (induction xs)
  case (Cons x xs)
  obtain a b where x: "x = (a, b)" by (cases x)
  show ?case using Cons equiv_lt [OF Cons.prems] by (simp add: x)
qed simp

text \<open>The map laws: what a lookup returns after an assignment and after an erasure.\<close>

lemma smap_find_set:
  "smap_find lt j (smap_set lt k v xs) = (if equiv k j then Some v else smap_find lt j xs)"
proof (induction xs)
  case Nil
  then show ?case by (auto simp: equiv_def)
next
  case (Cons x xs)
  obtain a b where x: "x = (a, b)" by (cases x)
  consider "lt a k" | "lt k a" | "equiv a k" by (auto simp: equiv_def)
  then show ?case
  proof cases
    case 1
    then show ?thesis using Cons equiv_lt(2) [of k j a] by (auto simp: x dest: lt_asym)
  next
    case 2
    then have "lt j k \<Longrightarrow> lt j a" "lt j k \<Longrightarrow> \<not> lt a j" using lt_trans lt_asym by blast+
    then show ?thesis using 2 by (auto simp: x equiv_def dest: lt_asym)
  next
    case 3
    then show ?thesis using equiv_lt [OF 3, of j] by (auto simp: x equiv_def)
  qed
qed

lemma smap_find_none_below:
  "\<forall>y \<in> set xs. lt k (fst y) \<Longrightarrow> smap_find lt k xs = None"
  by (cases xs) (auto dest: lt_asym)

lemma smap_find_erase:
  assumes "sorted_wrt lt (map fst xs)"
  shows "smap_find lt j (smap_erase lt k xs) = (if equiv k j then None else smap_find lt j xs)"
  using assms
proof (induction xs)
  case Nil
  then show ?case by simp
next
  case (Cons x xs)
  obtain a b where x: "x = (a, b)" by (cases x)
  have above: "\<forall>y \<in> set xs. lt a (fst y)" using Cons.prems by (simp add: x)
  have below: "smap_find lt j xs = None" if "lt j a"
    using above that lt_trans by (intro smap_find_none_below) blast
  have at: "smap_find lt j xs = None" if "equiv a j"
    using above that equiv_lt(1) by (intro smap_find_none_below) blast
  consider "lt a k" | "lt k a" | "equiv a k" by (auto simp: equiv_def)
  then show ?case
  proof cases
    case 1
    then show ?thesis using Cons equiv_lt(2) [of k j a] by (auto simp: x dest: lt_asym)
  next
    case 2
    then show ?thesis using equiv_lt(1) [of k j a] by (auto simp: x dest: lt_asym)
  next
    case 3
    then have "equiv k j \<longleftrightarrow> equiv a j" using equiv_trans equiv_sym by blast
    moreover have "smap_erase lt k (x # xs) = xs" using 3 by (simp add: x equiv_def)
    ultimately show ?thesis using below at by (auto simp: x equiv_def)
  qed
qed

lemma smap_find_some: "smap_find lt k xs = Some v \<Longrightarrow> \<exists>j. (j, v) \<in> set xs \<and> equiv j k"
  by (induction xs) (auto simp: equiv_def split: if_splits)

end

end
