(* ===== verification/Timer.thy ===== *)
theory Timer
  imports StdContainers
begin

text \<open>
  The timer manager (timer.h, timer.cpp): the \<open>Timer\<close> objects live in a heap indexed by
  their address, \<open>m_timers\<close> is the \<open>std::set\<close> of their addresses ordered by
  \<open>Comparator\<close>. The wall clock (\<open>GetCurrentMS\<close>) and the address of a new object are
  arguments; an operation is the critical section it takes \<open>m_mutex\<close> for, except
  \<open>listExpiredCb\<close>, which is split where it releases the lock.
\<close>

section \<open>State\<close>

text \<open>
  A callback is the client's function, or \<open>std::bind(&OnTimer, weak_cond, cb)\<close> for a
  condition timer.
\<close>

datatype 'c callback = Direct 'c | OnTimer nat 'c

fun run_callback :: "(nat \<Rightarrow> bool) \<Rightarrow> 'c callback \<Rightarrow> 'c list" where
  "run_callback alive (Direct c) = [c]"
| "run_callback alive (OnTimer w c) = (if alive w then [c] else [])"

record 'c timer =
  m_recurring :: bool
  m_ms :: u64
  m_next :: u64
  m_cb :: "'c callback option"

record 'c timer_mgr =
  m_heap :: "nat \<Rightarrow> 'c timer"
  m_timers :: "nat list"
  m_tickled :: bool
  m_previousTime :: u64

fun Comparator :: "(nat \<Rightarrow> 'c timer) \<Rightarrow> nat option \<Rightarrow> nat option \<Rightarrow> bool" where
  "Comparator h None None = False"
| "Comparator h None (Some r) = True"
| "Comparator h (Some l) None = False"
| "Comparator h (Some l) (Some r) =
     (if m_next (h l) < m_next (h r) then True
      else if m_next (h r) < m_next (h l) then False
      else l < r)"

abbreviation timer_lt :: "(nat \<Rightarrow> 'c timer) \<Rightarrow> nat \<Rightarrow> nat \<Rightarrow> bool" where
  "timer_lt h l r \<equiv> Comparator h (Some l) (Some r)"

section \<open>Operations\<close>

definition Timer_new :: "u64 \<Rightarrow> 'c callback option \<Rightarrow> bool \<Rightarrow> u64 \<Rightarrow> 'c timer" where
  "Timer_new ms cb recurring now =
     \<lparr>m_recurring = recurring, m_ms = ms, m_next = now + ms, m_cb = cb\<rparr>"

definition Timer_at :: "u64 \<Rightarrow> 'c timer" where
  "Timer_at next = \<lparr>m_recurring = False, m_ms = 0, m_next = next, m_cb = None\<rparr>"

definition TimerManager_new :: "u64 \<Rightarrow> 'c timer_mgr" where
  "TimerManager_new now =
     \<lparr>m_heap = (\<lambda>_. Timer_at 0), m_timers = [], m_tickled = False, m_previousTime = now\<rparr>"

text \<open>
  \<open>addTimer(val, lock)\<close>: the result says whether \<open>onTimerInsertedAtFront\<close> is called
  after the unlock.
\<close>

definition addTimer_locked :: "nat \<Rightarrow> 'c timer_mgr \<Rightarrow> 'c timer_mgr \<times> bool" where
  "addTimer_locked p st =
     (let ts = sset_insert (timer_lt (m_heap st)) p (m_timers st);
          at_front = (hd ts = p \<and> \<not> m_tickled st)
      in (st\<lparr>m_timers := ts, m_tickled := m_tickled st \<or> at_front\<rparr>, at_front))"

definition addTimer ::
  "nat \<Rightarrow> u64 \<Rightarrow> 'c callback option \<Rightarrow> bool \<Rightarrow> u64 \<Rightarrow> 'c timer_mgr \<Rightarrow> 'c timer_mgr \<times> bool" where
  "addTimer p ms cb recurring now st =
     addTimer_locked p (st\<lparr>m_heap := (m_heap st)(p := Timer_new ms cb recurring now)\<rparr>)"

definition addConditionTimer ::
  "nat \<Rightarrow> u64 \<Rightarrow> 'c \<Rightarrow> nat \<Rightarrow> bool \<Rightarrow> u64 \<Rightarrow> 'c timer_mgr \<Rightarrow> 'c timer_mgr \<times> bool" where
  "addConditionTimer p ms cb weak_cond recurring now st =
     addTimer p ms (Some (OnTimer weak_cond cb)) recurring now st"

text \<open>\<open>erase(end())\<close> is undefined: the branch where \<open>find\<close> returns \<open>end()\<close>.\<close>

definition cancel :: "nat \<Rightarrow> 'c timer_mgr \<Rightarrow> ('c timer_mgr \<times> bool) res" where
  "cancel p st =
     (if m_cb (m_heap st p) \<noteq> None then
        let h = (m_heap st)(p := (m_heap st p)\<lparr>m_cb := None\<rparr>) in
        (case sset_find (timer_lt h) p (m_timers st) of
           None \<Rightarrow> Inl BadAccess
         | Some q \<Rightarrow> Inr (st\<lparr>m_heap := h, m_timers := sset_erase (timer_lt h) p (m_timers st)\<rparr>, True))
      else Inr (st, False))"

definition refresh :: "nat \<Rightarrow> u64 \<Rightarrow> 'c timer_mgr \<Rightarrow> 'c timer_mgr \<times> bool" where
  "refresh p now st =
     (if m_cb (m_heap st p) = None then (st, False)
      else case sset_find (timer_lt (m_heap st)) p (m_timers st) of
        None \<Rightarrow> (st, False)
      | Some q \<Rightarrow>
          let ts = sset_erase (timer_lt (m_heap st)) p (m_timers st);
              h = (m_heap st)(p := (m_heap st p)\<lparr>m_next := now + m_ms (m_heap st p)\<rparr>)
          in (st\<lparr>m_heap := h, m_timers := sset_insert (timer_lt h) p ts\<rparr>, True))"

text \<open>The results: the new state, what \<open>reset\<close> returns, and whether the front hook runs.\<close>

definition reset :: "nat \<Rightarrow> u64 \<Rightarrow> bool \<Rightarrow> u64 \<Rightarrow> 'c timer_mgr \<Rightarrow> 'c timer_mgr \<times> bool \<times> bool" where
  "reset p ms from_now now st =
     (if ms = m_ms (m_heap st p) \<and> \<not> from_now then (st, True, False)
      else if m_cb (m_heap st p) = None then (st, False, False)
      else case sset_find (timer_lt (m_heap st)) p (m_timers st) of
        None \<Rightarrow> (st, False, False)
      | Some q \<Rightarrow>
          let ts = sset_erase (timer_lt (m_heap st)) p (m_timers st);
              t = m_heap st p;
              start = (if from_now then now else m_next t - m_ms t);
              h = (m_heap st)(p := t\<lparr>m_ms := ms, m_next := start + ms\<rparr>);
              r = addTimer_locked p (st\<lparr>m_heap := h, m_timers := ts\<rparr>)
          in (fst r, True, snd r))"

definition getTimerNext :: "u64 \<Rightarrow> 'c timer_mgr \<Rightarrow> 'c timer_mgr \<times> u64" where
  "getTimerNext now st =
     (st\<lparr>m_tickled := False\<rparr>,
      (case m_timers st of
         [] \<Rightarrow> - 1
       | p # _ \<Rightarrow> (if m_next (m_heap st p) \<le> now then 0 else m_next (m_heap st p) - now)))"

definition hasTimer :: "'c timer_mgr \<Rightarrow> bool" where
  "hasTimer st \<longleftrightarrow> m_timers st \<noteq> []"

definition detectClockRollover :: "u64 \<Rightarrow> 'c timer_mgr \<Rightarrow> 'c timer_mgr \<times> bool" where
  "detectClockRollover now st =
     (st\<lparr>m_previousTime := now\<rparr>,
      now < m_previousTime st \<and> now < m_previousTime st - 60 * 60 * 1000)"

text \<open>
  \<open>listExpiredCb\<close> in its three steps. The second runs without the lock and
  dereferences \<open>m_timers.begin()\<close>; it says whether the third runs, and with what
  \<open>rollover\<close>.
\<close>

definition listExpiredCb_check :: "'c timer_mgr \<Rightarrow> bool" where
  "listExpiredCb_check st \<longleftrightarrow> m_timers st \<noteq> []"

definition listExpiredCb_peek :: "u64 \<Rightarrow> 'c timer_mgr \<Rightarrow> ('c timer_mgr \<times> bool option) res" where
  "listExpiredCb_peek now st =
     (case detectClockRollover now st of
        (st', True) \<Rightarrow> Inr (st', Some True)
      | (st', False) \<Rightarrow>
          (case m_timers st of
             [] \<Rightarrow> Inl BadAccess
           | p # _ \<Rightarrow> Inr (st', if m_next (m_heap st p) > now then None else Some False)))"

fun skip_equal :: "(nat \<Rightarrow> 'c timer) \<Rightarrow> u64 \<Rightarrow> nat list \<Rightarrow> nat list \<times> nat list" where
  "skip_equal h now [] = ([], [])"
| "skip_equal h now (p # ps) =
     (if m_next (h p) = now then (case skip_equal h now ps of (as, bs) \<Rightarrow> (p # as, bs)) else ([], p # ps))"

text \<open>The loop over \<open>expired\<close>: it collects the callbacks and re-arms or disarms.\<close>

fun expire_loop ::
  "u64 \<Rightarrow> nat list \<Rightarrow> (nat \<Rightarrow> 'c timer) \<Rightarrow> nat list \<Rightarrow> 'c callback option list
   \<Rightarrow> (nat \<Rightarrow> 'c timer) \<times> nat list \<times> 'c callback option list" where
  "expire_loop now [] h ts cbs = (h, ts, cbs)"
| "expire_loop now (p # ps) h ts cbs =
     (let cbs' = cbs @ [m_cb (h p)] in
      if m_recurring (h p) then
        let h' = h(p := (h p)\<lparr>m_next := now + m_ms (h p)\<rparr>)
        in expire_loop now ps h' (sset_insert (timer_lt h') p ts) cbs'
      else expire_loop now ps (h(p := (h p)\<lparr>m_cb := None\<rparr>)) ts cbs')"

text \<open>\<open>nt\<close> is the address of \<open>now_timer\<close>.\<close>

definition expired_split :: "nat \<Rightarrow> u64 \<Rightarrow> bool \<Rightarrow> 'c timer_mgr \<Rightarrow> nat list \<times> nat list" where
  "expired_split nt now rollover st =
     (if rollover then (m_timers st, [])
      else let h = (m_heap st)(nt := Timer_at now);
               before = takeWhile (\<lambda>p. timer_lt h p nt) (m_timers st);
               from_it = dropWhile (\<lambda>p. timer_lt h p nt) (m_timers st)
           in (case skip_equal h now from_it of (eq, rest) \<Rightarrow> (before @ eq, rest)))"

definition listExpiredCb_expire ::
  "nat \<Rightarrow> u64 \<Rightarrow> bool \<Rightarrow> 'c timer_mgr \<Rightarrow> 'c timer_mgr \<times> 'c callback option list" where
  "listExpiredCb_expire nt now rollover st =
     (case expired_split nt now rollover st of
        (expired, rest) \<Rightarrow>
          (case expire_loop now expired (m_heap st) rest [] of
             (h, ts, cbs) \<Rightarrow> (st\<lparr>m_heap := h, m_timers := ts\<rparr>, cbs)))"

definition listExpiredCb ::
  "nat \<Rightarrow> u64 \<Rightarrow> 'c timer_mgr \<Rightarrow> ('c timer_mgr \<times> 'c callback option list) res" where
  "listExpiredCb nt now st =
     (if \<not> listExpiredCb_check st then Inr (st, [])
      else bindR (listExpiredCb_peek now st)
        (\<lambda>(st', r). case r of
             None \<Rightarrow> Inr (st', [])
           | Some rollover \<Rightarrow> Inr (listExpiredCb_expire nt now rollover st')))"

section \<open>The comparator\<close>

interpretation tcmp: comparator "timer_lt h" for h
  by unfold_locales (auto split: if_splits)

declare Comparator.simps(4) [simp del]

text \<open>Unlike \<open>timer_lt\<close> on a heap, the order only looks at deadlines and addresses.\<close>

lemma timer_lt_iff:
  "timer_lt h p q \<longleftrightarrow> m_next (h p) < m_next (h q) \<or> m_next (h p) = m_next (h q) \<and> p < q"
  by (auto simp: Comparator.simps(4) not_less_iff_gr_or_eq)

lemma timer_equiv [simp]: "comparator.equiv (timer_lt h) p q \<longleftrightarrow> p = q"
  unfolding tcmp.equiv_def by (auto simp: timer_lt_iff)

abbreviation timers_sorted :: "(nat \<Rightarrow> 'c timer) \<Rightarrow> nat list \<Rightarrow> bool" where
  "timers_sorted h ts \<equiv> sorted_wrt (timer_lt h) ts"

lemma timers_sorted_cong:
  "(\<And>p. p \<in> set ts \<Longrightarrow> m_next (h p) = m_next (h' p)) \<Longrightarrow> timers_sorted h ts \<longleftrightarrow> timers_sorted h' ts"
  by (induction ts) (auto simp: timer_lt_iff)

lemma timers_distinct: "timers_sorted h ts \<Longrightarrow> distinct ts"
  by (induction ts) (auto simp: timer_lt_iff)

lemma set_timer_insert:
  assumes "timers_sorted h ts"
  shows "set (sset_insert (timer_lt h) p ts) = insert p (set ts)"
proof (cases "p \<in> set ts")
  case True
  with assms tcmp.sset_insert_present [of h ts p p] show ?thesis by auto
next
  case False
  with assms tcmp.set_sset_insert_new [of h ts p] show ?thesis by auto
qed

lemma set_timer_erase:
  "timers_sorted h ts \<Longrightarrow> set (sset_erase (timer_lt h) p ts) = set ts - {p}"
  using tcmp.set_sset_erase [of h ts p] by auto

lemma timer_find:
  assumes "timers_sorted h ts"
  shows "sset_find (timer_lt h) p ts = (if p \<in> set ts then Some p else None)"
  using tcmp.sset_find_none [OF assms, of p] tcmp.sset_find_some [of h p ts]
  by (cases "sset_find (timer_lt h) p ts") auto

section \<open>Invariant\<close>

text \<open>
  The set is ordered by deadline, and it holds exactly the timers whose callback is set:
  a timer that was cancelled, or that expired and does not recur, is in neither.
\<close>

definition tm_inv :: "'c timer_mgr \<Rightarrow> bool" where
  "tm_inv st \<longleftrightarrow> timers_sorted (m_heap st) (m_timers st)
     \<and> (\<forall>p. m_cb (m_heap st p) \<noteq> None \<longleftrightarrow> p \<in> set (m_timers st))"

lemma tm_inv_new: "tm_inv (TimerManager_new now)"
  by (simp add: tm_inv_def TimerManager_new_def Timer_at_def)

lemma tm_inv_sorted: "tm_inv st \<Longrightarrow> timers_sorted (m_heap st) (m_timers st)"
  by (simp add: tm_inv_def)

lemma tm_inv_cb: "tm_inv st \<Longrightarrow> m_cb (m_heap st p) \<noteq> None \<longleftrightarrow> p \<in> set (m_timers st)"
  by (simp add: tm_inv_def)

lemma timers_sorted_upd:
  "p \<notin> set ts \<Longrightarrow> timers_sorted (h(p := t)) ts \<longleftrightarrow> timers_sorted h ts"
  by (rule timers_sorted_cong) auto

lemma addTimer_locked_fields:
  "m_heap (fst (addTimer_locked p st)) = m_heap st"
  "m_timers (fst (addTimer_locked p st)) = sset_insert (timer_lt (m_heap st)) p (m_timers st)"
  by (simp_all add: addTimer_locked_def Let_def)

lemma addTimer_inv:
  assumes "tm_inv st" "p \<notin> set (m_timers st)" "cb \<noteq> None"
  shows "tm_inv (fst (addTimer p ms cb recurring now st))"
    and "set (m_timers (fst (addTimer p ms cb recurring now st))) = insert p (set (m_timers st))"
  using assms by (auto simp: tm_inv_def addTimer_def addTimer_locked_fields timers_sorted_upd
      set_timer_insert tcmp.sset_insert_sorted Timer_new_def)

lemma cancel_eq:
  assumes "tm_inv st"
  shows "cancel p st =
    (if p \<in> set (m_timers st)
     then Inr (st\<lparr>m_heap := (m_heap st)(p := (m_heap st p)\<lparr>m_cb := None\<rparr>),
                  m_timers := sset_erase (timer_lt (m_heap st)) p (m_timers st)\<rparr>, True)
     else Inr (st, False))"
proof -
  let ?h = "(m_heap st)(p := (m_heap st p)\<lparr>m_cb := None\<rparr>)"
  have lt: "timer_lt ?h = timer_lt (m_heap st)" by (intro ext) (auto simp: timer_lt_iff)
  show ?thesis
    using tm_inv_cb [OF assms, of p] timer_find [OF tm_inv_sorted [OF assms], of p]
    by (auto simp: cancel_def Let_def lt)
qed

lemma cancel_inv:
  assumes "tm_inv st"
  shows "\<exists>st' b. cancel p st = Inr (st', b) \<and> tm_inv st' \<and> (b \<longleftrightarrow> p \<in> set (m_timers st))
     \<and> set (m_timers st') = set (m_timers st) - {p}"
proof -
  have "timers_sorted (m_heap st) (sset_erase (timer_lt (m_heap st)) p (m_timers st))"
    by (rule tcmp.sset_erase_sorted [OF tm_inv_sorted [OF assms]])
  then show ?thesis
    using assms by (auto simp: cancel_eq [OF assms] tm_inv_def set_timer_erase timers_sorted_upd)
qed

lemma refresh_inv:
  assumes "tm_inv st"
  shows "tm_inv (fst (refresh p now st))"
    and "snd (refresh p now st) \<longleftrightarrow> p \<in> set (m_timers st)"
    and "set (m_timers (fst (refresh p now st))) = set (m_timers st)"
proof -
  let ?ts = "sset_erase (timer_lt (m_heap st)) p (m_timers st)"
  have "timers_sorted (m_heap st) ?ts" "p \<notin> set ?ts"
    using tcmp.sset_erase_sorted [OF tm_inv_sorted [OF assms]] set_timer_erase [OF tm_inv_sorted [OF assms]]
    by auto
  then have s: "timers_sorted ((m_heap st)(p := t)) ?ts" for t by (simp add: timers_sorted_upd)
  show "tm_inv (fst (refresh p now st))"
    using assms s by (auto simp: refresh_def tm_inv_def Let_def timer_find set_timer_erase
        set_timer_insert tcmp.sset_insert_sorted split: option.splits)
  show "snd (refresh p now st) \<longleftrightarrow> p \<in> set (m_timers st)"
    and "set (m_timers (fst (refresh p now st))) = set (m_timers st)"
    using tm_inv_sorted [OF assms] tm_inv_cb [OF assms, of p] s
    by (auto simp: refresh_def Let_def timer_find set_timer_erase set_timer_insert)
qed

lemma reset_inv:
  assumes "tm_inv st"
  shows "tm_inv (fst (reset p ms from_now now st))"
    and "set (m_timers (fst (reset p ms from_now now st))) = set (m_timers st)"
proof -
  let ?ts = "sset_erase (timer_lt (m_heap st)) p (m_timers st)"
  have "timers_sorted (m_heap st) ?ts" "p \<notin> set ?ts"
    using tcmp.sset_erase_sorted [OF tm_inv_sorted [OF assms]] set_timer_erase [OF tm_inv_sorted [OF assms]]
    by auto
  then have s: "timers_sorted ((m_heap st)(p := t)) ?ts" for t by (simp add: timers_sorted_upd)
  show "tm_inv (fst (reset p ms from_now now st))"
    and "set (m_timers (fst (reset p ms from_now now st))) = set (m_timers st)"
    using assms s by (auto simp: reset_def tm_inv_def Let_def timer_find set_timer_erase
        set_timer_insert tcmp.sset_insert_sorted addTimer_locked_fields split: option.splits)
qed

end
