(* ===== verification/Timer_Expiry.thy ===== *)
theory Timer_Expiry
  imports Timer
begin

text \<open>
  What \<open>listExpiredCb\<close> fires: the split of the set at the deadline, the loop that
  re-arms recurring timers, and the operations as one trace of atomic steps.
\<close>

section \<open>The split\<close>

lemma skip_equal_eq:
  "skip_equal h now ps = (takeWhile (\<lambda>p. m_next (h p) = now) ps, dropWhile (\<lambda>p. m_next (h p) = now) ps)"
  by (induction ps) auto

lemma split_sorted:
  assumes "timers_sorted h ts" and "\<And>p. p \<in> set ts \<Longrightarrow> m_next (h p) < now \<Longrightarrow> P p"
    and "\<And>p. P p \<Longrightarrow> m_next (h p) \<le> now"
  shows "takeWhile P ts @ takeWhile (\<lambda>p. m_next (h p) = now) (dropWhile P ts)
           = filter (\<lambda>p. m_next (h p) \<le> now) ts
       \<and> dropWhile (\<lambda>p. m_next (h p) = now) (dropWhile P ts) = filter (\<lambda>p. \<not> m_next (h p) \<le> now) ts"
  using assms(1,2)
proof (induction ts)
  case (Cons p ps)
  show ?case
  proof (cases "P p")
    case True
    with assms(3) Cons show ?thesis by auto
  next
    case False
    with Cons.prems(2) [of p] have ge: "now \<le> m_next (h p)" by force
    have later: "now \<le> m_next (h q)" if "q \<in> set (p # ps)" for q
      using that ge Cons.prems(1) by (auto simp: timer_lt_iff)
    have "takeWhile (\<lambda>p. m_next (h p) = now) qs = filter (\<lambda>p. m_next (h p) \<le> now) qs
        \<and> dropWhile (\<lambda>p. m_next (h p) = now) qs = filter (\<lambda>p. \<not> m_next (h p) \<le> now) qs"
      if "timers_sorted h qs" and "\<forall>q \<in> set qs. now \<le> m_next (h q)" for qs
      using that
    proof (induction qs)
      case (Cons q qs)
      show ?case
      proof (cases "m_next (h q) = now")
        case True
        with Cons show ?thesis by auto
      next
        case False
        with Cons.prems have "\<forall>r \<in> set (q # qs). \<not> m_next (h r) \<le> now"
          by (force simp: timer_lt_iff)
        with False show ?thesis by (auto simp: filter_empty_conv intro!: filter_True [symmetric])
      qed
    qed simp
    from this [OF Cons.prems(1)] later False show ?thesis by simp
  qed
qed simp

lemma expired_split_eq:
  assumes "timers_sorted (m_heap st) (m_timers st)" and "nt \<notin> set (m_timers st)"
  shows "expired_split nt now False st =
    (filter (\<lambda>p. m_next (m_heap st p) \<le> now) (m_timers st),
     filter (\<lambda>p. \<not> m_next (m_heap st p) \<le> now) (m_timers st))"
proof -
  let ?h = "(m_heap st)(nt := Timer_at now)"
  have same: "m_next (?h p) = m_next (m_heap st p)" if "p \<in> set (m_timers st)" for p
    using that assms(2) by auto
  have s: "timers_sorted ?h (m_timers st)"
    using assms by (simp add: timers_sorted_upd)
  have "takeWhile (\<lambda>p. timer_lt ?h p nt) (m_timers st)
          @ takeWhile (\<lambda>p. m_next (?h p) = now) (dropWhile (\<lambda>p. timer_lt ?h p nt) (m_timers st))
        = filter (\<lambda>p. m_next (?h p) \<le> now) (m_timers st)
      \<and> dropWhile (\<lambda>p. m_next (?h p) = now) (dropWhile (\<lambda>p. timer_lt ?h p nt) (m_timers st))
        = filter (\<lambda>p. \<not> m_next (?h p) \<le> now) (m_timers st)"
    by (rule split_sorted [OF s]) (auto simp: timer_lt_iff Timer_at_def)
  then show ?thesis
    using same by (auto simp: expired_split_def skip_equal_eq Let_def cong: filter_cong)
qed

section \<open>The loop\<close>

definition expired_timer :: "u64 \<Rightarrow> 'c timer \<Rightarrow> 'c timer" where
  "expired_timer now t = (if m_recurring t then t\<lparr>m_next := now + m_ms t\<rparr> else t\<lparr>m_cb := None\<rparr>)"

lemma expire_loop_spec:
  assumes "distinct ps" and "set ps \<inter> set ts = {}" and "timers_sorted h ts"
  shows "\<exists>h' ts'. expire_loop now ps h ts cbs = (h', ts', cbs @ map (\<lambda>p. m_cb (h p)) ps)
     \<and> h' = (\<lambda>p. if p \<in> set ps then expired_timer now (h p) else h p)
     \<and> timers_sorted h' ts'
     \<and> set ts' = set ts \<union> {p \<in> set ps. m_recurring (h p)}"
  using assms
proof (induction ps arbitrary: h ts cbs)
  case (Cons p ps)
  let ?h = "h(p := expired_timer now (h p))"
  let ?ts = "if m_recurring (h p) then sset_insert (timer_lt ?h) p ts else ts"
  have sorted: "timers_sorted ?h ts" using Cons.prems by (simp add: timers_sorted_upd)
  have set_ts: "set ?ts = set ts \<union> (if m_recurring (h p) then {p} else {})"
    using set_timer_insert [OF sorted] by auto
  have "timers_sorted ?h ?ts" using sorted tcmp.sset_insert_sorted [OF sorted] by auto
  moreover have "set ps \<inter> set ?ts = {}" "distinct ps" using Cons.prems set_ts by auto
  ultimately obtain h' ts' where
    loop: "expire_loop now ps ?h ?ts (cbs @ [m_cb (h p)])
       = (h', ts', (cbs @ [m_cb (h p)]) @ map (\<lambda>q. m_cb (?h q)) ps)"
    and h': "h' = (\<lambda>q. if q \<in> set ps then expired_timer now (?h q) else ?h q)"
    and ts': "timers_sorted h' ts'" "set ts' = set ?ts \<union> {q \<in> set ps. m_recurring (?h q)}"
    using Cons.IH [of ?ts ?h "cbs @ [m_cb (h p)]"] by blast
  have other: "?h q = h q" if "q \<in> set ps" for q using that Cons.prems(1) by auto
  have step: "expire_loop now (p # ps) h ts cbs = expire_loop now ps ?h ?ts (cbs @ [m_cb (h p)])"
    by (simp add: expired_timer_def Let_def)
  have cbs: "map (\<lambda>q. m_cb (?h q)) ps = map (\<lambda>q. m_cb (h q)) ps" using other by (simp del: fun_upd_apply)
  have heap: "h' = (\<lambda>q. if q \<in> set (p # ps) then expired_timer now (h q) else h q)"
    using h' other Cons.prems(1) by auto
  have all: "set ts' = set ts \<union> {q \<in> set (p # ps). m_recurring (h q)}"
    using ts'(2) set_ts other Cons.prems(1) by (auto simp: expired_timer_def)
  show ?case
    unfolding step loop cbs using heap all ts'(1) by simp
qed simp

section \<open>The operation\<close>

definition due :: "u64 \<Rightarrow> bool \<Rightarrow> 'c timer_mgr \<Rightarrow> nat list" where
  "due now rollover st = filter (\<lambda>p. rollover \<or> m_next (m_heap st p) \<le> now) (m_timers st)"

lemma listExpiredCb_expire_spec:
  assumes inv: "tm_inv st" and nt: "nt \<notin> set (m_timers st)"
    and res: "listExpiredCb_expire nt now rollover st = (st', cbs)"
  shows "cbs = map (\<lambda>p. m_cb (m_heap st p)) (due now rollover st)"
    and "tm_inv st'"
    and "set (m_timers st') = {p \<in> set (m_timers st). p \<in> set (due now rollover st) \<longrightarrow> m_recurring (m_heap st p)}"
    and "m_heap st' = (\<lambda>p. if p \<in> set (due now rollover st) then expired_timer now (m_heap st p) else m_heap st p)"
    and "m_tickled st' = m_tickled st" and "m_previousTime st' = m_previousTime st"
proof -
  let ?due = "due now rollover st"
  let ?rest = "filter (\<lambda>p. \<not> (rollover \<or> m_next (m_heap st p) \<le> now)) (m_timers st)"
  have sorted: "timers_sorted (m_heap st) (m_timers st)" by (rule tm_inv_sorted [OF inv])
  have split: "expired_split nt now rollover st = (?due, ?rest)"
    using expired_split_eq [OF sorted nt] by (cases rollover) (auto simp: due_def expired_split_def)
  have "distinct ?due" "set ?due \<inter> set ?rest = {}" "timers_sorted (m_heap st) ?rest"
    using timers_distinct [OF sorted] sorted by (auto simp: due_def sorted_wrt_filter)
  from expire_loop_spec [OF this, of now "[]"] obtain h' ts' where
    loop: "expire_loop now ?due (m_heap st) ?rest [] = (h', ts', map (\<lambda>p. m_cb (m_heap st p)) ?due)"
    and h': "h' = (\<lambda>p. if p \<in> set ?due then expired_timer now (m_heap st p) else m_heap st p)"
    and ts': "timers_sorted h' ts'" "set ts' = set ?rest \<union> {p \<in> set ?due. m_recurring (m_heap st p)}"
    by auto
  have st': "st' = st\<lparr>m_heap := h', m_timers := ts'\<rparr>" "cbs = map (\<lambda>p. m_cb (m_heap st p)) ?due"
    using res unfolding listExpiredCb_expire_def split prod.case loop by auto
  show "cbs = map (\<lambda>p. m_cb (m_heap st p)) ?due" by (fact st'(2))
  show set': "set (m_timers st') = {p \<in> set (m_timers st). p \<in> set ?due \<longrightarrow> m_recurring (m_heap st p)}"
    using ts'(2) by (auto simp: st' due_def)
  show heap: "m_heap st' = (\<lambda>p. if p \<in> set ?due then expired_timer now (m_heap st p) else m_heap st p)"
    by (simp add: st' h')
  show "m_tickled st' = m_tickled st" "m_previousTime st' = m_previousTime st" by (simp_all add: st')
  have "m_cb (m_heap st' p) \<noteq> None \<longleftrightarrow> p \<in> set (m_timers st')" for p
    using tm_inv_cb [OF inv, of p] unfolding set' heap
    by (auto simp: expired_timer_def due_def)
  with ts'(1) show "tm_inv st'" by (simp add: tm_inv_def st')
qed

definition rollover_at :: "u64 \<Rightarrow> 'c timer_mgr \<Rightarrow> bool" where
  "rollover_at now st \<longleftrightarrow> snd (detectClockRollover now st)"

lemma due_none:
  assumes "timers_sorted (m_heap st) (p # ps)" and "m_timers st = p # ps"
    and "now < m_next (m_heap st p)"
  shows "due now False st = []"
  using assms by (force simp: due_def filter_empty_conv timer_lt_iff)

text \<open>All three steps, with nothing in between: it never faults, and fires what is due.\<close>

lemma listExpiredCb_spec:
  assumes inv: "tm_inv st" and nt: "nt \<notin> set (m_timers st)"
  obtains st' where
    "listExpiredCb nt now st = Inr (st', map (\<lambda>p. m_cb (m_heap st p)) (due now (rollover_at now st) st))"
    "tm_inv st'"
    "set (m_timers st') =
       {p \<in> set (m_timers st). p \<in> set (due now (rollover_at now st) st) \<longrightarrow> m_recurring (m_heap st p)}"
    "m_heap st' = (\<lambda>p. if p \<in> set (due now (rollover_at now st) st)
                       then expired_timer now (m_heap st p) else m_heap st p)"
proof -
  let ?st = "st\<lparr>m_previousTime := now\<rparr>"
  obtain r where det: "detectClockRollover now st = (?st, r)" and r: "rollover_at now st = r"
    by (simp add: rollover_at_def detectClockRollover_def)
  have inv': "tm_inv ?st" using inv by (simp add: tm_inv_def)
  have due': "due now x ?st = due now x st" for x by (simp add: due_def)
  have heap': "m_heap ?st = m_heap st" by simp
  show ?thesis
  proof (cases "m_timers st")
    case Nil
    then show ?thesis using inv that [of st] by (simp add: listExpiredCb_def listExpiredCb_check_def due_def)
  next
    case (Cons p ps)
    show ?thesis
    proof (cases "\<not> r \<and> now < m_next (m_heap st p)")
      case True
      then have "due now r st = []"
        using due_none [of st p ps now] tm_inv_sorted [OF inv] Cons by simp
      then show ?thesis
        using True inv' that [of ?st] Cons r
        by (auto simp: listExpiredCb_def listExpiredCb_check_def listExpiredCb_peek_def det)
    next
      case False
      obtain st' cbs where e: "listExpiredCb_expire nt now r ?st = (st', cbs)" by force
      have "listExpiredCb nt now st = Inr (st', cbs)"
        using False Cons e
        by (cases r) (auto simp: listExpiredCb_def listExpiredCb_check_def listExpiredCb_peek_def det)
      then show ?thesis
        using listExpiredCb_expire_spec [OF inv' _ e] nt that [of st'] r unfolding due' heap' by simp
    qed
  qed
qed

section \<open>Traces\<close>

text \<open>
  The critical sections of the clients, in any order. A new object (a timer, or
  \<open>now_timer\<close>) never has the address of a timer that is still in the set. The last
  component collects the timers whose callback the step hands out.
\<close>

inductive tm_step :: "'c timer_mgr \<Rightarrow> nat set \<Rightarrow> 'c timer_mgr \<Rightarrow> nat set \<Rightarrow> bool" where
  step_add: "p \<notin> set (m_timers st) \<Longrightarrow>
     tm_step st {p} (fst (addTimer p ms (Some cb) recurring now st)) {}"
| step_cancel: "cancel p st = Inr (st', b) \<Longrightarrow> tm_step st {} st' {}"
| step_refresh: "tm_step st {} (fst (refresh p now st)) {}"
| step_reset: "tm_step st {} (fst (reset p ms from_now now st)) {}"
| step_next: "tm_step st {} (fst (getTimerNext now st)) {}"
| step_expire: "nt \<notin> set (m_timers st) \<Longrightarrow> listExpiredCb nt now st = Inr (st', cbs) \<Longrightarrow>
     tm_step st {} st' (set (due now (rollover_at now st) st))"

inductive_cases tm_stepE: "tm_step st as st' fs"

inductive tm_run :: "'c timer_mgr \<Rightarrow> nat set \<Rightarrow> 'c timer_mgr \<Rightarrow> nat set \<Rightarrow> bool" where
  run_refl: "tm_run st {} st {}"
| run_step: "tm_run st as st' fs \<Longrightarrow> tm_step st' bs st'' gs \<Longrightarrow> tm_run st (as \<union> bs) st'' (fs \<union> gs)"

lemma getTimerNext_inv: "tm_inv st \<Longrightarrow> tm_inv (fst (getTimerNext now st))"
  by (simp add: getTimerNext_def tm_inv_def)

lemma listExpiredCb_eqs:
  assumes "tm_inv st" "nt \<notin> set (m_timers st)" "listExpiredCb nt now st = Inr (st', cbs)"
  shows "tm_inv st'"
    and "set (m_timers st') \<subseteq> set (m_timers st)"
    and "cbs = map (\<lambda>p. m_cb (m_heap st p)) (due now (rollover_at now st) st)"
    and "m_heap st' = (\<lambda>p. if p \<in> set (due now (rollover_at now st) st)
                       then expired_timer now (m_heap st p) else m_heap st p)"
    and "set (m_timers st') =
       {p \<in> set (m_timers st). p \<in> set (due now (rollover_at now st) st) \<longrightarrow> m_recurring (m_heap st p)}"
  using listExpiredCb_spec [OF assms(1,2), of now] assms(3) by auto

lemma tm_step_inv:
  assumes "tm_step st as st' fs" and "tm_inv st"
  shows "tm_inv st' \<and> set (m_timers st') \<subseteq> set (m_timers st) \<union> as \<and> fs \<subseteq> set (m_timers st)"
  using assms(1)
proof cases
  case (step_add p ms cb recurring now)
  then show ?thesis using addTimer_inv [OF assms(2)] by auto
next
  case (step_cancel p b)
  then show ?thesis using cancel_inv [OF assms(2), of p] by auto
next
  case (step_refresh p now)
  then show ?thesis using refresh_inv [OF assms(2)] by auto
next
  case (step_reset p ms from_now now)
  then show ?thesis using reset_inv [OF assms(2)] by auto
next
  case (step_next now)
  then show ?thesis using getTimerNext_inv [OF assms(2)] by (auto simp: getTimerNext_def)
next
  case (step_expire nt now cbs)
  then show ?thesis using listExpiredCb_eqs [OF assms(2)] by (auto simp: due_def)
qed

lemma tm_run_inv: "tm_run st as st' fs \<Longrightarrow> tm_inv st \<Longrightarrow> tm_inv st'"
  by (induction rule: tm_run.induct) (auto dest: tm_step_inv)

lemma tm_run_gone:
  "tm_run st as st' fs \<Longrightarrow> tm_inv st \<Longrightarrow> p \<notin> set (m_timers st) \<Longrightarrow> p \<notin> as \<Longrightarrow>
   p \<notin> set (m_timers st') \<and> p \<notin> fs"
proof (induction rule: tm_run.induct)
  case (run_step st as st' fs bs st'' gs)
  have "tm_inv st'" by (rule tm_run_inv [OF run_step.hyps(1) run_step.prems(1)])
  from tm_step_inv [OF run_step.hyps(2) this] run_step show ?case by auto
qed simp

lemma hd_timer_insert:
  assumes "timers_sorted h ts" and "p \<notin> set ts"
  shows "hd (sset_insert (timer_lt (h(p := t))) p ts) = p \<longleftrightarrow>
    (\<forall>q \<in> set ts. m_next t < m_next (h q) \<or> m_next t = m_next (h q) \<and> p < q)"
proof (cases ts)
  case (Cons a as)
  have "timer_lt (h(p := t)) p a \<longleftrightarrow> m_next t < m_next (h a) \<or> m_next t = m_next (h a) \<and> p < a"
    and "\<not> timer_lt (h(p := t)) a p \<longleftrightarrow> timer_lt (h(p := t)) p a"
    using assms(2) Cons by (auto simp: timer_lt_iff)
  moreover have "m_next (h a) < m_next (h q) \<or> m_next (h a) = m_next (h q) \<and> a < q" if "q \<in> set as" for q
    using assms(1) that Cons by (auto simp: timer_lt_iff)
  ultimately show ?thesis using assms(2) Cons by (auto) force+
qed simp

text \<open>A manager with one timer, for the concrete instances.\<close>

definition one_timer :: "nat \<Rightarrow> u64 \<Rightarrow> 'c callback \<Rightarrow> bool \<Rightarrow> 'c timer_mgr" where
  "one_timer p ms cb recurring = fst (addTimer p ms (Some cb) recurring 0 (TimerManager_new 0))"

lemma one_timer_run: "tm_run (TimerManager_new 0) {p} (one_timer p ms cb recurring) {}"
proof -
  have "p \<notin> set (m_timers (TimerManager_new 0))" by (simp add: TimerManager_new_def)
  from run_step [OF run_refl step_add [OF this, of ms cb recurring 0]] show ?thesis
    by (simp add: one_timer_def)
qed

lemma one_timer_fields:
  "m_timers (one_timer p ms cb recurring) = [p]"
  "m_heap (one_timer p ms cb recurring) p = Timer_new ms (Some cb) recurring 0"
  "m_tickled (one_timer p ms cb recurring)"
  "m_previousTime (one_timer p ms cb recurring) = 0"
  by (simp_all add: one_timer_def addTimer_def addTimer_locked_def TimerManager_new_def)

section \<open>Properties\<close>

text \<open>
  C4. Whatever sequence of addTimer, cancel, refresh, reset, getTimerNext and listExpiredCb
  the clients run on a new manager, the set stays ordered by deadline, it holds exactly the
  timers whose callback is set, and neither cancel (which erases what find returns without
  comparing it with end()) nor listExpiredCb faults.
\<close>

theorem timer_runs_are_safe:
  assumes "tm_run (TimerManager_new t0) as st fs" and "nt \<notin> set (m_timers st)"
  shows "sorted (map (m_next \<circ> m_heap st) (m_timers st)) \<and> distinct (m_timers st)
    \<and> (\<forall>p. m_cb (m_heap st p) \<noteq> None \<longleftrightarrow> p \<in> set (m_timers st))
    \<and> (\<exists>st' b. cancel p st = Inr (st', b))
    \<and> (\<exists>st' cbs. listExpiredCb nt now st = Inr (st', cbs))"
proof -
  have inv: "tm_inv st" by (rule tm_run_inv [OF assms(1) tm_inv_new])
  have "sorted (map (m_next \<circ> m_heap st) (m_timers st))"
    using tm_inv_sorted [OF inv] unfolding sorted_wrt_map
    by (rule sorted_wrt_mono_rel [rotated]) (auto simp: timer_lt_iff)
  then show ?thesis
    using tm_inv_cb [OF inv] timers_distinct [OF tm_inv_sorted [OF inv]] cancel_inv [OF inv, of p]
      listExpiredCb_spec [OF inv assms(2), of now] by metis
qed

lemma timer_runs_are_safe_witness:
  "\<exists>st' cbs. listExpiredCb 2 7 (one_timer 1 5 (Direct CHR ''a'') True) = Inr (st', cbs)"
  using timer_runs_are_safe [OF one_timer_run [of 1 5 "Direct CHR ''a''" True], of 2] by (simp add: one_timer_fields)

text \<open>
  C7. listExpiredCb hands out the callbacks of exactly the timers whose deadline has passed,
  in the order of the deadlines (all of them when the clock jumped back by more than an
  hour); a recurring timer stays in the set with its next deadline at now plus its period,
  a one-shot timer leaves the set and loses its callback, and no other timer changes.
\<close>

theorem listExpiredCb_fires_what_is_due:
  fixes st :: "'c timer_mgr" and now :: u64
  assumes "tm_run (TimerManager_new t0) as st fs" and "nt \<notin> set (m_timers st)"
  defines "rollover \<equiv> now < m_previousTime st \<and> now < m_previousTime st - 3600000"
  defines "fired \<equiv> filter (\<lambda>p. rollover \<or> m_next (m_heap st p) \<le> now) (m_timers st)"
  shows "\<exists>st'. listExpiredCb nt now st = Inr (st', map (\<lambda>p. m_cb (m_heap st p)) fired)
    \<and> sorted (map (m_next \<circ> m_heap st) fired)
    \<and> (\<forall>p. p \<in> set (m_timers st') \<longleftrightarrow>
          p \<in> set (m_timers st) \<and> (p \<in> set fired \<longrightarrow> m_recurring (m_heap st p)))
    \<and> (\<forall>p \<in> set fired. m_heap st' p =
          (if m_recurring (m_heap st p) then (m_heap st p)\<lparr>m_next := now + m_ms (m_heap st p)\<rparr>
           else (m_heap st p)\<lparr>m_cb := None\<rparr>))
    \<and> (\<forall>p. p \<notin> set fired \<longrightarrow> m_heap st' p = m_heap st p)"
proof -
  have inv: "tm_inv st" by (rule tm_run_inv [OF assms(1) tm_inv_new])
  have fired: "fired = due now (rollover_at now st) st"
    by (simp add: fired_def rollover_def due_def rollover_at_def detectClockRollover_def)
  have "sorted (map (m_next \<circ> m_heap st) fired)"
    using sorted_wrt_filter [OF tm_inv_sorted [OF inv]] unfolding sorted_wrt_map fired_def
    by (rule sorted_wrt_mono_rel [rotated]) (auto simp: timer_lt_iff)
  with listExpiredCb_spec [OF inv assms(2), of now] show ?thesis
    unfolding fired [symmetric] by (force simp: expired_timer_def)
qed

lemma listExpiredCb_fires_what_is_due_witness:
  "\<exists>st'. listExpiredCb 2 7 (one_timer 1 5 (Direct CHR ''a'') True) = Inr (st', [Some (Direct CHR ''a'')])"
  using listExpiredCb_fires_what_is_due [OF one_timer_run [of 1 5 "Direct CHR ''a''" True], of 2 7]
  by (auto simp: one_timer_fields Timer_new_def)

text \<open>
  getTimerNext is the time the poller may sleep: a listExpiredCb less than that many
  milliseconds later hands out nothing, and one at least that many later hands out
  something, as long as the clock neither wraps nor goes back; with no timer it is ~0.
\<close>

theorem getTimerNext_is_tight:
  fixes st :: "'c timer_mgr" and now later :: u64
  assumes "tm_run (TimerManager_new t0) as st fs" and "nt \<notin> set (m_timers st)"
    and "now \<le> later" and "m_previousTime st \<le> later"
  defines "delay \<equiv> snd (getTimerNext now st)"
  shows "\<exists>st' cbs. listExpiredCb nt later (fst (getTimerNext now st)) = Inr (st', cbs)
    \<and> (cbs \<noteq> [] \<longleftrightarrow> m_timers st \<noteq> [] \<and> delay \<le> later - now)
    \<and> (m_timers st = [] \<longrightarrow> delay = - 1)"
proof -
  let ?st = "fst (getTimerNext now st)"
  have inv: "tm_inv st" by (rule tm_run_inv [OF assms(1) tm_inv_new])
  have inv': "tm_inv ?st" by (rule getTimerNext_inv [OF inv])
  have same: "m_timers ?st = m_timers st" "m_heap ?st = m_heap st" "m_previousTime ?st = m_previousTime st"
    by (simp_all add: getTimerNext_def)
  have no_roll: "rollover_at later ?st = False"
    using assms(4) by (simp add: rollover_at_def detectClockRollover_def same not_less)
  have empty_iff: "due later False ?st = [] \<longleftrightarrow> (m_timers st = [] \<or> later < m_next (m_heap st (hd (m_timers st))))"
  proof (cases "m_timers st")
    case (Cons p ps)
    with due_none [of ?st p ps later] tm_inv_sorted [OF inv'] show ?thesis
      by (cases "later < m_next (m_heap st p)") (auto simp: same due_def not_less)
  qed (simp add: due_def same)
  have "delay \<le> later - now \<longleftrightarrow> m_next (m_heap st p) \<le> later" if "m_timers st = p # ps" for p ps
    using that assms(3) by (auto simp: delay_def getTimerNext_def word_le_minus_mono_left
        word_le_nat_alt unat_sub_if_size unat_minus_one)
  then have "due later False ?st \<noteq> [] \<longleftrightarrow> m_timers st \<noteq> [] \<and> delay \<le> later - now"
    unfolding empty_iff by (cases "m_timers st") (auto simp: not_less)
  moreover have "m_timers st = [] \<longrightarrow> delay = - 1" by (simp add: delay_def getTimerNext_def)
  moreover have "nt \<notin> set (m_timers ?st)" using assms(2) by (simp add: same)
  moreover obtain st' where
    "listExpiredCb nt later ?st = Inr (st', map (\<lambda>p. m_cb (m_heap ?st p)) (due later False ?st))"
    using listExpiredCb_spec [OF inv' \<open>nt \<notin> set (m_timers ?st)\<close>, of later] unfolding no_roll by blast
  ultimately show ?thesis by simp
qed

lemma getTimerNext_is_tight_witness:
  "snd (getTimerNext 0 (one_timer 1 5 (Direct CHR ''a'') True)) = 5
   \<and> (\<exists>st' cbs. listExpiredCb 2 9 (fst (getTimerNext 0 (one_timer 1 5 (Direct CHR ''a'') True)))
        = Inr (st', cbs) \<and> cbs \<noteq> [])"
  using getTimerNext_is_tight [OF one_timer_run [of 1 5 "Direct CHR ''a''" True], of 2 0 9]
  by (auto simp: one_timer_fields getTimerNext_def Timer_new_def)

text \<open>
  A timer that was cancelled never fires: whatever the clients do afterwards, short of
  allocating a new timer at the same address, no listExpiredCb hands out its callback.
\<close>

theorem cancelled_timer_never_fires:
  assumes "tm_run (TimerManager_new t0) as st fs" and "cancel p st = Inr (st1, b)"
    and "tm_run st1 bs st2 gs" and "p \<notin> bs"
  shows "p \<notin> gs \<and> m_cb (m_heap st2 p) = None \<and> p \<notin> set (m_timers st2)"
proof -
  have inv: "tm_inv st" by (rule tm_run_inv [OF assms(1) tm_inv_new])
  have "tm_inv st1" "p \<notin> set (m_timers st1)" using cancel_inv [OF inv, of p] assms(2) by auto
  with tm_run_gone [OF assms(3)] tm_run_inv [OF assms(3)] tm_inv_cb assms(4) show ?thesis by blast
qed

lemma cancelled_timer_never_fires_witness:
  "\<exists>st1. cancel 1 (one_timer 1 5 (Direct CHR ''a'') True) = Inr (st1, True)
     \<and> m_cb (m_heap st1 1) = None \<and> 1 \<notin> set (m_timers st1)"
proof -
  obtain st1 b where c: "cancel 1 (one_timer 1 5 (Direct CHR ''a'') True) = Inr (st1, b)" and b
    using cancel_inv [OF tm_run_inv [OF one_timer_run [of 1 5 "Direct CHR ''a''" True] tm_inv_new], of 1]
    by (auto simp: one_timer_fields)
  with cancelled_timer_never_fires [OF one_timer_run c run_refl] show ?thesis by simp
qed

text \<open>
  The poller is woken for every earlier deadline, once: addTimer calls
  onTimerInsertedAtFront exactly when the new timer is the earliest and no wake-up is
  pending since the last getTimerNext, and afterwards one is pending whenever it is the
  earliest; a second addTimer before the next getTimerNext does not call it again.
\<close>

theorem addTimer_wakes_once:
  "\<lbrakk>tm_run (TimerManager_new t0) as st fs; p \<notin> set (m_timers st);
    addTimer p ms (Some cb) recurring now st = (st', woken)\<rbrakk> \<Longrightarrow>
   (woken \<longleftrightarrow> (\<forall>q \<in> set (m_timers st). now + ms < m_next (m_heap st q)
                 \<or> now + ms = m_next (m_heap st q) \<and> p < q) \<and> \<not> m_tickled st)
   \<and> (hd (m_timers st') = p \<longrightarrow> m_tickled st')
   \<and> (woken \<longrightarrow> \<not> snd (addTimer q ms2 cb2 recurring2 now2 st'))"
proof (goal_cases)
  case 1
  have inv: "tm_inv st" by (rule tm_run_inv [OF 1(1) tm_inv_new])
  let ?t = "Timer_new ms (Some cb) recurring now :: 'a timer"
  have "hd (sset_insert (timer_lt ((m_heap st)(p := ?t))) p (m_timers st)) = p \<longleftrightarrow>
    (\<forall>q \<in> set (m_timers st). now + ms < m_next (m_heap st q) \<or> now + ms = m_next (m_heap st q) \<and> p < q)"
    using hd_timer_insert [OF tm_inv_sorted [OF inv] 1(2), of ?t] by (simp add: Timer_new_def)
  with 1(3) show ?case by (auto simp: addTimer_def addTimer_locked_def Let_def)
qed

lemma addTimer_wakes_once_witness:
  "snd (addTimer 2 3 (Some (Direct CHR ''b'')) False 0 (fst (getTimerNext 0 (one_timer 4 5 (Direct CHR ''a'') True))))
   \<and> \<not> snd (addTimer 2 3 (Some (Direct CHR ''b'')) False 0 (one_timer 4 5 (Direct CHR ''a'') True))"
proof -
  let ?st = "one_timer 4 5 (Direct CHR ''a'') True"
  let ?st' = "fst (getTimerNext 0 ?st)"
  let ?add = "addTimer 2 3 (Some (Direct CHR ''b'')) False 0"
  have f: "m_timers ?st' = [4]" "m_heap ?st' = m_heap ?st" "\<not> m_tickled ?st'" "m_tickled ?st"
    by (simp_all add: getTimerNext_def one_timer_fields)
  obtain s1 w1 s2 w2 where a: "?add ?st = (s1, w1)" "?add ?st' = (s2, w2)" by fastforce
  have run: "tm_run (TimerManager_new 0) {4} ?st {}" by (rule one_timer_run)
  then have run': "tm_run (TimerManager_new 0) ({4} \<union> {}) ?st' ({} \<union> {})" by (rule run_step [OF _ step_next])
  show ?thesis
    using addTimer_wakes_once [OF run _ a(1)] addTimer_wakes_once [OF run' _ a(2)]
    by (simp add: a f one_timer_fields Timer_new_def)
qed

text \<open>
  The unlocked peek in listExpiredCb is not safe on its own: after the emptiness check
  has passed, another thread's cancel of the only timer lets the peek dereference begin()
  of an empty set.
\<close>

theorem listExpiredCb_peek_race:
  assumes "tm_inv st" and "m_timers st = [p]" and "cancel p st = Inr (st', b)"
    and "m_previousTime st \<le> now"
  shows "listExpiredCb_check st \<and> listExpiredCb_peek now st' = Inl BadAccess"
proof -
  have "m_timers st' = []" "m_previousTime st' = m_previousTime st"
    using cancel_eq [OF assms(1), of p] assms(2,3) by (auto simp: timer_lt_iff)
  moreover have "\<not> now < m_previousTime st" using assms(4) by simp
  ultimately show ?thesis using assms(2)
    by (simp add: listExpiredCb_check_def listExpiredCb_peek_def detectClockRollover_def del: not_less)
qed

lemma listExpiredCb_peek_race_witness:
  "\<exists>st'. cancel 1 (one_timer 1 5 (Direct CHR ''a'') True) = Inr (st', True)
     \<and> listExpiredCb_peek 9 st' = Inl BadAccess"
proof -
  have inv: "tm_inv (one_timer 1 5 (Direct CHR ''a'') True)" by (rule tm_run_inv [OF one_timer_run tm_inv_new])
  then obtain st' b where c: "cancel 1 (one_timer 1 5 (Direct CHR ''a'') True) = Inr (st', b)" and b
    using cancel_inv [of "one_timer 1 5 (Direct CHR ''a'') True" 1] by (auto simp: one_timer_fields)
  with listExpiredCb_peek_race [OF inv _ c, of 9] show ?thesis by (simp add: one_timer_fields)
qed

end
