(* ===== verification/IOManager.thy ===== *)
theory IOManager
  imports Scheduler_Run Timer_Expiry
begin

text \<open>
  The I/O manager (iomanager.h, iomanager.cpp): a scheduler and a timer manager with an
  epoll loop. The table of \<open>FdContext\<close> objects is a list (index = file descriptor), the
  kernel's interest list is the map \<open>ep\<close>, changed by a successful \<open>epoll_ctl\<close> as its
  manual says; the return value of each \<open>epoll_ctl\<close>, what \<open>epoll_wait\<close> reports, the
  clock, and the calling fiber and scheduler are arguments. What a step hands to
  \<open>Scheduler::schedule\<close> is part of its result.
\<close>

section \<open>State\<close>

abbreviation NONE :: u32 where "NONE \<equiv> 0"
abbreviation READ :: u32 where "READ \<equiv> 1"
abbreviation WRITE :: u32 where "WRITE \<equiv> 4"
abbreviation EPOLLIN :: u32 where "EPOLLIN \<equiv> 1"
abbreviation EPOLLOUT :: u32 where "EPOLLOUT \<equiv> 4"
abbreviation EPOLLERR :: u32 where "EPOLLERR \<equiv> 8"
abbreviation EPOLLHUP :: u32 where "EPOLLHUP \<equiv> 16"
abbreviation EPOLLET :: u32 where "EPOLLET \<equiv> 2147483648"

unbundle bit_operations_syntax

record 'c event_ctx =
  ec_scheduler :: "nat option"
  ec_fiber :: "nat option"
  ec_cb :: "'c option"

record 'c fd_context =
  fc_read :: "'c event_ctx"
  fc_write :: "'c event_ctx"
  fc_fd :: int
  fc_events :: u32

record 'c io =
  m_fdContexts :: "'c fd_context list"
  m_pendingEventCount :: u64
  ep :: "int \<rightharpoonup> u32"

text \<open>What is handed to which scheduler.\<close>

type_synonym 'c posted = "(nat \<times> 'c work) list"

section \<open>Contexts\<close>

definition resetContext :: "'c event_ctx" where
  "resetContext = \<lparr>ec_scheduler = None, ec_fiber = None, ec_cb = None\<rparr>"

definition FdContext_new :: "int \<Rightarrow> 'c fd_context" where
  "FdContext_new fd = \<lparr>fc_read = resetContext, fc_write = resetContext, fc_fd = fd, fc_events = NONE\<rparr>"

definition getContext :: "u32 \<Rightarrow> 'c fd_context \<Rightarrow> 'c event_ctx res" where
  "getContext event fc =
     (if event = READ then Inr (fc_read fc) else if event = WRITE then Inr (fc_write fc) else Inl AssertFailed)"

text \<open>Writing through the reference that \<open>getContext\<close> returns.\<close>

definition putContext :: "u32 \<Rightarrow> 'c event_ctx \<Rightarrow> 'c fd_context \<Rightarrow> 'c fd_context" where
  "putContext event c fc = (if event = READ then fc\<lparr>fc_read := c\<rparr> else fc\<lparr>fc_write := c\<rparr>)"

definition triggerEvent :: "u32 \<Rightarrow> 'c fd_context \<Rightarrow> ('c fd_context \<times> 'c posted) res" where
  "triggerEvent event fc =
     bindR (assertR (fc_events fc AND event \<noteq> 0) AssertFailed) (\<lambda>_.
       let fc1 = fc\<lparr>fc_events := fc_events fc AND NOT event\<rparr> in
       bindR (getContext event fc1) (\<lambda>c.
         case ec_scheduler c of
           None \<Rightarrow> Inl NullDeref
         | Some s \<Rightarrow>
             (if ec_cb c \<noteq> None
              then Inr (putContext event (c\<lparr>ec_cb := None, ec_scheduler := None\<rparr>) fc1, [(s, Fun (ec_cb c))])
              else Inr (putContext event (c\<lparr>ec_fiber := None, ec_scheduler := None\<rparr>) fc1, [(s, Fib (ec_fiber c))]))))"

definition contextResize :: "nat \<Rightarrow> 'c io \<Rightarrow> 'c io" where
  "contextResize sz st =
     st\<lparr>m_fdContexts := take sz (m_fdContexts st)
          @ map (\<lambda>i. FdContext_new (int i)) [length (m_fdContexts st)..<sz]\<rparr>"

definition IOManager_new :: "'c io" where
  "IOManager_new = contextResize 32 \<lparr>m_fdContexts = [], m_pendingEventCount = 0, ep = Map.empty\<rparr>"

section \<open>Registration\<close>

datatype ctl_op = EPOLL_CTL_ADD | EPOLL_CTL_MOD | EPOLL_CTL_DEL

definition epoll_ctl :: "ctl_op \<Rightarrow> int \<Rightarrow> u32 \<Rightarrow> int \<Rightarrow> 'c io \<Rightarrow> 'c io" where
  "epoll_ctl op fd events rt st =
     (if rt \<noteq> 0 then st
      else st\<lparr>ep := (ep st)(fd := (if op = EPOLL_CTL_DEL then None else Some events))\<rparr>)"

definition put_fd :: "int \<Rightarrow> 'c fd_context \<Rightarrow> 'c io \<Rightarrow> 'c io" where
  "put_fd fd fc st = st\<lparr>m_fdContexts := (m_fdContexts st)[nat fd := fc]\<rparr>"

text \<open>A negative index into the vector is an access outside it.\<close>

definition fd_at :: "int \<Rightarrow> 'c io \<Rightarrow> 'c fd_context res" where
  "fd_at fd st =
     (if 0 \<le> fd \<and> nat fd < length (m_fdContexts st) then Inr (m_fdContexts st ! nat fd) else Inl BadAccess)"

text \<open>
  The two lock scopes of \<open>addEvent\<close> that find the context: the test under the read lock,
  and the growth under the write lock, which does not test again. \<open>fd * 1.5\<close> is cut to an
  integer.
\<close>

definition addEvent_known :: "int \<Rightarrow> 'c io \<Rightarrow> bool" where
  "addEvent_known fd st \<longleftrightarrow> int (length (m_fdContexts st)) > fd"

definition addEvent_grow :: "int \<Rightarrow> 'c io \<Rightarrow> 'c io" where
  "addEvent_grow fd st = contextResize (nat (fd * 3 div 2)) st"

text \<open>
  The rest of \<open>addEvent\<close>, under the context's lock. \<open>sch\<close> is \<open>Scheduler::GetThis()\<close>,
  \<open>cur\<close> the current fiber and \<open>cur_state\<close> its state, \<open>rt\<close> what \<open>epoll_ctl\<close> returns.
\<close>

definition addEvent_register ::
  "int \<Rightarrow> u32 \<Rightarrow> 'c option \<Rightarrow> nat option \<Rightarrow> nat \<Rightarrow> State \<Rightarrow> int \<Rightarrow> 'c io \<Rightarrow> ('c io \<times> int) res" where
  "addEvent_register fd new_event cb sch cur cur_state rt st =
     bindR (fd_at fd st) (\<lambda>fc.
     bindR (assertR (fc_events fc AND new_event = 0) AssertFailed) (\<lambda>_.
       let op = (if fc_events fc \<noteq> 0 then EPOLL_CTL_MOD else EPOLL_CTL_ADD);
           st1 = epoll_ctl op fd (EPOLLET OR fc_events fc OR new_event) rt st
       in if rt \<noteq> 0 then Inr (st1, -1)
          else
            let st2 = st1\<lparr>m_pendingEventCount := m_pendingEventCount st1 + 1\<rparr>;
                fc1 = fc\<lparr>fc_events := fc_events fc OR new_event\<rparr>
            in bindR (getContext new_event fc1) (\<lambda>c.
               bindR (assertR (ec_scheduler c = None \<and> ec_fiber c = None \<and> ec_cb c = None) AssertFailed) (\<lambda>_.
                 if cb \<noteq> None then
                   Inr (put_fd fd (putContext new_event (c\<lparr>ec_scheduler := sch, ec_cb := cb\<rparr>) fc1) st2, 0)
                 else
                   bindR (assertR (cur_state = EXEC) AssertFailed) (\<lambda>_.
                     Inr (put_fd fd (putContext new_event (c\<lparr>ec_scheduler := sch, ec_fiber := Some cur\<rparr>) fc1) st2, 0))))))"

definition addEvent ::
  "int \<Rightarrow> u32 \<Rightarrow> 'c option \<Rightarrow> nat option \<Rightarrow> nat \<Rightarrow> State \<Rightarrow> int \<Rightarrow> 'c io \<Rightarrow> ('c io \<times> int) res" where
  "addEvent fd new_event cb sch cur cur_state rt st =
     (if addEvent_known fd st then addEvent_register fd new_event cb sch cur cur_state rt st
      else addEvent_register fd new_event cb sch cur cur_state rt (addEvent_grow fd st))"

definition delEvent :: "int \<Rightarrow> u32 \<Rightarrow> int \<Rightarrow> 'c io \<Rightarrow> ('c io \<times> bool) res" where
  "delEvent fd event rt st =
     (if int (length (m_fdContexts st)) \<le> fd then Inr (st, False)
      else bindR (fd_at fd st) (\<lambda>fc.
        if fc_events fc AND event = 0 then Inr (st, False)
        else
          let new_events = fc_events fc AND NOT event;
              op = (if new_events \<noteq> 0 then EPOLL_CTL_MOD else EPOLL_CTL_DEL);
              st1 = epoll_ctl op fd (EPOLLET OR new_events) rt st
          in if rt \<noteq> 0 then Inr (st1, False)
             else
               let st2 = st1\<lparr>m_pendingEventCount := m_pendingEventCount st1 - 1\<rparr>;
                   fc1 = fc\<lparr>fc_events := new_events\<rparr>
               in bindR (getContext event fc1) (\<lambda>c.
                    Inr (put_fd fd (putContext event resetContext fc1) st2, True))))"

definition cancelEvent :: "int \<Rightarrow> u32 \<Rightarrow> int \<Rightarrow> 'c io \<Rightarrow> ('c io \<times> bool \<times> 'c posted) res" where
  "cancelEvent fd event rt st =
     (if int (length (m_fdContexts st)) \<le> fd then Inr (st, False, [])
      else bindR (fd_at fd st) (\<lambda>fc.
        if fc_events fc AND event = 0 then Inr (st, False, [])
        else
          let new_events = fc_events fc AND NOT event;
              op = (if new_events \<noteq> 0 then EPOLL_CTL_MOD else EPOLL_CTL_DEL);
              st1 = epoll_ctl op fd (EPOLLET OR new_events) rt st
          in if rt \<noteq> 0 then Inr (st1, False, [])
             else bindR (triggerEvent event fc) (\<lambda>(fc1, out).
               Inr (put_fd fd fc1 (st1\<lparr>m_pendingEventCount := m_pendingEventCount st1 - 1\<rparr>), True, out))))"

text \<open>Triggering one event of a context, if it is among \<open>which\<close>, and counting it down.\<close>

definition trigger_one ::
  "u32 \<Rightarrow> u32 \<Rightarrow> 'c fd_context \<times> u64 \<times> 'c posted \<Rightarrow> ('c fd_context \<times> u64 \<times> 'c posted) res" where
  "trigger_one which event x =
     (case x of (fc, n, out) \<Rightarrow>
        if which AND event \<noteq> 0
        then bindR (triggerEvent event fc) (\<lambda>(fc1, o1). Inr (fc1, n - 1, out @ o1))
        else Inr (fc, n, out))"

definition cancelAll :: "int \<Rightarrow> int \<Rightarrow> 'c io \<Rightarrow> ('c io \<times> bool \<times> 'c posted) res" where
  "cancelAll fd rt st =
     (if int (length (m_fdContexts st)) \<le> fd then Inr (st, False, [])
      else bindR (fd_at fd st) (\<lambda>fc.
        if fc_events fc = 0 then Inr (st, False, [])
        else
          let st1 = epoll_ctl EPOLL_CTL_DEL fd 0 rt st
          in if rt \<noteq> 0 then Inr (st1, False, [])
             else bindR (trigger_one (fc_events fc) READ (fc, m_pendingEventCount st1, [])) (\<lambda>x.
                  bindR (trigger_one (fc_events (fst x)) WRITE x) (\<lambda>(fc2, n, out).
                  bindR (assertR (fc_events fc2 = 0) AssertFailed) (\<lambda>_.
                    Inr (put_fd fd fc2 (st1\<lparr>m_pendingEventCount := n\<rparr>), True, out))))))"

section \<open>The poll loop\<close>

text \<open>
  The timeout that \<open>idle\<close> passes to \<open>epoll_wait\<close>: \<open>next_timeout\<close> is unsigned, but the
  comparison and the call cast it to \<open>int\<close>.
\<close>

definition idle_timeout :: "u64 \<Rightarrow> int" where
  "idle_timeout next_timeout =
     (let t = (if next_timeout \<noteq> - 1
               then (if sint (ucast next_timeout :: u32) > 3000 then 3000 else next_timeout)
               else 3000)
      in sint (ucast t :: u32))"

text \<open>One event that \<open>epoll_wait\<close> reported for a context.\<close>

definition idle_event :: "int \<Rightarrow> u32 \<Rightarrow> int \<Rightarrow> 'c io \<Rightarrow> ('c io \<times> 'c posted) res" where
  "idle_event fd events rt st =
     bindR (fd_at fd st) (\<lambda>fc.
       let events1 = (if events AND (EPOLLERR OR EPOLLHUP) \<noteq> 0
                      then events OR ((EPOLLIN OR EPOLLOUT) AND fc_events fc) else events);
           real_events = ((if events1 AND EPOLLIN \<noteq> 0 then READ else 0)
                          OR (if events1 AND EPOLLOUT \<noteq> 0 then WRITE else 0))
       in if fc_events fc AND real_events = NONE then Inr (st, [])
          else
            let left_events = fc_events fc AND NOT real_events;
                op = (if left_events \<noteq> 0 then EPOLL_CTL_MOD else EPOLL_CTL_DEL);
                st1 = epoll_ctl op (fc_fd fc) (EPOLLET OR left_events) rt st
            in if rt \<noteq> 0 then Inr (st1, [])
               else bindR (trigger_one real_events READ (fc, m_pendingEventCount st1, [])) (\<lambda>x.
                    bindR (trigger_one real_events WRITE x) (\<lambda>(fc2, n, out).
                      Inr (put_fd fd fc2 (st1\<lparr>m_pendingEventCount := n\<rparr>), out))))"

text \<open>\<open>None\<close> is the wake-up pipe; otherwise the context, the mask and the result of the re-arm.\<close>

fun idle_events :: "(int \<times> u32 \<times> int) option list \<Rightarrow> 'c io \<Rightarrow> ('c io \<times> 'c posted) res" where
  "idle_events [] st = Inr (st, [])"
| "idle_events (None # es) st = idle_events es st"
| "idle_events (Some (fd, events, rt) # es) st =
     bindR (idle_event fd events rt st) (\<lambda>(st1, o1).
     bindR (idle_events es st1) (\<lambda>(st2, o2). Inr (st2, o1 @ o2)))"

section \<open>The whole manager\<close>

record 'c iomanager =
  im_sched :: "'c callback scheduler"
  im_timers :: "'c timer_mgr"
  im_io :: "'c callback io"

text \<open>\<open>stopping(timeout)\<close>.\<close>

definition IOManager_stopping :: "u64 \<Rightarrow> 'c iomanager \<Rightarrow> 'c iomanager \<times> u64 \<times> bool" where
  "IOManager_stopping now m =
     (case getTimerNext now (im_timers m) of
        (ts, timeout) \<Rightarrow>
          (m\<lparr>im_timers := ts\<rparr>, timeout,
           timeout = - 1 \<and> m_pendingEventCount (im_io m) = 0 \<and> stopping (im_sched m)))"

text \<open>\<open>tickle\<close> writes a byte to the pipe if a worker is idle.\<close>

definition IOManager_tickle :: "'c iomanager \<Rightarrow> nat" where
  "IOManager_tickle m = (if m_idleThreadCount (im_sched m) > 0 then 1 else 0)"

text \<open>Posting to this manager's own scheduler, whose id is \<open>self\<close>.\<close>

fun post :: "'c posted \<Rightarrow> 'c scheduler \<Rightarrow> 'c scheduler" where
  "post [] s = s"
| "post ((_, wk) # ps) s = post ps (fst (schedule wk (-1) s))"

text \<open>
  One turn of \<open>idle\<close> up to the switch: the clock at the stopping test (\<open>now\<close>) and after
  the wait (\<open>later\<close>), and what \<open>epoll_wait\<close> reported. \<open>None\<close> when the loop breaks.
\<close>

definition idle_round ::
  "u64 \<Rightarrow> u64 \<Rightarrow> nat \<Rightarrow> (int \<times> u32 \<times> int) option list \<Rightarrow> 'c iomanager \<Rightarrow> 'c iomanager option res" where
  "idle_round now later nt evs m =
     (case IOManager_stopping now m of
        (m1, timeout, stop_now) \<Rightarrow>
          if stop_now then Inr None
          else
            bindR (listExpiredCb nt later (im_timers m1)) (\<lambda>(ts, cbs).
              let sc = (if cbs = [] then im_sched m1 else fst (schedule_range (map Fun cbs) (im_sched m1)))
              in bindR (idle_events evs (im_io m1)) (\<lambda>(io', out).
                   Inr (Some (m1\<lparr>im_timers := ts, im_io := io', im_sched := post out sc\<rparr>)))))"

end
