(* ===== verification/IOManager_Inv.thy ===== *)
theory IOManager_Inv
  imports IOManager
begin

text \<open>
  The invariant of the I/O manager: a context is armed for exactly the events it has
  registered, the kernel watches exactly those, and \<open>m_pendingEventCount\<close> counts them.
\<close>

unbundle bit_operations_syntax

section \<open>Event masks\<close>

definition masks :: "u32 set" where "masks = {0, 1, 4, 5}"

lemma masksE: "e \<in> masks \<Longrightarrow> (e = 0 \<Longrightarrow> P) \<Longrightarrow> (e = 1 \<Longrightarrow> P) \<Longrightarrow> (e = 4 \<Longrightarrow> P) \<Longrightarrow> (e = 5 \<Longrightarrow> P) \<Longrightarrow> P"
  by (auto simp: masks_def)

definition nev :: "u32 \<Rightarrow> nat" where
  "nev e = (if e AND READ \<noteq> 0 then 1 else 0) + (if e AND WRITE \<noteq> 0 then 1 else 0)"

lemma mask_ops:
  "(0::u32) AND x = 0" "(1::u32) AND 1 = 1" "(4::u32) AND 1 = 0" "(5::u32) AND 1 = 1"
  "(1::u32) AND 4 = 0" "(4::u32) AND 4 = 4" "(5::u32) AND 4 = 4" "(1::u32) AND 5 = 1" "(4::u32) AND 5 = 4"
  "(5::u32) AND 5 = 5"
  "(0::u32) AND NOT x = 0" "(1::u32) AND NOT 1 = 0" "(4::u32) AND NOT 1 = 4" "(5::u32) AND NOT 1 = 4"
  "(1::u32) AND NOT 4 = 1" "(4::u32) AND NOT 4 = 0" "(5::u32) AND NOT 4 = 1"
  "(1::u32) AND NOT 5 = 0" "(4::u32) AND NOT 5 = 0" "(5::u32) AND NOT 5 = 0"
  "(5::u32) AND NOT 0 = 5" "(4::u32) AND NOT 0 = 4" "(1::u32) AND NOT 0 = 1"
  "(0::u32) OR 1 = 1" "(0::u32) OR 4 = 4" "(1::u32) OR 4 = 5" "(4::u32) OR 1 = 5" "(1::u32) OR 1 = 1"
  "(4::u32) OR 4 = 4" "(5::u32) OR 1 = 5" "(5::u32) OR 4 = 5"
  by simp_all

section \<open>Invariant\<close>

text \<open>A context waiting for an event knows its scheduler and one thing to run.\<close>

definition armed :: "'c event_ctx \<Rightarrow> bool" where
  "armed c \<longleftrightarrow> ec_scheduler c \<noteq> None \<and> (ec_fiber c = None) \<noteq> (ec_cb c = None)"

definition slot_ok :: "u32 \<Rightarrow> u32 \<Rightarrow> 'c event_ctx \<Rightarrow> bool" where
  "slot_ok e event c \<longleftrightarrow> (if e AND event \<noteq> 0 then armed c else c = resetContext)"

definition ctx_ok :: "'c fd_context \<Rightarrow> bool" where
  "ctx_ok fc \<longleftrightarrow> fc_events fc \<in> masks
     \<and> slot_ok (fc_events fc) READ (fc_read fc) \<and> slot_ok (fc_events fc) WRITE (fc_write fc)"

definition watched :: "u32 \<Rightarrow> u32 option" where
  "watched e = (if e = 0 then None else Some (EPOLLET OR e))"

definition io_inv :: "'c io \<Rightarrow> bool" where
  "io_inv st \<longleftrightarrow>
     (\<forall>fc \<in> set (m_fdContexts st). ctx_ok fc)
   \<and> (\<forall>i < length (m_fdContexts st). fc_fd (m_fdContexts st ! i) = int i)
   \<and> m_pendingEventCount st = of_nat (sum_list (map (nev \<circ> fc_events) (m_fdContexts st)))
   \<and> (\<forall>i < length (m_fdContexts st). ep st (int i) = watched (fc_events (m_fdContexts st ! i)))
   \<and> (\<forall>fd. fd < 0 \<or> int (length (m_fdContexts st)) \<le> fd \<longrightarrow> ep st fd = None)"

lemma FdContext_new_ok: "ctx_ok (FdContext_new fd)"
  by (simp add: ctx_ok_def FdContext_new_def masks_def slot_ok_def)

lemma FdContext_new_fields [simp]: "fc_events (FdContext_new fd) = 0" "fc_fd (FdContext_new fd) = fd"
  by (simp_all add: FdContext_new_def)

lemma nev_0 [simp]: "nev 0 = 0" and watched_0 [simp]: "watched 0 = None"
  by (simp_all add: nev_def watched_def)

lemma sum_new: "sum_list (map (nev \<circ> fc_events \<circ> (\<lambda>i. FdContext_new (int i))) is) = 0"
  by (induction "is") simp_all

lemma contextResize_inv:
  assumes "io_inv st" and "length (m_fdContexts st) \<le> sz"
  shows "io_inv (contextResize sz st)"
  using assms
  by (auto simp: io_inv_def contextResize_def FdContext_new_ok sum_new [unfolded comp_def] nth_append comp_def)

lemma IOManager_new_inv: "io_inv IOManager_new"
  unfolding IOManager_new_def
  by (rule contextResize_inv) (simp_all add: io_inv_def)

text \<open>Replacing one context, with the count and the interest list following.\<close>

lemma io_inv_put:
  assumes inv: "io_inv st" and i: "i < length (m_fdContexts st)"
    and ok: "ctx_ok fc" "fc_fd fc = int i"
    and n: "n + of_nat (nev (fc_events (m_fdContexts st ! i))) = m_pendingEventCount st + of_nat (nev (fc_events fc))"
    and e: "e = (ep st)(int i := watched (fc_events fc))"
  shows "io_inv \<lparr>m_fdContexts = (m_fdContexts st)[i := fc], m_pendingEventCount = n, ep = e\<rparr>"
proof -
  let ?cs = "m_fdContexts st" and ?f = "nev \<circ> fc_events"
  have "?f (?cs ! i) \<le> sum_list (map ?f ?cs)" using i elem_le_sum_list [of i "map ?f ?cs"] by simp
  then have "sum_list (map ?f (?cs[i := fc])) + ?f (?cs ! i) = sum_list (map ?f ?cs) + ?f fc"
    using i by (simp add: map_update sum_list_update)
  then have "of_nat (sum_list (map ?f (?cs[i := fc]))) + of_nat (?f (?cs ! i))
      = (of_nat (sum_list (map ?f ?cs)) + of_nat (?f fc) :: u64)"
    by (metis of_nat_add)
  moreover have "m_pendingEventCount st = of_nat (sum_list (map ?f ?cs))" using inv by (simp add: io_inv_def)
  ultimately have "n = of_nat (sum_list (map ?f (?cs[i := fc])))"
    using n by simp (metis add_right_cancel)
  then show ?thesis
    using inv i ok by (auto simp: io_inv_def e nth_list_update dest: set_update_subset_insert [THEN subsetD])
qed

lemma io_eta: "st = \<lparr>m_fdContexts = m_fdContexts st, m_pendingEventCount = m_pendingEventCount st, ep = ep st\<rparr>"
  by simp

lemma io_invD:
  assumes "io_inv st" and "0 \<le> fd" and "fd < int (length (m_fdContexts st))"
  shows "fd_at fd st = Inr (m_fdContexts st ! nat fd)" and "ctx_ok (m_fdContexts st ! nat fd)"
    and "fc_fd (m_fdContexts st ! nat fd) = fd" and "nat fd < length (m_fdContexts st)"
    and "ep st fd = watched (fc_events (m_fdContexts st ! nat fd))"
proof -
  show lt: "nat fd < length (m_fdContexts st)" using assms(2,3) by simp
  with assms show "fd_at fd st = Inr (m_fdContexts st ! nat fd)" "ctx_ok (m_fdContexts st ! nat fd)"
    "fc_fd (m_fdContexts st ! nat fd) = fd"  "ep st fd = watched (fc_events (m_fdContexts st ! nat fd))"
    by (auto simp: fd_at_def io_inv_def)
qed

section \<open>Registration\<close>

lemma getContext_eq: "event \<in> {READ, WRITE} \<Longrightarrow>
    getContext event fc = Inr (if event = READ then fc_read fc else fc_write fc)"
  by (auto simp: getContext_def)

text \<open>What \<open>addEvent\<close> puts into the slot.\<close>

definition arm :: "nat option \<Rightarrow> nat \<Rightarrow> 'c option \<Rightarrow> 'c event_ctx" where
  "arm sch cur cb = \<lparr>ec_scheduler = sch, ec_fiber = (if cb = None then Some cur else None), ec_cb = cb\<rparr>"

definition work_of :: "nat \<Rightarrow> 'c option \<Rightarrow> 'c work" where
  "work_of cur cb = (if cb = None then Fib (Some cur) else Fun cb)"

lemma arm_armed: "sch \<noteq> None \<Longrightarrow> armed (arm sch cur cb)"
  by (auto simp: armed_def arm_def)

lemma addEvent_register_eq:
  assumes inv: "io_inv st" and fd: "0 \<le> fd" "fd < int (length (m_fdContexts st))"
    and ev: "event \<in> {READ, WRITE}" and free: "fc_events (m_fdContexts st ! nat fd) AND event = 0"
    and st: "cb = None \<longrightarrow> cur_state = EXEC"
  shows "addEvent_register fd event cb sch cur cur_state rt st =
    (let fc = m_fdContexts st ! nat fd in
     if rt \<noteq> 0 then Inr (st, -1)
     else Inr (\<lparr>m_fdContexts = (m_fdContexts st)
                  [nat fd := putContext event (arm sch cur cb) (fc\<lparr>fc_events := fc_events fc OR event\<rparr>)],
                m_pendingEventCount = m_pendingEventCount st + 1,
                ep = (ep st)(fd \<mapsto> EPOLLET OR (fc_events fc OR event))\<rparr>, 0))"
proof -
  let ?fc = "m_fdContexts st ! nat fd"
  note D = io_invD [OF inv fd]
  have slot: "(if event = READ then fc_read ?fc else fc_write ?fc) = resetContext"
    using D(2) ev free by (auto simp: ctx_ok_def slot_ok_def)
  have gc: "getContext event (?fc\<lparr>fc_events := e\<rparr>) = Inr resetContext" for e
    using slot by (simp add: getContext_eq [OF ev] split: if_splits)
  have rc: "ec_scheduler resetContext = None" "ec_fiber resetContext = None" "ec_cb resetContext = None"
    by (simp_all add: resetContext_def)
  show ?thesis
    unfolding addEvent_register_def D(1)
    using free st
    by (cases cb) (simp_all add: assertR_def epoll_ctl_def Let_def gc rc put_fd_def arm_def, simp_all add: resetContext_def)
qed

definition slot :: "u32 \<Rightarrow> 'c fd_context \<Rightarrow> 'c event_ctx" where
  "slot event fc = (if event = READ then fc_read fc else fc_write fc)"

definition slot_post :: "'c event_ctx \<Rightarrow> nat \<times> 'c work" where
  "slot_post c = (the (ec_scheduler c), if ec_cb c \<noteq> None then Fun (ec_cb c) else Fib (ec_fiber c))"

text \<open>A context with one event taken out.\<close>

definition disarm :: "u32 \<Rightarrow> 'c fd_context \<Rightarrow> 'c fd_context" where
  "disarm event fc = putContext event resetContext (fc\<lparr>fc_events := fc_events fc AND NOT event\<rparr>)"

lemma putContext_fields [simp]:
  "fc_events (putContext event c fc) = fc_events fc" "fc_fd (putContext event c fc) = fc_fd fc"
  by (simp_all add: putContext_def)

lemma disarm_fields [simp]:
  "fc_events (disarm event fc) = fc_events fc AND NOT event" "fc_fd (disarm event fc) = fc_fd fc"
  by (simp_all add: disarm_def)

lemma ctx_ok_slot:
  "ctx_ok fc \<Longrightarrow> event \<in> {READ, WRITE} \<Longrightarrow> slot_ok (fc_events fc) event (slot event fc)"
  by (auto simp: ctx_ok_def slot_def)

lemma triggerEvent_eq:
  assumes ok: "ctx_ok fc" and ev: "event \<in> {READ, WRITE}" and on: "fc_events fc AND event \<noteq> 0"
  shows "triggerEvent event fc = Inr (disarm event fc, [slot_post (slot event fc)])"
proof -
  let ?c = "slot event fc"
  have a: "armed ?c" using ctx_ok_slot [OF ok ev] on by (simp add: slot_ok_def)
  then obtain s where s: "ec_scheduler ?c = Some s" by (auto simp: armed_def)
  have gc: "getContext event (fc\<lparr>fc_events := e\<rparr>) = Inr ?c" for e
    using ev by (auto simp: getContext_def slot_def)
  have one: "?c\<lparr>ec_cb := None, ec_scheduler := None\<rparr> = resetContext" if "ec_cb ?c \<noteq> None"
    using a that by (cases ?c) (auto simp: armed_def resetContext_def)
  have two: "?c\<lparr>ec_fiber := None, ec_scheduler := None\<rparr> = resetContext" if "ec_cb ?c = None"
    using that by (cases ?c) (auto simp: resetContext_def)
  show ?thesis
    unfolding triggerEvent_def using on
    by (cases "ec_cb ?c") (simp_all add: assertR_def Let_def gc s one two disarm_def slot_post_def)
qed

lemma disarm_ok:
  assumes "ctx_ok fc" and "event \<in> {READ, WRITE}"
  shows "ctx_ok (disarm event fc)"
  using assms by (auto simp: ctx_ok_def disarm_def putContext_def slot_ok_def mask_ops elim!: masksE)
    (auto simp: masks_def)

lemma arm_ok:
  assumes "ctx_ok fc" and "event \<in> {READ, WRITE}" and "armed c"
  shows "ctx_ok (putContext event c (fc\<lparr>fc_events := fc_events fc OR event\<rparr>))"
  using assms by (auto simp: ctx_ok_def putContext_def slot_ok_def mask_ops elim!: masksE)
    (auto simp: masks_def)

lemma nev_disarm:
  "e \<in> masks \<Longrightarrow> event \<in> {READ, WRITE} \<Longrightarrow> e AND event \<noteq> 0 \<Longrightarrow> nev e = Suc (nev (e AND NOT event))"
  by (auto simp: nev_def mask_ops elim!: masksE)

lemma nev_arm:
  "e \<in> masks \<Longrightarrow> event \<in> {READ, WRITE} \<Longrightarrow> e AND event = 0 \<Longrightarrow> nev (e OR event) = Suc (nev e)"
  by (auto simp: nev_def mask_ops elim!: masksE)

lemma or_ne_0: "e \<in> masks \<Longrightarrow> event \<in> {READ, WRITE} \<Longrightarrow> e OR event \<noteq> 0"
  by (auto simp: mask_ops elim!: masksE)

lemma ctx_ok_masks: "ctx_ok fc \<Longrightarrow> fc_events fc \<in> masks"
  by (simp add: ctx_ok_def)

lemma addEvent_register_inv:
  assumes inv: "io_inv st" and fd: "0 \<le> fd" "fd < int (length (m_fdContexts st))"
    and ev: "event \<in> {READ, WRITE}" and sch: "sch \<noteq> None"
    and res: "addEvent_register fd event cb sch cur cur_state rt st = Inr (st', r)"
  shows "io_inv st'" and "length (m_fdContexts st') = length (m_fdContexts st)"
proof -
  let ?fc = "m_fdContexts st ! nat fd"
  note D = io_invD [OF inv fd]
  have free: "fc_events ?fc AND event = 0" and st: "rt = 0 \<Longrightarrow> cb = None \<longrightarrow> cur_state = EXEC"
    using res by (auto simp: addEvent_register_def D(1) bindR_eq_Inr assertR_def Let_def split: if_splits)
  have "io_inv st' \<and> length (m_fdContexts st') = length (m_fdContexts st)"
  proof (cases "rt = 0")
    case False
    then have "st' = st" using res free by (simp add: addEvent_register_def D(1) assertR_def epoll_ctl_def)
    with inv show ?thesis by simp
  next
    case True
    let ?fc' = "putContext event (arm sch cur cb) (?fc\<lparr>fc_events := fc_events ?fc OR event\<rparr>)"
    have st': "st' = \<lparr>m_fdContexts = (m_fdContexts st)[nat fd := ?fc'],
        m_pendingEventCount = m_pendingEventCount st + 1,
        ep = (ep st)(fd \<mapsto> EPOLLET OR (fc_events ?fc OR event))\<rparr>"
      using res True by (simp add: addEvent_register_eq [OF inv fd ev free st] Let_def)
    have "io_inv st'"
      unfolding st'
    proof (rule io_inv_put [OF inv D(4)])
      show "ctx_ok ?fc'" by (rule arm_ok [OF D(2) ev arm_armed [OF sch]])
      show "fc_fd ?fc' = int (nat fd)" using D(3) fd by simp
      show "m_pendingEventCount st + 1 + of_nat (nev (fc_events ?fc)) = m_pendingEventCount st + of_nat (nev (fc_events ?fc'))"
        using nev_arm [OF ctx_ok_masks [OF D(2)] ev free] by simp
      show "(ep st)(fd \<mapsto> EPOLLET OR (fc_events ?fc OR event)) = (ep st)(int (nat fd) := watched (fc_events ?fc'))"
        using fd or_ne_0 [OF ctx_ok_masks [OF D(2)] ev] by (simp add: watched_def)
    qed
    then show ?thesis by (simp add: st')
  qed
  then show "io_inv st'" "length (m_fdContexts st') = length (m_fdContexts st)" by simp_all
qed

section \<open>Removal\<close>

text \<open>The state after one event of a context was taken out.\<close>

definition io_disarm :: "int \<Rightarrow> u32 \<Rightarrow> 'c io \<Rightarrow> 'c io" where
  "io_disarm fd event st =
     (let fc = disarm event (m_fdContexts st ! nat fd)
      in \<lparr>m_fdContexts = (m_fdContexts st)[nat fd := fc],
          m_pendingEventCount = m_pendingEventCount st - 1,
          ep = (ep st)(fd := watched (fc_events fc))\<rparr>)"

lemma io_disarm_inv:
  assumes inv: "io_inv st" and fd: "0 \<le> fd" "fd < int (length (m_fdContexts st))"
    and ev: "event \<in> {READ, WRITE}" and on: "fc_events (m_fdContexts st ! nat fd) AND event \<noteq> 0"
  shows "io_inv (io_disarm fd event st)"
proof -
  let ?fc = "m_fdContexts st ! nat fd"
  note D = io_invD [OF inv fd]
  show ?thesis
    unfolding io_disarm_def Let_def
  proof (rule io_inv_put [OF inv D(4) disarm_ok [OF D(2) ev]])
    show "m_pendingEventCount st - 1 + of_nat (nev (fc_events ?fc)) =
        m_pendingEventCount st + of_nat (nev (fc_events (disarm event ?fc)))"
      using nev_disarm [OF ctx_ok_masks [OF D(2)] ev on] by simp
  qed (use D fd in auto)
qed

lemma epoll_ctl_left:
  "epoll_ctl (if e \<noteq> 0 then EPOLL_CTL_MOD else EPOLL_CTL_DEL) fd (EPOLLET OR e) 0 st = st\<lparr>ep := (ep st)(fd := watched e)\<rparr>"
  by (simp add: epoll_ctl_def watched_def)

text \<open>\<open>delEvent\<close>, \<open>cancelEvent\<close> and \<open>cancelAll\<close> on a known descriptor.\<close>

lemma delEvent_eq:
  assumes inv: "io_inv st" and fd: "0 \<le> fd" "fd < int (length (m_fdContexts st))"
    and ev: "event \<in> {READ, WRITE}"
  shows "delEvent fd event rt st =
    (if fc_events (m_fdContexts st ! nat fd) AND event = 0 \<or> rt \<noteq> 0 then Inr (st, False)
     else Inr (io_disarm fd event st, True))"
proof (cases "fc_events (m_fdContexts st ! nat fd) AND event = 0 \<or> rt \<noteq> 0")
  case True
  then show ?thesis using fd io_invD(1) [OF inv fd]
    by (auto simp: delEvent_def Let_def epoll_ctl_def)
next
  case False
  have "getContext event ((m_fdContexts st ! nat fd)\<lparr>fc_events := e\<rparr>) = Inr (slot event (m_fdContexts st ! nat fd))" for e
    using ev by (auto simp: getContext_def slot_def)
  with False show ?thesis using fd io_invD(1) [OF inv fd]
    by (simp add: delEvent_def Let_def epoll_ctl_left put_fd_def io_disarm_def disarm_def)
qed

lemma cancelEvent_eq:
  assumes inv: "io_inv st" and fd: "0 \<le> fd" "fd < int (length (m_fdContexts st))"
    and ev: "event \<in> {READ, WRITE}"
  shows "cancelEvent fd event rt st =
    (if fc_events (m_fdContexts st ! nat fd) AND event = 0 \<or> rt \<noteq> 0 then Inr (st, False, [])
     else Inr (io_disarm fd event st, True, [slot_post (slot event (m_fdContexts st ! nat fd))]))"
proof (cases "fc_events (m_fdContexts st ! nat fd) AND event = 0 \<or> rt \<noteq> 0")
  case True
  then show ?thesis using fd io_invD(1) [OF inv fd]
    by (auto simp: cancelEvent_def Let_def epoll_ctl_def)
next
  case False
  with fd io_invD(1) [OF inv fd] triggerEvent_eq [OF io_invD(2) [OF inv fd] ev]
  show ?thesis
    by (simp add: cancelEvent_def Let_def epoll_ctl_left put_fd_def io_disarm_def)
qed

definition disarm_mask :: "u32 \<Rightarrow> 'c fd_context \<Rightarrow> 'c fd_context" where
  "disarm_mask m fc =
     (let fc1 = (if m AND READ \<noteq> 0 then disarm READ fc else fc)
      in if m AND WRITE \<noteq> 0 then disarm WRITE fc1 else fc1)"

definition mask_posts :: "u32 \<Rightarrow> 'c fd_context \<Rightarrow> 'c posted" where
  "mask_posts m fc =
     (if m AND READ \<noteq> 0 then [slot_post (fc_read fc)] else [])
     @ (if m AND WRITE \<noteq> 0 then [slot_post (fc_write fc)] else [])"

definition subset_mask :: "u32 \<Rightarrow> u32 \<Rightarrow> bool" where
  "subset_mask m e \<longleftrightarrow> m \<in> masks \<and> (m AND READ \<noteq> 0 \<longrightarrow> e AND READ \<noteq> 0) \<and> (m AND WRITE \<noteq> 0 \<longrightarrow> e AND WRITE \<noteq> 0)"

lemma trigger_mask:
  assumes ok: "ctx_ok fc" and sub: "subset_mask m (fc_events fc)"
  shows "bindR (trigger_one m READ (fc, n, [])) (trigger_one m WRITE)
     = Inr (disarm_mask m fc, n - of_nat (nev m), mask_posts m fc)"
proof -
  have w: "fc_events (disarm READ fc) AND WRITE \<noteq> 0" if "m AND WRITE \<noteq> 0"
    using sub that ctx_ok_masks [OF ok] by (auto simp: subset_mask_def mask_ops elim!: masksE)
  have wslot: "slot WRITE (disarm READ fc) = fc_write fc"
    by (simp add: slot_def disarm_def putContext_def)
  have slots: "slot READ fc = fc_read fc" "slot WRITE fc = fc_write fc" by (simp_all add: slot_def)
  note T = triggerEvent_eq [OF ok, of READ] triggerEvent_eq [OF ok, of WRITE]
    triggerEvent_eq [OF disarm_ok [OF ok, of READ], of WRITE]
  show ?thesis
    using sub T w
    by (cases "m AND READ \<noteq> 0"; cases "m AND WRITE \<noteq> 0")
      (simp_all add: trigger_one_def subset_mask_def disarm_mask_def mask_posts_def slots wslot nev_def Let_def)
qed

lemma disarm_mask_fields:
  "fc_fd (disarm_mask m fc) = fc_fd fc"
  "m \<in> masks \<Longrightarrow> ctx_ok fc \<Longrightarrow> fc_events (disarm_mask m fc) = fc_events fc AND NOT m"
proof -
  show "fc_fd (disarm_mask m fc) = fc_fd fc" by (simp add: disarm_mask_def Let_def)
  assume "m \<in> masks" "ctx_ok fc"
  with ctx_ok_masks [of fc] show "fc_events (disarm_mask m fc) = fc_events fc AND NOT m"
    by (auto simp: disarm_mask_def Let_def mask_ops elim!: masksE)
qed

lemma disarm_mask_ok: "ctx_ok fc \<Longrightarrow> ctx_ok (disarm_mask m fc)"
  by (simp add: disarm_mask_def Let_def disarm_ok)

lemma nev_disarm_mask:
  "e \<in> masks \<Longrightarrow> subset_mask m e \<Longrightarrow> nev e = nev (e AND NOT m) + nev m"
  by (auto simp: nev_def subset_mask_def mask_ops elim!: masksE)

definition io_disarm_mask :: "int \<Rightarrow> u32 \<Rightarrow> 'c io \<Rightarrow> 'c io" where
  "io_disarm_mask fd m st =
     (let fc = disarm_mask m (m_fdContexts st ! nat fd)
      in \<lparr>m_fdContexts = (m_fdContexts st)[nat fd := fc],
          m_pendingEventCount = m_pendingEventCount st - of_nat (nev m),
          ep = (ep st)(fd := watched (fc_events fc))\<rparr>)"

lemma io_disarm_mask_inv:
  assumes inv: "io_inv st" and fd: "0 \<le> fd" "fd < int (length (m_fdContexts st))"
    and sub: "subset_mask m (fc_events (m_fdContexts st ! nat fd))"
  shows "io_inv (io_disarm_mask fd m st)"
proof -
  let ?fc = "m_fdContexts st ! nat fd"
  note D = io_invD [OF inv fd]
  have m: "m \<in> masks" using sub by (simp add: subset_mask_def)
  show ?thesis
    unfolding io_disarm_mask_def Let_def
  proof (rule io_inv_put [OF inv D(4) disarm_mask_ok [OF D(2)]])
    show "m_pendingEventCount st - of_nat (nev m) + of_nat (nev (fc_events ?fc)) =
        m_pendingEventCount st + of_nat (nev (fc_events (disarm_mask m ?fc)))"
      using nev_disarm_mask [OF ctx_ok_masks [OF D(2)] sub] by (simp add: disarm_mask_fields(2) [OF m D(2)])
  qed (use D fd in \<open>auto simp: disarm_mask_fields(1)\<close>)
qed

lemma subset_mask_refl: "e \<in> masks \<Longrightarrow> subset_mask e e"
  by (simp add: subset_mask_def)

lemma masks_self: "e \<in> masks \<Longrightarrow> e AND NOT e = 0"
  by (auto elim!: masksE)

lemma cancelAll_eq:
  assumes inv: "io_inv st" and fd: "0 \<le> fd" "fd < int (length (m_fdContexts st))"
  shows "cancelAll fd rt st =
    (let fc = m_fdContexts st ! nat fd in
     if fc_events fc = 0 \<or> rt \<noteq> 0 then Inr (st, False, [])
     else Inr (io_disarm_mask fd (fc_events fc) st, True, mask_posts (fc_events fc) fc))"
proof -
  let ?fc = "m_fdContexts st ! nat fd"
  note D = io_invD [OF inv fd]
  show ?thesis
  proof (cases "fc_events ?fc = 0 \<or> rt \<noteq> 0")
    case True
    then show ?thesis using fd D(1) by (auto simp: cancelAll_def Let_def epoll_ctl_def)
  next
    case False
    have m: "fc_events ?fc \<in> masks" by (rule ctx_ok_masks [OF D(2)])
    have second: "trigger_one (fc_events (fst x)) WRITE x = trigger_one (fc_events ?fc) WRITE x"
      if "trigger_one (fc_events ?fc) READ (?fc, n, []) = Inr x" for x n
      using that triggerEvent_eq [OF D(2), of READ] m
      by (auto simp: trigger_one_def mask_ops split: if_splits elim!: masksE)
    have both: "bindR (trigger_one (fc_events ?fc) READ (?fc, n, []))
        (\<lambda>x. bindR (trigger_one (fc_events (fst x)) WRITE x) k)
      = k (disarm_mask (fc_events ?fc) ?fc, n - of_nat (nev (fc_events ?fc)), mask_posts (fc_events ?fc) ?fc)" for n k
    proof -
      have "bindR (trigger_one (fc_events ?fc) READ (?fc, n, []))
          (\<lambda>x. bindR (trigger_one (fc_events (fst x)) WRITE x) k)
        = bindR (bindR (trigger_one (fc_events ?fc) READ (?fc, n, [])) (trigger_one (fc_events ?fc) WRITE)) k"
        unfolding bindR_assoc by (rule bindR_cong) (simp_all add: second)
      then show ?thesis by (simp add: trigger_mask [OF D(2) subset_mask_refl [OF m]])
    qed
    show ?thesis
      using False fd
      by (simp add: cancelAll_def D(1) Let_def both epoll_ctl_def disarm_mask_fields(2) [OF m D(2)]
          masks_self [OF m] assertR_def put_fd_def io_disarm_mask_def)
  qed
qed

section \<open>Events from the kernel\<close>

text \<open>
  What \<open>epoll_wait\<close> reported for a context, read against the events registered now: a
  plain event is still registered unless another thread took it out meanwhile.
\<close>

definition reported_ok :: "u32 \<Rightarrow> u32 \<Rightarrow> bool" where
  "reported_ok events e \<longleftrightarrow> (events AND EPOLLIN \<noteq> 0 \<longrightarrow> e AND READ \<noteq> 0) \<and> (events AND EPOLLOUT \<noteq> 0 \<longrightarrow> e AND WRITE \<noteq> 0)"

text \<open>The events to trigger: an error or a hang-up counts as every registered event.\<close>

definition ready :: "u32 \<Rightarrow> u32 \<Rightarrow> u32" where
  "ready events e =
     (if events AND (EPOLLERR OR EPOLLHUP) \<noteq> 0 then e
      else (events AND EPOLLIN) OR (events AND EPOLLOUT))"

definition real_of :: "u32 \<Rightarrow> u32 \<Rightarrow> u32" where
  "real_of events e =
     (let events1 = (if events AND (EPOLLERR OR EPOLLHUP) \<noteq> 0 then events OR ((EPOLLIN OR EPOLLOUT) AND e) else events)
      in (if events1 AND EPOLLIN \<noteq> 0 then READ else 0) OR (if events1 AND EPOLLOUT \<noteq> 0 then WRITE else 0))"

lemma and_1_cases: "(x::u32) AND 1 = 0 \<or> x AND 1 = 1"
  by (metis and_one_eq parity_cases mod2_eq_if)

lemma and_4_cases: "(x::u32) AND 4 = 0 \<or> x AND 4 = 4"
proof -
  have b4: "bit (4::u32) n \<longleftrightarrow> n = 2" for n
  proof -
    have "bit (2 ^ 2 :: u32) n \<longleftrightarrow> n = 2" unfolding bit_exp_iff by auto
    then show ?thesis by simp
  qed
  show ?thesis
  proof (cases "bit x 2")
    case True
    have "x AND 4 = 4"
      by (rule bit_word_eqI) (simp only: bit_and_iff b4, use True in blast)
    then show ?thesis by simp
  next
    case False
    have "x AND 4 = 0"
      by (rule bit_word_eqI) (simp only: bit_and_iff b4 bit_0_eq bot_apply, use False in auto)
    then show ?thesis by simp
  qed
qed

lemma real_of_ready:
  assumes "e \<in> masks" and "reported_ok events e"
  shows "real_of events e = ready events e" and "subset_mask (ready events e) e"
proof -
  have dist: "(events OR y) AND z = (events AND z) OR (y AND z)" for y z :: u32
    by (rule bit.conj_disj_distrib2)
  have e: "(5::u32) AND e = e" using assms(1) by (auto elim!: masksE)
  have bits: "events AND 1 \<in> {0, 1}" "events AND 4 \<in> {0, 4}" using and_1_cases and_4_cases by auto
  show "real_of events e = ready events e"
  proof (cases "events AND (EPOLLERR OR EPOLLHUP) = 0")
    case True
    with bits show ?thesis by (auto simp: real_of_def ready_def mask_ops)
  next
    case False
    have "(events OR e) AND 1 \<noteq> 0 \<longleftrightarrow> e AND 1 \<noteq> 0" "(events OR e) AND 4 \<noteq> 0 \<longleftrightarrow> e AND 4 \<noteq> 0"
      using assms bits unfolding dist reported_ok_def
      by (auto simp: mask_ops elim!: masksE)
    with False e assms(1) show ?thesis
      by (auto simp: real_of_def ready_def mask_ops Let_def elim!: masksE)
  qed
  show "subset_mask (ready events e) e"
  proof (cases "events AND (EPOLLERR OR EPOLLHUP) = 0")
    case True
    with bits assms show ?thesis
      by (auto simp: ready_def subset_mask_def reported_ok_def masks_def mask_ops)
  next
    case False
    with assms(1) show ?thesis by (simp add: ready_def subset_mask_def)
  qed
qed

lemma idle_event_eq:
  assumes inv: "io_inv st" and fd: "0 \<le> fd" "fd < int (length (m_fdContexts st))"
    and rep: "reported_ok events (fc_events (m_fdContexts st ! nat fd))"
  shows "idle_event fd events rt st =
    (let fc = m_fdContexts st ! nat fd; m = ready events (fc_events fc) in
     if m = 0 \<or> rt \<noteq> 0 then Inr (st, [])
     else Inr (io_disarm_mask fd m st, mask_posts m fc))"
proof -
  let ?fc = "m_fdContexts st ! nat fd"
  let ?m = "ready events (fc_events ?fc)"
  note D = io_invD [OF inv fd]
  have e: "fc_events ?fc \<in> masks" by (rule ctx_ok_masks [OF D(2)])
  note R = real_of_ready [OF e rep]
  have m: "?m \<in> masks" using R(2) by (simp add: subset_mask_def)
  have none: "fc_events ?fc AND ?m = 0 \<longleftrightarrow> ?m = 0"
    using e m R(2) by (auto simp: subset_mask_def mask_ops elim!: masksE)
  have both: "bindR (trigger_one ?m READ (?fc, n, [])) (\<lambda>x. bindR (trigger_one ?m WRITE x) k)
      = k (disarm_mask ?m ?fc, n - of_nat (nev ?m), mask_posts ?m ?fc)" for n k
    using trigger_mask [OF D(2) R(2), of n] by (simp add: bindR_assoc [symmetric])
  have "idle_event fd events rt st =
     (if fc_events ?fc AND ?m = NONE then Inr (st, [])
      else let left_events = fc_events ?fc AND NOT ?m;
               st1 = epoll_ctl (if left_events \<noteq> 0 then EPOLL_CTL_MOD else EPOLL_CTL_DEL) fd (EPOLLET OR left_events) rt st
           in if rt \<noteq> 0 then Inr (st1, [])
              else bindR (trigger_one ?m READ (?fc, m_pendingEventCount st1, [])) (\<lambda>x.
                   bindR (trigger_one ?m WRITE x) (\<lambda>(fc2, n, out).
                     Inr (put_fd fd fc2 (st1\<lparr>m_pendingEventCount := n\<rparr>), out))))"
    unfolding idle_event_def D(1) bindR_Inr R(1) [symmetric] real_of_def Let_def D(3) by (rule refl)
  note unfolded = this [unfolded none both]
  show ?thesis
  proof (cases "rt = 0")
    case True
    show ?thesis
      unfolding unfolded unfolding True
      by (simp add: epoll_ctl_left Let_def put_fd_def io_disarm_mask_def disarm_mask_fields(2) [OF m D(2)])
  next
    case False
    then show ?thesis unfolding unfolded by (simp add: epoll_ctl_def Let_def)
  qed
qed

section \<open>Runs\<close>

text \<open>
  The operations of the clients and of the poll loop, one at a time, with whatever
  \<open>epoll_ctl\<close> answers.
\<close>

inductive io_run :: "'c io \<Rightarrow> bool" where
  io_run_new: "io_run IOManager_new"
| io_run_add: "io_run st \<Longrightarrow> 0 \<le> fd \<Longrightarrow> event \<in> {READ, WRITE} \<Longrightarrow>
    addEvent fd event cb (Some s) cur cur_state rt st = Inr (st', r) \<Longrightarrow> io_run st'"
| io_run_del: "io_run st \<Longrightarrow> 0 \<le> fd \<Longrightarrow> event \<in> {READ, WRITE} \<Longrightarrow>
    delEvent fd event rt st = Inr (st', b) \<Longrightarrow> io_run st'"
| io_run_cancel: "io_run st \<Longrightarrow> 0 \<le> fd \<Longrightarrow> event \<in> {READ, WRITE} \<Longrightarrow>
    cancelEvent fd event rt st = Inr (st', b, out) \<Longrightarrow> io_run st'"
| io_run_cancelAll: "io_run st \<Longrightarrow> 0 \<le> fd \<Longrightarrow> cancelAll fd rt st = Inr (st', b, out) \<Longrightarrow> io_run st'"
| io_run_idle: "io_run st \<Longrightarrow> 0 \<le> fd \<Longrightarrow> fd < int (length (m_fdContexts st)) \<Longrightarrow>
    reported_ok events (fc_events (m_fdContexts st ! nat fd)) \<Longrightarrow>
    idle_event fd events rt st = Inr (st', out) \<Longrightarrow> io_run st'"

lemma io_disarm_length [simp]:
  "length (m_fdContexts (io_disarm fd event st)) = length (m_fdContexts st)"
  "length (m_fdContexts (io_disarm_mask fd m st)) = length (m_fdContexts st)"
  by (simp_all add: io_disarm_def io_disarm_mask_def Let_def)

lemma addEvent_grow_inv:
  assumes "io_inv st" "32 \<le> length (m_fdContexts st)" "int (length (m_fdContexts st)) \<le> fd"
  shows "io_inv (addEvent_grow fd st)" "fd < int (length (m_fdContexts (addEvent_grow fd st)))"
    "32 \<le> length (m_fdContexts (addEvent_grow fd st))"
    "length (m_fdContexts st) \<le> length (m_fdContexts (addEvent_grow fd st))"
proof -
  have g: "fd < fd * 3 div 2" using assms(2,3) by linarith
  then have le: "length (m_fdContexts st) \<le> nat (fd * 3 div 2)" using assms(3) by linarith
  show "io_inv (addEvent_grow fd st)"
    unfolding addEvent_grow_def by (rule contextResize_inv [OF assms(1) le])
  have "length (m_fdContexts (addEvent_grow fd st)) = nat (fd * 3 div 2)"
    using le by (simp add: addEvent_grow_def contextResize_def)
  then show "fd < int (length (m_fdContexts (addEvent_grow fd st)))"
    "32 \<le> length (m_fdContexts (addEvent_grow fd st))"
    "length (m_fdContexts st) \<le> length (m_fdContexts (addEvent_grow fd st))"
    using g assms(2,3) by linarith+
qed

lemma io_run_inv: "io_run st \<Longrightarrow> io_inv st \<and> 32 \<le> length (m_fdContexts st)"
proof (induction rule: io_run.induct)
  case io_run_new
  then show ?case using IOManager_new_inv by (simp add: IOManager_new_def contextResize_def)
next
  case (io_run_add st fd event cb s cur cur_state rt st' r)
  then have inv: "io_inv st" "32 \<le> length (m_fdContexts st)" by auto
  show ?case
  proof (cases "addEvent_known fd st")
    case True
    then show ?thesis
      using addEvent_register_inv [OF inv(1) io_run_add.hyps(2) _ io_run_add.hyps(3), of "Some s"] io_run_add.hyps(4) inv(2)
      by (auto simp: addEvent_def addEvent_known_def)
  next
    case False
    then have "int (length (m_fdContexts st)) \<le> fd" by (simp add: addEvent_known_def)
    note G = addEvent_grow_inv [OF inv this]
    show ?thesis
      using addEvent_register_inv [OF G(1) io_run_add.hyps(2) G(2) io_run_add.hyps(3), of "Some s"]
        io_run_add.hyps(4) False G(3) by (auto simp: addEvent_def)
  qed
next
  case (io_run_del st fd event rt st' b)
  then show ?case
    using io_disarm_inv [of st fd event] delEvent_eq [of st fd event rt]
    by (cases "fd < int (length (m_fdContexts st))") (auto simp: delEvent_def split: if_splits)
next
  case (io_run_cancel st fd event rt st' b out)
  then show ?case
    using io_disarm_inv [of st fd event] cancelEvent_eq [of st fd event rt]
    by (cases "fd < int (length (m_fdContexts st))") (auto simp: cancelEvent_def split: if_splits)
next
  case (io_run_cancelAll st fd rt st' b out)
  then show ?case
    using io_disarm_mask_inv [of st fd "fc_events (m_fdContexts st ! nat fd)"] cancelAll_eq [of st fd rt]
      subset_mask_refl [OF ctx_ok_masks [OF io_invD(2) [of st fd]]]
    by (cases "fd < int (length (m_fdContexts st))") (auto simp: cancelAll_def Let_def split: if_splits)
next
  case (io_run_idle st fd events rt st' out)
  then show ?case
    using io_disarm_mask_inv [of st fd "ready events (fc_events (m_fdContexts st ! nat fd))"]
      idle_event_eq [of st fd events rt] real_of_ready(2) [OF ctx_ok_masks [OF io_invD(2) [of st fd]], of events]
    by (auto simp: Let_def split: if_splits)
qed

end
