(* ===== verification/IOManager_Props.thy ===== *)
theory IOManager_Props
  imports IOManager_Inv
begin

text \<open>
  Properties of the I/O manager: registration and notification, when the loop stops, how
  long it sleeps, and three places where it goes wrong.
\<close>

unbundle bit_operations_syntax

section \<open>Registration and notification\<close>

lemma IOManager_new_length [simp]: "length (m_fdContexts IOManager_new) = 32"
  by (simp add: IOManager_new_def contextResize_def)



lemma arm_slot:
  "event \<in> {READ, WRITE} \<Longrightarrow> slot event (putContext event c fc) = c"
  by (auto simp: slot_def putContext_def)

lemma put_put [simp]: "putContext event c (putContext event d fc) = putContext event c fc"
  by (simp add: putContext_def)

lemma put_events: "(putContext event c fc)\<lparr>fc_events := e\<rparr> = putContext event c (fc\<lparr>fc_events := e\<rparr>)"
  by (simp add: putContext_def)

lemma put_same: "event \<in> {READ, WRITE} \<Longrightarrow> putContext event (slot event fc) fc = fc"
  by (auto simp: putContext_def slot_def)

lemma or_and_not:
  "e \<in> masks \<Longrightarrow> event \<in> {READ, WRITE} \<Longrightarrow> e AND event = 0 \<Longrightarrow> (e OR event) AND NOT event = e"
  by (auto simp: mask_ops elim!: masksE)

lemma or_and: "e \<in> masks \<Longrightarrow> event \<in> {READ, WRITE} \<Longrightarrow> (e OR event) AND event \<noteq> 0"
  by (auto simp: mask_ops elim!: masksE)

lemma addEvent_armed:
  assumes "io_inv st" and "0 \<le> fd" and "fd < int (length (m_fdContexts st))" and "event \<in> {READ, WRITE}"
    and "addEvent fd event cb (Some s) cur cur_state 0 st = Inr (st1, r)"
  defines "fc1 \<equiv> m_fdContexts st1 ! nat fd"
  shows "r = 0" and "io_inv st1" and "fd < int (length (m_fdContexts st1))"
    and "fc_events fc1 AND event \<noteq> 0" and "io_disarm fd event st1 = st"
    and "slot_post (slot event fc1) = (s, if cb = None then Fib (Some cur) else Fun cb)"
proof -
  let ?fc = "m_fdContexts st ! nat fd"
  note D = io_invD [OF assms(1-3)]
  note m = ctx_ok_masks [OF D(2)]
  have reg: "addEvent_register fd event cb (Some s) cur cur_state 0 st = Inr (st1, r)"
    using assms(3,5) by (simp add: addEvent_def addEvent_known_def)
  then have free: "fc_events ?fc AND event = 0" and state: "cb = None \<longrightarrow> cur_state = EXEC"
    by (auto simp: addEvent_register_def D(1) bindR_eq_Inr assertR_def Let_def split: if_splits)
  let ?fc1 = "putContext event (arm (Some s) cur cb) (?fc\<lparr>fc_events := fc_events ?fc OR event\<rparr>)"
  have st1: "st1 = \<lparr>m_fdContexts = (m_fdContexts st)[nat fd := ?fc1],
      m_pendingEventCount = m_pendingEventCount st + 1,
      ep = (ep st)(fd \<mapsto> EPOLLET OR (fc_events ?fc OR event))\<rparr>" and r: "r = 0"
    using reg by (auto simp: addEvent_register_eq [OF assms(1) assms(2-4) free state] Let_def)
  have inv1: "io_inv st1" and len1: "fd < int (length (m_fdContexts st1))"
    using addEvent_register_inv [OF assms(1) assms(2-4) _ reg] assms(3) by auto
  have at: "m_fdContexts st1 ! nat fd = ?fc1" using D(4) by (simp add: st1)
  have slot: "slot event ?fc = resetContext" using ctx_ok_slot [OF D(2) assms(4)] free by (simp add: slot_ok_def)
  have "disarm event ?fc1 = putContext event resetContext ?fc"
    by (simp add: disarm_def put_events or_and_not [OF m assms(4) free])
  then have "disarm event ?fc1 = ?fc" using put_same [OF assms(4), of ?fc] slot by simp
  moreover have "(ep st)(fd := watched (fc_events ?fc)) = ep st" using D(5) by auto
  ultimately show "io_disarm fd event st1 = st"
    unfolding io_disarm_def Let_def at by (simp add: st1)
  show "slot_post (slot event fc1) = (s, if cb = None then Fib (Some cur) else Fun cb)"
    unfolding fc1_def at by (simp add: arm_slot [OF assms(4)] slot_post_def arm_def)
  show "fc_events fc1 AND event \<noteq> 0" unfolding fc1_def at using or_and [OF m assms(4)] by simp
  show "r = 0" "io_inv st1" "fd < int (length (m_fdContexts st1))" by (fact r inv1 len1)+
qed

text \<open>
  addEvent is undone by cancelEvent and by delEvent: after a successful addEvent on a
  known descriptor, a successful cancelEvent posts exactly the callback (or, without one,
  the calling fiber) to the scheduler that addEvent recorded, delEvent posts nothing, and
  both leave the manager exactly as it was before.
\<close>

theorem addEvent_cancelEvent_roundtrip:
  assumes "io_run st" and "0 \<le> fd" and "fd < int (length (m_fdContexts st))" and "event \<in> {READ, WRITE}"
    and "addEvent fd event cb (Some s) cur cur_state 0 st = Inr (st1, r)"
  shows "r = 0 \<and> cancelEvent fd event 0 st1 = Inr (st, True, [(s, if cb = None then Fib (Some cur) else Fun cb)])
    \<and> delEvent fd event 0 st1 = Inr (st, True)"
proof -
  have inv: "io_inv st" using io_run_inv [OF assms(1)] by simp
  note A = addEvent_armed [OF inv assms(2-5)]
  show ?thesis
    using A(1,4-6) cancelEvent_eq [OF A(2) assms(2) A(3) assms(4)] delEvent_eq [OF A(2) assms(2) A(3) assms(4)]
    by simp
qed

lemma addEvent_cancelEvent_roundtrip_witness:
  "\<exists>st1. addEvent 5 READ None (Some 7) 20 EXEC 0 (IOManager_new :: nat io) = Inr (st1, 0)
    \<and> cancelEvent 5 READ 0 st1 = Inr (IOManager_new, True, [(7, Fib (Some 20))])"
proof -
  have "\<exists>st1 r. addEvent 5 READ None (Some 7) 20 EXEC 0 (IOManager_new :: nat io) = Inr (st1, r)"
    by (simp add: addEvent_def addEvent_known_def addEvent_register_def fd_at_def IOManager_new_def
        contextResize_def assertR_def Let_def getContext_def FdContext_new_def resetContext_def)
  then obtain st1 r where "addEvent 5 READ None (Some 7) 20 EXEC 0 (IOManager_new :: nat io) = Inr (st1, r)" by blast
  from addEvent_cancelEvent_roundtrip [OF io_run_new _ _ _ this] this show ?thesis
    by simp
qed

text \<open>
  The poll loop notifies the waiters of what the kernel reported and nobody else: for a
  report of registered events (an error or hang-up standing for all registered ones) whose
  re-arm succeeds, it posts the reader's work if reading is ready and the writer's if writing
  is, in that order, deregisters exactly those events, counts them down, and leaves the
  kernel watching the rest.
\<close>

theorem idle_event_wakes_waiters:
  assumes "io_run st" and "0 \<le> fd" and "fd < int (length (m_fdContexts st))"
    and "reported_ok events (fc_events (m_fdContexts st ! nat fd))"
  defines "fc \<equiv> m_fdContexts st ! nat fd"
  defines "m \<equiv> ready events (fc_events fc)"
  shows "\<exists>st'. idle_event fd events 0 st = Inr (st',
      (if m AND READ \<noteq> 0 then [slot_post (fc_read fc)] else [])
      @ (if m AND WRITE \<noteq> 0 then [slot_post (fc_write fc)] else []))
    \<and> fc_events (m_fdContexts st' ! nat fd) = fc_events fc AND NOT m
    \<and> m_pendingEventCount st' = m_pendingEventCount st - of_nat (nev m)
    \<and> ep st' = (ep st)(fd := watched (fc_events fc AND NOT m))
    \<and> (\<forall>i. i \<noteq> nat fd \<longrightarrow> m_fdContexts st' ! i = m_fdContexts st ! i)"
proof -
  have inv: "io_inv st" using io_run_inv [OF assms(1)] by simp
  note D = io_invD [OF inv assms(2,3)]
  have sub: "subset_mask m (fc_events fc)"
    unfolding m_def fc_def by (rule real_of_ready(2) [OF ctx_ok_masks [OF D(2)] assms(4)])
  then have mm: "m \<in> masks" by (simp add: subset_mask_def)
  show ?thesis
  proof (cases "m = 0")
    case True
    have "fc_events fc AND NOT 0 = fc_events fc" by simp
    moreover have "(ep st)(fd := watched (fc_events fc)) = ep st" using D(5) by (auto simp: fc_def)
    ultimately show ?thesis
      using True idle_event_eq [OF inv assms(2-4), of 0] by (simp add: m_def fc_def Let_def)
  next
    case False
    then have "idle_event fd events 0 st = Inr (io_disarm_mask fd m st, mask_posts m fc)"
      using idle_event_eq [OF inv assms(2-4), of 0] by (simp add: m_def fc_def Let_def)
    then show ?thesis
      using D(4) disarm_mask_fields(2) [OF mm D(2)]
      by (auto simp: io_disarm_mask_def Let_def mask_posts_def fc_def [symmetric])
  qed
qed

lemma idle_event_wakes_waiters_witness:
  "\<exists>st1 st2. addEvent 5 READ (Some 3) (Some 7) 20 EXEC 0 (IOManager_new :: nat io) = Inr (st1, 0)
    \<and> idle_event 5 EPOLLIN 0 st1 = Inr (st2, [(7, Fun (Some 3))])"
proof -
  let ?add = "addEvent 5 READ (Some 3) (Some 7) 20 EXEC 0 (IOManager_new :: nat io)"
  obtain st1 where add: "?add = Inr (st1, 0)"
    and f: "m_fdContexts st1 ! 5 = \<lparr>fc_read = \<lparr>ec_scheduler = Some 7, ec_fiber = None, ec_cb = Some 3\<rparr>,
        fc_write = resetContext, fc_fd = 5, fc_events = 1\<rparr>" "length (m_fdContexts st1) = 32"
    by (simp add: addEvent_def addEvent_known_def addEvent_register_def fd_at_def IOManager_new_def putContext_def
        contextResize_def assertR_def Let_def getContext_def FdContext_new_def resetContext_def put_fd_def epoll_ctl_def)
  have "io_run st1" by (rule io_run_add [OF io_run_new _ _ add]) simp_all
  from idle_event_wakes_waiters [OF this, of 5 EPOLLIN] add f show ?thesis
    by (auto simp: reported_ok_def ready_def slot_post_def)
qed

section \<open>Stopping and sleeping\<close>

lemma sum_nev_zero: "sum_list (map (nev \<circ> fc_events) cs) = 0 \<longleftrightarrow> (\<forall>fc \<in> set cs. nev (fc_events fc) = 0)"
  by (induction cs) auto

text \<open>
  The poll loop of a worker ends its turn with a break exactly when stop was requested,
  the task queue is empty, no worker has a task in hand, no descriptor has a registered event
  and getTimerNext reports no timer (which it does whenever there is none).
\<close>

theorem idle_breaks_exactly_when_done:
  assumes "io_run (im_io m)" and "sum_list (map (nev \<circ> fc_events) (m_fdContexts (im_io m))) < 2 ^ 64"
  shows "(idle_round now later nt evs m = Inr None \<longleftrightarrow>
      m_stopping (im_sched m) \<and> m_fibers (im_sched m) = [] \<and> m_activeThreadCount (im_sched m) = 0
      \<and> (\<forall>fc \<in> set (m_fdContexts (im_io m)). fc_events fc = 0)
      \<and> snd (getTimerNext now (im_timers m)) = - 1)
    \<and> (\<not> hasTimer (im_timers m) \<longrightarrow> snd (getTimerNext now (im_timers m)) = - 1)"
proof -
  have inv: "io_inv (im_io m)" using io_run_inv [OF assms(1)] by simp
  have n: "m_pendingEventCount (im_io m) = of_nat (sum_list (map (nev \<circ> fc_events) (m_fdContexts (im_io m))))"
    and ok: "\<forall>fc \<in> set (m_fdContexts (im_io m)). ctx_ok fc" using inv by (simp_all add: io_inv_def)
  have "m_pendingEventCount (im_io m) = 0 \<longleftrightarrow> sum_list (map (nev \<circ> fc_events) (m_fdContexts (im_io m))) = 0"
    unfolding n by (rule of_nat_eq_0_small [OF assms(2)])
  moreover have "nev (fc_events fc) = 0 \<longleftrightarrow> fc_events fc = 0" if "fc \<in> set (m_fdContexts (im_io m))" for fc
    using ctx_ok_masks [OF bspec [OF ok that]] by (auto simp: nev_def mask_ops elim!: masksE)
  ultimately have p: "m_pendingEventCount (im_io m) = 0 \<longleftrightarrow> (\<forall>fc \<in> set (m_fdContexts (im_io m)). fc_events fc = 0)"
    unfolding sum_nev_zero by auto
  have "idle_round now later nt evs m = Inr None \<longleftrightarrow> snd (snd (IOManager_stopping now m))"
    by (auto simp: idle_round_def Let_def bindR_eq_Inr split: prod.splits if_splits)
  then show ?thesis
    by (auto simp: IOManager_stopping_def stopping_def p getTimerNext_def hasTimer_def split: prod.splits)
qed

lemma idle_breaks_exactly_when_done_witness:
  "idle_round 0 0 9 [] \<lparr>im_sched = Scheduler_new 1 False 0 0, im_timers = TimerManager_new 0,
      im_io = IOManager_new :: char callback io\<rparr> = Inr None"
proof -
  let ?m = "\<lparr>im_sched = Scheduler_new 1 False 0 0, im_timers = TimerManager_new 0,
      im_io = IOManager_new :: char callback io\<rparr>"
  have "fc_events fc = 0" if "fc \<in> set (m_fdContexts (im_io ?m))" for fc
    using that by (auto simp: IOManager_new_def contextResize_def)
  then have "sum_list (map (nev \<circ> fc_events) (m_fdContexts (im_io ?m))) = 0"
    unfolding sum_nev_zero by simp
  then have "sum_list (map (nev \<circ> fc_events) (m_fdContexts (im_io ?m))) < 2 ^ 64"
    by (simp only:) simp
  moreover have "io_run (im_io ?m)" by (simp add: io_run_new)
  moreover note \<open>\<And>fc. fc \<in> set (m_fdContexts (im_io ?m)) \<Longrightarrow> fc_events fc = 0\<close>
  ultimately show ?thesis
    using idle_breaks_exactly_when_done [of ?m 0 0 9 "[]"]
    by (simp add: Scheduler_new_def getTimerNext_def TimerManager_new_def)
qed

text \<open>
  The sleep never overshoots the next timer or three seconds, as long as the next timer
  is less than 2^31 ms away or there is none: epoll_wait gets the smaller of the delay and
  3000 ms.
\<close>

theorem idle_timeout_bounded:
  assumes "next_timeout < 2 ^ 31 \<or> next_timeout = - 1"
  shows "idle_timeout next_timeout = (if next_timeout = - 1 then 3000 else min 3000 (uint next_timeout))"
proof (cases "next_timeout = - 1")
  case False
  with assms have lt: "uint next_timeout < 2 ^ 31" by (simp add: word_less_def)
  then have "sint (ucast next_timeout :: u32) = uint next_timeout"
    using order.trans [OF _ uint_ge_0, of "- 2147483648" next_timeout]
    by (simp add: sint_uint unsigned_ucast_eq take_bit_int_eq_self signed_take_bit_int_eq_self)
  with False show ?thesis by (simp add: idle_timeout_def min_def)
qed (simp add: idle_timeout_def)

lemma idle_timeout_bounded_witness: "idle_timeout 5000 = 3000 \<and> idle_timeout 7 = 7"
  using idle_timeout_bounded [of 5000] idle_timeout_bounded [of 7] by simp

section \<open>Where it goes wrong\<close>

text \<open>
  A timer between 2^31 and 2^32 ms away makes the cast to int negative: the three-second
  cap is skipped and epoll_wait gets a negative timeout, which blocks without limit.
\<close>

theorem idle_timeout_negative:
  assumes "2 ^ 31 \<le> next_timeout" and "next_timeout < 2 ^ 32"
  shows "idle_timeout next_timeout < 0"
proof -
  have b: "2 ^ 31 \<le> uint next_timeout" "uint next_timeout < 2 ^ 32"
    using assms by (simp_all add: word_less_def word_le_def)
  then have "uint (ucast next_timeout :: u32) = uint next_timeout"
    by (simp add: unsigned_ucast_eq take_bit_int_eq_self)
  then have neg: "sint (ucast next_timeout :: u32) < 0"
  proof (rule contrapos_pp, goal_cases)
    case 1
    then have "take_bit 32 (sint (ucast next_timeout :: u32)) = sint (ucast next_timeout :: u32)"
      using sint_lt [of "ucast next_timeout :: u32"] by (intro take_bit_int_eq_self) simp_all
    with uint_sint [of "ucast next_timeout :: u32"] sint_lt [of "ucast next_timeout :: u32"] b(1)
    show ?case by simp
  qed
  have "next_timeout \<noteq> - 1" using assms(2) by auto
  with neg show ?thesis by (simp add: idle_timeout_def)
qed

lemma idle_timeout_negative_witness: "idle_timeout 3000000000 < 0"
  using idle_timeout_negative [of 3000000000] by simp

text \<open>
  The table can shrink under a waiting addEvent: the size is tested under the read lock
  only, so a thread that found its descriptor missing resizes the table to its own size even
  if another thread has grown it further in between, and the contexts above are gone while
  the kernel still watches their descriptors.
\<close>

theorem context_table_shrinks:
  assumes "32 \<le> length (m_fdContexts st)" and "\<not> addEvent_known fd st"
    and "fd * 3 div 2 \<le> other" and "other * 3 div 2 > other"
  shows "addEvent_known other (addEvent_grow other st)
    \<and> \<not> addEvent_known other (addEvent_grow fd (addEvent_grow other st))
    \<and> ep (addEvent_grow fd (addEvent_grow other st)) = ep st"
proof -
  have fd: "32 \<le> fd" "int (length (m_fdContexts st)) \<le> fd" using assms(1,2) by (auto simp: addEvent_known_def)
  have len: "length (m_fdContexts (contextResize n s)) = n" for n and s :: "'a io"
    by (simp add: contextResize_def)
  show ?thesis
    using assms(3,4) fd unfolding addEvent_grow_def addEvent_known_def len
    by (auto simp: contextResize_def)
qed

lemma context_table_shrinks_witness:
  "\<not> addEvent_known 100 (addEvent_grow 40 (addEvent_grow 100 (IOManager_new :: nat io)))"
  using context_table_shrinks [of "IOManager_new :: nat io" 40 100] by (simp add: addEvent_known_def)

text \<open>
  The event loop only tests whether some of the reported events is still registered: if
  the kernel reported both and another thread removed the writer before the lock was taken,
  the loop triggers the writer all the same and fails the assertion in triggerEvent.
\<close>

theorem idle_event_race:
  assumes "io_run st" and "0 \<le> fd" and "fd < int (length (m_fdContexts st))"
    and "fc_events (m_fdContexts st ! nat fd) = READ OR WRITE"
  shows "\<exists>st1. delEvent fd WRITE 0 st = Inr (st1, True)
    \<and> idle_event fd (EPOLLIN OR EPOLLOUT) 0 st1 = Inl AssertFailed"
proof -
  have inv: "io_inv st" using io_run_inv [OF assms(1)] by simp
  note D = io_invD [OF inv assms(2,3)]
  let ?st = "io_disarm fd WRITE st"
  obtain fc where e: "fc_events fc = READ" and at: "fd_at fd ?st = Inr fc" and ok: "ctx_ok fc"
  proof
    let ?fc = "disarm WRITE (m_fdContexts st ! nat fd)"
    show "fc_events ?fc = READ" using assms(4) by simp
    show "fd_at fd ?st = Inr ?fc" using D(4) assms(2) by (simp add: fd_at_def io_disarm_def Let_def)
    show "ctx_ok ?fc" by (rule disarm_ok [OF D(2)]) simp
  qed
  have "triggerEvent READ fc = Inr (disarm READ fc, [slot_post (slot READ fc)])"
    by (rule triggerEvent_eq [OF ok]) (simp_all add: e)
  moreover have "triggerEvent WRITE (disarm READ fc) = Inl AssertFailed"
    by (simp add: triggerEvent_def e)
  ultimately have "idle_event fd (EPOLLIN OR EPOLLOUT) 0 ?st = Inl AssertFailed"
    by (simp add: idle_event_def at e Let_def trigger_one_def)
  moreover have "delEvent fd WRITE 0 st = Inr (?st, True)"
    using delEvent_eq [OF inv assms(2,3), of WRITE 0] assms(4) by simp
  ultimately show ?thesis by blast
qed

lemma idle_event_race_witness:
  "\<exists>st st1. io_run (st :: nat io) \<and> delEvent 5 WRITE 0 st = Inr (st1, True)
    \<and> idle_event 5 (EPOLLIN OR EPOLLOUT) 0 st1 = Inl AssertFailed"
proof -
  obtain a where a: "addEvent 5 READ (Some 3) (Some 7) 20 EXEC 0 (IOManager_new :: nat io) = Inr (a, 0)"
    and fa: "m_fdContexts a ! 5 = \<lparr>fc_read = \<lparr>ec_scheduler = Some 7, ec_fiber = None, ec_cb = Some 3\<rparr>,
        fc_write = resetContext, fc_fd = 5, fc_events = 1\<rparr>" "length (m_fdContexts a) = 32"
    by (simp add: addEvent_def addEvent_known_def addEvent_register_def fd_at_def IOManager_new_def putContext_def
        contextResize_def assertR_def Let_def getContext_def FdContext_new_def resetContext_def put_fd_def epoll_ctl_def)
  obtain b where b: "addEvent 5 WRITE (Some 4) (Some 7) 20 EXEC 0 a = Inr (b, 0)"
    and fb: "fc_events (m_fdContexts b ! 5) = 5" "length (m_fdContexts b) = 32"
    using fa by (simp add: addEvent_def addEvent_known_def addEvent_register_def fd_at_def putContext_def
        assertR_def Let_def getContext_def resetContext_def put_fd_def epoll_ctl_def)
  have "io_run b" by (rule io_run_add [OF io_run_add [OF io_run_new _ _ a] _ _ b]) simp_all
  with idle_event_race [of b 5] fb show ?thesis by auto
qed

end
