(* ===== verification/FdManager.thy ===== *)
theory FdManager
  imports Prelude
begin

text \<open>
  The table of file descriptors the hooks manage (fd_manager.h, fd_manager.cpp). What
  \<open>fstat\<close> says of a descriptor is an argument; the kernel's status flags of the
  descriptors are the map \<open>flags\<close>, which the real \<open>fcntl\<close> reads and writes.
\<close>

unbundle bit_operations_syntax

section \<open>State\<close>

abbreviation O_NONBLOCK :: u32 where "O_NONBLOCK \<equiv> 2048"
abbreviation SO_RCVTIMEO :: int where "SO_RCVTIMEO \<equiv> 20"
abbreviation SO_SNDTIMEO :: int where "SO_SNDTIMEO \<equiv> 21"

record fd_ctx =
  m_isInit :: bool
  m_isSocket :: bool
  m_sysNonblock :: bool
  m_userNonblock :: bool
  m_isClosed :: bool
  m_fd :: int
  m_recvTimeout :: u64
  m_sendTimeout :: u64

type_synonym kflags = "int \<Rightarrow> u32"

record fd_mgr =
  m_datas :: "fd_ctx option list"

section \<open>FdCtx\<close>

text \<open>\<open>fstat fd\<close> is \<open>None\<close> on an error, else whether the descriptor is a socket.\<close>

definition FdCtx_init :: "(int \<Rightarrow> bool option) \<Rightarrow> fd_ctx \<Rightarrow> kflags \<Rightarrow> fd_ctx \<times> kflags \<times> bool" where
  "FdCtx_init fstat c k =
     (if m_isInit c then (c, k, True)
      else
        let c1 = c\<lparr>m_recvTimeout := - 1, m_sendTimeout := - 1,
                   m_isInit := (fstat (m_fd c) \<noteq> None), m_isSocket := (fstat (m_fd c) = Some True)\<rparr>;
            k1 = (if m_isSocket c1 \<and> k (m_fd c) AND O_NONBLOCK = 0
                  then k(m_fd c := k (m_fd c) OR O_NONBLOCK) else k);
            c2 = c1\<lparr>m_sysNonblock := m_isSocket c1, m_userNonblock := False, m_isClosed := False\<rparr>
        in (c2, k1, m_isInit c2))"

definition FdCtx_new :: "(int \<Rightarrow> bool option) \<Rightarrow> int \<Rightarrow> kflags \<Rightarrow> fd_ctx \<times> kflags" where
  "FdCtx_new fstat fd k =
     (case FdCtx_init fstat
        \<lparr>m_isInit = False, m_isSocket = False, m_sysNonblock = False, m_userNonblock = False,
         m_isClosed = False, m_fd = fd, m_recvTimeout = - 1, m_sendTimeout = - 1\<rparr> k of
        (c, k1, _) \<Rightarrow> (c, k1))"

definition isClose :: "fd_ctx \<Rightarrow> bool" where "isClose c = m_isClosed c"

definition isSocket :: "fd_ctx \<Rightarrow> bool" where "isSocket c = m_isSocket c"

definition getUserNonblock :: "fd_ctx \<Rightarrow> bool" where "getUserNonblock c = m_userNonblock c"

definition setUserNonblock :: "bool \<Rightarrow> fd_ctx \<Rightarrow> fd_ctx" where
  "setUserNonblock v c = c\<lparr>m_userNonblock := v\<rparr>"

definition getSysNonblock :: "fd_ctx \<Rightarrow> bool" where "getSysNonblock c = m_sysNonblock c"

definition setSysNonblock :: "bool \<Rightarrow> fd_ctx \<Rightarrow> fd_ctx" where
  "setSysNonblock v c = c\<lparr>m_sysNonblock := v\<rparr>"

definition setTimeout :: "int \<Rightarrow> u64 \<Rightarrow> fd_ctx \<Rightarrow> fd_ctx" where
  "setTimeout type v c =
     (if type = SO_RCVTIMEO then c\<lparr>m_recvTimeout := v\<rparr> else c\<lparr>m_sendTimeout := v\<rparr>)"

definition getTimeout :: "int \<Rightarrow> fd_ctx \<Rightarrow> u64" where
  "getTimeout type c = (if type = SO_RCVTIMEO then m_recvTimeout c else m_sendTimeout c)"

section \<open>FdManager\<close>

definition FdManager_new :: fd_mgr where
  "FdManager_new = \<lparr>m_datas = replicate 64 None\<rparr>"

definition data_at :: "int \<Rightarrow> fd_mgr \<Rightarrow> fd_ctx option res" where
  "data_at fd m =
     (if 0 \<le> fd \<and> nat fd < length (m_datas m) then Inr (m_datas m ! nat fd) else Inl BadAccess)"

text \<open>
  \<open>get\<close>: first the lookup under the read lock, which answers \<open>Some\<close> when it
  returns; then the creation under the write lock, which does not look again.
\<close>

definition get_lookup :: "int \<Rightarrow> bool \<Rightarrow> fd_mgr \<Rightarrow> fd_ctx option option res" where
  "get_lookup fd auto_create m =
     (if int (length (m_datas m)) \<le> fd then Inr (if auto_create then None else Some None)
      else mapR (\<lambda>d. if d \<noteq> None \<or> \<not> auto_create then Some d else None) (data_at fd m))"

definition get_create ::
  "(int \<Rightarrow> bool option) \<Rightarrow> int \<Rightarrow> fd_mgr \<Rightarrow> kflags \<Rightarrow> (fd_ctx \<times> fd_mgr \<times> kflags) res" where
  "get_create fstat fd m k =
     (case FdCtx_new fstat fd k of
        (c, k1) \<Rightarrow>
          (let ds = (if int (length (m_datas m)) \<le> fd
                     then m_datas m @ replicate (nat (fd * 3 div 2) - length (m_datas m)) None
                     else m_datas m)
           in if 0 \<le> fd \<and> nat fd < length ds
              then Inr (c, m\<lparr>m_datas := ds[nat fd := Some c]\<rparr>, k1)
              else Inl BadAccess))"

definition FdManager_get ::
  "(int \<Rightarrow> bool option) \<Rightarrow> int \<Rightarrow> bool \<Rightarrow> fd_mgr \<Rightarrow> kflags \<Rightarrow> (fd_ctx option \<times> fd_mgr \<times> kflags) res" where
  "FdManager_get fstat fd auto_create m k =
     (if fd = -1 then Inr (None, m, k)
      else bindR (get_lookup fd auto_create m) (\<lambda>found.
        case found of
          Some d \<Rightarrow> Inr (d, m, k)
        | None \<Rightarrow> mapR (\<lambda>(c, m1, k1). (Some c, m1, k1)) (get_create fstat fd m k)))"

definition FdManager_del :: "int \<Rightarrow> fd_mgr \<Rightarrow> fd_mgr res" where
  "FdManager_del fd m =
     (if int (length (m_datas m)) \<le> fd then Inr m
      else if fd < 0 then Inl BadAccess
      else Inr (m\<lparr>m_datas := (m_datas m)[nat fd := None]\<rparr>))"

text \<open>Writing through the shared pointer the table holds.\<close>

definition put_data :: "int \<Rightarrow> fd_ctx \<Rightarrow> fd_mgr \<Rightarrow> fd_mgr" where
  "put_data fd c m = m\<lparr>m_datas := (m_datas m)[nat fd := Some c]\<rparr>"

section \<open>Lemmas\<close>

definition fdm_lookup :: "int \<Rightarrow> fd_mgr \<Rightarrow> fd_ctx option" where
  "fdm_lookup fd m = (if 0 \<le> fd \<and> nat fd < length (m_datas m) then m_datas m ! nat fd else None)"

text \<open>
  The invariant of the table: an entry describes its own descriptor, its socket has been
  switched to non-blocking, and nothing is ever marked closed.
\<close>

definition fdm_inv :: "fd_mgr \<Rightarrow> bool" where
  "fdm_inv m \<longleftrightarrow> 64 \<le> length (m_datas m)
     \<and> (\<forall>fd c. fdm_lookup fd m = Some c \<longrightarrow>
          m_fd c = fd \<and> m_sysNonblock c = m_isSocket c \<and> \<not> m_isClosed c)"

lemma fdm_inv_new: "fdm_inv FdManager_new"
  by (auto simp: fdm_inv_def FdManager_new_def fdm_lookup_def)

lemma FdManager_get_known:
  "0 \<le> fd \<Longrightarrow> FdManager_get fstat fd False m k = Inr (fdm_lookup fd m, m, k)"
  by (auto simp: FdManager_get_def get_lookup_def fdm_lookup_def data_at_def)

lemma get_lookup_eq:
  "0 \<le> fd \<Longrightarrow> get_lookup fd ac m =
     Inr (if fdm_lookup fd m \<noteq> None \<or> \<not> ac then Some (fdm_lookup fd m) else None)"
  by (cases "int (length (m_datas m)) \<le> fd") (auto simp: get_lookup_def fdm_lookup_def data_at_def)

lemma FdCtx_new_fields:
  "m_fd (fst (FdCtx_new fstat fd k)) = fd" "m_isSocket (fst (FdCtx_new fstat fd k)) \<longleftrightarrow> fstat fd = Some True"
  "m_sysNonblock (fst (FdCtx_new fstat fd k)) = m_isSocket (fst (FdCtx_new fstat fd k))"
  "\<not> m_isClosed (fst (FdCtx_new fstat fd k))" "\<not> m_userNonblock (fst (FdCtx_new fstat fd k))"
  "m_recvTimeout (fst (FdCtx_new fstat fd k)) = - 1" "m_sendTimeout (fst (FdCtx_new fstat fd k)) = - 1"
  by (simp_all add: FdCtx_new_def FdCtx_init_def Let_def)

lemma lookup_grown: "fdm_lookup fd (m\<lparr>m_datas := m_datas m @ replicate n None\<rparr>) = fdm_lookup fd m"
  by (auto simp: fdm_lookup_def nth_append)

lemma lookup_update:
  "nat fd < length ds \<Longrightarrow> 0 \<le> fd \<Longrightarrow>
   fdm_lookup fd' (m\<lparr>m_datas := ds[nat fd := Some c]\<rparr>)
     = (if fd' = fd then Some c else fdm_lookup fd' (m\<lparr>m_datas := ds\<rparr>))"
  by (auto simp: fdm_lookup_def nth_list_update)

lemma get_create_eq:
  assumes "0 \<le> fd" and "64 \<le> length (m_datas m)"
  shows "\<exists>m'. get_create fstat fd m k = Inr (fst (FdCtx_new fstat fd k), m', snd (FdCtx_new fstat fd k))
    \<and> length (m_datas m) \<le> length (m_datas m')
    \<and> (\<forall>fd'. fdm_lookup fd' m' = (if fd' = fd then Some (fst (FdCtx_new fstat fd k)) else fdm_lookup fd' m))"
proof -
  obtain c k1 where new: "FdCtx_new fstat fd k = (c, k1)" by force
  let ?ds = "if int (length (m_datas m)) \<le> fd
      then m_datas m @ replicate (nat (fd * 3 div 2) - length (m_datas m)) None else m_datas m"
  have lt: "nat fd < length ?ds"
  proof (cases "int (length (m_datas m)) \<le> fd")
    case True
    then have "fd < fd * 3 div 2" using assms by linarith
    then show ?thesis using True assms by simp
  qed (use assms in auto)
  have look: "fdm_lookup fd' (m\<lparr>m_datas := ?ds[nat fd := Some c]\<rparr>) = (if fd' = fd then Some c else fdm_lookup fd' m)" for fd'
    unfolding lookup_update [OF lt assms(1)]
    using lookup_grown [of fd' m "nat (fd * 3 div 2) - length (m_datas m)"] by auto
  show ?thesis
    using lt assms(1) look by (intro exI [of _ "m\<lparr>m_datas := ?ds[nat fd := Some c]\<rparr>"])
      (auto simp: get_create_def new Let_def)
qed

lemma fdm_inv_create:
  assumes "fdm_inv m" and "0 \<le> fd" and "get_create fstat fd m k = Inr (c, m', k')"
  shows "fdm_inv m'"
  using get_create_eq [OF assms(2), of m fstat k] assms FdCtx_new_fields [of fstat fd k]
  by (fastforce simp: fdm_inv_def)

lemma FdManager_get_inv:
  assumes "fdm_inv m" and "0 \<le> fd" and "FdManager_get fstat fd ac m k = Inr (r, m', k')"
  shows "fdm_inv m'" and "ac \<longrightarrow> r \<noteq> None" and "fdm_lookup fd m' = r"
proof -
  obtain d where d: "get_lookup fd ac m = Inr d"
    and d': "d = (if fdm_lookup fd m \<noteq> None \<or> \<not> ac then Some (fdm_lookup fd m) else None)"
    using get_lookup_eq [OF assms(2)] by blast
  have "fdm_inv m' \<and> (ac \<longrightarrow> r \<noteq> None) \<and> fdm_lookup fd m' = r"
  proof (cases d)
    case None
    obtain c m1 k1 where g: "get_create fstat fd m k = Inr (c, m1, k1)" "fdm_lookup fd m1 = Some c"
      using get_create_eq [OF assms(2), of m fstat k] assms(1) by (auto simp: fdm_inv_def)
    with None assms(2,3) d have "m' = m1" "r = Some c" by (auto simp: FdManager_get_def)
    with g fdm_inv_create [OF assms(1,2) g(1)] show ?thesis by simp
  next
    case (Some x)
    with assms d d' show ?thesis by (auto simp: FdManager_get_def split: if_splits)
  qed
  then show "fdm_inv m'" "ac \<longrightarrow> r \<noteq> None" "fdm_lookup fd m' = r" by auto
qed

lemma fdm_lookup_del:
  "0 \<le> fd \<Longrightarrow> FdManager_del fd m = Inr m' \<Longrightarrow> fdm_lookup fd' m' = (if fd' = fd then None else fdm_lookup fd' m)"
  by (auto simp: FdManager_del_def fdm_lookup_def nth_list_update split: if_splits)

lemma fdm_lookup_put:
  "fdm_lookup fd m \<noteq> None \<Longrightarrow> fdm_lookup fd' (put_data fd c m) = (if fd' = fd then Some c else fdm_lookup fd' m)"
  by (auto simp: put_data_def fdm_lookup_def nth_list_update split: if_splits)

end
