(* ===== verification/Hook.thy ===== *)
theory Hook
  imports IOManager_Props FdManager "HOL-Library.Signed_Division"
begin

text \<open>
  The hooked system calls (hook.cpp). A call to the original function is an argument (its
  result), as are the results of \<open>epoll_ctl\<close>, the clock, the addresses of new
  objects and the calling fiber; the state is the I/O manager, the descriptor table, the
  kernel's status flags and the live \<open>timer_info\<close> objects with their \<open>cancelled\<close>
  field. \<open>do_io\<close> and \<open>connect_with_timeout\<close> suspend the fiber in the middle and are
  split there.
\<close>

unbundle bit_operations_syntax

section \<open>State\<close>

abbreviation EINTR :: int where "EINTR \<equiv> 4"
abbreviation EBADF :: int where "EBADF \<equiv> 9"
abbreviation EAGAIN :: int where "EAGAIN \<equiv> 11"
abbreviation ETIMEDOUT :: int where "ETIMEDOUT \<equiv> 110"
abbreviation EINPROGRESS :: int where "EINPROGRESS \<equiv> 115"

text \<open>A result of a system call: a value other than -1, or -1 with \<open>errno\<close>.\<close>

datatype sysres = Ret int | Fail int

text \<open>The callbacks the hooks give to timers: the timeout of a call, and a sleeper's wake-up.\<close>

datatype hook_cb = CancelIo nat int u32 | Wake nat

record hooks =
  hk_im :: "hook_cb iomanager"
  hk_fdm :: fd_mgr
  hk_flags :: kflags
  hk_tinfo :: "nat \<rightharpoonup> int"

abbreviation hk_timers :: "hooks \<Rightarrow> hook_cb timer_mgr" where "hk_timers h \<equiv> im_timers (hk_im h)"
abbreviation hk_io :: "hooks \<Rightarrow> hook_cb callback io" where "hk_io h \<equiv> im_io (hk_im h)"

abbreviation set_timers :: "hook_cb timer_mgr \<Rightarrow> hooks \<Rightarrow> hooks" where
  "set_timers ts h \<equiv> h\<lparr>hk_im := (hk_im h)\<lparr>im_timers := ts\<rparr>\<rparr>"
abbreviation set_io :: "hook_cb callback io \<Rightarrow> hooks \<Rightarrow> hooks" where
  "set_io st h \<equiv> h\<lparr>hk_im := (hk_im h)\<lparr>im_io := st\<rparr>\<rparr>"

section \<open>do\_io\<close>

text \<open>What \<open>do_io\<close> decides before the first call of the original function.\<close>

datatype io_decision = PassThrough | Refuse int | Managed u64

definition do_io_decide :: "bool \<Rightarrow> fd_ctx option \<Rightarrow> int \<Rightarrow> io_decision" where
  "do_io_decide hook_enable fctx timeout_so =
     (if \<not> hook_enable then PassThrough
      else case fctx of
        None \<Rightarrow> PassThrough
      | Some c \<Rightarrow>
          (if isClose c then Refuse EBADF
           else if \<not> isSocket c \<or> getUserNonblock c then PassThrough
           else Managed (getTimeout timeout_so c)))"

text \<open>The calls of the original function until one is not interrupted by a signal.\<close>

fun skip_eintr :: "sysres list \<Rightarrow> sysres option" where
  "skip_eintr [] = None"
| "skip_eintr (r # rs) = (if r = Fail EINTR then skip_eintr rs else Some r)"

text \<open>
  Arming after \<open>EAGAIN\<close>: the timeout timer at address \<open>tp\<close> (with the call's
  \<open>timer_info\<close> at \<open>ti\<close>), the event, and the cancellation of the timer when the event
  could not be added. The result: the timer, and whether the fiber now yields.
\<close>

definition do_io_arm ::
  "nat \<Rightarrow> nat \<Rightarrow> int \<Rightarrow> u32 \<Rightarrow> u64 \<Rightarrow> nat option \<Rightarrow> nat \<Rightarrow> State \<Rightarrow> int \<Rightarrow> u64 \<Rightarrow> hooks
   \<Rightarrow> (hooks \<times> nat option \<times> bool) res" where
  "do_io_arm tp ti fd event to sch cur cur_state rt now h =
     (let timer = (if to \<noteq> - 1 then Some tp else None);
          h1 = (if to \<noteq> - 1
                then set_timers (fst (addConditionTimer tp to (CancelIo ti fd event) ti False now (hk_timers h))) h
                else h)
      in bindR (addEvent fd event None sch cur cur_state rt (hk_io h1)) (\<lambda>(io1, r).
           let h2 = set_io io1 h1 in
           if r \<noteq> 0 then
             (case timer of
                None \<Rightarrow> Inr (h2, timer, False)
              | Some p \<Rightarrow> mapR (\<lambda>(ts, _). (set_timers ts h2, timer, False)) (cancel p (hk_timers h2)))
           else Inr (h2, timer, True)))"

text \<open>After the yield: the timer is cancelled; \<open>Some e\<close> means return -1 with errno \<open>e\<close>.\<close>

definition do_io_resume :: "nat option \<Rightarrow> nat \<Rightarrow> hooks \<Rightarrow> (hooks \<times> int option) res" where
  "do_io_resume timer ti h =
     bindR (case timer of
              None \<Rightarrow> Inr h
            | Some p \<Rightarrow> mapR (\<lambda>(ts, _). set_timers ts h) (cancel p (hk_timers h))) (\<lambda>h1.
       Inr (h1, case hk_tinfo h1 ti of Some c \<Rightarrow> (if c \<noteq> 0 then Some c else None) | None \<Rightarrow> None))"

text \<open>A timer callback of the hooks, with the result of \<open>cancelEvent\<close>'s \<open>epoll_ctl\<close>.\<close>

definition run_hook_cb :: "nat \<Rightarrow> int \<Rightarrow> hook_cb \<Rightarrow> hooks \<Rightarrow> (hooks \<times> hook_cb callback posted) res" where
  "run_hook_cb self rt cb h =
     (case cb of
        CancelIo ti fd event \<Rightarrow>
          (case hk_tinfo h ti of
             None \<Rightarrow> Inr (h, [])
           | Some c \<Rightarrow>
               (if c \<noteq> 0 then Inr (h, [])
                else let h1 = h\<lparr>hk_tinfo := (hk_tinfo h)(ti \<mapsto> ETIMEDOUT)\<rparr>
                     in mapR (\<lambda>(io1, _, out). (set_io io1 h1, out)) (cancelEvent fd event rt (hk_io h1))))
      | Wake p \<Rightarrow> Inr (h, [(self, Fib (Some p))]))"

text \<open>
  The whole call as seen by the caller: one entry per round, with the results of the
  original function, the result of \<open>addEvent\<close> (and the errno it leaves), and whether
  the round ended by the timeout.
\<close>

record io_round =
  rd_calls :: "sysres list"
  rd_add_rt :: int
  rd_add_errno :: int
  rd_timed_out :: bool

fun do_io_rounds :: "u64 \<Rightarrow> io_round list \<Rightarrow> sysres option" where
  "do_io_rounds to [] = None"
| "do_io_rounds to (r # rs) =
     (case skip_eintr (rd_calls r) of
        None \<Rightarrow> None
      | Some x \<Rightarrow>
          (if x \<noteq> Fail EAGAIN then Some x
           else if rd_add_rt r \<noteq> 0 then Some (Fail (rd_add_errno r))
           else if to \<noteq> - 1 \<and> rd_timed_out r then Some (Fail ETIMEDOUT)
           else do_io_rounds to rs))"

definition do_io :: "bool \<Rightarrow> fd_ctx option \<Rightarrow> int \<Rightarrow> io_round list \<Rightarrow> sysres option" where
  "do_io hook_enable fctx timeout_so rounds =
     (case do_io_decide hook_enable fctx timeout_so of
        PassThrough \<Rightarrow> (case rounds of r # _ \<Rightarrow> (case rd_calls r of x # _ \<Rightarrow> Some x | [] \<Rightarrow> None) | [] \<Rightarrow> None)
      | Refuse e \<Rightarrow> Some (Fail e)
      | Managed to \<Rightarrow> do_io_rounds to rounds)"

section \<open>Sleeping\<close>

text \<open>The delays in milliseconds, in the integer types of the source.\<close>

definition sleep_ms :: "u32 \<Rightarrow> u64" where
  "sleep_ms seconds = ucast (seconds * 1000)"

definition usleep_ms :: "u32 \<Rightarrow> u64" where
  "usleep_ms usec = ucast (usec div 1000)"

definition nanosleep_ms :: "u64 \<Rightarrow> u64 \<Rightarrow> u64" where
  "nanosleep_ms tv_sec tv_nsec =
     scast (ucast (tv_sec * 1000 + word_of_int ((sint tv_nsec sdiv 1000) sdiv 1000)) :: u32)"

text \<open>A one-shot timer that schedules the calling fiber; the fiber then yields.\<close>

definition hook_sleep :: "nat \<Rightarrow> u64 \<Rightarrow> nat \<Rightarrow> u64 \<Rightarrow> hooks \<Rightarrow> hooks" where
  "hook_sleep tp ms cur now h = set_timers (fst (addTimer tp ms (Some (Direct (Wake cur))) False now (hk_timers h))) h"

section \<open>Descriptors\<close>

text \<open>\<open>socket\<close> and \<open>accept\<close>: a new descriptor enters the table.\<close>

definition hook_socket :: "(int \<Rightarrow> bool option) \<Rightarrow> bool \<Rightarrow> int \<Rightarrow> hooks \<Rightarrow> hooks res" where
  "hook_socket fstat hook_enable fd h =
     (if \<not> hook_enable \<or> fd = -1 then Inr h
      else mapR (\<lambda>(_, m, k). h\<lparr>hk_fdm := m, hk_flags := k\<rparr>) (FdManager_get fstat fd True (hk_fdm h) (hk_flags h)))"

definition hook_accept :: "(int \<Rightarrow> bool option) \<Rightarrow> int \<Rightarrow> hooks \<Rightarrow> hooks res" where
  "hook_accept fstat fd h =
     (if fd \<ge> 0
      then mapR (\<lambda>(_, m, k). h\<lparr>hk_fdm := m, hk_flags := k\<rparr>) (FdManager_get fstat fd True (hk_fdm h) (hk_flags h))
      else Inr h)"

text \<open>The result: the state, what is posted, and whether the real \<open>close\<close> follows.\<close>

definition hook_close :: "bool \<Rightarrow> bool \<Rightarrow> int \<Rightarrow> int \<Rightarrow> hooks \<Rightarrow> (hooks \<times> hook_cb callback posted) res" where
  "hook_close hook_enable has_iom fd rt h =
     (if \<not> hook_enable then Inr (h, [])
      else bindR (FdManager_get (\<lambda>_. None) fd False (hk_fdm h) (hk_flags h)) (\<lambda>(fctx, _, _).
        case fctx of
          None \<Rightarrow> Inr (h, [])
        | Some c \<Rightarrow>
            bindR (if has_iom then mapR (\<lambda>(io1, _, out). (set_io io1 h, out)) (cancelAll fd rt (hk_io h))
                   else Inr (h, [])) (\<lambda>(h1, out).
            mapR (\<lambda>m. (h1\<lparr>hk_fdm := m\<rparr>, out)) (FdManager_del fd (hk_fdm h1)))))"

text \<open>
  \<open>fcntl\<close> for the two commands it treats, on top of the real one; \<open>ioctl(FIONBIO)\<close>;
  \<open>setsockopt\<close> for the two timeouts.
\<close>

definition managed_ctx :: "int \<Rightarrow> hooks \<Rightarrow> fd_ctx option res" where
  "managed_ctx fd h =
     mapR (\<lambda>(fctx, _, _). case fctx of None \<Rightarrow> None
                          | Some c \<Rightarrow> if isClose c \<or> \<not> isSocket c then None else Some c)
       (FdManager_get (\<lambda>_. None) fd False (hk_fdm h) (hk_flags h))"

definition hook_fcntl_setfl :: "int \<Rightarrow> u32 \<Rightarrow> hooks \<Rightarrow> hooks res" where
  "hook_fcntl_setfl fd arg h =
     mapR (\<lambda>fctx. case fctx of
         None \<Rightarrow> h\<lparr>hk_flags := (hk_flags h)(fd := arg)\<rparr>
       | Some c \<Rightarrow>
           (let c1 = setUserNonblock (arg AND O_NONBLOCK \<noteq> 0) c;
                arg1 = (if getSysNonblock c1 then arg OR O_NONBLOCK else arg AND NOT O_NONBLOCK)
            in h\<lparr>hk_fdm := put_data fd c1 (hk_fdm h), hk_flags := (hk_flags h)(fd := arg1)\<rparr>))
       (managed_ctx fd h)"

definition hook_fcntl_getfl :: "int \<Rightarrow> hooks \<Rightarrow> u32 res" where
  "hook_fcntl_getfl fd h =
     mapR (\<lambda>fctx. let arg = hk_flags h fd in case fctx of
         None \<Rightarrow> arg
       | Some c \<Rightarrow> if getUserNonblock c then arg OR O_NONBLOCK else arg AND NOT O_NONBLOCK)
       (managed_ctx fd h)"

definition hook_ioctl_fionbio :: "int \<Rightarrow> bool \<Rightarrow> hooks \<Rightarrow> hooks res" where
  "hook_ioctl_fionbio d user_nonblock h =
     mapR (\<lambda>fctx.
       let h1 = (case fctx of None \<Rightarrow> h
                 | Some c \<Rightarrow> h\<lparr>hk_fdm := put_data d (setUserNonblock user_nonblock c) (hk_fdm h)\<rparr>)
       in h1\<lparr>hk_flags := (hk_flags h1)(d := (if user_nonblock then hk_flags h1 d OR O_NONBLOCK
                                              else hk_flags h1 d AND NOT O_NONBLOCK))\<rparr>)
       (managed_ctx d h)"

definition hook_setsockopt_timeout :: "bool \<Rightarrow> int \<Rightarrow> int \<Rightarrow> u64 \<Rightarrow> u64 \<Rightarrow> hooks \<Rightarrow> hooks res" where
  "hook_setsockopt_timeout hook_enable sockfd optname tv_sec tv_usec h =
     (if \<not> hook_enable \<or> (optname \<noteq> SO_RCVTIMEO \<and> optname \<noteq> SO_SNDTIMEO) then Inr h
      else mapR (\<lambda>(fctx, _, _). case fctx of
          None \<Rightarrow> h
        | Some c \<Rightarrow>
            h\<lparr>hk_fdm := put_data sockfd
                 (setTimeout optname (tv_sec * 1000 + word_of_int (sint tv_usec sdiv 1000)) c) (hk_fdm h)\<rparr>)
        (FdManager_get (\<lambda>_. None) sockfd False (hk_fdm h) (hk_flags h)))"

section \<open>connect\<close>

text \<open>
  \<open>connect_with_timeout\<close> before its suspension, and after it: \<open>add_ok\<close> says whether
  the event was added (and so the fiber yielded), \<open>so_error\<close> what getsockopt(SO\_ERROR)
  reports (\<open>None\<close> if it fails, leaving \<open>errno\<close> at \<open>e\<close>).
\<close>

datatype connect_decision = Direct_call | Connect_fail int | Connect_managed

definition connect_decide :: "bool \<Rightarrow> fd_ctx option \<Rightarrow> connect_decision" where
  "connect_decide hook_enable fctx =
     (if \<not> hook_enable then Direct_call
      else case fctx of
        None \<Rightarrow> Connect_fail EBADF
      | Some c \<Rightarrow>
          (if isClose c then Connect_fail EBADF
           else if \<not> isSocket c then Direct_call
           else if getUserNonblock c then Direct_call
           else Connect_managed))"

definition connect_first :: "sysres \<Rightarrow> sysres option" where
  "connect_first n =
     (case n of Ret v \<Rightarrow> Some (Ret v) | Fail e \<Rightarrow> (if e \<noteq> EINPROGRESS then Some (Fail e) else None))"

definition connect_after :: "bool \<Rightarrow> int \<Rightarrow> int option \<Rightarrow> int \<Rightarrow> sysres" where
  "connect_after add_ok cancelled so_error e =
     (if add_ok \<and> cancelled \<noteq> 0 then Fail cancelled
      else case so_error of
        None \<Rightarrow> Fail e
      | Some error \<Rightarrow> (if error = 0 then Ret 0 else Fail error))"

end
