(* ===== verification/Hook_Props.thy ===== *)
theory Hook_Props
  imports Hook
begin

text \<open>
  Properties of the hooks: a suspended call is woken exactly once, what a hooked call
  returns, the blocking semantics the user sees, and where it is wrong.
\<close>

unbundle bit_operations_syntax

section \<open>Suspension\<close>

lemma addConditionTimer_inv:
  assumes "tm_inv ts" and "tp \<notin> set (m_timers ts)"
  shows "tm_inv (fst (addConditionTimer tp to cb ti rec now ts))"
  using addTimer_inv(1) [OF assms, of "Some (OnTimer ti cb)"] by (simp add: addConditionTimer_def)

text \<open>
  The state a suspended \<open>do_io\<close> leaves: its event is armed with the fiber, its timer (if
  any) is in the set, its \<open>timer_info\<close> is alive.
\<close>

lemma do_io_arm_suspends:
  assumes io: "io_run (hk_io h)" and fd: "0 \<le> fd" "fd < int (length (m_fdContexts (hk_io h)))"
    and ev: "event \<in> {READ, WRITE}"
    and tm: "tm_inv (hk_timers h)" "tp \<notin> set (m_timers (hk_timers h))"
    and arm: "do_io_arm tp ti fd event to (Some s) cur cur_state 0 now h = Inr (h1, timer, True)"
  shows "timer = (if to \<noteq> - 1 then Some tp else None)" and "hk_tinfo h1 = hk_tinfo h"
    and "tm_inv (hk_timers h1)"
    and "\<exists>r. addEvent fd event None (Some s) cur cur_state 0 (hk_io h) = Inr (hk_io h1, r)"
proof -
  let ?ts = "if to \<noteq> - 1 then fst (addConditionTimer tp to (CancelIo ti fd event) ti False now (hk_timers h)) else hk_timers h"
  have "tm_inv ?ts" using addConditionTimer_inv [OF tm] tm(1) by simp
  moreover have "timer = (if to \<noteq> - 1 then Some tp else None) \<and> hk_tinfo h1 = hk_tinfo h \<and> hk_timers h1 = ?ts
    \<and> (\<exists>r. addEvent fd event None (Some s) cur cur_state 0 (hk_io h) = Inr (hk_io h1, r))"
    using arm by (cases "to \<noteq> - 1") (auto simp: do_io_arm_def Let_def bindR_eq_Inr mapR_eq_Inr split: if_splits)
  ultimately show "timer = (if to \<noteq> - 1 then Some tp else None)" "hk_tinfo h1 = hk_tinfo h"
    "tm_inv (hk_timers h1)" "\<exists>r. addEvent fd event None (Some s) cur cur_state 0 (hk_io h) = Inr (hk_io h1, r)"
    by auto
qed

lemma idle_event_unregistered:
  assumes "io_inv st" and "0 \<le> fd" "fd < int (length (m_fdContexts st))" and "event \<in> {READ, WRITE}"
    and "fc_events (m_fdContexts st ! nat fd) AND event = 0"
  shows "idle_event fd event rt st = Inr (st, [])"
  using assms(4,5) io_invD(1) [OF assms(1-3)] by (auto simp: idle_event_def Let_def)

text \<open>
  C6. A call suspended on EAGAIN is woken exactly once, whichever comes first. If the event
  comes first, the poll loop posts the fiber and a timeout callback that still runs posts
  nothing; if the timeout comes first, its cancelEvent posts the fiber, a report of the event
  that is still in flight posts nothing, and the resumed call fails with ETIMEDOUT. The
  resumed call always leaves its timer cancelled, and without a timeout it retries.
\<close>

theorem suspended_call_wakes_once:
  assumes io: "io_run (hk_io h)" and fd: "0 \<le> fd" "fd < int (length (m_fdContexts (hk_io h)))"
    and ev: "event \<in> {READ, WRITE}"
    and tm: "tm_run (TimerManager_new t0) used (hk_timers h) fired" "tp \<notin> set (m_timers (hk_timers h))"
    and ti: "hk_tinfo h ti = Some 0"
    and arm: "do_io_arm tp ti fd event to (Some s) cur cur_state 0 now h = Inr (h1, timer, True)"
    and meanwhile: "tm_run (hk_timers h1) used' ts fired'"
  shows "(\<exists>io2 h3 h4. idle_event fd event 0 (hk_io h1) = Inr (io2, [(s, Fib (Some cur))])
        \<and> run_hook_cb self rt (CancelIo ti fd event) (set_io io2 h1) = Inr (h3, [])
        \<and> do_io_resume timer ti (set_timers ts (set_io io2 h1)) = Inr (h4, None)
        \<and> (timer \<noteq> None \<longrightarrow> tp \<notin> set (m_timers (hk_timers h4))))
    \<and> (\<exists>h2 h4. run_hook_cb self 0 (CancelIo ti fd event) h1 = Inr (h2, [(s, Fib (Some cur))])
        \<and> idle_event fd event rt (hk_io h2) = Inr (hk_io h2, [])
        \<and> do_io_resume timer ti (set_timers ts h2) = Inr (h4, Some ETIMEDOUT)
        \<and> (timer \<noteq> None \<longrightarrow> tp \<notin> set (m_timers (hk_timers h4))))"
proof -
  have inv: "io_inv (hk_io h)" using io_run_inv [OF io] by simp
  have tinv: "tm_inv (hk_timers h)" by (rule tm_run_inv [OF tm(1) tm_inv_new])
  note S = do_io_arm_suspends [OF io fd ev tinv tm(2) arm]
  from S(4) obtain r where add: "addEvent fd event None (Some s) cur cur_state 0 (hk_io h) = Inr (hk_io h1, r)" by blast
  note A = addEvent_armed [OF inv fd ev add]
  have tsinv: "tm_inv ts" by (rule tm_run_inv [OF meanwhile S(3)])
  let ?fc = "m_fdContexts (hk_io h1) ! nat fd"
  have rep: "reported_ok event (fc_events ?fc)" and rd: "ready event (fc_events ?fc) = event" "event \<noteq> 0"
    using ev A(4) by (auto simp: reported_ok_def ready_def)
  have posts: "mask_posts event ?fc = [(s, Fib (Some cur))]"
    using ev A(6) by (auto simp: mask_posts_def slot_def)
  obtain io2 where ev1: "idle_event fd event 0 (hk_io h1) = Inr (io2, [(s, Fib (Some cur))])"
    and off: "fc_events (m_fdContexts io2 ! nat fd) AND event = 0" "io_inv io2"
      "fd < int (length (m_fdContexts io2))"
  proof
    let ?io2 = "io_disarm_mask fd event (hk_io h1)"
    show "idle_event fd event 0 (hk_io h1) = Inr (?io2, [(s, Fib (Some cur))])"
      using idle_event_eq [OF A(2) fd(1) A(3) rep, of 0] rd posts by (simp add: Let_def)
    show "io_inv ?io2"
      using real_of_ready(2) [OF ctx_ok_masks [OF io_invD(2) [OF A(2) fd(1) A(3)]] rep] rd(1)
      by (intro io_disarm_mask_inv [OF A(2) fd(1) A(3)]) simp
    show "fd < int (length (m_fdContexts ?io2))" using A(3) by simp
    show "fc_events (m_fdContexts ?io2 ! nat fd) AND event = 0"
      using ev io_invD(4) [OF A(2) fd(1) A(3)] ctx_ok_masks [OF io_invD(2) [OF A(2) fd(1) A(3)]]
      by (auto simp: io_disarm_mask_def Let_def disarm_mask_def mask_ops elim!: masksE)
  qed
  obtain ts' b where c: "cancel tp ts = Inr (ts', b)" "tp \<notin> set (m_timers ts')"
    using cancel_inv [OF tsinv, of tp] by auto
  have resume: "\<exists>h4. do_io_resume timer ti (set_timers ts h') = Inr (h4, if n = 0 then None else Some n)
      \<and> (timer \<noteq> None \<longrightarrow> tp \<notin> set (m_timers (hk_timers h4)))" if "hk_tinfo h' ti = Some n" for h' n
    using that c S(1) by (auto simp: do_io_resume_def)
  have first: "run_hook_cb self rt (CancelIo ti fd event) (set_io io2 h1) =
      (mapR (\<lambda>(io1, _, out). (set_io io1 ((set_io io2 h1)\<lparr>hk_tinfo := (hk_tinfo h1)(ti \<mapsto> ETIMEDOUT)\<rparr>), out))
        (Inr (io2, False, [])))"
    using ti S(2) off cancelEvent_eq [OF off(2) fd(1) off(3) ev, of rt] by (simp add: run_hook_cb_def)
  let ?h2 = "set_io (hk_io h) (h1\<lparr>hk_tinfo := (hk_tinfo h1)(ti \<mapsto> ETIMEDOUT)\<rparr>)"
  have second: "run_hook_cb self 0 (CancelIo ti fd event) h1 = Inr (?h2, [(s, Fib (Some cur))])"
    using ti S(2) A(4-6) cancelEvent_eq [OF A(2) fd(1) A(3) ev, of 0] by (simp add: run_hook_cb_def)
  have free: "fc_events (m_fdContexts (hk_io h) ! nat fd) AND event = 0"
    using add fd by (auto simp: addEvent_def addEvent_known_def addEvent_register_def io_invD(1) [OF inv fd]
        bindR_eq_Inr assertR_def split: if_splits)
  have "idle_event fd event rt (hk_io ?h2) = Inr (hk_io ?h2, [])"
    using idle_event_unregistered [OF inv fd ev free] by simp
  with resume [of ?h2 ETIMEDOUT] resume [of "set_io io2 h1" 0] ti S(2) ev1 first second show ?thesis by auto
qed

text \<open>A manager at rest, for the concrete instances.\<close>

definition rest_hooks :: "fd_mgr \<Rightarrow> kflags \<Rightarrow> hooks" where
  "rest_hooks m k =
     \<lparr>hk_im = \<lparr>im_sched = Scheduler_new 1 False 0 0, im_timers = TimerManager_new 0, im_io = IOManager_new\<rparr>,
      hk_fdm = m, hk_flags = k, hk_tinfo = [50 \<mapsto> 0]\<rparr>"

lemma suspended_call_wakes_once_witness:
  "\<exists>h1 io2. do_io_arm 60 50 5 READ 1000 (Some 7) 20 EXEC 0 0 (rest_hooks FdManager_new (\<lambda>_. 0)) = Inr (h1, Some 60, True)
    \<and> idle_event 5 READ 0 (hk_io h1) = Inr (io2, [(7, Fib (Some 20))])"
proof -
  let ?h = "rest_hooks FdManager_new (\<lambda>_. 0)"
  obtain h1 where arm: "do_io_arm 60 50 5 READ 1000 (Some 7) 20 EXEC 0 0 ?h = Inr (h1, Some 60, True)"
    by (simp add: do_io_arm_def rest_hooks_def addEvent_def addEvent_known_def addEvent_register_def fd_at_def
        IOManager_new_def contextResize_def assertR_def Let_def getContext_def FdContext_new_def resetContext_def)
  have h: "hk_io ?h = IOManager_new" "hk_timers ?h = TimerManager_new 0" "hk_tinfo ?h 50 = Some 0"
    "60 \<notin> set (m_timers (hk_timers ?h))"
    by (simp_all add: rest_hooks_def TimerManager_new_def)
  have "io_run (hk_io ?h)" "tm_run (TimerManager_new 0) {} (hk_timers ?h) {}"
    unfolding h(1,2) by (rule io_run_new, rule run_refl)
  from suspended_call_wakes_once [OF this(1) _ _ _ this(2) h(4,3) arm run_refl] h(1) arm show ?thesis by auto
qed

section \<open>What a hooked call returns\<close>



section \<open>Blocking semantics\<close>

lemma managed_ctx_eq:
  "fdm_inv (hk_fdm h) \<Longrightarrow> 0 \<le> fd \<Longrightarrow> fdm_lookup fd (hk_fdm h) = Some c \<Longrightarrow>
   managed_ctx fd h = Inr (if m_isSocket c then Some c else None)"
  by (auto simp: managed_ctx_def FdManager_get_known isClose_def isSocket_def fdm_inv_def)

lemma nonblock_bits:
  fixes x :: u32
  shows "(x OR O_NONBLOCK) AND O_NONBLOCK \<noteq> 0" and "(x AND NOT O_NONBLOCK) AND O_NONBLOCK = 0"
    and "x AND O_NONBLOCK \<noteq> 0 \<Longrightarrow> (x OR O_NONBLOCK) OR O_NONBLOCK = x"
    and "x AND O_NONBLOCK = 0 \<Longrightarrow> (x OR O_NONBLOCK) AND NOT O_NONBLOCK = x"
  using one_bit [of 11 x] by simp_all

text \<open>
  The user of a managed socket sees the flags it set while the kernel's socket stays
  non-blocking: after fcntl(F_SETFL, arg) fcntl(F_GETFL) returns arg exactly, the real
  O_NONBLOCK flag is set whatever arg says, and hooked calls wait (instead of passing
  through) exactly when arg has no O_NONBLOCK.
\<close>

theorem fcntl_shows_user_flags:
  assumes "fdm_inv (hk_fdm h)" and "0 \<le> fd" and "fdm_lookup fd (hk_fdm h) = Some c" and "m_isSocket c"
  shows "\<exists>h1 c1. hook_fcntl_setfl fd arg h = Inr h1 \<and> hook_fcntl_getfl fd h1 = Inr arg
    \<and> hk_flags h1 fd AND O_NONBLOCK \<noteq> 0
    \<and> fdm_lookup fd (hk_fdm h1) = Some c1
    \<and> (do_io_decide True (Some c1) so = PassThrough \<longleftrightarrow> arg AND O_NONBLOCK \<noteq> 0)
    \<and> fdm_inv (hk_fdm h1)"
proof -
  let ?c1 = "c\<lparr>m_userNonblock := (arg AND O_NONBLOCK \<noteq> 0)\<rparr>"
  have c: "m_sysNonblock c" "\<not> m_isClosed c" "m_fd c = fd"
    using assms by (auto simp: fdm_inv_def)
  let ?h1 = "h\<lparr>hk_fdm := put_data fd ?c1 (hk_fdm h), hk_flags := (hk_flags h)(fd := arg OR O_NONBLOCK)\<rparr>"
  have set: "hook_fcntl_setfl fd arg h = Inr ?h1"
    using c assms(4) by (simp add: hook_fcntl_setfl_def managed_ctx_eq [OF assms(1-3)] setUserNonblock_def getSysNonblock_def)
  have look: "fdm_lookup fd' (put_data fd ?c1 (hk_fdm h)) = (if fd' = fd then Some ?c1 else fdm_lookup fd' (hk_fdm h))" for fd'
    using assms(3) by (simp add: fdm_lookup_put)
  have inv1: "fdm_inv (hk_fdm ?h1)"
    using assms(1) c assms(4) by (simp add: fdm_inv_def look) (simp add: put_data_def)
  have "managed_ctx fd ?h1 = Inr (Some ?c1)"
    using managed_ctx_eq [OF inv1 assms(2), of ?c1] look [of fd] assms(4) by simp
  then have "hook_fcntl_getfl fd ?h1 = Inr arg"
    using nonblock_bits(3,4) [of arg]
    by (cases "arg AND O_NONBLOCK = 0") (simp_all add: hook_fcntl_getfl_def getUserNonblock_def Let_def)
  moreover have "do_io_decide True (Some ?c1) so = PassThrough \<longleftrightarrow> arg AND O_NONBLOCK \<noteq> 0"
    using c assms(4) by (simp add: do_io_decide_def isClose_def isSocket_def getUserNonblock_def)
  ultimately show ?thesis
    using set inv1 look [of fd] nonblock_bits(1) [of arg]
    by (intro exI [of _ ?h1] exI [of _ ?c1]) simp
qed

text \<open>A manager that has just accepted descriptor 5, a socket.\<close>

definition demo_hooks :: hooks where
  "demo_hooks = rest_hooks (FdManager_new\<lparr>m_datas := (replicate 64 None)[5 := Some (fst (FdCtx_new (\<lambda>_. Some True) 5 (\<lambda>_. 0)))]\<rparr>) (\<lambda>_. 2048)"

lemma demo_hooks_facts:
  "fdm_inv (hk_fdm demo_hooks)"
  "fdm_lookup 5 (hk_fdm demo_hooks) = Some (fst (FdCtx_new (\<lambda>_. Some True) 5 (\<lambda>_. 0)))"
  "hk_io demo_hooks = IOManager_new"
  by (auto simp: demo_hooks_def rest_hooks_def fdm_inv_def FdManager_new_def fdm_lookup_def nth_list_update FdCtx_new_fields
      split: if_splits)

lemma fcntl_shows_user_flags_witness:
  "\<exists>h1. hook_fcntl_setfl 5 3 demo_hooks = Inr h1 \<and> hook_fcntl_getfl 5 h1 = Inr 3 \<and> hk_flags h1 5 AND O_NONBLOCK \<noteq> 0"
  using fcntl_shows_user_flags [OF demo_hooks_facts(1) _ demo_hooks_facts(2), of 3] by (auto simp: FdCtx_new_fields)

text \<open>
  C13. close of a managed descriptor forgets it and wakes its waiters first: when the epoll
  removal succeeds, exactly the fibers or callbacks that wait for a read or a write on the
  descriptor are posted, no event stays registered, the pending count drops by their number,
  the descriptor's entry is gone, and every other entry and context is untouched.
\<close>

theorem close_wakes_and_forgets:
  assumes run: "io_run (hk_io h)" and "fdm_inv (hk_fdm h)" and fd: "0 \<le> fd" "fd < int (length (m_fdContexts (hk_io h)))"
    and known: "fdm_lookup fd (hk_fdm h) = Some c"
  shows "\<exists>h1. hook_close True True fd 0 h = Inr (h1, mask_posts (fc_events (m_fdContexts (hk_io h) ! nat fd)) (m_fdContexts (hk_io h) ! nat fd))
    \<and> fc_events (m_fdContexts (hk_io h1) ! nat fd) = 0
    \<and> m_pendingEventCount (hk_io h1) = m_pendingEventCount (hk_io h) - of_nat (nev (fc_events (m_fdContexts (hk_io h) ! nat fd)))
    \<and> (\<forall>i. i \<noteq> nat fd \<longrightarrow> m_fdContexts (hk_io h1) ! i = m_fdContexts (hk_io h) ! i)
    \<and> (\<forall>fd'. fdm_lookup fd' (hk_fdm h1) = (if fd' = fd then None else fdm_lookup fd' (hk_fdm h)))"
proof -
  note inv = conjunct1 [OF io_run_inv [OF run]]
  let ?fc = "m_fdContexts (hk_io h) ! nat fd"
  note m = ctx_ok_masks [OF io_invD(2) [OF inv fd]]
  obtain m' where del: "FdManager_del fd (hk_fdm h) = Inr m'"
    using fd by (cases "int (length (m_datas (hk_fdm h))) \<le> fd") (auto simp: FdManager_del_def)
  define io1 where "io1 = (if fc_events ?fc = 0 then hk_io h else io_disarm_mask fd (fc_events ?fc) (hk_io h))"
  have posts: "fc_events ?fc = 0 \<Longrightarrow> mask_posts (fc_events ?fc) ?fc = []" "nev 0 = 0"
    by (simp_all add: mask_posts_def nev_def)
  have "hook_close True True fd 0 h = Inr ((set_io io1 h)\<lparr>hk_fdm := m'\<rparr>, mask_posts (fc_events ?fc) ?fc)"
    using posts known del FdManager_get_known [OF fd(1)]
    by (simp add: hook_close_def cancelAll_eq [OF inv fd] io1_def Let_def)
  moreover have "fc_events (m_fdContexts io1 ! nat fd) = 0"
    "m_pendingEventCount io1 = m_pendingEventCount (hk_io h) - of_nat (nev (fc_events ?fc))"
    "\<forall>i. i \<noteq> nat fd \<longrightarrow> m_fdContexts io1 ! i = m_fdContexts (hk_io h) ! i"
    using fd posts(2) disarm_mask_fields(2) [OF m io_invD(2) [OF inv fd]] masks_self [OF m]
    by (simp_all add: io1_def io_disarm_mask_def Let_def nat_less_iff)
  ultimately show ?thesis
    using fdm_lookup_del [OF fd(1) del] by (intro exI [of _ "(set_io io1 h)\<lparr>hk_fdm := m'\<rparr>"]) simp
qed

lemma close_wakes_and_forgets_witness:
  "\<exists>h1. hook_close True True 5 0 demo_hooks = Inr (h1, []) \<and> fdm_lookup 5 (hk_fdm h1) = None"
proof -
  have "io_run (hk_io demo_hooks)" unfolding demo_hooks_facts(3) by (rule io_run_new)
  from close_wakes_and_forgets [OF this demo_hooks_facts(1) _ _ demo_hooks_facts(2)]
  show ?thesis
    by (auto simp: demo_hooks_facts(3) IOManager_new_def contextResize_def FdContext_new_def mask_posts_def)
qed

section \<open>Where the hooks part from blocking calls\<close>

text \<open>
  FIONBIO with a zero argument reaches the kernel unchanged: the socket really blocks from
  then on, while the hooked calls go on treating it as one they have to wait for.
\<close>

lemma ioctl_makes_the_socket_block:
  assumes "fdm_inv (hk_fdm h)" and "0 \<le> fd" and "fdm_lookup fd (hk_fdm h) = Some c" and "m_isSocket c"
  shows "\<exists>h1 c1. hook_ioctl_fionbio fd False h = Inr h1 \<and> hk_flags h1 fd AND O_NONBLOCK = 0
    \<and> fdm_lookup fd (hk_fdm h1) = Some c1 \<and> do_io_decide True (Some c1) so = Managed (getTimeout so c)"
proof -
  let ?c1 = "c\<lparr>m_userNonblock := False\<rparr>"
  let ?h1 = "h\<lparr>hk_fdm := put_data fd ?c1 (hk_fdm h), hk_flags := (hk_flags h)(fd := hk_flags h fd AND NOT O_NONBLOCK)\<rparr>"
  have "hook_ioctl_fionbio fd False h = Inr ?h1"
    using assms by (simp add: hook_ioctl_fionbio_def managed_ctx_eq [OF assms(1-3)] setUserNonblock_def Let_def)
  moreover have "do_io_decide True (Some ?c1) so = Managed (getTimeout so c)"
    using assms by (auto simp: do_io_decide_def isClose_def isSocket_def getUserNonblock_def getTimeout_def fdm_inv_def)
  ultimately show ?thesis
    using assms(3) nonblock_bits(2) [of "hk_flags h fd"]
    by (intro exI [of _ ?h1] exI [of _ ?c1]) (simp add: fdm_lookup_put)
qed

text \<open>
  The product in \<open>sleep\<close> is 32 bits wide: 4294968 seconds sleep for less than a second.
  A failed \<open>addEvent\<close> in \<open>connect\<close> is not reported, and a zero timeval, which means no
  timeout, is stored as a timeout of zero.
\<close>

lemma sleep_wraps: "sleep_ms 4294968 = 704"
  by (simp add: sleep_ms_def)

lemma connect_ignores_failed_addEvent: "connect_after False 0 (Some 0) 0 = Ret 0"
  by (simp add: connect_after_def)

lemma zero_timeval_times_out_at_once:
  assumes "fdm_inv (hk_fdm h)" and "0 \<le> fd" and "fdm_lookup fd (hk_fdm h) = Some c"
  shows "\<exists>h1 c1. hook_setsockopt_timeout True fd SO_RCVTIMEO 0 0 h = Inr h1
    \<and> fdm_lookup fd (hk_fdm h1) = Some c1 \<and> getTimeout SO_RCVTIMEO c1 = 0"
  using assms
  by (auto simp: hook_setsockopt_timeout_def FdManager_get_known fdm_lookup_put setTimeout_def getTimeout_def)

end
