(* ===== verification/Strings.thy ===== *)
theory Strings
  imports Prelude
begin

text \<open>
  What the sources use of the C and C++ string libraries: NUL-terminated views of a
  \<open>std::string\<close>, the comparison functions of \<open>string.h\<close> in the C locale, and the
  printing of unsigned numbers by streams and \<open>std::to_string\<close>, with the reader that
  inverts it.
\<close>

section \<open>C strings\<close>

definition c_str :: "string \<Rightarrow> string" where
  "c_str s = takeWhile (\<lambda>c. c \<noteq> CHR 0x00) s"

definition lower :: "char \<Rightarrow> nat" where
  "lower c = (let n = of_char c :: nat in if 65 \<le> n \<and> n \<le> 90 then n + 32 else n)"

text \<open>The loops of \<open>strcasecmp\<close> and \<open>strncmp\<close>; the end of a list is the terminating NUL.\<close>

fun strcasecmp :: "string \<Rightarrow> string \<Rightarrow> int" where
  "strcasecmp [] [] = 0"
| "strcasecmp [] (d # ds) = - int (lower d)"
| "strcasecmp (c # cs) [] = int (lower c)"
| "strcasecmp (c # cs) (d # ds) =
     (if lower c = lower d then strcasecmp cs ds else int (lower c) - int (lower d))"

fun strncmp :: "string \<Rightarrow> string \<Rightarrow> nat \<Rightarrow> int" where
  "strncmp cs ds 0 = 0"
| "strncmp [] [] (Suc n) = 0"
| "strncmp [] (d # ds) (Suc n) = - int (of_char d)"
| "strncmp (c # cs) [] (Suc n) = int (of_char c)"
| "strncmp (c # cs) (d # ds) (Suc n) =
     (if c = d then strncmp cs ds n else int (of_char c) - int (of_char d))"

lemma of_char_inj: "(of_char c :: nat) = of_char d \<longleftrightarrow> c = d"
  by (metis char_of_char)

lemma c_str_no_nul: "CHR 0x00 \<notin> set (c_str s)"
  by (auto simp: c_str_def dest: set_takeWhileD)

lemma c_str_id: "CHR 0x00 \<notin> set s \<Longrightarrow> c_str s = s"
  by (auto simp: c_str_def takeWhile_eq_all_conv)

lemma of_char_pos: "CHR 0x00 \<noteq> c \<Longrightarrow> 0 < (of_char c :: nat)"
  using of_char_inj [of c "CHR 0x00"] by auto

lemma strncmp_prefix:
  "CHR 0x00 \<notin> set cs \<Longrightarrow> CHR 0x00 \<notin> set ds \<Longrightarrow>
   strncmp cs ds n = 0 \<longleftrightarrow> take n cs = take n ds"
proof (induction cs ds n rule: strncmp.induct)
  case (5 c cs d ds n)
  then show ?case using of_char_inj [of c d] by auto
qed (auto dest: of_char_pos)

lemma strncmp_whole:
  "CHR 0x00 \<notin> set cs \<Longrightarrow> CHR 0x00 \<notin> set ds \<Longrightarrow>
   strncmp cs ds (length cs) = 0 \<longleftrightarrow> take (length cs) ds = cs"
  using strncmp_prefix [of cs ds "length cs"] by auto

text \<open>\<open>strcasecmp\<close> compares the lower-case spellings in the order of the words.\<close>

lemma lower_pos: "CHR 0x00 \<noteq> c \<Longrightarrow> 0 < lower c"
  using of_char_pos [of c] by (auto simp: lower_def Let_def)

lemma strcasecmp_less:
  "CHR 0x00 \<notin> set cs \<Longrightarrow> CHR 0x00 \<notin> set ds \<Longrightarrow>
   strcasecmp cs ds < 0 \<longleftrightarrow> ord_class.lexordp (map lower cs) (map lower ds)"
  by (induction cs ds rule: strcasecmp.induct) (auto dest: lower_pos)

lemma strcasecmp_zero:
  "CHR 0x00 \<notin> set cs \<Longrightarrow> CHR 0x00 \<notin> set ds \<Longrightarrow>
   strcasecmp cs ds = 0 \<longleftrightarrow> map lower cs = map lower ds"
  by (induction cs ds rule: strcasecmp.induct) (auto dest: lower_pos)

section \<open>Numbers\<close>

definition digit_char :: "nat \<Rightarrow> char" where
  "digit_char n = char_of (if n < 10 then 48 + n else 87 + n)"

definition digit_val :: "char \<Rightarrow> nat" where
  "digit_val c = (let n = of_char c :: nat in if n < 58 then n - 48 else n - 87)"

function show_base :: "nat \<Rightarrow> nat \<Rightarrow> string" where
  "show_base b n =
     (if b < 2 \<or> n < b then [digit_char n] else show_base b (n div b) @ [digit_char (n mod b)])"
  by pat_completeness auto
termination
  by (relation "measure snd") auto

declare show_base.simps [simp del]

abbreviation show_nat :: "nat \<Rightarrow> string" where "show_nat \<equiv> show_base 10"
abbreviation show_hex :: "nat \<Rightarrow> string" where "show_hex \<equiv> show_base 16"

definition show_int :: "int \<Rightarrow> string" where
  "show_int i = (if i < 0 then CHR 0x2D # show_nat (nat (- i)) else show_nat (nat i))"

definition read_base :: "nat \<Rightarrow> string \<Rightarrow> nat" where
  "read_base b s = foldl (\<lambda>a c. a * b + digit_val c) 0 s"

lemma digit_val_char: "n < 36 \<Longrightarrow> digit_val (digit_char n) = n"
  by (simp add: digit_val_def digit_char_def)

lemma read_show_base: "2 \<le> b \<Longrightarrow> b \<le> 36 \<Longrightarrow> read_base b (show_base b n) = n"
proof (induction b n rule: show_base.induct)
  case (1 b n)
  show ?case
  proof (cases "n < b")
    case True
    with 1 show ?thesis by (subst show_base.simps) (simp add: read_base_def digit_val_char)
  next
    case False
    moreover have "digit_val (digit_char (n mod b)) = n mod b"
      using 1 by (intro digit_val_char) (meson less_le_trans mod_less_divisor zero_less_numeral order.strict_trans2)
    ultimately show ?thesis
      using 1 by (subst show_base.simps) (simp add: read_base_def)
  qed
qed

lemma show_base_not_Nil [simp]: "show_base b n \<noteq> []"
  by (subst show_base.simps) simp

lemma set_show_base: "2 \<le> b \<Longrightarrow> set (show_base b n) \<subseteq> digit_char ` {..<b}"
proof (induction b n rule: show_base.induct)
  case (1 b n)
  then show ?case by (subst show_base.simps) auto
qed

lemma digit_char_code: "n < 36 \<Longrightarrow> (of_char (digit_char n) :: nat) = (if n < 10 then 48 + n else 87 + n)"
  by (simp add: digit_char_def)

lemma show_nat_codes: "c \<in> set (show_nat n) \<Longrightarrow> 48 \<le> (of_char c :: nat) \<and> (of_char c :: nat) \<le> 57"
  using set_show_base [of 10 n] by (auto simp: digit_char_code)

end
