(* ===== verification/Http.thy ===== *)
theory Http
  imports Strings StdContainers
begin

text \<open>
  Messages (http/http.h, http/http.cpp): the method and status tables, the case-insensitive
  header maps, the request and response objects and their text forms. A map is a sorted list
  over the comparator \<open>CaseInsensitiveLess\<close>, interpreted below.
\<close>

section \<open>Methods and status codes\<close>

datatype HttpMethod =
    DELETE | GET | HEAD | POST | PUT | CONNECT | OPTIONS | TRACE | COPY | LOCK | MKCOL | MOVE |
    PROPFIND | PROPPATCH | SEARCH | UNLOCK | BIND | REBIND | UNBIND | ACL | REPORT | MKACTIVITY |
    CHECKOUT | MERGE | MSEARCH | NOTIFY | SUBSCRIBE | UNSUBSCRIBE | PATCH | PURGE | MKCALENDAR |
    LINK | UNLINK | SOURCE | INVALID_METHOD

definition HTTP_METHOD_MAP :: "(nat \<times> HttpMethod \<times> string) list" where
  "HTTP_METHOD_MAP =
    [(0, DELETE, ''DELETE''), (1, GET, ''GET''), (2, HEAD, ''HEAD''), (3, POST, ''POST''),
     (4, PUT, ''PUT''), (5, CONNECT, ''CONNECT''), (6, OPTIONS, ''OPTIONS''),
     (7, TRACE, ''TRACE''), (8, COPY, ''COPY''), (9, LOCK, ''LOCK''), (10, MKCOL, ''MKCOL''),
     (11, MOVE, ''MOVE''), (12, PROPFIND, ''PROPFIND''), (13, PROPPATCH, ''PROPPATCH''),
     (14, SEARCH, ''SEARCH''), (15, UNLOCK, ''UNLOCK''), (16, BIND, ''BIND''),
     (17, REBIND, ''REBIND''), (18, UNBIND, ''UNBIND''), (19, ACL, ''ACL''),
     (20, REPORT, ''REPORT''), (21, MKACTIVITY, ''MKACTIVITY''), (22, CHECKOUT, ''CHECKOUT''),
     (23, MERGE, ''MERGE''), (24, MSEARCH, ''M-SEARCH''), (25, NOTIFY, ''NOTIFY''),
     (26, SUBSCRIBE, ''SUBSCRIBE''), (27, UNSUBSCRIBE, ''UNSUBSCRIBE''), (28, PATCH, ''PATCH''),
     (29, PURGE, ''PURGE''), (30, MKCALENDAR, ''MKCALENDAR''), (31, LINK, ''LINK''),
     (32, UNLINK, ''UNLINK''), (33, SOURCE, ''SOURCE'')]"

text \<open>
  An \<open>HttpStatus\<close> is any int: the response parser casts whatever number it read.
\<close>

type_synonym HttpStatus = int

definition HTTP_STATUS_MAP :: "(HttpStatus \<times> string) list" where
  "HTTP_STATUS_MAP =
    [(100, ''Continue''), (101, ''Switching Protocols''), (102, ''Processing''), (200, ''OK''),
     (201, ''Created''), (202, ''Accepted''), (203, ''Non-Authoritative Information''),
     (204, ''No Content''), (205, ''Reset Content''), (206, ''Partial Content''),
     (207, ''Multi-Status''), (208, ''Already Reported''), (226, ''IM Used''),
     (300, ''Multiple Choices''), (301, ''Moved Permanently''), (302, ''Found''),
     (303, ''See Other''), (304, ''Not Modified''), (305, ''Use Proxy''),
     (307, ''Temporary Redirect''), (308, ''Permanent Redirect''), (400, ''Bad Request''),
     (401, ''Unauthorized''), (402, ''Payment Required''), (403, ''Forbidden''),
     (404, ''Not Found''), (405, ''Method Not Allowed''), (406, ''Not Acceptable''),
     (407, ''Proxy Authentication Required''), (408, ''Request Timeout''), (409, ''Conflict''),
     (410, ''Gone''), (411, ''Length Required''), (412, ''Precondition Failed''),
     (413, ''Payload Too Large''), (414, ''URI Too Long''), (415, ''Unsupported Media Type''),
     (416, ''Range Not Satisfiable''), (417, ''Expectation Failed''),
     (421, ''Misdirected Request''), (422, ''Unprocessable Entity''), (423, ''Locked''),
     (424, ''Failed Dependency''), (426, ''Upgrade Required''), (428, ''Precondition Required''),
     (429, ''Too Many Requests''), (431, ''Request Header Fields Too Large''),
     (451, ''Unavailable For Legal Reasons''), (500, ''Internal Server Error''),
     (501, ''Not Implemented''), (502, ''Bad Gateway''), (503, ''Service Unavailable''),
     (504, ''Gateway Timeout''), (505, ''HTTP Version Not Supported''),
     (506, ''Variant Also Negotiates''), (507, ''Insufficient Storage''), (508, ''Loop Detected''),
     (510, ''Not Extended''), (511, ''Network Authentication Required'')]"

abbreviation OK :: HttpStatus where "OK \<equiv> 200"
abbreviation NOT_FOUND :: HttpStatus where "NOT_FOUND \<equiv> 404"

text \<open>The numeric value of an enumerator; the one after the table is the invalid method.\<close>

definition method_index :: "HttpMethod \<Rightarrow> nat" where
  "method_index m =
     (case find (\<lambda>(n, m', s). m' = m) HTTP_METHOD_MAP of Some (n, m', s) \<Rightarrow> n | None \<Rightarrow> length HTTP_METHOD_MAP)"

definition StringToHttpMethod :: "string \<Rightarrow> HttpMethod" where
  "StringToHttpMethod m =
     (case find (\<lambda>(n, m', s). s = c_str m) HTTP_METHOD_MAP of Some (n, m', s) \<Rightarrow> m' | None \<Rightarrow> INVALID_METHOD)"

text \<open>The argument is the rest of the receive buffer, a C string.\<close>

definition CharsToHttpMethod :: "string \<Rightarrow> HttpMethod" where
  "CharsToHttpMethod m =
     (case find (\<lambda>(n, m', s). strncmp s (c_str m) (length s) = 0) HTTP_METHOD_MAP of
        Some (n, m', s) \<Rightarrow> m' | None \<Rightarrow> INVALID_METHOD)"

definition s_method_string :: "string list" where
  "s_method_string = map (\<lambda>(n, m, s). s) HTTP_METHOD_MAP"

definition HttpMethodToString :: "HttpMethod \<Rightarrow> string" where
  "HttpMethodToString m =
     (let idx = method_index m
      in if length s_method_string \<le> idx then ''<unknown>'' else s_method_string ! idx)"

definition HttpStatusToString :: "HttpStatus \<Rightarrow> string" where
  "HttpStatusToString s = (case map_of HTTP_STATUS_MAP s of Some msg \<Rightarrow> msg | None \<Rightarrow> ''<unknown>'')"

section \<open>Header maps\<close>

definition CaseInsensitiveLess :: "string \<Rightarrow> string \<Rightarrow> bool" where
  "CaseInsensitiveLess lhs rhs \<longleftrightarrow> strcasecmp (c_str lhs) (c_str rhs) < 0"

type_synonym MapType = "(string \<times> string) list"

text \<open>\<open>checkGetAs\<close> and \<open>getAs\<close>; \<open>cast\<close> stands for \<open>boost::lexical_cast\<close>, \<open>None\<close> when it throws.\<close>

definition checkGetAs :: "(string \<Rightarrow> 'a option) \<Rightarrow> MapType \<Rightarrow> string \<Rightarrow> 'a \<Rightarrow> 'a \<times> bool" where
  "checkGetAs cast m key def =
     (case smap_find CaseInsensitiveLess key m of
        None \<Rightarrow> (def, False)
      | Some v \<Rightarrow> (case cast v of Some x \<Rightarrow> (x, True) | None \<Rightarrow> (def, False)))"

definition getAs :: "(string \<Rightarrow> 'a option) \<Rightarrow> MapType \<Rightarrow> string \<Rightarrow> 'a \<Rightarrow> 'a" where
  "getAs cast m key def =
     (case smap_find CaseInsensitiveLess key m of
        None \<Rightarrow> def
      | Some v \<Rightarrow> (case cast v of Some x \<Rightarrow> x | None \<Rightarrow> def))"

section \<open>HttpRequest\<close>

record HttpRequest =
  rq_method :: HttpMethod
  rq_version :: u8
  rq_close :: bool
  rq_websocket :: bool
  rq_parserParamFlag :: u8
  rq_path :: string
  rq_query :: string
  rq_fragment :: string
  rq_body :: string
  rq_headers :: MapType
  rq_params :: MapType
  rq_cookies :: MapType

definition HttpRequest_new :: "u8 \<Rightarrow> bool \<Rightarrow> HttpRequest" where
  "HttpRequest_new version close =
     \<lparr>rq_method = GET, rq_version = version, rq_close = close, rq_websocket = False,
      rq_parserParamFlag = 0, rq_path = ''/'', rq_query = [], rq_fragment = [], rq_body = [],
      rq_headers = [], rq_params = [], rq_cookies = []\<rparr>"

definition rq_getHeader :: "string \<Rightarrow> string \<Rightarrow> HttpRequest \<Rightarrow> string" where
  "rq_getHeader key def rq =
     (case smap_find CaseInsensitiveLess key (rq_headers rq) of None \<Rightarrow> def | Some v \<Rightarrow> v)"

definition rq_getParam :: "string \<Rightarrow> string \<Rightarrow> HttpRequest \<Rightarrow> string" where
  "rq_getParam key def rq =
     (case smap_find CaseInsensitiveLess key (rq_params rq) of None \<Rightarrow> def | Some v \<Rightarrow> v)"

definition rq_getCookie :: "string \<Rightarrow> string \<Rightarrow> HttpRequest \<Rightarrow> string" where
  "rq_getCookie key def rq =
     (case smap_find CaseInsensitiveLess key (rq_cookies rq) of None \<Rightarrow> def | Some v \<Rightarrow> v)"

definition rq_setHeader :: "string \<Rightarrow> string \<Rightarrow> HttpRequest \<Rightarrow> HttpRequest" where
  "rq_setHeader key val rq = rq\<lparr>rq_headers := smap_set CaseInsensitiveLess key val (rq_headers rq)\<rparr>"

definition rq_setParam :: "string \<Rightarrow> string \<Rightarrow> HttpRequest \<Rightarrow> HttpRequest" where
  "rq_setParam key val rq = rq\<lparr>rq_params := smap_set CaseInsensitiveLess key val (rq_params rq)\<rparr>"

definition rq_setCookie :: "string \<Rightarrow> string \<Rightarrow> HttpRequest \<Rightarrow> HttpRequest" where
  "rq_setCookie key val rq = rq\<lparr>rq_cookies := smap_set CaseInsensitiveLess key val (rq_cookies rq)\<rparr>"

definition rq_delHeader :: "string \<Rightarrow> HttpRequest \<Rightarrow> HttpRequest" where
  "rq_delHeader key rq = rq\<lparr>rq_headers := smap_erase CaseInsensitiveLess key (rq_headers rq)\<rparr>"

definition rq_delParam :: "string \<Rightarrow> HttpRequest \<Rightarrow> HttpRequest" where
  "rq_delParam key rq = rq\<lparr>rq_params := smap_erase CaseInsensitiveLess key (rq_params rq)\<rparr>"

definition rq_delCookie :: "string \<Rightarrow> HttpRequest \<Rightarrow> HttpRequest" where
  "rq_delCookie key rq = rq\<lparr>rq_cookies := smap_erase CaseInsensitiveLess key (rq_cookies rq)\<rparr>"

text \<open>
  \<open>hasHeader(key, val)\<close>, \<open>hasParam\<close> and \<open>hasCookie\<close>: whether the key is there and
  what is written to \<open>*val\<close>.
\<close>

definition rq_hasHeader :: "string \<Rightarrow> HttpRequest \<Rightarrow> bool \<times> string option" where
  "rq_hasHeader key rq =
     (let it = smap_find CaseInsensitiveLess key (rq_headers rq) in (it \<noteq> None, it))"

definition rq_hasParam :: "string \<Rightarrow> HttpRequest \<Rightarrow> bool \<times> string option" where
  "rq_hasParam key rq =
     (let it = smap_find CaseInsensitiveLess key (rq_params rq) in (it \<noteq> None, it))"

definition rq_hasCookie :: "string \<Rightarrow> HttpRequest \<Rightarrow> bool \<times> string option" where
  "rq_hasCookie key rq =
     (let it = smap_find CaseInsensitiveLess key (rq_cookies rq) in (it \<noteq> None, it))"

section \<open>HttpResponse\<close>

record HttpResponse =
  rs_version :: u8
  rs_close :: bool
  rs_websocket :: bool
  rs_status :: HttpStatus
  rs_reason :: string
  rs_headers :: MapType
  rs_body :: string
  rs_cookies :: "string list"

definition HttpResponse_new :: "u8 \<Rightarrow> bool \<Rightarrow> HttpResponse" where
  "HttpResponse_new version close =
     \<lparr>rs_version = version, rs_close = close, rs_websocket = False, rs_status = OK,
      rs_reason = [], rs_headers = [], rs_body = [], rs_cookies = []\<rparr>"

definition createResponse :: "HttpRequest \<Rightarrow> HttpResponse" where
  "createResponse rq = HttpResponse_new (rq_version rq) (rq_close rq)"

definition rs_getHeader :: "string \<Rightarrow> string \<Rightarrow> HttpResponse \<Rightarrow> string" where
  "rs_getHeader key def rs =
     (case smap_find CaseInsensitiveLess key (rs_headers rs) of None \<Rightarrow> def | Some v \<Rightarrow> v)"

definition rs_setHeader :: "string \<Rightarrow> string \<Rightarrow> HttpResponse \<Rightarrow> HttpResponse" where
  "rs_setHeader key val rs = rs\<lparr>rs_headers := smap_set CaseInsensitiveLess key val (rs_headers rs)\<rparr>"

definition rs_delHeader :: "string \<Rightarrow> HttpResponse \<Rightarrow> HttpResponse" where
  "rs_delHeader key rs = rs\<lparr>rs_headers := smap_erase CaseInsensitiveLess key (rs_headers rs)\<rparr>"

section \<open>Text\<close>

abbreviation CRLF :: string where "CRLF \<equiv> [CHR 0x0D, CHR 0x0A]"

definition version_text :: "u8 \<Rightarrow> string" where
  "version_text v = show_nat (unat (drop_bit 4 v)) @ ''.'' @ show_nat (unat (and v 15))"

definition header_line :: "string \<times> string \<Rightarrow> string" where
  "header_line kv = fst kv @ '': '' @ snd kv @ CRLF"

text \<open>The header loops of the two dumps, which leave out the connection header.\<close>

fun dump_headers :: "bool \<Rightarrow> MapType \<Rightarrow> string" where
  "dump_headers skip [] = []"
| "dump_headers skip (i # is) =
     (if skip \<and> strcasecmp (c_str (fst i)) ''connection'' = 0 then dump_headers skip is
      else header_line i @ dump_headers skip is)"

definition connection_line :: "bool \<Rightarrow> string" where
  "connection_line close = ''connection: '' @ (if close then ''close'' else ''keep-alive'') @ CRLF"

definition dump_body :: "string \<Rightarrow> string" where
  "dump_body body =
     (if body \<noteq> [] then ''content-length: '' @ show_nat (length body) @ CRLF @ CRLF @ body else CRLF)"

definition request_line :: "HttpRequest \<Rightarrow> string" where
  "request_line rq =
     HttpMethodToString (rq_method rq) @ '' '' @ rq_path rq
     @ (if rq_query rq = [] then [] else ''?'') @ rq_query rq
     @ (if rq_fragment rq = [] then [] else ''#'') @ rq_fragment rq
     @ '' HTTP/'' @ version_text (rq_version rq) @ CRLF"

definition rq_dump :: "HttpRequest \<Rightarrow> string" where
  "rq_dump rq =
     request_line rq @ connection_line (rq_close rq) @ dump_headers True (rq_headers rq) @ dump_body (rq_body rq)"

definition status_line :: "HttpResponse \<Rightarrow> string" where
  "status_line rs =
     ''HTTP/'' @ version_text (rs_version rs) @ '' '' @ show_nat (nat (rs_status rs mod 2 ^ 32)) @ '' ''
     @ (if rs_reason rs = [] then HttpStatusToString (rs_status rs) else rs_reason rs) @ CRLF"

fun dump_cookies :: "string list \<Rightarrow> string" where
  "dump_cookies [] = []"
| "dump_cookies (i # is) = ''Set-Cookie: '' @ i @ CRLF @ dump_cookies is"

definition rs_dump :: "HttpResponse \<Rightarrow> string" where
  "rs_dump rs =
     status_line rs @ dump_headers (\<not> rs_websocket rs) (rs_headers rs) @ dump_cookies (rs_cookies rs)
     @ (if \<not> rs_websocket rs then connection_line (rs_close rs) else []) @ dump_body (rs_body rs)"

section \<open>The comparator\<close>

interpretation ci: comparator CaseInsensitiveLess
proof
  fix x y z
  note less = strcasecmp_less [OF c_str_no_nul c_str_no_nul]
  show "\<not> CaseInsensitiveLess x x"
    using lexordp_irreflexive' by (auto simp: CaseInsensitiveLess_def less)
  show "CaseInsensitiveLess x y \<Longrightarrow> CaseInsensitiveLess y z \<Longrightarrow> CaseInsensitiveLess x z"
    by (auto simp: CaseInsensitiveLess_def less intro: lexordp_trans)
  show "\<not> CaseInsensitiveLess x y \<Longrightarrow> \<not> CaseInsensitiveLess y z \<Longrightarrow> \<not> CaseInsensitiveLess x z"
    using lexordp_linear lexordp_trans by (fastforce simp: CaseInsensitiveLess_def less)
qed

definition ci_key :: "string \<Rightarrow> nat list" where
  "ci_key s = map lower (c_str s)"

lemma ci_equiv: "ci.equiv x y \<longleftrightarrow> ci_key x = ci_key y"
proof -
  note less = strcasecmp_less [OF c_str_no_nul c_str_no_nul]
  show ?thesis
    using lexordp_linear [of "ci_key x" "ci_key y"] lexordp_irreflexive' [of "ci_key y"]
    by (auto simp: ci.equiv_def CaseInsensitiveLess_def less ci_key_def)
qed

end
