(* ===== verification/CNumbers.thy ===== *)
theory CNumbers
  imports Strings
begin

text \<open>
  The conversions of the C library that the sources use: \<open>atol\<close> as \<open>strtol\<close> in base ten,
  which saturates, and \<open>atoi\<close>, which cuts its result to an \<open>int\<close>; the same in base sixteen. All
  stop at the first character that is no digit.
\<close>

definition is_space :: "char \<Rightarrow> bool" where
  "is_space c \<longleftrightarrow> c = CHR 0x20 \<or> 9 \<le> (of_char c :: nat) \<and> (of_char c :: nat) \<le> 13"

definition is_digit :: "char \<Rightarrow> bool" where
  "is_digit c \<longleftrightarrow> 48 \<le> (of_char c :: nat) \<and> (of_char c :: nat) \<le> 57"

definition digits_value :: "string \<Rightarrow> int" where
  "digits_value s = int (read_base 10 (takeWhile is_digit s))"

fun signed_value :: "string \<Rightarrow> int" where
  "signed_value [] = 0"
| "signed_value (c # cs) =
     (if c = CHR 0x2D then - digits_value cs
      else if c = CHR 0x2B then digits_value cs
      else digits_value (c # cs))"

definition atol :: "string \<Rightarrow> int" where
  "atol s = min (2 ^ 63 - 1) (max (- (2 ^ 63)) (signed_value (dropWhile is_space (c_str s))))"

definition atoi :: "string \<Rightarrow> int" where
  "atoi s = sint (word_of_int (atol s) :: 32 word)"

text \<open>\<open>strtol\<close> in base sixteen, with its optional prefix, and its result as an \<open>int\<close>.\<close>

definition is_xdigit :: "char \<Rightarrow> bool" where
  "is_xdigit c \<longleftrightarrow> is_digit c \<or> (let n = of_char c :: nat in 65 \<le> n \<and> n \<le> 70 \<or> 97 \<le> n \<and> n \<le> 102)"

definition xdigit_val :: "char \<Rightarrow> nat" where
  "xdigit_val c = (let n = of_char c :: nat in if n < 58 then n - 48 else if n < 71 then n - 55 else n - 87)"

definition skip_0x :: "string \<Rightarrow> string" where
  "skip_0x s = (if 3 \<le> length s \<and> s ! 0 = CHR ''0'' \<and> s ! 1 \<in> {CHR ''x'', CHR ''X''} \<and> is_xdigit (s ! 2) then drop 2 s else s)"

definition xdigits_value :: "string \<Rightarrow> int" where
  "xdigits_value s = int (foldl (\<lambda>a c. a * 16 + xdigit_val c) 0 (takeWhile is_xdigit (skip_0x s)))"

fun signed_xvalue :: "string \<Rightarrow> int" where
  "signed_xvalue [] = 0"
| "signed_xvalue (c # cs) =
     (if c = CHR 0x2D then - xdigits_value cs
      else if c = CHR 0x2B then xdigits_value cs
      else xdigits_value (c # cs))"

definition strtol16 :: "string \<Rightarrow> int" where
  "strtol16 s = min (2 ^ 63 - 1) (max (- (2 ^ 63)) (signed_xvalue (dropWhile is_space (c_str s))))"

definition strtoi16 :: "string \<Rightarrow> int" where
  "strtoi16 s = sint (word_of_int (strtol16 s) :: 32 word)"

section \<open>Reading what was printed\<close>

lemma show_nat_is_digit: "c \<in> set (show_nat n) \<Longrightarrow> is_digit c"
  by (simp add: is_digit_def show_nat_codes)

lemma is_digit_not: "is_digit c \<Longrightarrow> \<not> is_space c \<and> c \<noteq> CHR 0x2D \<and> c \<noteq> CHR 0x2B \<and> c \<noteq> CHR 0x00"
  by (auto simp: is_digit_def is_space_def)

lemma digits_value_show: "digits_value (show_nat n) = int n"
proof -
  have "takeWhile is_digit (show_nat n) = show_nat n" using show_nat_is_digit by (simp only: takeWhile_eq_all_conv) blast
  then show ?thesis by (simp only: digits_value_def) (simp add: read_show_base)
qed

lemma signed_value_show: "signed_value (show_int i) = i"
proof (cases "i < 0")
  case True
  then show ?thesis by (simp add: show_int_def digits_value_show)
next
  case False
  obtain c cs where s: "show_nat (nat i) = c # cs" by (cases "show_nat (nat i)") auto
  then have "is_digit c" using show_nat_is_digit [of c "nat i"] by simp
  then show ?thesis using False digits_value_show [of "nat i"] is_digit_not [of c] by (simp add: show_int_def s)
qed

lemma show_int_plain: "c \<in> set (show_int i) \<Longrightarrow> \<not> is_space c \<and> c \<noteq> CHR 0x00"
  by (auto simp: show_int_def is_space_def dest!: show_nat_is_digit is_digit_not split: if_splits)

lemma c_str_show [simp]: "c_str (show_int i) = show_int i"
  by (simp add: c_str_def show_int_plain)

lemma dropWhile_show [simp]: "dropWhile is_space (show_int i) = show_int i"
  by (simp add: dropWhile_eq_self_iff show_int_plain)

lemma atol_show: "- (2 ^ 63) \<le> i \<Longrightarrow> i < 2 ^ 63 \<Longrightarrow> atol (show_int i) = i"
  by (simp add: atol_def signed_value_show)

lemma atoi_show: "- (2 ^ 31) \<le> i \<Longrightarrow> i < 2 ^ 31 \<Longrightarrow> atoi (show_int i) = i"
  by (simp add: atoi_def atol_show sint_sbintrunc' signed_take_bit_int_eq_self)

end
