(* ===== verification/HttpParser.thy ===== *)
theory HttpParser
  imports Http CNumbers
begin

text \<open>
  The parsers around the generated state machines (http/http_parser.cpp). They are the same over
  any machine: it takes a prefix of the data it is given, unless one of its assertions fails, and
  reports the elements it met, in order, each with the rest of the buffer from where it starts
  and its length. The callbacks turn the elements into a request or a response and an error code.
\<close>

section \<open>Machines\<close>

datatype element = request_method | request_uri | fragment | request_path | query_string
  | http_version | header_done | reason_phrase | status_code | chunk_size | last_chunk

text \<open>\<open>Element e at length\<close>, and \<open>Field\<close> with the name and value already cut to length.\<close>

datatype http_event = Element element string nat | Field string string

text \<open>\<open>hm_memory\<close> is what the memory of the record held before its first \<open>init\<close>.\<close>

record 'p http_machine =
  hm_memory :: 'p
  hm_init :: "'p \<Rightarrow> 'p"
  hm_execute :: "'p \<Rightarrow> string \<Rightarrow> ('p \<times> int \<times> http_event list) res"
  hm_finish :: "'p \<Rightarrow> int"
  hm_has_error :: "'p \<Rightarrow> bool"

record 'p httpclient_machine = "'p http_machine" +
  hc_chunked :: "'p \<Rightarrow> bool"
  hc_content_len :: "'p \<Rightarrow> int"
  hc_chunks_done :: "'p \<Rightarrow> bool"

text \<open>
  \<open>memmove(data, data + offset, len - offset)\<close>: what is left of the data; an offset outside
  the data copies from outside the buffer.
\<close>

definition consume :: "int \<Rightarrow> string \<Rightarrow> string res" where
  "consume offset data =
     (if offset < 0 \<or> offset > int (length data) then Inl BadAccess else Inr (drop (nat offset) data))"

text \<open>
  What the actions of a machine hand to the callbacks: the text from a mark up to the pointer, with
  its length, of type \<open>size_t\<close>.
\<close>

definition LEN :: "nat \<Rightarrow> nat \<Rightarrow> nat" where
  "LEN at' fpc = nat ((int fpc - int at') mod 2 ^ 64)"

definition element_at :: "string \<Rightarrow> element \<Rightarrow> nat \<Rightarrow> nat \<Rightarrow> http_event" where
  "element_at buffer e at' fpc = Element e (drop at' buffer) (LEN at' fpc)"

section \<open>Requests\<close>

record 'p HttpRequestParser =
  rp_parser :: 'p
  rp_data :: HttpRequest
  rp_error :: int

definition HttpRequestParser_new :: "('p, 'z) http_machine_scheme \<Rightarrow> 'p HttpRequestParser" where
  "HttpRequestParser_new M = \<lparr>rp_parser = hm_init M (hm_memory M), rp_data = HttpRequest_new 0x11 True, rp_error = 0\<rparr>"

definition on_request_method :: "string \<Rightarrow> 'p HttpRequestParser \<Rightarrow> 'p HttpRequestParser" where
  "on_request_method at' parser =
     (let m = CharsToHttpMethod at'
      in if m = INVALID_METHOD then parser\<lparr>rp_error := 1000\<rparr>
         else parser\<lparr>rp_data := (rp_data parser)\<lparr>rq_method := m\<rparr>\<rparr>)"

definition on_request_fragment :: "string \<Rightarrow> nat \<Rightarrow> 'p HttpRequestParser \<Rightarrow> 'p HttpRequestParser" where
  "on_request_fragment at' len parser = parser\<lparr>rp_data := (rp_data parser)\<lparr>rq_fragment := take len at'\<rparr>\<rparr>"

definition on_request_path :: "string \<Rightarrow> nat \<Rightarrow> 'p HttpRequestParser \<Rightarrow> 'p HttpRequestParser" where
  "on_request_path at' len parser = parser\<lparr>rp_data := (rp_data parser)\<lparr>rq_path := take len at'\<rparr>\<rparr>"

definition on_request_query :: "string \<Rightarrow> nat \<Rightarrow> 'p HttpRequestParser \<Rightarrow> 'p HttpRequestParser" where
  "on_request_query at' len parser = parser\<lparr>rp_data := (rp_data parser)\<lparr>rq_query := take len at'\<rparr>\<rparr>"

definition version_of :: "string \<Rightarrow> nat \<Rightarrow> u8 option" where
  "version_of at' len =
     (if strncmp (c_str at') ''HTTP/1.1'' len = 0 then Some 0x11
      else if strncmp (c_str at') ''HTTP/1.0'' len = 0 then Some 0x10 else None)"

definition on_request_version :: "string \<Rightarrow> nat \<Rightarrow> 'p HttpRequestParser \<Rightarrow> 'p HttpRequestParser" where
  "on_request_version at' len parser =
     (case version_of at' len of
        Some v \<Rightarrow> parser\<lparr>rp_data := (rp_data parser)\<lparr>rq_version := v\<rparr>\<rparr>
      | None \<Rightarrow> parser\<lparr>rp_error := 1001\<rparr>)"

definition on_request_http_field :: "string \<Rightarrow> string \<Rightarrow> 'p HttpRequestParser \<Rightarrow> 'p HttpRequestParser" where
  "on_request_http_field field value parser =
     (if length field = 0 then parser
      else parser\<lparr>rp_data := rq_setHeader field value (rp_data parser)\<rparr>)"

text \<open>The callbacks as the constructor registers them; the others do nothing.\<close>

fun on_request :: "http_event \<Rightarrow> 'p HttpRequestParser \<Rightarrow> 'p HttpRequestParser" where
  "on_request (Element e at' len) parser =
     (case e of
        request_method \<Rightarrow> on_request_method at' parser
      | fragment \<Rightarrow> on_request_fragment at' len parser
      | request_path \<Rightarrow> on_request_path at' len parser
      | query_string \<Rightarrow> on_request_query at' len parser
      | http_version \<Rightarrow> on_request_version at' len parser
      | _ \<Rightarrow> parser)"
| "on_request (Field field value) parser = on_request_http_field field value parser"

definition rp_execute ::
  "('p, 'z) http_machine_scheme \<Rightarrow> string \<Rightarrow> 'p HttpRequestParser \<Rightarrow> ('p HttpRequestParser \<times> string) res" where
  "rp_execute M data parser =
     bindR (hm_execute M (rp_parser parser) data) (\<lambda>(p, offset, evs).
       mapR (\<lambda>rest. (fold on_request evs (parser\<lparr>rp_parser := p\<rparr>), rest)) (consume offset data))"

definition rp_isFinished :: "('p, 'z) http_machine_scheme \<Rightarrow> 'p HttpRequestParser \<Rightarrow> int" where
  "rp_isFinished M parser = hm_finish M (rp_parser parser)"

definition rp_hasError :: "('p, 'z) http_machine_scheme \<Rightarrow> 'p HttpRequestParser \<Rightarrow> bool" where
  "rp_hasError M parser \<longleftrightarrow> rp_error parser \<noteq> 0 \<or> hm_has_error M (rp_parser parser)"

definition rp_getContentLength :: "(string \<Rightarrow> u64 option) \<Rightarrow> 'p HttpRequestParser \<Rightarrow> u64" where
  "rp_getContentLength cast parser = getAs cast (rq_headers (rp_data parser)) ''content-length'' 0"

section \<open>Responses\<close>

record 'p HttpResponseParser =
  sp_parser :: 'p
  sp_data :: HttpResponse
  sp_error :: int

definition HttpResponseParser_new :: "('p, 'z) http_machine_scheme \<Rightarrow> 'p HttpResponseParser" where
  "HttpResponseParser_new M = \<lparr>sp_parser = hm_init M (hm_memory M), sp_data = HttpResponse_new 0x11 True, sp_error = 0\<rparr>"

definition on_response_reason :: "string \<Rightarrow> nat \<Rightarrow> 'p HttpResponseParser \<Rightarrow> 'p HttpResponseParser" where
  "on_response_reason at' len parser = parser\<lparr>sp_data := (sp_data parser)\<lparr>rs_reason := take len at'\<rparr>\<rparr>"

definition on_response_status :: "string \<Rightarrow> 'p HttpResponseParser \<Rightarrow> 'p HttpResponseParser" where
  "on_response_status at' parser = parser\<lparr>sp_data := (sp_data parser)\<lparr>rs_status := atoi at'\<rparr>\<rparr>"

definition on_response_version :: "string \<Rightarrow> nat \<Rightarrow> 'p HttpResponseParser \<Rightarrow> 'p HttpResponseParser" where
  "on_response_version at' len parser =
     (case version_of at' len of
        Some v \<Rightarrow> parser\<lparr>sp_data := (sp_data parser)\<lparr>rs_version := v\<rparr>\<rparr>
      | None \<Rightarrow> parser\<lparr>sp_error := 1001\<rparr>)"

definition on_response_http_field :: "string \<Rightarrow> string \<Rightarrow> 'p HttpResponseParser \<Rightarrow> 'p HttpResponseParser" where
  "on_response_http_field field value parser =
     (if length field = 0 then parser
      else parser\<lparr>sp_data := rs_setHeader field value (sp_data parser)\<rparr>)"

fun on_response :: "http_event \<Rightarrow> 'p HttpResponseParser \<Rightarrow> 'p HttpResponseParser" where
  "on_response (Element e at' len) parser =
     (case e of
        reason_phrase \<Rightarrow> on_response_reason at' len parser
      | status_code \<Rightarrow> on_response_status at' parser
      | http_version \<Rightarrow> on_response_version at' len parser
      | _ \<Rightarrow> parser)"
| "on_response (Field field value) parser = on_response_http_field field value parser"

definition sp_execute ::
  "('p, 'z) http_machine_scheme \<Rightarrow> string \<Rightarrow> bool \<Rightarrow> 'p HttpResponseParser \<Rightarrow> ('p HttpResponseParser \<times> string) res" where
  "sp_execute M data chunck parser =
     (let parser1 = (if chunck then parser\<lparr>sp_parser := hm_init M (sp_parser parser)\<rparr> else parser)
      in bindR (hm_execute M (sp_parser parser1) data) (\<lambda>(p, offset, evs).
           mapR (\<lambda>rest. (fold on_response evs (parser1\<lparr>sp_parser := p\<rparr>), rest)) (consume offset data)))"

definition sp_isFinished :: "('p, 'z) http_machine_scheme \<Rightarrow> 'p HttpResponseParser \<Rightarrow> int" where
  "sp_isFinished M parser = hm_finish M (sp_parser parser)"

definition sp_hasError :: "('p, 'z) http_machine_scheme \<Rightarrow> 'p HttpResponseParser \<Rightarrow> bool" where
  "sp_hasError M parser \<longleftrightarrow> sp_error parser \<noteq> 0 \<or> hm_has_error M (sp_parser parser)"

definition sp_getContentLength :: "(string \<Rightarrow> u64 option) \<Rightarrow> 'p HttpResponseParser \<Rightarrow> u64" where
  "sp_getContentLength cast parser = getAs cast (rs_headers (sp_data parser)) ''content-length'' 0"

section \<open>Lemmas\<close>

lemma LEN_le: "at' \<le> fpc \<Longrightarrow> LEN at' fpc \<le> fpc"
proof -
  assume "at' \<le> fpc"
  then have "(int fpc - int at') mod 2 ^ 64 \<le> int fpc - int at'" by (intro zmod_le_nonneg_dividend) simp
  then show ?thesis by (simp add: LEN_def)
qed

text \<open>An element whose text stands between its mark and the pointer.\<close>

lemma LEN_sub: "m \<le> p \<Longrightarrow> p < 2 ^ 64 \<Longrightarrow> LEN m p = p - m"
  by (simp add: LEN_def zmod_trivial_iff nat_diff_distrib flip: of_nat_diff)

lemma element_cut:
  "length (pre @ x @ y) < 2 ^ 64 \<Longrightarrow> element_at (pre @ x @ y) e (length pre) (length pre + length x) = Element e (x @ y) (length x)"
  by (simp add: element_at_def LEN_sub)

lemma consume_eq_Inr: "consume n d = Inr r \<longleftrightarrow> 0 \<le> n \<and> n \<le> int (length d) \<and> r = drop (nat n) d"
  by (auto simp: consume_def)

text \<open>
  A version is accepted exactly when the element is a prefix of one of the two versions: the
  comparison stops at the element's length.
\<close>

lemma version_of_prefix:
  assumes "len \<le> length (c_str at')"
  shows "version_of at' len = Some 0x11 \<longleftrightarrow> take len (c_str at') = take len ''HTTP/1.1''"
  using strncmp_prefix [OF c_str_no_nul, of "''HTTP/1.1''" at' len] by (simp add: version_of_def)

text \<open>
  After any run of callbacks the error is 0, 1000 or 1001, and it is 1000 or 1001 only if a
  method or version element was refused.
\<close>

lemma on_request_error:
  "rp_error (on_request ev parser) = rp_error parser \<or> rp_error (on_request ev parser) \<in> {1000, 1001}"
  by (cases ev) (auto simp: on_request_method_def on_request_fragment_def on_request_path_def on_request_query_def
    on_request_version_def on_request_http_field_def Let_def split: element.splits option.splits)

lemma fold_on_request_error:
  "rp_error parser \<in> {0, 1000, 1001} \<Longrightarrow> rp_error (fold on_request evs parser) \<in> {0, 1000, 1001}"
proof (induction evs arbitrary: parser)
  case (Cons ev evs)
  have "rp_error (on_request ev parser) \<in> {0, 1000, 1001}"
    using on_request_error [of ev parser] Cons.prems by auto
  from Cons.IH [OF this] show ?case by simp
qed simp

end
