(* ===== verification/Stream.thy ===== *)
theory Stream
  imports ByteArray_IO
begin

text \<open>
  Streams (stream.cpp, socket_stream.cpp, and the part of socket.cpp under them). What the
  kernel does is a script the model takes as input: the pieces in which data arrives and how
  much of each send is accepted, with failures anywhere. The fixed-size transfers of
  \<open>Stream\<close> are one loop over the virtual read or write.
\<close>

section \<open>Sockets\<close>

text \<open>What the next \<open>recv\<close> meets: data, of which it takes at most what fits, or an error.\<close>

datatype 'b recv_ev = Chunk "'b list" | RecvFail

record 'b sock =
  sk_isConnected :: bool
  sk_sock :: int
  sk_in :: "'b recv_ev list"
  sk_snd :: "int list"
  sk_out :: "'b list"

definition Socket_close :: "'b sock \<Rightarrow> 'b sock \<times> bool" where
  "Socket_close s =
     (if \<not> sk_isConnected s \<and> sk_sock s = -1 then (s, True)
      else (s\<lparr>sk_isConnected := False, sk_sock := -1\<rparr>, False))"

text \<open>
  \<open>recv\<close> of at most \<open>n\<close> bytes: the result and the bytes stored. An empty chunk is an end of
  file; no event left is one too.
\<close>

fun kernel_recv :: "nat \<Rightarrow> 'b recv_ev list \<Rightarrow> int \<times> 'b list \<times> 'b recv_ev list" where
  "kernel_recv n [] = (0, [], [])"
| "kernel_recv n (RecvFail # es) = (-1, [], es)"
| "kernel_recv n (Chunk bs # es) =
     (int (min n (length bs)), take n bs, if length bs \<le> n then es else Chunk (drop n bs) # es)"

definition Socket_recv :: "nat \<Rightarrow> 'b sock \<Rightarrow> int \<times> 'b list \<times> 'b sock" where
  "Socket_recv n s =
     (if sk_isConnected s
      then (case kernel_recv n (sk_in s) of (rt, bs, es) \<Rightarrow> (rt, bs, s\<lparr>sk_in := es\<rparr>))
      else (-1, [], s))"

text \<open>\<open>send\<close>: a negative answer is an error, any other the number of bytes accepted at most.\<close>

definition Socket_send :: "'b list \<Rightarrow> 'b sock \<Rightarrow> int \<times> 'b sock" where
  "Socket_send bs s =
     (if sk_isConnected s
      then (case sk_snd s of
              [] \<Rightarrow> (int (length bs), s\<lparr>sk_out := sk_out s @ bs\<rparr>)
            | a # as \<Rightarrow>
                (if a < 0 then (-1, s\<lparr>sk_snd := as\<rparr>)
                 else (int (min (nat a) (length bs)), s\<lparr>sk_snd := as, sk_out := sk_out s @ take (nat a) bs\<rparr>)))
      else (-1, s))"

section \<open>Fixed-size transfers\<close>

text \<open>
  The loop the four \<open>FixSize\<close> functions share. \<open>step left s\<close> is the virtual read or write
  of at most \<open>left\<close> bytes; \<open>Some len\<close> is an early return of what it returned.
\<close>

function fix_loop :: "(nat \<Rightarrow> 's \<Rightarrow> (int \<times> 's) res) \<Rightarrow> int \<Rightarrow> 's \<Rightarrow> (int option \<times> 's) res" where
  "fix_loop step left s =
     (if left \<le> 0 then Inr (None, s)
      else bindR (step (nat left) s) (\<lambda>(len, s1).
        if len \<le> 0 then Inr (Some len, s1) else fix_loop step (left - len) s1))"
  by pat_completeness auto
termination
  by (relation "measure (\<lambda>(step, left, s). nat left)") auto

declare fix_loop.simps [simp del]

text \<open>\<open>int64_t left = length\<close> and \<open>return length\<close> as an int.\<close>

definition as_int64 :: "nat \<Rightarrow> int" where
  "as_int64 n = sint (of_nat n :: u64)"

definition as_int :: "nat \<Rightarrow> int" where
  "as_int n = sint (of_nat n :: u32)"

definition fix_size :: "(nat \<Rightarrow> 's \<Rightarrow> (int \<times> 's) res) \<Rightarrow> nat \<Rightarrow> 's \<Rightarrow> (int \<times> 's) res" where
  "fix_size step len s =
     mapR (\<lambda>(r, s1). (case r of Some e \<Rightarrow> e | None \<Rightarrow> as_int len, s1)) (fix_loop step (as_int64 len) s)"

section \<open>SocketStream\<close>

record 'b sstream =
  m_socket :: "'b sock option"
  m_owner :: bool

definition SocketStream_new :: "'b sock option \<Rightarrow> bool \<Rightarrow> 'b sstream" where
  "SocketStream_new sk owner = \<lparr>m_socket = sk, m_owner = owner\<rparr>"

definition ss_isConnected :: "'b sstream \<Rightarrow> bool" where
  "ss_isConnected ss = (case m_socket ss of None \<Rightarrow> False | Some s \<Rightarrow> sk_isConnected s)"

definition ss_close :: "'b sstream \<Rightarrow> 'b sstream" where
  "ss_close ss = ss\<lparr>m_socket := map_option (\<lambda>s. fst (Socket_close s)) (m_socket ss)\<rparr>"

definition SocketStream_destroy :: "'b sstream \<Rightarrow> 'b sstream" where
  "SocketStream_destroy ss = (if m_owner ss \<and> m_socket ss \<noteq> None then ss_close ss else ss)"

definition ss_recv :: "nat \<Rightarrow> 'b sstream \<Rightarrow> int \<times> 'b list \<times> 'b sstream" where
  "ss_recv n ss =
     (case m_socket ss of
        None \<Rightarrow> (-1, [], ss)
      | Some s \<Rightarrow> (case Socket_recv n s of (rt, bs, s1) \<Rightarrow> (rt, bs, ss\<lparr>m_socket := Some s1\<rparr>)))"

definition ss_send :: "'b list \<Rightarrow> 'b sstream \<Rightarrow> int \<times> 'b sstream" where
  "ss_send bs ss =
     (case m_socket ss of
        None \<Rightarrow> (-1, ss)
      | Some s \<Rightarrow> (case Socket_send bs s of (rt, s1) \<Rightarrow> (rt, ss\<lparr>m_socket := Some s1\<rparr>)))"

text \<open>\<open>read(void*, length)\<close> and \<open>write(const void*, length)\<close>.\<close>

definition ss_read :: "nat \<Rightarrow> 'b sstream \<Rightarrow> int \<times> 'b list \<times> 'b sstream" where
  "ss_read n ss = (if \<not> ss_isConnected ss then (-1, [], ss) else ss_recv n ss)"

definition ss_write :: "'b list \<Rightarrow> 'b sstream \<Rightarrow> int \<times> 'b sstream" where
  "ss_write bs ss = (if \<not> ss_isConnected ss then (-1, ss) else ss_send bs ss)"

text \<open>\<open>recvmsg\<close> fills the blocks of an iovec list in order; \<open>sendmsg\<close> collects them.\<close>

fun scatter :: "iov list \<Rightarrow> u8 list \<Rightarrow> node list \<Rightarrow> node list" where
  "scatter [] bs nodes = nodes"
| "scatter (v # vs) bs nodes =
     scatter vs (drop (iov_len v) bs)
       (nodes[iov_node v := overwrite (iov_off v) (map Some (take (iov_len v) bs)) (nodes ! iov_node v)])"

fun gather :: "iov list \<Rightarrow> node list \<Rightarrow> cell list" where
  "gather [] nodes = []"
| "gather (v # vs) nodes = take (iov_len v) (drop (iov_off v) (nodes ! iov_node v)) @ gather vs nodes"

definition iov_total :: "iov list \<Rightarrow> nat" where
  "iov_total vs = sum_list (map iov_len vs)"

text \<open>\<open>read(ByteArray::ptr, length)\<close> and \<open>write(ByteArray::ptr, length)\<close>; a cell never written is sent as it is.\<close>

definition ss_read_ba :: "nat \<Rightarrow> u8 sstream \<times> bytearray \<Rightarrow> (int \<times> u8 sstream \<times> bytearray) res" where
  "ss_read_ba n = (\<lambda>(ss, ba).
     if \<not> ss_isConnected ss then Inr (-1, ss, ba)
     else bindR (getWriteBuffers n ba) (\<lambda>(vs, _, ba1).
       case ss_recv (iov_total vs) ss of (rt, bs, ss1) \<Rightarrow>
         let ba2 = ba1\<lparr>m_nodes := scatter vs bs (m_nodes ba1)\<rparr> in
         if rt > 0 then mapR (\<lambda>ba3. (rt, ss1, ba3)) (setPosition (getPosition ba2 + nat rt) ba2)
         else Inr (rt, ss1, ba2)))"

definition ss_write_ba :: "nat \<Rightarrow> cell sstream \<times> bytearray \<Rightarrow> (int \<times> cell sstream \<times> bytearray) res" where
  "ss_write_ba n = (\<lambda>(ss, ba).
     if \<not> ss_isConnected ss then Inr (-1, ss, ba)
     else bindR (getReadBuffers n ba) (\<lambda>(vs, _).
       case ss_send (gather vs (m_nodes ba)) ss of (rt, ss1) \<Rightarrow>
         if rt > 0 then mapR (\<lambda>ba1. (rt, ss1, ba1)) (setPosition (getPosition ba + nat rt) ba)
         else Inr (rt, ss1, ba)))"

text \<open>
  The four fixed-size functions on a socket stream. The memory versions keep what was
  stored so far, or what is left to send, beside the stream: \<open>buffer + offset\<close>.
\<close>

definition readFixSize :: "nat \<Rightarrow> 'b sstream \<Rightarrow> (int \<times> 'b list \<times> 'b sstream) res" where
  "readFixSize len ss =
     fix_size (\<lambda>n (mem, st). case ss_read n st of (rt, bs, st1) \<Rightarrow> Inr (rt, mem @ bs, st1)) len ([], ss)"

definition writeFixSize :: "'b list \<Rightarrow> 'b sstream \<Rightarrow> (int \<times> nat \<times> 'b sstream) res" where
  "writeFixSize buffer ss =
     fix_size (\<lambda>n (off, st). case ss_write (take n (drop off buffer)) st of
         (rt, st1) \<Rightarrow> Inr (rt, off + nat rt, st1)) (length buffer) (0, ss)"

definition readFixSize_ba :: "nat \<Rightarrow> u8 sstream \<Rightarrow> bytearray \<Rightarrow> (int \<times> u8 sstream \<times> bytearray) res" where
  "readFixSize_ba len ss ba = fix_size ss_read_ba len (ss, ba)"

definition writeFixSize_ba :: "nat \<Rightarrow> cell sstream \<Rightarrow> bytearray \<Rightarrow> (int \<times> cell sstream \<times> bytearray) res" where
  "writeFixSize_ba len ss ba = fix_size ss_write_ba len (ss, ba)"

end
