(* ===== verification/Stream_Props.thy ===== *)
theory Stream_Props
  imports Stream ByteArray_Props
begin

text \<open>
  The fixed-size transfers are all or a proper part: the contract of a partial read or write
  is a locale, the loop is proved once inside it, and the four transfers of a socket stream
  interpret it. The reads and writes of a byte buffer go through its scatter lists, which the
  first section ties to the flat contents.
\<close>

section \<open>Scatter lists in memory\<close>

lemma upt_append_cases:
  assumes "[a..<a + l] @ rest = [p..<p + n]" and "0 < l"
  shows "a = p" and "l \<le> n" and "rest = [p + l..<(p + l) + (n - l)]"
proof -
  have len: "l + length rest = n" using arg_cong [OF assms(1), of length] by simp
  have "hd ([a..<a + l] @ rest) = hd [p..<p + n]" using assms(1) by simp
  with assms(2) len show a: "a = p" by (simp add: upt_conv_Cons)
  show l: "l \<le> n" using len by simp
  have "[p..<p + n] = [p..<p + l] @ [p + l..<p + n]" using l upt_add_eq_append [of p "p + l" "n - l"] by simp
  with assms(1) a l show "rest = [p + l..<(p + l) + (n - l)]" by simp
qed

lemma iov_covers_Cons:
  assumes "iov_covers B nodes (v # vs) p n"
  shows "iov_node v * B + iov_off v = p" "iov_len v \<le> n" "iov_ok B nodes v"
    "iov_covers B nodes vs (p + iov_len v) (n - iov_len v)"
proof -
  have e: "[iov_node v * B + iov_off v..<iov_node v * B + iov_off v + iov_len v] @ concat (map (iov_addrs B) vs) = [p..<p + n]"
    and ok: "iov_ok B nodes v" "list_all (iov_ok B nodes) vs"
    using assms by (simp_all add: iov_covers_def iov_addrs_def)
  then have "0 < iov_len v" by (simp add: iov_ok_def)
  note * = upt_append_cases [OF e this]
  show "iov_node v * B + iov_off v = p" "iov_len v \<le> n" "iov_ok B nodes v" using * ok by simp_all
  show "iov_covers B nodes vs (p + iov_len v) (n - iov_len v)"
    using *(3) ok by (simp add: iov_covers_def)
qed

lemma iov_covers_none: "iov_covers B nodes [] p n \<Longrightarrow> n = 0"
  using upt_eq_Nil_conv [of p "p + n"] by (auto simp: iov_covers_def)

lemma iov_total_covers: "iov_covers B nodes vs p n \<Longrightarrow> iov_total vs = n"
proof (induction vs arbitrary: p n)
  case Nil
  then show ?case by (auto simp: iov_total_def dest: iov_covers_none)
next
  case (Cons v vs)
  from Cons.IH [OF iov_covers_Cons(4) [OF Cons.prems]] iov_covers_Cons(2) [OF Cons.prems]
  show ?case by (simp add: iov_total_def)
qed

lemma iov_ok_update: "iov_ok B (nodes[i := x]) v \<longleftrightarrow> iov_ok B nodes v"
  by (simp add: iov_ok_def)

lemma scatter_overwrite:
  assumes "uniform B nodes" and "iov_covers B nodes vs p n" and "length bs \<le> n" and "p + n \<le> length (concat nodes)"
  shows "uniform B (scatter vs bs nodes) \<and> length (scatter vs bs nodes) = length nodes
    \<and> concat (scatter vs bs nodes) = overwrite p (map Some bs) (concat nodes)"
  using assms
proof (induction vs arbitrary: p n bs nodes)
  case Nil
  then show ?case by (auto dest: iov_covers_none)
next
  case (Cons v vs)
  note v = iov_covers_Cons [OF Cons.prems(2)]
  let ?as = "take (iov_len v) bs" and ?rest = "drop (iov_len v) bs"
  let ?nodes = "nodes[iov_node v := overwrite (iov_off v) (map Some ?as) (nodes ! iov_node v)]"
  have in_block: "iov_node v < length nodes" "iov_off v + length (map Some ?as) \<le> B"
    using v(3) by (auto simp: iov_ok_def)
  have c: "concat ?nodes = overwrite p (map Some ?as) (concat nodes)"
    using concat_update_block [OF Cons.prems(1) in_block] v(1) by simp
  have u: "uniform B ?nodes"
    using uniform_nth [OF Cons.prems(1) in_block(1)] in_block(2)
    by (intro uniform_update [OF Cons.prems(1)]) simp
  have len: "length (concat ?nodes) = length (concat nodes)"
    using u Cons.prems(1) by (simp add: length_concat_uniform)
  have "iov_covers B ?nodes vs (p + iov_len v) (n - iov_len v)"
    using v(4) by (simp add: iov_covers_def iov_ok_update list_all_iff)
  from Cons.IH [OF u this, of ?rest] Cons.prems(3,4) v(2) len
  have ih: "uniform B (scatter vs ?rest ?nodes)" "length (scatter vs ?rest ?nodes) = length nodes"
    "concat (scatter vs ?rest ?nodes) = overwrite (p + iov_len v) (map Some ?rest) (concat ?nodes)"
    by auto
  have "overwrite (p + iov_len v) (map Some ?rest) (concat ?nodes) = overwrite p (map Some bs) (concat nodes)"
  proof (cases "iov_len v \<le> length bs")
    case True
    then have "p + length (map Some ?as) + length (map Some ?rest) \<le> length (concat nodes)"
      using Cons.prems(3,4) by simp
    from overwrite_append [OF this] True c show ?thesis
      by (simp add: min_absorb2 flip: map_append)
  next
    case False
    then show ?thesis using c by simp
  qed
  with ih show ?case by simp
qed

lemma gather_slice:
  assumes "uniform B nodes" and "iov_covers B nodes vs p n"
  shows "gather vs nodes = take n (drop p (concat nodes))"
  using assms(2)
proof (induction vs arbitrary: p n)
  case Nil
  then show ?case by (auto dest: iov_covers_none)
next
  case (Cons v vs)
  note v = iov_covers_Cons [OF Cons.prems]
  have in_block: "iov_node v < length nodes" "iov_off v \<le> B" and fits: "iov_off v + iov_len v \<le> B"
    using v(3) by (auto simp: iov_ok_def)
  have len: "length (nodes ! iov_node v) = B" by (rule uniform_nth [OF assms(1) in_block(1)])
  have d: "drop p (concat nodes) = drop (iov_off v) (nodes ! iov_node v) @ drop ((iov_node v + 1) * B) (concat nodes)"
    using drop_concat_block [OF assms(1) in_block] v(1) by simp
  have "take (iov_len v) (drop p (concat nodes)) = take (iov_len v) (drop (iov_off v) (nodes ! iov_node v))"
    using fits len by (simp add: d)
  moreover have "take n xs = take (iov_len v) xs @ take (n - iov_len v) (drop (iov_len v) xs)" for xs :: "cell list"
    using v(2) by (metis le_add_diff_inverse take_add)
  ultimately show ?case using Cons.IH [OF v(4)] by (simp add: add.commute)
qed

section \<open>Partial transfers\<close>

locale partial_io =
  fixes step :: "nat \<Rightarrow> 's \<Rightarrow> (int \<times> 's) res" and good :: "'s \<Rightarrow> bool" and moved :: "'s \<Rightarrow> 's \<Rightarrow> 'b list \<Rightarrow> bool"
  assumes step_ok: "good s \<Longrightarrow> 0 < n \<Longrightarrow>
      \<exists>r s' bs. step n s = Inr (r, s') \<and> good s' \<and> moved s s' bs \<and> length bs = nat r \<and> length bs \<le> n"
    and moved_refl: "good s \<Longrightarrow> moved s s []"
    and moved_trans: "good s \<Longrightarrow> moved s s1 as \<Longrightarrow> moved s1 s2 bs \<Longrightarrow> moved s s2 (as @ bs)"
begin

lemma fix_loop_ok:
  assumes "good s"
  shows "\<exists>e s' bs. fix_loop step left s = Inr (e, s') \<and> good s' \<and> moved s s' bs
    \<and> (case e of None \<Rightarrow> length bs = nat left | Some r \<Rightarrow> r \<le> 0 \<and> length bs < nat left)"
  using assms
proof (induction "nat left" arbitrary: left s rule: less_induct)
  case less
  show ?case
  proof (cases "left \<le> 0")
    case True
    then show ?thesis using less.prems moved_refl by (subst fix_loop.simps) auto
  next
    case False
    then obtain r s1 as where step: "step (nat left) s = Inr (r, s1)" "good s1" "moved s s1 as"
      "length as = nat r" "length as \<le> nat left"
      using step_ok [OF less.prems, of "nat left"] by auto
    show ?thesis
    proof (cases "r \<le> 0")
      case True
      with step False show ?thesis by (subst fix_loop.simps) (auto intro!: exI [of _ as])
    next
      case pos: False
      then have "nat (left - r) < nat left" using False by simp
      from less.hyps [OF this step(2)] obtain e s' bs where rest: "fix_loop step (left - r) s1 = Inr (e, s')"
        "good s'" "moved s1 s' bs"
        "case e of None \<Rightarrow> length bs = nat (left - r) | Some r' \<Rightarrow> r' \<le> 0 \<and> length bs < nat (left - r)"
        by blast
      have "fix_loop step left s = Inr (e, s')" using False pos step(1) rest(1) by (subst fix_loop.simps) simp
      moreover have "moved s s' (as @ bs)" by (rule moved_trans [OF less.prems step(3) rest(3)])
      moreover have "case e of None \<Rightarrow> length (as @ bs) = nat left | Some r' \<Rightarrow> r' \<le> 0 \<and> length (as @ bs) < nat left"
        using rest(4) step(4,5) pos False by (auto split: option.splits)
      ultimately show ?thesis using rest(2) by blast
    qed
  qed
qed

lemma fix_size_ok:
  assumes "good s" and "len < 2 ^ 31"
  shows "\<exists>r s' bs. fix_size step len s = Inr (r, s') \<and> good s' \<and> moved s s' bs
    \<and> (r = int len \<and> length bs = len \<or> r \<le> 0 \<and> length bs < len)"
proof -
  have n: "as_int64 len = int len" "as_int len = int len"
    using assms(2) by (simp_all add: as_int64_def as_int_def signed_of_nat signed_take_bit_int_eq_self)
  from fix_loop_ok [OF assms(1), of "int len", unfolded nat_int] obtain e s' bs where "fix_loop step (int len) s = Inr (e, s')"
    "good s'" "moved s s' bs" "case e of None \<Rightarrow> length bs = len | Some r \<Rightarrow> r \<le> 0 \<and> length bs < len"
    by blast
  then show ?thesis by (cases e) (auto simp: fix_size_def n)
qed

end

section \<open>The transfers of a socket stream\<close>

text \<open>The data still to come, whatever pieces it comes in, and the data sent so far.\<close>

fun arriving :: "'b recv_ev list \<Rightarrow> 'b list" where
  "arriving [] = []"
| "arriving (RecvFail # es) = arriving es"
| "arriving (Chunk bs # es) = bs @ arriving es"

definition incoming :: "'b sstream \<Rightarrow> 'b list" where
  "incoming ss = (case m_socket ss of None \<Rightarrow> [] | Some s \<Rightarrow> arriving (sk_in s))"

definition sent :: "'b sstream \<Rightarrow> 'b list" where
  "sent ss = (case m_socket ss of None \<Rightarrow> [] | Some s \<Rightarrow> sk_out s)"

lemma ss_close_disconnects [simp]: "\<not> ss_isConnected (ss_close ss)"
  by (auto simp: ss_close_def ss_isConnected_def Socket_close_def split: option.splits)

lemma ss_close_incoming [simp]: "incoming (ss_close ss) = incoming ss"
  by (auto simp: ss_close_def incoming_def Socket_close_def split: option.splits)

lemma kernel_recv_ok:
  "kernel_recv n es = (r, bs, es') \<Longrightarrow> arriving es = bs @ arriving es' \<and> length bs = nat r \<and> length bs \<le> n"
  by (induction n es rule: kernel_recv.induct) auto

lemma ss_recv_ok:
  "ss_recv n ss = (r, bs, ss') \<Longrightarrow> incoming ss = bs @ incoming ss' \<and> length bs = nat r \<and> length bs \<le> n"
  using kernel_recv_ok [of n]
  by (fastforce simp: ss_recv_def Socket_recv_def incoming_def split: option.splits prod.splits if_splits)

lemma ss_read_ok:
  "ss_read n ss = (r, bs, ss') \<Longrightarrow> incoming ss = bs @ incoming ss' \<and> length bs = nat r \<and> length bs \<le> n"
  by (auto simp: ss_read_def split: if_splits dest: ss_recv_ok)

lemma ss_send_ok:
  "ss_send bs ss = (r, ss') \<Longrightarrow> sent ss' = sent ss @ take (nat r) bs \<and> nat r \<le> length bs"
  by (auto simp: ss_send_def Socket_send_def sent_def min_def split: option.splits prod.splits if_splits list.splits)

lemma ss_write_ok:
  "ss_write bs ss = (r, ss') \<Longrightarrow> sent ss' = sent ss @ take (nat r) bs \<and> nat r \<le> length bs"
  by (auto simp: ss_write_def split: if_splits dest: ss_send_ok)

interpretation mem_read: partial_io
  "\<lambda>n (mem, st). case ss_read n st of (rt, bs, st1) \<Rightarrow> Inr (rt, mem @ bs, st1)" "\<lambda>_. True"
  "\<lambda>(mem, st) (mem', st') bs. mem' = mem @ bs \<and> incoming st = bs @ incoming st'"
proof (unfold_locales, goal_cases)
  case (1 s n)
  obtain mem st r bs st1 where "s = (mem, st)" "ss_read n st = (r, bs, st1)" by (metis prod.exhaust)
  with ss_read_ok [OF this(2)] show ?case by auto
qed auto

text \<open>Consecutive slices of one buffer.\<close>

definition slice_at :: "nat \<Rightarrow> 'a list \<Rightarrow> 'a list \<Rightarrow> bool" where
  "slice_at off xs bs \<longleftrightarrow> bs = take (length bs) (drop off xs)"

lemma slice_at_Nil [simp]: "slice_at off xs []"
  by (simp add: slice_at_def)

lemma slice_at_append: "slice_at off xs as \<Longrightarrow> slice_at (off + length as) xs bs \<Longrightarrow> slice_at off xs (as @ bs)"
  by (simp add: slice_at_def take_add add.commute)

lemma slice_at_take: "slice_at off xs (take n (drop off xs))"
  by (simp add: slice_at_def min_def)

interpretation mem_write: partial_io
  "\<lambda>n (off, st). case ss_write (take n (drop off buffer)) st of (rt, st1) \<Rightarrow> Inr (rt, off + nat rt, st1)" "\<lambda>_. True"
  "\<lambda>(off, st) (off', st') bs. off' = off + length bs \<and> sent st' = sent st @ bs \<and> slice_at off buffer bs"
  for buffer :: "'b list"
proof (unfold_locales, goal_cases)
  case (1 s n)
  obtain off st r st1 where s: "s = (off, st)" "ss_write (take n (drop off buffer)) st = (r, st1)" by (metis prod.exhaust)
  let ?bs = "take (nat r) (take n (drop off buffer))"
  have "length ?bs = nat r" "length ?bs \<le> n" "slice_at off buffer ?bs"
    using ss_write_ok [OF s(2)] slice_at_take [of off buffer "min (nat r) n"] by auto
  with ss_write_ok [OF s(2)] show ?case
    by (intro exI [of _ r] exI [of _ "(off + nat r, st1)"] exI [of _ ?bs]) (auto simp: s)
qed (auto intro: slice_at_append)

text \<open>
  A read into a byte buffer fills it at the position; a write takes the unread bytes there.
\<close>

definition ba_filled :: "bytearray \<Rightarrow> bytearray \<Rightarrow> u8 list \<Rightarrow> bool" where
  "ba_filled ba ba' bs \<longleftrightarrow>
     m_baseSize ba' = m_baseSize ba \<and> m_position ba' = m_position ba + length bs
     \<and> m_size ba' = max (m_size ba) (m_position ba + length bs)
     \<and> take (m_position ba') (concat (m_nodes ba')) = take (m_position ba) (concat (m_nodes ba)) @ map Some bs"

lemma ba_filled_refl: "ba_wf ba \<Longrightarrow> ba_filled ba ba []"
  by (simp add: ba_filled_def ba_wf_def max_def)

lemma ba_filled_trans: "ba_filled ba ba1 as \<Longrightarrow> ba_filled ba1 ba2 bs \<Longrightarrow> ba_filled ba ba2 (as @ bs)"
  by (auto simp: ba_filled_def)

lemma ss_read_ba_ok:
  assumes "ba_wf ba"
  shows "\<exists>r ss' ba' bs. ss_read_ba n (ss, ba) = Inr (r, ss', ba') \<and> ba_wf ba' \<and> ba_filled ba ba' bs
    \<and> incoming ss = bs @ incoming ss' \<and> length bs = nat r \<and> length bs \<le> n"
proof (cases "ss_isConnected ss")
  case False
  with assms ba_filled_refl show ?thesis by (fastforce simp: ss_read_ba_def)
next
  case True
  from getWriteBuffers_covers [OF assms, of n] obtain vs ba1 where w: "getWriteBuffers n ba = Inr (vs, n, ba1)" "ba_wf ba1"
    "abs_ba ba1 = flat_grow (m_baseSize ba) n (abs_ba ba)" "m_baseSize ba1 = m_baseSize ba" "m_position ba + n \<le> m_capacity ba1"
    "iov_covers (m_baseSize ba) (m_nodes ba1) vs (m_position ba) n" by blast
  have same: "m_position ba1 = m_position ba" "m_size ba1 = m_size ba"
    "concat (m_nodes ba1) = fl_mem (flat_grow (m_baseSize ba) n (abs_ba ba))"
    using arg_cong [OF w(3), of fl_pos] arg_cong [OF w(3), of fl_size] arg_cong [OF w(3), of fl_mem]
    by (simp_all add: abs_ba_def flat_grow_def)
  have pos: "m_position ba \<le> length (concat (m_nodes ba))" using assms by (simp add: ba_wf_def length_concat_uniform)
  then have pre: "take (m_position ba) (concat (m_nodes ba1)) = take (m_position ba) (concat (m_nodes ba))"
    by (simp add: same(3) flat_grow_def abs_ba_def)
  obtain r bs ss1 where recv: "ss_recv n ss = (r, bs, ss1)" by (metis prod.exhaust)
  note got = ss_recv_ok [OF recv]
  let ?ba2 = "ba1\<lparr>m_nodes := scatter vs bs (m_nodes ba1)\<rparr>"
  have wf1: "uniform (m_baseSize ba) (m_nodes ba1)" "length (concat (m_nodes ba1)) = m_capacity ba1"
    using w(2,4) by (auto simp: ba_wf_def)
  have sc: "uniform (m_baseSize ba) (scatter vs bs (m_nodes ba1))" "length (scatter vs bs (m_nodes ba1)) = length (m_nodes ba1)"
    "concat (scatter vs bs (m_nodes ba1)) = overwrite (m_position ba) (map Some bs) (concat (m_nodes ba1))"
    using scatter_overwrite [OF wf1(1) w(6), of bs] got w(5) wf1(2) by auto
  have wf2: "ba_wf ?ba2" using w(2,4) sc(1,2) by (auto simp: ba_wf_def)
  have mem: "take (m_position ba + length bs) (concat (m_nodes ?ba2)) = take (m_position ba) (concat (m_nodes ba)) @ map Some bs"
    using pre sc(3) pos by (simp add: overwrite_def min_def)
  have step: "ss_read_ba n (ss, ba) =
      (if r > 0 then mapR (\<lambda>ba3. (r, ss1, ba3)) (setPosition (m_position ba + nat r) ?ba2) else Inr (r, ss1, ?ba2))"
    by (simp add: ss_read_ba_def True w(1) iov_total_covers [OF w(6)] recv Let_def getPosition_def same(1))
  show ?thesis
  proof (cases "r > 0")
    case True
    have "m_position ba + nat r \<le> m_capacity ?ba2" using got w(5) by simp
    then obtain ba3 where b3: "setPosition (m_position ba + nat r) ?ba2 = Inr ba3"
      "ba3 = ?ba2\<lparr>m_position := m_position ba + nat r, m_size := max (m_size ?ba2) (m_position ba + nat r),
                  m_cur := (m_position ba + nat r) div m_baseSize ?ba2\<rparr>"
      using setPosition_eq [OF wf2] by simp
    moreover have "ba_filled ba ba3 bs" using b3(2) mem got w(4) same(2) by (simp add: ba_filled_def)
    ultimately show ?thesis using step True setPosition_wf [OF wf2 b3(1)] got by auto
  next
    case False
    then have "bs = []" using got by simp
    moreover have "ba_filled ba ?ba2 []"
      using ba_filled_refl [OF assms] same(1,2) w(4) mem \<open>bs = []\<close> by (simp add: ba_filled_def)
    ultimately show ?thesis using step False wf2 got by auto
  qed
qed

interpretation ba_recv: partial_io ss_read_ba "\<lambda>(ss, ba). ba_wf ba"
  "\<lambda>(ss, ba) (ss', ba') bs. ba_filled ba ba' bs \<and> incoming ss = bs @ incoming ss'"
proof (unfold_locales, goal_cases)
  case (1 s n)
  then show ?case using ss_read_ba_ok [of "snd s" n "fst s"] by (cases s) auto
qed (auto intro: ba_filled_refl ba_filled_trans)

text \<open>A write sends cells from the position on and only moves the position.\<close>

definition ba_drained :: "bytearray \<Rightarrow> bytearray \<Rightarrow> cell list \<Rightarrow> bool" where
  "ba_drained ba ba' bs \<longleftrightarrow>
     ba' = ba_advance (length bs) ba \<and> length bs \<le> m_size ba - m_position ba
     \<and> bs = flat_slice (m_position ba) (length bs) (abs_ba ba)"

lemma ba_advance_0: "ba_wf ba \<Longrightarrow> ba_advance 0 ba = ba"
  by (simp add: ba_advance_def ba_wf_def)

lemma ba_advance_add: "ba_advance n (ba_advance m ba) = ba_advance (m + n) ba"
  by (simp add: ba_advance_def add.assoc)

lemma ba_drained_refl: "ba_wf ba \<Longrightarrow> ba_drained ba ba []"
  by (simp add: ba_drained_def ba_advance_0 flat_slice_def)

lemma ba_drained_trans: "ba_drained ba ba1 as \<Longrightarrow> ba_drained ba1 ba2 bs \<Longrightarrow> ba_drained ba ba2 (as @ bs)"
  by (auto simp: ba_drained_def ba_advance_add flat_slice_def abs_ba_def take_add add.commute)

lemma ss_write_ba_ok:
  assumes "ba_wf ba"
  shows "\<exists>r ss' ba' bs. ss_write_ba n (ss, ba) = Inr (r, ss', ba') \<and> ba_wf ba' \<and> ba_drained ba ba' bs
    \<and> sent ss' = sent ss @ bs \<and> length bs = nat r \<and> length bs \<le> n"
proof (cases "ss_isConnected ss")
  case False
  with assms ba_drained_refl show ?thesis by (fastforce simp: ss_write_ba_def)
next
  case True
  let ?n = "min n (m_size ba - m_position ba)"
  from getReadBuffers_covers [OF assms, of n] obtain vs where w: "getReadBuffers n ba = Inr (vs, ?n)"
    "iov_covers (m_baseSize ba) (m_nodes ba) vs (m_position ba) ?n" by blast
  have g: "gather vs (m_nodes ba) = flat_slice (m_position ba) ?n (abs_ba ba)"
    using gather_slice [OF _ w(2)] assms by (simp add: ba_wf_def flat_slice_def abs_ba_def)
  obtain r ss1 where send: "ss_send (gather vs (m_nodes ba)) ss = (r, ss1)" by (metis prod.exhaust)
  note out = ss_send_ok [OF send]
  let ?bs = "take (nat r) (gather vs (m_nodes ba))"
  have len: "length (gather vs (m_nodes ba)) = ?n"
    using assms by (auto simp: g flat_slice_def abs_ba_def ba_wf_def length_concat_uniform)
  then have bs: "length ?bs = nat r" "length ?bs \<le> ?n" "?bs = flat_slice (m_position ba) (nat r) (abs_ba ba)"
    using out by (auto simp: g flat_slice_def min_def)
  have step: "ss_write_ba n (ss, ba) =
      (if r > 0 then mapR (\<lambda>ba1. (r, ss1, ba1)) (setPosition (m_position ba + nat r) ba) else Inr (r, ss1, ba))"
    by (simp add: ss_write_ba_def True w(1) send getPosition_def)
  have "ba_drained ba (ba_advance (nat r) ba) ?bs" using bs by (simp add: ba_drained_def)
  moreover have "ss_write_ba n (ss, ba) = Inr (r, ss1, ba_advance (nat r) ba)"
  proof (cases "r > 0")
    case True
    have le: "m_position ba + nat r \<le> m_size ba" using bs(1,2) assms by (auto simp: ba_wf_def)
    then have "m_position ba + nat r \<le> m_capacity ba" using assms by (simp add: ba_wf_def)
    with True le show ?thesis
      by (simp add: step setPosition_eq [OF assms] ba_advance_def max_absorb1)
  qed (simp add: step ba_advance_0 [OF assms])
  moreover have "ba_wf (ba_advance (nat r) ba)" using ba_advance_wf [OF assms] bs by simp
  ultimately show ?thesis using out bs by auto
qed

interpretation ba_send: partial_io ss_write_ba "\<lambda>(ss, ba). ba_wf ba"
  "\<lambda>(ss, ba) (ss', ba') bs. ba_drained ba ba' bs \<and> sent ss' = sent ss @ bs"
proof (unfold_locales, goal_cases)
  case (1 s n)
  then show ?case using ss_write_ba_ok [of "snd s" n "fst s"] by (cases s) auto
qed (auto intro: ba_drained_refl ba_drained_trans)

section \<open>Properties\<close>

text \<open>
  readFixSize returns what was asked for or an error, however the data arrives: for every
  script of pieces and failures, the memory holds exactly the next bytes of the stream, all
  of them when the result is the length, and fewer when it is 0 or negative; nothing is
  skipped or read twice.
\<close>

theorem readFixSize_reads_next_bytes:
  assumes "len < 2 ^ 31"
  shows "\<exists>r bs ss'. readFixSize len ss = Inr (r, bs, ss') \<and> incoming ss = bs @ incoming ss'
    \<and> (r = int len \<and> length bs = len \<or> r \<le> 0 \<and> length bs < len)"
  using mem_read.fix_size_ok [OF _ assms, of "([], ss)"] by (auto simp: readFixSize_def)

lemma readFixSize_reads_next_bytes_witness:
  "\<exists>r bs ss'. readFixSize 3 (SocketStream_new (Some \<lparr>sk_isConnected = True, sk_sock = 5,
       sk_in = [Chunk ''a'', Chunk ''bcd''], sk_snd = [], sk_out = []\<rparr>) True) = Inr (r, bs, ss')
     \<and> bs @ incoming ss' = ''abcd''"
proof -
  let ?ss = "SocketStream_new (Some \<lparr>sk_isConnected = True, sk_sock = 5,
       sk_in = [Chunk ''a'', Chunk ''bcd''], sk_snd = [], sk_out = []\<rparr>) True"
  have "incoming ?ss = ''abcd''" by (simp add: incoming_def SocketStream_new_def)
  with readFixSize_reads_next_bytes [of 3 ?ss] show ?thesis by auto
qed

lemma writeFixSize_prefix:
  assumes "length buffer < 2 ^ 31"
  shows "\<exists>r off ss'. writeFixSize buffer ss = Inr (r, off, ss') \<and> sent ss' = sent ss @ take off buffer
    \<and> (r = int (length buffer) \<and> off = length buffer \<or> r \<le> 0 \<and> off < length buffer)"
  using mem_write.fix_size_ok [OF _ assms, where buffer = buffer and s = "(0, ss)"]
  by (fastforce simp: writeFixSize_def slice_at_def)

text \<open>
  writeFixSize sends a prefix of the buffer: all of it when the result is its length, a
  proper part, in order and without repetition, when the result is 0 or negative.
\<close>

theorem writeFixSize_sends_prefix:
  assumes "length buffer < 2 ^ 31"
  shows "\<exists>r off ss'. writeFixSize buffer ss = Inr (r, off, ss') \<and> sent ss' = sent ss @ take off buffer
    \<and> (r = int (length buffer) \<and> off = length buffer \<or> r \<le> 0 \<and> off < length buffer)"
  by (rule writeFixSize_prefix [OF assms])

lemma writeFixSize_sends_prefix_witness:
  "\<exists>r off ss'. writeFixSize ''abc'' (SocketStream_new (Some \<lparr>sk_isConnected = True, sk_sock = 5,
       sk_in = [], sk_snd = [2, -1], sk_out = []\<rparr>) True) = Inr (r, off, ss') \<and> sent ss' = take off ''abc''"
  using writeFixSize_sends_prefix [of "''abc''" "SocketStream_new (Some \<lparr>sk_isConnected = True, sk_sock = 5,
       sk_in = [], sk_snd = [2, -1], sk_out = []\<rparr>) True"]
  by (auto simp: sent_def SocketStream_new_def)

text \<open>
  Data goes from a socket straight into a byte buffer and back: reading a fixed size into
  a well-formed buffer keeps it well-formed, appends exactly the next bytes of the stream at
  the position and moves the position and size past them; writing a fixed size sends exactly
  the cells at the position and only moves it. Both return the length or fail with a proper
  part transferred, and neither can run out of the buffer's blocks.
\<close>

theorem socket_and_buffer_exchange_bytes:
  assumes "ba_wf ba" and "len < 2 ^ 31"
  shows "(\<exists>r ss' ba' bs. readFixSize_ba len ss ba = Inr (r, ss', ba') \<and> ba_wf ba' \<and> ba_filled ba ba' bs
      \<and> incoming ss = bs @ incoming ss' \<and> (r = int len \<and> length bs = len \<or> r \<le> 0 \<and> length bs < len))
    \<and> (\<exists>r so' ba' bs. writeFixSize_ba len so ba = Inr (r, so', ba') \<and> ba_wf ba' \<and> ba_drained ba ba' bs
      \<and> sent so' = sent so @ bs \<and> (r = int len \<and> length bs = len \<or> r \<le> 0 \<and> length bs < len))"
  using ba_recv.fix_size_ok [OF _ assms(2), of "(ss, ba)"] ba_send.fix_size_ok [OF _ assms(2), of "(so, ba)"] assms(1)
  by (auto simp: readFixSize_ba_def writeFixSize_ba_def)

lemma socket_and_buffer_exchange_bytes_witness:
  "\<exists>r ss' ba' bs. readFixSize_ba 3 (SocketStream_new (Some \<lparr>sk_isConnected = True, sk_sock = 5,
       sk_in = [Chunk [1], Chunk [2, 3, 4]], sk_snd = [], sk_out = []\<rparr>) True) (ByteArray_new 2) = Inr (r, ss', ba')
     \<and> m_position ba' = length bs \<and> bs @ incoming ss' = [1, 2, 3, 4]"
proof -
  let ?ss = "SocketStream_new (Some \<lparr>sk_isConnected = True, sk_sock = 5,
       sk_in = [Chunk [1], Chunk [2, 3, 4]], sk_snd = [], sk_out = []\<rparr>) True"
  have "incoming ?ss = [1, 2, 3, 4]" by (simp add: incoming_def SocketStream_new_def)
  moreover have "m_position (ByteArray_new 2) = 0" by (simp add: ByteArray_new_def)
  moreover obtain r ss' ba' bs where "readFixSize_ba 3 ?ss (ByteArray_new 2) = Inr (r, ss', ba')"
    "ba_filled (ByteArray_new 2) ba' bs" "incoming ?ss = bs @ incoming ss'"
    using conjunct1 [OF socket_and_buffer_exchange_bytes [OF ba_wf_new, of 2 3 ?ss]] by auto
  ultimately show ?thesis unfolding ba_filled_def by (metis add_0)
qed

text \<open>The length is returned as an int: 4 GiB read in full look like a closed connection.\<close>

lemma readFixSize_length_truncated: "as_int (2 ^ 32) = 0"
  by (simp add: as_int_def)

end
