(* ===== verification/HttpSession.thy ===== *)
theory HttpSession
  imports HttpParser Stream_Props
begin

text \<open>
  The two ends of a connection (http/http_session.cpp, http/http_connection.cpp up to
  \<open>sendRequest\<close>): receiving a request or a response through the receive buffer, the body by
  length or in chunks, and sending the text of a message. \<open>max_size\<close> is the longest string
  the allocator gives; \<open>resize\<close> beyond it throws.
\<close>

section \<open>How much a script can still deliver\<close>

fun script_size :: "'b recv_ev list \<Rightarrow> nat" where
  "script_size [] = 0"
| "script_size (RecvFail # es) = script_size es"
| "script_size (Chunk bs # es) = length bs + script_size es"

definition to_come :: "'b sstream \<Rightarrow> nat" where
  "to_come ss = (case m_socket ss of None \<Rightarrow> 0 | Some s \<Rightarrow> script_size (sk_in s))"

lemma to_come_incoming: "to_come ss = length (incoming ss)"
proof -
  have "script_size es = length (arriving es)" for es :: "'b recv_ev list"
    by (induction es rule: script_size.induct) auto
  then show ?thesis by (auto simp: to_come_def incoming_def split: option.splits)
qed

lemma ss_read_to_come: "ss_read n ss = (r, bs, ss') \<Longrightarrow> to_come ss = nat r + to_come ss'"
  using ss_read_ok [of n ss r bs ss'] by (simp add: to_come_incoming)

section \<open>The head of a message\<close>

text \<open>
  The receive loops: read into the free part of the buffer, parse, keep what the parser left.
  \<open>exec\<close>, \<open>err\<close> and \<open>fin\<close> are the parser's functions.
\<close>

function head_loop ::
  "(string \<Rightarrow> 'q \<Rightarrow> ('q \<times> string) res) \<Rightarrow> ('q \<Rightarrow> bool) \<Rightarrow> ('q \<Rightarrow> int) \<Rightarrow> nat \<Rightarrow> 'q \<Rightarrow> string \<Rightarrow> char sstream
    \<Rightarrow> (('q \<times> string) option \<times> char sstream) res" where
  "head_loop exec err fin buff_size parser data ss =
     (case ss_read (buff_size - length data) ss of (len, bs, ss1) \<Rightarrow>
        if len \<le> 0 then Inr (None, ss_close ss1)
        else bindR (exec (data @ bs) parser) (\<lambda>(parser1, rest).
          if err parser1 then Inr (None, ss_close ss1)
          else if length rest = buff_size then Inr (None, ss_close ss1)
          else if fin parser1 \<noteq> 0 then Inr (Some (parser1, rest), ss1)
          else head_loop exec err fin buff_size parser1 rest ss1))"
  by pat_completeness auto
termination
  by (relation "measure (\<lambda>(exec, err, fin, n, p, d, ss). to_come ss)") (auto dest!: ss_read_to_come [OF sym])

declare head_loop.simps [simp del]

section \<open>A body of known length\<close>

text \<open>
  What follows the head in the buffer is the start of the body; the rest is read, anything
  beyond the length is dropped with the buffer.
\<close>

definition length_body :: "nat \<Rightarrow> u64 \<Rightarrow> string \<Rightarrow> char sstream \<Rightarrow> (string option \<times> char sstream) res" where
  "length_body max_size content_length data ss =
     (let len = sint content_length in
      if len > int max_size then Inl LogicError
      else if len \<ge> int (length data)
      then (if len - int (length data) > 0
            then bindR (readFixSize (nat (len - int (length data))) ss) (\<lambda>(rt, bs, ss1).
              if rt \<le> 0 then Inr (None, ss_close ss1) else Inr (Some (data @ bs), ss1))
            else Inr (Some data, ss))
      else Inr (Some (take (nat len) data), ss))"

section \<open>HttpSession\<close>

definition recvRequest ::
  "('p, 'z) http_machine_scheme \<Rightarrow> (string \<Rightarrow> u64 option) \<Rightarrow> nat \<Rightarrow> nat \<Rightarrow> char sstream
    \<Rightarrow> (HttpRequest option \<times> char sstream) res" where
  "recvRequest M cast max_size buff_size ss =
     bindR (head_loop (rp_execute M) (rp_hasError M) (rp_isFinished M) buff_size (HttpRequestParser_new M) [] ss)
       (\<lambda>(r, ss1). case r of
          None \<Rightarrow> Inr (None, ss1)
        | Some (parser, data) \<Rightarrow>
            (let content_length = rp_getContentLength cast parser in
             if sint content_length > 0
             then mapR (\<lambda>(body, ss2). (map_option (\<lambda>b. (rp_data parser)\<lparr>rq_body := b\<rparr>) body, ss2))
                    (length_body max_size content_length data ss1)
             else Inr (Some (rp_data parser), ss1)))"

definition sendResponse :: "HttpResponse \<Rightarrow> char sstream \<Rightarrow> (int \<times> char sstream) res" where
  "sendResponse rsp ss = mapR (\<lambda>(rt, _, ss1). (rt, ss1)) (writeFixSize (rs_dump rsp) ss)"

section \<open>HttpConnection\<close>

definition sendRequest :: "HttpRequest \<Rightarrow> char sstream \<Rightarrow> (int \<times> char sstream) res" where
  "sendRequest req ss = mapR (\<lambda>(rt, _, ss1). (rt, ss1)) (writeFixSize (rq_dump req) ss)"

text \<open>
  The inner loop of a chunk: parse a chunk header, reading more first unless the buffer
  already holds something at the beginning.
\<close>

function chunk_head ::
  "('p, 'z) httpclient_machine_scheme \<Rightarrow> nat \<Rightarrow> bool \<Rightarrow> 'p HttpResponseParser \<Rightarrow> string \<Rightarrow> char sstream
    \<Rightarrow> (('p HttpResponseParser \<times> string) option \<times> char sstream) res" where
  "chunk_head M buff_size begin' parser data ss =
     (if \<not> begin' \<or> data = []
      then (case ss_read (buff_size - length data) ss of (rt, bs, ss1) \<Rightarrow>
        if rt \<le> 0 then Inr (None, ss_close ss1)
        else bindR (sp_execute M (data @ bs) True parser) (\<lambda>(parser1, rest).
          if sp_hasError M parser1 then Inr (None, ss_close ss1)
          else if length rest = buff_size then Inr (None, ss_close ss1)
          else if sp_isFinished M parser1 \<noteq> 0 then Inr (Some (parser1, rest), ss1)
          else chunk_head M buff_size False parser1 rest ss1))
      else bindR (sp_execute M data True parser) (\<lambda>(parser1, rest).
          if sp_hasError M parser1 then Inr (None, ss_close ss)
          else if length rest = buff_size then Inr (None, ss_close ss)
          else if sp_isFinished M parser1 \<noteq> 0 then Inr (Some (parser1, rest), ss)
          else chunk_head M buff_size False parser1 rest ss))"
  by pat_completeness auto
termination
  by (relation "measure (\<lambda>(M, n, b, p, d, ss). 2 * to_come ss + (if b then 1 else 0))")
    (auto dest!: ss_read_to_come [OF sym])

declare chunk_head.simps [simp del]

text \<open>The rest of a chunk that the buffer does not hold, and its CR LF.\<close>

function read_left :: "nat \<Rightarrow> int \<Rightarrow> char sstream \<Rightarrow> string option \<times> char sstream" where
  "read_left buff_size left ss =
     (if left \<le> 0 then (Some [], ss)
      else (case ss_read (if left > int buff_size then buff_size else nat left) ss of (rt, bs, ss1) \<Rightarrow>
        if rt \<le> 0 then (None, ss_close ss1)
        else (case read_left buff_size (left - rt) ss1 of (r, ss2) \<Rightarrow> (map_option ((@) bs) r, ss2))))"
  by pat_completeness auto
termination
  by (relation "measure (\<lambda>(n, left, ss). nat left)") auto

declare read_left.simps [simp del]

text \<open>
  One chunk after its header: the content and the two bytes behind it come out of the buffer,
  or partly from the socket. A negative length converts to a huge size, which \<open>append\<close>
  refuses with an exception.
\<close>

definition chunk_content :: "nat \<Rightarrow> int \<Rightarrow> string \<Rightarrow> string \<Rightarrow> char sstream \<Rightarrow> ((string \<times> string) option \<times> char sstream) res" where
  "chunk_content buff_size content_len body data ss =
     (if content_len + 2 \<le> int (length data)
      then (if content_len < 0 then Inl LogicError
            else Inr (Some (body @ take (nat content_len) data, drop (nat content_len + 2) data), ss))
      else (case read_left buff_size (content_len - int (length data) + 2) ss of
              (None, ss1) \<Rightarrow> Inr (None, ss1)
            | (Some bs, ss1) \<Rightarrow>
                (let body1 = body @ data @ bs
                 in if length body1 < 2 then Inl LogicError
                    else Inr (Some (take (length body1 - 2) body1, []), ss1))))"

text \<open>How far a chunk moves the connection: what the outer loop's termination rests on.\<close>

lemma consume_length: "consume n d = Inr r \<Longrightarrow> length r \<le> length d"
  by (auto simp: consume_eq_Inr)

lemma sp_execute_length: "sp_execute M d c p = Inr (p1, rest) \<Longrightarrow> length rest \<le> length d"
  by (auto simp: sp_execute_def Let_def bindR_eq_Inr mapR_eq_Inr dest: consume_length split: prod.splits)

lemma chunk_head_progress:
  "chunk_head M n b p d ss = Inr (Some (p1, rest), ss1) \<Longrightarrow> length rest + to_come ss1 \<le> length d + to_come ss"
proof (induction M n b p d ss rule: chunk_head.induct)
  case (1 M n b p d ss)
  show ?case
  proof (cases "\<not> b \<or> d = []")
    case True
    obtain rt bs ss' where r: "ss_read (n - length d) ss = (rt, bs, ss')" by (metis prod.exhaust)
    have "\<not> rt \<le> 0" using "1.prems" True r by (subst (asm) chunk_head.simps) (auto split: if_splits)
    moreover obtain p' rest' where e: "sp_execute M (d @ bs) True p = Inr (p', rest')"
      using "1.prems" True r calculation by (subst (asm) chunk_head.simps) (auto simp: bindR_eq_Inr)
    ultimately show ?thesis
      using "1.prems" True r "1.IH"(1) [OF True r [symmetric] refl _ e refl] sp_execute_length [OF e]
        ss_read_to_come [OF r] ss_read_ok [OF r]
      by (subst (asm) chunk_head.simps) (fastforce split: if_splits)
  next
    case False
    obtain p' rest' where e: "sp_execute M d True p = Inr (p', rest')"
      using "1.prems" False by (subst (asm) chunk_head.simps) (auto simp: bindR_eq_Inr)
    then show ?thesis
      using "1.prems" False "1.IH"(2) [OF False e refl] sp_execute_length [OF e]
      by (subst (asm) chunk_head.simps) (fastforce split: if_splits)
  qed
qed

lemma read_left_ok:
  "read_left n left ss = (r, ss') \<Longrightarrow>
   (case r of Some bs \<Rightarrow> incoming ss = bs @ incoming ss' \<and> length bs = nat left
            | None \<Rightarrow> \<not> ss_isConnected ss' \<and> 0 < left)"
proof (induction n left ss arbitrary: r ss' rule: read_left.induct)
  case (1 n left ss)
  show ?case
  proof (cases "left \<le> 0")
    case True
    with "1.prems" show ?thesis by (subst (asm) read_left.simps) auto
  next
    case False
    obtain rt bs ss1 where rd: "ss_read (if left > int n then n else nat left) ss = (rt, bs, ss1)" by (metis prod.exhaust)
    note got = ss_read_ok [OF rd]
    show ?thesis
    proof (cases "rt \<le> 0")
      case True
      then show ?thesis using "1.prems" False rd
        by (subst (asm) read_left.simps) auto
    next
      case pos: False
      obtain r' ss2 where rest: "read_left n (left - rt) ss1 = (r', ss2)" by (metis prod.exhaust)
      have "length bs \<le> nat left" using got by (auto split: if_splits)
      moreover have "r = map_option ((@) bs) r'" "ss' = ss2"
        using "1.prems" False pos rd rest by (subst (asm) read_left.simps, simp)+
      ultimately show ?thesis
        using "1.IH" [OF False rd [symmetric] refl pos rest] got pos False by (auto split: option.splits)
    qed
  qed
qed

lemma chunk_content_progress:
  assumes "chunk_content n cl body data ss = Inr (Some (body', rest), ss')"
  shows "length rest + to_come ss' < length data + to_come ss"
proof (cases "cl + 2 \<le> int (length data)")
  case True
  with assms show ?thesis by (auto simp: chunk_content_def split: if_splits)
next
  case False
  obtain r ss1 where rd: "read_left n (cl - int (length data) + 2) ss = (r, ss1)" by (metis prod.exhaust)
  with assms False obtain bs where "r = Some bs" "rest = []" "ss' = ss1"
    by (auto simp: chunk_content_def Let_def split: option.splits if_splits)
  with read_left_ok [OF rd] False show ?thesis by (simp add: to_come_incoming)
qed

function chunk_loop ::
  "('p, 'z) httpclient_machine_scheme \<Rightarrow> nat \<Rightarrow> 'p HttpResponseParser \<Rightarrow> string \<Rightarrow> string \<Rightarrow> char sstream
    \<Rightarrow> (('p HttpResponseParser \<times> string \<times> string) option \<times> char sstream) res" where
  "chunk_loop M buff_size parser body data ss =
     bindR (chunk_head M buff_size True parser data ss) (\<lambda>(r, ss1).
       case r of
         None \<Rightarrow> Inr (None, ss1)
       | Some (parser1, data1) \<Rightarrow>
           bindR (chunk_content buff_size (hc_content_len M (sp_parser parser1)) body data1 ss1) (\<lambda>(r2, ss2).
             case r2 of
               None \<Rightarrow> Inr (None, ss2)
             | Some (body1, data2) \<Rightarrow>
                 if hc_chunks_done M (sp_parser parser1) then Inr (Some (parser1, body1, data2), ss2)
                 else chunk_loop M buff_size parser1 body1 data2 ss2))"
  by pat_completeness auto
termination
  by (relation "measure (\<lambda>(M, n, p, b, d, ss). length d + to_come ss)")
    (auto dest!: chunk_head_progress chunk_content_progress)

declare chunk_loop.simps [simp del]

definition recvResponse ::
  "('p, 'z) httpclient_machine_scheme \<Rightarrow> (string \<Rightarrow> u64 option) \<Rightarrow> nat \<Rightarrow> nat \<Rightarrow> char sstream
    \<Rightarrow> (HttpResponse option \<times> char sstream) res" where
  "recvResponse M cast max_size buff_size ss =
     bindR (head_loop (\<lambda>d. sp_execute M d False) (sp_hasError M) (sp_isFinished M) buff_size (HttpResponseParser_new M) [] ss)
       (\<lambda>(r, ss1). case r of
          None \<Rightarrow> Inr (None, ss1)
        | Some (parser, data) \<Rightarrow>
            (let set_body = (\<lambda>p body. if body \<noteq> [] then (sp_data p)\<lparr>rs_body := body\<rparr> else sp_data p) in
             if hc_chunked M (sp_parser parser)
             then mapR (\<lambda>(r2, ss2). (map_option (\<lambda>(p, body, _). set_body p body) r2, ss2))
                    (chunk_loop M buff_size parser [] data ss1)
             else
               (let content_length = sp_getContentLength cast parser in
                if sint content_length > 0
                then mapR (\<lambda>(body, ss2). (map_option (set_body parser) body, ss2))
                       (length_body max_size content_length data ss1)
                else Inr (Some (sp_data parser), ss1))))"

end
