(* ===== verification/Http_Props.thy ===== *)
theory Http_Props
  imports Http "HOL-Library.Sublist"
begin

text \<open>
  What the message objects promise: the method tables are inverse to each other, the header
  operations implement one map keyed by the lower-case name, and the text of a message is
  read back by a reader that splits lines and counts the body.
\<close>

section \<open>Methods\<close>

lemma find_some: "find P xs = Some x \<Longrightarrow> x \<in> set xs \<and> P x"
  by (induction xs) (auto split: if_splits)

lemma find_unique:
  assumes "\<And>x y. x \<in> set xs \<Longrightarrow> y \<in> set xs \<Longrightarrow> P x \<Longrightarrow> P y \<Longrightarrow> x = y" and "x \<in> set xs"
  shows "find P xs = Some x \<longleftrightarrow> P x"
proof
  assume "P x"
  with assms(2) obtain y where "find P xs = Some y" by (cases "find P xs") (auto simp: find_None_iff)
  with find_some [OF this] assms \<open>P x\<close> show "find P xs = Some x" by auto
qed (simp add: find_some)

lemma method_in_table:
  assumes "m \<noteq> INVALID_METHOD"
  shows "\<exists>n s. (n, m, s) \<in> set HTTP_METHOD_MAP"
  using assms by (cases m) (simp_all add: HTTP_METHOD_MAP_def)

lemma table_text:
  "\<forall>(n, m, s) \<in> set HTTP_METHOD_MAP. HttpMethodToString m = s \<and> m \<noteq> INVALID_METHOD \<and> CHR 0x00 \<notin> set s \<and> CHR 0x0D \<notin> set s \<and> CHR 0x20 \<notin> set s"
  by code_simp

lemma table_no_prefix:
  "\<forall>x \<in> set HTTP_METHOD_MAP. \<forall>y \<in> set HTTP_METHOD_MAP. prefix (snd (snd x)) (snd (snd y)) \<longrightarrow> x = y"
  by code_simp


lemma table_textD:
  assumes "(n, m, s) \<in> set HTTP_METHOD_MAP"
  shows "HttpMethodToString m = s" "m \<noteq> INVALID_METHOD" "CHR 0x00 \<notin> set s" "CHR 0x0D \<notin> set s" "CHR 0x20 \<notin> set s"
  using bspec [OF table_text assms] by simp_all

lemma table_no_prefixD:
  "x \<in> set HTTP_METHOD_MAP \<Longrightarrow> y \<in> set HTTP_METHOD_MAP \<Longrightarrow> prefix (snd (snd x)) (snd (snd y)) \<Longrightarrow> x = y"
  using table_no_prefix by blast

text \<open>A lookup in the table by a test that at most one entry passes.\<close>

lemma table_find:
  assumes "m \<noteq> INVALID_METHOD" and "\<And>x y. x \<in> set HTTP_METHOD_MAP \<Longrightarrow> y \<in> set HTTP_METHOD_MAP \<Longrightarrow> Q (snd (snd x)) \<Longrightarrow> Q (snd (snd y)) \<Longrightarrow> x = y"
  shows "(case find (\<lambda>(n, m', s). Q s) HTTP_METHOD_MAP of Some (n, m', s) \<Rightarrow> m' | None \<Rightarrow> INVALID_METHOD) = m
    \<longleftrightarrow> Q (HttpMethodToString m)"
proof -
  obtain n s where e: "(n, m, s) \<in> set HTTP_METHOD_MAP" using method_in_table [OF assms(1)] by blast
  have "find (\<lambda>(n, m', s). Q s) HTTP_METHOD_MAP = Some (n, m, s) \<longleftrightarrow> Q s"
    using find_unique [OF _ e, of "\<lambda>(n, m', s). Q s"] assms(2) by (auto simp: case_prod_beta)
  moreover have "x = (n, m, s)" if f: "find (\<lambda>(n, m', s). Q s) HTTP_METHOD_MAP = Some x" and g: "fst (snd x) = m" for x
  proof -
    obtain n' s' where x: "x = (n', m, s')" using g by (cases x) auto
    with find_some [OF f] have x': "(n', m, s') \<in> set HTTP_METHOD_MAP" by simp
    have "s' = s" using table_textD(1) [OF x'] table_textD(1) [OF e] by simp
    then show ?thesis using table_no_prefixD [OF x' e] x by simp
  qed
  moreover have "HttpMethodToString m = s" by (rule table_textD(1) [OF e])
  ultimately show ?thesis using assms(1) by (auto split: option.splits)
qed

text \<open>
  The method tables are inverse to each other: for every method but the invalid one,
  StringToHttpMethod yields it exactly for its own spelling, and CharsToHttpMethod, which
  sees the rest of the receive buffer, exactly for the texts that begin with its spelling;
  no text is ambiguous.
\<close>

theorem methods_round_trip:
  assumes "m \<noteq> INVALID_METHOD"
  shows "(StringToHttpMethod s = m \<longleftrightarrow> c_str s = HttpMethodToString m)
    \<and> (CharsToHttpMethod s = m \<longleftrightarrow> prefix (HttpMethodToString m) (c_str s))"
proof -
  have "StringToHttpMethod s = m \<longleftrightarrow> HttpMethodToString m = c_str s"
    unfolding StringToHttpMethod_def
    by (rule table_find [OF assms]) (use table_no_prefixD in auto)
  then have "StringToHttpMethod s = m \<longleftrightarrow> c_str s = HttpMethodToString m" by auto
  moreover have cmp: "strncmp t (c_str s) (length t) = 0 \<longleftrightarrow> prefix t (c_str s)" if "CHR 0x00 \<notin> set t" for t
    using strncmp_whole [OF that c_str_no_nul, of s] by (auto simp: prefix_def) (metis append_take_drop_id)
  have "CharsToHttpMethod s = m \<longleftrightarrow> strncmp (HttpMethodToString m) (c_str s) (length (HttpMethodToString m)) = 0"
    unfolding CharsToHttpMethod_def
  proof (rule table_find [OF assms])
    fix x y assume xy: "x \<in> set HTTP_METHOD_MAP" "y \<in> set HTTP_METHOD_MAP"
      "strncmp (snd (snd x)) (c_str s) (length (snd (snd x))) = 0"
      "strncmp (snd (snd y)) (c_str s) (length (snd (snd y))) = 0"
    then have "prefix (snd (snd x)) (c_str s)" "prefix (snd (snd y)) (c_str s)"
      using table_textD(3) [of "fst x" "fst (snd x)" "snd (snd x)"] table_textD(3) [of "fst y" "fst (snd y)" "snd (snd y)"] cmp
      by simp_all
    then have "prefix (snd (snd x)) (snd (snd y)) \<or> prefix (snd (snd y)) (snd (snd x))"
      by (rule prefix_same_cases)
    with table_no_prefixD [OF xy(1,2)] table_no_prefixD [OF xy(2,1)] show "x = y" by auto
  qed
  moreover have "CHR 0x00 \<notin> set (HttpMethodToString m)"
    using method_in_table [OF assms] table_textD(1,3) by auto
  ultimately show ?thesis
    using cmp by simp
qed

lemma methods_round_trip_witness:
  "StringToHttpMethod ''M-SEARCH'' = MSEARCH \<and> CharsToHttpMethod ''GETX /'' = GET"
  using methods_round_trip [of MSEARCH "''M-SEARCH''"] methods_round_trip [of GET "''GETX /''"]
  by code_simp

section \<open>Headers\<close>

datatype hdr_op = SetHeader string string | DelHeader string

fun hdr_exec :: "hdr_op \<Rightarrow> HttpRequest \<Rightarrow> HttpRequest" where
  "hdr_exec (SetHeader k v) = rq_setHeader k v"
| "hdr_exec (DelHeader k) = rq_delHeader k"

fun hdr_spec :: "hdr_op \<Rightarrow> (nat list \<rightharpoonup> string) \<Rightarrow> (nat list \<rightharpoonup> string)" where
  "hdr_spec (SetHeader k v) f = f(ci_key k \<mapsto> v)"
| "hdr_spec (DelHeader k) f = f(ci_key k := None)"

definition hdr_inv :: "MapType \<Rightarrow> bool" where
  "hdr_inv m \<longleftrightarrow> sorted_wrt CaseInsensitiveLess (map fst m)"

lemma hdr_inv_distinct: "hdr_inv m \<Longrightarrow> distinct (map (ci_key \<circ> fst) m)"
proof (induction m)
  case (Cons x m)
  have "ci_key (fst x) \<noteq> ci_key (fst y)" if "y \<in> set m" for y
    using Cons.prems that ci_equiv [of "fst x" "fst y"] by (auto simp: hdr_inv_def ci.equiv_def)
  with Cons show ?case by (auto simp: hdr_inv_def)
qed simp

lemma hdr_exec_refines:
  assumes "hdr_inv (rq_headers rq)" and "\<forall>k. smap_find CaseInsensitiveLess k (rq_headers rq) = f (ci_key k)"
  shows "hdr_inv (rq_headers (hdr_exec op rq))
    \<and> (\<forall>k. smap_find CaseInsensitiveLess k (rq_headers (hdr_exec op rq)) = hdr_spec op f (ci_key k))"
  using assms
  by (cases op)
    (auto simp: hdr_inv_def rq_setHeader_def rq_delHeader_def ci.smap_find_set ci.smap_find_erase ci_equiv
      ci.smap_set_sorted ci.smap_erase_sorted)

lemma hdr_run_refines:
  assumes "hdr_inv (rq_headers rq)" and "\<forall>k. smap_find CaseInsensitiveLess k (rq_headers rq) = f (ci_key k)"
  shows "hdr_inv (rq_headers (fold hdr_exec ops rq))
    \<and> (\<forall>k. smap_find CaseInsensitiveLess k (rq_headers (fold hdr_exec ops rq)) = fold hdr_spec ops f (ci_key k))"
  using assms
proof (induction ops arbitrary: rq f)
  case (Cons op ops)
  from Cons.IH [of "hdr_exec op rq" "hdr_spec op f"] hdr_exec_refines [OF Cons.prems, of op] show ?case by simp
qed simp

text \<open>
  C19. The headers of a request are one map from case-insensitive names to values: after any
  sequence of setHeader and delHeader, getHeader and hasHeader answer for every spelling of a
  name what a map keyed by the lower-case name holds, and no two stored names differ only in
  case.
\<close>

theorem headers_refine_case_insensitive_map:
  "rq_getHeader key def (fold hdr_exec ops (HttpRequest_new v c)) =
     (case fold hdr_spec ops Map.empty (ci_key key) of None \<Rightarrow> def | Some val \<Rightarrow> val)
   \<and> rq_hasHeader key (fold hdr_exec ops (HttpRequest_new v c)) =
       (let r = fold hdr_spec ops Map.empty (ci_key key) in (r \<noteq> None, r))
   \<and> distinct (map (ci_key \<circ> fst) (rq_headers (fold hdr_exec ops (HttpRequest_new v c))))"
proof -
  have "hdr_inv (rq_headers (HttpRequest_new v c))"
    "\<forall>k. smap_find CaseInsensitiveLess k (rq_headers (HttpRequest_new v c)) = Map.empty (ci_key k)"
    by (simp_all add: HttpRequest_new_def hdr_inv_def)
  from hdr_run_refines [OF this, of ops] show ?thesis
    by (simp add: rq_getHeader_def rq_hasHeader_def hdr_inv_distinct)
qed

section \<open>Text\<close>

text \<open>
  A reader of messages, independent of the writer: a line ends at the first CR LF, the head
  ends at the first empty line, the rest is the body.
\<close>

fun take_line :: "string \<Rightarrow> (string \<times> string) option" where
  "take_line [] = None"
| "take_line (c # cs) =
     (if c = CHR 0x0D \<and> take 1 cs = [CHR 0x0A] then Some ([], drop 1 cs)
      else map_option (\<lambda>(l, r). (c # l, r)) (take_line cs))"

fun read_block :: "nat \<Rightarrow> string \<Rightarrow> (string list \<times> string) option" where
  "read_block 0 s = None"
| "read_block (Suc n) s =
     (case take_line s of
        None \<Rightarrow> None
      | Some (l, r) \<Rightarrow> if l = [] then Some ([], r) else map_option (\<lambda>(ls, b). (l # ls, b)) (read_block n r))"

definition split_header :: "string \<Rightarrow> string \<times> string" where
  "split_header l = (let k = takeWhile (\<lambda>c. c \<noteq> CHR 0x3A) l in (k, drop (length k + 2) l))"

definition read_message :: "string \<Rightarrow> (string \<times> (string \<times> string) list \<times> string) option" where
  "read_message s =
     (case read_block (Suc (length s)) s of
        Some (l # ls, b) \<Rightarrow> Some (l, map split_header ls, b)
      | _ \<Rightarrow> None)"

definition line_ok :: "string \<Rightarrow> bool" where
  "line_ok s \<longleftrightarrow> CHR 0x0D \<notin> set s"

definition header_ok :: "string \<times> string \<Rightarrow> bool" where
  "header_ok kv \<longleftrightarrow> line_ok (fst kv) \<and> line_ok (snd kv) \<and> CHR 0x3A \<notin> set (fst kv)"

lemma take_line_eq: "line_ok l \<Longrightarrow> take_line (l @ CRLF @ r) = Some (l, r)"
  by (induction l) (auto simp: line_ok_def)

lemma read_block_lines:
  "\<forall>l \<in> set ls. line_ok l \<and> l \<noteq> [] \<Longrightarrow> length ls < n \<Longrightarrow>
   read_block n (concat (map (\<lambda>l. l @ CRLF) ls) @ CRLF @ b) = Some (ls, b)"
proof (induction ls arbitrary: n)
  case Nil
  then show ?case by (cases n) simp_all
next
  case (Cons l ls)
  then obtain k where n: "n = Suc k" by (cases n) auto
  have "take_line (l @ CRLF @ concat (map (\<lambda>l. l @ CRLF) ls) @ CRLF @ b)
      = Some (l, concat (map (\<lambda>l. l @ CRLF) ls) @ CRLF @ b)"
    by (rule take_line_eq) (use Cons.prems in auto)
  moreover have "read_block k (concat (map (\<lambda>l. l @ CRLF) ls) @ CRLF @ b) = Some (ls, b)"
    by (rule Cons.IH) (use Cons.prems n in auto)
  ultimately show ?case using Cons.prems by (simp add: n)
qed

lemma length_lines: "length ls \<le> length (concat (map (\<lambda>l. l @ CRLF) ls))"
  by (induction ls) auto

definition header_text :: "string \<times> string \<Rightarrow> string" where
  "header_text kv = fst kv @ '': '' @ snd kv"

lemma split_header_eq: "header_ok kv \<Longrightarrow> split_header (header_text kv) = kv"
  by (cases kv) (auto simp: split_header_def header_text_def header_ok_def takeWhile_append takeWhile_eq_all_conv Let_def)

lemma read_message_lines:
  assumes "line_ok l" and "l \<noteq> []" and "\<forall>kv \<in> set kvs. header_ok kv"
  shows "read_message (l @ CRLF @ concat (map header_line kvs) @ CRLF @ b) = Some (l, kvs, b)"
proof -
  have lines: "concat (map header_line kvs) = concat (map (\<lambda>l. l @ CRLF) (map header_text kvs))"
    by (induction kvs) (auto simp: header_line_def header_text_def)
  let ?ls = "l # map header_text kvs"
  have s: "l @ CRLF @ concat (map header_line kvs) @ CRLF @ b = concat (map (\<lambda>l. l @ CRLF) ?ls) @ CRLF @ b"
    by (simp add: lines)
  have "read_block (Suc (length (concat (map (\<lambda>l. l @ CRLF) ?ls) @ CRLF @ b))) (concat (map (\<lambda>l. l @ CRLF) ?ls) @ CRLF @ b)
      = Some (?ls, b)"
    using assms length_lines [of ?ls]
    by (intro read_block_lines) (auto simp: header_text_def header_ok_def line_ok_def)
  moreover have "map split_header (map header_text kvs) = kvs"
    using assms(3) by (induction kvs) (simp_all add: split_header_eq)
  ultimately show ?thesis unfolding s read_message_def by (simp del: read_block.simps append_assoc concat.simps list.map)
qed

text \<open>The header lists the two dumps write.\<close>

definition kept :: "MapType \<Rightarrow> MapType" where
  "kept hs = filter (\<lambda>i. strcasecmp (c_str (fst i)) ''connection'' \<noteq> 0) hs"

definition length_header :: "string \<Rightarrow> MapType" where
  "length_header body = (if body \<noteq> [] then [(''content-length'', show_nat (length body))] else [])"

definition connection_header :: "bool \<Rightarrow> string \<times> string" where
  "connection_header close = (''connection'', if close then ''close'' else ''keep-alive'')"

lemma dump_headers_eq:
  "dump_headers True hs = concat (map header_line (kept hs))" "dump_headers False hs = concat (map header_line hs)"
  by (induction hs) (auto simp: kept_def)

lemma dump_body_eq: "dump_body body = concat (map header_line (length_header body)) @ CRLF @ body"
  by (simp add: dump_body_def length_header_def header_line_def)

lemma connection_line_eq: "connection_line close = header_line (connection_header close)"
  by (simp add: connection_line_def connection_header_def header_line_def)

lemma line_ok_simps [simp]:
  "line_ok (xs @ ys) \<longleftrightarrow> line_ok xs \<and> line_ok ys" "line_ok []" "line_ok (x # xs) \<longleftrightarrow> x \<noteq> CHR 0x0D \<and> line_ok xs"
  by (auto simp: line_ok_def)

lemma line_ok_show [simp]: "line_ok (show_nat n)"
  using show_nat_codes [of "CHR 0x0D" n] by (auto simp: line_ok_def)

lemma line_ok_method [simp]: "line_ok (HttpMethodToString m)"
proof (cases "m = INVALID_METHOD")
  case True
  have "line_ok (HttpMethodToString INVALID_METHOD)" by code_simp
  with True show ?thesis by simp
next
  case False
  with method_in_table table_textD(1,4) show ?thesis by (fastforce simp: line_ok_def)
qed

lemma line_ok_status [simp]: "line_ok (HttpStatusToString s)"
proof -
  have "\<forall>(n, msg) \<in> set HTTP_STATUS_MAP. line_ok msg" by code_simp
  then show ?thesis by (auto simp: HttpStatusToString_def split: option.splits dest!: map_of_SomeD)
qed

lemma line_ok_version [simp]: "line_ok (version_text v)"
  by (simp add: version_text_def)

lemma header_ok_fixed [simp]:
  "header_ok (connection_header close)" "header_ok (''Set-Cookie'', c) \<longleftrightarrow> line_ok c" "kv \<in> set (length_header body) \<Longrightarrow> header_ok kv"
  by (auto simp: connection_header_def length_header_def header_ok_def split: if_splits)

lemma set_kept: "kv \<in> set (kept hs) \<Longrightarrow> kv \<in> set hs"
  by (simp add: kept_def)

text \<open>
  The text of a request is read back: when no part contains a CR and no header name a
  colon, a reader that splits lines at CR LF gets the request line, exactly one connection
  header (from the close flag), every other header in the order of the map, a content-length
  that is the body's length, and the body byte for byte.
\<close>

theorem request_text_round_trip:
  assumes "line_ok (rq_path rq)" "line_ok (rq_query rq)" "line_ok (rq_fragment rq)"
    and "\<forall>kv \<in> set (rq_headers rq). header_ok kv"
  shows "\<exists>l hs. read_message (rq_dump rq) = Some (l, connection_header (rq_close rq) # hs, rq_body rq)
    \<and> l @ CRLF = request_line rq
    \<and> hs = kept (rq_headers rq) @ length_header (rq_body rq)
    \<and> (\<forall>v. (''content-length'', v) \<in> set (length_header (rq_body rq)) \<longrightarrow> read_base 10 v = length (rq_body rq))"
proof -
  obtain l where l: "request_line rq = l @ CRLF" "line_ok l" "l \<noteq> []"
    using assms(1-3) by (auto simp: request_line_def)
  let ?hs = "connection_header (rq_close rq) # kept (rq_headers rq) @ length_header (rq_body rq)"
  have "rq_dump rq = l @ CRLF @ concat (map header_line ?hs) @ CRLF @ rq_body rq"
    by (simp add: rq_dump_def l(1) dump_headers_eq dump_body_eq connection_line_eq)
  moreover have "read_message (l @ CRLF @ concat (map header_line ?hs) @ CRLF @ rq_body rq) = Some (l, ?hs, rq_body rq)"
    by (rule read_message_lines [OF l(2,3)]) (use assms(4) set_kept in auto)
  ultimately show ?thesis
    using l(1) by (intro exI [of _ l]) (auto simp: length_header_def read_show_base split: if_splits)
qed

lemma request_text_round_trip_witness:
  "\<exists>l. read_message (rq_dump ((rq_setHeader ''Host'' ''a'' (HttpRequest_new 0x11 False))\<lparr>rq_body := ''xyz''\<rparr>))
     = Some (l, [(''connection'', ''keep-alive''), (''Host'', ''a''), (''content-length'', ''3'')], ''xyz'')"
proof -
  let ?rq = "(rq_setHeader ''Host'' ''a'' (HttpRequest_new 0x11 False))\<lparr>rq_body := ''xyz''\<rparr>"
  have "kept (rq_headers ?rq) = [(''Host'', ''a'')]" "length_header (rq_body ?rq) = [(''content-length'', ''3'')]"
    "connection_header (rq_close ?rq) = (''connection'', ''keep-alive'')"
    by code_simp+
  moreover have "line_ok (rq_path ?rq) \<and> line_ok (rq_query ?rq) \<and> line_ok (rq_fragment ?rq)"
    "\<forall>kv \<in> set (rq_headers ?rq). header_ok kv"
    by code_simp+
  ultimately show ?thesis using request_text_round_trip [of ?rq] by auto
qed

text \<open>
  So is the text of a response that is not a websocket upgrade: the status line, every
  header but connection, one Set-Cookie line per cookie, one connection header, the length
  and the body.
\<close>

theorem response_text_round_trip:
  assumes "\<not> rs_websocket rs" and "line_ok (rs_reason rs)"
    and "\<forall>kv \<in> set (rs_headers rs). header_ok kv" and "\<forall>c \<in> set (rs_cookies rs). line_ok c"
  shows "\<exists>l. read_message (rs_dump rs) =
      Some (l, kept (rs_headers rs) @ map (Pair ''Set-Cookie'') (rs_cookies rs)
               @ connection_header (rs_close rs) # length_header (rs_body rs), rs_body rs)
    \<and> l @ CRLF = status_line rs"
proof -
  obtain l where l: "status_line rs = l @ CRLF" "line_ok l" "l \<noteq> []"
    using assms(2) by (auto simp: status_line_def)
  let ?hs = "kept (rs_headers rs) @ map (Pair ''Set-Cookie'') (rs_cookies rs)
    @ connection_header (rs_close rs) # length_header (rs_body rs)"
  have "dump_cookies cs = concat (map header_line (map (Pair ''Set-Cookie'') cs))" for cs
    by (induction cs) (simp_all add: header_line_def)
  then have "rs_dump rs = l @ CRLF @ concat (map header_line ?hs) @ CRLF @ rs_body rs"
    using assms(1) by (simp add: rs_dump_def l(1) dump_headers_eq dump_body_eq connection_line_eq)
  moreover have "read_message (l @ CRLF @ concat (map header_line ?hs) @ CRLF @ rs_body rs) = Some (l, ?hs, rs_body rs)"
    by (rule read_message_lines [OF l(2,3)]) (use assms(3,4) set_kept in auto)
  ultimately show ?thesis using l(1) by auto
qed

lemma response_text_round_trip_witness:
  "\<exists>l. read_message (rs_dump ((rs_setHeader ''Server'' ''a'' (HttpResponse_new 0x11 True))\<lparr>rs_cookies := [''k=v'']\<rparr>))
     = Some (l, [(''Server'', ''a''), (''Set-Cookie'', ''k=v''), (''connection'', ''close'')], [])"
proof -
  let ?rs = "(rs_setHeader ''Server'' ''a'' (HttpResponse_new 0x11 True))\<lparr>rs_cookies := [''k=v'']\<rparr>"
  have "kept (rs_headers ?rs) = [(''Server'', ''a'')]" "length_header (rs_body ?rs) = []"
    "connection_header (rs_close ?rs) = (''connection'', ''close'')" "rs_cookies ?rs = [''k=v'']" "rs_body ?rs = []"
    by code_simp+
  moreover have "\<not> rs_websocket ?rs" "line_ok (rs_reason ?rs)" "\<forall>kv \<in> set (rs_headers ?rs). header_ok kv"
    "\<forall>c \<in> set (rs_cookies ?rs). line_ok c"
    by code_simp+
  ultimately show ?thesis using response_text_round_trip [of ?rs] by auto
qed

text \<open>
  A content-length header the user set is kept beside the one that counts the body: the
  message then announces two lengths.
\<close>

lemma two_content_lengths:
  "rq_dump ((rq_setHeader ''Content-Length'' ''7'' (HttpRequest_new 0x11 True))\<lparr>rq_body := ''xyz''\<rparr>)
   = ''GET / HTTP/1.1'' @ CRLF @ ''connection: close'' @ CRLF @ ''Content-Length: 7'' @ CRLF
     @ ''content-length: 3'' @ CRLF @ CRLF @ ''xyz''"
  by code_simp

end
