(* ===== verification/HttpSession_Props.thy ===== *)
theory HttpSession_Props
  imports HttpSession Http_Props
begin

text \<open>
  The receive functions cut the byte stream in the right places: what a parser needs from
  its machine is a locale, interpreted for requests and responses; the body and chunk lemmas
  account for every byte between the old and the new state of the socket.
\<close>

section \<open>Bodies\<close>

context partial_io
begin

lemma fix_size_pos:
  assumes "good s" and "fix_size step len s = Inr (r, s')" and "r > 0" and "len < 2 ^ 63"
  shows "\<exists>bs. moved s s' bs \<and> length bs = len"
proof -
  have n: "as_int64 len = int len"
    using assms(4) by (simp add: as_int64_def signed_of_nat signed_take_bit_int_eq_self)
  from fix_loop_ok [OF assms(1), of "int len", unfolded nat_int] obtain e s1 bs where "fix_loop step (int len) s = Inr (e, s1)"
    "moved s s1 bs" "case e of None \<Rightarrow> length bs = len | Some r \<Rightarrow> r \<le> 0 \<and> length bs < len" by blast
  with assms(2,3) n show ?thesis by (cases e) (auto simp: fix_size_def)
qed

end

lemma readFixSize_pos:
  assumes "readFixSize k ss = Inr (rt, bs, ss')" and "rt > 0" and "k < 2 ^ 63"
  shows "incoming ss = bs @ incoming ss'" and "length bs = k"
  using mem_read.fix_size_pos [OF _ _ assms(2,3), of "([], ss)" "(bs, ss')"] assms(1) by (auto simp: readFixSize_def)

lemma length_body_ok:
  assumes "length_body mx cl d ss = Inr (r, ss')" and "sint cl > 0"
  shows "case r of None \<Rightarrow> \<not> ss_isConnected ss'
    | Some b \<Rightarrow> \<exists>dropped. d @ incoming ss = b @ dropped @ incoming ss' \<and> int (length b) = sint cl
        \<and> length dropped \<le> length d \<and> length d \<le> length b + length dropped"
proof -
  have le: "sint cl \<le> int mx" using assms(1) by (auto simp: length_body_def Let_def split: if_splits)
  have "sint cl < 2 ^ 63" using sint_lt [of cl] by simp
  then have small: "nat (sint cl - int (length d)) < 2 ^ 63" by simp
  consider "sint cl < int (length d)" | "sint cl = int (length d)" | "int (length d) < sint cl" by linarith
  then show ?thesis
  proof cases
    case 1
    then have "r = Some (take (nat (sint cl)) d)" "ss' = ss" using assms(1) le by (auto simp: length_body_def Let_def)
    with 1 assms(2) show ?thesis by (auto intro!: exI [of _ "drop (nat (sint cl)) d"])
  next
    case 2
    then show ?thesis using assms(1) le by (auto simp: length_body_def Let_def)
  next
    case 3
    obtain rt bs ss1 where rd: "readFixSize (nat (sint cl - int (length d))) ss = Inr (rt, bs, ss1)"
      using assms(1) le 3 by (auto simp: length_body_def Let_def bindR_eq_Inr)
    show ?thesis
    proof (cases "rt \<le> 0")
      case True
      with assms(1) le 3 rd show ?thesis by (auto simp: length_body_def Let_def)
    next
      case False
      then have "r = Some (d @ bs)" "ss' = ss1" using assms(1) le 3 rd by (auto simp: length_body_def Let_def)
      with readFixSize_pos [OF rd _ small] False 3 show ?thesis by auto
    qed
  qed
qed

section \<open>Heads\<close>

text \<open>What the receive loop needs: the parser consumes a prefix, and keeps \<open>ok\<close>.\<close>

locale incremental_parser =
  fixes exec :: "string \<Rightarrow> 'q \<Rightarrow> ('q \<times> string) res" and ok :: "'q \<Rightarrow> bool"
  assumes exec_prefix: "exec d p = Inr (p', rest) \<Longrightarrow> \<exists>h. d = h @ rest"
    and exec_ok: "exec d p = Inr (p', rest) \<Longrightarrow> ok p \<Longrightarrow> ok p'"
begin

lemma head_loop_ok:
  assumes "head_loop exec err fin n p d ss = Inr (r, ss')" and "ok p" and "length d \<le> n"
  shows "case r of None \<Rightarrow> \<not> ss_isConnected ss'
    | Some (p', rest) \<Rightarrow> ok p' \<and> \<not> err p' \<and> fin p' \<noteq> 0 \<and> length rest < n \<and> to_come ss' < to_come ss
        \<and> (\<exists>h. d @ incoming ss = h @ rest @ incoming ss')"
  using assms
proof (induction "to_come ss" arbitrary: p d ss rule: less_induct)
  case less
  obtain len bs ss1 where rd: "ss_read (n - length d) ss = (len, bs, ss1)" by (metis prod.exhaust)
  note got = ss_read_ok [OF rd]
  show ?case
  proof (cases "len \<le> 0")
    case True
    with less.prems(1) rd show ?thesis by (subst (asm) head_loop.simps) auto
  next
    case pos: False
    then have smaller: "to_come ss1 < to_come ss" using ss_read_to_come [OF rd] by simp
    obtain p1 rest where ex: "exec (d @ bs) p = Inr (p1, rest)"
      using less.prems(1) rd pos by (subst (asm) head_loop.simps) (auto simp: bindR_eq_Inr)
    obtain h where h: "d @ bs = h @ rest" using exec_prefix [OF ex] by blast
    have "length (d @ bs) \<le> n" using got less.prems(3) unfolding length_append by linarith
    then have le: "length rest \<le> n" by (simp add: h)
    have ok1: "ok p1" by (rule exec_ok [OF ex less.prems(2)])
    have eq: "d @ incoming ss = h @ rest @ incoming ss1" using got h by (simp flip: append_assoc)
    have step: "head_loop exec err fin n p d ss =
      (if err p1 \<or> length rest = n then Inr (None, ss_close ss1)
       else if fin p1 \<noteq> 0 then Inr (Some (p1, rest), ss1) else head_loop exec err fin n p1 rest ss1)"
      using rd pos ex by (subst head_loop.simps) simp
    consider "err p1 \<or> length rest = n" | "\<not> (err p1 \<or> length rest = n)" "fin p1 \<noteq> 0" | "\<not> (err p1 \<or> length rest = n)" "fin p1 = 0"
      by blast
    then show ?thesis
    proof cases
      case 1
      with less.prems(1) step show ?thesis by auto
    next
      case 2
      with less.prems(1) step le ok1 eq smaller show ?thesis by auto
    next
      case 3
      with less.prems(1) step have "head_loop exec err fin n p1 rest ss1 = Inr (r, ss')" by simp
      from less.hyps [OF smaller this ok1 le] eq smaller show ?thesis
        by (auto split: option.splits)
    qed
  qed
qed

end

lemma consume_prefix: "consume n d = Inr r \<Longrightarrow> \<exists>h. d = h @ r"
  by (auto simp: consume_eq_Inr) (metis append_take_drop_id)

lemma on_request_body [simp]: "rq_body (rp_data (on_request ev p)) = rq_body (rp_data p)"
  by (cases ev) (auto simp: on_request_method_def on_request_fragment_def on_request_path_def on_request_query_def
    on_request_version_def on_request_http_field_def rq_setHeader_def Let_def split: element.splits option.splits)

lemma fold_on_request_body [simp]: "rq_body (rp_data (fold on_request evs p)) = rq_body (rp_data p)"
  by (induction evs arbitrary: p) simp_all

lemma on_response_body [simp]: "rs_body (sp_data (on_response ev p)) = rs_body (sp_data p)"
  by (cases ev) (auto simp: on_response_reason_def on_response_status_def on_response_version_def
    on_response_http_field_def rs_setHeader_def Let_def split: element.splits option.splits)

lemma fold_on_response_body [simp]: "rs_body (sp_data (fold on_response evs p)) = rs_body (sp_data p)"
  by (induction evs arbitrary: p) simp_all

interpretation rqp: incremental_parser "rp_execute M" "\<lambda>p. rq_body (rp_data p) = [] \<and> rp_error p \<in> {0, 1000, 1001}"
  for M :: "('p, 'z) http_machine_scheme"
proof (unfold_locales, goal_cases)
  case (1 d p p' rest)
  then show ?case by (auto simp: rp_execute_def bindR_eq_Inr mapR_eq_Inr split: prod.splits dest: consume_prefix)
next
  case (2 d p p' rest)
  then obtain q evs where "p' = fold on_request evs (p\<lparr>rp_parser := q\<rparr>)"
    by (auto simp: rp_execute_def bindR_eq_Inr mapR_eq_Inr split: prod.splits)
  with 2(2) fold_on_request_error [of "p\<lparr>rp_parser := q\<rparr>" evs] show ?case by simp
qed

interpretation rsp: incremental_parser "\<lambda>d. sp_execute M d c" "\<lambda>p. rs_body (sp_data p) = []"
  for M :: "('p, 'z) http_machine_scheme" and c
proof (unfold_locales, goal_cases)
  case (1 d p p' rest)
  then show ?case by (auto simp: sp_execute_def Let_def bindR_eq_Inr mapR_eq_Inr split: prod.splits dest: consume_prefix)
next
  case (2 d p p' rest)
  then show ?case by (auto simp: sp_execute_def Let_def bindR_eq_Inr mapR_eq_Inr split: prod.splits if_splits)
qed

section \<open>Requests\<close>

lemma recvRequest_cuts:
  assumes "recvRequest M cast mx n ss = Inr (r, ss')"
  shows "case r of
      None \<Rightarrow> \<not> ss_isConnected ss'
    | Some rq \<Rightarrow> \<exists>head dropped. incoming ss = head @ rq_body rq @ dropped @ incoming ss'
        \<and> int (length (rq_body rq)) = max 0 (sint (getAs cast (rq_headers rq) ''content-length'' 0))
        \<and> length dropped < n \<and> to_come ss' < to_come ss"
proof -
  obtain r1 ss1 where hl: "head_loop (rp_execute M) (rp_hasError M) (rp_isFinished M) n (HttpRequestParser_new M) [] ss = Inr (r1, ss1)"
    using assms by (auto simp: recvRequest_def bindR_eq_Inr)
  have new: "rq_body (rp_data (HttpRequestParser_new M)) = [] \<and> rp_error (HttpRequestParser_new M) \<in> {0, 1000, 1001}"
    by (simp add: HttpRequestParser_new_def HttpRequest_new_def)
  note head = rqp.head_loop_ok [OF hl new, simplified]
  show ?thesis
  proof (cases r1)
    case None
    with assms hl head show ?thesis by (auto simp: recvRequest_def)
  next
    case (Some x)
    obtain p rest where x: "x = (p, rest)" by (cases x)
    with head Some have h: "rq_body (rp_data p) = []" "length rest < n" "to_come ss1 < to_come ss" by auto
    obtain hd where hd: "incoming ss = hd @ rest @ incoming ss1" using head Some x by auto
    let ?cl = "rp_getContentLength cast p"
    show ?thesis
    proof (cases "sint ?cl > 0")
      case False
      with assms hl Some x have "r = Some (rp_data p)" "ss' = ss1" by (auto simp: recvRequest_def Let_def)
      with False h hd show ?thesis by (auto simp: rp_getContentLength_def)
    next
      case True
      with assms hl Some x obtain b where b: "length_body mx ?cl rest ss1 = Inr (b, ss')"
        "r = map_option (\<lambda>b. (rp_data p)\<lparr>rq_body := b\<rparr>) b"
        by (auto simp: recvRequest_def Let_def mapR_eq_Inr)
      from length_body_ok [OF b(1) True] show ?thesis
      proof (cases b)
        case (Some body)
        with length_body_ok [OF b(1) True] obtain dropped where d: "rest @ incoming ss1 = body @ dropped @ incoming ss'"
          "int (length body) = sint ?cl" "length dropped \<le> length rest" "length rest \<le> length body + length dropped" by auto
        have "to_come ss' \<le> to_come ss1"
          using arg_cong [OF d(1), of length] d(4) by (simp add: to_come_incoming)
        moreover have "incoming ss = hd @ body @ dropped @ incoming ss'" using hd d(1) by simp
        moreover have "length dropped < n" using d(3) h(2) by simp
        ultimately have "\<exists>head dropped. incoming ss = head @ body @ dropped @ incoming ss' \<and> length dropped < n \<and> to_come ss' < to_come ss"
          using h(3) by (intro exI [of _ hd] exI [of _ dropped]) simp
        with d(2) Some b(2) True show ?thesis by (simp add: rp_getContentLength_def)
      qed (use b in auto)
    qed
  qed
qed


lemma recvRequest_progress:
  "recvRequest M cast mx n ss = Inr (Some rq, ss') \<Longrightarrow> to_come ss' < to_come ss"
  using recvRequest_cuts [of M cast mx n ss "Some rq" ss'] by auto

text \<open>A small machine for the concrete instances: the head is one line, the content length.\<close>

definition line_machine :: "nat http_machine" where
  "line_machine =
     \<lparr>hm_memory = 0, hm_init = (\<lambda>p. 0),
      hm_execute = (\<lambda>p d. let h = takeWhile (\<lambda>c. c \<noteq> CHR 0x0A) d in
        if h = d then Inr (p, int (length d), []) else Inr (1, int (length h) + 1, [Field ''content-length'' h])),
      hm_finish = int, hm_has_error = (\<lambda>p. False)\<rparr>"

definition dec_cast :: "string \<Rightarrow> u64 option" where
  "dec_cast s = Some (of_nat (read_base 10 s))"

definition demo_stream :: "string list \<Rightarrow> char sstream" where
  "demo_stream xs =
     SocketStream_new (Some \<lparr>sk_isConnected = True, sk_sock = 5, sk_in = map Chunk xs, sk_snd = [], sk_out = []\<rparr>) True"

lemma demo_request:
  "(case recvRequest line_machine dec_cast 100 16 (demo_stream [''4'' @ [CHR 0x0A] @ ''a'', ''bc'', ''de'']) of
      Inr (Some rq, ss') \<Rightarrow> rq_body rq = ''abcd'' \<and> incoming ss' = ''e'' | _ \<Rightarrow> False)"
  by code_simp


text \<open>
  A length that does not fit makes \<open>resize\<close> throw: the limit \<open>http.request.max_body_size\<close> is
  never consulted.
\<close>

lemma huge_content_length_throws:
  "recvRequest line_machine dec_cast 100 16 (demo_stream [''101'' @ [CHR 0x0A]]) = Inl LogicError"
  by code_simp

text \<open>
  A second request that arrived in the same packet is dropped with the buffer.
\<close>

lemma pipelined_request_lost:
  "(case recvRequest line_machine dec_cast 100 16 (demo_stream [''1'' @ [CHR 0x0A] @ ''a'' @ ''1'' @ [CHR 0x0A] @ ''b'']) of
      Inr (Some rq, ss') \<Rightarrow> rq_body rq = ''a'' \<and> incoming ss' = [] \<and> ss_isConnected ss' | _ \<Rightarrow> False)"
  by code_simp

section \<open>Responses\<close>

text \<open>The pieces of a chunked body: the header the machine parsed, the content, two bytes.\<close>

definition chunk_bytes :: "string \<times> string \<times> string \<times> 'p \<Rightarrow> string" where
  "chunk_bytes = (\<lambda>(h, c, t, q). h @ c @ t)"

definition chunk_data :: "string \<times> string \<times> string \<times> 'p \<Rightarrow> string" where
  "chunk_data = (\<lambda>(h, c, t, q). c)"

text \<open>A chunk is as long as the machine said, and two bytes follow it.\<close>

definition chunk_ok :: "('p, 'z) httpclient_machine_scheme \<Rightarrow> string \<times> string \<times> string \<times> 'p \<Rightarrow> bool" where
  "chunk_ok M = (\<lambda>(h, c, t, q). int (length c) = hc_content_len M q \<and> length t = 2 \<and> hm_finish M q \<noteq> 0 \<and> \<not> hm_has_error M q)"

definition chunk_state :: "string \<times> string \<times> string \<times> 'p \<Rightarrow> 'p" where
  "chunk_state = (\<lambda>(h, c, t, q). q)"

lemma chunk_head_ok:
  assumes "chunk_head M n b p d ss = Inr (r, ss')"
  shows "case r of None \<Rightarrow> \<not> ss_isConnected ss'
    | Some (p', rest) \<Rightarrow> \<not> sp_hasError M p' \<and> sp_isFinished M p' \<noteq> 0 \<and> (rs_body (sp_data p) = [] \<longrightarrow> rs_body (sp_data p') = [])
        \<and> (\<exists>h. d @ incoming ss = h @ rest @ incoming ss')"
  using assms
proof (induction M n b p d ss rule: chunk_head.induct)
  case (1 M n b p d ss)
  show ?case
  proof (cases "\<not> b \<or> d = []")
    case True
    obtain rt bs ss1 where rd: "ss_read (n - length d) ss = (rt, bs, ss1)" by (metis prod.exhaust)
    show ?thesis
    proof (cases "rt \<le> 0")
      case rt: True
      with "1.prems" True rd show ?thesis by (subst (asm) chunk_head.simps) auto
    next
      case rt: False
      obtain p1 rest where ex: "sp_execute M (d @ bs) True p = Inr (p1, rest)"
        using "1.prems" True rd rt by (subst (asm) chunk_head.simps) (auto simp: bindR_eq_Inr)
      obtain h where h: "d @ bs = h @ rest" using rsp.exec_prefix [OF ex] by blast
      have eq: "d @ incoming ss = h @ rest @ incoming ss1" using ss_read_ok [OF rd] h by (simp flip: append_assoc)
      have body: "rs_body (sp_data p) = [] \<Longrightarrow> rs_body (sp_data p1) = []" using rsp.exec_ok [OF ex] by simp
      have step: "chunk_head M n b p d ss =
        (if sp_hasError M p1 \<or> length rest = n then Inr (None, ss_close ss1)
         else if sp_isFinished M p1 \<noteq> 0 then Inr (Some (p1, rest), ss1) else chunk_head M n False p1 rest ss1)"
        using True rd rt ex by (subst chunk_head.simps) auto
      show ?thesis
        using "1.prems" [unfolded step] eq body "1.IH"(1) [OF True rd [symmetric] refl rt ex refl]
        by (fastforce split: if_splits option.splits)
    qed
  next
    case False
    obtain p1 rest where ex: "sp_execute M d True p = Inr (p1, rest)"
      using "1.prems" False by (subst (asm) chunk_head.simps) (auto simp: bindR_eq_Inr)
    obtain h where h: "d = h @ rest" using rsp.exec_prefix [OF ex] by blast
    have body: "rs_body (sp_data p) = [] \<Longrightarrow> rs_body (sp_data p1) = []" using rsp.exec_ok [OF ex] by simp
    have step: "chunk_head M n b p d ss =
      (if sp_hasError M p1 \<or> length rest = n then Inr (None, ss_close ss)
       else if sp_isFinished M p1 \<noteq> 0 then Inr (Some (p1, rest), ss) else chunk_head M n False p1 rest ss)"
      using False ex by (subst chunk_head.simps) auto
    show ?thesis
      using "1.prems" [unfolded step] h body "1.IH"(2) [OF False ex refl]
      by (fastforce split: if_splits option.splits)
  qed
qed

lemma chunk_content_ok:
  assumes "chunk_content n cl body d ss = Inr (r, ss')" and "cl \<noteq> -1"
  shows "case r of None \<Rightarrow> \<not> ss_isConnected ss'
    | Some (body', rest) \<Rightarrow> \<exists>c t. d @ incoming ss = c @ t @ rest @ incoming ss' \<and> body' = body @ c
        \<and> int (length c) = cl \<and> length t = 2"
proof (cases "cl + 2 \<le> int (length d)")
  case True
  with assms(1) have cl: "\<not> cl < 0" and r: "r = Some (body @ take (nat cl) d, drop (nat cl + 2) d)" "ss' = ss"
    by (auto simp: chunk_content_def split: if_splits)
  have "d = take (nat cl) d @ take 2 (drop (nat cl) d) @ drop (nat cl + 2) d"
    by (metis add.commute append_take_drop_id drop_drop)
  moreover have "int (length (take (nat cl) d)) = cl" "length (take 2 (drop (nat cl) d)) = 2" using True cl by auto
  ultimately show ?thesis using r
    by (auto intro!: exI [of _ "take (nat cl) d"] exI [of _ "take 2 (drop (nat cl) d)"] simp flip: append_assoc)
next
  case False
  then have cl: "0 \<le> cl" using assms(2) by auto
  obtain x ss1 where rd: "read_left n (cl - int (length d) + 2) ss = (x, ss1)" by (metis prod.exhaust)
  note got = read_left_ok [OF rd]
  show ?thesis
  proof (cases x)
    case None
    with assms(1) False rd got show ?thesis by (auto simp: chunk_content_def)
  next
    case (Some bs)
    with got False have bs: "incoming ss = bs @ incoming ss1" "int (length (d @ bs)) = cl + 2" by auto
    then have "\<not> length (body @ d @ bs) < 2" using cl by auto
    with assms(1) False rd Some
    have r: "r = Some (take (length (body @ d @ bs) - 2) (body @ d @ bs), [])" "ss' = ss1"
      by (auto simp: chunk_content_def Let_def)
    define c t where "c = take (nat cl) (d @ bs)" and "t = drop (nat cl) (d @ bs)"
    have len: "length (d @ bs) = nat cl + 2" using bs(2) cl by linarith
    have split: "d @ bs = c @ t" unfolding c_def t_def by (rule append_take_drop_id [symmetric])
    have lens: "int (length c) = cl" "length t = 2" using len cl by (simp_all add: c_def t_def)
    have "take (length (body @ d @ bs) - 2) (body @ d @ bs) = body @ c"
      unfolding split using lens(2) by simp
    with r have "r = Some (body @ c, [])" by simp
    moreover have "d @ incoming ss = c @ t @ [] @ incoming ss'"
      using bs(1) split r(2) by (metis append_assoc append_Nil)
    ultimately show ?thesis using lens by auto
  qed
qed

lemma chunk_loop_ok:
  assumes "chunk_loop M n p body d ss = Inr (r, ss')" and "\<forall>q. hc_content_len M q \<noteq> -1"
    and "rs_body (sp_data p) = []"
  shows "case r of None \<Rightarrow> \<not> ss_isConnected ss'
    | Some (p', body', rest) \<Rightarrow> rs_body (sp_data p') = [] \<and> (\<exists>cs. cs \<noteq> [] \<and> list_all (chunk_ok M) cs
        \<and> d @ incoming ss = concat (map chunk_bytes cs) @ rest @ incoming ss'
        \<and> body' = body @ concat (map chunk_data cs)
        \<and> map (hc_chunks_done M \<circ> chunk_state) cs = replicate (length cs - 1) False @ [True])"
  using assms(1,3)
proof (induction "length d + to_come ss" arbitrary: p body d ss rule: less_induct)
  case less
  obtain x ss1 where hd: "chunk_head M n True p d ss = Inr (x, ss1)"
    using less.prems(1) by (subst (asm) chunk_loop.simps) (auto simp: bindR_eq_Inr)
  note head = chunk_head_ok [OF hd]
  show ?case
  proof (cases x)
    case None
    with less.prems(1) hd head show ?thesis by (subst (asm) chunk_loop.simps) auto
  next
    case (Some y)
    then obtain p1 d1 where y: "x = Some (p1, d1)" by (cases y) auto
    with head obtain h where h: "d @ incoming ss = h @ d1 @ incoming ss1" and p1: "\<not> sp_hasError M p1"
      "sp_isFinished M p1 \<noteq> 0" "rs_body (sp_data p1) = []" using less.prems(2) by auto
    let ?q = "sp_parser p1"
    obtain z ss2 where ct: "chunk_content n (hc_content_len M ?q) body d1 ss1 = Inr (z, ss2)"
      using less.prems(1) hd y by (subst (asm) chunk_loop.simps) (auto simp: bindR_eq_Inr)
    note content = chunk_content_ok [OF ct assms(2) [rule_format]]
    show ?thesis
    proof (cases z)
      case None
      with less.prems(1) hd y ct content show ?thesis by (subst (asm) chunk_loop.simps) auto
    next
      case (Some w)
      then obtain body1 d2 where z: "z = Some (body1, d2)" by (cases w) auto
      with content obtain c t where c: "d1 @ incoming ss1 = c @ t @ d2 @ incoming ss2" "body1 = body @ c"
        "int (length c) = hc_content_len M ?q" "length t = 2" by auto
      let ?ch = "(h, c, t, ?q)"
      have ok: "chunk_ok M ?ch" using c(3,4) p1 by (auto simp: chunk_ok_def sp_hasError_def sp_isFinished_def)
      have eq: "d @ incoming ss = chunk_bytes ?ch @ d2 @ incoming ss2" using h c(1) by (simp add: chunk_bytes_def)
      have step: "chunk_loop M n p body d ss =
        (if hc_chunks_done M ?q then Inr (Some (p1, body1, d2), ss2) else chunk_loop M n p1 body1 d2 ss2)"
        using hd y ct z by (subst chunk_loop.simps) simp
      show ?thesis
      proof (cases "hc_chunks_done M ?q")
        case True
        with less.prems(1) step have "r = Some (p1, body1, d2)" "ss' = ss2" by auto
        with ok eq c(2) p1(3) True show ?thesis
          by (auto simp: chunk_data_def chunk_state_def intro!: exI [of _ "[?ch]"])
      next
        case False
        have smaller: "length d2 + to_come ss2 < length d + to_come ss"
          using chunk_head_progress [OF hd [unfolded y]] chunk_content_progress [OF ct [unfolded z]] by simp
        have "chunk_loop M n p1 body1 d2 ss2 = Inr (r, ss')" using less.prems(1) step False by simp
        note rest = less.hyps [OF smaller this p1(3)]
        show ?thesis
        proof (cases r)
          case (Some v)
          then obtain p' body' d' where v: "r = Some (p', body', d')" by (cases v) auto
          with rest obtain cs where cs: "cs \<noteq> []" "list_all (chunk_ok M) cs" "rs_body (sp_data p') = []"
            "d2 @ incoming ss2 = concat (map chunk_bytes cs) @ d' @ incoming ss'"
            "body' = body1 @ concat (map chunk_data cs)"
            "map (hc_chunks_done M \<circ> chunk_state) cs = replicate (length cs - 1) False @ [True]" by auto
          have "replicate (length cs) False = False # replicate (length cs - 1) False"
            using cs(1) by (cases cs) auto
          with v cs ok eq c(2) False show ?thesis
            by (auto simp: chunk_data_def chunk_state_def intro!: exI [of _ "?ch # cs"])
        qed (use rest in auto)
      qed
    qed
  qed
qed


text \<open>
  A machine for the concrete instances: a line \<open>C\<close> announces chunks, a number is a chunk
  header. It consumes whole lines only, or, as generated machines do, all it is given.
\<close>

definition chunk_machine :: "bool \<Rightarrow> (bool \<times> nat \<times> nat) httpclient_machine" where
  "chunk_machine eager =
     \<lparr>hm_memory = (False, 0, 0), hm_init = (\<lambda>p. (False, 0, 0)),
      hm_execute = (\<lambda>p d. let h = takeWhile (\<lambda>c. c \<noteq> CHR 0x0A) d in
        if h = d then Inr (p, if eager then int (length d) else 0, [])
        else Inr ((True, if h = ''C'' then 0 else read_base 10 h, 1), int (length h) + 1, [])),
      hm_finish = (\<lambda>(_, _, f). int f), hm_has_error = (\<lambda>p. False),
      hc_chunked = fst, hc_content_len = (\<lambda>(_, n, _). int n), hc_chunks_done = (\<lambda>(_, n, _). n = 0)\<rparr>"

definition chunk_input :: "string list" where
  "chunk_input = [''C'' @ [CHR 0x0A] @ ''3'', [CHR 0x0A] @ ''ab'', ''c'' @ CRLF @ ''1'', [CHR 0x0A] @ ''d'' @ CRLF @ ''0'' @ [CHR 0x0A] @ CRLF]"

lemma demo_response:
  "(case recvResponse (chunk_machine False) dec_cast 100 16 (demo_stream chunk_input) of
      Inr (Some rs, ss') \<Rightarrow> rs_body rs = ''abcd'' \<and> rs_headers rs = [] | _ \<Rightarrow> False)"
  by code_simp


text \<open>
  The machine is initialised again before every piece of a chunk header, the second piece of
  a split one included: of \<open>10\<close> split between two packets only \<open>0\<close> is left, the last chunk.
\<close>

lemma split_chunk_header_misread:
  "(case recvResponse (chunk_machine True) dec_cast 100 64
      (demo_stream [''C'' @ [CHR 0x0A] @ ''1'', ''0'' @ [CHR 0x0A] @ ''abcdefghij'' @ CRLF @ ''0'' @ [CHR 0x0A] @ CRLF]) of
      Inr (Some rs, ss') \<Rightarrow> rs_body rs = [] | _ \<Rightarrow> False)"
  by code_simp

text \<open>
  A chunk size that strtol cuts to -1 (FFFFFFFF) makes \<open>append\<close> throw; the buffer is sized by
  the request setting.
\<close>

lemma negative_chunk_throws: "chunk_content n (-1) body [c] ss = Inl LogicError"
  by (simp add: chunk_content_def)

end
