(* ===== verification/HttpSession_Quiet.thy ===== *)
theory HttpSession_Quiet
  imports HttpSession_Props
begin

text \<open>
  What receiving leaves alone. Everything that receives only reads from the stream or closes
  it, so whatever these two keep, every receiving function keeps; in particular nothing is
  sent and the stream stays its owner's.
\<close>

section \<open>Kept by reading and closing\<close>

lemma fix_loop_keeps:
  assumes "\<And>n s r s'. step n s = Inr (r, s') \<Longrightarrow> P s \<Longrightarrow> P s'"
    and "fix_loop step left s = Inr (e, s')" and "P s"
  shows "P s'"
  using assms(2,3)
proof (induction "nat left" arbitrary: left s rule: less_induct)
  case less
  show ?case
  proof (cases "left \<le> 0")
    case True
    with less.prems show ?thesis by (subst (asm) fix_loop.simps) simp
  next
    case False
    then obtain r s1 where st: "step (nat left) s = Inr (r, s1)"
      using less.prems(1) by (subst (asm) fix_loop.simps) (auto simp: bindR_eq_Inr)
    note P1 = assms(1) [OF st less.prems(2)]
    show ?thesis
    proof (cases "r \<le> 0")
      case True
      with less.prems(1) False st P1 show ?thesis by (subst (asm) fix_loop.simps) simp
    next
      case pos: False
      with less.prems(1) False st have "fix_loop step (left - r) s1 = Inr (e, s')" by (subst (asm) fix_loop.simps) simp
      from less.hyps [OF _ this P1] pos False show ?thesis by simp
    qed
  qed
qed

locale stream_invariant =
  fixes Q :: "char sstream \<Rightarrow> bool"
  assumes read: "ss_read n ss = (r, bs, ss') \<Longrightarrow> Q ss \<Longrightarrow> Q ss'"
    and close: "Q ss \<Longrightarrow> Q (ss_close ss)"
begin

lemma readFixSize_keeps:
  assumes "readFixSize k ss = Inr (r, bs, ss')" and "Q ss"
  shows "Q ss'"
proof -
  define step :: "nat \<Rightarrow> string \<times> char sstream \<Rightarrow> (int \<times> string \<times> char sstream) res" where
    "step = (\<lambda>n (mem, st). case ss_read n st of (rt, bs, st1) \<Rightarrow> Inr (rt, mem @ bs, st1))"
  have kept: "Q (snd s')" if "step n s = Inr (r, s')" "Q (snd s)" for n s r s'
    using that read by (cases s) (auto simp: step_def split: prod.splits)
  obtain e where "fix_loop step (as_int64 k) ([], ss) = Inr (e, bs, ss')"
    using assms(1) by (auto simp: readFixSize_def step_def [symmetric] fix_size_def bindR_eq_Inr mapR_eq_Inr split: option.splits)
  from fix_loop_keeps [of step "Q \<circ> snd", OF _ this] assms(2) kept show ?thesis by (simp add: comp_def)
qed

lemma length_body_keeps: "length_body mx cl d ss = Inr (r, ss') \<Longrightarrow> Q ss \<Longrightarrow> Q ss'"
  by (auto simp: length_body_def Let_def bindR_eq_Inr split: if_splits dest: readFixSize_keeps intro: close)

lemma head_loop_keeps: "head_loop exec err fin n p d ss = Inr (r, ss') \<Longrightarrow> Q ss \<Longrightarrow> Q ss'"
proof (induction exec err fin n p d ss rule: head_loop.induct)
  case (1 exec err fin n p d ss)
  obtain len bs ss1 where rd: "ss_read (n - length d) ss = (len, bs, ss1)" by (metis prod.exhaust)
  note Q1 = read [OF rd "1.prems"(2)]
  show ?case
  proof (cases "len \<le> 0")
    case True
    with "1.prems"(1) rd Q1 close show ?thesis by (subst (asm) head_loop.simps) auto
  next
    case pos: False
    then obtain p1 rest where ex: "exec (d @ bs) p = Inr (p1, rest)"
      using "1.prems"(1) rd by (subst (asm) head_loop.simps) (auto simp: bindR_eq_Inr)
    show ?thesis
      using "1.prems"(1) rd pos ex Q1 close "1.IH" [OF rd [symmetric] refl pos ex refl]
      by (subst (asm) head_loop.simps) (auto split: if_splits)
  qed
qed

lemma chunk_head_keeps: "chunk_head M n b p d ss = Inr (r, ss') \<Longrightarrow> Q ss \<Longrightarrow> Q ss'"
proof (induction M n b p d ss rule: chunk_head.induct)
  case (1 M n b p d ss)
  show ?case
  proof (cases "\<not> b \<or> d = []")
    case True
    obtain len bs ss1 where rd: "ss_read (n - length d) ss = (len, bs, ss1)" by (metis prod.exhaust)
    note Q1 = read [OF rd "1.prems"(2)]
    show ?thesis
    proof (cases "len \<le> 0")
      case le: True
      with "1.prems"(1) True rd Q1 close show ?thesis by (subst (asm) chunk_head.simps) auto
    next
      case pos: False
      then obtain p1 rest where ex: "sp_execute M (d @ bs) True p = Inr (p1, rest)"
        using "1.prems"(1) True rd by (subst (asm) chunk_head.simps) (auto simp: bindR_eq_Inr)
      show ?thesis
        using "1.prems"(1) True rd pos ex Q1 close "1.IH"(1) [OF True rd [symmetric] refl pos ex refl]
        by (subst (asm) chunk_head.simps) (auto split: if_splits)
    qed
  next
    case False
    then obtain p1 rest where ex: "sp_execute M d True p = Inr (p1, rest)"
      using "1.prems"(1) by (subst (asm) chunk_head.simps) (auto simp: bindR_eq_Inr)
    show ?thesis
      using "1.prems" False ex close "1.IH"(2) [OF False ex refl]
      by (subst (asm) chunk_head.simps) (auto split: if_splits)
  qed
qed

lemma read_left_keeps: "read_left n left ss = (r, ss') \<Longrightarrow> Q ss \<Longrightarrow> Q ss'"
proof (induction n left ss arbitrary: r rule: read_left.induct)
  case (1 n left ss)
  show ?case
  proof (cases "left \<le> 0")
    case True
    with "1.prems" show ?thesis by (subst (asm) read_left.simps) simp
  next
    case False
    obtain rt bs ss1 where rd: "ss_read (if left > int n then n else nat left) ss = (rt, bs, ss1)" by (metis prod.exhaust)
    note Q1 = read [OF rd "1.prems"(2)]
    show ?thesis
      using "1.prems"(1) False rd Q1 close "1.IH" [OF False rd [symmetric] refl _ _ Q1]
      by (subst (asm) read_left.simps) (auto split: if_splits prod.splits)
  qed
qed

lemma chunk_content_keeps: "chunk_content n cl body d ss = Inr (r, ss') \<Longrightarrow> Q ss \<Longrightarrow> Q ss'"
  by (auto simp: chunk_content_def Let_def split: if_splits prod.splits option.splits dest: read_left_keeps)

lemma chunk_loop_keeps:
  assumes "chunk_loop M n p body d ss = Inr (r, ss')" and "Q ss"
  shows "Q ss'"
  using assms
proof (induction "length d + to_come ss" arbitrary: p body d ss rule: less_induct)
  case less
  obtain x ss1 where hd: "chunk_head M n True p d ss = Inr (x, ss1)"
    using less.prems(1) by (subst (asm) chunk_loop.simps) (auto simp: bindR_eq_Inr)
  note Q1 = chunk_head_keeps [OF hd less.prems(2)]
  show ?case
  proof (cases x)
    case None
    with less.prems(1) hd Q1 show ?thesis by (subst (asm) chunk_loop.simps) simp
  next
    case (Some pd)
    then obtain p1 d1 where x: "x = Some (p1, d1)" by (cases pd) auto
    with less.prems(1) hd obtain y ss2 where c: "chunk_content n (hc_content_len M (sp_parser p1)) body d1 ss1 = Inr (y, ss2)"
      by (subst (asm) chunk_loop.simps) (auto simp: bindR_eq_Inr)
    note Q2 = chunk_content_keeps [OF c Q1]
    show ?thesis
    proof (cases "y = None \<or> hc_chunks_done M (sp_parser p1)")
      case True
      with less.prems(1) hd x c Q2 show ?thesis by (subst (asm) chunk_loop.simps) (auto split: option.splits)
    next
      case False
      then obtain b2 d2 where y: "y = Some (b2, d2)" by (cases y) auto
      with less.prems(1) hd x c False have l: "chunk_loop M n p1 b2 d2 ss2 = Inr (r, ss')"
        by (subst (asm) chunk_loop.simps) simp
      have "length d2 + to_come ss2 < length d + to_come ss"
        using chunk_head_progress [OF hd [unfolded x]] chunk_content_progress [OF c [unfolded y]] by simp
      from less.hyps [OF this l Q2] show ?thesis .
    qed
  qed
qed

lemma recvResponse_keeps: "recvResponse M cast mx n ss = Inr (r, ss') \<Longrightarrow> Q ss \<Longrightarrow> Q ss'"
  by (auto simp: recvResponse_def Let_def bindR_eq_Inr mapR_eq_Inr split: option.splits if_splits prod.splits
      dest!: head_loop_keeps chunk_loop_keeps length_body_keeps)

lemma recvRequest_keeps: "recvRequest M cast mx n ss = Inr (r, ss') \<Longrightarrow> Q ss \<Longrightarrow> Q ss'"
  by (auto simp: recvRequest_def Let_def bindR_eq_Inr mapR_eq_Inr split: option.splits if_splits prod.splits
      dest!: head_loop_keeps length_body_keeps)

end

section \<open>Nothing is sent\<close>

definition quiet :: "char sstream \<Rightarrow> char sstream \<Rightarrow> bool" where
  "quiet ss0 ss \<longleftrightarrow> sent ss = sent ss0 \<and> m_owner ss = m_owner ss0 \<and> (m_socket ss = None \<longleftrightarrow> m_socket ss0 = None)"

interpretation quiet: stream_invariant "quiet ss0" for ss0
proof (unfold_locales, goal_cases)
  case (1 n ss r bs ss')
  then show ?case
    by (auto simp: quiet_def ss_read_def ss_recv_def Socket_recv_def sent_def split: if_splits prod.splits option.splits)
next
  case (2 ss)
  then show ?case
    by (auto simp: quiet_def ss_close_def Socket_close_def sent_def split: option.splits)
qed

text \<open>A write stays with its owner too.\<close>

lemma writeFixSize_owner:
  fixes buffer :: "string"
  assumes "writeFixSize buffer ss = Inr (r, off, ss')"
  shows "m_owner ss' = m_owner ss \<and> (m_socket ss' = None \<longleftrightarrow> m_socket ss = None)"
proof -
  define step :: "nat \<Rightarrow> nat \<times> char sstream \<Rightarrow> (int \<times> nat \<times> char sstream) res" where
    "step = (\<lambda>n (off, st). case ss_write (take n (drop off buffer)) st of (rt, st1) \<Rightarrow> Inr (rt, off + nat rt, st1))"
  define P where "P = (\<lambda>(off :: nat, st :: char sstream). m_owner st = m_owner ss \<and> (m_socket st = None \<longleftrightarrow> m_socket ss = None))"
  have kept: "P s'" if "step n s = Inr (r, s')" "P s" for n s r s'
    using that by (cases s) (auto simp: step_def P_def ss_write_def ss_send_def Socket_send_def
      split: if_splits prod.splits option.splits)
  obtain e where "fix_loop step (as_int64 (length buffer)) (0, ss) = Inr (e, off, ss')"
    using assms by (auto simp: writeFixSize_def step_def [symmetric] fix_size_def bindR_eq_Inr mapR_eq_Inr split: option.splits)
  from fix_loop_keeps [of step P, OF kept this] show ?thesis by (simp add: P_def)
qed

end
