(* ===== verification/HttpServlet.thy ===== *)
theory HttpServlet
  imports HttpSession_Quiet
begin

text \<open>
  Servlets and their dispatch (http/http_servlet.h, http/http_servlet.cpp), and the loop of
  \<open>HttpServer::handleClient\<close> (src/http_server.cpp) that ties parser, dispatch and socket together.
  \<open>fnmatch\<close> of the C library is a parameter, and so is what a user's handler does.
\<close>

section \<open>Servlets\<close>

text \<open>\<open>FunctionServlet\<close> with its callback; \<open>NotFoundServlet\<close> with its page; any other subclass by its handler.\<close>

datatype 'h servlet = FunctionServlet 'h | NotFoundServlet string | OtherServlet 'h

definition NotFoundServlet_new :: "string \<Rightarrow> 'h servlet" where
  "NotFoundServlet_new name =
     NotFoundServlet (''<html><head><title>404 Not Found</title></head><body><center><h1>404 Not Found</h1></center><hr><center>''
       @ name @ ''</center></body></html>'')"

text \<open>What a handler is given and gives: the response it was called with, changed, and a status.\<close>

type_synonym handler = "HttpRequest \<Rightarrow> HttpResponse \<Rightarrow> HttpResponse \<times> int"

fun servlet_handle :: "('h \<Rightarrow> handler) \<Rightarrow> 'h servlet \<Rightarrow> handler" where
  "servlet_handle run (FunctionServlet cb) request response = run cb request response"
| "servlet_handle run (OtherServlet h) request response = run h request response"
| "servlet_handle run (NotFoundServlet content) request response =
     ((rs_setHeader ''Content-Type'' ''text/html''
        (rs_setHeader ''Server'' ''server_cc/1.0.0'' (response\<lparr>rs_status := NOT_FOUND\<rparr>)))\<lparr>rs_body := content\<rparr>, 0)"

text \<open>\<open>HoldServletCreator\<close> hands out the servlet it holds, \<open>ServletCreator<T>\<close> a new one of its class.\<close>

datatype 'h creator = HoldServletCreator "'h servlet" | ServletCreator 'h

fun creator_get :: "'h creator \<Rightarrow> 'h servlet" where
  "creator_get (HoldServletCreator slt) = slt"
| "creator_get (ServletCreator cls) = OtherServlet cls"

section \<open>ServletDispatch\<close>

record 'h dispatch =
  sd_datas :: "string \<rightharpoonup> 'h creator"
  sd_globs :: "(string \<times> 'h creator) list"
  sd_default :: "'h servlet"

definition ServletDispatch_new :: "'h dispatch" where
  "ServletDispatch_new =
     \<lparr>sd_datas = Map.empty, sd_globs = [], sd_default = NotFoundServlet_new ''server_cc/1.0''\<rparr>"

definition setDefault :: "'h servlet \<Rightarrow> 'h dispatch \<Rightarrow> 'h dispatch" where
  "setDefault v d = d\<lparr>sd_default := v\<rparr>"

definition addServletCreator :: "string \<Rightarrow> 'h creator \<Rightarrow> 'h dispatch \<Rightarrow> 'h dispatch" where
  "addServletCreator uri creator d = d\<lparr>sd_datas := (sd_datas d)(uri \<mapsto> creator)\<rparr>"

definition addServlet :: "string \<Rightarrow> 'h servlet \<Rightarrow> 'h dispatch \<Rightarrow> 'h dispatch" where
  "addServlet uri slt d = d\<lparr>sd_datas := (sd_datas d)(uri \<mapsto> HoldServletCreator slt)\<rparr>"

definition addServlet_cb :: "string \<Rightarrow> 'h \<Rightarrow> 'h dispatch \<Rightarrow> 'h dispatch" where
  "addServlet_cb uri cb d = d\<lparr>sd_datas := (sd_datas d)(uri \<mapsto> HoldServletCreator (FunctionServlet cb))\<rparr>"

text \<open>The loop that erases the first entry of the same pattern, then \<open>push_back\<close>.\<close>

definition addGlobServletCreator :: "string \<Rightarrow> 'h creator \<Rightarrow> 'h dispatch \<Rightarrow> 'h dispatch" where
  "addGlobServletCreator uri creator d =
     d\<lparr>sd_globs := remove_first (\<lambda>it. fst it = uri) (sd_globs d) @ [(uri, creator)]\<rparr>"

definition addGlobServlet :: "string \<Rightarrow> 'h servlet \<Rightarrow> 'h dispatch \<Rightarrow> 'h dispatch" where
  "addGlobServlet uri slt d =
     d\<lparr>sd_globs := remove_first (\<lambda>it. fst it = uri) (sd_globs d) @ [(uri, HoldServletCreator slt)]\<rparr>"

definition addGlobServlet_cb :: "string \<Rightarrow> 'h \<Rightarrow> 'h dispatch \<Rightarrow> 'h dispatch" where
  "addGlobServlet_cb uri cb d = addGlobServlet uri (FunctionServlet cb) d"

definition delServlet :: "string \<Rightarrow> 'h dispatch \<Rightarrow> 'h dispatch" where
  "delServlet uri d = d\<lparr>sd_datas := (sd_datas d)(uri := None)\<rparr>"

definition delGlobServlet :: "string \<Rightarrow> 'h dispatch \<Rightarrow> 'h dispatch" where
  "delGlobServlet uri d = d\<lparr>sd_globs := remove_first (\<lambda>it. fst it = uri) (sd_globs d)\<rparr>"

definition getServlet :: "string \<Rightarrow> 'h dispatch \<Rightarrow> 'h servlet option" where
  "getServlet uri d = map_option creator_get (sd_datas d uri)"

fun glob_find :: "(string \<Rightarrow> bool) \<Rightarrow> (string \<times> 'h creator) list \<Rightarrow> 'h servlet option" where
  "glob_find P [] = None"
| "glob_find P (it # its) = (if P (fst it) then Some (creator_get (snd it)) else glob_find P its)"

definition getGlobServlet :: "string \<Rightarrow> 'h dispatch \<Rightarrow> 'h servlet option" where
  "getGlobServlet uri d = glob_find (\<lambda>pat. pat = uri) (sd_globs d)"

text \<open>\<open>fnmatch pattern uri\<close> is the result of the C function, 0 for a match.\<close>

definition getMatchedServlet :: "(string \<Rightarrow> string \<Rightarrow> int) \<Rightarrow> string \<Rightarrow> 'h dispatch \<Rightarrow> 'h servlet" where
  "getMatchedServlet fnmatch uri d =
     (case sd_datas d uri of
        Some c \<Rightarrow> creator_get c
      | None \<Rightarrow>
          (case glob_find (\<lambda>pat. fnmatch (c_str pat) (c_str uri) = 0) (sd_globs d) of
             Some s \<Rightarrow> s | None \<Rightarrow> sd_default d))"

text \<open>The listings copy the tables over the caller's map.\<close>

definition listAllServletCreator :: "'h dispatch \<Rightarrow> (string \<rightharpoonup> 'h creator) \<Rightarrow> (string \<rightharpoonup> 'h creator)" where
  "listAllServletCreator d infos = infos ++ sd_datas d"

definition listAllGlobServletCreator :: "'h dispatch \<Rightarrow> (string \<rightharpoonup> 'h creator) \<Rightarrow> (string \<rightharpoonup> 'h creator)" where
  "listAllGlobServletCreator d infos = fold (\<lambda>i m. m(fst i \<mapsto> snd i)) (sd_globs d) infos"

definition dispatch_handle ::
  "(string \<Rightarrow> string \<Rightarrow> int) \<Rightarrow> ('h \<Rightarrow> handler) \<Rightarrow> 'h dispatch \<Rightarrow> handler" where
  "dispatch_handle fnmatch run d request response =
     (fst (servlet_handle run (getMatchedServlet fnmatch (rq_path request) d) request response), 0)"

section \<open>HttpServer\<close>

text \<open>\<open>setName\<close> of the server replaces the default servlet.\<close>

definition HttpServer_setName :: "string \<Rightarrow> 'h dispatch \<Rightarrow> 'h dispatch" where
  "HttpServer_setName v d = setDefault (NotFoundServlet_new v) d"

text \<open>One turn of the loop: the response the server builds before and after the dispatch.\<close>

definition serve_response ::
  "(string \<Rightarrow> string \<Rightarrow> int) \<Rightarrow> ('h \<Rightarrow> handler) \<Rightarrow> 'h dispatch \<Rightarrow> string \<Rightarrow> bool \<Rightarrow> HttpRequest \<Rightarrow> HttpResponse" where
  "serve_response fnmatch run d name keepalive req =
     fst (dispatch_handle fnmatch run d req
            (rs_setHeader ''Server'' name (HttpResponse_new (rq_version req) (rq_close req \<or> \<not> keepalive))))"

text \<open>A send does not touch what is still to be received.\<close>

lemma ss_write_incoming: "ss_write bs ss = (r, ss') \<Longrightarrow> incoming ss' = incoming ss"
  by (auto simp: ss_write_def ss_send_def Socket_send_def incoming_def split: if_splits option.splits prod.splits list.splits)

lemma sendResponse_incoming:
  assumes "sendResponse rsp ss = Inr (rt, ss')"
  shows "incoming ss' = incoming ss"
proof -
  obtain e off where f: "fix_loop (\<lambda>n (off, st). case ss_write (take n (drop off (rs_dump rsp))) st of
      (rt, st1) \<Rightarrow> Inr (rt, off + nat rt, st1)) (as_int64 (length (rs_dump rsp))) (0, ss) = Inr (e, off, ss')"
    using assms by (auto simp: sendResponse_def writeFixSize_def fix_size_def mapR_eq_Inr)
  have "incoming (snd (off, ss')) = incoming ss"
    by (rule fix_loop_keeps [OF _ f, where P = "\<lambda>x. incoming (snd x) = incoming ss"])
      (auto split: prod.splits dest: ss_write_incoming)
  then show ?thesis by simp
qed

text \<open>\<open>handleClient\<close>: the requests it served, and the connection at the end.\<close>

function handleClient ::
  "('p, 'z) http_machine_scheme \<Rightarrow> (string \<Rightarrow> u64 option) \<Rightarrow> nat \<Rightarrow> nat \<Rightarrow> (HttpRequest \<Rightarrow> HttpResponse) \<Rightarrow> bool
    \<Rightarrow> char sstream \<Rightarrow> (HttpRequest list \<times> char sstream) res" where
  "handleClient M cast max_size buff_size serve keepalive ss =
     bindR (recvRequest M cast max_size buff_size ss) (\<lambda>(r, ss1).
       case r of
         None \<Rightarrow> Inr ([], ss_close ss1)
       | Some req \<Rightarrow>
           bindR (sendResponse (serve req) ss1) (\<lambda>(rt, ss2).
             if \<not> keepalive \<or> rq_close req then Inr ([req], ss_close ss2)
             else mapR (\<lambda>(reqs, ss3). (req # reqs, ss3))
                    (handleClient M cast max_size buff_size serve keepalive ss2)))"
  by pat_completeness auto
termination
  by (relation "measure (\<lambda>(M, c, m, n, s, k, ss). to_come ss)")
    (auto simp: to_come_incoming dest!: recvRequest_progress sendResponse_incoming)

declare handleClient.simps [simp del]

section \<open>Dispatch\<close>

datatype 'h reg = Add string "'h creator" | AddGlob string "'h creator" | Del string | DelGlob string | Default "'h servlet"

fun reg_exec :: "'h reg \<Rightarrow> 'h dispatch \<Rightarrow> 'h dispatch" where
  "reg_exec (Add u c) = addServletCreator u c"
| "reg_exec (AddGlob u c) = addGlobServletCreator u c"
| "reg_exec (Del u) = delServlet u"
| "reg_exec (DelGlob u) = delGlobServlet u"
| "reg_exec (Default s) = setDefault s"

text \<open>
  The specification reads the history of registrations: the last word on an exact path, the
  patterns by the time of their last registration, the last default.
\<close>

fun spec_exact :: "string \<Rightarrow> 'h reg list \<Rightarrow> 'h creator option" where
  "spec_exact u [] = None"
| "spec_exact u (Add v c # rs) = (if v = u then Some c else spec_exact u rs)"
| "spec_exact u (Del v # rs) = (if v = u then None else spec_exact u rs)"
| "spec_exact u (_ # rs) = spec_exact u rs"

fun touches :: "string \<Rightarrow> 'h reg \<Rightarrow> bool" where
  "touches u (AddGlob v c) = (v = u)"
| "touches u (DelGlob v) = (v = u)"
| "touches u _ = False"

fun spec_globs :: "'h reg list \<Rightarrow> (string \<times> 'h creator) list" where
  "spec_globs [] = []"
| "spec_globs (AddGlob u c # rs) = (if \<exists>r \<in> set rs. touches u r then spec_globs rs else (u, c) # spec_globs rs)"
| "spec_globs (_ # rs) = spec_globs rs"

fun spec_default :: "'h reg list \<Rightarrow> 'h servlet" where
  "spec_default [] = NotFoundServlet_new ''server_cc/1.0''"
| "spec_default (Default s # rs) = s"
| "spec_default (_ # rs) = spec_default rs"

lemma spec_globs_snoc:
  "spec_globs (rs @ [r]) =
     (case r of AddGlob u c \<Rightarrow> filter (\<lambda>it. fst it \<noteq> u) (spec_globs rs) @ [(u, c)]
      | DelGlob u \<Rightarrow> filter (\<lambda>it. fst it \<noteq> u) (spec_globs rs) | _ \<Rightarrow> spec_globs rs)"
proof (induction rs)
  case (Cons a rs)
  then show ?case by (cases a; cases r) auto
qed (cases r, auto)

lemma spec_globs_keys: "(u, c) \<in> set (spec_globs rs) \<Longrightarrow> \<exists>r \<in> set rs. touches u r"
  by (induction rs rule: spec_globs.induct) (auto split: if_splits)

lemma spec_globs_distinct: "distinct (map fst (spec_globs rs))"
  by (induction rs rule: spec_globs.induct) (auto dest: spec_globs_keys)

lemma reg_run:
  "fold reg_exec rs ServletDispatch_new =
     \<lparr>sd_datas = (\<lambda>u. spec_exact u (rev rs)), sd_globs = spec_globs rs, sd_default = spec_default (rev rs)\<rparr>"
proof (induction rs rule: rev_induct)
  case Nil
  show ?case by (simp add: ServletDispatch_new_def)
next
  case (snoc r rs)
  show ?case
    using remove_first_distinct_map [OF spec_globs_distinct [of rs]]
    by (cases r) (auto simp: snoc.IH spec_globs_snoc addServletCreator_def addGlobServletCreator_def delServlet_def
        delGlobServlet_def setDefault_def fun_eq_iff)
qed

text \<open>
  C21. Dispatch follows the registrations: after any sequence of additions and removals the
  servlet for a path is the one last added for exactly that path and not removed since;
  failing that, the one of the first pattern that matches, in the order of their last
  registration, each pattern once; failing that, the last default. A path's servlet is found
  by getServlet and a pattern's by getGlobServlet in the same tables.
\<close>

theorem dispatch_follows_registrations:
  fixes rs :: "'h reg list"
  defines "d \<equiv> fold reg_exec rs ServletDispatch_new"
  shows "getMatchedServlet fnmatch uri d =
      (case spec_exact uri (rev rs) of
         Some c \<Rightarrow> creator_get c
       | None \<Rightarrow> (case find (\<lambda>it. fnmatch (c_str (fst it)) (c_str uri) = 0) (spec_globs rs) of
           Some it \<Rightarrow> creator_get (snd it) | None \<Rightarrow> spec_default (rev rs)))
    \<and> distinct (map fst (sd_globs d))
    \<and> getServlet uri d = map_option creator_get (spec_exact uri (rev rs))
    \<and> getGlobServlet uri d = map_option creator_get (map_of (spec_globs rs) uri)"
proof -
  have g: "glob_find P its = map_option (creator_get \<circ> snd) (find (\<lambda>it. P (fst it)) its)" for P and its :: "(string \<times> 'h creator) list"
    by (induction its) auto
  have m: "find (\<lambda>it. fst it = uri) its = map_option (Pair uri) (map_of its uri)" for its :: "(string \<times> 'h creator) list"
    by (induction its) auto
  show ?thesis
    by (auto simp: d_def reg_run getMatchedServlet_def getServlet_def getGlobServlet_def g m spec_globs_distinct
        option.map_comp comp_def split: option.splits)
qed

section \<open>Serving\<close>

lemma on_request_close [simp]: "rq_close (rp_data (on_request ev p)) = rq_close (rp_data p)"
  by (cases ev) (auto simp: on_request_method_def on_request_fragment_def on_request_path_def on_request_query_def
    on_request_version_def on_request_http_field_def rq_setHeader_def Let_def split: element.splits option.splits)

lemma fold_on_request_close [simp]: "rq_close (rp_data (fold on_request evs p)) = rq_close (rp_data p)"
  by (induction evs arbitrary: p) simp_all

interpretation rqc: incremental_parser "rp_execute M" "\<lambda>p. rq_close (rp_data p)"
  for M :: "('p, 'z) http_machine_scheme"
proof (unfold_locales, goal_cases)
  case (1 d p p' rest)
  then show ?case by (rule rqp.exec_prefix)
next
  case (2 d p p' rest)
  then show ?case by (auto simp: rp_execute_def bindR_eq_Inr mapR_eq_Inr split: prod.splits)
qed

text \<open>Nothing reads the Connection header: every received request says close.\<close>

lemma received_requests_close:
  assumes "recvRequest M cast mx n ss = Inr (Some rq, ss')"
  shows "rq_close rq"
proof -
  obtain r1 ss1 where hl: "head_loop (rp_execute M) (rp_hasError M) (rp_isFinished M) n (HttpRequestParser_new M) [] ss = Inr (r1, ss1)"
    using assms by (auto simp: recvRequest_def bindR_eq_Inr)
  with assms obtain p rest where r1: "r1 = Some (p, rest)" by (cases r1) (auto simp: recvRequest_def)
  have "rq_close (rp_data (HttpRequestParser_new M))"
    by (simp add: HttpRequestParser_new_def HttpRequest_new_def)
  from rqc.head_loop_ok [OF hl this] r1 have "rq_close (rp_data p)" by simp
  with assms hl r1 show ?thesis
    by (auto simp: recvRequest_def Let_def mapR_eq_Inr eq_commute [of "Some rq"] split: if_splits)
qed



end
