(* ===== verification/HttpClient.thy ===== *)
theory HttpClient
  imports HttpSession_Props
begin

text \<open>
  The client side (http/http_connection.cpp, http/uri.h): the parts of a URI, the request a
  call builds from a map of headers, the exchange over one connection with its error codes,
  and the pool of kept connections. Name lookup, socket creation and connect are inputs: what
  they came to.
\<close>

section \<open>URIs\<close>

record uri =
  u_scheme :: string
  u_userinfo :: string
  u_host :: string
  u_path :: string
  u_query :: string
  u_fragment :: string
  u_port :: int

definition isDefaultPort :: "uri \<Rightarrow> bool" where
  "isDefaultPort u =
     (if u_port u = 0 then True
      else if u_scheme u = ''http'' \<or> u_scheme u = ''ws'' then u_port u = 80
      else if u_scheme u = ''https'' \<or> u_scheme u = ''wss'' then u_port u = 443
      else False)"

definition uri_getPath :: "uri \<Rightarrow> string" where
  "uri_getPath u = (if u_path u = [] then ''/'' else u_path u)"

definition uri_getPort :: "uri \<Rightarrow> int" where
  "uri_getPort u =
     (if u_port u \<noteq> 0 then u_port u
      else if u_scheme u = ''http'' \<or> u_scheme u = ''ws'' then 80
      else if u_scheme u = ''https'' \<or> u_scheme u = ''wss'' then 443
      else u_port u)"

definition uri_dump :: "uri \<Rightarrow> string" where
  "uri_dump u =
     u_scheme u @ ''://'' @ u_userinfo u @ (if u_userinfo u = [] then [] else ''@'') @ u_host u
     @ (if isDefaultPort u then [] else '':'' @ show_int (u_port u)) @ uri_getPath u
     @ (if u_query u = [] then [] else ''?'') @ u_query u
     @ (if u_fragment u = [] then [] else ''#'') @ u_fragment u"

text \<open>A port that is not printed is the one a reader of the text falls back to.\<close>

lemma default_port_is_implied: "isDefaultPort u \<Longrightarrow> uri_getPort (u\<lparr>u_port := 0\<rparr>) = uri_getPort u"
  by (auto simp: isDefaultPort_def uri_getPort_def split: if_splits)

section \<open>Results\<close>

datatype Error = E_OK | INVALID_URL | INVALID_HOST | CONNECT_FAIL | SEND_CLOSE_BY_PEER | SEND_SOCKET_ERROR
  | TIMEOUT | CREATE_SOCKET_ERROR | POOL_GET_CONNECTION | POOL_INVALID_CONNECTION

fun error_code :: "Error \<Rightarrow> int" where
  "error_code E_OK = 0"
| "error_code INVALID_URL = 1"
| "error_code INVALID_HOST = 2"
| "error_code CONNECT_FAIL = 3"
| "error_code SEND_CLOSE_BY_PEER = 4"
| "error_code SEND_SOCKET_ERROR = 5"
| "error_code TIMEOUT = 6"
| "error_code CREATE_SOCKET_ERROR = 7"
| "error_code POOL_GET_CONNECTION = 8"
| "error_code POOL_INVALID_CONNECTION = 9"

record HttpResult =
  hr_result :: int
  hr_response :: "HttpResponse option"
  hr_error :: string

definition HttpResult_toString :: "HttpResult \<Rightarrow> string" where
  "HttpResult_toString r =
     ''[HttpResult result='' @ show_int (hr_result r) @ '' error='' @ hr_error r @ '' response=''
     @ (case hr_response r of Some rs \<Rightarrow> rs_dump rs | None \<Rightarrow> ''nullptr'') @ '']''"

definition fail :: "Error \<Rightarrow> string \<Rightarrow> HttpResult" where
  "fail e msg = \<lparr>hr_result = error_code e, hr_response = None, hr_error = msg\<rparr>"

section \<open>Building a request\<close>

text \<open>
  The loop over the caller's headers, a \<open>std::map\<close> in the order of its keys: the request so
  far and \<open>has_host\<close>.
\<close>

fun header_loop :: "(string \<times> string) list \<Rightarrow> HttpRequest \<times> bool \<Rightarrow> HttpRequest \<times> bool" where
  "header_loop [] (req, has_host) = (req, has_host)"
| "header_loop (i # is) (req, has_host) =
     (if strcasecmp (c_str (fst i)) ''connection'' = 0
      then header_loop is (if strcasecmp (c_str (snd i)) ''keep-alive'' = 0 then req\<lparr>rq_close := False\<rparr> else req, has_host)
      else header_loop is
             (rq_setHeader (fst i) (snd i) req,
              if \<not> has_host \<and> strcasecmp (c_str (fst i)) ''host'' = 0 then snd i \<noteq> [] else has_host))"

definition DoRequest_build :: "HttpMethod \<Rightarrow> uri \<Rightarrow> (string \<times> string) list \<Rightarrow> string \<Rightarrow> HttpRequest" where
  "DoRequest_build method u headers body =
     (let req = (HttpRequest_new 0x11 True)\<lparr>rq_path := uri_getPath u, rq_query := u_query u,
                   rq_fragment := u_fragment u, rq_method := method\<rparr>
      in case header_loop headers (req, False) of
           (req1, has_host) \<Rightarrow>
             (if \<not> has_host then rq_setHeader ''Host'' (u_host u) req1 else req1)\<lparr>rq_body := body\<rparr>)"

section \<open>One exchange\<close>

text \<open>
  What both \<open>DoRequest\<close> and the pool do on a connected stream: send, classify, receive. \<open>peer\<close>
  is the text of the peer's address, \<open>err\<close> that of errno: its number, \<open>errstr=\<close> and its message.
\<close>

definition exchange ::
  "('p, 'z) httpclient_machine_scheme \<Rightarrow> (string \<Rightarrow> u64 option) \<Rightarrow> nat \<Rightarrow> nat \<Rightarrow> string \<Rightarrow> string \<Rightarrow> nat
    \<Rightarrow> HttpRequest \<Rightarrow> char sstream \<Rightarrow> (HttpResult \<times> char sstream) res" where
  "exchange M cast max_size buff_size peer err timeout_ms req ss =
     bindR (sendRequest req ss) (\<lambda>(rt, ss1).
       if rt = 0 then Inr (fail SEND_CLOSE_BY_PEER (''send request closed by peer: '' @ peer), ss1)
       else if rt < 0 then Inr (fail SEND_SOCKET_ERROR (''send request socket error errno='' @ err), ss1)
       else mapR (\<lambda>(rsp, ss2).
              (case rsp of
                 None \<Rightarrow> fail TIMEOUT (''recv response timeout: '' @ peer @ '' timeout_ms:'' @ show_nat timeout_ms)
               | Some rs \<Rightarrow> \<lparr>hr_result = error_code E_OK, hr_response = Some rs, hr_error = ''ok''\<rparr>, ss2))
              (recvResponse M cast max_size buff_size ss1))"

text \<open>
  \<open>DoRequest\<close>: \<open>addr\<close> is the text of the address found, \<open>sock\<close> the stream of a new socket, \<open>conn\<close>
  whether connect succeeded. The connection object owns the socket and closes it at the end.
\<close>

definition DoRequest_exchange ::
  "('p, 'z) httpclient_machine_scheme \<Rightarrow> (string \<Rightarrow> u64 option) \<Rightarrow> nat \<Rightarrow> nat \<Rightarrow> string option \<Rightarrow> char sstream option \<Rightarrow> bool
    \<Rightarrow> string \<Rightarrow> nat \<Rightarrow> HttpRequest \<Rightarrow> uri \<Rightarrow> (HttpResult \<times> char sstream option) res" where
  "DoRequest_exchange M cast max_size buff_size addr sock conn err timeout_ms req u =
     (case addr of
        None \<Rightarrow> Inr (fail INVALID_HOST (''invalid host: '' @ u_host u), sock)
      | Some a \<Rightarrow>
          (case sock of
             None \<Rightarrow> Inr (fail CREATE_SOCKET_ERROR (''create socket fail: '' @ a @ '' errno='' @ err), None)
           | Some ss \<Rightarrow>
               (if \<not> conn then Inr (fail CONNECT_FAIL (''connect fail: '' @ a), Some ss)
                else mapR (\<lambda>(r, ss1). (r, Some (SocketStream_destroy ss1)))
                       (exchange M cast max_size buff_size a err timeout_ms req ss))))"

definition DoRequest_url ::
  "(uri \<Rightarrow> (HttpResult \<times> 's) res) \<Rightarrow> (string \<Rightarrow> uri option) \<Rightarrow> string \<Rightarrow> 's \<Rightarrow> (HttpResult \<times> 's) res" where
  "DoRequest_url request Uri_Create url s =
     (case Uri_Create url of
        None \<Rightarrow> Inr (fail INVALID_URL (''invalid url: '' @ url), s)
      | Some u \<Rightarrow> request u)"

section \<open>The connection pool\<close>

record conn =
  cn_stream :: "char sstream"
  cn_createTime :: u64
  cn_request :: u64

record pool =
  p_host :: string
  p_vhost :: string
  p_port :: u32
  p_maxSize :: u32
  p_maxAliveTime :: u32
  p_maxRequest :: u32
  p_isHttps :: bool
  p_conns :: "conn list"
  p_total :: int

definition HttpConnection_new :: "char sstream \<Rightarrow> conn" where
  "HttpConnection_new ss = \<lparr>cn_stream = ss, cn_createTime = 0, cn_request = 0\<rparr>"

definition HttpConnectionPool_new :: "string \<Rightarrow> string \<Rightarrow> u32 \<Rightarrow> bool \<Rightarrow> u32 \<Rightarrow> u32 \<Rightarrow> u32 \<Rightarrow> pool" where
  "HttpConnectionPool_new host vhost port is_https max_size max_alive_time max_request =
     \<lparr>p_host = host, p_vhost = vhost, p_port = (if port \<noteq> 0 then port else if is_https then 443 else 80),
      p_maxSize = max_size, p_maxAliveTime = max_alive_time, p_maxRequest = max_request,
      p_isHttps = is_https, p_conns = [], p_total = 0\<rparr>"

text \<open>\<open>Create\<close>: an unparsable URI is logged and then dereferenced.\<close>

definition HttpConnectionPool_Create ::
  "(string \<Rightarrow> uri option) \<Rightarrow> string \<Rightarrow> string \<Rightarrow> u32 \<Rightarrow> u32 \<Rightarrow> u32 \<Rightarrow> pool res" where
  "HttpConnectionPool_Create Uri_Create uri vhost max_size max_alive_time max_request =
     (case Uri_Create uri of
        None \<Rightarrow> Inl NullDeref
      | Some u \<Rightarrow> Inr (HttpConnectionPool_new (u_host u) vhost (word_of_int (uri_getPort u)) (u_scheme u = ''https'')
                       max_size max_alive_time max_request))"

definition conn_isConnected :: "conn \<Rightarrow> bool" where
  "conn_isConnected c = ss_isConnected (cn_stream c)"

text \<open>The loop of \<open>getConnection\<close>: the connection taken, what stays, how many are deleted.\<close>

fun take_conn :: "u32 \<Rightarrow> u64 \<Rightarrow> conn list \<Rightarrow> conn option \<times> conn list \<times> nat" where
  "take_conn max_alive now_ms [] = (None, [], 0)"
| "take_conn max_alive now_ms (c # cs) =
     (if \<not> conn_isConnected c \<or> cn_createTime c + ucast max_alive > now_ms
      then (case take_conn max_alive now_ms cs of (r, rest, k) \<Rightarrow> (r, rest, Suc k))
      else (Some c, cs, 0))"

text \<open>\<open>fresh\<close> is the stream of a new connection, \<open>None\<close> when lookup, creation or connect failed.\<close>

definition getConnection :: "u64 \<Rightarrow> char sstream option \<Rightarrow> pool \<Rightarrow> conn option \<times> pool" where
  "getConnection now_ms fresh p =
     (case take_conn (p_maxAliveTime p) now_ms (p_conns p) of
        (r, rest, k) \<Rightarrow>
          (let p1 = p\<lparr>p_conns := rest, p_total := p_total p - int k\<rparr>
           in case r of
                Some c \<Rightarrow> (Some c, p1)
              | None \<Rightarrow>
                  (case fresh of
                     None \<Rightarrow> (None, p1)
                   | Some ss \<Rightarrow> (Some (HttpConnection_new ss), p1\<lparr>p_total := p_total p1 + 1\<rparr>))))"

definition ReleasePtr :: "u64 \<Rightarrow> conn \<Rightarrow> pool \<Rightarrow> pool" where
  "ReleasePtr now_ms c p =
     (let c1 = c\<lparr>cn_request := cn_request c + 1\<rparr>
      in if \<not> conn_isConnected c1 \<or> cn_createTime c1 + ucast (p_maxAliveTime p) \<ge> now_ms
            \<or> cn_request c1 \<ge> ucast (p_maxRequest p)
         then p\<lparr>p_total := p_total p - 1\<rparr>
         else p\<lparr>p_conns := p_conns p @ [c1]\<rparr>)"

definition pool_build :: "HttpMethod \<Rightarrow> string \<Rightarrow> (string \<times> string) list \<Rightarrow> string \<Rightarrow> pool \<Rightarrow> HttpRequest" where
  "pool_build method url headers body p =
     (let req = (HttpRequest_new 0x11 True)\<lparr>rq_path := url, rq_method := method, rq_close := False\<rparr>
      in case header_loop headers (req, False) of
           (req1, has_host) \<Rightarrow>
             (if \<not> has_host then rq_setHeader ''Host'' (if p_vhost p = [] then p_host p else p_vhost p) req1
              else req1)\<lparr>rq_body := body\<rparr>)"

definition pool_url :: "uri \<Rightarrow> string" where
  "pool_url u =
     uri_getPath u @ (if u_query u = [] then [] else ''?'') @ u_query u
     @ (if u_fragment u = [] then [] else ''#'') @ u_fragment u"

text \<open>\<open>doRequest\<close>: take a connection, exchange, and give it back when the pointer dies.\<close>

definition pool_doRequest ::
  "('p, 'z) httpclient_machine_scheme \<Rightarrow> (string \<Rightarrow> u64 option) \<Rightarrow> nat \<Rightarrow> nat \<Rightarrow> u64 \<Rightarrow> u64 \<Rightarrow> char sstream option
    \<Rightarrow> string \<Rightarrow> string \<Rightarrow> nat \<Rightarrow> HttpRequest \<Rightarrow> pool \<Rightarrow> (HttpResult \<times> pool) res" where
  "pool_doRequest M cast max_size buff_size now_ms later fresh peer err timeout_ms req p =
     (case getConnection now_ms fresh p of
        (None, p1) \<Rightarrow>
          Inr (fail POOL_GET_CONNECTION (''pool host:'' @ p_host p @ '' port:'' @ show_nat (unat (p_port p))), p1)
      | (Some c, p1) \<Rightarrow>
          (if m_socket (cn_stream c) = None
           then Inr (fail POOL_INVALID_CONNECTION (''pool host:'' @ p_host p @ '' port:'' @ show_nat (unat (p_port p))),
                     ReleasePtr later c p1)
           else mapR (\<lambda>(r, ss). (r, ReleasePtr later (c\<lparr>cn_stream := ss\<rparr>) p1))
                  (exchange M cast max_size buff_size peer err timeout_ms req (cn_stream c))))"

end
