(* ===== verification/HttpClient_Props.thy ===== *)
theory HttpClient_Props
  imports HttpClient HttpSession_Quiet
begin

text \<open>
  What the client promises: the headers of a built request, the classification of every
  failure, and the accounts of the pool in every interleaving of its users.
\<close>

section \<open>Built requests\<close>

lemma strcasecmp_key: "CHR 0x00 \<notin> set t \<Longrightarrow> strcasecmp (c_str s) t = 0 \<longleftrightarrow> ci_key s = map lower t"
  using strcasecmp_zero [OF c_str_no_nul, of t s] by (simp add: ci_key_def)

lemma fixed_keys:
  "strcasecmp (c_str s) ''connection'' = 0 \<longleftrightarrow> ci_key s = ci_key ''connection''"
  "strcasecmp (c_str s) ''host'' = 0 \<longleftrightarrow> ci_key s = ci_key ''host''"
  "ci_key ''Host'' = ci_key ''host''" "ci_key ''host'' \<noteq> ci_key ''connection''"
proof -
  have id: "c_str t = t" if "CHR 0x00 \<notin> set t" for t by (rule c_str_id [OF that])
  show "strcasecmp (c_str s) ''connection'' = 0 \<longleftrightarrow> ci_key s = ci_key ''connection''"
    using strcasecmp_key [of "''connection''" s] id [of "''connection''"] by (simp add: ci_key_def [of "''connection''"])
  show "strcasecmp (c_str s) ''host'' = 0 \<longleftrightarrow> ci_key s = ci_key ''host''"
    using strcasecmp_key [of "''host''" s] id [of "''host''"] by (simp add: ci_key_def [of "''host''"])
  show "ci_key ''Host'' = ci_key ''host''" "ci_key ''host'' \<noteq> ci_key ''connection''" by code_simp+
qed

lemma rq_setHeader_find [simp]:
  "smap_find CaseInsensitiveLess key (rq_headers (rq_setHeader k v rq)) =
     (if ci_key k = ci_key key then Some v else smap_find CaseInsensitiveLess key (rq_headers rq))"
  by (simp add: rq_setHeader_def ci.smap_find_set ci_equiv)

lemma rq_setHeader_close [simp]: "rq_close (rq_setHeader k v rq) = rq_close rq"
  by (simp add: rq_setHeader_def)

text \<open>The header loop: which value a name ends up with, the flag, and the close flag.\<close>

definition given :: "string \<Rightarrow> (string \<times> string) list \<Rightarrow> string option" where
  "given key hs = map_option snd (find (\<lambda>i. ci_key (fst i) = ci_key key) hs)"

lemma given_Cons: "given key (i # is) = (if ci_key (fst i) = ci_key key then Some (snd i) else given key is)"
  by (simp add: given_def)

lemma given_none: "ci_key key \<notin> (ci_key \<circ> fst) ` set hs \<Longrightarrow> given key hs = None"
  by (induction hs) (auto simp: given_def)

lemma header_loop_find:
  assumes "distinct (map (ci_key \<circ> fst) hs)" and "ci_key key \<noteq> ci_key ''connection''"
  shows "smap_find CaseInsensitiveLess key (rq_headers (fst (header_loop hs (req, b)))) =
    (case given key hs of Some v \<Rightarrow> Some v | None \<Rightarrow> smap_find CaseInsensitiveLess key (rq_headers req))"
  using assms
proof (induction hs arbitrary: req b)
  case (Cons i hs)
  have "given key hs = None" if "ci_key (fst i) = ci_key key"
    using Cons.prems(1) that given_none [of key hs] by auto
  with Cons show ?case by (auto simp: fixed_keys given_Cons split: option.splits)
qed (simp add: given_def)

lemma header_loop_host:
  "snd (header_loop hs (req, b)) \<longleftrightarrow> b \<or> (\<exists>i \<in> set hs. ci_key (fst i) = ci_key ''host'' \<and> snd i \<noteq> [])"
  by (induction hs arbitrary: req b) (auto simp: fixed_keys)

lemma header_loop_close:
  "rq_close (fst (header_loop hs (req, b))) \<longleftrightarrow>
     rq_close req \<and> (\<forall>i \<in> set hs. ci_key (fst i) = ci_key ''connection'' \<longrightarrow> strcasecmp (c_str (snd i)) ''keep-alive'' \<noteq> 0)"
  by (induction hs arbitrary: req b) (auto simp: fixed_keys)

lemma given_host:
  "distinct (map (ci_key \<circ> fst) hs) \<Longrightarrow>
   (\<exists>i \<in> set hs. ci_key (fst i) = ci_key key \<and> snd i \<noteq> []) \<longleftrightarrow> (\<exists>v. given key hs = Some v \<and> v \<noteq> [])"
proof (induction hs)
  case (Cons i hs)
  have "given key hs = None" if "ci_key (fst i) = ci_key key"
    using Cons.prems that given_none [of key hs] by auto
  with Cons show ?case by (auto simp: given_Cons)
qed (simp add: given_def)

text \<open>The value of the host header, given or not.\<close>

definition host_or :: "string \<Rightarrow> (string \<times> string) list \<Rightarrow> string" where
  "host_or def hs = (case given ''host'' hs of Some v \<Rightarrow> if v \<noteq> [] then v else def | None \<Rightarrow> def)"

lemma build_headers:
  fixes host :: string
  assumes "distinct (map (ci_key \<circ> fst) hs)" and "header_loop hs (req, False) = (req1, h)" and "rq_headers req = []"
  defines "rq \<equiv> if \<not> h then rq_setHeader ''Host'' host req1 else req1"
  shows "smap_find CaseInsensitiveLess ''host'' (rq_headers rq) = Some (host_or host hs)"
    and "ci_key key \<noteq> ci_key ''host'' \<Longrightarrow> ci_key key \<noteq> ci_key ''connection'' \<Longrightarrow>
         smap_find CaseInsensitiveLess key (rq_headers rq) = given key hs"
    and "rq_close rq = rq_close req1"
proof -
  note f = header_loop_find [OF assms(1), of _ req False]
  have h: "h \<longleftrightarrow> (\<exists>v. given ''host'' hs = Some v \<and> v \<noteq> [])"
    using header_loop_host [of hs req False] given_host [OF assms(1), of "''host''"] assms(2) by simp
  show "smap_find CaseInsensitiveLess ''host'' (rq_headers rq) = Some (host_or host hs)"
    using f [of "''host''"] h assms(2,3) by (auto simp: rq_def host_or_def fixed_keys(3,4) split: option.splits)
  show "smap_find CaseInsensitiveLess key (rq_headers rq) = given key hs"
    if "ci_key key \<noteq> ci_key ''host''" "ci_key key \<noteq> ci_key ''connection''"
    using f [of key] that assms(2,3) by (auto simp: rq_def fixed_keys(3) split: option.splits)
  show "rq_close rq = rq_close req1" by (simp add: rq_def)
qed

text \<open>
  A built request says what the caller asked for: when no two given headers differ only
  in case, the Host header is the given one, or the URI's host (the pool: its virtual host,
  else its host) if none or an empty one is given; every other given header except Connection
  arrives with its value and no other header is added. A single request stays open only on a
  given keep-alive; a request of a pool is always keep-alive, whatever Connection says.
\<close>

theorem built_requests_carry_the_headers:
  assumes "distinct (map (ci_key \<circ> fst) hs)"
  shows "rq_getHeader ''Host'' def (DoRequest_build m u hs body) = host_or (u_host u) hs
    \<and> rq_getHeader ''Host'' def (pool_build m url hs body p) = host_or (if p_vhost p = [] then p_host p else p_vhost p) hs
    \<and> (\<forall>key. ci_key key \<noteq> ci_key ''host'' \<and> ci_key key \<noteq> ci_key ''connection'' \<longrightarrow>
        rq_hasHeader key (DoRequest_build m u hs body) = (given key hs \<noteq> None, given key hs)
        \<and> rq_hasHeader key (pool_build m url hs body p) = (given key hs \<noteq> None, given key hs))
    \<and> (rq_close (DoRequest_build m u hs body) \<longleftrightarrow>
        (\<forall>i \<in> set hs. ci_key (fst i) = ci_key ''connection'' \<longrightarrow> strcasecmp (c_str (snd i)) ''keep-alive'' \<noteq> 0))
    \<and> \<not> rq_close (pool_build m url hs body p)"
proof -
  define r1 where "r1 = (HttpRequest_new 0x11 True)\<lparr>rq_path := uri_getPath u, rq_query := u_query u,
                   rq_fragment := u_fragment u, rq_method := m\<rparr>"
  define r2 where "r2 = (HttpRequest_new 0x11 True)\<lparr>rq_path := url, rq_method := m, rq_close := False\<rparr>"
  obtain q1 b1 where l1: "header_loop hs (r1, False) = (q1, b1)" by (metis prod.exhaust)
  obtain q2 b2 where l2: "header_loop hs (r2, False) = (q2, b2)" by (metis prod.exhaust)
  have e: "rq_headers r1 = []" "rq_headers r2 = []" "rq_close r1" "\<not> rq_close r2"
    by (simp_all add: r1_def r2_def HttpRequest_new_def)
  have Host: "smap_find CaseInsensitiveLess ''Host'' = (smap_find CaseInsensitiveLess ''host'' :: MapType \<Rightarrow> _)"
    using ci.smap_find_equiv [of "''Host''" "''host''"] fixed_keys(3) by (auto simp: ci_equiv)
  note B1 = build_headers [OF assms l1 e(1)] and B2 = build_headers [OF assms l2 e(2)]
  have d1: "DoRequest_build m u hs body = (if \<not> b1 then rq_setHeader ''Host'' (u_host u) q1 else q1)\<lparr>rq_body := body\<rparr>"
    using l1 by (simp add: DoRequest_build_def r1_def Let_def)
  have d2: "pool_build m url hs body p =
      (if \<not> b2 then rq_setHeader ''Host'' (if p_vhost p = [] then p_host p else p_vhost p) q2 else q2)\<lparr>rq_body := body\<rparr>"
    using l2 by (simp add: pool_build_def r2_def Let_def)
  have c: "rq_close q1 \<longleftrightarrow> (\<forall>i \<in> set hs. ci_key (fst i) = ci_key ''connection'' \<longrightarrow> strcasecmp (c_str (snd i)) ''keep-alive'' \<noteq> 0)"
    "\<not> rq_close q2"
    using header_loop_close [of hs r1 False] header_loop_close [of hs r2 False] l1 l2 e(3,4) by simp_all
  show ?thesis
    unfolding d1 d2 using B1 B2 c
    by (simp add: rq_getHeader_def rq_hasHeader_def Host Let_def)
qed

lemma built_requests_carry_the_headers_witness:
  "rq_getHeader ''Host'' [] (DoRequest_build GET \<lparr>u_scheme = ''http'', u_userinfo = [], u_host = ''h'', u_path = [],
       u_query = [], u_fragment = [], u_port = 0\<rparr> [(''HOST'', []), (''X'', ''1'')] []) = ''h''"
proof -
  have "distinct (map (ci_key \<circ> fst) [(''HOST'', []), (''X'', ''1'')])" "host_or ''h'' [(''HOST'', []), (''X'', ''1'')] = ''h''"
    by code_simp+
  with built_requests_carry_the_headers [of "[(''HOST'', []), (''X'', ''1'')]" "[]" GET
      "\<lparr>u_scheme = ''http'', u_userinfo = [], u_host = ''h'', u_path = [], u_query = [], u_fragment = [], u_port = 0\<rparr>" "[]"]
  show ?thesis by simp
qed

section \<open>Failures\<close>

lemma sendRequest_ok:
  assumes "sendRequest rq ss = Inr (rt, ss')" and "length (rq_dump rq) < 2 ^ 31"
  shows "\<exists>off. sent ss' = sent ss @ take off (rq_dump rq) \<and> (rt > 0 \<longrightarrow> off = length (rq_dump rq))
    \<and> m_owner ss' = m_owner ss \<and> (m_socket ss' = None \<longleftrightarrow> m_socket ss = None)"
proof -
  obtain off where w: "writeFixSize (rq_dump rq) ss = Inr (rt, off, ss')"
    using assms(1) by (auto simp: sendRequest_def mapR_eq_Inr)
  have "sent ss' = sent ss @ take off (rq_dump rq)" "rt > 0 \<Longrightarrow> off = length (rq_dump rq)"
    using w writeFixSize_prefix [OF assms(2), of ss] by auto
  with writeFixSize_owner [OF w] show ?thesis by (intro exI [of _ off] conjI) simp_all
qed

lemma exchange_ok:
  assumes "exchange M cast mx n peer err t rq ss = Inr (r, ss')" and "length (rq_dump rq) < 2 ^ 31"
  shows "hr_result r \<in> {0, 4, 5, 6} \<and> (hr_response r = None \<longleftrightarrow> hr_result r \<noteq> 0)
    \<and> (\<exists>off. sent ss' = sent ss @ take off (rq_dump rq) \<and> (hr_result r \<in> {0, 6} \<longrightarrow> off = length (rq_dump rq)))
    \<and> m_owner ss' = m_owner ss \<and> (m_socket ss' = None \<longleftrightarrow> m_socket ss = None)"
proof -
  obtain rt ss1 where sr: "sendRequest rq ss = Inr (rt, ss1)"
    using assms(1) by (cases "sendRequest rq ss") (auto simp only: exchange_def bindR_Inl sum.distinct)
  from sendRequest_ok [OF this assms(2)] obtain off where off: "sent ss1 = sent ss @ take off (rq_dump rq)"
    "rt > 0 \<longrightarrow> off = length (rq_dump rq)" "m_owner ss1 = m_owner ss" "m_socket ss1 = None \<longleftrightarrow> m_socket ss = None"
    by (elim conjE exE)
  show ?thesis
  proof (cases "rt > 0")
    case True
    define result where "result = (\<lambda>rsp. case rsp of
        None \<Rightarrow> fail TIMEOUT (''recv response timeout: '' @ peer @ '' timeout_ms:'' @ show_nat t)
      | Some rs \<Rightarrow> \<lparr>hr_result = error_code E_OK, hr_response = Some rs, hr_error = ''ok''\<rparr>)"
    have "mapR (\<lambda>(rsp, ss2). (result rsp, ss2)) (recvResponse M cast mx n ss1) = Inr (r, ss')"
      using assms(1) sr True by (simp add: exchange_def result_def)
    then obtain rsp where rr: "recvResponse M cast mx n ss1 = Inr (rsp, ss')" and r: "r = result rsp"
      by (auto simp: mapR_eq_Inr)
    have "quiet ss1 ss'" using quiet.recvResponse_keeps [OF rr, of ss1] by (simp add: quiet_def)
    moreover have "hr_result r = (if rsp = None then 6 else 0)" "hr_response r = rsp"
      by (cases rsp; simp add: r result_def fail_def)+
    ultimately show ?thesis using off True by (auto simp: quiet_def)
  next
    case False
    then have "ss' = ss1" "hr_response r = None" "hr_result r = 4 \<or> hr_result r = 5"
      using assms(1) sr by (cases "rt = 0"; auto simp: exchange_def fail_def)+
    with off show ?thesis by auto
  qed
qed

lemma destroy_closes:
  "m_owner ss \<Longrightarrow> \<not> ss_isConnected (SocketStream_destroy ss) \<and> sent (SocketStream_destroy ss) = sent ss"
  by (auto simp: SocketStream_destroy_def ss_isConnected_def ss_close_def Socket_close_def sent_def split: option.splits)

text \<open>
  C22. DoRequest reports the first thing that failed: code 2 exactly without an address, 7
  without a socket, 3 without a connection, and otherwise 0, 4, 5 or 6; there is a response
  exactly with code 0. Codes 0 and 6 are given only after the whole text of the request went
  out, the others after a part of it at most, and nothing else is sent. The connection it
  made is closed when it returns, whatever happened.
\<close>

theorem DoRequest_reports_first_failure:
  assumes "DoRequest_exchange M cast mx n addr sk connected err t rq u = Inr (r, sk')"
    and "length (rq_dump rq) < 2 ^ 31" and "\<forall>ss. sk = Some ss \<longrightarrow> m_owner ss"
  shows "(hr_result r = 2 \<longleftrightarrow> addr = None)
    \<and> (hr_result r = 7 \<longleftrightarrow> addr \<noteq> None \<and> sk = None)
    \<and> (hr_result r = 3 \<longleftrightarrow> addr \<noteq> None \<and> sk \<noteq> None \<and> \<not> connected)
    \<and> hr_result r \<in> {0, 2, 3, 4, 5, 6, 7} \<and> (hr_response r = None \<longleftrightarrow> hr_result r \<noteq> 0)
    \<and> (hr_result r \<in> {0, 4, 5, 6} \<longrightarrow> (\<exists>ss ss' off. sk = Some ss \<and> sk' = Some ss' \<and> \<not> ss_isConnected ss'
         \<and> sent ss' = sent ss @ take off (rq_dump rq) \<and> (hr_result r \<in> {0, 6} \<longrightarrow> off = length (rq_dump rq))))"
proof (cases "addr \<noteq> None \<and> sk \<noteq> None \<and> connected")
  case True
  then obtain a ss where a: "addr = Some a" "sk = Some ss" by auto
  with assms(1) True obtain ss1 where ex: "exchange M cast mx n a err t rq ss = Inr (r, ss1)"
    and sk': "sk' = Some (SocketStream_destroy ss1)"
    by (auto simp: DoRequest_exchange_def mapR_eq_Inr)
  from exchange_ok [OF ex assms(2)] obtain off where "hr_result r \<in> {0, 4, 5, 6}" "hr_response r = None \<longleftrightarrow> hr_result r \<noteq> 0"
    "sent ss1 = sent ss @ take off (rq_dump rq)" "hr_result r \<in> {0, 6} \<longrightarrow> off = length (rq_dump rq)" "m_owner ss1 = m_owner ss"
    by (elim conjE exE)
  with a sk' destroy_closes [of ss1] assms(3) True show ?thesis by auto
next
  case False
  with assms(1) show ?thesis
    by (auto simp: DoRequest_exchange_def fail_def split: option.splits if_splits)
qed

lemma DoRequest_reports_first_failure_witness:
  "\<exists>r sk'. DoRequest_exchange (chunk_machine False) dec_cast 100 16 (Some ''a'') (Some (demo_stream chunk_input)) True [] 5
      (HttpRequest_new 0x11 True) \<lparr>u_scheme = ''http'', u_userinfo = [], u_host = ''h'', u_path = [], u_query = [],
        u_fragment = [], u_port = 0\<rparr> = Inr (r, sk') \<and> hr_result r = 0 \<and> (hr_response r = None \<longleftrightarrow> hr_result r \<noteq> 0)"
proof -
  let ?u = "\<lparr>u_scheme = ''http'', u_userinfo = [], u_host = ''h'', u_path = [], u_query = [], u_fragment = [], u_port = 0\<rparr>"
  let ?run = "DoRequest_exchange (chunk_machine False) dec_cast 100 16 (Some ''a'') (Some (demo_stream chunk_input)) True [] 5
      (HttpRequest_new 0x11 True) ?u"
  have "(case ?run of Inr (r, sk') \<Rightarrow> hr_result r = 0 | _ \<Rightarrow> False)" by code_simp
  then obtain r sk' where r: "?run = Inr (r, sk')" "hr_result r = 0" by (auto split: sum.splits prod.splits)
  have "length (rq_dump (HttpRequest_new 0x11 True)) < 100" "m_owner (demo_stream chunk_input)" by code_simp+
  moreover from this(1) have "length (rq_dump (HttpRequest_new 0x11 True)) < 2 ^ 31" by (rule less_trans) simp
  ultimately show ?thesis using DoRequest_reports_first_failure [OF r(1)] r by auto
qed

section \<open>The pool\<close>

text \<open>
  Every use of a pool: connections are taken, used (their stream becomes any other) and given
  back, in any order and at any times; the second component is the connections out.
\<close>

inductive pool_run :: "pool \<Rightarrow> pool \<times> conn list \<Rightarrow> bool" for p0 where
  start: "p_conns p0 = [] \<Longrightarrow> p_total p0 = 0 \<Longrightarrow> pool_run p0 (p0, [])"
| take: "pool_run p0 (p, out) \<Longrightarrow> getConnection now_ms fresh p = (r, p') \<Longrightarrow>
    pool_run p0 (p', case r of None \<Rightarrow> out | Some c \<Rightarrow> out @ [c])"
| used: "pool_run p0 (p, xs @ c # ys) \<Longrightarrow> pool_run p0 (p, xs @ c\<lparr>cn_stream := ss\<rparr> # ys)"
| give: "pool_run p0 (p, xs @ c # ys) \<Longrightarrow> pool_run p0 (ReleasePtr now_ms c p, xs @ ys)"

text \<open>Kept connections: live, never stamped with a creation time, and below the request limit.\<close>

definition kept :: "pool \<Rightarrow> conn \<Rightarrow> bool" where
  "kept p c \<longleftrightarrow> conn_isConnected c \<and> cn_createTime c = 0 \<and> cn_request c < ucast (p_maxRequest p)"

definition pool_settings :: "pool \<Rightarrow> string \<times> string \<times> u32 \<times> u32 \<times> u32 \<times> u32 \<times> bool" where
  "pool_settings p = (p_host p, p_vhost p, p_port p, p_maxSize p, p_maxAliveTime p, p_maxRequest p, p_isHttps p)"

lemma take_conn_ok:
  "take_conn ma now_ms cs = (r, rest, k) \<Longrightarrow>
   (\<exists>bad. cs = bad @ (case r of None \<Rightarrow> [] | Some c \<Rightarrow> [c]) @ rest \<and> length bad = k) \<and> (r = None \<longrightarrow> rest = [])"
proof (induction ma now_ms cs arbitrary: k rule: take_conn.induct)
  case (2 ma now_ms c cs)
  then show ?case by (fastforce split: if_splits prod.splits intro: exI [of _ "c # _"])
qed simp

lemma getConnection_ok:
  assumes "getConnection now_ms fresh p = (r, p')" and "\<forall>c \<in> set (p_conns p). kept p c"
  shows "pool_settings p' = pool_settings p" and "\<forall>c \<in> set (p_conns p'). kept p c" and "\<forall>c. r = Some c \<longrightarrow> cn_createTime c = 0"
    and "p_total p' - int (length (p_conns p')) = p_total p - int (length (p_conns p)) + (if r = None then 0 else 1)"
proof -
  obtain t rest k where t: "take_conn (p_maxAliveTime p) now_ms (p_conns p) = (t, rest, k)" by (metis prod.exhaust)
  from take_conn_ok [OF t] obtain bad where bad: "p_conns p = bad @ (case t of None \<Rightarrow> [] | Some c \<Rightarrow> [c]) @ rest"
    "length bad = k" "t = None \<longrightarrow> rest = []" by blast
  show "pool_settings p' = pool_settings p" "\<forall>c \<in> set (p_conns p'). kept p c" "\<forall>c. r = Some c \<longrightarrow> cn_createTime c = 0"
    "p_total p' - int (length (p_conns p')) = p_total p - int (length (p_conns p)) + (if r = None then 0 else 1)"
    using assms t bad by (auto simp: getConnection_def Let_def pool_settings_def kept_def HttpConnection_new_def split: option.splits)
qed

lemma kept_settings: "pool_settings p' = pool_settings p \<Longrightarrow> kept p' = kept p"
  by (simp add: pool_settings_def kept_def fun_eq_iff)

lemma ReleasePtr_ok:
  assumes "cn_createTime c = 0" and "\<forall>c \<in> set (p_conns p). kept p c"
  shows "pool_settings (ReleasePtr now_ms c p) = pool_settings p" and "\<forall>c \<in> set (p_conns (ReleasePtr now_ms c p)). kept p c"
    and "p_total (ReleasePtr now_ms c p) - int (length (p_conns (ReleasePtr now_ms c p))) = p_total p - int (length (p_conns p)) - 1"
  using assms by (auto simp: ReleasePtr_def Let_def pool_settings_def kept_def)

lemma pool_run_inv:
  assumes "pool_run p0 st"
  shows "case st of (p, out) \<Rightarrow> pool_settings p = pool_settings p0 \<and> (\<forall>c \<in> set (p_conns p). kept p c)
    \<and> (\<forall>c \<in> set out. cn_createTime c = 0) \<and> p_total p = int (length (p_conns p) + length out)"
  using assms
proof induction
  case start
  then show ?case by simp
next
  case (take p out now_ms fresh r p')
  then have "\<forall>c \<in> set (p_conns p). kept p c" by simp
  note g = getConnection_ok [OF take.hyps(2) this]
  from g take.IH kept_settings [OF g(1)] show ?case by (auto split: option.splits)
next
  case (used p xs c ys ss)
  then show ?case by simp
next
  case (give p xs c ys now_ms)
  then have "\<forall>c \<in> set (p_conns p). kept p c" "cn_createTime c = 0" by simp_all
  note g = ReleasePtr_ok [OF this(2,1), of now_ms]
  from g give.IH kept_settings [OF g(1)] show ?case by auto
qed

text \<open>
  C23. The pool's books balance in every use of it: its total is the idle connections plus the
  ones out, its settings never change, and every idle connection is live and has served fewer
  requests than the limit. No connection ever has a creation time, so once the clock is past
  the alive time the oldest idle connection is always reused, whatever its age, and before
  that every idle connection is thrown away.
\<close>

theorem pool_accounts_for_connections:
  assumes "pool_run p0 (p, out)"
  shows "p_total p = int (length (p_conns p) + length out) \<and> pool_settings p = pool_settings p0
    \<and> (\<forall>c \<in> set (p_conns p). conn_isConnected c \<and> cn_request c < ucast (p_maxRequest p))
    \<and> (ucast (p_maxAliveTime p) \<le> now_ms \<longrightarrow> p_conns p \<noteq> [] \<longrightarrow>
        getConnection now_ms fresh p = (Some (hd (p_conns p)), p\<lparr>p_conns := tl (p_conns p)\<rparr>))
    \<and> (now_ms < ucast (p_maxAliveTime p) \<longrightarrow>
        p_conns (snd (getConnection now_ms fresh p)) = [] \<and> fst (getConnection now_ms fresh p) = map_option HttpConnection_new fresh)"
proof -
  note inv = pool_run_inv [OF assms, simplified]
  have drop_all: "take_conn ma now_ms cs = (None, [], length cs)"
    if "\<forall>c \<in> set cs. cn_createTime c = 0" "now_ms < ucast ma" for ma cs
    using that by (induction cs) auto
  have "now_ms < ucast (p_maxAliveTime p) \<Longrightarrow> take_conn (p_maxAliveTime p) now_ms (p_conns p) = (None, [], length (p_conns p))"
    using inv by (intro drop_all) (auto simp: kept_def)
  then show ?thesis
    using inv by (cases "p_conns p") (auto simp: kept_def getConnection_def Let_def not_le split: option.splits)
qed

lemma pool_accounts_for_connections_witness:
  "\<exists>p. pool_run (HttpConnectionPool_new ''h'' [] 0 False 10 1000 5) (p, []) \<and> p_total p = 1
     \<and> fst (getConnection 2000 None p) \<noteq> None"
proof -
  let ?p0 = "HttpConnectionPool_new ''h'' [] 0 False 10 1000 5"
  let ?c = "HttpConnection_new (demo_stream [])"
  define p1 where "p1 = ?p0\<lparr>p_total := 1\<rparr>"
  define p2 where "p2 = ReleasePtr 1500 ?c p1"
  have "pool_run ?p0 (?p0, [])" by (rule pool_run.start) (simp_all add: HttpConnectionPool_new_def)
  from pool_run.take [OF this, of 1500 "Some (demo_stream [])" "Some ?c" p1]
  have "pool_run ?p0 (p1, [?c])" by (simp add: p1_def getConnection_def HttpConnectionPool_new_def)
  with pool_run.give [of ?p0 p1 "[]" ?c "[]" 1500] have r: "pool_run ?p0 (p2, [])" by (simp add: p2_def)
  have p2: "p_conns p2 = [?c\<lparr>cn_request := 1\<rparr>]" "p_maxAliveTime p2 = 1000"
    unfolding p2_def p1_def by code_simp+
  from pool_accounts_for_connections [OF r, of 2000 None] p2 r show ?thesis by auto
qed

end
