(* ===== verification/Address.thy ===== *)
theory Address
  imports Endian Strings StdContainers
begin

text \<open>
  Network addresses (address.h, address.cpp): the socket address structures with their fields
  as stored, host order and memory image apart, the text of an address, prefix masks, the
  order of addresses, and the parts of \<open>Lookup\<close> around the resolver. The resolver, \<open>inet_pton\<close>
  and the interface list are parameters or inputs. Constants are those of Linux.
\<close>

section \<open>Structures\<close>

definition AF_UNSPEC :: u16 where "AF_UNSPEC = 0"
definition AF_UNIX :: u16 where "AF_UNIX = 1"
definition AF_INET :: u16 where "AF_INET = 2"
definition AF_INET6 :: u16 where "AF_INET6 = 10"

text \<open>\<open>sockaddr_in\<close>, \<open>sockaddr_in6\<close>, \<open>sockaddr_un\<close> and \<open>sockaddr\<close>; the arrays have 8, 16, 108 and 14 bytes.\<close>

record sockaddr_in =
  sin_family :: u16
  sin_port :: u16
  sin_addr :: u32
  sin_zero :: "u8 list"

record sockaddr_in6 =
  sin6_family :: u16
  sin6_port :: u16
  sin6_flowinfo :: u32
  sin6_addr :: "u8 list"
  sin6_scope_id :: u32

record sockaddr_un =
  sun_family :: u16
  sun_path :: string

record sockaddr =
  sa_family :: u16
  sa_data :: "u8 list"

datatype address =
    IPv4Address sockaddr_in
  | IPv6Address sockaddr_in6
  | UnixAddress sockaddr_un u32
  | UnknownAddress sockaddr

text \<open>What a \<open>sockaddr*\<close> from the system points to, told apart by its family.\<close>

datatype raw_addr = Raw_in sockaddr_in | Raw_in6 sockaddr_in6 | Raw_other sockaddr

fun raw_family :: "raw_addr \<Rightarrow> u16" where
  "raw_family (Raw_in a) = AF_INET"
| "raw_family (Raw_in6 a) = AF_INET6"
| "raw_family (Raw_other a) = sa_family a"

fun Address_Create :: "raw_addr option \<Rightarrow> address option" where
  "Address_Create None = None"
| "Address_Create (Some (Raw_in a)) = Some (IPv4Address a)"
| "Address_Create (Some (Raw_in6 a)) = Some (IPv6Address a)"
| "Address_Create (Some (Raw_other a)) = Some (UnknownAddress a)"

section \<open>Masks\<close>

text \<open>
  \<open>CreateMask<uint32_t>\<close>: the shift is of an \<open>int\<close>, so a prefix of 0 shifts by its width, one
  above 32 by a wrapped count, and a prefix of 1 leaves the range of \<open>int\<close> in the subtraction.
  For \<open>uint8_t\<close> the shift stays within \<open>int\<close>.
\<close>

definition CreateMask_32 :: "u32 \<Rightarrow> u32 res" where
  "CreateMask_32 bits =
     (if bits \<le> 1 \<or> bits > 32 then Inl UndefinedArith else Inr (push_bit (32 - unat bits) 1 - 1))"

definition CreateMask_8 :: "nat \<Rightarrow> u8" where
  "CreateMask_8 bits = word_of_int (push_bit (8 - bits) 1 - 1)"

text \<open>\<open>CountBytes\<close> clears the lowest set bit until none is left.\<close>

lemma clear_lowest_less: "v \<noteq> 0 \<Longrightarrow> unat (and v (v - 1)) < unat (v :: 'a::len word)"
proof -
  assume "v \<noteq> 0"
  then have "v - 1 < v" by (simp add: word_less_1 measure_unat word_less_nat_alt)
  moreover have "and v (v - 1) \<le> v - 1" by (simp add: word_and_le1)
  ultimately show ?thesis by (simp add: word_less_nat_alt word_le_nat_alt)
qed

function CountBytes :: "'a::len word \<Rightarrow> u32" where
  "CountBytes v = (if v = 0 then 0 else 1 + CountBytes (and v (v - 1)))"
  by pat_completeness auto
termination
  by (relation "measure unat") (auto simp: clear_lowest_less)

declare CountBytes.simps [simp del]

section \<open>IPv4\<close>

definition IPv4Address_new :: "byte_order \<Rightarrow> u32 \<Rightarrow> u16 \<Rightarrow> sockaddr_in" where
  "IPv4Address_new host address port =
     \<lparr>sin_family = AF_INET, sin_port = byteswapOnLittleEndian_16 host port,
      sin_addr = byteswapOnLittleEndian_32 host address, sin_zero = replicate 8 0\<rparr>"

text \<open>\<open>inet_pton\<close> gives the address in network order, or fails.\<close>

definition IPv4Address_Create :: "byte_order \<Rightarrow> (string \<Rightarrow> u32 option) \<Rightarrow> string \<Rightarrow> u16 \<Rightarrow> sockaddr_in option" where
  "IPv4Address_Create host inet_pton address port =
     map_option (\<lambda>a. (IPv4Address_new host 0 0)\<lparr>sin_port := byteswapOnLittleEndian_16 host port, sin_addr := a\<rparr>)
       (inet_pton (c_str address))"

definition octet :: "nat \<Rightarrow> u32 \<Rightarrow> nat" where
  "octet sh a = unat (and (drop_bit sh a) 0xff)"

definition v4_insert :: "byte_order \<Rightarrow> sockaddr_in \<Rightarrow> string" where
  "v4_insert host m_addr =
     (let a = byteswapOnLittleEndian_32 host (sin_addr m_addr)
      in show_nat (octet 24 a) @ ''.'' @ show_nat (octet 16 a) @ ''.'' @ show_nat (octet 8 a) @ ''.'' @ show_nat (octet 0 a)
         @ '':'' @ show_nat (unat (byteswapOnLittleEndian_16 host (sin_port m_addr))))"

definition v4_broadcastAddress :: "byte_order \<Rightarrow> u32 \<Rightarrow> sockaddr_in \<Rightarrow> sockaddr_in option res" where
  "v4_broadcastAddress host prefix_len m_addr =
     (if prefix_len > 32 then Inr None
      else mapR (\<lambda>m. Some (m_addr\<lparr>sin_addr := or (sin_addr m_addr) (byteswapOnLittleEndian_32 host m)\<rparr>)) (CreateMask_32 prefix_len))"

definition v4_networkAddress :: "byte_order \<Rightarrow> u32 \<Rightarrow> sockaddr_in \<Rightarrow> sockaddr_in option res" where
  "v4_networkAddress host prefix_len m_addr =
     (if prefix_len > 32 then Inr None
      else mapR (\<lambda>m. Some (m_addr\<lparr>sin_addr := and (sin_addr m_addr) (byteswapOnLittleEndian_32 host m)\<rparr>)) (CreateMask_32 prefix_len))"

definition v4_subnetMask :: "byte_order \<Rightarrow> u32 \<Rightarrow> sockaddr_in res" where
  "v4_subnetMask host prefix_len =
     mapR (\<lambda>m. \<lparr>sin_family = AF_INET, sin_port = 0, sin_addr = not (byteswapOnLittleEndian_32 host m), sin_zero = replicate 8 0\<rparr>)
       (CreateMask_32 prefix_len)"

definition v4_getPort :: "byte_order \<Rightarrow> sockaddr_in \<Rightarrow> u32" where
  "v4_getPort host m_addr = ucast (byteswapOnLittleEndian_16 host (sin_port m_addr))"

definition v4_setPort :: "byte_order \<Rightarrow> u16 \<Rightarrow> sockaddr_in \<Rightarrow> sockaddr_in" where
  "v4_setPort host v m_addr = m_addr\<lparr>sin_port := byteswapOnLittleEndian_16 host v\<rparr>"

section \<open>IPv6\<close>

definition IPv6Address_default :: sockaddr_in6 where
  "IPv6Address_default =
     \<lparr>sin6_family = AF_INET6, sin6_port = 0, sin6_flowinfo = 0, sin6_addr = replicate 16 0, sin6_scope_id = 0\<rparr>"

definition IPv6Address_new :: "byte_order \<Rightarrow> u8 list \<Rightarrow> u16 \<Rightarrow> sockaddr_in6" where
  "IPv6Address_new host address port =
     IPv6Address_default\<lparr>sin6_port := byteswapOnLittleEndian_16 host port, sin6_addr := take 16 address\<rparr>"

definition IPv6Address_Create :: "byte_order \<Rightarrow> (string \<Rightarrow> u8 list option) \<Rightarrow> string \<Rightarrow> u16 \<Rightarrow> sockaddr_in6 option" where
  "IPv6Address_Create host inet_pton address port =
     map_option (\<lambda>a. IPv6Address_default\<lparr>sin6_port := byteswapOnLittleEndian_16 host port, sin6_addr := a\<rparr>)
       (inet_pton (c_str address))"

text \<open>The sixteen bytes read as eight words of the host, \<open>(uint16_t* )s6_addr\<close>.\<close>

fun words_of :: "byte_order \<Rightarrow> u8 list \<Rightarrow> u16 list" where
  "words_of host (a # b # bs) = mem_word host [a, b] # words_of host bs"
| "words_of host bs = []"

text \<open>
  The loop that prints the words, from the one before (\<open>None\<close> at the start) and whether a run
  of zeros has been abbreviated; the text and the flag at the end.
\<close>

fun v6_loop :: "byte_order \<Rightarrow> u16 option \<Rightarrow> bool \<Rightarrow> u16 list \<Rightarrow> string \<times> bool" where
  "v6_loop host prev used_zeros [] = ([], used_zeros)"
| "v6_loop host prev used_zeros (a # as) =
     (if a = 0 \<and> \<not> used_zeros then v6_loop host (Some a) used_zeros as
      else let abbreviate = (prev = Some 0 \<and> \<not> used_zeros)
           in case v6_loop host (Some a) (used_zeros \<or> abbreviate) as of
                (text, used) \<Rightarrow>
                  ((if abbreviate then '':'' else []) @ (if prev \<noteq> None then '':'' else [])
                   @ show_hex (unat (byteswapOnLittleEndian_16 host a)) @ text, used))"

definition v6_insert :: "byte_order \<Rightarrow> sockaddr_in6 \<Rightarrow> string" where
  "v6_insert host m_addr =
     (let ws = words_of host (sin6_addr m_addr)
      in case v6_loop host None False ws of
           (text, used_zeros) \<Rightarrow>
             ''['' @ text @ (if \<not> used_zeros \<and> ws ! 7 = 0 then ''::'' else [])
             @ '']:'' @ show_nat (unat (byteswapOnLittleEndian_16 host (sin6_port m_addr))))"

text \<open>Byte \<open>prefix_len / 8\<close> and the bytes after it; there is none when the prefix is 128 or more.\<close>

definition v6_broadcastAddress :: "nat \<Rightarrow> sockaddr_in6 \<Rightarrow> sockaddr_in6 res" where
  "v6_broadcastAddress prefix_len m_addr =
     (let bs = sin6_addr m_addr; i = prefix_len div 8 in
      if i \<ge> length bs then Inl BadAccess
      else Inr (m_addr\<lparr>sin6_addr := take i bs @ [or (bs ! i) (CreateMask_8 (prefix_len mod 8))]
                          @ replicate (16 - (i + 1)) 0xff\<rparr>))"

definition v6_networkAddress :: "nat \<Rightarrow> sockaddr_in6 \<Rightarrow> sockaddr_in6 res" where
  "v6_networkAddress prefix_len m_addr =
     (let bs = sin6_addr m_addr; i = prefix_len div 8 in
      if i \<ge> length bs then Inl BadAccess
      else Inr (m_addr\<lparr>sin6_addr := take i bs @ [and (bs ! i) (CreateMask_8 (prefix_len mod 8))]
                          @ replicate (16 - (i + 1)) 0x00\<rparr>))"

definition v6_subnetMask :: "nat \<Rightarrow> sockaddr_in6 res" where
  "v6_subnetMask prefix_len =
     (let i = prefix_len div 8 in
      if i \<ge> 16 then Inl BadAccess
      else Inr (IPv6Address_default\<lparr>sin6_addr := replicate i 0xff @ [not (CreateMask_8 (prefix_len mod 8))]
                          @ replicate (16 - (i + 1)) 0x00\<rparr>))"

definition v6_getPort :: "byte_order \<Rightarrow> sockaddr_in6 \<Rightarrow> u32" where
  "v6_getPort host m_addr = ucast (byteswapOnLittleEndian_16 host (sin6_port m_addr))"

definition v6_setPort :: "byte_order \<Rightarrow> u16 \<Rightarrow> sockaddr_in6 \<Rightarrow> sockaddr_in6" where
  "v6_setPort host v m_addr = m_addr\<lparr>sin6_port := byteswapOnLittleEndian_16 host v\<rparr>"

section \<open>Unix and unknown addresses\<close>

definition MAX_PATH_LEN :: nat where "MAX_PATH_LEN = 108 - 1"
definition sun_path_offset :: nat where "sun_path_offset = 2"

definition UnixAddress_default :: address where
  "UnixAddress_default =
     UnixAddress \<lparr>sun_family = AF_UNIX, sun_path = replicate 108 (CHR 0x00)\<rparr> (of_nat (sun_path_offset + MAX_PATH_LEN))"

text \<open>The length is counted in 32 bits; \<open>memcpy\<close> copies the path with its NUL, or without it for an abstract name.\<close>

definition UnixAddress_new :: "string \<Rightarrow> address res" where
  "UnixAddress_new path =
     (let len = (of_nat (length path + 1) :: u32);
          m_length = (if path \<noteq> [] \<and> hd path = CHR 0x00 then len - 1 else len)
      in if m_length > 108 then Inl LogicError
         else let copied = take (unat m_length) (path @ [CHR 0x00])
              in Inr (UnixAddress \<lparr>sun_family = AF_UNIX, sun_path = copied @ replicate (108 - length copied) (CHR 0x00)\<rparr>
                        (m_length + of_nat sun_path_offset)))"

definition unix_text :: "sockaddr_un \<Rightarrow> u32 \<Rightarrow> string res" where
  "unix_text m_addr m_length =
     (if unat m_length > sun_path_offset \<and> sun_path m_addr ! 0 = CHR 0x00
      then (if unat m_length - sun_path_offset - 1 > length (sun_path m_addr) - 1 then Inl BadAccess
            else Inr (CHR 0x5C # CHR 0x30 # take (unat m_length - sun_path_offset - 1) (drop 1 (sun_path m_addr))))
      else if CHR 0x00 \<in> set (sun_path m_addr) then Inr (c_str (sun_path m_addr)) else Inl BadAccess)"

fun setAddrLen :: "u32 \<Rightarrow> address \<Rightarrow> address" where
  "setAddrLen v (UnixAddress a m_length) = UnixAddress a v"
| "setAddrLen v a = a"

definition UnknownAddress_new :: "u16 \<Rightarrow> sockaddr" where
  "UnknownAddress_new family = \<lparr>sa_family = family, sa_data = replicate 14 0\<rparr>"

section \<open>Address\<close>

fun getFamily :: "address \<Rightarrow> u16" where
  "getFamily (IPv4Address a) = sin_family a"
| "getFamily (IPv6Address a) = sin6_family a"
| "getFamily (UnixAddress a m_length) = sun_family a"
| "getFamily (UnknownAddress a) = sa_family a"

fun getAddrLen :: "address \<Rightarrow> u32" where
  "getAddrLen (IPv4Address a) = 16"
| "getAddrLen (IPv6Address a) = 28"
| "getAddrLen (UnixAddress a m_length) = m_length"
| "getAddrLen (UnknownAddress a) = 16"

text \<open>The memory \<open>getAddr\<close> points to.\<close>

fun getAddr :: "byte_order \<Rightarrow> address \<Rightarrow> u8 list" where
  "getAddr host (IPv4Address a) =
     mem_bytes host 2 (sin_family a) @ mem_bytes host 2 (sin_port a) @ mem_bytes host 4 (sin_addr a) @ sin_zero a"
| "getAddr host (IPv6Address a) =
     mem_bytes host 2 (sin6_family a) @ mem_bytes host 2 (sin6_port a) @ mem_bytes host 4 (sin6_flowinfo a)
     @ sin6_addr a @ mem_bytes host 4 (sin6_scope_id a)"
| "getAddr host (UnixAddress a m_length) = mem_bytes host 2 (sun_family a) @ map of_char (sun_path a)"
| "getAddr host (UnknownAddress a) = mem_bytes host 2 (sa_family a) @ sa_data a"

fun insert_text :: "byte_order \<Rightarrow> address \<Rightarrow> string res" where
  "insert_text host (IPv4Address a) = Inr (v4_insert host a)"
| "insert_text host (IPv6Address a) = Inr (v6_insert host a)"
| "insert_text host (UnixAddress a m_length) = unix_text a m_length"
| "insert_text host (UnknownAddress a) = Inr (''[UnknownAddress family='' @ show_nat (unat (sa_family a)) @ '']'')"

text \<open>\<open>memcmp\<close> of two blocks, unsigned bytes in order; a block shorter than the count is read past its end.\<close>

fun memcmp :: "u8 list \<Rightarrow> u8 list \<Rightarrow> nat \<Rightarrow> int res" where
  "memcmp as bs 0 = Inr 0"
| "memcmp (a # as) (b # bs) (Suc n) = (if a = b then memcmp as bs n else Inr (uint a - uint b))"
| "memcmp as bs (Suc n) = Inl BadAccess"

definition address_less :: "byte_order \<Rightarrow> address \<Rightarrow> address \<Rightarrow> bool res" where
  "address_less host a b =
     (let minlen = min (getAddrLen a) (getAddrLen b)
      in mapR (\<lambda>result. if result < 0 then True else if result > 0 then False
                         else getAddrLen a < getAddrLen b)
           (memcmp (getAddr host a) (getAddr host b) (unat minlen)))"

definition address_eq :: "byte_order \<Rightarrow> address \<Rightarrow> address \<Rightarrow> bool res" where
  "address_eq host a b =
     (if getAddrLen a = getAddrLen b
      then mapR (\<lambda>result. result = 0) (memcmp (getAddr host a) (getAddr host b) (unat (getAddrLen a)))
      else Inr False)"

section \<open>Lookup\<close>

text \<open>The position of a character, as \<open>memchr\<close> finds it.\<close>

fun memchr :: "char \<Rightarrow> string \<Rightarrow> nat option" where
  "memchr c [] = None"
| "memchr c (d # s) = (if c = d then Some 0 else map_option Suc (memchr c s))"

text \<open>The name and the service that go to \<open>getaddrinfo\<close>.\<close>

definition bracketed :: "string \<Rightarrow> string \<times> string option" where
  "bracketed host =
     (if host \<noteq> [] \<and> hd host = CHR 0x5B
      then (case memchr (CHR 0x5D) (tl host) of
              None \<Rightarrow> ([], None)
            | Some i \<Rightarrow>
                (take i (tl host),
                 if i + 2 < length host \<and> host ! (i + 2) = CHR 0x3A then Some (drop (i + 3) host) else None))
      else ([], None))"

definition split_host :: "string \<Rightarrow> string \<times> string option" where
  "split_host host =
     (case bracketed host of
        (node, service) \<Rightarrow>
          (let (node1, service1) =
             (if node = []
              then (case memchr (CHR 0x3A) host of
                      None \<Rightarrow> ([], None)
                    | Some j \<Rightarrow>
                        (if memchr (CHR 0x3A) (drop (j + 1) host) = None
                         then (take j host, Some (drop (j + 1) host))
                         else ([], Some (drop j host))))
              else (node, service))
           in (if node1 = [] then host else node1, service1)))"

type_synonym resolver = "string \<Rightarrow> string option \<Rightarrow> int \<Rightarrow> int \<Rightarrow> int \<Rightarrow> raw_addr list option"

definition Lookup :: "resolver \<Rightarrow> string \<Rightarrow> int \<Rightarrow> int \<Rightarrow> int \<Rightarrow> address list \<Rightarrow> bool \<times> address list" where
  "Lookup getaddrinfo host family type protocol result =
     (case split_host host of
        (node, service) \<Rightarrow>
          (case getaddrinfo (c_str node) (map_option c_str service) family type protocol of
             None \<Rightarrow> (False, result)
           | Some results \<Rightarrow>
               (let result1 = result @ List.map_filter (\<lambda>r. Address_Create (Some r)) results
                in (result1 \<noteq> [], result1))))"

definition LookupAny :: "resolver \<Rightarrow> string \<Rightarrow> int \<Rightarrow> int \<Rightarrow> int \<Rightarrow> address option" where
  "LookupAny getaddrinfo host family type protocol =
     (case Lookup getaddrinfo host family type protocol [] of (ok, result) \<Rightarrow> if ok then Some (result ! 0) else None)"

fun is_ip :: "address \<Rightarrow> bool" where
  "is_ip (IPv4Address a) = True"
| "is_ip (IPv6Address a) = True"
| "is_ip (UnixAddress a m_length) = False"
| "is_ip (UnknownAddress a) = False"

definition LookupAnyIPAddress :: "resolver \<Rightarrow> string \<Rightarrow> int \<Rightarrow> int \<Rightarrow> int \<Rightarrow> address option" where
  "LookupAnyIPAddress getaddrinfo host family type protocol =
     (case Lookup getaddrinfo host family type protocol [] of (ok, result) \<Rightarrow> if ok then find is_ip result else None)"

fun setPort :: "byte_order \<Rightarrow> u16 \<Rightarrow> address \<Rightarrow> address" where
  "setPort host v (IPv4Address a) = IPv4Address (v4_setPort host v a)"
| "setPort host v (IPv6Address a) = IPv6Address (v6_setPort host v a)"
| "setPort host v a = a"

text \<open>\<open>IPAddress::Create\<close>: the first answer to a numeric host, when it is an IP address.\<close>

definition IPAddress_Create :: "byte_order \<Rightarrow> (string \<Rightarrow> raw_addr list option) \<Rightarrow> string \<Rightarrow> u16 \<Rightarrow> address option res" where
  "IPAddress_Create host getaddrinfo address port =
     (case getaddrinfo (c_str address) of
        None \<Rightarrow> Inr None
      | Some [] \<Rightarrow> Inl NullDeref
      | Some (r # rs) \<Rightarrow>
          (case Address_Create (Some r) of
             None \<Rightarrow> Inr None
           | Some a \<Rightarrow> Inr (if is_ip a then Some (setPort host port a) else None)))"

section \<open>Interfaces\<close>

record ifaddr =
  ifa_name :: string
  ifa_addr :: "raw_addr option"
  ifa_netmask :: "raw_addr option"

text \<open>The length of the prefix of one entry; a mask of another family is read as what it is not.\<close>

definition prefix_of :: "raw_addr \<Rightarrow> raw_addr option \<Rightarrow> u32 res" where
  "prefix_of addr netmask =
     (case addr of
        Raw_in a \<Rightarrow> (case netmask of None \<Rightarrow> Inl NullDeref | Some (Raw_in m) \<Rightarrow> Inr (CountBytes (sin_addr m)) | _ \<Rightarrow> Inl Indeterminate)
      | Raw_in6 a \<Rightarrow> (case netmask of None \<Rightarrow> Inl NullDeref
                        | Some (Raw_in6 m) \<Rightarrow> Inr (sum_list (map CountBytes (sin6_addr m))) | _ \<Rightarrow> Inl Indeterminate)
      | Raw_other a \<Rightarrow> Inr (- 1))"

text \<open>The loop over the entries; the multimap is the list of its pairs in the order of insertion.\<close>

fun interfaces_loop :: "u16 \<Rightarrow> ifaddr list \<Rightarrow> (string \<times> address \<times> u32) list res" where
  "interfaces_loop family [] = Inr []"
| "interfaces_loop family (i # is) =
     (case ifa_addr i of
        None \<Rightarrow> Inl NullDeref
      | Some addr \<Rightarrow>
          (if family \<noteq> AF_UNSPEC \<and> family \<noteq> raw_family addr then interfaces_loop family is
           else bindR (prefix_of addr (ifa_netmask i)) (\<lambda>prefix_len.
             mapR (\<lambda>rest. case addr of Raw_other a \<Rightarrow> rest
                          | _ \<Rightarrow> (case Address_Create (Some addr) of
                                   None \<Rightarrow> rest | Some a \<Rightarrow> (ifa_name i, a, prefix_len) # rest))
               (interfaces_loop family is))))"

definition GetInterfaceAddresses ::
  "ifaddr list option \<Rightarrow> u16 \<Rightarrow> (string \<times> address \<times> u32) list \<Rightarrow> (bool \<times> (string \<times> address \<times> u32) list) res" where
  "GetInterfaceAddresses getifaddrs family result =
     (case getifaddrs of
        None \<Rightarrow> Inr (False, result)
      | Some is \<Rightarrow> mapR (\<lambda>rs. (result @ rs \<noteq> [], result @ rs)) (interfaces_loop family is))"

definition GetInterfaceAddresses_iface ::
  "byte_order \<Rightarrow> ifaddr list option \<Rightarrow> string \<Rightarrow> u16 \<Rightarrow> (address \<times> u32) list \<Rightarrow> (bool \<times> (address \<times> u32) list) res" where
  "GetInterfaceAddresses_iface host getifaddrs iface family result =
     (if iface = [] \<or> iface = ''*''
      then Inr (True, result
             @ (if family = AF_INET \<or> family = AF_UNSPEC then [(IPv4Address (IPv4Address_new host 0 0), 0)] else [])
             @ (if family = AF_INET6 \<or> family = AF_UNSPEC then [(IPv6Address IPv6Address_default, 0)] else []))
      else mapR (\<lambda>(ok, results).
             if \<not> ok then (False, result)
             else let result1 = result @ map snd (filter (\<lambda>r. fst r = iface) results) in (result1 \<noteq> [], result1))
        (GetInterfaceAddresses getifaddrs family []))"

end
