(* ===== verification/Address_Props.thy ===== *)
theory Address_Props
  imports Address
begin

text \<open>
  What addresses promise: their order is that of their bytes, their text can be read back, and
  prefix masks set the bits they should, on a host of either byte order.
\<close>

section \<open>The order\<close>

lemma memcmp_ok:
  "n \<le> length as \<Longrightarrow> n \<le> length bs \<Longrightarrow>
   \<exists>r. memcmp as bs n = Inr r \<and> (r < 0 \<longleftrightarrow> ord_class.lexordp (take n as) (take n bs)) \<and> (r = 0 \<longleftrightarrow> take n as = take n bs)"
  by (induction as bs n rule: memcmp.induct) (auto simp: word_less_def word_uint_eq_iff)

lemma lexordp_take:
  fixes xs ys :: "u8 list"
  shows "n = min (length xs) (length ys) \<Longrightarrow>
   ord_class.lexordp xs ys \<longleftrightarrow> ord_class.lexordp (take n xs) (take n ys) \<or> take n xs = take n ys \<and> length xs < length ys"
  by (induction xs ys arbitrary: n rule: list_induct2') (auto simp: lexordp_irreflexive')

text \<open>The bytes two addresses are compared by, and the addresses whose memory has them all.\<close>

definition addr_key :: "byte_order \<Rightarrow> address \<Rightarrow> u8 list" where
  "addr_key host a = take (unat (getAddrLen a)) (getAddr host a)"

definition addr_ok :: "address \<Rightarrow> bool" where
  "addr_ok a = (case a of
      IPv4Address s \<Rightarrow> length (sin_zero s) = 8
    | IPv6Address s \<Rightarrow> length (sin6_addr s) = 16
    | UnixAddress s n \<Rightarrow> length (sun_path s) = 108 \<and> n \<le> 110
    | UnknownAddress s \<Rightarrow> length (sa_data s) = 14)"

lemma addr_ok_length: "addr_ok a \<Longrightarrow> unat (getAddrLen a) \<le> length (getAddr host a)"
  by (cases a) (auto simp: addr_ok_def word_le_nat_alt)

lemma length_addr_key: "addr_ok a \<Longrightarrow> length (addr_key host a) = unat (getAddrLen a)"
  using addr_ok_length [of a host] by (simp add: addr_key_def)

lemma address_less_key:
  assumes "addr_ok a" and "addr_ok b"
  shows "address_less host a b = Inr (ord_class.lexordp (addr_key host a) (addr_key host b))"
proof -
  define n where "n = min (unat (getAddrLen a)) (unat (getAddrLen b))"
  have n: "unat (min (getAddrLen a) (getAddrLen b)) = n" by (simp add: n_def min_def word_le_nat_alt)
  have key: "take n (addr_key host a) = take n (getAddr host a)" "take n (addr_key host b) = take n (getAddr host b)"
    by (simp_all add: addr_key_def n_def min_def)
  have le: "n \<le> length (getAddr host a)" "n \<le> length (getAddr host b)"
    using addr_ok_length [OF assms(1), of host] addr_ok_length [OF assms(2), of host] by (simp_all add: n_def)
  obtain r where "memcmp (getAddr host a) (getAddr host b) n = Inr r"
    "r < 0 \<longleftrightarrow> ord_class.lexordp (take n (addr_key host a)) (take n (addr_key host b))"
    "r = 0 \<longleftrightarrow> take n (addr_key host a) = take n (addr_key host b)"
    using memcmp_ok [of n "getAddr host a" "getAddr host b"] le unfolding key by blast
  moreover have "n = min (length (addr_key host a)) (length (addr_key host b))"
    by (simp add: n_def length_addr_key assms)
  note lexordp_take [OF this]
  ultimately show ?thesis
    by (auto simp: address_less_def n length_addr_key assms word_less_nat_alt Let_def)
qed

lemma address_eq_key:
  assumes "addr_ok a" and "addr_ok b"
  shows "address_eq host a b = Inr (addr_key host a = addr_key host b)"
proof (cases "getAddrLen a = getAddrLen b")
  case True
  with memcmp_ok [of "unat (getAddrLen a)" "getAddr host a" "getAddr host b"] addr_ok_length [OF assms(1), of host]
    addr_ok_length [OF assms(2), of host]
  show ?thesis by (auto simp: address_eq_def addr_key_def)
next
  case False
  then have "length (addr_key host a) \<noteq> length (addr_key host b)" by (simp add: length_addr_key assms word_unat_eq_iff)
  with False show ?thesis by (auto simp: address_eq_def)
qed

lemma lexordp_trans8: "ord_class.lexordp (xs :: u8 list) ys \<Longrightarrow> ord_class.lexordp ys zs \<Longrightarrow> ord_class.lexordp xs zs"
  by (rule lexordp_trans) 

interpretation ao: comparator "\<lambda>a b. ord_class.lexordp (addr_key host a) (addr_key host b)" for host
proof (unfold_locales, goal_cases)
  case (1 x)
  show ?case by (simp add: lexordp_irreflexive')
next
  case (2 x y z)
  then show ?case by (rule lexordp_trans8)
next
  case (3 x y z)
  then show ?case by (metis lexordp_linear lexordp_trans8)
qed

text \<open>Values in network order compare as their bytes do.\<close>

lemma lexordp_snoc:
  "length xs = length ys \<Longrightarrow>
   ord_class.lexordp (xs @ [a]) (ys @ [b]) \<longleftrightarrow> ord_class.lexordp xs ys \<or> xs = ys \<and> a < (b :: u8)"
  by (induction xs ys rule: list_induct2) auto

lemma lexordp_append_same:
  "length xs = length ys \<Longrightarrow>
   ord_class.lexordp (xs @ as) (ys @ bs) \<longleftrightarrow> ord_class.lexordp xs ys \<or> xs = ys \<and> ord_class.lexordp as (bs :: u8 list)"
  by (induction xs ys rule: list_induct2) auto

lemma low_byte:
  assumes "8 \<le> LENGTH('a)"
  shows "unat (x :: 'a::len word) mod 256 ^ Suc n = 256 * (unat (drop_bit 8 x) mod 256 ^ n) + unat (ucast x :: u8)"
proof -
  have "unat (ucast x :: u8) = unat x mod 256" by (simp add: unsigned_ucast_eq take_bit_eq_mod)
  moreover have "unat (drop_bit 8 x) = unat x div 256" by (simp only: unat_drop_bit_eq) (simp add: drop_bit_eq_div)
  ultimately show ?thesis by (simp add: mod_mult2_eq)
qed

lemma pair_order: "l < 256 \<Longrightarrow> l' < 256 \<Longrightarrow> 256 * h + l < 256 * h' + l' \<longleftrightarrow> h < h' \<or> h = h' \<and> l < (l' :: nat)"
  by linarith

lemma pair_eq: "l < 256 \<Longrightarrow> l' < 256 \<Longrightarrow> 256 * h + l = 256 * h' + l' \<longleftrightarrow> h = h' \<and> l = (l' :: nat)"
proof -
  assume l: "l < 256" "l' < 256"
  have "(256 * h + l) div 256 = h" "(256 * h + l) mod 256 = l" "(256 * h' + l') div 256 = h'" "(256 * h' + l') mod 256 = l'"
    using l by simp_all
  then show ?thesis by metis
qed

lemma network_bytes_order:
  fixes w v :: "'a::len word"
  assumes "8 \<le> LENGTH('a)"
  shows "(ord_class.lexordp (rev (le_bytes n w)) (rev (le_bytes n v)) \<longleftrightarrow> unat w mod 256 ^ n < unat v mod 256 ^ n)
    \<and> (le_bytes n w = le_bytes n v \<longleftrightarrow> unat w mod 256 ^ n = unat v mod 256 ^ n)"
proof (induction n arbitrary: w v)
  case (Suc n)
  have small: "unat (ucast x :: u8) < 256" for x :: "'a word" using unsigned_less [of "ucast x :: u8"] by simp
  show ?case
    unfolding low_byte [OF assms] pair_order [OF small small] pair_eq [OF small small]
    using Suc [of "drop_bit 8 w" "drop_bit 8 v"]
    by (auto simp: lexordp_snoc word_less_nat_alt word_unat_eq_iff)
qed simp

lemma network_order_16:
  "mem_bytes host 2 (byteswapOnLittleEndian_16 host v) = rev (le_bytes 2 v)"
  by (cases host) (simp_all add: byteswapOnLittleEndian_16_def mem_bytes_def bswap_16_def rev_le_bytes_swap)

lemma IPv4_key:
  "addr_key host (IPv4Address (IPv4Address_new host x p)) =
     mem_bytes host 2 AF_INET @ rev (le_bytes 2 p) @ rev (le_bytes 4 x) @ replicate 8 0"
  by (simp add: addr_key_def IPv4Address_new_def network_order network_order_16)

lemma IPv4_order:
  "ord_class.lexordp (addr_key host (IPv4Address (IPv4Address_new host x p))) (addr_key host (IPv4Address (IPv4Address_new host y q)))
     \<longleftrightarrow> p < q \<or> p = q \<and> x < y"
proof -
  have "unat p mod 256 ^ 2 = unat p" "unat q mod 256 ^ 2 = unat q" "unat x mod 256 ^ 4 = unat x" "unat y mod 256 ^ 4 = unat y"
    using unsigned_less [of p, where ?'a = nat] unsigned_less [of q, where ?'a = nat]
      unsigned_less [of x, where ?'a = nat] unsigned_less [of y, where ?'a = nat] by simp_all
  with network_bytes_order [of 2 p q] network_bytes_order [of 4 x y] show ?thesis
    by (simp add: IPv4_key lexordp_append_same lexordp_irreflexive' word_less_nat_alt word_unat_eq_iff del: le_bytes.simps)
qed

text \<open>
  Addresses are ordered by their bytes: on well-formed addresses of any kind the order and
  the equality of the class never read past an address, and are the lexicographic order and
  the equality of the bytes compared, so the order is a strict total one up to that equality;
  of IPv4 addresses built from a value and a port the one with the smaller port, then the
  smaller address, comes first, on either byte order.
\<close>

theorem addresses_ordered_by_bytes:
  assumes "addr_ok a" and "addr_ok b"
  shows "address_less host a b = Inr (ord_class.lexordp (addr_key host a) (addr_key host b))
    \<and> address_eq host a b = Inr (addr_key host a = addr_key host b)
    \<and> (ao.equiv host a b \<longleftrightarrow> addr_key host a = addr_key host b)
    \<and> address_less host (IPv4Address (IPv4Address_new host x p)) (IPv4Address (IPv4Address_new host y q))
        = Inr (p < q \<or> p = q \<and> x < y)"
proof -
  have "addr_ok (IPv4Address (IPv4Address_new host x p))" for x p by (simp add: addr_ok_def IPv4Address_new_def)
  moreover have "ao.equiv host a b \<longleftrightarrow> addr_key host a = addr_key host b"
    using lexordp_linear [of "addr_key host a" "addr_key host b"]
    by (auto simp: ao.equiv_def lexordp_irreflexive')
  ultimately show ?thesis
    using assms by (simp add: address_less_key address_eq_key IPv4_order)
qed

lemma addresses_ordered_by_bytes_witness:
  "\<exists>u. UnixAddress_new ''s'' = Inr u \<and> address_less LITTLE_ENDIAN u (IPv4Address (IPv4Address_new LITTLE_ENDIAN 1 80)) = Inr True
    \<and> address_eq LITTLE_ENDIAN u (IPv4Address (IPv4Address_new LITTLE_ENDIAN 1 80)) = Inr False"
proof -
  obtain u where u: "UnixAddress_new ''s'' = Inr u" "addr_ok u"
    "ord_class.lexordp (addr_key LITTLE_ENDIAN u) (addr_key LITTLE_ENDIAN (IPv4Address (IPv4Address_new LITTLE_ENDIAN 1 80)))"
  proof -
    have "case UnixAddress_new ''s'' of Inr u \<Rightarrow> addr_ok u \<and>
        ord_class.lexordp (addr_key LITTLE_ENDIAN u) (addr_key LITTLE_ENDIAN (IPv4Address (IPv4Address_new LITTLE_ENDIAN 1 80)))
      | _ \<Rightarrow> False" by code_simp
    then show thesis using that by (auto split: sum.splits)
  qed
  have ok: "addr_ok (IPv4Address (IPv4Address_new LITTLE_ENDIAN 1 80))" by (simp add: addr_ok_def IPv4Address_new_def)
  have "addr_key LITTLE_ENDIAN u \<noteq> addr_key LITTLE_ENDIAN (IPv4Address (IPv4Address_new LITTLE_ENDIAN 1 80))"
    using u(3) by (auto simp: lexordp_irreflexive')
  with addresses_ordered_by_bytes [OF u(2) ok, of LITTLE_ENDIAN 0 0 0 0] u show ?thesis by simp
qed

section \<open>Masks\<close>

lemma bit_le_bytes: "k < n \<Longrightarrow> bit (le_bytes n w ! k) j \<longleftrightarrow> j < 8 \<and> bit w (8 * k + j)"
proof (induction n arbitrary: w k)
  case (Suc n)
  show ?case
  proof (cases k)
    case 0
    then show ?thesis by (auto simp: bit_ucast_iff dest: bit_imp_le_length)
  next
    case (Suc k')
    with Suc.prems Suc.IH [of k' "drop_bit 8 w"] show ?thesis by (simp add: bit_drop_bit_eq algebra_simps)
  qed
qed simp

lemma bit_bswap_32: "bit (bswap_32 w) i \<longleftrightarrow> i < 32 \<and> bit w (8 * (3 - i div 8) + i mod 8)"
proof (cases "i < 32")
  case True
  then have "rev (le_bytes 4 w) ! (i div 8) = le_bytes 4 w ! (3 - i div 8)" by (subst rev_nth) auto
  with True show ?thesis by (simp add: bswap_32_def bit_le_word bit_le_bytes del: le_bytes.simps le_word.simps)
qed (auto simp: bswap_32_def bit_le_word del: le_bytes.simps le_word.simps)

text \<open>The swap is a permutation of bits, so it commutes with the bitwise operations.\<close>

lemma swap_bitwise:
  "byteswapOnLittleEndian_32 host (or a b) = or (byteswapOnLittleEndian_32 host a) (byteswapOnLittleEndian_32 host b)"
  "byteswapOnLittleEndian_32 host (and a b) = and (byteswapOnLittleEndian_32 host a) (byteswapOnLittleEndian_32 host b)"
  "byteswapOnLittleEndian_32 host (not a) = not (byteswapOnLittleEndian_32 host a)"
proof -
  have low: "8 * (3 - i div 8) + i mod 8 < 32" if "i < 32" for i :: nat using that by presburger
  have "bswap_32 (or a b) = or (bswap_32 a) (bswap_32 b)" "bswap_32 (and a b) = and (bswap_32 a) (bswap_32 b)"
    "bswap_32 (not a) = not (bswap_32 a)"
    using low by (auto intro!: bit_word_eqI simp: bit_bswap_32 bit_or_iff bit_and_iff bit_not_iff)
  then show "byteswapOnLittleEndian_32 host (or a b) = or (byteswapOnLittleEndian_32 host a) (byteswapOnLittleEndian_32 host b)"
    "byteswapOnLittleEndian_32 host (and a b) = and (byteswapOnLittleEndian_32 host a) (byteswapOnLittleEndian_32 host b)"
    "byteswapOnLittleEndian_32 host (not a) = not (byteswapOnLittleEndian_32 host a)"
    by (simp_all add: byteswapOnLittleEndian_32_def)
qed

lemma CreateMask_32_eq: "2 \<le> p \<Longrightarrow> p \<le> 32 \<Longrightarrow> CreateMask_32 p = Inr (mask (32 - unat p))"
  by (auto simp: CreateMask_32_def mask_eq_decr_exp push_bit_eq_mult word_le_nat_alt word_less_nat_alt)

lemma CreateMask_8_eq: "r < 8 \<Longrightarrow> CreateMask_8 r = mask (8 - r)"
  by (simp add: CreateMask_8_def push_bit_eq_mult mask_eq_decr_exp)

text \<open>The value of an address: of IPv4 on the host, of IPv6 the number its bytes spell.\<close>

definition v4_value :: "byte_order \<Rightarrow> sockaddr_in \<Rightarrow> u32" where
  "v4_value host a = byteswapOnLittleEndian_32 host (sin_addr a)"

definition v6_value :: "sockaddr_in6 \<Rightarrow> 128 word" where
  "v6_value a = le_word (rev (sin6_addr a))"

lemma bit_v6: "length bs = 16 \<Longrightarrow> bit (le_word (rev bs) :: 128 word) n \<longleftrightarrow> n < 128 \<and> bit (bs ! (15 - n div 8)) (n mod 8)"
  by (auto simp: bit_le_word rev_nth del: le_word.simps)

lemma below_prefix:
  fixes n p :: nat
  assumes "n < 128" and "p < 128"
  shows "n < 128 - p \<longleftrightarrow> 15 - n div 8 > p div 8 \<or> 15 - n div 8 = p div 8 \<and> n mod 8 < 8 - p mod 8"
proof -
  define a j i r where "a = n div 8" "j = n mod 8" "i = p div 8" "r = p mod 8"
  have n: "n = 8 * a + j" "j < 8" "p = 8 * i + r" "r < 8" by (simp_all add: a_j_i_r_def)
  then have "a < 16" "i < 16" using assms by simp_all
  with n assms have "8 * a + j < 128 - (8 * i + r) \<longleftrightarrow> 15 - a > i \<or> 15 - a = i \<and> j < 8 - r"
    by linarith
  with n show ?thesis by (simp add: a_j_i_r_def)
qed

lemma bit_ff: "bit (0xff :: u8) j \<longleftrightarrow> j < 8"
proof -
  have ff: "(0xff :: u8) = mask 8" by (simp add: mask_eq_decr_exp)
  show ?thesis by (simp only: ff bit_mask_iff) simp
qed

text \<open>Sixteen bytes kept up to one place, changed there and constant after it.\<close>

definition patch :: "nat \<Rightarrow> u8 list \<Rightarrow> u8 \<Rightarrow> u8 \<Rightarrow> u8 list" where
  "patch i bs b c = take i bs @ [b] @ replicate (16 - (i + 1)) c"

lemma nth_patch:
  assumes "length bs = 16" and "i < 16" and "k < 16"
  shows "patch i bs b c ! k = (if k < i then bs ! k else if k = i then b else c)"
proof -
  consider "k < i" | "k = i" | "i < k" by linarith
  then show ?thesis
  proof cases
    case 3
    then have "k - (i + 1) < 16 - (i + 1)" using assms(3) by simp
    with 3 assms show ?thesis by (simp add: patch_def nth_append min_def)
  qed (use assms in \<open>simp_all add: patch_def nth_append min_def\<close>)
qed

lemma v6_patch:
  assumes "length bs = 16" and "p < 128"
  shows "bit (le_word (rev (patch (p div 8) bs b c)) :: 128 word) n \<longleftrightarrow> n < 128 \<and>
    bit (if 15 - n div 8 < p div 8 then bs ! (15 - n div 8) else if 15 - n div 8 = p div 8 then b else c) (n mod 8)"
proof -
  have i: "p div 8 < 16" using assms(2) by simp
  with assms(1) have len: "length (patch (p div 8) bs b c) = 16" by (simp add: patch_def)
  have k: "15 - n div 8 < 16" by simp
  show ?thesis unfolding bit_v6 [OF len] nth_patch [OF assms(1) i k] ..
qed

lemma v6_masks:
  assumes "length (sin6_addr a) = 16" and "p < 128"
  shows "\<exists>b. v6_broadcastAddress p a = Inr b \<and> v6_value b = or (v6_value a) (mask (128 - p))"
    and "\<exists>s. v6_subnetMask p = Inr s \<and> v6_value s = not (mask (128 - p))"
proof -
  have i: "p div 8 < 16" using assms(2) by simp
  have m: "CreateMask_8 (p mod 8) = mask (8 - p mod 8)" by (rule CreateMask_8_eq) simp
  have "le_word (rev (patch (p div 8) (sin6_addr a) (or (sin6_addr a ! (p div 8)) (CreateMask_8 (p mod 8))) 0xff))
      = (or (le_word (rev (sin6_addr a))) (mask (128 - p)) :: 128 word)"
    unfolding m
  proof (rule bit_word_eqI)
    fix n assume "n < LENGTH(128)"
    then have n: "n < 128" by simp
    note below = below_prefix [OF n assms(2)]
    show "bit (le_word (rev (patch (p div 8) (sin6_addr a) (or (sin6_addr a ! (p div 8)) (mask (8 - p mod 8))) 0xff)) :: 128 word) n
      = bit (or (le_word (rev (sin6_addr a))) (mask (128 - p)) :: 128 word) n"
      unfolding v6_patch [OF assms] bit_or_iff bit_v6 [OF assms(1)] bit_mask_iff below
      using n bit_ff [of "n mod 8"] by (simp add: bit_or_iff bit_mask_iff min_def not_less)
  qed
  then show "\<exists>b. v6_broadcastAddress p a = Inr b \<and> v6_value b = or (v6_value a) (mask (128 - p))"
    using i assms by (simp add: v6_broadcastAddress_def Let_def v6_value_def patch_def del: le_word.simps)
  have "le_word (rev (patch (p div 8) (replicate 16 0xff) (not (CreateMask_8 (p mod 8))) 0x00)) = (not (mask (128 - p)) :: 128 word)"
    unfolding m
  proof (rule bit_word_eqI)
    fix n assume "n < LENGTH(128)"
    then have n: "n < 128" by simp
    note below = below_prefix [OF n assms(2)]
    have "length (replicate 16 (0xff :: u8)) = 16" by simp
    from v6_patch [OF this assms(2)] n bit_ff [of "n mod 8"]
    show "bit (le_word (rev (patch (p div 8) (replicate 16 0xff) (not (mask (8 - p mod 8))) 0x00)) :: 128 word) n
      = bit (not (mask (128 - p)) :: 128 word) n"
      by (simp add: bit_not_iff bit_mask_iff below nth_replicate min_def not_less del: replicate.simps)
  qed
  then show "\<exists>s. v6_subnetMask p = Inr s \<and> v6_value s = not (mask (128 - p))"
    using i by (simp add: v6_subnetMask_def Let_def v6_value_def IPv6Address_default_def patch_def min_def del: le_word.simps replicate.simps)
qed

text \<open>
  C24. Masks of a prefix: on well-formed addresses the broadcast address has every bit below
  the prefix set and the others kept, and the subnet mask exactly the bits of the prefix,
  for IPv4 prefixes from 2 to 32 and IPv6 prefixes below 128. Longer IPv4 prefixes have no
  broadcast address, an IPv4 mask of 0 or 1 is undefined arithmetic, and an IPv6 prefix of
  128 touches a byte past the address.
\<close>

theorem prefix_masks:
  assumes "2 \<le> p" and "p \<le> 32" and "length (sin6_addr a6) = 16" and "q < 128"
  shows "(\<exists>b s. v4_broadcastAddress host p a = Inr (Some b) \<and> v4_subnetMask host p = Inr s
        \<and> v4_value host b = or (v4_value host a) (mask (32 - unat p)) \<and> v4_value host s = not (mask (32 - unat p)))
    \<and> (\<exists>b s. v6_broadcastAddress q a6 = Inr b \<and> v6_subnetMask q = Inr s
        \<and> v6_value b = or (v6_value a6) (mask (128 - q)) \<and> v6_value s = not (mask (128 - q)))
    \<and> (\<forall>r > 32. v4_broadcastAddress host r a = Inr None)
    \<and> v4_broadcastAddress host 0 a = Inl UndefinedArith \<and> v4_subnetMask host 1 = Inl UndefinedArith
    \<and> v6_broadcastAddress 128 a6 = Inl BadAccess \<and> v6_subnetMask 128 = Inl BadAccess"
proof -
  have "\<not> p > 32" using assms(2) by simp
  then have v4: "\<exists>b s. v4_broadcastAddress host p a = Inr (Some b) \<and> v4_subnetMask host p = Inr s
      \<and> v4_value host b = or (v4_value host a) (mask (32 - unat p)) \<and> v4_value host s = not (mask (32 - unat p))"
    using CreateMask_32_eq [OF assms(1,2)]
    by (simp add: v4_broadcastAddress_def v4_subnetMask_def v4_value_def swap_bitwise)
  have outside: "v4_broadcastAddress host 0 a = Inl UndefinedArith" "v4_subnetMask host 1 = Inl UndefinedArith"
    "v6_broadcastAddress 128 a6 = Inl BadAccess" "v6_subnetMask 128 = Inl BadAccess" "\<forall>r > 32. v4_broadcastAddress host r a = Inr None"
    using assms(3) by (simp_all add: v4_broadcastAddress_def v4_subnetMask_def v6_broadcastAddress_def v6_subnetMask_def CreateMask_32_def)
  from v6_masks [OF assms(3,4)] v4 outside show ?thesis by blast
qed

lemma prefix_masks_witness:
  "\<exists>s. v4_subnetMask LITTLE_ENDIAN 24 = Inr s \<and> v4_value LITTLE_ENDIAN s = 0xFFFFFF00"
proof -
  have m: "(not (mask (32 - unat (24 :: u32))) :: u32) = 0xFFFFFF00" by (simp add: mask_eq_decr_exp)
  have "(2 :: u32) \<le> 24" "(24 :: u32) \<le> 32" "length (sin6_addr IPv6Address_default) = 16" "(64 :: nat) < 128"
    by (simp_all add: IPv6Address_default_def)
  from prefix_masks [OF this, of LITTLE_ENDIAN "IPv4Address_new LITTLE_ENDIAN 0 0"] show ?thesis by (auto simp only: m)
qed

text \<open>\<open>networkAddress\<close> masks with the same word as the broadcast address: it keeps the host part.\<close>

lemma networkAddress_is_the_host_part:
  assumes "2 \<le> p" and "p \<le> 32"
  shows "\<exists>n. v4_networkAddress host p a = Inr (Some n) \<and> v4_value host n = and (v4_value host a) (mask (32 - unat p))"
proof -
  have "\<not> p > 32" using assms(2) by simp
  then show ?thesis
    using CreateMask_32_eq [OF assms] by (simp add: v4_networkAddress_def v4_value_def swap_bitwise)
qed

section \<open>Lookup\<close>

lemma memchr_none: "memchr c s = None \<longleftrightarrow> c \<notin> set s"
  by (induction s) auto

lemma memchr_first: "c \<notin> set h \<Longrightarrow> memchr c (h @ c # s) = Some (length h)"
  by (induction h) auto

lemma bracketed_plain: "hd h \<noteq> CHR 0x5B \<Longrightarrow> bracketed h = ([], None)"
  by (simp add: bracketed_def)

lemma split_brackets:
  assumes "CHR 0x5D \<notin> set h" and "h \<noteq> []"
  shows "split_host (CHR 0x5B # h @ CHR 0x5D # CHR 0x3A # p) = (h, Some p)"
    and "split_host (CHR 0x5B # h @ [CHR 0x5D]) = (h, None)"
proof -
  have m: "memchr (CHR 0x5D) (h @ CHR 0x5D # s) = Some (length h)" for s by (rule memchr_first [OF assms(1)])
  have "bracketed (CHR 0x5B # h @ CHR 0x5D # CHR 0x3A # p) = (h, Some p)"
    by (simp add: bracketed_def m nth_append numeral_3_eq_3)
  then show "split_host (CHR 0x5B # h @ CHR 0x5D # CHR 0x3A # p) = (h, Some p)"
    using assms(2) by (simp add: split_host_def)
  have "bracketed (CHR 0x5B # h @ [CHR 0x5D]) = (h, None)" by (simp add: bracketed_def m)
  then show "split_host (CHR 0x5B # h @ [CHR 0x5D]) = (h, None)"
    using assms(2) by (simp add: split_host_def)
qed

lemma split_plain:
  assumes "CHR 0x3A \<notin> set h" and "h \<noteq> []" and "hd h \<noteq> CHR 0x5B"
  shows "split_host h = (h, None)"
    and "CHR 0x3A \<notin> set p \<Longrightarrow> split_host (h @ CHR 0x3A # p) = (h, Some p)"
    and "CHR 0x3A \<in> set p \<Longrightarrow> split_host (h @ CHR 0x3A # p) = (h @ CHR 0x3A # p, Some (CHR 0x3A # p))"
proof -
  have "hd (h @ s) \<noteq> CHR 0x5B" for s using assms(2,3) by (cases h) auto
  note b = bracketed_plain [OF this]
  have m: "memchr (CHR 0x3A) h = None" using assms(1) by (simp add: memchr_none)
  show "split_host h = (h, None)" using b [of "[]"] m by (simp add: split_host_def)
  show "split_host (h @ CHR 0x3A # p) = (h, Some p)" if "CHR 0x3A \<notin> set p"
    using b assms(2) that by (simp add: split_host_def memchr_first [OF assms(1)] memchr_none [THEN iffD2])
  show "split_host (h @ CHR 0x3A # p) = (h @ CHR 0x3A # p, Some (CHR 0x3A # p))" if "CHR 0x3A \<in> set p"
  proof -
    have "memchr (CHR 0x3A) p \<noteq> None" using that by (simp add: memchr_none)
    then show ?thesis using b by (simp add: split_host_def memchr_first [OF assms(1)])
  qed
qed

text \<open>The first IP address among the answers to a question.\<close>

definition first_ip :: "raw_addr list option \<Rightarrow> address option" where
  "first_ip results =
     (case results of None \<Rightarrow> None | Some rs \<Rightarrow> find is_ip (List.map_filter (\<lambda>r. Address_Create (Some r)) rs))"

lemma LookupAnyIPAddress_eq:
  "split_host h = (node, service) \<Longrightarrow>
   LookupAnyIPAddress g h f t p = first_ip (g (c_str node) (map_option c_str service) f t p)"
  by (auto simp: LookupAnyIPAddress_def Lookup_def first_ip_def Let_def split: option.splits)

text \<open>
  Lookup asks for the name and the service the caller wrote: \<open>name\<close> and \<open>name:service\<close> for a
  name without colons, and a bracketed literal with or without a service, reach the resolver
  as that name and that service, and the answer is the first IP address among the results.
  A literal with several colons and no brackets does not: its part from the first colon on
  becomes a service, and the whole text the name.
\<close>

theorem lookup_asks_for_name_and_service:
  assumes "CHR 0x3A \<notin> set h" and "h \<noteq> []" and "hd h \<noteq> CHR 0x5B" and "CHR 0x5D \<notin> set h6" and "h6 \<noteq> []"
    and "CHR 0x00 \<notin> set (h @ h6 @ p)" and "CHR 0x3A \<notin> set p"
  shows "LookupAnyIPAddress g h f ty pr = first_ip (g h None f ty pr)
    \<and> LookupAnyIPAddress g (h @ '':'' @ p) f ty pr = first_ip (g h (Some p) f ty pr)
    \<and> LookupAnyIPAddress g (''['' @ h6 @ '']'') f ty pr = first_ip (g h6 None f ty pr)
    \<and> LookupAnyIPAddress g (''['' @ h6 @ '']:'' @ p) f ty pr = first_ip (g h6 (Some p) f ty pr)
    \<and> LookupAnyIPAddress g (h @ ''::'' @ p) f ty pr = first_ip (g (h @ ''::'' @ p) (Some (''::'' @ p)) f ty pr)"
proof -
  have c: "c_str h = h" "c_str h6 = h6" "c_str p = p" "c_str (h @ ''::'' @ p) = h @ ''::'' @ p" "c_str (''::'' @ p) = ''::'' @ p"
    using assms(6) by (auto intro!: c_str_id)
  note plain = split_plain [OF assms(1,2,3)] and brackets = split_brackets [OF assms(4,5)]
  note ask = LookupAnyIPAddress_eq [where g = g and f = f and t = ty and p = pr]
  show ?thesis
    using ask [OF plain(1)] ask [OF plain(2) [OF assms(7)]] ask [OF brackets(2)] ask [OF brackets(1) [where p = p]]
      ask [OF plain(3) [where p = "CHR 0x3A # p"]] c by simp
qed

lemma lookup_asks_for_name_and_service_witness:
  "LookupAnyIPAddress (\<lambda>n s f t p. if (n, s) = (''a.b'', Some ''80'') then Some [Raw_in (IPv4Address_new LITTLE_ENDIAN 1 80)] else None)
     ''a.b:80'' 2 0 0 = Some (IPv4Address (IPv4Address_new LITTLE_ENDIAN 1 80))"
proof -
  have "CHR 0x3A \<notin> set ''a.b''" "''a.b'' \<noteq> []" "hd ''a.b'' \<noteq> CHR 0x5B" "CHR 0x5D \<notin> set ''f''" "''f'' \<noteq> []"
    "CHR 0x00 \<notin> set (''a.b'' @ ''f'' @ ''80'')" "CHR 0x3A \<notin> set ''80''" by simp_all
  from lookup_asks_for_name_and_service [OF this,
      of "\<lambda>n s f t p. if (n, s) = (''a.b'', Some ''80'') then Some [Raw_in (IPv4Address_new LITTLE_ENDIAN 1 80)] else None" 2 0 0]
  show ?thesis by (simp add: first_ip_def List.map_filter_def)
qed

section \<open>The text of an address\<close>

text \<open>
  The reader: a dotted quad and a port; groups of hexadecimal digits in which \<open>::\<close> stands for
  as many zero groups as are missing, in brackets, and a port.
\<close>

fun split_on :: "char \<Rightarrow> string \<Rightarrow> string list" where
  "split_on c [] = [[]]"
| "split_on c (d # s) = (if d = c then [] # split_on c s
     else case split_on c s of [] \<Rightarrow> [[d]] | x # xs \<Rightarrow> (d # x) # xs)"

definition read_v4 :: "string \<Rightarrow> nat \<times> nat" where
  "read_v4 s = (foldl (\<lambda>a t. a * 256 + read_base 10 t) 0 (split_on (CHR 0x2E) (split_on (CHR 0x3A) s ! 0)),
     read_base 10 (split_on (CHR 0x3A) s ! 1))"

fun cut_double :: "string \<Rightarrow> (string \<times> string) option" where
  "cut_double (c # d # s) = (if c = CHR 0x3A \<and> d = CHR 0x3A then Some ([], s)
     else map_option (apfst ((#) c)) (cut_double (d # s)))"
| "cut_double s = None"

definition read_parts :: "string \<Rightarrow> nat list" where
  "read_parts t = (if t = [] then [] else map (read_base 16) (split_on (CHR 0x3A) t))"

definition read_groups :: "string \<Rightarrow> nat list" where
  "read_groups t = (case cut_double t of
      None \<Rightarrow> read_parts t
    | Some (l, r) \<Rightarrow> read_parts l @ replicate (8 - length (read_parts l) - length (read_parts r)) 0 @ read_parts r)"

definition read_v6 :: "string \<Rightarrow> nat list \<times> nat" where
  "read_v6 s = (read_groups (takeWhile (\<lambda>c. c \<noteq> CHR 0x5D) (drop 1 s)),
     read_base 10 (drop 2 (dropWhile (\<lambda>c. c \<noteq> CHR 0x5D) s)))"

lemma split_on_last: "c \<notin> set x \<Longrightarrow> split_on c x = [x]"
  by (induction x) auto

lemma split_on_step: "c \<notin> set x \<Longrightarrow> split_on c (x @ c # s) = x # split_on c s"
  by (induction x) auto

lemma digits_free:
  "c \<in> set (show_base b n) \<Longrightarrow> 2 \<le> b \<Longrightarrow> b \<le> 16 \<Longrightarrow> c \<noteq> CHR 0x3A \<and> c \<noteq> CHR 0x2E \<and> c \<noteq> CHR 0x5D"
proof -
  assume "c \<in> set (show_base b n)" "2 \<le> b" "b \<le> 16"
  then obtain k where "c = digit_char k" "k < 16" using set_show_base [of b n] by auto
  then have "(of_char c :: nat) \<in> {48..57} \<union> {97..102}" by (auto simp: digit_char_code)
  then show ?thesis by (auto simp: of_char_inj [symmetric, of c])
qed

lemma v4_text:
  assumes "\<forall>n \<in> {a, b, c, d}. n < (256 :: nat)"
  shows "read_v4 (show_nat a @ ''.'' @ show_nat b @ ''.'' @ show_nat c @ ''.'' @ show_nat d @ '':'' @ show_nat p)
    = (((a * 256 + b) * 256 + c) * 256 + d, p)"
proof -
  have f: "CHR 0x3A \<notin> set (show_nat n)" "CHR 0x2E \<notin> set (show_nat n)" for n using digits_free [of _ 10 n] by auto
  let ?ip = "show_nat a @ ''.'' @ show_nat b @ ''.'' @ show_nat c @ ''.'' @ show_nat d"
  have "CHR 0x3A \<notin> set ?ip" using f by auto
  from split_on_step [OF this, of "show_nat p"]
  have "split_on (CHR 0x3A) (?ip @ CHR 0x3A # show_nat p) = [?ip, show_nat p]" by (simp add: split_on_last f)
  moreover have "split_on (CHR 0x2E) ?ip = [show_nat a, show_nat b, show_nat c, show_nat d]"
    by (simp add: split_on_step split_on_last f)
  ultimately show ?thesis by (simp add: read_v4_def read_show_base)
qed

text \<open>The loop prints the words before the first run of zeros, and what follows it after a double colon.\<close>

fun join :: "string list \<Rightarrow> string" where
  "join [] = []"
| "join (x # xs) = x @ concat (map (\<lambda>y. CHR 0x3A # y) xs)"

abbreviation hex16 :: "byte_order \<Rightarrow> u16 \<Rightarrow> string" where
  "hex16 host w \<equiv> show_hex (unat (byteswapOnLittleEndian_16 host w))"

lemma v6_loop_used:
  "v6_loop host (Some p) True as = (concat (map (\<lambda>a. CHR 0x3A # hex16 host a) as), True)"
  by (induction as arbitrary: p) auto

lemma v6_loop_after:
  "a \<noteq> 0 \<Longrightarrow> v6_loop host (Some 0) False (a # as) = (''::'' @ join (map (hex16 host) (a # as)), True)"
  by (simp add: v6_loop_used comp_def)

lemma v6_loop_zeros: "k \<noteq> 0 \<Longrightarrow> v6_loop host prev False (replicate k 0 @ as) = v6_loop host (Some 0) False as"
proof (induction k arbitrary: prev)
  case (Suc k)
  then show ?case by (cases "k = 0") simp_all
qed simp

lemma v6_loop_start:
  "0 \<notin> set (p # ps) \<Longrightarrow> v6_loop host (Some p) False (ps @ as) =
     (case v6_loop host (Some (last (p # ps))) False as of
        (t, u) \<Rightarrow> (concat (map (\<lambda>a. CHR 0x3A # hex16 host a) ps) @ t, u))"
  by (induction ps arbitrary: p) (auto split: prod.splits)

lemma v6_loop_prefix:
  assumes "0 \<notin> set ps"
  shows "v6_loop host None False (ps @ as) =
    (case v6_loop host (if ps = [] then None else Some (last ps)) False as of (t, u) \<Rightarrow> (join (map (hex16 host) ps) @ t, u))"
  using assms v6_loop_start [of "hd ps" "tl ps" host as]
  by (cases ps) (auto split: prod.splits simp: comp_def)

lemma zero_run:
  fixes ws :: "u16 list"
  obtains (none) "0 \<notin> set ws"
  | (run) ps k qs where "ws = ps @ replicate k 0 @ qs" "k \<noteq> 0" "0 \<notin> set ps" "qs = [] \<or> hd qs \<noteq> 0"
proof (cases "0 \<in> set ws")
  case True
  define ps rest where "ps = takeWhile (\<lambda>w. w \<noteq> 0) ws" and "rest = dropWhile (\<lambda>w. w \<noteq> 0) ws"
  define qs where "qs = dropWhile (\<lambda>w. w = 0) rest"
  have "rest \<noteq> []" "hd rest = 0" using True hd_dropWhile [of "\<lambda>w. w \<noteq> 0" ws] by (auto simp: rest_def dropWhile_eq_Nil_conv)
  then have "takeWhile (\<lambda>w. w = 0) rest \<noteq> []" by (cases rest) auto
  moreover have "takeWhile (\<lambda>w. w = 0) rest = replicate (length (takeWhile (\<lambda>w. w = 0) rest)) 0"
    by (rule replicate_length_same [symmetric]) (auto dest: set_takeWhileD)
  moreover have "ws = ps @ takeWhile (\<lambda>w. w = 0) rest @ qs" by (simp add: ps_def rest_def qs_def)
  moreover have "0 \<notin> set ps" by (auto simp: ps_def dest: set_takeWhileD)
  moreover have "qs = [] \<or> hd qs \<noteq> 0" using hd_dropWhile [of "\<lambda>w. w = 0" rest] by (auto simp: qs_def)
  ultimately show ?thesis using that(2) by (metis length_0_conv)
qed (use none in blast)

definition v6_text :: "byte_order \<Rightarrow> u16 list \<Rightarrow> string" where
  "v6_text host ws = (case v6_loop host None False ws of
     (text, used_zeros) \<Rightarrow> text @ (if \<not> used_zeros \<and> ws ! 7 = 0 then ''::'' else []))"

lemma v6_text_none: "0 \<notin> set ws \<Longrightarrow> length ws = 8 \<Longrightarrow> v6_text host ws = join (map (hex16 host) ws)"
proof -
  assume ws: "0 \<notin> set ws" "length ws = 8"
  then have "ws ! 7 \<in> set ws" by (intro nth_mem) simp
  with ws have "ws ! 7 \<noteq> 0" by metis
  with ws v6_loop_prefix [of ws host "[]"] show ?thesis by (simp add: v6_text_def)
qed

lemma v6_text_run:
  assumes "k \<noteq> 0" and "0 \<notin> set ps" and "qs = [] \<or> hd qs \<noteq> 0" and "length (ps @ replicate k 0 @ qs) = 8"
  shows "v6_text host (ps @ replicate k 0 @ qs) = join (map (hex16 host) ps) @ ''::'' @ join (map (hex16 host) qs)"
proof (cases qs)
  case Nil
  have "(ps @ replicate k (0 :: u16)) ! 7 = 0" using assms(1,4) Nil by (simp add: nth_append)
  then show ?thesis
    using Nil v6_loop_prefix [OF assms(2), of host "replicate k 0"] v6_loop_zeros [OF assms(1), of host _ "[]"]
    by (simp add: v6_text_def)
next
  case (Cons q qs')
  then have "q \<noteq> 0" using assms(3) by simp
  then show ?thesis
    using Cons v6_loop_prefix [OF assms(2), of host "replicate k 0 @ qs"] v6_loop_zeros [OF assms(1), of host _ qs]
      v6_loop_after [of q host qs'] by (simp add: v6_text_def)
qed

text \<open>Reading it.\<close>

lemma hex_free: "c \<in> set (hex16 host w) \<Longrightarrow> c \<noteq> CHR 0x3A \<and> c \<noteq> CHR 0x5D"
  using digits_free [of c 16] by auto

lemma read_parts_join: "read_parts (join (map (hex16 host) ws)) = map (\<lambda>w. unat (byteswapOnLittleEndian_16 host w)) ws"
proof (cases ws)
  case (Cons w ws')
  have free: "CHR 0x3A \<notin> set (hex16 host w)" for w using hex_free by blast
  have "split_on (CHR 0x3A) (join (map (hex16 host) (w # ws'))) = map (hex16 host) (w # ws')"
    by (induction ws' arbitrary: w) (simp_all add: split_on_last split_on_step free)
  then show ?thesis using Cons by (simp add: read_parts_def read_show_base)
qed (simp add: read_parts_def)

lemma cut_double_skip: "CHR 0x3A \<notin> set x \<Longrightarrow> cut_double (x @ s) = map_option (apfst ((@) x)) (cut_double s)"
proof (induction x)
  case (Cons c x)
  have "cut_double (c # x @ s) = map_option (apfst ((#) c)) (cut_double (x @ s))"
    using Cons.prems by (cases "x @ s") auto
  with Cons show ?case by (simp add: option.map_comp comp_def apfst_compose)
qed (simp add: option.map_ident apfst_def map_prod_def id_def)

lemma cut_double_step: "d \<noteq> CHR 0x3A \<Longrightarrow> cut_double (CHR 0x3A # d # s) = map_option (apfst ((#) (CHR 0x3A))) (cut_double (d # s))"
  by simp

lemma cut_double_concat:
  "cut_double (concat (map (\<lambda>a. CHR 0x3A # hex16 host a) ws) @ s) =
     map_option (apfst ((@) (concat (map (\<lambda>a. CHR 0x3A # hex16 host a) ws)))) (cut_double s)"
proof (induction ws)
  case Nil
  then show ?case by (simp add: option.map_ident apfst_def map_prod_def id_def)
next
  case (Cons w ws)
  have free: "CHR 0x3A \<notin> set (hex16 host w)" using hex_free by blast
  obtain d x where x: "hex16 host w = d # x" by (cases "hex16 host w") auto
  let ?t = "concat (map (\<lambda>a. CHR 0x3A # hex16 host a) ws) @ s"
  have "cut_double (CHR 0x3A # hex16 host w @ ?t) = map_option (apfst ((#) (CHR 0x3A))) (cut_double (hex16 host w @ ?t))"
    using free by (auto simp: x)
  also have "\<dots> = map_option (apfst ((#) (CHR 0x3A))) (map_option (apfst ((@) (hex16 host w))) (cut_double ?t))"
    by (simp only: cut_double_skip [OF free])
  finally show ?case by (simp add: Cons.IH option.map_comp comp_def apfst_compose)
qed

lemma cut_double_join: "cut_double (join (map (hex16 host) ws) @ s) = map_option (apfst ((@) (join (map (hex16 host) ws)))) (cut_double s)"
proof (cases ws)
  case Nil
  then show ?thesis by (simp add: option.map_ident apfst_def map_prod_def id_def)
next
  case (Cons w ws')
  have free: "CHR 0x3A \<notin> set (hex16 host w)" using hex_free by blast
  have app: "(@) (x @ y) = (\<lambda>z. x @ y @ z)" for x y :: string by (simp add: fun_eq_iff)
  show ?thesis
    using cut_double_skip [OF free, of "concat (map (\<lambda>a. CHR 0x3A # hex16 host a) ws') @ s"] cut_double_concat [of host ws' s]
    by (simp add: Cons comp_def option.map_comp apfst_compose app)
qed

lemma read_v6_text:
  assumes "length ws = 8"
  shows "read_groups (v6_text host ws) = map (\<lambda>w. unat (byteswapOnLittleEndian_16 host w)) ws"
proof (cases ws rule: zero_run)
  case none
  have "cut_double (join (map (hex16 host) ws)) = None" using cut_double_join [of host ws "[]"] by simp
  then show ?thesis using none assms by (simp add: v6_text_none read_groups_def read_parts_join)
next
  case (run ps k qs)
  have zero: "byteswapOnLittleEndian_16 host 0 = 0"
    by (cases host) (simp_all add: byteswapOnLittleEndian_16_def bswap_16_def numeral_2_eq_2)
  have "cut_double (join (map (hex16 host) ps) @ ''::'' @ join (map (hex16 host) qs))
      = Some (join (map (hex16 host) ps), join (map (hex16 host) qs))"
    by (subst cut_double_join) simp
  moreover have "8 - length ps - length qs = k" using assms run(1) by simp
  ultimately show ?thesis
    using v6_text_run [OF run(2,3,4)] assms run(1) by (simp add: read_groups_def read_parts_join zero)
qed

lemma v6_insert_text:
  "v6_insert host a = CHR 0x5B # v6_text host (words_of host (sin6_addr a)) @ CHR 0x5D # CHR 0x3A
     # show_nat (unat (byteswapOnLittleEndian_16 host (sin6_port a)))"
  by (simp add: v6_insert_def v6_text_def Let_def split: prod.splits)

lemma v6_text_free: "CHR 0x5D \<notin> set (v6_text host ws)"
proof -
  have "CHR 0x5D \<notin> set (fst (v6_loop host p u ws))" for p u
  proof (induction ws arbitrary: p u)
    case (Cons w ws)
    have "v6_loop host p u ws = (t, v) \<Longrightarrow> CHR 0x5D \<notin> set t" for p u t v using Cons.IH [of p u] by simp
    moreover have "CHR 0x5D \<notin> set (hex16 host w)" using hex_free by blast
    ultimately show ?case using Cons.IH by (auto simp: Let_def split: prod.splits)
  qed simp
  from this [of None False] show ?thesis
    by (cases "v6_loop host None False ws") (simp add: v6_text_def)
qed

text \<open>Words and octets as the bytes spell them.\<close>

fun groups :: "u8 list \<Rightarrow> nat list" where
  "groups (a # b # bs) = (256 * unat a + unat b) # groups bs"
| "groups bs = []"

lemma network_word: "unat (byteswapOnLittleEndian_16 host (mem_word host [a, b])) = 256 * unat a + unat b"
proof -
  define x :: u16 where "x = le_word [b, a]"
  have bytes: "le_bytes 2 x = [b, a]" 
    using le_bytes_le_word [of "[b, a]", where ?'a = 16]
    by (simp add: x_def numeral_2_eq_2 del: le_word.simps le_bytes.simps)
  have "byteswapOnLittleEndian_16 host (mem_word host [a, b]) = x"
    using le_bytes_le_word [of "[a, b]", where ?'a = 16]
    by (cases host) (simp_all add: byteswapOnLittleEndian_16_def mem_word_def bswap_16_def x_def numeral_2_eq_2
        del: le_word.simps le_bytes.simps)
  moreover have "unat x = 256 * unat (ucast (drop_bit 8 x) :: u8) + unat (ucast x :: u8)"
    using low_byte [of x 1] low_byte [of "drop_bit 8 x" 0] unsigned_less [of x, where ?'a = nat] by simp
  moreover have "ucast x = b" "ucast (drop_bit 8 x) = a" using bytes by (simp_all add: numeral_2_eq_2)
  ultimately show ?thesis by simp
qed

lemma groups_words: "map (\<lambda>w. unat (byteswapOnLittleEndian_16 host w)) (words_of host bs) = groups bs"
  by (induction bs rule: groups.induct) (simp_all add: network_word)

lemma octets: "((octet 24 a * 256 + octet 16 a) * 256 + octet 8 a) * 256 + octet 0 a = unat a"
proof -
  have o: "octet sh a = unat a div 2 ^ sh mod 256" for sh
  proof -
    have m: "(0xff :: u32) = mask 8" by (simp add: mask_eq_decr_exp)
    have "octet sh a = take_bit 8 (drop_bit sh (unat a))"
      by (simp only: octet_def m take_bit_eq_mask [symmetric] unsigned_take_bit_eq unat_drop_bit_eq)
    then show ?thesis by (simp add: take_bit_eq_mod drop_bit_eq_div)
  qed
  define n1 n2 n3 where "n1 = unat a div 256" and "n2 = n1 div 256" and "n3 = n2 div 256"
  have "unat a < 2 ^ 32" using unsigned_less [of a, where ?'a = nat] by simp
  then have "n3 < 256" by (simp add: n1_def n2_def n3_def flip: div_mult2_eq)
  moreover have "unat a div 2 ^ 8 = n1" "unat a div 2 ^ 16 = n2" "unat a div 2 ^ 24 = n3"
    by (simp_all add: n1_def n2_def n3_def flip: div_mult2_eq)
  moreover have "unat a = n1 * 256 + unat a mod 256" "n1 = n2 * 256 + n1 mod 256" "n2 = n3 * 256 + n2 mod 256"
    by (simp_all add: n1_def n2_def n3_def)
  ultimately show ?thesis unfolding o by simp
qed

text \<open>
  The text of an address can be read back: for every IPv4 address the four numbers spell
  its value and the number after the colon is its port; for every IPv6 address the groups in
  the brackets, with a double colon standing for the groups that are missing, are its sixteen
  bytes two by two, whichever run of zeros was abbreviated, and the port follows. Both hold
  on a host of either byte order.
\<close>

theorem address_text_round_trip:
  assumes "length (sin6_addr a6) = 16"
  shows "read_v4 (v4_insert host a) = (unat (v4_value host a), unat (v4_getPort host a))
    \<and> read_v6 (v6_insert host a6) = (groups (sin6_addr a6), unat (v6_getPort host a6))"
proof -
  have port: "unat (ucast p :: u32) = unat p" for p :: u16 using unsigned_less [of p, where ?'a = nat] by (simp add: unsigned_ucast_eq take_bit_nat_eq_self)
  have "octet sh w < 256" for sh w
  proof -
    have "and (drop_bit sh w) 0xff \<le> (0xff :: u32)" by (rule word_and_le1)
    then show ?thesis by (simp add: octet_def word_le_nat_alt)
  qed
  then have v4: "read_v4 (v4_insert host a) = (unat (v4_value host a), unat (v4_getPort host a))"
    using octets [of "byteswapOnLittleEndian_32 host (sin_addr a)"]
    by (simp add: v4_insert_def Let_def v4_text [simplified] v4_value_def v4_getPort_def port)
  have "length (words_of host bs) = length bs div 2" for bs
    by (induction host bs rule: words_of.induct) simp_all
  with assms have "length (words_of host (sin6_addr a6)) = 8" by simp
  note printed = read_v6_text [OF this, of host, unfolded groups_words]
  have "CHR 0x5D \<notin> set (CHR 0x5B # v6_text host (words_of host (sin6_addr a6)))" using v6_text_free by simp
  then have "read_v6 (v6_insert host a6) = (groups (sin6_addr a6), unat (v6_getPort host a6))"
    using printed by (simp add: read_v6_def v6_insert_text takeWhile_append dropWhile_append read_show_base v6_getPort_def port)
  with v4 show ?thesis by blast
qed

lemma address_text_round_trip_witness:
  "fst (read_v6 (v6_insert LITTLE_ENDIAN (IPv6Address_new LITTLE_ENDIAN [0x20, 1, 0xd, 0xb8, 0, 0, 0, 0, 0, 0, 0, 0, 0, 0, 0, 1] 80)))
     = [0x2001, 0xdb8, 0, 0, 0, 0, 0, 1]"
proof -
  let ?a = "IPv6Address_new LITTLE_ENDIAN [0x20, 1, 0xd, 0xb8, 0, 0, 0, 0, 0, 0, 0, 0, 0, 0, 0, 1] 80"
  have "length (sin6_addr ?a) = 16" "groups (sin6_addr ?a) = [0x2001, 0xdb8, 0, 0, 0, 0, 0, 1]"
    by (simp_all add: IPv6Address_new_def)
  with address_text_round_trip [of ?a LITTLE_ENDIAN] show ?thesis by simp
qed

end
