(* ===== verification/Config.thy ===== *)
theory Config
  imports StdContainers Strings
begin

text \<open>
  The configuration (config.h, config.cpp): variables with their listeners, the table of
  variables by name, the conversion of containers, and loading from YAML. The YAML library is
  a parameter, its documents are trees; a type is its name together with its conversions.
\<close>

section \<open>YAML\<close>

text \<open>A node by the kind its accessors report; the keys of a map are their scalars.\<close>

datatype yaml = YNull | YScalar string | YSequence "yaml list" | YMap "(string \<times> yaml) list"

text \<open>\<open>YAML::Load\<close> (\<open>None\<close> when it throws), \<open>operator<<\<close> and \<open>node[i]\<close> of a node that is no sequence.\<close>

record yaml_lib =
  yaml_load :: "string \<Rightarrow> yaml option"
  yaml_emit :: "yaml \<Rightarrow> string"
  yaml_other :: "yaml \<Rightarrow> nat \<Rightarrow> yaml"

fun yaml_size :: "yaml \<Rightarrow> nat" where
  "yaml_size (YSequence ns) = length ns"
| "yaml_size (YMap kvs) = length kvs"
| "yaml_size n = 0"

fun yaml_at :: "yaml_lib \<Rightarrow> yaml \<Rightarrow> nat \<Rightarrow> yaml" where
  "yaml_at Y (YSequence ns) i = ns ! i"
| "yaml_at Y n i = yaml_other Y n i"

section \<open>Conversions\<close>

text \<open>A conversion throws \<open>bad_lexical_cast\<close>, which \<open>ConfigVar\<close> catches, or anything else, which it does not.\<close>

datatype cast_exn = bad_lexical_cast | other_exception

type_synonym ('a, 'b) cast = "'a \<Rightarrow> cast_exn + 'b"

fun cast_all :: "('a, 'b) cast \<Rightarrow> 'a list \<Rightarrow> cast_exn + 'b list" where
  "cast_all f [] = Inr []"
| "cast_all f (x # xs) =
     (case f x of Inl e \<Rightarrow> Inl e
      | Inr y \<Rightarrow> (case cast_all f xs of Inl e \<Rightarrow> Inl e | Inr ys \<Rightarrow> Inr (y # ys)))"

lemma cast_all_Inr: "\<forall>x \<in> set xs. f x = Inr (h x) \<Longrightarrow> cast_all f xs = Inr (map h xs)"
  by (induction xs) auto

definition load_node :: "yaml_lib \<Rightarrow> string \<Rightarrow> cast_exn + yaml" where
  "load_node Y s = (case yaml_load Y s of None \<Rightarrow> Inl other_exception | Some n \<Rightarrow> Inr n)"

definition bindC :: "cast_exn + 'a \<Rightarrow> ('a \<Rightarrow> cast_exn + 'b) \<Rightarrow> cast_exn + 'b" where
  "bindC m f = (case m of Inl e \<Rightarrow> Inl e | Inr x \<Rightarrow> f x)"

lemma bindC_simps [simp]: "bindC (Inl e) f = Inl e" "bindC (Inr x) f = f x"
  by (simp_all add: bindC_def)

text \<open>The partial specialisations: vectors and lists, ordered and unordered sets, both maps.\<close>

definition cast_to_vector :: "yaml_lib \<Rightarrow> (string, 'a) cast \<Rightarrow> (string, 'a list) cast" where
  "cast_to_vector Y cast v =
     bindC (load_node Y v) (\<lambda>node. cast_all (\<lambda>i. cast (yaml_emit Y (yaml_at Y node i))) [0..<yaml_size node])"

definition vector_to_string :: "yaml_lib \<Rightarrow> ('a, string) cast \<Rightarrow> ('a list, string) cast" where
  "vector_to_string Y cast v =
     bindC (cast_all (\<lambda>i. bindC (cast i) (load_node Y)) v) (\<lambda>ns. Inr (yaml_emit Y (YSequence ns)))"

definition cast_to_list :: "yaml_lib \<Rightarrow> (string, 'a) cast \<Rightarrow> (string, 'a list) cast" where
  "cast_to_list Y cast v =
     bindC (load_node Y v) (\<lambda>node. cast_all (\<lambda>i. cast (yaml_emit Y (yaml_at Y node i))) [0..<yaml_size node])"

definition list_to_string :: "yaml_lib \<Rightarrow> ('a, string) cast \<Rightarrow> ('a list, string) cast" where
  "list_to_string Y cast v =
     bindC (cast_all (\<lambda>i. bindC (cast i) (load_node Y)) v) (\<lambda>ns. Inr (yaml_emit Y (YSequence ns)))"

definition cast_to_set :: "yaml_lib \<Rightarrow> ('a \<Rightarrow> 'a \<Rightarrow> bool) \<Rightarrow> (string, 'a) cast \<Rightarrow> (string, 'a list) cast" where
  "cast_to_set Y lt cast v =
     bindC (load_node Y v) (\<lambda>node.
       bindC (cast_all (\<lambda>i. cast (yaml_emit Y (yaml_at Y node i))) [0..<yaml_size node]) (\<lambda>xs.
         Inr (fold (sset_insert lt) xs [])))"

definition set_to_string :: "yaml_lib \<Rightarrow> ('a, string) cast \<Rightarrow> ('a list, string) cast" where
  "set_to_string Y cast v =
     bindC (cast_all (\<lambda>i. bindC (cast i) (load_node Y)) v) (\<lambda>ns. Inr (yaml_emit Y (YSequence ns)))"

text \<open>An unordered set is the set itself; \<open>order\<close> is the order its iterator happens to have.\<close>

definition cast_to_unordered_set :: "yaml_lib \<Rightarrow> (string, 'a) cast \<Rightarrow> (string, 'a set) cast" where
  "cast_to_unordered_set Y cast v =
     bindC (load_node Y v) (\<lambda>node.
       bindC (cast_all (\<lambda>i. cast (yaml_emit Y (yaml_at Y node i))) [0..<yaml_size node]) (\<lambda>xs. Inr (set xs)))"

definition unordered_set_to_string :: "yaml_lib \<Rightarrow> ('a set \<Rightarrow> 'a list) \<Rightarrow> ('a, string) cast \<Rightarrow> ('a set, string) cast" where
  "unordered_set_to_string Y order cast v =
     bindC (cast_all (\<lambda>i. bindC (cast i) (load_node Y)) (order v)) (\<lambda>ns. Inr (yaml_emit Y (YSequence ns)))"

text \<open>
  Maps: iterating over a node that is no map meets nothing that has a first and a second part
  but, in a sequence, its elements, whose undefined parts make the conversion throw.
\<close>

fun yaml_pairs :: "yaml \<Rightarrow> cast_exn + (string \<times> yaml) list" where
  "yaml_pairs (YMap kvs) = Inr kvs"
| "yaml_pairs (YSequence ns) = (if ns = [] then Inr [] else Inl other_exception)"
| "yaml_pairs n = Inr []"

text \<open>\<open>insert\<close> keeps the first value of a key.\<close>

definition insert_pair :: "('k \<Rightarrow> 'k \<Rightarrow> bool) \<Rightarrow> 'k \<times> 'a \<Rightarrow> ('k \<times> 'a) list \<Rightarrow> ('k \<times> 'a) list" where
  "insert_pair lt kv m = (if smap_find lt (fst kv) m = None then smap_set lt (fst kv) (snd kv) m else m)"

definition cast_pairs :: "yaml_lib \<Rightarrow> (string, 'a) cast \<Rightarrow> string \<Rightarrow> cast_exn + (string \<times> 'a) list" where
  "cast_pairs Y cast v =
     bindC (load_node Y v) (\<lambda>node. bindC (yaml_pairs node) (\<lambda>kvs.
       cast_all (\<lambda>(k, n). bindC (cast (yaml_emit Y n)) (\<lambda>x. Inr (k, x))) kvs))"

definition str_less :: "string \<Rightarrow> string \<Rightarrow> bool" where
  "str_less s t = ord_class.lexordp (map of_char s) (map (of_char :: char \<Rightarrow> nat) t)"

definition cast_to_map :: "yaml_lib \<Rightarrow> (string, 'a) cast \<Rightarrow> (string, (string \<times> 'a) list) cast" where
  "cast_to_map Y cast v = bindC (cast_pairs Y cast v) (\<lambda>kvs. Inr (fold (insert_pair str_less) kvs []))"

text \<open>\<open>node[key] = value\<close> appends a key that is new, and the keys of a map are.\<close>

definition map_to_string :: "yaml_lib \<Rightarrow> ('a, string) cast \<Rightarrow> ((string \<times> 'a) list, string) cast" where
  "map_to_string Y cast v =
     bindC (cast_all (\<lambda>(k, x). bindC (cast x) (\<lambda>s. bindC (load_node Y s) (\<lambda>n. Inr (k, n)))) v)
       (\<lambda>kvs. Inr (yaml_emit Y (YMap kvs)))"

definition cast_to_unordered_map :: "yaml_lib \<Rightarrow> (string, 'a) cast \<Rightarrow> (string, string \<rightharpoonup> 'a) cast" where
  "cast_to_unordered_map Y cast v =
     bindC (cast_pairs Y cast v) (\<lambda>kvs. Inr (fold (\<lambda>(k, x) m. if m k = None then m(k \<mapsto> x) else m) kvs Map.empty))"

definition unordered_map_to_string ::
  "yaml_lib \<Rightarrow> ((string \<rightharpoonup> 'a) \<Rightarrow> (string \<times> 'a) list) \<Rightarrow> ('a, string) cast \<Rightarrow> (string \<rightharpoonup> 'a, string) cast" where
  "unordered_map_to_string Y order cast v =
     bindC (cast_all (\<lambda>(k, x). bindC (cast x) (\<lambda>s. bindC (load_node Y s) (\<lambda>n. Inr (k, n)))) (order v))
       (\<lambda>kvs. Inr (yaml_emit Y (YMap kvs)))"

section \<open>Variables\<close>

text \<open>A variable of any type: its values are in one type \<open>'v\<close>, its class is \<open>cv_type\<close>.\<close>

record ('v, 'cb) config_var =
  cv_name :: string
  cv_description :: string
  cv_type :: string
  cv_val :: 'v
  cv_cbs :: "(u32 \<times> 'cb) list"

text \<open>The calls a change makes: the listener's key, the listener, the old and the new value.\<close>

type_synonym ('v, 'cb) notice = "u32 \<times> 'cb \<times> 'v \<times> 'v"

record 'v value_type =
  vt_from :: "(string, 'v) cast"
  vt_to :: "('v, string) cast"

definition tolower :: "char \<Rightarrow> char" where
  "tolower c = char_of (lower c)"

definition ConfigVar_new :: "string \<Rightarrow> string \<Rightarrow> 'v \<Rightarrow> string \<Rightarrow> ('v, 'cb) config_var" where
  "ConfigVar_new type name default_value description =
     \<lparr>cv_name = map tolower name, cv_description = description, cv_type = type, cv_val = default_value, cv_cbs = []\<rparr>"

definition cv_toString :: "(string \<Rightarrow> 'v value_type) \<Rightarrow> ('v, 'cb) config_var \<Rightarrow> cast_exn + string" where
  "cv_toString types var =
     (case vt_to (types (cv_type var)) (cv_val var) of Inl bad_lexical_cast \<Rightarrow> Inr [] | r \<Rightarrow> r)"

definition setValue :: "'v \<Rightarrow> ('v, 'cb) config_var \<Rightarrow> ('v, 'cb) config_var \<times> ('v, 'cb) notice list" where
  "setValue v var =
     (if cv_val var = v then (var, [])
      else (var\<lparr>cv_val := v\<rparr>, map (\<lambda>(key, cb). (key, cb, cv_val var, v)) (cv_cbs var)))"

definition fromString ::
  "(string \<Rightarrow> 'v value_type) \<Rightarrow> string \<Rightarrow> ('v, 'cb) config_var
    \<Rightarrow> cast_exn + bool \<times> ('v, 'cb) config_var \<times> ('v, 'cb) notice list" where
  "fromString types val var =
     (case vt_from (types (cv_type var)) val of
        Inl bad_lexical_cast \<Rightarrow> Inr (False, var, [])
      | Inl e \<Rightarrow> Inl e
      | Inr v \<Rightarrow> Inr (True, setValue v var))"

text \<open>\<open>key\<close> is one counter for all variables of a type.\<close>

definition addListener :: "'cb \<Rightarrow> u32 \<Rightarrow> ('v, 'cb) config_var \<Rightarrow> u32 \<times> ('v, 'cb) config_var" where
  "addListener cb key var = (key + 1, var\<lparr>cv_cbs := smap_set (<) (key + 1) cb (cv_cbs var)\<rparr>)"

definition deleteListener :: "u32 \<Rightarrow> ('v, 'cb) config_var \<Rightarrow> ('v, 'cb) config_var" where
  "deleteListener key var = var\<lparr>cv_cbs := smap_erase (<) key (cv_cbs var)\<rparr>"

definition clearListener :: "('v, 'cb) config_var \<Rightarrow> ('v, 'cb) config_var" where
  "clearListener var = var\<lparr>cv_cbs := []\<rparr>"

text \<open>The key is looked up in 32 bits.\<close>

definition getListener :: "u64 \<Rightarrow> ('v, 'cb) config_var \<Rightarrow> 'cb option" where
  "getListener key var = smap_find (<) (ucast key) (cv_cbs var)"

section \<open>The table\<close>

type_synonym ('v, 'cb) table = "(string \<times> ('v, 'cb) config_var) list"

definition name_chars :: string where
  "name_chars = ''abcdefghijklmnopqrstuvwxyz._0123456789''"

definition valid_name :: "string \<Rightarrow> bool" where
  "valid_name name = list_all (\<lambda>c. c \<in> set name_chars) name"

text \<open>The pointer to a variable is its key: entries are never removed or replaced.\<close>

definition Config_Lookup_create ::
  "string \<Rightarrow> string \<Rightarrow> 'v \<Rightarrow> string \<Rightarrow> ('v, 'cb) table \<Rightarrow> (string option \<times> ('v, 'cb) table) res" where
  "Config_Lookup_create type name default_value description datas =
     (let tmp_name = map tolower name in
      case smap_find str_less tmp_name datas of
        Some var \<Rightarrow> Inr (if cv_type var = type then Some tmp_name else None, datas)
      | None \<Rightarrow>
          (if \<not> valid_name name then Inl InvalidArgument
           else Inr (Some tmp_name, smap_set str_less tmp_name (ConfigVar_new type tmp_name default_value description) datas)))"

definition Config_Lookup :: "string \<Rightarrow> string \<Rightarrow> ('v, 'cb) table \<Rightarrow> string option" where
  "Config_Lookup type name datas =
     (let tmp_name = map tolower name in
      case smap_find str_less tmp_name datas of
        None \<Rightarrow> None
      | Some var \<Rightarrow> if cv_type var = type then Some tmp_name else None)"

definition LookupBase :: "string \<Rightarrow> ('v, 'cb) table \<Rightarrow> ('v, 'cb) config_var option" where
  "LookupBase name datas = smap_find str_less name datas"

definition Config_Visit :: "(('v, 'cb) config_var \<Rightarrow> 'a) \<Rightarrow> ('v, 'cb) table \<Rightarrow> 'a list" where
  "Config_Visit cb datas = map (cb \<circ> snd) datas"

section \<open>Loading\<close>

text \<open>Every node with its path, parents first; a path with a character outside the set ends the descent.\<close>

function ListAllMember :: "string \<Rightarrow> yaml \<Rightarrow> (string \<times> yaml) list" where
  "ListAllMember prefix node =
     (if \<not> valid_name prefix then []
      else (prefix, node) #
        (case node of
           YMap kvs \<Rightarrow> concat (map (\<lambda>(k, n). ListAllMember (if prefix = [] then k else prefix @ ''.'' @ k) n) kvs)
         | YSequence ns \<Rightarrow> concat (map (\<lambda>i. ListAllMember (prefix @ ''.'' @ show_nat i) (ns ! i)) [0..<length ns])
         | _ \<Rightarrow> []))"
  by pat_completeness auto
termination
proof (relation "measure (size \<circ> snd)", simp, goal_cases)
  case (1 prefix node ns i)
  then have "size (ns ! i) \<le> size_list size ns" by (intro size_list_estimation' [OF nth_mem]) auto
  with 1 show ?case by simp
next
  case (2 prefix node kvs kv k n)
  have "(k, n) \<in> set kvs \<Longrightarrow> size n < size_list (size_prod (\<lambda>x. 0) size) kvs"
    by (induction kvs) auto
  with 2 show ?case by simp
qed

declare ListAllMember.simps [simp del]

text \<open>The variables' notices with the name of the variable, in the order of the calls.\<close>

type_synonym ('v, 'cb) journal = "(string \<times> ('v, 'cb) notice) list"

definition update_var ::
  "string \<Rightarrow> ('v, 'cb) config_var \<times> ('v, 'cb) notice list \<Rightarrow> ('v, 'cb) table \<times> ('v, 'cb) journal \<Rightarrow> ('v, 'cb) table \<times> ('v, 'cb) journal" where
  "update_var name change st = (smap_set str_less name (fst change) (fst st), snd st @ map (Pair name) (snd change))"

definition node_text :: "yaml_lib \<Rightarrow> yaml \<Rightarrow> string" where
  "node_text Y n = (case n of YScalar s \<Rightarrow> s | _ \<Rightarrow> yaml_emit Y n)"

text \<open>The loop over the listed nodes; an exception a variable does not catch ends it, the changes so far stay.\<close>

fun load_loop ::
  "yaml_lib \<Rightarrow> (string \<Rightarrow> 'v value_type) \<Rightarrow> (string \<times> yaml) list \<Rightarrow> ('v, 'cb) table \<times> ('v, 'cb) journal
    \<Rightarrow> bool \<times> ('v, 'cb) table \<times> ('v, 'cb) journal" where
  "load_loop Y types [] st = (True, st)"
| "load_loop Y types (i # is) st =
     (if fst i = [] then load_loop Y types is st
      else let key = map tolower (fst i) in
        case LookupBase key (fst st) of
          None \<Rightarrow> load_loop Y types is st
        | Some var \<Rightarrow>
            (case fromString types (node_text Y (snd i)) var of
               Inl e \<Rightarrow> (False, st)
             | Inr (ok, change) \<Rightarrow> load_loop Y types is (update_var key change st)))"

definition LoadFromYaml ::
  "yaml_lib \<Rightarrow> (string \<Rightarrow> 'v value_type) \<Rightarrow> yaml \<Rightarrow> ('v, 'cb) table \<times> ('v, 'cb) journal
    \<Rightarrow> bool \<times> ('v, 'cb) table \<times> ('v, 'cb) journal" where
  "LoadFromYaml Y types root st = load_loop Y types (ListAllMember [] root) st"

text \<open>
  \<open>LoadFromConfDir\<close> over the files found, with their times: a file is recorded before it is
  loaded, and a time of 0 is what an unknown file has. \<open>YAML::LoadFile\<close> may throw.
\<close>

fun conf_dir_loop ::
  "yaml_lib \<Rightarrow> (string \<Rightarrow> 'v value_type) \<Rightarrow> (string \<Rightarrow> yaml option) \<Rightarrow> bool \<Rightarrow> (string \<times> u64) list
    \<Rightarrow> (string \<Rightarrow> u64) \<Rightarrow> ('v, 'cb) table \<times> ('v, 'cb) journal
    \<Rightarrow> (string \<Rightarrow> u64) \<times> ('v, 'cb) table \<times> ('v, 'cb) journal" where
  "conf_dir_loop Y types load_file force [] mtimes st = (mtimes, st)"
| "conf_dir_loop Y types load_file force (i # is) mtimes st =
     (if \<not> force \<and> mtimes (fst i) = snd i then conf_dir_loop Y types load_file force is mtimes st
      else conf_dir_loop Y types load_file force is (mtimes(fst i := snd i))
             (case load_file (fst i) of None \<Rightarrow> st | Some root \<Rightarrow> snd (LoadFromYaml Y types root st)))"

definition LoadFromConfDir ::
  "yaml_lib \<Rightarrow> (string \<Rightarrow> 'v value_type) \<Rightarrow> (string \<Rightarrow> yaml option) \<Rightarrow> (string \<Rightarrow> (string \<times> u64) list) \<Rightarrow> (string \<Rightarrow> string)
    \<Rightarrow> string \<Rightarrow> bool \<Rightarrow> (string \<Rightarrow> u64) \<Rightarrow> ('v, 'cb) table \<times> ('v, 'cb) journal
    \<Rightarrow> (string \<Rightarrow> u64) \<times> ('v, 'cb) table \<times> ('v, 'cb) journal" where
  "LoadFromConfDir Y types load_file list_files absolute path force mtimes st =
     conf_dir_loop Y types load_file force (list_files (absolute path)) mtimes st"

end
