(* ===== verification/Config_Props.thy ===== *)
theory Config_Props
  imports Config
begin

text \<open>
  What the configuration promises in any sequence of its operations: a name keeps its variable
  and its type, listeners see every change in order, loading a document sets exactly the
  variables it names, and containers survive their text.
\<close>

section \<open>Keys\<close>

lemma map_of_char_inj: "map (of_char :: char \<Rightarrow> nat) s = map of_char t \<longleftrightarrow> s = t"
  using inj_map_eq_map [of "of_char :: char \<Rightarrow> nat" s t] by (simp add: inj_def of_char_inj)

interpretation keys: comparator str_less
proof (unfold_locales, goal_cases)
  case (1 x)
  show ?case by (simp add: str_less_def lexordp_irreflexive')
next
  case (2 x y z)
  then show ?case unfolding str_less_def by (rule lexordp_trans)
next
  case (3 x y z)
  then show ?case unfolding str_less_def by (metis lexordp_linear lexordp_trans)
qed

lemma keys_equiv: "keys.equiv s t \<longleftrightarrow> s = t"
  using lexordp_linear [of "map (of_char :: char \<Rightarrow> nat) s" "map of_char t"]
  by (auto simp: keys.equiv_def str_less_def lexordp_irreflexive' map_of_char_inj)

interpretation ids: comparator "(<) :: u32 \<Rightarrow> u32 \<Rightarrow> bool"
  by unfold_locales auto

lemma LookupBase_set: "LookupBase n (smap_set str_less k v d) = (if k = n then Some v else LookupBase n d)"
  by (simp add: LookupBase_def keys.smap_find_set keys_equiv)

section \<open>Operations\<close>

datatype ('v, 'cb) cfg_op =
    Op_Lookup string string 'v string
  | Op_set string 'v
  | Op_fromString string string
  | Op_listen string 'cb
  | Op_unlisten string u32
  | Op_clear string
  | Op_load yaml

record ('v, 'cb) cfg_state =
  cs_table :: "('v, 'cb) table"
  cs_journal :: "('v, 'cb) journal"
  cs_keys :: "string \<Rightarrow> u32"

definition on_var :: "string \<Rightarrow> (('v, 'cb) config_var \<Rightarrow> ('v, 'cb) config_var \<times> ('v, 'cb) notice list)
    \<Rightarrow> ('v, 'cb) cfg_state \<Rightarrow> ('v, 'cb) cfg_state" where
  "on_var n f st =
     (case LookupBase n (cs_table st) of
        None \<Rightarrow> st
      | Some var \<Rightarrow> (case update_var n (f var) (cs_table st, cs_journal st) of
                      (d, j) \<Rightarrow> st\<lparr>cs_table := d, cs_journal := j\<rparr>))"

text \<open>A call through the pointer to the variable \<open>n\<close>, or on the table; what throws changes nothing more.\<close>

fun cfg_exec :: "yaml_lib \<Rightarrow> (string \<Rightarrow> 'v value_type) \<Rightarrow> ('v, 'cb) cfg_op \<Rightarrow> ('v, 'cb) cfg_state \<Rightarrow> ('v, 'cb) cfg_state" where
  "cfg_exec Y types (Op_Lookup ty n v desc) st =
     (case Config_Lookup_create ty n v desc (cs_table st) of Inl e \<Rightarrow> st | Inr (p, d) \<Rightarrow> st\<lparr>cs_table := d\<rparr>)"
| "cfg_exec Y types (Op_set n v) st = on_var n (setValue v) st"
| "cfg_exec Y types (Op_fromString n s) st =
     on_var n (\<lambda>var. case fromString types s var of Inl e \<Rightarrow> (var, []) | Inr (ok, change) \<Rightarrow> change) st"
| "cfg_exec Y types (Op_listen n cb) st =
     (case LookupBase n (cs_table st) of
        None \<Rightarrow> st
      | Some var \<Rightarrow> (case addListener cb (cs_keys st (cv_type var)) var of
                      (key, var') \<Rightarrow> (on_var n (\<lambda>_. (var', [])) st)\<lparr>cs_keys := (cs_keys st)(cv_type var := key)\<rparr>))"
| "cfg_exec Y types (Op_unlisten n key) st = on_var n (\<lambda>var. (deleteListener key var, [])) st"
| "cfg_exec Y types (Op_clear n) st = on_var n (\<lambda>var. (clearListener var, [])) st"
| "cfg_exec Y types (Op_load root) st =
     (case LoadFromYaml Y types root (cs_table st, cs_journal st) of (ok, d, j) \<Rightarrow> st\<lparr>cs_table := d, cs_journal := j\<rparr>)"

definition cfg_init :: "('v, 'cb) cfg_state" where
  "cfg_init = \<lparr>cs_table = [], cs_journal = [], cs_keys = (\<lambda>_. 0)\<rparr>"

definition cfg_run :: "yaml_lib \<Rightarrow> (string \<Rightarrow> 'v value_type) \<Rightarrow> ('v, 'cb) cfg_op list \<Rightarrow> ('v, 'cb) cfg_state \<Rightarrow> ('v, 'cb) cfg_state" where
  "cfg_run Y types ops st = fold (cfg_exec Y types) ops st"

lemma cfg_run_simps [simp]:
  "cfg_run Y types [] st = st" "cfg_run Y types (op # ops) st = cfg_run Y types ops (cfg_exec Y types op st)"
  "cfg_run Y types (ops @ ops') st = cfg_run Y types ops' (cfg_run Y types ops st)"
  by (simp_all add: cfg_run_def)

section \<open>How a variable evolves\<close>

text \<open>The changes a listener was told of, and what it is for them to be all there were.\<close>

fun told :: "string \<Rightarrow> u32 \<Rightarrow> ('v, 'cb) journal \<Rightarrow> ('v \<times> 'v) list" where
  "told n key [] = []"
| "told n key ((m, k, cb, old, new) # j) = (if m = n \<and> k = key then (old, new) # told n key j else told n key j)"

fun chain :: "'v \<Rightarrow> ('v \<times> 'v) list \<Rightarrow> 'v \<Rightarrow> bool" where
  "chain v [] w \<longleftrightarrow> v = w"
| "chain v ((old, new) # es) w \<longleftrightarrow> v = old \<and> old \<noteq> new \<and> chain new es w"

lemma chain_append: "chain v es x \<Longrightarrow> chain x fs w \<Longrightarrow> chain v (es @ fs) w"
  by (induction v es x rule: chain.induct) auto

lemma told_append [simp]: "told n key (j @ j') = told n key j @ told n key j'"
  by (induction n key j rule: told.induct) auto

lemma told_other: "m \<noteq> n \<Longrightarrow> told n key (map (Pair m) es) = []"
  by (induction es) auto

definition listeners_ok :: "('v, 'cb) config_var \<Rightarrow> bool" where
  "listeners_ok var \<longleftrightarrow> sorted_wrt (<) (map fst (cv_cbs var))"

definition same_var :: "('v, 'cb) config_var \<Rightarrow> ('v, 'cb) config_var \<Rightarrow> bool" where
  "same_var var var' \<longleftrightarrow> cv_type var' = cv_type var \<and> cv_name var' = cv_name var \<and> (listeners_ok var \<longrightarrow> listeners_ok var')"

text \<open>From one variable to another by changes that all of its listeners were told of.\<close>

definition evolves :: "string \<Rightarrow> ('v, 'cb) config_var \<Rightarrow> ('v, 'cb) config_var \<Rightarrow> ('v, 'cb) journal \<Rightarrow> bool" where
  "evolves n var var' j \<longleftrightarrow> same_var var var' \<and> cv_cbs var' = cv_cbs var \<and>
     (listeners_ok var \<longrightarrow> (\<forall>key \<in> fst ` set (cv_cbs var). chain (cv_val var) (told n key j) (cv_val var')))"

lemma evolves_refl: "evolves n var var []"
  by (simp add: evolves_def same_var_def)

lemma evolves_trans: "evolves n var var1 j \<Longrightarrow> evolves n var1 var2 j' \<Longrightarrow> evolves n var var2 (j @ j')"
  by (auto simp: evolves_def same_var_def listeners_ok_def intro: chain_append)

lemma evolves_quiet: "evolves n var var' j \<Longrightarrow> \<forall>key. told n key j' = [] \<Longrightarrow> evolves n var var' (j @ j')"
  by (simp add: evolves_def)

lemma told_own:
  "distinct (map fst cbs) \<Longrightarrow> key \<in> fst ` set cbs \<Longrightarrow>
   told n key (map (Pair n) (map (\<lambda>(key, cb). (key, cb, old, new)) cbs)) = [(old, new)]"
proof (induction cbs)
  case (Cons c cbs)
  have "told n key (map (Pair n) (map (\<lambda>(key, cb). (key, cb, old, new)) cbs)) = []" if "key \<notin> fst ` set cbs" for cbs :: "(u32 \<times> 'a) list"
    using that by (induction cbs) auto
  with Cons show ?case by (cases c) auto
qed simp

lemma sorted_distinct: "sorted_wrt (<) (xs :: u32 list) \<Longrightarrow> distinct xs"
  by (induction xs) auto

lemma setValue_evolves:
  assumes "setValue v var = (var', es)"
  shows "evolves n var var' (map (Pair n) es)"
proof (cases "cv_val var = v")
  case True
  with assms show ?thesis by (simp add: setValue_def evolves_refl)
next
  case False
  then have var': "var' = var\<lparr>cv_val := v\<rparr>" "es = map (\<lambda>(key, cb). (key, cb, cv_val var, v)) (cv_cbs var)"
    using assms by (simp_all add: setValue_def)
  have "told n key (map (Pair n) es) = [(cv_val var, v)]" if "listeners_ok var" "key \<in> fst ` set (cv_cbs var)" for key
    unfolding var' by (rule told_own [OF _ that(2)]) (use that(1) in \<open>simp add: listeners_ok_def sorted_distinct\<close>)
  with False show ?thesis by (simp add: evolves_def same_var_def listeners_ok_def var'(1))
qed

lemma fromString_evolves: "fromString types s var = Inr (ok, var', es) \<Longrightarrow> evolves n var var' (map (Pair n) es)"
  by (auto simp: fromString_def evolves_refl setValue_evolves split: sum.splits cast_exn.splits)

text \<open>Every variable of one table in another: \<open>evolves\<close> for those in \<open>N\<close>, the same variable for the rest.\<close>

definition steps :: "string set \<Rightarrow> ('v, 'cb) table \<Rightarrow> ('v, 'cb) table \<Rightarrow> ('v, 'cb) journal \<Rightarrow> bool" where
  "steps N d d' j \<longleftrightarrow> (\<forall>n var. LookupBase n d = Some var \<longrightarrow>
     (\<exists>var'. LookupBase n d' = Some var' \<and> same_var var var' \<and> (n \<in> N \<longrightarrow> evolves n var var' j)))"

lemma steps_refl: "steps N d d []"
  by (simp add: steps_def evolves_refl same_var_def)

lemma same_var_trans: "same_var v v1 \<Longrightarrow> same_var v1 v2 \<Longrightarrow> same_var v v2"
  by (simp add: same_var_def)

lemma steps_trans:
  assumes "steps N d d1 j" and "steps N d1 d2 j'"
  shows "steps N d d2 (j @ j')"
  unfolding steps_def
proof (intro allI impI)
  fix n var assume "LookupBase n d = Some var"
  with assms(1) obtain v1 where v1: "LookupBase n d1 = Some v1" "same_var var v1" "n \<in> N \<longrightarrow> evolves n var v1 j"
    unfolding steps_def by blast
  with assms(2) obtain v2 where "LookupBase n d2 = Some v2" "same_var v1 v2" "n \<in> N \<longrightarrow> evolves n v1 v2 j'"
    unfolding steps_def by blast
  with v1 show "\<exists>var'. LookupBase n d2 = Some var' \<and> same_var var var' \<and> (n \<in> N \<longrightarrow> evolves n var var' (j @ j'))"
    using same_var_trans evolves_trans by blast
qed

lemma steps_update:
  assumes "LookupBase n d = Some var" and "same_var var var'" and "n \<in> N \<longrightarrow> evolves n var var' (map (Pair n) es)"
  shows "steps N d (smap_set str_less n var' d) (map (Pair n) es)"
proof -
  have "evolves m v v (map (Pair n) es)" if "m \<noteq> n" for m v
    using evolves_quiet [OF evolves_refl, of m "map (Pair n) es" v] told_other [of n m _ es] that by auto
  moreover have "same_var v v" for v :: "('a, 'b) config_var" by (simp add: same_var_def)
  ultimately show ?thesis using assms by (auto simp: steps_def LookupBase_set)
qed

lemma evolves_same: "evolves n var var' j \<Longrightarrow> same_var var var'"
  by (simp add: evolves_def)

lemma load_loop_steps:
  "load_loop Y types is st = (ok, st') \<Longrightarrow> \<exists>js. snd st' = snd st @ js \<and> steps N (fst st) (fst st') js"
proof (induction Y types "is" st rule: load_loop.induct)
  case (1 Y types st)
  then show ?case by (auto simp: steps_refl)
next
  case (2 Y types i "is" st)
  let ?key = "map tolower (fst i)"
  show ?case
  proof (cases "fst i = [] \<or> LookupBase ?key (fst st) = None")
    case True
    then have "load_loop Y types is st = (ok, st')" using 2(4) by (auto simp: Let_def split: if_splits)
    with 2(1,2) True show ?thesis by auto
  next
    case False
    then obtain var where var: "LookupBase ?key (fst st) = Some var" by auto
    show ?thesis
    proof (cases "fromString types (node_text Y (snd i)) var")
      case (Inl e)
      with 2(4) False var show ?thesis by (auto simp: Let_def steps_refl)
    next
      case (Inr r)
      then obtain ok' var' es where r: "fromString types (node_text Y (snd i)) var = Inr (ok', var', es)" by (cases r) auto
      note ev = fromString_evolves [OF r, of ?key]
      have s1: "steps N (fst st) (smap_set str_less ?key var' (fst st)) (map (Pair ?key) es)"
        using steps_update [OF var evolves_same [OF ev]] ev by blast
      have "load_loop Y types is (update_var ?key (var', es) st) = (ok, st')"
        using 2(4) False var r by (simp add: Let_def)
      from 2(3) [OF _ refl var r refl this] False obtain js where
        "snd st' = snd (update_var ?key (var', es) st) @ js" "steps N (fst (update_var ?key (var', es) st)) (fst st') js" by auto
      with steps_trans [OF s1] show ?thesis by (auto simp: update_var_def)
    qed
  qed
qed

section \<open>Runs\<close>

text \<open>Operations that change who listens to a variable.\<close>

fun rewires :: "string \<Rightarrow> ('v, 'cb) cfg_op \<Rightarrow> bool" where
  "rewires n (Op_listen m cb) = (m = n)"
| "rewires n (Op_unlisten m key) = (m = n)"
| "rewires n (Op_clear m) = (m = n)"
| "rewires n op = False"

definition table_ok :: "('v, 'cb) table \<Rightarrow> bool" where
  "table_ok d \<longleftrightarrow> (\<forall>n var. LookupBase n d = Some var \<longrightarrow> cv_name var = n \<and> map tolower n = n \<and> valid_name n \<and> listeners_ok var)"

lemma tolower_name_chars: "c \<in> set name_chars \<Longrightarrow> tolower c = c"
proof -
  have "\<forall>c \<in> set name_chars. \<not> (65 \<le> (of_char c :: nat) \<and> (of_char c :: nat) \<le> 90)" by (simp add: name_chars_def)
  then show "c \<in> set name_chars \<Longrightarrow> tolower c = c" unfolding tolower_def lower_def Let_def by (metis char_of_char)
qed

lemma tolower_valid: "valid_name n \<Longrightarrow> map tolower n = n"
  by (induction n) (simp_all add: valid_name_def tolower_name_chars)

lemma table_ok_steps:
  assumes "table_ok d" and "steps N d d' j" and "\<forall>n. LookupBase n d = None \<longrightarrow> LookupBase n d' = None"
  shows "table_ok d'"
  unfolding table_ok_def
proof (intro allI impI)
  fix n var' assume var': "LookupBase n d' = Some var'"
  with assms(3) obtain var where var: "LookupBase n d = Some var" by fastforce
  with assms(2) var' have "same_var var var'" unfolding steps_def by fastforce
  with assms(1) var show "cv_name var' = n \<and> map tolower n = n \<and> valid_name n \<and> listeners_ok var'"
    by (auto simp: table_ok_def same_var_def)
qed

lemma on_var_steps:
  assumes "\<And>var. LookupBase n (cs_table st) = Some var \<Longrightarrow> same_var var (fst (f var))"
    and "\<And>var. LookupBase n (cs_table st) = Some var \<Longrightarrow> n \<in> N \<Longrightarrow> evolves n var (fst (f var)) (map (Pair n) (snd (f var)))"
  shows "\<exists>js. cs_journal (on_var n f st) = cs_journal st @ js \<and> steps N (cs_table st) (cs_table (on_var n f st)) js
    \<and> (\<forall>m. LookupBase m (cs_table (on_var n f st)) = None \<longleftrightarrow> LookupBase m (cs_table st) = None)"
proof (cases "LookupBase n (cs_table st)")
  case None
  then show ?thesis by (auto simp: on_var_def steps_refl)
next
  case (Some var)
  note steps_update [OF Some assms(1) [OF Some], of N "snd (f var)"] assms(2) [OF Some]
  with Some show ?thesis by (auto simp: on_var_def update_var_def LookupBase_set)
qed

lemma addListener_same: "same_var var (snd (addListener cb k var))"
  using ids.smap_set_sorted by (auto simp: same_var_def addListener_def listeners_ok_def)

lemma deleteListener_same: "same_var var (deleteListener k var)"
  using ids.smap_erase_sorted by (auto simp: same_var_def deleteListener_def listeners_ok_def)

lemma load_loop_names:
  "load_loop Y types is st = (ok, st') \<Longrightarrow> LookupBase n (fst st') = None \<longleftrightarrow> LookupBase n (fst st) = None"
proof (induction Y types "is" st rule: load_loop.induct)
  case (2 Y types i "is" st)
  let ?key = "map tolower (fst i)"
  show ?case
  proof (cases "fst i = [] \<or> LookupBase ?key (fst st) = None")
    case True
    then have "load_loop Y types is st = (ok, st')" using 2(4) by (auto simp: Let_def split: if_splits)
    with 2(1,2) True show ?thesis by auto
  next
    case False
    then obtain var where var: "LookupBase ?key (fst st) = Some var" by auto
    show ?thesis
    proof (cases "fromString types (node_text Y (snd i)) var")
      case (Inr r)
      then obtain ok' change where r: "fromString types (node_text Y (snd i)) var = Inr (ok', change)" by (cases r) auto
      with 2(4) False var have l: "load_loop Y types is (update_var ?key change st) = (ok, st')"
        by (simp add: Let_def)
      have "LookupBase n (fst (update_var ?key change st)) = None \<longleftrightarrow> LookupBase n (fst st) = None"
        using var by (auto simp: update_var_def LookupBase_set)
      with 2(3) [OF _ refl var r refl l] False show ?thesis by simp
    qed (use 2(4) False var in \<open>simp add: Let_def\<close>)
  qed
qed simp

text \<open>One operation: the journal grows, variables stay, and every listener of a variable that is not rewired is told.\<close>

lemma cfg_exec_steps:
  assumes "table_ok (cs_table st)"
  shows "\<exists>js. cs_journal (cfg_exec Y types op st) = cs_journal st @ js
    \<and> steps {n. \<not> rewires n op} (cs_table st) (cs_table (cfg_exec Y types op st)) js \<and> table_ok (cs_table (cfg_exec Y types op st))"
proof -
  have via: ?thesis if "\<exists>js. cs_journal (cfg_exec Y types op st) = cs_journal st @ js
    \<and> steps {n. \<not> rewires n op} (cs_table st) (cs_table (cfg_exec Y types op st)) js
    \<and> (\<forall>m. LookupBase m (cs_table (cfg_exec Y types op st)) = None \<longleftrightarrow> LookupBase m (cs_table st) = None)"
    using that table_ok_steps [OF assms] by blast
  show ?thesis
  proof (cases op)
    case (Op_Lookup ty n v desc)
    let ?n = "map tolower n"
    show ?thesis
    proof (cases "LookupBase ?n (cs_table st) = None \<and> valid_name n")
      case True
      then have d: "cs_table (cfg_exec Y types op st) = smap_set str_less ?n (ConfigVar_new ty ?n v desc) (cs_table st)"
        "cs_journal (cfg_exec Y types op st) = cs_journal st"
        by (simp_all add: Op_Lookup Config_Lookup_create_def LookupBase_def Let_def)
      have "?n = n" using tolower_valid True by simp
      then have "table_ok (cs_table (cfg_exec Y types op st))"
        using assms True unfolding d table_ok_def LookupBase_set
        by (auto simp: ConfigVar_new_def listeners_ok_def simp del: map_map)
      moreover have "steps {n. \<not> rewires n op} (cs_table st) (cs_table (cfg_exec Y types op st)) []"
        using steps_refl [of UNIV "cs_table st"] True unfolding d steps_def LookupBase_set by auto
      ultimately show ?thesis using d(2) by auto
    next
      case False
      then have "cfg_exec Y types op st = st"
        by (auto simp: Op_Lookup Config_Lookup_create_def LookupBase_def Let_def split: option.splits)
      then show ?thesis using assms steps_refl by fastforce
    qed
  next
    case (Op_set n v)
    show ?thesis
      by (rule via) (use on_var_steps [of n st "setValue v" "{n. \<not> rewires n op}"] setValue_evolves [of v _ _ _ n] evolves_same
        in \<open>fastforce simp: Op_set prod_eq_iff\<close>)
  next
    case (Op_fromString n s)
    let ?f = "\<lambda>var. case fromString types s var of Inl e \<Rightarrow> (var, []) | Inr (ok, change) \<Rightarrow> change"
    have ev: "evolves n var (fst (?f var)) (map (Pair n) (snd (?f var)))" for var
      using fromString_evolves [of types s var] evolves_refl [of n var] by (auto split: sum.splits prod.splits)
    show ?thesis
      by (rule via, unfold Op_fromString cfg_exec.simps) (rule on_var_steps [OF evolves_same [OF ev] ev])
  next
    case (Op_unlisten n k)
    show ?thesis
      by (rule via) (use on_var_steps [of n st "\<lambda>var. (deleteListener k var, [])" "{m. m \<noteq> n}"] deleteListener_same
        in \<open>auto simp: Op_unlisten eq_commute\<close>)
  next
    case (Op_clear n)
    have "same_var var (clearListener var)" for var :: "('a, 'b) config_var"
      by (simp add: same_var_def clearListener_def listeners_ok_def)
    then show ?thesis
      by (intro via) (use on_var_steps [of n st "\<lambda>var. (clearListener var, [])" "{m. m \<noteq> n}"] in \<open>auto simp: Op_clear eq_commute\<close>)
  next
    case (Op_listen n cb)
    show ?thesis
    proof (cases "LookupBase n (cs_table st)")
      case None
      then show ?thesis using assms steps_refl by (fastforce simp: Op_listen)
    next
      case (Some var)
      obtain key var' where l: "addListener cb (cs_keys st (cv_type var)) var = (key, var')" by (metis prod.exhaust)
      have "same_var var var'" using addListener_same [of var cb "cs_keys st (cv_type var)"] l by simp
      then have "\<exists>js. cs_journal (on_var n (\<lambda>_. (var', [])) st) = cs_journal st @ js
          \<and> steps {m. m \<noteq> n} (cs_table st) (cs_table (on_var n (\<lambda>_. (var', [])) st)) js
          \<and> (\<forall>m. LookupBase m (cs_table (on_var n (\<lambda>_. (var', [])) st)) = None \<longleftrightarrow> LookupBase m (cs_table st) = None)"
        using Some by (intro on_var_steps) auto
      moreover have "{m. \<not> rewires m op} = {m. m \<noteq> n}" by (auto simp: Op_listen)
      moreover have "cs_table (cfg_exec Y types op st) = cs_table (on_var n (\<lambda>_. (var', [])) st)"
        "cs_journal (cfg_exec Y types op st) = cs_journal (on_var n (\<lambda>_. (var', [])) st)"
        using Some l by (simp_all add: Op_listen)
      ultimately show ?thesis by (intro via) simp
    qed
  next
    case (Op_load root)
    obtain ok d j where l: "load_loop Y types (ListAllMember [] root) (cs_table st, cs_journal st) = (ok, d, j)" by (metis prod.exhaust)
    show ?thesis
      by (rule via) (use load_loop_steps [OF l, of "{n. \<not> rewires n op}"] load_loop_names [OF l] l in
        \<open>simp add: Op_load LoadFromYaml_def\<close>)
  qed
qed

lemma steps_mono: "steps N d d' j \<Longrightarrow> N' \<subseteq> N \<Longrightarrow> steps N' d d' j"
  unfolding steps_def by blast

lemma cfg_run_steps:
  "table_ok (cs_table st) \<Longrightarrow>
   \<exists>js. cs_journal (cfg_run Y types ops st) = cs_journal st @ js
    \<and> steps {n. \<forall>op \<in> set ops. \<not> rewires n op} (cs_table st) (cs_table (cfg_run Y types ops st)) js
    \<and> table_ok (cs_table (cfg_run Y types ops st))"
proof (induction ops arbitrary: st)
  case Nil
  then show ?case by (simp add: steps_refl)
next
  case (Cons op ops)
  let ?N = "{n. \<forall>op \<in> set (op # ops). \<not> rewires n op}"
  obtain j1 where 1: "cs_journal (cfg_exec Y types op st) = cs_journal st @ j1"
    "steps ?N (cs_table st) (cs_table (cfg_exec Y types op st)) j1" "table_ok (cs_table (cfg_exec Y types op st))"
    using cfg_exec_steps [OF Cons.prems, of Y types op] steps_mono [of "{n. \<not> rewires n op}" _ _ _ ?N] by auto
  obtain j2 where 2: "cs_journal (cfg_run Y types (op # ops) st) = cs_journal (cfg_exec Y types op st) @ j2"
    "steps {n. \<forall>op \<in> set ops. \<not> rewires n op} (cs_table (cfg_exec Y types op st)) (cs_table (cfg_run Y types (op # ops) st)) j2"
    "table_ok (cs_table (cfg_run Y types (op # ops) st))"
    using Cons.IH [OF 1(3)] by auto
  have "steps ?N (cs_table (cfg_exec Y types op st)) (cs_table (cfg_run Y types (op # ops) st)) j2"
    by (rule steps_mono [OF 2(2)]) auto
  from steps_trans [OF 1(2) this] 1(1) 2(1,3) show ?case by auto
qed

lemma table_ok_init: "table_ok (cs_table cfg_init)"
  by (simp add: table_ok_def cfg_init_def LookupBase_def)

text \<open>
  C25. Listeners see every change: in any sequence of lookups, assignments, texts and documents
  after which a variable exists, and any further sequence that does not touch its listeners,
  each of its listeners is called with every change, in order: the first old value is the one
  before, each next old value the last new one, no call is for an equal value, and the last
  new value is the variable's.
\<close>

theorem listeners_see_every_change:
  assumes "LookupBase n (cs_table (cfg_run Y types ops cfg_init)) = Some var" and "\<forall>op \<in> set ops'. \<not> rewires n op"
  shows "\<exists>js var'. cs_journal (cfg_run Y types (ops @ ops') cfg_init) = cs_journal (cfg_run Y types ops cfg_init) @ js
    \<and> LookupBase n (cs_table (cfg_run Y types (ops @ ops') cfg_init)) = Some var' \<and> cv_cbs var' = cv_cbs var
    \<and> (\<forall>key \<in> fst ` set (cv_cbs var). chain (cv_val var) (told n key js) (cv_val var'))"
proof -
  let ?st = "cfg_run Y types ops cfg_init"
  have ok: "table_ok (cs_table ?st)" using cfg_run_steps [OF table_ok_init] by blast
  with assms(1) have "listeners_ok var" by (auto simp: table_ok_def)
  moreover from cfg_run_steps [OF ok, of Y types ops'] obtain js var' where
    "cs_journal (cfg_run Y types ops' ?st) = cs_journal ?st @ js"
    "LookupBase n (cs_table (cfg_run Y types ops' ?st)) = Some var'" "evolves n var var' js"
    using assms unfolding steps_def by blast
  ultimately show ?thesis by (auto simp: evolves_def)
qed

text \<open>A small instance: integers that are read as the length of their text.\<close>

definition demo_yaml :: yaml_lib where
  "demo_yaml = \<lparr>yaml_load = \<lambda>s. None, yaml_emit = \<lambda>n. [], yaml_other = \<lambda>n i. n\<rparr>"

definition demo_types :: "string \<Rightarrow> nat value_type" where
  "demo_types t = \<lparr>vt_from = \<lambda>s. Inr (length s), vt_to = \<lambda>v. Inr []\<rparr>"

definition demo_ops :: "(nat, bool) cfg_op list" where
  "demo_ops = [Op_Lookup ''int'' ''a'' 1 [], Op_listen ''a'' True]"

lemma demo_run:
  "LookupBase ''a'' (cs_table (cfg_run demo_yaml demo_types demo_ops cfg_init)) =
     Some \<lparr>cv_name = ''a'', cv_description = [], cv_type = ''int'', cv_val = 1, cv_cbs = [(1, True)]\<rparr>"
proof -
  have t: "tolower (CHR ''a'') = CHR ''a''" by (rule tolower_name_chars) (simp add: name_chars_def)
  show ?thesis
    by (simp add: demo_ops_def cfg_init_def Config_Lookup_create_def valid_name_def name_chars_def ConfigVar_new_def t LookupBase_def
        on_var_def update_var_def addListener_def Let_def keys.lt_irrefl)
qed

lemma listeners_see_every_change_witness:
  "\<exists>js (var' :: (nat, bool) config_var). cs_journal (cfg_run demo_yaml demo_types (demo_ops @ [Op_set ''a'' 7, Op_fromString ''a'' ''xyz'']) cfg_init)
      = cs_journal (cfg_run demo_yaml demo_types demo_ops cfg_init) @ js \<and> chain 1 (told ''a'' 1 js) (cv_val var')"
proof -
  have "\<forall>op \<in> set [Op_set ''a'' 7, Op_fromString ''a'' ''xyz'' :: (nat, bool) cfg_op]. \<not> rewires ''a'' op" by simp
  from listeners_see_every_change [OF demo_run this, unfolded config_var.simps] obtain js and var' :: "(nat, bool) config_var" where
    js: "cs_journal (cfg_run demo_yaml demo_types (demo_ops @ [Op_set ''a'' 7, Op_fromString ''a'' ''xyz'']) cfg_init)
      = cs_journal (cfg_run demo_yaml demo_types demo_ops cfg_init) @ js"
    and told: "\<forall>key \<in> fst ` set [(1, True)]. chain 1 (told ''a'' key js) (cv_val var')"
    by blast
  from told have "chain 1 (told ''a'' 1 js) (cv_val var')" by simp
  with js show ?thesis by (intro exI conjI)
qed

text \<open>
  C26. A name keeps its variable: once a name is registered it stays so with its type, through
  every operation; a lookup of it in any spelling gives that variable when the type is its
  own and nothing otherwise, whatever default comes along, and changes nothing.
\<close>

theorem names_keep_their_variable:
  assumes "LookupBase n (cs_table (cfg_run Y types ops cfg_init)) = Some var" and "map tolower spelling = n"
  shows "\<exists>var'. LookupBase n (cs_table (cfg_run Y types (ops @ ops') cfg_init)) = Some var' \<and> cv_type var' = cv_type var \<and> cv_name var' = n
    \<and> Config_Lookup ty spelling (cs_table (cfg_run Y types (ops @ ops') cfg_init)) = (if ty = cv_type var then Some n else None)
    \<and> Config_Lookup_create ty spelling v desc (cs_table (cfg_run Y types (ops @ ops') cfg_init))
        = Inr (if ty = cv_type var then Some n else None, cs_table (cfg_run Y types (ops @ ops') cfg_init))"
proof -
  let ?st = "cfg_run Y types ops cfg_init"
  have ok: "table_ok (cs_table ?st)" using cfg_run_steps [OF table_ok_init] by blast
  from cfg_run_steps [OF ok, of Y types ops'] assms(1) obtain var' where
    var': "LookupBase n (cs_table (cfg_run Y types ops' ?st)) = Some var'" "same_var var var'"
    unfolding steps_def by blast
  moreover have "cv_name var = n" using ok assms(1) by (auto simp: table_ok_def)
  ultimately show ?thesis
    using assms(2) by (auto simp: same_var_def Config_Lookup_def Config_Lookup_create_def LookupBase_def)
qed

lemma names_keep_their_variable_witness:
  "Config_Lookup ''int'' ''A'' (cs_table (cfg_run demo_yaml demo_types (demo_ops @ [Op_set ''a'' 7]) cfg_init)) = Some ''a''
   \<and> Config_Lookup ''bool'' ''A'' (cs_table (cfg_run demo_yaml demo_types (demo_ops @ [Op_set ''a'' 7]) cfg_init)) = None"
proof -
  have "lower (CHR ''A'') = of_char (CHR ''a'')" by (simp add: lower_def)
  then have A: "map tolower ''A'' = ''a''" by (simp only: tolower_def list.map char_of_char)
  from names_keep_their_variable [OF demo_run A, where ty = "''int''" and ops' = "[Op_set ''a'' 7]"]
    names_keep_their_variable [OF demo_run A, where ty = "''bool''" and ops' = "[Op_set ''a'' 7]"]
  show ?thesis by auto
qed

section \<open>Documents\<close>

text \<open>The nodes of a document by their dotted path; every step of a path is a valid name.\<close>

definition sub_path :: "string \<Rightarrow> string \<Rightarrow> string" where
  "sub_path p k = (if p = [] then k else p @ ''.'' @ k)"

definition idx_path :: "string \<Rightarrow> nat \<Rightarrow> string" where
  "idx_path p i = p @ ''.'' @ show_nat i"

inductive at_path :: "string \<Rightarrow> yaml \<Rightarrow> string \<Rightarrow> yaml \<Rightarrow> bool" for q m where
  here: "valid_name q \<Longrightarrow> at_path q m q m"
| entry: "at_path q m p (YMap kvs) \<Longrightarrow> (k, n) \<in> set kvs \<Longrightarrow> valid_name (sub_path p k) \<Longrightarrow> at_path q m (sub_path p k) n"
| element: "at_path q m p (YSequence ns) \<Longrightarrow> i < length ns \<Longrightarrow> valid_name (idx_path p i)
    \<Longrightarrow> at_path q m (idx_path p i) (ns ! i)"

lemma at_path_trans: "at_path q1 m1 p n \<Longrightarrow> at_path q m q1 m1 \<Longrightarrow> at_path q m p n"
  by (induction rule: at_path.induct) (auto intro: at_path.entry at_path.element)

lemma at_path_valid: "at_path q m p n \<Longrightarrow> valid_name p"
  by (induction rule: at_path.induct) auto

lemma ListAllMember_unfold:
  "valid_name q \<Longrightarrow> ListAllMember q m = (q, m) # (case m of
     YMap kvs \<Rightarrow> concat (map (\<lambda>(k, n). ListAllMember (sub_path q k) n) kvs)
   | YSequence ns \<Rightarrow> concat (map (\<lambda>i. ListAllMember (idx_path q i) (ns ! i)) [0..<length ns])
   | _ \<Rightarrow> [])"
  by (subst ListAllMember.simps) (simp add: sub_path_def idx_path_def cong: yaml.case_cong)

lemma listed_valid: "(p, n) \<in> set (ListAllMember q m) \<Longrightarrow> valid_name q"
  by (subst (asm) ListAllMember.simps) (simp split: if_splits)

lemma listed_at_path: "(p, n) \<in> set (ListAllMember q m) \<Longrightarrow> at_path q m p n"
proof (induction q m rule: ListAllMember.induct)
  case (1 q m)
  note valid = listed_valid [OF "1.prems"]
  note here = at_path.here [OF valid, of m]
  show ?case
  proof (cases m)
    case (YMap kvs)
    have "at_path q m p n" if "(k, x) \<in> set kvs" "(p, n) \<in> set (ListAllMember (sub_path q k) x)" for k x
      using "1.IH"(2) [OF _ YMap that(1) refl] valid that listed_valid [OF that(2)] here
      by (auto simp: YMap sub_path_def [symmetric] intro: at_path_trans at_path.entry)
    with "1.prems" here valid show ?thesis by (auto simp: ListAllMember_unfold YMap)
  next
    case (YSequence ns)
    have "at_path q m p n" if "i < length ns" "(p, n) \<in> set (ListAllMember (idx_path q i) (ns ! i))" for i
      using "1.IH"(1) [OF _ YSequence, of i] valid that listed_valid [OF that(2)] here
      by (auto simp: YSequence idx_path_def [simplified, symmetric] intro: at_path_trans at_path.element)
    with "1.prems" here valid show ?thesis by (auto simp: ListAllMember_unfold YSequence)
  qed (use "1.prems" here valid in \<open>auto simp: ListAllMember_unfold\<close>)
qed

lemma listed_children:
  "(p, x) \<in> set (ListAllMember q m) \<Longrightarrow> set (ListAllMember p x) \<subseteq> set (ListAllMember q m)"
proof (induction q m rule: ListAllMember.induct)
  case (1 q m)
  note valid = listed_valid [OF "1.prems"]
  show ?case
  proof (cases "(p, x) = (q, m)")
    case False
    show ?thesis
    proof (cases m)
      case (YMap kvs)
      with False "1.prems" valid obtain k n where k: "(k, n) \<in> set kvs" "(p, x) \<in> set (ListAllMember (sub_path q k) n)"
        by (auto simp: ListAllMember_unfold)
      then have "set (ListAllMember p x) \<subseteq> set (ListAllMember (sub_path q k) n)"
        using "1.IH"(2) [OF _ YMap k(1) refl] valid by (simp add: sub_path_def)
      with k(1) valid show ?thesis by (fastforce simp: ListAllMember_unfold YMap)
    next
      case (YSequence ns)
      with False "1.prems" valid obtain i where i: "i < length ns" "(p, x) \<in> set (ListAllMember (idx_path q i) (ns ! i))"
        by (auto simp: ListAllMember_unfold)
      then have "set (ListAllMember p x) \<subseteq> set (ListAllMember (idx_path q i) (ns ! i))"
        using "1.IH"(1) [OF _ YSequence, of i] valid by (simp add: idx_path_def)
      with i(1) valid show ?thesis by (fastforce simp: ListAllMember_unfold YSequence)
    qed (use "1.prems" valid False in \<open>auto simp: ListAllMember_unfold\<close>)
  qed simp
qed

lemma listed_iff: "(p, n) \<in> set (ListAllMember q m) \<longleftrightarrow> at_path q m p n"
proof
  show "at_path q m p n \<Longrightarrow> (p, n) \<in> set (ListAllMember q m)"
  proof (induction rule: at_path.induct)
    case here
    then show ?case by (simp add: ListAllMember_unfold)
  next
    case (entry p kvs k n)
    have "(sub_path p k, n) \<in> set (ListAllMember (sub_path p k) n)" using entry.hyps(3) by (simp add: ListAllMember_unfold)
    with entry.hyps(2) at_path_valid [OF entry.hyps(1)] have "(sub_path p k, n) \<in> set (ListAllMember p (YMap kvs))"
      by (auto simp: ListAllMember_unfold)
    with listed_children [OF entry.IH] show ?case by blast
  next
    case (element p ns i)
    have "(idx_path p i, ns ! i) \<in> set (ListAllMember (idx_path p i) (ns ! i))" using element.hyps(3) by (simp add: ListAllMember_unfold)
    with element.hyps(2) at_path_valid [OF element.hyps(1)] have "(idx_path p i, ns ! i) \<in> set (ListAllMember p (YSequence ns))"
      by (auto simp: ListAllMember_unfold)
    with listed_children [OF element.IH] show ?case by blast
  qed
qed (rule listed_at_path)

text \<open>The texts a document has for a name, in the order of its nodes; the last that converts counts.\<close>

definition texts_for :: "yaml_lib \<Rightarrow> yaml \<Rightarrow> string \<Rightarrow> string list" where
  "texts_for Y root n = map (\<lambda>(p, x). node_text Y x) (filter (\<lambda>(p, x). p \<noteq> [] \<and> map tolower p = n) (ListAllMember [] root))"

definition convert_last :: "'v value_type \<Rightarrow> string list \<Rightarrow> 'v \<Rightarrow> 'v" where
  "convert_last vt ts v = foldl (\<lambda>v s. case vt_from vt s of Inl e \<Rightarrow> v | Inr w \<Rightarrow> w) v ts"

lemma fromString_val:
  "fromString types s var = Inr (ok, var', es) \<Longrightarrow>
   cv_type var' = cv_type var \<and> cv_val var' = (case vt_from (types (cv_type var)) s of Inl e \<Rightarrow> cv_val var | Inr w \<Rightarrow> w)"
  by (auto simp: fromString_def setValue_def split: sum.splits cast_exn.splits if_splits)

lemma load_loop_value:
  "load_loop Y types is st = (True, st') \<Longrightarrow> LookupBase n (fst st) = Some var \<Longrightarrow>
   \<exists>var'. LookupBase n (fst st') = Some var' \<and> cv_type var' = cv_type var \<and> cv_val var' = convert_last (types (cv_type var))
     (map (\<lambda>(p, x). node_text Y x) (filter (\<lambda>(p, x). p \<noteq> [] \<and> map tolower p = n) is)) (cv_val var)"
proof (induction Y types "is" st arbitrary: var rule: load_loop.induct)
  case (1 Y types st)
  then show ?case by (simp add: convert_last_def)
next
  case (2 Y types i "is" st)
  let ?key = "map tolower (fst i)"
  show ?case
  proof (cases "fst i = [] \<or> LookupBase ?key (fst st) = None")
    case True
    then have "load_loop Y types is st = (True, st')" using 2(4) by (auto simp: Let_def split: if_splits)
    moreover have "\<not> (fst i \<noteq> [] \<and> ?key = n)" using True 2(5) by auto
    ultimately show ?thesis using 2(1,2,5) True by (auto simp: case_prod_beta)
  next
    case False
    then obtain w where w: "LookupBase ?key (fst st) = Some w" by auto
    with 2(4) False obtain ok' w' es where r: "fromString types (node_text Y (snd i)) w = Inr (ok', w', es)"
      by (cases "fromString types (node_text Y (snd i)) w") (auto simp: Let_def)
    with 2(4) False w have l: "load_loop Y types is (update_var ?key (w', es) st) = (True, st')" by (simp add: Let_def)
    note val = fromString_val [OF r]
    show ?thesis
    proof (cases "?key = n")
      case True
      then have "LookupBase n (fst (update_var ?key (w', es) st)) = Some w'" by (simp add: update_var_def LookupBase_set)
      from 2(3) [OF _ refl w r refl l this] False True w val 2(5) show ?thesis
        by (simp add: convert_last_def case_prod_beta)
    next
      case other: False
      with 2(5) have "LookupBase n (fst (update_var ?key (w', es) st)) = Some var" by (simp add: update_var_def LookupBase_set)
      from 2(3) [OF _ refl w r refl l this] False other show ?thesis by (simp add: case_prod_beta)
    qed
  qed
qed

text \<open>
  C27. A document sets exactly what it names: when loading a document runs to its end, every
  variable ends with the conversion of the last node of its name that converts, and keeps its
  value when there is none; no variable appears or disappears. The nodes are those of the
  document by their dotted paths, elements of sequences by index, below names that are valid.
\<close>

theorem document_sets_what_it_names:
  assumes "LoadFromYaml Y types root (d, j) = (True, d', j')"
  shows "(\<forall>n. case LookupBase n d of None \<Rightarrow> LookupBase n d' = None
      | Some var \<Rightarrow> (\<exists>var'. LookupBase n d' = Some var' \<and> cv_type var' = cv_type var
          \<and> cv_val var' = convert_last (types (cv_type var)) (texts_for Y root n) (cv_val var)))
    \<and> (\<forall>p x. (p, x) \<in> set (ListAllMember [] root) \<longleftrightarrow> at_path [] root p x)"
proof -
  have l: "load_loop Y types (ListAllMember [] root) (d, j) = (True, d', j')" using assms by (simp add: LoadFromYaml_def)
  show ?thesis
    using load_loop_value [OF l] load_loop_names [OF l] by (auto simp: texts_for_def listed_iff split: option.splits)
qed

lemma document_sets_what_it_names_witness:
  "\<exists>d' j' var'. LoadFromYaml demo_yaml demo_types (YMap [(''a'', YScalar ''xyz'')])
      (cs_table (cfg_run demo_yaml demo_types demo_ops cfg_init), []) = (True, d', j')
    \<and> LookupBase ''a'' d' = Some var' \<and> cv_val var' = 3"
proof -
  define d where "d = cs_table (cfg_run demo_yaml demo_types demo_ops cfg_init)"
  note var = demo_run [folded d_def]
  have v: "valid_name []" "valid_name ''a''" by (simp_all add: valid_name_def name_chars_def)
  have t: "tolower (CHR ''a'') = CHR ''a''" by (rule tolower_name_chars) (simp add: name_chars_def)
  have listed: "ListAllMember [] (YMap [(''a'', YScalar ''xyz'')]) = [([], YMap [(''a'', YScalar ''xyz'')]), (''a'', YScalar ''xyz'')]"
    by (simp add: ListAllMember_unfold v sub_path_def)
  obtain d' and j' :: "(nat, bool) journal" where l: "LoadFromYaml demo_yaml demo_types (YMap [(''a'', YScalar ''xyz'')]) (d, []) = (True, d', j')"
    by (simp add: LoadFromYaml_def listed var t fromString_def demo_types_def node_text_def setValue_def update_var_def Let_def)
  have "texts_for demo_yaml (YMap [(''a'', YScalar ''xyz'')]) ''a'' = [''xyz'']"
    by (simp add: texts_for_def listed t node_text_def)
  with document_sets_what_it_names [OF l] var obtain var' where "LookupBase ''a'' d' = Some var'" "cv_val var' = 3"
    by (auto simp: convert_last_def demo_types_def dest!: spec [of _ "''a''"])
  with l show ?thesis unfolding d_def by blast
qed

section \<open>Containers\<close>

text \<open>
  What a value of an element must satisfy: its text loads as some node, and the text of that
  node converts back to it.
\<close>

definition element_ok :: "yaml_lib \<Rightarrow> ('a, string) cast \<Rightarrow> (string, 'a) cast \<Rightarrow> 'a \<Rightarrow> yaml \<Rightarrow> bool" where
  "element_ok Y to from x n \<longleftrightarrow> (\<exists>s. to x = Inr s \<and> yaml_load Y s = Some n) \<and> from (yaml_emit Y n) = Inr x"

lemma cast_all_map: "list_all2 (\<lambda>x y. f x = Inr y) xs ys \<Longrightarrow> cast_all f xs = Inr ys"
  by (induction rule: list_all2_induct) auto

lemma elements_out:
  "list_all2 (element_ok Y to from) xs ns \<Longrightarrow> cast_all (\<lambda>i. bindC (to i) (load_node Y)) xs = Inr ns"
  by (rule cast_all_map) (auto simp: element_ok_def load_node_def elim!: list_all2_mono)

lemma elements_in:
  assumes "list_all2 (element_ok Y to from) xs ns"
  shows "cast_all (\<lambda>i. from (yaml_emit Y (yaml_at Y (YSequence ns) i))) [0..<yaml_size (YSequence ns)] = Inr xs"
  by (rule cast_all_map) (use assms in \<open>auto simp: element_ok_def list_all2_conv_all_nth\<close>)

lemma fold_sset_insert_sorted:
  assumes "sorted_wrt lt (ys @ xs)" and "\<And>x y. lt x y \<Longrightarrow> \<not> lt y x"
  shows "fold (sset_insert lt) xs ys = ys @ xs"
  using assms(1)
proof (induction xs arbitrary: ys)
  case (Cons x xs)
  have "\<forall>y \<in> set ys. lt y x" using Cons.prems by (simp add: sorted_wrt_append)
  then have "sset_insert lt x ys = ys @ [x]" by (induction ys) auto
  with Cons show ?case by simp
qed simp

lemma pairs_out:
  "list_all2 (\<lambda>(k, x) (k', n). k = k' \<and> element_ok Y to from x n) kvs kns \<Longrightarrow>
   cast_all (\<lambda>(k, x). bindC (to x) (\<lambda>s. bindC (load_node Y s) (\<lambda>n. Inr (k, n)))) kvs = Inr kns"
  by (rule cast_all_map) (auto simp: element_ok_def load_node_def elim!: list_all2_mono)

lemma pairs_in:
  assumes "list_all2 (\<lambda>(k, x) (k', n). k = k' \<and> element_ok Y to from x n) kvs kns" and "yaml_load Y s = Some (YMap kns)"
  shows "cast_pairs Y from s = Inr kvs"
proof -
  have "cast_all (\<lambda>(k, n). bindC (from (yaml_emit Y n)) (\<lambda>x. Inr (k, x))) kns = Inr kvs"
    by (rule cast_all_map) (use assms(1) in \<open>auto simp: element_ok_def list_all2_conv_all_nth case_prod_beta prod_eq_iff\<close>)
  then show ?thesis using assms(2) by (simp add: cast_pairs_def load_node_def)
qed

lemma smap_set_last: "\<forall>x \<in> set xs. str_less (fst x) k \<Longrightarrow> smap_set str_less k v xs = xs @ [(k, v)] \<and> smap_find str_less k xs = None"
  by (induction xs) auto

lemma fold_insert_pair_sorted:
  "sorted_wrt str_less (map fst (ys @ xs)) \<Longrightarrow> fold (insert_pair str_less) xs ys = ys @ xs"
proof (induction xs arbitrary: ys)
  case (Cons x xs)
  have "\<forall>y \<in> set ys. str_less (fst y) (fst x)" using Cons.prems by (auto simp: sorted_wrt_append)
  from smap_set_last [OF this, of "snd x"] have "insert_pair str_less x ys = ys @ [x]" by (simp add: insert_pair_def)
  with Cons show ?case by simp
qed simp

text \<open>
  Containers survive their text: when the library reads back the node it writes for a
  container, and every element survives its own text, a vector or list comes back in order, an
  ordered set and a map with the same elements and keys, and an unordered set the same set,
  whatever order it was written in.
\<close>

theorem containers_round_trip:
  assumes "list_all2 (element_ok Y to from) xs ns"
    and "yaml_load Y (yaml_emit Y (YSequence ns)) = Some (YSequence ns)"
    and "list_all2 (\<lambda>(k, x) (k', n). k = k' \<and> element_ok Y to from x n) kvs kns"
    and "yaml_load Y (yaml_emit Y (YMap kns)) = Some (YMap kns)" and "sorted_wrt str_less (map fst kvs)"
  shows "bindC (vector_to_string Y to xs) (cast_to_vector Y from) = Inr xs
    \<and> bindC (list_to_string Y to xs) (cast_to_list Y from) = Inr xs
    \<and> (sorted_wrt lt xs \<and> (\<forall>x y. lt x y \<longrightarrow> \<not> lt y x) \<longrightarrow> bindC (set_to_string Y to xs) (cast_to_set Y lt from) = Inr xs)
    \<and> (order (set xs) = xs \<longrightarrow> bindC (unordered_set_to_string Y order to (set xs)) (cast_to_unordered_set Y from) = Inr (set xs))
    \<and> bindC (map_to_string Y to kvs) (cast_to_map Y from) = Inr kvs"
proof -
  note seq = elements_out [OF assms(1)] elements_in [OF assms(1)] assms(2)
  have "fold (sset_insert lt) xs [] = xs" if "sorted_wrt lt xs" "\<forall>x y. lt x y \<longrightarrow> \<not> lt y x"
    using fold_sset_insert_sorted [of lt "[]" xs] that by simp
  moreover have "fold (insert_pair str_less) kvs [] = kvs" using fold_insert_pair_sorted [of "[]" kvs] assms(5) by simp
  ultimately show ?thesis
    using seq pairs_out [OF assms(3)] pairs_in [OF assms(3,4)]
    by (simp add: vector_to_string_def cast_to_vector_def list_to_string_def cast_to_list_def set_to_string_def cast_to_set_def
        unordered_set_to_string_def cast_to_unordered_set_def map_to_string_def cast_to_map_def load_node_def)
qed

text \<open>A library that knows one sequence and one map.\<close>

definition tiny_yaml :: yaml_lib where
  "tiny_yaml = \<lparr>yaml_load = (\<lambda>s. if s = ''[xy, z]'' then Some (YSequence [YScalar ''xy'', YScalar ''z''])
       else if s = ''{k: z}'' then Some (YMap [(''k'', YScalar ''z'')]) else Some (YScalar s)),
     yaml_emit = (\<lambda>n. case n of YScalar s \<Rightarrow> s | YMap kvs \<Rightarrow> ''{k: z}'' | _ \<Rightarrow> ''[xy, z]''), yaml_other = (\<lambda>n i. n)\<rparr>"

lemma containers_round_trip_witness:
  "bindC (vector_to_string tiny_yaml Inr [''xy'', ''z'']) (cast_to_vector tiny_yaml Inr) = Inr [''xy'', ''z'']
   \<and> bindC (map_to_string tiny_yaml Inr [(''k'', ''z'')]) (cast_to_map tiny_yaml Inr) = Inr [(''k'', ''z'')]"
proof -
  have "list_all2 (element_ok tiny_yaml Inr Inr) [''xy'', ''z''] [YScalar ''xy'', YScalar ''z'']"
    "yaml_load tiny_yaml (yaml_emit tiny_yaml (YSequence [YScalar ''xy'', YScalar ''z''])) = Some (YSequence [YScalar ''xy'', YScalar ''z''])"
    "list_all2 (\<lambda>(k, x) (k', n). k = k' \<and> element_ok tiny_yaml Inr Inr x n) [(''k'', ''z'')] [(''k'', YScalar ''z'')]"
    "yaml_load tiny_yaml (yaml_emit tiny_yaml (YMap [(''k'', YScalar ''z'')])) = Some (YMap [(''k'', YScalar ''z'')])"
    "sorted_wrt str_less (map fst [(''k'', ''z'')])"
    by (simp_all add: element_ok_def tiny_yaml_def)
  from containers_round_trip [OF this] show ?thesis by blast
qed

end
