(* ===== verification/LogFormatter.thy ===== *)
theory LogFormatter
  imports Strings
begin

text \<open>
  Log levels, events and the pattern formatter (logger.h, logger.cpp). The scanner works on
  positions of the pattern as the code does; what it prints while it parses is part of its
  result. \<open>strftime\<close> and the local time zone are a parameter.
\<close>

section \<open>Levels\<close>

datatype Level = UNKNOWN | DEBUG | INFO | WARNING | ERROR | FATAL

fun level_code :: "Level \<Rightarrow> nat" where
  "level_code UNKNOWN = 0"
| "level_code DEBUG = 1"
| "level_code INFO = 2"
| "level_code WARNING = 3"
| "level_code ERROR = 4"
| "level_code FATAL = 5"

lemma level_code_inj: "level_code a = level_code b \<Longrightarrow> a = b"
  by (cases a; cases b) auto

instantiation Level :: linorder
begin

definition less_eq_Level :: "Level \<Rightarrow> Level \<Rightarrow> bool" where
  "less_eq_Level a b = (level_code a \<le> level_code b)"

definition less_Level :: "Level \<Rightarrow> Level \<Rightarrow> bool" where
  "less_Level a b = (level_code a < level_code b)"

instance
  by standard (auto simp: less_eq_Level_def less_Level_def dest: level_code_inj)

end

fun getLevel :: "Level \<Rightarrow> string" where
  "getLevel UNKNOWN = ''UNKNOW''"
| "getLevel DEBUG = ''DEBUG''"
| "getLevel INFO = ''INFO''"
| "getLevel WARNING = ''WARNING''"
| "getLevel ERROR = ''ERROR''"
| "getLevel FATAL = ''FATAL''"

definition FromString :: "string \<Rightarrow> Level" where
  "FromString str =
     (if str = ''DEBUG'' then DEBUG else if str = ''INFO'' then INFO else if str = ''WARNING'' then WARNING
      else if str = ''ERROR'' then ERROR else if str = ''FATAL'' then FATAL else FATAL)"

fun ToString :: "Level \<Rightarrow> string" where
  "ToString DEBUG = ''DEBUG''"
| "ToString INFO = ''INFO''"
| "ToString WARNING = ''WARNING''"
| "ToString ERROR = ''ERROR''"
| "ToString FATAL = ''FATAL''"
| "ToString UNKNOWN = ''UNKNOWN''"

section \<open>Events\<close>

text \<open>An event refers to its logger by the logger's number; \<open>m_ss\<close> is what was streamed into it.\<close>

record LogEvent =
  m_filename :: string
  m_line :: int
  m_elapse :: u32
  m_threadId :: u32
  m_fiberId :: u32
  m_time :: u64
  m_threadName :: string
  m_logger :: nat
  m_evlevel :: Level
  m_ss :: string

definition LogEvent_new ::
  "nat \<Rightarrow> Level \<Rightarrow> string \<Rightarrow> int \<Rightarrow> u32 \<Rightarrow> u32 \<Rightarrow> u32 \<Rightarrow> u64 \<Rightarrow> string \<Rightarrow> LogEvent" where
  "LogEvent_new logger level file line elapse thread_id fiber_id time thread_name =
     \<lparr>m_filename = file, m_line = line, m_elapse = elapse, m_threadId = thread_id, m_fiberId = fiber_id,
      m_time = time, m_threadName = thread_name, m_logger = logger, m_evlevel = level, m_ss = []\<rparr>"

text \<open>\<open>LogEvent::format\<close>: \<open>vasprintf\<close> gives a text, or fails and nothing is added.\<close>

definition LogEvent_format :: "string option \<Rightarrow> LogEvent \<Rightarrow> LogEvent" where
  "LogEvent_format vasprintf event =
     (case vasprintf of None \<Rightarrow> event | Some buf \<Rightarrow> event\<lparr>m_ss := m_ss event @ buf\<rparr>)"

section \<open>Items\<close>

datatype FormatItem =
    MessageFormatItem
  | LevelFormatItem
  | ElapseFormatItem
  | NameFormatItem
  | ThreadIdFormatItem
  | NewLineFormatItem
  | DateTimeFormatItem string
  | FilenameFormatItem
  | LineFormatItem
  | FiberIdFormatItem
  | ThreadNameFormatItem
  | TabFormatItem
  | StringFormatItem string

definition default_time :: string where
  "default_time = ''%Y-%m-%d %H:%M:%S''"

text \<open>The constructor of the date item replaces an empty format.\<close>

definition DateTimeFormatItem_new :: "string \<Rightarrow> FormatItem" where
  "DateTimeFormatItem_new format = DateTimeFormatItem (if format = [] then default_time else format)"

text \<open>\<open>s_format_items\<close>.\<close>

definition s_format_items :: "string \<Rightarrow> (string \<Rightarrow> FormatItem) option" where
  "s_format_items = map_of
     [(''m'', \<lambda>fmt. MessageFormatItem), (''p'', \<lambda>fmt. LevelFormatItem), (''r'', \<lambda>fmt. ElapseFormatItem),
      (''c'', \<lambda>fmt. NameFormatItem), (''t'', \<lambda>fmt. ThreadIdFormatItem), (''n'', \<lambda>fmt. NewLineFormatItem),
      (''d'', DateTimeFormatItem_new), (''f'', \<lambda>fmt. FilenameFormatItem), (''l'', \<lambda>fmt. LineFormatItem),
      (''F'', \<lambda>fmt. FiberIdFormatItem), (''N'', \<lambda>fmt. ThreadNameFormatItem), (''T'', \<lambda>fmt. TabFormatItem)]"

text \<open>
  \<open>format\<close> of an item: the name of the event's logger and \<open>strftime\<close> with the local time are
  arguments.
\<close>

fun item_format :: "(string \<Rightarrow> u64 \<Rightarrow> string) \<Rightarrow> string \<Rightarrow> Level \<Rightarrow> LogEvent \<Rightarrow> FormatItem \<Rightarrow> string" where
  "item_format strftime name level event MessageFormatItem = m_ss event"
| "item_format strftime name level event LevelFormatItem = ToString level"
| "item_format strftime name level event ElapseFormatItem = show_nat (unat (m_elapse event))"
| "item_format strftime name level event NameFormatItem = name"
| "item_format strftime name level event ThreadIdFormatItem = show_nat (unat (m_threadId event))"
| "item_format strftime name level event NewLineFormatItem = [CHR 0x0A]"
| "item_format strftime name level event (DateTimeFormatItem m_format) = c_str (strftime (c_str m_format) (m_time event))"
| "item_format strftime name level event FilenameFormatItem = c_str (m_filename event)"
| "item_format strftime name level event LineFormatItem = show_int (m_line event)"
| "item_format strftime name level event FiberIdFormatItem = show_nat (unat (m_fiberId event))"
| "item_format strftime name level event ThreadNameFormatItem = m_threadName event"
| "item_format strftime name level event TabFormatItem = [CHR 0x09]"
| "item_format strftime name level event (StringFormatItem m_string) = m_string"

section \<open>The scanner\<close>

definition isalpha :: "char \<Rightarrow> bool" where
  "isalpha c = (let n = of_char c :: nat in 65 \<le> n \<and> n \<le> 90 \<or> 97 \<le> n \<and> n \<le> 122)"

definition substr :: "string \<Rightarrow> nat \<Rightarrow> nat \<Rightarrow> string" where
  "substr s pos n = take n (drop pos s)"

text \<open>
  The inner loop at \<open>n\<close> for the item that starts at \<open>i\<close>: where it stops, its status (1 inside
  braces), the name and the format.
\<close>

function scan_item :: "string \<Rightarrow> nat \<Rightarrow> nat \<Rightarrow> int \<Rightarrow> nat \<Rightarrow> string \<Rightarrow> nat \<times> int \<times> string \<times> string" where
  "scan_item pat i n fmt_status fmt_begin str =
     (if n \<ge> length pat then (n, fmt_status, str, [])
      else if fmt_status = 0 \<and> \<not> isalpha (pat ! n) \<and> pat ! n \<noteq> CHR 0x7B \<and> pat ! n \<noteq> CHR 0x7D
      then (n, fmt_status, substr pat (i + 1) (n - i - 1), [])
      else if fmt_status = 0 \<and> pat ! n = CHR 0x7B
      then scan_item pat i (n + 1) 1 n (substr pat (i + 1) (n - i - 1))
      else if fmt_status = 1 \<and> pat ! n = CHR 0x7D
      then (n + 1, 0, str, substr pat (fmt_begin + 1) (n - fmt_begin - 1))
      else scan_item pat i (n + 1) fmt_status fmt_begin
             (if n + 1 = length pat \<and> str = [] then drop (i + 1) pat else str))"
  by pat_completeness auto
termination
  by (relation "measure (\<lambda>(pat, i, n, s, b, str). length pat - n)") auto

declare scan_item.simps [simp del]

lemma scan_item_forward: "scan_item pat i n st b str = (n', r) \<Longrightarrow> n \<le> n'"
proof (induction pat i n st b str rule: scan_item.induct)
  case (1 pat i n st b str)
  show ?case
    using 1 by (subst (asm) (3) scan_item.simps) (auto split: if_splits)
qed

definition flush :: "string \<Rightarrow> (string \<times> string \<times> int) list" where
  "flush nstr = (if nstr = [] then [] else [(nstr, [], 0)])"

text \<open>
  The outer loop at \<open>i\<close> with the literal text collected so far: the tuples, \<open>m_error\<close> and what
  goes to \<open>std::cout\<close>. After an open brace that is never closed the scan goes on behind the
  percent sign.
\<close>

function init_loop :: "string \<Rightarrow> nat \<Rightarrow> string \<Rightarrow> (string \<times> string \<times> int) list \<times> bool \<times> string" where
  "init_loop pat i nstr =
     (if i \<ge> length pat then (flush nstr, False, [])
      else if pat ! i \<noteq> CHR 0x25 then init_loop pat (i + 1) (nstr @ [pat ! i])
      else if i + 1 < length pat \<and> pat ! (i + 1) = CHR 0x25 then init_loop pat (i + 1) (nstr @ [CHR 0x25])
      else case scan_item pat i (i + 1) 0 0 [] of
        (n, fmt_status, str, fmt) \<Rightarrow>
          (if fmt_status = 0
           then (case init_loop pat n [] of
                   (vec, m_error, cout) \<Rightarrow> (flush nstr @ (str, fmt, 1) # vec, m_error, cout))
           else (case init_loop pat (i + 1) nstr of
                   (vec, m_error, cout) \<Rightarrow>
                     ((''<<pattern_error>>'', fmt, 0) # vec, True,
                      ''pattern parse error: '' @ pat @ '' - '' @ drop i pat @ [CHR 0x0A] @ cout))))"
  by pat_completeness auto
termination
proof (relation "measure (\<lambda>(pat, i, nstr). length pat - i)", goal_cases)
  case (4 pat i nstr n a s b str fmt)
  then have "i + 1 \<le> n" using scan_item_forward [of pat i "i + 1" 0 0 "[]" n a] by simp
  with 4 show ?case by simp
qed auto

declare init_loop.simps [simp del]

text \<open>The second loop, from tuples to items and the error flag.\<close>

fun items_loop :: "(string \<times> string \<times> int) list \<Rightarrow> FormatItem list \<times> bool" where
  "items_loop [] = ([], False)"
| "items_loop ((str, fmt, type) # vec) =
     (case items_loop vec of
        (items, m_error) \<Rightarrow>
          (if type = 0 then (StringFormatItem str # items, m_error)
           else (case s_format_items str of
                   None \<Rightarrow> (StringFormatItem (''<<error_format %'' @ str @ ''>>'') # items, True)
                 | Some item \<Rightarrow> (item fmt # items, m_error))))"

record LogFormatter =
  m_pattern :: string
  m_items :: "FormatItem list"
  m_error :: bool

text \<open>The constructor with \<open>init\<close>, and what it prints.\<close>

definition LogFormatter_new :: "string \<Rightarrow> LogFormatter \<times> string" where
  "LogFormatter_new pattern =
     (case init_loop pattern 0 [] of
        (vec, error1, cout) \<Rightarrow>
          (case items_loop vec of
             (items, error2) \<Rightarrow> (\<lparr>m_pattern = pattern, m_items = items, m_error = (error1 \<or> error2)\<rparr>, cout)))"

text \<open>Both \<open>format\<close> functions write the items' texts in order.\<close>

definition LogFormatter_format ::
  "(string \<Rightarrow> u64 \<Rightarrow> string) \<Rightarrow> string \<Rightarrow> LogFormatter \<Rightarrow> Level \<Rightarrow> LogEvent \<Rightarrow> string" where
  "LogFormatter_format strftime name formatter level event =
     concat (map (item_format strftime name level event) (m_items formatter))"

end
