(* ===== verification/Logger.thy ===== *)
theory Logger
  imports LogFormatter Config
begin

text \<open>
  Loggers, appenders and the manager (logger.h, logger.cpp), and the configuration of loggers.
  Loggers and appenders are shared objects: each is a number in the world, their pointers
  are these numbers. Whether a file opens is a parameter; an open stream takes what it is given.
\<close>

section \<open>Objects\<close>

datatype appender_class = FileLogAppender string | StdoutLogAppender

text \<open>\<open>ap_good\<close>, \<open>ap_lastTime\<close>: the stream of a file appender and when it was reopened last.\<close>

record appender =
  ap_class :: appender_class
  ap_level :: Level
  ap_formatter :: "LogFormatter option"
  ap_hasFormatter :: bool
  ap_good :: bool
  ap_lastTime :: u64

record logger =
  lg_name :: string
  lg_level :: Level
  lg_appenders :: "nat list"
  lg_formatter :: "LogFormatter option"
  lg_root :: "nat option"

record log_world =
  lw_appenders :: "appender list"
  lw_loggers :: "logger list"
  lw_managed :: "(string \<times> nat) list"
  lw_root :: nat
  lw_files :: "string \<Rightarrow> string"
  lw_stdout :: string

definition endl :: string where "endl = [CHR 0x0A]"

definition print :: "string \<Rightarrow> log_world \<Rightarrow> log_world" where
  "print s w = w\<lparr>lw_stdout := lw_stdout w @ s\<rparr>"

definition put_appender :: "nat \<Rightarrow> appender \<Rightarrow> log_world \<Rightarrow> log_world" where
  "put_appender i a w = w\<lparr>lw_appenders := (lw_appenders w)[i := a]\<rparr>"

definition put_logger :: "nat \<Rightarrow> logger \<Rightarrow> log_world \<Rightarrow> log_world" where
  "put_logger i l w = w\<lparr>lw_loggers := (lw_loggers w)[i := l]\<rparr>"

abbreviation the_appender :: "log_world \<Rightarrow> nat \<Rightarrow> appender" where
  "the_appender w i \<equiv> lw_appenders w ! i"

abbreviation the_logger :: "log_world \<Rightarrow> nat \<Rightarrow> logger" where
  "the_logger w i \<equiv> lw_loggers w ! i"

section \<open>Appenders\<close>

definition StdoutLogAppender_new :: "log_world \<Rightarrow> nat \<times> log_world" where
  "StdoutLogAppender_new w =
     (length (lw_appenders w),
      w\<lparr>lw_appenders := lw_appenders w @
        [\<lparr>ap_class = StdoutLogAppender, ap_level = DEBUG, ap_formatter = None, ap_hasFormatter = False,
          ap_good = True, ap_lastTime = 0\<rparr>]\<rparr>)"

text \<open>\<open>reopen\<close> of an appender for a file; an open that succeeds clears the stream's state.\<close>

definition reopen :: "(string \<Rightarrow> bool) \<Rightarrow> appender \<Rightarrow> appender" where
  "reopen can_open a =
     (case ap_class a of FileLogAppender filename \<Rightarrow> a\<lparr>ap_good := can_open (c_str filename)\<rparr> | _ \<Rightarrow> a)"

definition FileLogAppender_new :: "(string \<Rightarrow> bool) \<Rightarrow> string \<Rightarrow> log_world \<Rightarrow> nat \<times> log_world" where
  "FileLogAppender_new can_open filename w =
     (length (lw_appenders w),
      w\<lparr>lw_appenders := lw_appenders w @
        [reopen can_open \<lparr>ap_class = FileLogAppender filename, ap_level = DEBUG, ap_formatter = None,
           ap_hasFormatter = False, ap_good = True, ap_lastTime = 0\<rparr>]\<rparr>)"

definition LogAppender_setFormatter :: "LogFormatter option \<Rightarrow> nat \<Rightarrow> log_world \<Rightarrow> log_world" where
  "LogAppender_setFormatter val i w =
     put_appender i ((the_appender w i)\<lparr>ap_formatter := val, ap_hasFormatter := (val \<noteq> None)\<rparr>) w"

definition LogAppender_setLevel :: "Level \<Rightarrow> nat \<Rightarrow> log_world \<Rightarrow> log_world" where
  "LogAppender_setLevel val i w = put_appender i ((the_appender w i)\<lparr>ap_level := val\<rparr>) w"

text \<open>\<open>log\<close> of both classes; a formatter that is null is dereferenced.\<close>

definition Stdout_log ::
  "(string \<Rightarrow> u64 \<Rightarrow> string) \<Rightarrow> Level \<Rightarrow> LogEvent \<Rightarrow> appender \<Rightarrow> log_world \<Rightarrow> log_world res" where
  "Stdout_log strftime level event a w =
     (if level \<ge> ap_level a
      then (case ap_formatter a of
              None \<Rightarrow> Inl NullDeref
            | Some f \<Rightarrow> Inr (print (LogFormatter_format strftime (lg_name (the_logger w (m_logger event))) f level event) w))
      else Inr w)"

definition File_log ::
  "(string \<Rightarrow> bool) \<Rightarrow> (string \<Rightarrow> u64 \<Rightarrow> string) \<Rightarrow> string \<Rightarrow> Level \<Rightarrow> LogEvent \<Rightarrow> nat \<Rightarrow> log_world \<Rightarrow> log_world res" where
  "File_log can_open strftime filename level event i w =
     (let a = the_appender w i in
      if level \<ge> ap_level a
      then (let now = m_time event;
                a1 = (if now \<ge> ap_lastTime a + 3 then (reopen can_open a)\<lparr>ap_lastTime := now\<rparr> else a);
                w1 = put_appender i a1 w
            in case ap_formatter a1 of
                 None \<Rightarrow> Inl NullDeref
               | Some f \<Rightarrow>
                   (let txt = LogFormatter_format strftime (lg_name (the_logger w (m_logger event))) f level event
                    in Inr (if ap_good a1
                            then w1\<lparr>lw_files := (lw_files w1)(c_str filename := lw_files w1 (c_str filename) @ txt)\<rparr>
                            else print (''error'' @ endl) w1)))
      else Inr w)"

definition LogAppender_log ::
  "(string \<Rightarrow> bool) \<Rightarrow> (string \<Rightarrow> u64 \<Rightarrow> string) \<Rightarrow> Level \<Rightarrow> LogEvent \<Rightarrow> nat \<Rightarrow> log_world \<Rightarrow> log_world res" where
  "LogAppender_log can_open strftime level event i w =
     (case ap_class (the_appender w i) of
        FileLogAppender filename \<Rightarrow> File_log can_open strftime filename level event i w
      | StdoutLogAppender \<Rightarrow> Stdout_log strftime level event (the_appender w i) w)"

section \<open>Loggers\<close>

definition default_pattern :: string where
  "default_pattern = ''%d{%Y-%m-%d %H:%M:%S}%T%t%T%N%T%F%T[%p]%T[%c]%T%f:%l%T%m%n''"

definition Logger_new :: "string \<Rightarrow> log_world \<Rightarrow> nat \<times> log_world" where
  "Logger_new name w =
     (length (lw_loggers w),
      w\<lparr>lw_loggers := lw_loggers w @
        [\<lparr>lg_name = name, lg_level = DEBUG, lg_appenders = [],
          lg_formatter = Some (fst (LogFormatter_new default_pattern)), lg_root = None\<rparr>]\<rparr>)"

text \<open>The loop over the appenders.\<close>

fun log_loop ::
  "(string \<Rightarrow> bool) \<Rightarrow> (string \<Rightarrow> u64 \<Rightarrow> string) \<Rightarrow> Level \<Rightarrow> LogEvent \<Rightarrow> nat list \<Rightarrow> log_world \<Rightarrow> log_world res" where
  "log_loop can_open strftime level event [] w = Inr w"
| "log_loop can_open strftime level event (i # is) w =
     bindR (LogAppender_log can_open strftime level event i w) (log_loop can_open strftime level event is)"

text \<open>
  \<open>Logger::log\<close>. A call passed on to the root keeps its own logger's mutex, so a chain
  longer than there are loggers waits for a mutex it holds; the fuel is their number.
\<close>

fun log_from ::
  "nat \<Rightarrow> (string \<Rightarrow> bool) \<Rightarrow> (string \<Rightarrow> u64 \<Rightarrow> string) \<Rightarrow> nat \<Rightarrow> Level \<Rightarrow> LogEvent \<Rightarrow> log_world \<Rightarrow> log_world res" where
  "log_from 0 can_open strftime lg level event w = Inl Diverges"
| "log_from (Suc fuel) can_open strftime lg level event w =
     (if level \<ge> lg_level (the_logger w lg)
      then (if lg_appenders (the_logger w lg) \<noteq> []
            then log_loop can_open strftime level event (lg_appenders (the_logger w lg)) w
            else (case lg_root (the_logger w lg) of
                    Some root \<Rightarrow> log_from fuel can_open strftime root level event w
                  | None \<Rightarrow> Inr w))
      else Inr w)"

definition Logger_log ::
  "(string \<Rightarrow> bool) \<Rightarrow> (string \<Rightarrow> u64 \<Rightarrow> string) \<Rightarrow> nat \<Rightarrow> Level \<Rightarrow> LogEvent \<Rightarrow> log_world \<Rightarrow> log_world res" where
  "Logger_log can_open strftime lg level event w =
     log_from (length (lw_loggers w)) can_open strftime lg level event w"

definition Logger_debug where
  "Logger_debug can_open strftime lg event w = Logger_log can_open strftime lg DEBUG event w"
definition Logger_info where
  "Logger_info can_open strftime lg event w = Logger_log can_open strftime lg INFO event w"
definition Logger_warn where
  "Logger_warn can_open strftime lg event w = Logger_log can_open strftime lg WARNING event w"
definition Logger_error where
  "Logger_error can_open strftime lg event w = Logger_log can_open strftime lg ERROR event w"
definition Logger_fatal where
  "Logger_fatal can_open strftime lg event w = Logger_log can_open strftime lg FATAL event w"

definition Logger_setLevel :: "Level \<Rightarrow> nat \<Rightarrow> log_world \<Rightarrow> log_world" where
  "Logger_setLevel val lg w = put_logger lg ((the_logger w lg)\<lparr>lg_level := val\<rparr>) w"

definition addAppender :: "nat \<Rightarrow> nat \<Rightarrow> log_world \<Rightarrow> log_world" where
  "addAppender i lg w =
     (let l = the_logger w lg; a = the_appender w i;
          w1 = (if ap_formatter a = None then put_appender i (a\<lparr>ap_formatter := lg_formatter l\<rparr>) w else w)
      in put_logger lg (l\<lparr>lg_appenders := lg_appenders l @ [i]\<rparr>) w1)"

definition delAppender :: "nat \<Rightarrow> nat \<Rightarrow> log_world \<Rightarrow> log_world" where
  "delAppender i lg w =
     (let l = the_logger w lg in put_logger lg (l\<lparr>lg_appenders := remove_first (\<lambda>j. j = i) (lg_appenders l)\<rparr>) w)"

definition clearAppenders :: "nat \<Rightarrow> log_world \<Rightarrow> log_world" where
  "clearAppenders lg w = put_logger lg ((the_logger w lg)\<lparr>lg_appenders := []\<rparr>) w"

text \<open>The appenders that have no formatter of their own follow the logger's.\<close>

definition inherit :: "LogFormatter option \<Rightarrow> nat \<Rightarrow> log_world \<Rightarrow> log_world" where
  "inherit val i w =
     (let a = the_appender w i in if ap_hasFormatter a then w else put_appender i (a\<lparr>ap_formatter := val\<rparr>) w)"

definition Logger_setFormatter :: "LogFormatter option \<Rightarrow> nat \<Rightarrow> log_world \<Rightarrow> log_world" where
  "Logger_setFormatter val lg w =
     fold (inherit val) (lg_appenders (the_logger w lg)) (put_logger lg ((the_logger w lg)\<lparr>lg_formatter := val\<rparr>) w)"

definition Logger_setPattern :: "string \<Rightarrow> nat \<Rightarrow> log_world \<Rightarrow> log_world" where
  "Logger_setPattern val lg w =
     (case LogFormatter_new val of
        (new_val, cout) \<Rightarrow>
          (let w1 = print (''---'' @ val @ endl @ cout) w in
           if m_error new_val
           then print (''Logger setFormatter name='' @ lg_name (the_logger w lg) @ '' value='' @ val
                        @ '' invalid formatter'' @ endl) w1
           else Logger_setFormatter (Some new_val) lg w1))"

text \<open>
  The statement macros: below the logger's level nothing is built; otherwise the text goes
  into a new event, which the wrapper's destructor logs at its own level.
\<close>

definition LogEventWrapper_destroy ::
  "(string \<Rightarrow> bool) \<Rightarrow> (string \<Rightarrow> u64 \<Rightarrow> string) \<Rightarrow> LogEvent \<Rightarrow> log_world \<Rightarrow> log_world res" where
  "LogEventWrapper_destroy can_open strftime event w =
     Logger_log can_open strftime (m_logger event) (m_evlevel event) event w"

definition SERVER_CC_LOG_LEVEL ::
  "(string \<Rightarrow> bool) \<Rightarrow> (string \<Rightarrow> u64 \<Rightarrow> string) \<Rightarrow> nat \<Rightarrow> Level \<Rightarrow> string \<Rightarrow> int \<Rightarrow> u32 \<Rightarrow> u32 \<Rightarrow> u64 \<Rightarrow> string
    \<Rightarrow> string \<Rightarrow> log_world \<Rightarrow> log_world res" where
  "SERVER_CC_LOG_LEVEL can_open strftime lg level file line thread_id fiber_id time thread_name content w =
     (if lg_level (the_logger w lg) \<le> level
      then LogEventWrapper_destroy can_open strftime
             ((LogEvent_new lg level file line 0 thread_id fiber_id time thread_name)\<lparr>m_ss := content\<rparr>) w
      else Inr w)"

section \<open>The manager\<close>

definition LoggerManager_new :: "string \<Rightarrow> log_world" where
  "LoggerManager_new name =
     (let (root, w1) = Logger_new name
            \<lparr>lw_appenders = [], lw_loggers = [], lw_managed = [], lw_root = 0, lw_files = (\<lambda>f. []), lw_stdout = []\<rparr>;
          (ap, w2) = StdoutLogAppender_new w1
      in (addAppender ap root w2)\<lparr>lw_root := root, lw_managed := [(name, root)]\<rparr>)"

definition getLogger :: "string \<Rightarrow> log_world \<Rightarrow> nat \<times> log_world" where
  "getLogger name w =
     (case smap_find str_less name (lw_managed w) of
        Some lg \<Rightarrow> (lg, w)
      | None \<Rightarrow>
          (let (lg, w1) = Logger_new name w;
               (ap, w2) = StdoutLogAppender_new w1;
               w3 = addAppender ap lg w2
           in (lg, w3\<lparr>lw_managed := smap_set str_less name lg (lw_managed w3)\<rparr>)))"

section \<open>Dumps\<close>

definition appender_ToYamlString :: "yaml_lib \<Rightarrow> appender \<Rightarrow> string" where
  "appender_ToYamlString Y a =
     yaml_emit Y (YMap (
       (case ap_class a of
          FileLogAppender filename \<Rightarrow> [(''type'', YScalar ''FileLogAppender''), (''file'', YScalar filename)]
        | StdoutLogAppender \<Rightarrow> [(''type'', YScalar ''StdoutLogAppender'')])
       @ (if ap_level a \<noteq> UNKNOWN then [(''level'', YScalar (getLevel (ap_level a)))] else [])
       @ (case ap_formatter a of Some f \<Rightarrow> [(''formatter'', YScalar (m_pattern f))] | None \<Rightarrow> [])))"

definition Logger_ToYamlString :: "yaml_lib \<Rightarrow> logger \<Rightarrow> log_world \<Rightarrow> cast_exn + string" where
  "Logger_ToYamlString Y l w =
     bindC (cast_all (\<lambda>i. load_node Y (appender_ToYamlString Y (the_appender w i))) (lg_appenders l)) (\<lambda>ns.
       Inr (yaml_emit Y (YMap ([(''name'', YScalar (lg_name l))]
         @ (if lg_level l \<noteq> UNKNOWN then [(''level'', YScalar (getLevel (lg_level l)))] else [])
         @ (case lg_formatter l of Some f \<Rightarrow> [(''formatter'', YScalar (m_pattern f))] | None \<Rightarrow> [])
         @ (if ns = [] then [] else [(''appenders'', YSequence ns)])))))"

definition LoggerManager_ToYamlString :: "yaml_lib \<Rightarrow> log_world \<Rightarrow> cast_exn + string" where
  "LoggerManager_ToYamlString Y w =
     bindC (cast_all (\<lambda>i. bindC (Logger_ToYamlString Y (the_logger w (snd i)) w) (load_node Y)) (lw_managed w)) (\<lambda>ns.
       Inr (yaml_emit Y (if ns = [] then YNull else YSequence ns)))"

end
