(* ===== verification/LogConfig.thy ===== *)
theory LogConfig
  imports Logger
begin

text \<open>
  The configuration of loggers (logger.cpp): the definitions of the variable \<open>logs\<close>, their
  conversions from and to YAML, and the listener that applies a changed set of definitions.
\<close>

section \<open>Definitions\<close>

record LogAppenderDefine =
  ad_type :: string
  ad_file :: string
  ad_level :: Level
  ad_format :: string
  has_file :: bool

definition LogAppenderDefine_new :: LogAppenderDefine where
  "LogAppenderDefine_new =
     \<lparr>ad_type = [], ad_file = [], ad_level = DEBUG,
      ad_format = ''%d{%Y-%m-%d %H:%M:%S}%T%t%T%f%T[%p]%T[%c]:%T%m %n'', has_file = False\<rparr>"

definition appender_define_eq :: "LogAppenderDefine \<Rightarrow> LogAppenderDefine \<Rightarrow> bool" where
  "appender_define_eq a oth \<longleftrightarrow>
     ad_type a = ad_type oth \<and> ad_file a = ad_file oth \<and> ad_level a = ad_level oth \<and> ad_format a = ad_format oth"

record LogDefine =
  ld_name :: string
  ld_formatter :: string
  ld_appenders :: "LogAppenderDefine list"
  ld_level :: Level

definition LogDefine_new :: LogDefine where
  "LogDefine_new = \<lparr>ld_name = [], ld_formatter = [], ld_appenders = [], ld_level = DEBUG\<rparr>"

definition LogDefine_eq :: "LogDefine \<Rightarrow> LogDefine \<Rightarrow> bool" where
  "LogDefine_eq d oth \<longleftrightarrow>
     ld_name d = ld_name oth \<and> ld_formatter d = ld_formatter oth
     \<and> list_all2 appender_define_eq (ld_appenders d) (ld_appenders oth) \<and> ld_level d = ld_level oth"

definition LogDefine_less :: "LogDefine \<Rightarrow> LogDefine \<Rightarrow> bool" where
  "LogDefine_less d oth = str_less (ld_name d) (ld_name oth)"

section \<open>Conversions\<close>

text \<open>\<open>node[key]\<close> of a node that is no map, which may throw, and \<open>as<std::string>\<close> of one that is no scalar.\<close>

record yaml_access =
  key_other :: "yaml \<Rightarrow> string \<Rightarrow> cast_exn + yaml option"
  as_other :: "yaml \<Rightarrow> cast_exn + string"

fun yaml_get :: "yaml_access \<Rightarrow> yaml \<Rightarrow> string \<Rightarrow> cast_exn + yaml option" where
  "yaml_get A (YMap kvs) key = Inr (map_of kvs key)"
| "yaml_get A n key = key_other A n key"

fun as_string :: "yaml_access \<Rightarrow> yaml option \<Rightarrow> cast_exn + string" where
  "as_string A None = Inl other_exception"
| "as_string A (Some (YScalar s)) = Inr s"
| "as_string A (Some n) = as_other A n"

definition get_string :: "yaml_access \<Rightarrow> yaml \<Rightarrow> string \<Rightarrow> cast_exn + string" where
  "get_string A n key = bindC (yaml_get A n key) (as_string A)"

text \<open>One entry of \<open>appenders\<close>: nothing for an unknown type; the level and the format keep their defaults.\<close>

definition cast_appender :: "yaml_access \<Rightarrow> yaml \<Rightarrow> cast_exn + LogAppenderDefine list" where
  "cast_appender A a_node =
     bindC (get_string A a_node ''type'') (\<lambda>type.
       if type = ''FileLogAppender''
       then bindC (get_string A a_node ''file'') (\<lambda>file.
              Inr [LogAppenderDefine_new\<lparr>ad_type := type, ad_file := file, has_file := True\<rparr>])
       else if type = ''StdoutLogAppender'' then Inr [LogAppenderDefine_new\<lparr>ad_type := type\<rparr>]
       else Inr [])"

definition cast_appenders :: "yaml_lib \<Rightarrow> yaml_access \<Rightarrow> yaml option \<Rightarrow> cast_exn + LogAppenderDefine list" where
  "cast_appenders Y A nodes =
     (case nodes of
        None \<Rightarrow> Inr []
      | Some n \<Rightarrow> bindC (cast_all (\<lambda>a. cast_appender A (yaml_at Y n a)) [0..<yaml_size n]) (\<lambda>lads. Inr (concat lads)))"

text \<open>\<open>LexicalCast<std::string, LogDefine>\<close>, without the message it prints for a missing name.\<close>

definition cast_to_LogDefine :: "yaml_lib \<Rightarrow> yaml_access \<Rightarrow> (string, LogDefine) cast" where
  "cast_to_LogDefine Y A v =
     bindC (load_node Y v) (\<lambda>node.
     bindC (yaml_get A node ''name'') (\<lambda>name_node.
       case name_node of
         None \<Rightarrow> Inr LogDefine_new
       | Some n \<Rightarrow>
           bindC (as_string A (Some n)) (\<lambda>name.
           bindC (yaml_get A node ''level'') (\<lambda>level_node.
           bindC (case level_node of None \<Rightarrow> Inr ''DEBUG'' | Some l \<Rightarrow> as_string A (Some l)) (\<lambda>level.
           bindC (yaml_get A node ''formatter'') (\<lambda>formatter_node.
           bindC (case formatter_node of None \<Rightarrow> Inr [] | Some f \<Rightarrow> as_string A (Some f)) (\<lambda>formatter.
           bindC (yaml_get A node ''appenders'') (\<lambda>appenders_node.
           bindC (cast_appenders Y A appenders_node) (\<lambda>appenders.
             Inr \<lparr>ld_name = name, ld_formatter = formatter, ld_appenders = appenders, ld_level = FromString level\<rparr>)))))))))"

definition appender_node :: "LogAppenderDefine \<Rightarrow> yaml" where
  "appender_node i = YMap (
     [(''type'', YScalar (ad_type i))]
     @ (if ad_level i \<noteq> DEBUG then [(''level'', YScalar (ToString (ad_level i)))] else [])
     @ (if has_file i then [(''file'', YScalar (ad_file i))] else [])
     @ (if ad_format i \<noteq> [] then [(''format'', YScalar (ad_format i))] else []))"

definition LogDefine_node :: "LogDefine \<Rightarrow> yaml" where
  "LogDefine_node v = YMap (
     [(''name'', YScalar (ld_name v))]
     @ (if ld_level v \<noteq> DEBUG then [(''level'', YScalar (ToString (ld_level v)))] else [])
     @ (if ld_formatter v \<noteq> [] then [(''formatter'', YScalar (ld_formatter v))] else [])
     @ (if ld_appenders v = [] then [] else [(''appenders'', YSequence (map appender_node (ld_appenders v)))]))"

definition LogDefine_to_string :: "yaml_lib \<Rightarrow> (LogDefine, string) cast" where
  "LogDefine_to_string Y v = Inr (yaml_emit Y (LogDefine_node v))"

section \<open>The listener\<close>

text \<open>The body of both loops over the appenders of a definition.\<close>

definition add_defined :: "(string \<Rightarrow> bool) \<Rightarrow> string \<Rightarrow> nat \<Rightarrow> LogAppenderDefine \<Rightarrow> log_world \<Rightarrow> log_world" where
  "add_defined can_open name lg a w =
     (let (ap, w1) = (if ad_type a = ''FileLogAppender'' then FileLogAppender_new can_open (ad_file a) w
                      else StdoutLogAppender_new w);
          w2 = LogAppender_setLevel (ad_level a) ap w1;
          w3 = (if ad_format a \<noteq> []
                then (case LogFormatter_new (ad_format a) of
                        (fmt, cout) \<Rightarrow>
                          (if \<not> m_error fmt then LogAppender_setFormatter (Some fmt) ap (print cout w2)
                           else print (cout @ ''log.name='' @ name @ '' appender type='' @ ad_type a
                                       @ '' formatter='' @ ad_format a @ '' is invalid'' @ endl) w2))
                else w2)
      in addAppender ap lg w3)"

definition define_new :: "(string \<Rightarrow> bool) \<Rightarrow> LogDefine \<Rightarrow> log_world \<Rightarrow> log_world" where
  "define_new can_open i w =
     (let (lg, w1) = getLogger (ld_name i) w;
          w2 = Logger_setLevel (ld_level i) lg (clearAppenders lg w1);
          w3 = (if ld_formatter i \<noteq> [] then Logger_setPattern (ld_formatter i) lg w2 else w2)
      in fold (add_defined can_open (ld_name i) lg) (ld_appenders i) w3)"

definition define_changed :: "(string \<Rightarrow> bool) \<Rightarrow> LogDefine \<Rightarrow> log_world \<Rightarrow> log_world" where
  "define_changed can_open i w =
     (let (lg, w1) = getLogger (ld_name i) w;
          w2 = Logger_setLevel (ld_level i) lg w1;
          w3 = (if ld_formatter i \<noteq> [] then Logger_setPattern (ld_formatter i) lg w2 else w2)
      in fold (add_defined can_open (ld_name i) lg) (ld_appenders i) (clearAppenders lg w3))"

text \<open>The listener: definitions are found by name; one that is no longer there is not looked at.\<close>

definition define_one :: "(string \<Rightarrow> bool) \<Rightarrow> LogDefine list \<Rightarrow> LogDefine \<Rightarrow> log_world \<Rightarrow> log_world" where
  "define_one can_open old_value i w =
     (case sset_find LogDefine_less i old_value of
        None \<Rightarrow> define_new can_open i w
      | Some x \<Rightarrow> if \<not> LogDefine_eq i x then define_changed can_open i w else w)"

definition logs_changed :: "(string \<Rightarrow> bool) \<Rightarrow> LogDefine list \<Rightarrow> LogDefine list \<Rightarrow> log_world \<Rightarrow> log_world" where
  "logs_changed can_open old_value new_value w = fold (define_one can_open old_value) new_value w"

end
