(* ===== verification/Logger_Inv.thy ===== *)
theory Logger_Inv
  imports LogConfig Config_Props
begin

text \<open>
  The invariant of loggers and appenders, and that each of their operations keeps it.
\<close>

section \<open>The invariant\<close>

definition ready :: "appender list \<Rightarrow> nat \<Rightarrow> bool" where
  "ready as i \<longleftrightarrow> i < length as \<and> ap_formatter (as ! i) \<noteq> None"

definition logger_ok :: "appender list \<Rightarrow> logger \<Rightarrow> bool" where
  "logger_ok as l \<longleftrightarrow> lg_formatter l \<noteq> None \<and> lg_root l = None \<and> (\<forall>i \<in> set (lg_appenders l). ready as i)"

definition log_ok :: "log_world \<Rightarrow> bool" where
  "log_ok w \<longleftrightarrow>
     (\<forall>l \<in> set (lw_loggers w). logger_ok (lw_appenders w) l)
     \<and> sorted_wrt str_less (map fst (lw_managed w))
     \<and> (\<forall>(n, lg) \<in> set (lw_managed w). lg < length (lw_loggers w) \<and> lg_name (the_logger w lg) = n)
     \<and> lw_root w < length (lw_loggers w)"

named_theorems log_simps \<open>the fields the primitive operations change\<close>

lemma print_fields [simp, log_simps]:
  "lw_appenders (print s w) = lw_appenders w" "lw_loggers (print s w) = lw_loggers w"
  "lw_managed (print s w) = lw_managed w" "lw_root (print s w) = lw_root w" "lw_files (print s w) = lw_files w"
  "lw_stdout (print s w) = lw_stdout w @ s"
  by (simp_all add: print_def)

lemma put_appender_fields [simp, log_simps]:
  "lw_appenders (put_appender i a w) = (lw_appenders w)[i := a]" "lw_loggers (put_appender i a w) = lw_loggers w"
  "lw_managed (put_appender i a w) = lw_managed w" "lw_root (put_appender i a w) = lw_root w"
  "lw_files (put_appender i a w) = lw_files w" "lw_stdout (put_appender i a w) = lw_stdout w"
  by (simp_all add: put_appender_def)

lemma put_logger_fields [simp, log_simps]:
  "lw_loggers (put_logger i l w) = (lw_loggers w)[i := l]" "lw_appenders (put_logger i l w) = lw_appenders w"
  "lw_managed (put_logger i l w) = lw_managed w" "lw_root (put_logger i l w) = lw_root w"
  "lw_files (put_logger i l w) = lw_files w" "lw_stdout (put_logger i l w) = lw_stdout w"
  by (simp_all add: put_logger_def)

lemma ready_update: "ready as j \<Longrightarrow> ap_formatter a \<noteq> None \<or> \<not> ready as i \<Longrightarrow> ready (as[i := a]) j"
  by (cases "i = j"; cases "i < length as") (auto simp: ready_def)

lemma ready_append: "ready as j \<Longrightarrow> ready (as @ bs) j"
  by (auto simp: ready_def nth_append)

lemma logger_ok_mono: "logger_ok as l \<Longrightarrow> (\<And>j. ready as j \<Longrightarrow> ready bs j) \<Longrightarrow> logger_ok bs l"
  by (auto simp: logger_ok_def)

lemma log_ok_print [simp]: "log_ok (print s w) \<longleftrightarrow> log_ok w"
  by (simp add: log_ok_def)

lemma log_ok_put_appender:
  assumes "log_ok w" and "ap_formatter a \<noteq> None \<or> \<not> ready (lw_appenders w) i"
  shows "log_ok (put_appender i a w)"
  using assms ready_update [of "lw_appenders w" _ a i] unfolding log_ok_def
  by (auto elim!: logger_ok_mono)

lemma log_ok_put_logger:
  assumes "log_ok w" and "logger_ok (lw_appenders w) l" and "lg_name l = lg_name (the_logger w lg)"
  shows "log_ok (put_logger lg l w)"
proof -
  have "m \<in> set ((lw_loggers w)[lg := l]) \<Longrightarrow> m = l \<or> m \<in> set (lw_loggers w)" for m
    using set_update_subset_insert [of "lw_loggers w" lg l] by auto
  moreover have "lg_name ((lw_loggers w)[lg := l] ! k) = lg_name (the_logger w k)" if "k < length (lw_loggers w)" for k
    using that assms(3) by (cases "lg = k") simp_all
  ultimately show ?thesis using assms(1,2) unfolding log_ok_def by auto
qed

lemma log_ok_logger: "log_ok w \<Longrightarrow> lg < length (lw_loggers w) \<Longrightarrow> logger_ok (lw_appenders w) (the_logger w lg)"
  by (simp add: log_ok_def)

lemma log_ok_new_appender: "log_ok w \<Longrightarrow> log_ok (w\<lparr>lw_appenders := lw_appenders w @ as\<rparr>)"
  unfolding log_ok_def by (auto intro: logger_ok_mono ready_append)

lemma StdoutLogAppender_new_ok: "log_ok w \<Longrightarrow> log_ok (snd (StdoutLogAppender_new w))"
  by (simp add: StdoutLogAppender_new_def log_ok_new_appender)

lemma FileLogAppender_new_ok: "log_ok w \<Longrightarrow> log_ok (snd (FileLogAppender_new can_open f w))"
  by (simp add: FileLogAppender_new_def log_ok_new_appender)

lemma Logger_new_ok: "log_ok w \<Longrightarrow> log_ok (snd (Logger_new name w))"
  unfolding log_ok_def by (auto simp: Logger_new_def logger_ok_def nth_append)

lemma addAppender_ok:
  assumes "log_ok w" and "lg < length (lw_loggers w)" and "i < length (lw_appenders w)"
  shows "log_ok (addAppender i lg w)"
proof -
  have l: "logger_ok (lw_appenders w) (the_logger w lg)" using log_ok_logger assms by blast
  show ?thesis
  proof (cases "ap_formatter (the_appender w i) = None")
    case True
    let ?w = "put_appender i ((the_appender w i)\<lparr>ap_formatter := lg_formatter (the_logger w lg)\<rparr>) w"
    have "log_ok ?w" using assms True by (intro log_ok_put_appender) (auto simp: ready_def)
    moreover have "logger_ok (lw_appenders ?w) ((the_logger w lg)\<lparr>lg_appenders := lg_appenders (the_logger w lg) @ [i]\<rparr>)"
      using l ready_update [of "lw_appenders w" _ "(the_appender w i)\<lparr>ap_formatter := lg_formatter (the_logger w lg)\<rparr>" i] assms(3)
      by (auto simp: logger_ok_def ready_def)
    ultimately show ?thesis using True
      unfolding addAppender_def Let_def by (simp only: if_True) (rule log_ok_put_logger, simp_all)
  next
    case False
    with l assms show ?thesis
      by (auto simp: addAppender_def Let_def logger_ok_def ready_def intro!: log_ok_put_logger)
  qed
qed

lemma delAppender_ok:
  assumes "log_ok w" and "lg < length (lw_loggers w)"
  shows "log_ok (delAppender i lg w)"
proof -
  let ?l = "the_logger w lg"
  have "\<forall>j \<in> set (remove_first (\<lambda>j. j = i) (lg_appenders ?l)). ready (lw_appenders w) j"
    using log_ok_logger [OF assms] set_remove_first_subset [of "\<lambda>j. j = i" "lg_appenders ?l"]
    unfolding logger_ok_def by blast
  with log_ok_logger [OF assms] have "logger_ok (lw_appenders w) (?l\<lparr>lg_appenders := remove_first (\<lambda>j. j = i) (lg_appenders ?l)\<rparr>)"
    by (simp add: logger_ok_def)
  with assms(1) show ?thesis by (simp add: delAppender_def Let_def log_ok_put_logger)
qed

lemma clearAppenders_ok: "log_ok w \<Longrightarrow> lg < length (lw_loggers w) \<Longrightarrow> log_ok (clearAppenders lg w)"
  using log_ok_logger [of w lg] by (auto simp: clearAppenders_def logger_ok_def intro!: log_ok_put_logger)

lemma Logger_setLevel_ok: "log_ok w \<Longrightarrow> lg < length (lw_loggers w) \<Longrightarrow> log_ok (Logger_setLevel val lg w)"
  using log_ok_logger [of w lg] by (auto simp: Logger_setLevel_def logger_ok_def intro!: log_ok_put_logger)

lemma LogAppender_setLevel_ok: "log_ok w \<Longrightarrow> log_ok (LogAppender_setLevel val i w)"
  by (auto simp: LogAppender_setLevel_def ready_def intro!: log_ok_put_appender)

lemma LogAppender_setFormatter_ok: "log_ok w \<Longrightarrow> log_ok (LogAppender_setFormatter (Some f) i w)"
  by (auto simp: LogAppender_setFormatter_def intro!: log_ok_put_appender)

lemma inherit_ok: "log_ok w \<Longrightarrow> val \<noteq> None \<Longrightarrow> log_ok (inherit val i w)"
  by (auto simp: inherit_def Let_def intro!: log_ok_put_appender)

lemma fold_inherit_ok: "val \<noteq> None \<Longrightarrow> log_ok w \<Longrightarrow> log_ok (fold (inherit val) is w)"
  by (induction "is" arbitrary: w) (simp_all add: inherit_ok)

lemma Logger_setFormatter_ok:
  "log_ok w \<Longrightarrow> lg < length (lw_loggers w) \<Longrightarrow> log_ok (Logger_setFormatter (Some f) lg w)"
  using log_ok_logger [of w lg]
  by (auto simp: Logger_setFormatter_def logger_ok_def intro!: fold_inherit_ok log_ok_put_logger)

lemma Logger_setPattern_ok:
  "log_ok w \<Longrightarrow> lg < length (lw_loggers w) \<Longrightarrow> log_ok (Logger_setPattern val lg w)"
  by (auto simp: Logger_setPattern_def Let_def intro!: Logger_setFormatter_ok split: prod.splits)

lemma log_ok_names: "log_ok w \<Longrightarrow> smap_find str_less name (lw_managed w) = Some lg \<Longrightarrow> lg < length (lw_loggers w) \<and> lg_name (the_logger w lg) = name"
  using keys.smap_find_some [of name "lw_managed w" lg] by (auto simp: log_ok_def keys_equiv)

text \<open>What \<open>getLogger\<close> returns, and that it only adds.\<close>

definition extends :: "log_world \<Rightarrow> log_world \<Rightarrow> bool" where
  "extends w w' \<longleftrightarrow> (\<exists>ls as. lw_loggers w' = lw_loggers w @ ls \<and> lw_appenders w' = lw_appenders w @ as)"

lemma getLogger_new:
  assumes "smap_find str_less name (lw_managed w) = None"
  shows "getLogger name w =
    (length (lw_loggers w),
     w\<lparr>lw_loggers := lw_loggers w @ [\<lparr>lg_name = name, lg_level = DEBUG, lg_appenders = [length (lw_appenders w)],
          lg_formatter = Some (fst (LogFormatter_new default_pattern)), lg_root = None\<rparr>],
       lw_appenders := lw_appenders w @ [\<lparr>ap_class = StdoutLogAppender, ap_level = DEBUG,
          ap_formatter = Some (fst (LogFormatter_new default_pattern)), ap_hasFormatter = False, ap_good = True, ap_lastTime = 0\<rparr>],
       lw_managed := smap_set str_less name (length (lw_loggers w)) (lw_managed w)\<rparr>)"
  using assms
  by (simp add: getLogger_def Logger_new_def StdoutLogAppender_new_def addAppender_def Let_def put_appender_def put_logger_def)

lemma getLogger_ok:
  assumes "log_ok w"
  shows "log_ok (snd (getLogger name w)) \<and> extends w (snd (getLogger name w))
    \<and> smap_find str_less name (lw_managed (snd (getLogger name w))) = Some (fst (getLogger name w))"
proof (cases "smap_find str_less name (lw_managed w)")
  case (Some lg)
  then show ?thesis using assms by (simp add: getLogger_def extends_def)
next
  case None
  let ?m = "smap_set str_less name (length (lw_loggers w)) (lw_managed w)"
  have m: "(n, k) \<in> set ?m \<Longrightarrow> (n, k) = (name, length (lw_loggers w)) \<or> (n, k) \<in> set (lw_managed w)" for n k
  proof -
    have "set (smap_set str_less a b xs) \<subseteq> insert (a, b) (set xs)" if "smap_find str_less a xs = None" for a b and xs :: "(string \<times> nat) list"
      using that by (induction str_less a b xs rule: smap_set.induct) (auto split: if_splits)
    then show "(n, k) \<in> set ?m \<Longrightarrow> (n, k) = (name, length (lw_loggers w)) \<or> (n, k) \<in> set (lw_managed w)"
      using None by blast
  qed
  have sorted: "sorted_wrt str_less (map fst ?m)"
    using assms by (intro keys.smap_set_sorted) (simp add: log_ok_def)
  let ?l = "\<lparr>lg_name = name, lg_level = DEBUG, lg_appenders = [length (lw_appenders w)],
    lg_formatter = Some (fst (LogFormatter_new default_pattern)), lg_root = None\<rparr>"
  let ?a = "\<lparr>ap_class = StdoutLogAppender, ap_level = DEBUG,
    ap_formatter = Some (fst (LogFormatter_new default_pattern)), ap_hasFormatter = False, ap_good = True, ap_lastTime = 0\<rparr>"
  have new: "logger_ok (lw_appenders w @ [?a]) ?l" by (simp add: logger_ok_def ready_def)
  have old: "logger_ok (lw_appenders w @ [?a]) l" if "l \<in> set (lw_loggers w)" for l
    using assms that by (auto simp: log_ok_def intro: logger_ok_mono ready_append)
  have named: "\<forall>(n, k) \<in> set ?m. k < length (lw_loggers w @ [?l]) \<and> lg_name ((lw_loggers w @ [?l]) ! k) = n"
    using assms m by (fastforce simp: log_ok_def nth_append)
  have "log_ok (snd (getLogger name w))"
    using assms sorted new old named by (simp add: getLogger_new [OF None] log_ok_def)
  then show ?thesis
    by (simp add: getLogger_new [OF None] extends_def keys.smap_find_set keys_equiv)
qed

lemma LoggerManager_new_ok: "log_ok (LoggerManager_new name)"
  by (simp add: LoggerManager_new_def Logger_new_def StdoutLogAppender_new_def addAppender_def Let_def log_ok_def
      logger_ok_def ready_def)

end
