(* ===== verification/LogConfig_Props.thy ===== *)
theory LogConfig_Props
  imports Logger_Inv
begin

text \<open>
  What a changed set of definitions does to the loggers, and the text of a definition.
\<close>

section \<open>Applying definitions keeps it\<close>

lemma length_fields [simp]:
  "length (lw_loggers (addAppender i lg w)) = length (lw_loggers w)"
  "length (lw_loggers (clearAppenders lg w)) = length (lw_loggers w)"
  "length (lw_loggers (Logger_setLevel val lg w)) = length (lw_loggers w)"
  "length (lw_loggers (LogAppender_setLevel lv i w)) = length (lw_loggers w)"
  "length (lw_loggers (LogAppender_setFormatter f i w)) = length (lw_loggers w)"
  "length (lw_appenders (LogAppender_setLevel lv i w)) = length (lw_appenders w)"
  "length (lw_appenders (LogAppender_setFormatter f i w)) = length (lw_appenders w)"
  by (simp_all add: addAppender_def Let_def clearAppenders_def Logger_setLevel_def LogAppender_setLevel_def LogAppender_setFormatter_def)

lemma fold_inherit_loggers [simp]: "lw_loggers (fold (inherit val) is w) = lw_loggers w"
  by (induction "is" arbitrary: w) (simp_all add: inherit_def Let_def)

lemma length_setPattern [simp]: "length (lw_loggers (Logger_setPattern val lg w)) = length (lw_loggers w)"
  by (simp add: Logger_setPattern_def Let_def Logger_setFormatter_def split: prod.splits)

text \<open>The appender a definition asks for, under the logger's formatter.\<close>

definition usable :: "string \<Rightarrow> bool" where
  "usable fmt \<longleftrightarrow> fmt \<noteq> [] \<and> \<not> m_error (fst (LogFormatter_new fmt))"

definition appender_made :: "(string \<Rightarrow> bool) \<Rightarrow> LogFormatter option \<Rightarrow> LogAppenderDefine \<Rightarrow> appender" where
  "appender_made can_open f a =
     \<lparr>ap_class = (if ad_type a = ''FileLogAppender'' then FileLogAppender (ad_file a) else StdoutLogAppender),
      ap_level = ad_level a,
      ap_formatter = (if usable (ad_format a) then Some (fst (LogFormatter_new (ad_format a))) else f),
      ap_hasFormatter = usable (ad_format a),
      ap_good = (ad_type a = ''FileLogAppender'' \<longrightarrow> can_open (c_str (ad_file a))),
      ap_lastTime = 0\<rparr>"

lemma add_defined_effect:
  "lw_appenders (add_defined can_open name lg a w) =
     lw_appenders w @ [appender_made can_open (lg_formatter (the_logger w lg)) a]"
  "lw_loggers (add_defined can_open name lg a w) =
     (lw_loggers w)[lg := (the_logger w lg)\<lparr>lg_appenders := lg_appenders (the_logger w lg) @ [length (lw_appenders w)]\<rparr>]"
  "lw_managed (add_defined can_open name lg a w) = lw_managed w"
  "lw_root (add_defined can_open name lg a w) = lw_root w"
  by (simp_all add: add_defined_def FileLogAppender_new_def StdoutLogAppender_new_def reopen_def LogAppender_setLevel_def
      LogAppender_setFormatter_def addAppender_def Let_def appender_made_def usable_def nth_append split: prod.splits)

lemma fold_add_defined_effect:
  assumes "lg < length (lw_loggers w)"
  shows "lw_appenders (fold (add_defined can_open name lg) as w) =
      lw_appenders w @ map (appender_made can_open (lg_formatter (the_logger w lg))) as
    \<and> lw_loggers (fold (add_defined can_open name lg) as w) =
      (lw_loggers w)[lg := (the_logger w lg)\<lparr>lg_appenders := lg_appenders (the_logger w lg)
          @ [length (lw_appenders w)..<length (lw_appenders w) + length as]\<rparr>]
    \<and> lw_managed (fold (add_defined can_open name lg) as w) = lw_managed w
    \<and> lw_root (fold (add_defined can_open name lg) as w) = lw_root w"
  using assms
proof (induction as arbitrary: w)
  case Nil
  then show ?case by simp
next
  case (Cons a as)
  have "[length (lw_appenders w)..<length (lw_appenders w) + length (a # as)] =
    length (lw_appenders w) # [Suc (length (lw_appenders w))..<Suc (length (lw_appenders w)) + length as]"
    by (simp add: upt_conv_Cons del: upt_Suc)
  then show ?case using Cons.prems by (simp add: Cons.IH add_defined_effect del: upt_Suc)
qed

lemma add_defined_ok: "log_ok w \<Longrightarrow> lg < length (lw_loggers w) \<Longrightarrow> log_ok (add_defined can_open name lg a w)"
  by (auto simp: add_defined_def Let_def FileLogAppender_new_def StdoutLogAppender_new_def split: prod.splits
      intro!: addAppender_ok LogAppender_setFormatter_ok LogAppender_setLevel_ok log_ok_new_appender)

lemma fold_add_defined_ok:
  "log_ok w \<Longrightarrow> lg < length (lw_loggers w) \<Longrightarrow> log_ok (fold (add_defined can_open name lg) as w)"
  by (induction as arbitrary: w) (simp_all add: add_defined_ok add_defined_effect)

lemma fold_inherit_appenders:
  "length (lw_appenders (fold (inherit val) is w)) = length (lw_appenders w)
   \<and> (i \<notin> set is \<longrightarrow> the_appender (fold (inherit val) is w) i = the_appender w i)"
  by (induction "is" arbitrary: w) (simp_all add: inherit_def Let_def)

lemma fold_inherit_managed [simp]:
  "lw_managed (fold (inherit val) is w) = lw_managed w" "lw_root (fold (inherit val) is w) = lw_root w"
  by (induction "is" arbitrary: w) (simp_all add: inherit_def Let_def)

text \<open>The formatter a definition's logger ends up with.\<close>

definition formatter_after :: "string \<Rightarrow> LogFormatter option \<Rightarrow> LogFormatter option" where
  "formatter_after fmt f = (if usable fmt then Some (fst (LogFormatter_new fmt)) else f)"

lemma set_pattern_effect:
  assumes "lg < length (lw_loggers w)" and "fmt \<noteq> [] \<Longrightarrow> w' = Logger_setPattern fmt lg w" and "fmt = [] \<Longrightarrow> w' = w"
  shows "lw_loggers w' = (lw_loggers w)[lg := (the_logger w lg)\<lparr>lg_formatter := formatter_after fmt (lg_formatter (the_logger w lg))\<rparr>]"
    and "length (lw_appenders w') = length (lw_appenders w)"
    and "i \<notin> set (lg_appenders (the_logger w lg)) \<Longrightarrow> the_appender w' i = the_appender w i"
    and "lw_managed w' = lw_managed w"
  using assms fold_inherit_appenders
  by (cases "fmt = []"; simp add: Logger_setPattern_def Let_def Logger_setFormatter_def formatter_after_def usable_def
      split: prod.splits)+

section \<open>One definition\<close>

definition defined_as :: "(string \<Rightarrow> bool) \<Rightarrow> log_world \<Rightarrow> nat \<Rightarrow> LogDefine \<Rightarrow> bool" where
  "defined_as can_open w lg d \<longleftrightarrow>
     (let l = the_logger w lg in
      lg < length (lw_loggers w) \<and> lg_level l = ld_level d
      \<and> (usable (ld_formatter d) \<longrightarrow> lg_formatter l = Some (fst (LogFormatter_new (ld_formatter d))))
      \<and> map (the_appender w) (lg_appenders l) = map (appender_made can_open (lg_formatter l)) (ld_appenders d))"

text \<open>Everything but the logger \<open>lg\<close> named \<open>n\<close> and the appenders it had is as before; it has new appenders.\<close>

definition only_logger :: "string \<Rightarrow> nat \<Rightarrow> log_world \<Rightarrow> log_world \<Rightarrow> bool" where
  "only_logger n lg w w' \<longleftrightarrow>
     length (lw_loggers w) \<le> length (lw_loggers w') \<and> length (lw_appenders w) \<le> length (lw_appenders w')
     \<and> (\<forall>k < length (lw_loggers w). k \<noteq> lg \<longrightarrow> the_logger w' k = the_logger w k)
     \<and> (\<forall>k < length (lw_loggers w'). length (lw_loggers w) \<le> k \<longrightarrow> k = lg)
     \<and> (\<forall>i < length (lw_appenders w). (lg < length (lw_loggers w) \<longrightarrow> i \<notin> set (lg_appenders (the_logger w lg)))
          \<longrightarrow> the_appender w' i = the_appender w i)
     \<and> (\<forall>m. m \<noteq> n \<longrightarrow> smap_find str_less m (lw_managed w') = smap_find str_less m (lw_managed w))
     \<and> (\<forall>i \<in> set (lg_appenders (the_logger w' lg)). length (lw_appenders w) \<le> i)"

lemma getLogger_facts:
  assumes "log_ok w" and "getLogger n w = (lg, w1)"
  shows "log_ok w1" and "lg < length (lw_loggers w1)" and "smap_find str_less n (lw_managed w1) = Some lg"
    and "length (lw_loggers w) \<le> length (lw_loggers w1)" "length (lw_appenders w) \<le> length (lw_appenders w1)"
    and "k < length (lw_loggers w) \<Longrightarrow> the_logger w1 k = the_logger w k"
    and "i < length (lw_appenders w) \<Longrightarrow> the_appender w1 i = the_appender w i"
    and "m \<noteq> n \<Longrightarrow> smap_find str_less m (lw_managed w1) = smap_find str_less m (lw_managed w)"
    and "\<not> lg < length (lw_loggers w) \<Longrightarrow> j \<in> set (lg_appenders (the_logger w1 lg)) \<Longrightarrow> length (lw_appenders w) \<le> j"
    and "length (lw_loggers w) \<le> k \<Longrightarrow> k < length (lw_loggers w1) \<Longrightarrow> k = lg"
proof -
  show ok: "log_ok w1" and found: "smap_find str_less n (lw_managed w1) = Some lg"
    using getLogger_ok [OF assms(1), of n] assms(2) by simp_all
  show "lg < length (lw_loggers w1)" using log_ok_names [OF ok found] by simp
  have e: "extends w w1" using getLogger_ok [OF assms(1), of n] assms(2) by simp
  then show "length (lw_loggers w) \<le> length (lw_loggers w1)" "length (lw_appenders w) \<le> length (lw_appenders w1)"
    "k < length (lw_loggers w) \<Longrightarrow> the_logger w1 k = the_logger w k"
    "i < length (lw_appenders w) \<Longrightarrow> the_appender w1 i = the_appender w i"
    by (auto simp: extends_def nth_append)
  show "m \<noteq> n \<Longrightarrow> smap_find str_less m (lw_managed w1) = smap_find str_less m (lw_managed w)"
  proof (cases "smap_find str_less n (lw_managed w)")
    case None
    then show "m \<noteq> n \<Longrightarrow> ?thesis"
      using assms(2) getLogger_new [OF None] by (auto simp: keys.smap_find_set keys_equiv)
  next
    case (Some k)
    then show ?thesis using assms(2) by (simp add: getLogger_def)
  qed
  show "length (lw_loggers w) \<le> k \<Longrightarrow> k < length (lw_loggers w1) \<Longrightarrow> k = lg"
    using assms(2) getLogger_new [of n w]
    by (cases "smap_find str_less n (lw_managed w)") (auto simp: getLogger_def)
  show "\<not> lg < length (lw_loggers w) \<Longrightarrow> j \<in> set (lg_appenders (the_logger w1 lg)) \<Longrightarrow> length (lw_appenders w) \<le> j"
  proof (cases "smap_find str_less n (lw_managed w)")
    case None
    then show "j \<in> set (lg_appenders (the_logger w1 lg)) \<Longrightarrow> ?thesis"
      using assms(2) getLogger_new [OF None] by auto
  next
    case (Some k)
    then show "\<not> lg < length (lw_loggers w) \<Longrightarrow> ?thesis"
      using log_ok_names [OF assms(1) Some] assms(2) by (simp add: getLogger_def)
  qed
qed

text \<open>
  Both branches of the listener, up to the appenders, leave the same: the logger with its new
  level and formatter and without appenders.
\<close>

definition prepared :: "LogDefine \<Rightarrow> nat \<Rightarrow> log_world \<Rightarrow> log_world \<Rightarrow> bool" where
  "prepared d lg w1 w2 \<longleftrightarrow> log_ok w2
     \<and> lw_loggers w2 = (lw_loggers w1)[lg := (the_logger w1 lg)\<lparr>lg_level := ld_level d, lg_appenders := [],
          lg_formatter := formatter_after (ld_formatter d) (lg_formatter (the_logger w1 lg))\<rparr>]
     \<and> length (lw_appenders w2) = length (lw_appenders w1)
     \<and> (\<forall>i. i \<notin> set (lg_appenders (the_logger w1 lg)) \<longrightarrow> the_appender w2 i = the_appender w1 i)
     \<and> lw_managed w2 = lw_managed w1"

lemma add_prepared:
  fixes can_open :: "string \<Rightarrow> bool"
  assumes g: "log_ok w" "getLogger (ld_name d) w = (lg, w1)" and p: "prepared d lg w1 w2"
  defines "w' \<equiv> fold (add_defined can_open (ld_name d) lg) (ld_appenders d) w2"
  shows "log_ok w' \<and> smap_find str_less (ld_name d) (lw_managed w') = Some lg
    \<and> defined_as can_open w' lg d \<and> only_logger (ld_name d) lg w w'"
proof -
  note G = getLogger_facts [OF g]
  have lg: "lg < length (lw_loggers w2)" and ok: "log_ok w2" using p G(2) by (auto simp: prepared_def)
  note F = fold_add_defined_effect [OF lg, of can_open "ld_name d" "ld_appenders d", folded w'_def]
  have "log_ok w'" unfolding w'_def by (rule fold_add_defined_ok [OF ok lg])
  moreover have "smap_find str_less (ld_name d) (lw_managed w') = Some lg"
    using F p G(3) by (simp add: prepared_def)
  moreover have "defined_as can_open w' lg d"
  proof -
    have "map (the_appender w') [length (lw_appenders w2)..<length (lw_appenders w2) + length (ld_appenders d)] =
        map (appender_made can_open (lg_formatter (the_logger w2 lg))) (ld_appenders d)"
      by (rule nth_equalityI) (simp_all add: F nth_append)
    then show ?thesis
      using F p lg by (simp add: defined_as_def Let_def prepared_def formatter_after_def)
  qed
  moreover have "only_logger (ld_name d) lg w w'"
    unfolding only_logger_def
  proof (intro conjI allI impI ballI)
    show "length (lw_loggers w) \<le> length (lw_loggers w')" "length (lw_appenders w) \<le> length (lw_appenders w')"
      using F p G(4,5) by (simp_all add: prepared_def)
    show "the_logger w' k = the_logger w k" if "k < length (lw_loggers w)" "k \<noteq> lg" for k
      using F p G(6) that by (simp add: prepared_def)
    show "k = lg" if "k < length (lw_loggers w')" "length (lw_loggers w) \<le> k" for k
      using F p G(10) that by (simp add: prepared_def)
    show "the_appender w' i = the_appender w i"
      if i: "i < length (lw_appenders w)" "lg < length (lw_loggers w) \<longrightarrow> i \<notin> set (lg_appenders (the_logger w lg))" for i
    proof -
      have "i \<notin> set (lg_appenders (the_logger w1 lg))"
        using i G(6) [of lg] G(9) [of i] by (cases "lg < length (lw_loggers w)") auto
      then show ?thesis using F p G(5) G(7) [of i] i by (simp add: prepared_def nth_append)
    qed
    show "smap_find str_less m (lw_managed w') = smap_find str_less m (lw_managed w)" if "m \<noteq> ld_name d" for m
      using F p G(8) that by (simp add: prepared_def)
    show "length (lw_appenders w) \<le> i" if "i \<in> set (lg_appenders (the_logger w' lg))" for i
      using that F p lg G(5) by (auto simp: prepared_def)
  qed
  ultimately show ?thesis by blast
qed

lemma logger_update_order:
  "l\<lparr>lg_appenders := is, lg_level := v\<rparr> = l\<lparr>lg_level := v, lg_appenders := is\<rparr>"
  "l\<lparr>lg_formatter := f, lg_appenders := is\<rparr> = l\<lparr>lg_appenders := is, lg_formatter := f\<rparr>"
  for l :: logger
  by (cases l; simp)+

lemma prepared_new:
  fixes d :: LogDefine
  assumes "log_ok w1" and lg: "lg < length (lw_loggers w1)"
  defines "w2 \<equiv> Logger_setLevel (ld_level d) lg (clearAppenders lg w1)"
  shows "prepared d lg w1 (if ld_formatter d \<noteq> [] then Logger_setPattern (ld_formatter d) lg w2 else w2)"
proof -
  have w2: "lw_loggers w2 = (lw_loggers w1)[lg := (the_logger w1 lg)\<lparr>lg_level := ld_level d, lg_appenders := []\<rparr>]"
    "lw_appenders w2 = lw_appenders w1" "lw_managed w2 = lw_managed w1" "lg < length (lw_loggers w2)"
    using lg by (simp_all add: w2_def Logger_setLevel_def clearAppenders_def logger_update_order)
  have ok: "log_ok w2" unfolding w2_def using assms(1) lg by (simp add: clearAppenders_ok Logger_setLevel_ok)
  define w3 where "w3 = (if ld_formatter d \<noteq> [] then Logger_setPattern (ld_formatter d) lg w2 else w2)"
  have "log_ok w3" using ok w2(4) by (simp add: w3_def Logger_setPattern_ok)
  moreover note set_pattern_effect [OF w2(4), of "ld_formatter d" w3]
  ultimately show ?thesis using w2 lg unfolding w3_def [symmetric]
    by (simp add: w3_def prepared_def logger_update_order)
qed

lemma prepared_changed:
  fixes d :: LogDefine
  assumes "log_ok w1" and lg: "lg < length (lw_loggers w1)"
  defines "w2 \<equiv> Logger_setLevel (ld_level d) lg w1"
  shows "prepared d lg w1 (clearAppenders lg (if ld_formatter d \<noteq> [] then Logger_setPattern (ld_formatter d) lg w2 else w2))"
proof -
  have w2: "lw_loggers w2 = (lw_loggers w1)[lg := (the_logger w1 lg)\<lparr>lg_level := ld_level d\<rparr>]"
    "lw_appenders w2 = lw_appenders w1" "lw_managed w2 = lw_managed w1" "lg < length (lw_loggers w2)"
    using lg by (simp_all add: w2_def Logger_setLevel_def)
  have ok: "log_ok w2" unfolding w2_def using assms(1) lg by (simp add: Logger_setLevel_ok)
  define w3 where "w3 = (if ld_formatter d \<noteq> [] then Logger_setPattern (ld_formatter d) lg w2 else w2)"
  have "log_ok w3" using ok w2(4) by (simp add: w3_def Logger_setPattern_ok)
  moreover note E = set_pattern_effect [OF w2(4), of "ld_formatter d" w3]
  moreover have "lg < length (lw_loggers w3)" using E(1) w2(4) by (simp add: w3_def)
  ultimately show ?thesis
    using w2 lg clearAppenders_ok [of w3 lg] unfolding w3_def [symmetric]
    by (simp add: prepared_def) (simp add: w3_def clearAppenders_def logger_update_order)
qed

text \<open>A definition that is new or differs from the old one of its name.\<close>

definition is_changed :: "LogDefine list \<Rightarrow> LogDefine \<Rightarrow> bool" where
  "is_changed old_value d =
     (case sset_find LogDefine_less d old_value of None \<Rightarrow> True | Some x \<Rightarrow> \<not> LogDefine_eq d x)"

lemma define_one_same: "\<not> is_changed old d \<Longrightarrow> define_one can_open old d w = w"
  by (simp add: is_changed_def define_one_def split: option.splits)

lemma define_one_changed:
  assumes ok: "log_ok w" and "is_changed old d"
  obtains lg where "log_ok (define_one can_open old d w)"
    and "smap_find str_less (ld_name d) (lw_managed (define_one can_open old d w)) = Some lg"
    and "smap_find str_less (ld_name d) (lw_managed w) = Some k \<longrightarrow> k = lg"
    and "defined_as can_open (define_one can_open old d w) lg d"
    and "only_logger (ld_name d) lg w (define_one can_open old d w)"
proof -
  obtain lg w1 where g: "getLogger (ld_name d) w = (lg, w1)" by (cases "getLogger (ld_name d) w")
  note G = getLogger_facts [OF ok g]
  have k: "smap_find str_less (ld_name d) (lw_managed w) = Some k \<longrightarrow> k = lg"
    using g by (auto simp: getLogger_def)
  have "define_one can_open old d w = define_new can_open d w \<or> define_one can_open old d w = define_changed can_open d w"
    using assms(2) by (simp add: is_changed_def define_one_def split: option.splits)
  then obtain w2 where "prepared d lg w1 w2"
    and "define_one can_open old d w = fold (add_defined can_open (ld_name d) lg) (ld_appenders d) w2"
    using prepared_new [OF G(1,2), of d] prepared_changed [OF G(1,2), of d]
    by (auto simp: define_new_def define_changed_def g Let_def)
  with add_prepared [OF ok g, of w2 can_open] k that show ?thesis by simp
qed

lemma define_one_ok: "log_ok w \<Longrightarrow> log_ok (define_one can_open old d w)"
  by (metis define_one_changed define_one_same)

text \<open>What a step for another name leaves of a logger that shares its appenders with no other.\<close>

definition unshared :: "log_world \<Rightarrow> nat \<Rightarrow> bool" where
  "unshared w lg \<longleftrightarrow>
     (\<forall>k < length (lw_loggers w). k \<noteq> lg \<longrightarrow> set (lg_appenders (the_logger w k)) \<inter> set (lg_appenders (the_logger w lg)) = {})"

lemma ready_length: "logger_ok as l \<Longrightarrow> i \<in> set (lg_appenders l) \<Longrightarrow> i < length as"
  by (simp add: logger_ok_def ready_def)

lemma only_logger_unshared:
  assumes "log_ok w" and "only_logger n lg w w'"
  shows "unshared w' lg"
  unfolding unshared_def
proof (intro allI impI)
  fix k assume k: "k < length (lw_loggers w')" "k \<noteq> lg"
  then have "\<not> length (lw_loggers w) \<le> k" using assms(2) by (auto simp: only_logger_def)
  then have "k < length (lw_loggers w)" by simp
  then have "the_logger w' k = the_logger w k" and "logger_ok (lw_appenders w) (the_logger w k)"
    using assms(1,2) k by (auto simp: only_logger_def log_ok_def)
  then have "\<forall>i \<in> set (lg_appenders (the_logger w' k)). i < length (lw_appenders w)"
    using ready_length by auto
  moreover have "\<forall>i \<in> set (lg_appenders (the_logger w' lg)). length (lw_appenders w) \<le> i"
    using assms(2) by (simp add: only_logger_def)
  ultimately show "set (lg_appenders (the_logger w' k)) \<inter> set (lg_appenders (the_logger w' lg)) = {}"
    by (meson disjoint_iff not_le)
qed

section \<open>A set of definitions\<close>

definition in_force :: "(string \<Rightarrow> bool) \<Rightarrow> log_world \<Rightarrow> LogDefine \<Rightarrow> bool" where
  "in_force can_open w d \<longleftrightarrow>
     (\<exists>lg. smap_find str_less (ld_name d) (lw_managed w) = Some lg \<and> defined_as can_open w lg d \<and> unshared w lg)"

lemma define_one_in_force:
  assumes ok: "log_ok w" and "in_force can_open w d" and ne: "ld_name d' \<noteq> ld_name d"
  shows "in_force can_open (define_one can_open old d' w) d"
proof (cases "is_changed old d'")
  case False
  with assms show ?thesis by (simp add: define_one_same)
next
  case True
  let ?w = "define_one can_open old d' w"
  obtain lg where lg: "smap_find str_less (ld_name d) (lw_managed w) = Some lg" "defined_as can_open w lg d" "unshared w lg"
    using assms(2) by (auto simp: in_force_def)
  obtain k where k: "log_ok ?w" "smap_find str_less (ld_name d') (lw_managed ?w) = Some k" "only_logger (ld_name d') k w ?w"
    using define_one_changed [OF ok True, where can_open = can_open] by blast
  have find: "smap_find str_less (ld_name d) (lw_managed ?w) = Some lg"
    using k(3) lg(1) ne by (simp add: only_logger_def)
  have "lg \<noteq> k" using log_ok_names [OF k(1) find] log_ok_names [OF k(1) k(2)] ne by auto
  moreover have lgw: "lg < length (lw_loggers w)" using log_ok_names [OF ok lg(1)] by simp
  ultimately have same: "the_logger ?w lg = the_logger w lg" using k(3) by (simp add: only_logger_def)
  have mine: "i < length (lw_appenders w)" if "i \<in> set (lg_appenders (the_logger w lg))" for i
    using ready_length [OF log_ok_logger [OF ok lgw] that] .
  have apart: "i \<notin> set (lg_appenders (the_logger w k))" if "i \<in> set (lg_appenders (the_logger w lg))" "k < length (lw_loggers w)" for i
    using lg(3) that \<open>lg \<noteq> k\<close> by (auto simp: unshared_def)
  have "the_appender ?w i = the_appender w i" if "i \<in> set (lg_appenders (the_logger w lg))" for i
    using k(3) mine [OF that] apart [OF that] by (simp add: only_logger_def)
  then have "defined_as can_open ?w lg d"
    using lg(2) same k(3) by (auto simp: defined_as_def Let_def only_logger_def cong: map_cong)
  moreover have "unshared ?w lg"
    unfolding unshared_def
  proof (intro allI impI)
    fix j assume j: "j < length (lw_loggers ?w)" "j \<noteq> lg"
    show "set (lg_appenders (the_logger ?w j)) \<inter> set (lg_appenders (the_logger ?w lg)) = {}"
    proof (cases "j = k")
      case True
      have "\<forall>i \<in> set (lg_appenders (the_logger ?w k)). length (lw_appenders w) \<le> i"
        using k(3) by (simp add: only_logger_def)
      then show ?thesis using mine True by (auto simp: same dest: leD)
    next
      case False
      then have "\<not> length (lw_loggers w) \<le> j" using j k(3) by (auto simp: only_logger_def)
      then show ?thesis using False j lg(3) k(3) by (simp add: same unshared_def only_logger_def)
    qed
  qed
  ultimately show ?thesis using find by (auto simp: in_force_def)
qed

lemma fold_define_ok: "log_ok w \<Longrightarrow> log_ok (fold (define_one can_open old) ds w)"
  by (induction ds arbitrary: w) (simp_all add: define_one_ok)

lemma fold_define_in_force:
  "log_ok w \<Longrightarrow> in_force can_open w d \<Longrightarrow> ld_name d \<notin> ld_name ` set ds \<Longrightarrow>
   in_force can_open (fold (define_one can_open old) ds w) d"
  by (induction ds arbitrary: w) (auto simp: define_one_in_force define_one_ok)

lemma define_one_starts: "log_ok w \<Longrightarrow> is_changed old d \<Longrightarrow> in_force can_open (define_one can_open old d w) d"
proof -
  assume a: "log_ok w" "is_changed old d"
  then obtain lg where "smap_find str_less (ld_name d) (lw_managed (define_one can_open old d w)) = Some lg"
    "defined_as can_open (define_one can_open old d w) lg d" "only_logger (ld_name d) lg w (define_one can_open old d w)"
    using define_one_changed [OF a, where can_open = can_open] by blast
  then show ?thesis using only_logger_unshared [OF a(1)] by (auto simp: in_force_def)
qed

lemma fold_define_starts:
  "log_ok w \<Longrightarrow> distinct (map ld_name ds) \<Longrightarrow> d \<in> set ds \<Longrightarrow> is_changed old d \<Longrightarrow>
   in_force can_open (fold (define_one can_open old) ds w) d"
proof (induction ds arbitrary: w)
  case (Cons a ds)
  show ?case
  proof (cases "d = a")
    case True
    with Cons.prems show ?thesis
      using fold_define_in_force [of "define_one can_open old d w" can_open d ds old]
      by (simp add: define_one_starts define_one_ok)
  next
    case False
    with Cons show ?thesis by (simp add: define_one_ok)
  qed
qed simp

lemma fold_define_others:
  assumes "log_ok w" and "smap_find str_less n (lw_managed w) = Some lg"
    and "\<forall>d \<in> set ds. is_changed old d \<longrightarrow> ld_name d \<noteq> n"
  shows "smap_find str_less n (lw_managed (fold (define_one can_open old) ds w)) = Some lg
    \<and> the_logger (fold (define_one can_open old) ds w) lg = the_logger w lg"
  using assms
proof (induction ds arbitrary: w)
  case (Cons a ds)
  let ?w = "define_one can_open old a w"
  have "smap_find str_less n (lw_managed ?w) = Some lg \<and> the_logger ?w lg = the_logger w lg"
  proof (cases "is_changed old a")
    case False
    with Cons.prems show ?thesis by (simp add: define_one_same)
  next
    case True
    obtain k where k: "log_ok ?w" "smap_find str_less (ld_name a) (lw_managed ?w) = Some k" "only_logger (ld_name a) k w ?w"
      using define_one_changed [OF Cons.prems(1) True, where can_open = can_open] by blast
    have ne: "ld_name a \<noteq> n" using Cons.prems(3) True by simp
    then have f: "smap_find str_less n (lw_managed ?w) = Some lg" using k(3) Cons.prems(2) by (simp add: only_logger_def)
    have "lg \<noteq> k" using log_ok_names [OF k(1) f] log_ok_names [OF k(1) k(2)] ne by auto
    with f show ?thesis using k(3) log_ok_names [OF Cons.prems(1,2)] by (simp add: only_logger_def)
  qed
  with Cons.IH [of ?w] Cons.prems show ?case by (simp add: define_one_ok)
qed simp


definition system_define :: LogDefine where
  "system_define =
     \<lparr>ld_name = ''system'', ld_formatter = ''%m%n'',
      ld_appenders = [LogAppenderDefine_new\<lparr>ad_type := ''StdoutLogAppender''\<rparr>,
                      LogAppenderDefine_new\<lparr>ad_type := ''FileLogAppender'', ad_file := ''log.txt'', has_file := True\<rparr>],
      ld_level = ERROR\<rparr>"


section \<open>The text of a definition\<close>

lemma FromString_ToString: "FromString (ToString v) = (if v = UNKNOWN then FATAL else v)"
  by (cases v) (simp_all add: FromString_def)

text \<open>What reading keeps of an appender: nothing of an unknown type, never the level and the format.\<close>

definition read_back :: "LogAppenderDefine \<Rightarrow> LogAppenderDefine list" where
  "read_back a =
     (if ad_type a = ''FileLogAppender''
      then [LogAppenderDefine_new\<lparr>ad_type := ad_type a, ad_file := ad_file a, has_file := True\<rparr>]
      else if ad_type a = ''StdoutLogAppender'' then [LogAppenderDefine_new\<lparr>ad_type := ad_type a\<rparr>]
      else [])"

lemma cast_appender_node:
  assumes "ad_type a = ''FileLogAppender'' \<longrightarrow> has_file a"
  shows "cast_appender A (appender_node a) = Inr (read_back a)"
proof -
  obtain kvs where n: "appender_node a = YMap kvs" and "map_of kvs ''type'' = Some (YScalar (ad_type a))"
    and f: "has_file a \<Longrightarrow> map_of kvs ''file'' = Some (YScalar (ad_file a))"
    by (simp add: appender_node_def)
  then show ?thesis
    using assms unfolding cast_appender_def get_string_def n read_back_def by simp
qed

lemma cast_appenders_nodes:
  assumes "\<forall>a \<in> set as. ad_type a = ''FileLogAppender'' \<longrightarrow> has_file a"
  shows "cast_appenders Y A (if as = [] then None else Some (YSequence (map appender_node as))) = Inr (concat (map read_back as))"
proof (cases "as = []")
  case False
  have "cast_all (\<lambda>i. cast_appender A (map appender_node as ! i)) [0..<length as] = Inr (map (\<lambda>i. read_back (as ! i)) [0..<length as])"
    using assms by (intro cast_all_Inr) (simp add: cast_appender_node)
  moreover have "map (\<lambda>i. read_back (as ! i)) [0..<length as] = map read_back as"
    by (rule nth_equalityI) simp_all
  ultimately show ?thesis using False by (simp add: cast_appenders_def)
qed (simp add: cast_appenders_def)

text \<open>
  A logger definition survives being written and read: with a YAML library that loads what it
  emits, the name, the formatter, the level and, in order, the types and files of the appenders
  come back. What does not: the level UNKNOWN comes back as FATAL, an appender of an unknown type
  disappears, and every appender has the default level and format, although both are written.\<close>

theorem log_definition_round_trip:
  assumes "yaml_load Y (yaml_emit Y (LogDefine_node d)) = Some (LogDefine_node d)"
    and "\<forall>a \<in> set (ld_appenders d). ad_type a = ''FileLogAppender'' \<longrightarrow> has_file a"
  shows "bindC (LogDefine_to_string Y d) (cast_to_LogDefine Y A) =
     Inr \<lparr>ld_name = ld_name d, ld_formatter = ld_formatter d,
          ld_appenders = concat (map read_back (ld_appenders d)),
          ld_level = (if ld_level d = UNKNOWN then FATAL else ld_level d)\<rparr>"
proof -
  obtain kvs where n: "LogDefine_node d = YMap kvs"
    and name: "map_of kvs ''name'' = Some (YScalar (ld_name d))"
    and level: "map_of kvs ''level'' = (if ld_level d \<noteq> DEBUG then Some (YScalar (ToString (ld_level d))) else None)"
    and formatter: "map_of kvs ''formatter'' = (if ld_formatter d \<noteq> [] then Some (YScalar (ld_formatter d)) else None)"
    and appenders: "map_of kvs ''appenders'' =
      (if ld_appenders d = [] then None else Some (YSequence (map appender_node (ld_appenders d))))"
    by (simp add: LogDefine_node_def)
  have lv: "FromString (if ld_level d \<noteq> DEBUG then ToString (ld_level d) else ''DEBUG'') =
      (if ld_level d = UNKNOWN then FATAL else ld_level d)"
    by (simp add: FromString_ToString) (simp add: FromString_def)
  have load: "load_node Y (yaml_emit Y (LogDefine_node d)) = Inr (YMap kvs)"
    using assms(1) by (simp add: load_node_def n)
  show ?thesis
    using lv cast_appenders_nodes [OF assms(2), of Y A]
    unfolding LogDefine_to_string_def cast_to_LogDefine_def bindC_simps load
    by (cases "ld_level d = DEBUG"; cases "ld_formatter d = []") (simp_all add: name level formatter appenders)
qed

text \<open>A library that knows the text of one definition.\<close>

definition one_definition :: yaml_lib where
  "one_definition =
     \<lparr>yaml_load = (\<lambda>s. if s = ''system'' then Some (LogDefine_node system_define) else None),
      yaml_emit = (\<lambda>n. ''system''), yaml_other = (\<lambda>n i. n)\<rparr>"

lemma log_definition_round_trip_witness:
  "bindC (LogDefine_to_string one_definition system_define) (cast_to_LogDefine one_definition A) = Inr system_define"
proof -
  have "yaml_load one_definition (yaml_emit one_definition (LogDefine_node system_define)) = Some (LogDefine_node system_define)"
    "\<forall>a \<in> set (ld_appenders system_define). ad_type a = ''FileLogAppender'' \<longrightarrow> has_file a"
    by (simp_all add: one_definition_def system_define_def LogAppenderDefine_new_def)
  from log_definition_round_trip [OF this, of A] show ?thesis
    by (simp add: system_define_def read_back_def LogAppenderDefine_new_def)
qed

end
