(* ===== verification/LogFormatter_Props.thy ===== *)
theory LogFormatter_Props
  imports LogFormatter
begin

text \<open>
  The pattern scanner against a grammar over lists, and the patterns of item lists.
\<close>

section \<open>The grammar\<close>

definition name_char :: "char \<Rightarrow> bool" where
  "name_char c \<longleftrightarrow> isalpha c \<or> c = CHR 0x7D"

text \<open>
  An item: a name, then perhaps a format in braces; \<open>None\<close> when the brace stays open. The third
  part is what follows.
\<close>

definition item_at :: "string \<Rightarrow> (string \<times> string \<times> string) option" where
  "item_at s =
     (let name = takeWhile name_char s; r = dropWhile name_char s in
      if r \<noteq> [] \<and> hd r = CHR 0x7B
      then (if CHR 0x7D \<in> set (tl r)
            then Some (name, takeWhile (\<lambda>c. c \<noteq> CHR 0x7D) (tl r), tl (dropWhile (\<lambda>c. c \<noteq> CHR 0x7D) (tl r)))
            else None)
      else Some (name, [], r))"

lemma length_dropWhile_tl: "length (tl (dropWhile P (tl xs))) \<le> length xs"
  using length_dropWhile_le [of P "tl xs"] by simp

lemma item_at_shorter: "item_at s = Some (name, fmt, r) \<Longrightarrow> length r \<le> length s"
  using length_dropWhile_le [of name_char s]
    length_dropWhile_tl [of "\<lambda>c. c \<noteq> CHR 0x7D" "dropWhile name_char s"]
  by (auto simp: item_at_def Let_def split: if_splits)

function pieces :: "string \<Rightarrow> string \<Rightarrow> (string \<times> string \<times> int) list \<times> bool" where
  "pieces nstr [] = (flush nstr, False)"
| "pieces nstr (c # s) =
     (if c \<noteq> CHR 0x25 then pieces (nstr @ [c]) s
      else if s \<noteq> [] \<and> hd s = CHR 0x25 then pieces (nstr @ [CHR 0x25]) s
      else (case item_at s of
              Some (name, fmt, r) \<Rightarrow> map_prod ((@) (flush nstr @ [(name, fmt, 1)])) id (pieces [] r)
            | None \<Rightarrow> map_prod ((#) (''<<pattern_error>>'', [], 0)) (\<lambda>e. True) (pieces nstr s)))"
  by pat_completeness auto
termination
  by (relation "measure (length \<circ> snd)") (auto dest: item_at_shorter simp: le_imp_less_Suc)

lemma nth_hd_drop: "n < length s \<Longrightarrow> s ! n = hd (drop n s)"
  by (simp add: hd_drop_conv_nth)

lemma drop_at: "n < length s \<Longrightarrow> drop n s = s ! n # drop (n + 1) s"
  by (simp add: Cons_nth_drop_Suc)

lemma scan_in_braces:
  assumes "n \<le> length pat"
  shows "if CHR 0x7D \<in> set (drop n pat)
         then scan_item pat i n 1 b str =
                (n + length (takeWhile (\<lambda>c. c \<noteq> CHR 0x7D) (drop n pat)) + 1, 0, str,
                 substr pat (b + 1) (n + length (takeWhile (\<lambda>c. c \<noteq> CHR 0x7D) (drop n pat)) - b - 1))
         else \<exists>str'. scan_item pat i n 1 b str = (length pat, 1, str', [])"
  using assms
proof (induction "length pat - n" arbitrary: n str)
  case 0
  then show ?case by (subst scan_item.simps) auto
next
  case (Suc k)
  then have n: "n < length pat" by simp
  show ?case
  proof (cases "pat ! n = CHR 0x7D")
    case True
    then show ?thesis using n by (subst scan_item.simps) (simp add: drop_at)
  next
    case False
    let ?str = "if n + 1 = length pat \<and> str = [] then drop (i + 1) pat else str"
    note step = Suc.hyps(1) [of "n + 1" ?str]
    have eq: "scan_item pat i n 1 b str = scan_item pat i (n + 1) 1 b ?str"
      using n False by (subst scan_item.simps) simp
    show ?thesis
    proof (cases "CHR 0x7D \<in> set (drop (n + 1) pat)")
      case True
      then have "?str = str" by auto
      with step True False n Suc.hyps(2) show ?thesis by (simp add: eq drop_at [OF n])
    next
      case no: False
      with step False n Suc.hyps(2) show ?thesis by (simp add: eq drop_at [OF n])
    qed
  qed
qed

lemma scan_name:
  assumes "n \<le> length pat"
  shows "scan_item pat i n 0 b [] =
    (let m = n + length (takeWhile name_char (drop n pat)) in
     if m \<ge> length pat then (length pat, 0, if n = length pat then [] else drop (i + 1) pat, [])
     else if pat ! m = CHR 0x7B then scan_item pat i (m + 1) 1 m (substr pat (i + 1) (m - i - 1))
     else (m, 0, substr pat (i + 1) (m - i - 1), []))"
  using assms
proof (induction "length pat - n" arbitrary: n)
  case 0
  then show ?case by (subst scan_item.simps) (simp add: Let_def)
next
  case (Suc k)
  then have n: "n < length pat" by simp
  have brace: "\<not> name_char (CHR 0x7B)" by (simp add: name_char_def isalpha_def)
  show ?case
  proof (cases "name_char (pat ! n)")
    case False
    then show ?thesis using n by (subst scan_item.simps) (simp add: drop_at [OF n] name_char_def)
  next
    case True
    let ?str = "if n + 1 = length pat then drop (i + 1) pat else []"
    have "pat ! n \<noteq> CHR 0x7B" using True brace by auto
    then have eq: "scan_item pat i n 0 b [] = scan_item pat i (n + 1) 0 b ?str"
      using n True by (subst scan_item.simps) (auto simp: name_char_def)
    show ?thesis
    proof (cases "n + 1 = length pat")
      case last: True
      have "scan_item pat i (n + 1) 0 b ?str = (n + 1, 0, ?str, [])"
        using last by (subst scan_item.simps) simp
      with True last n show ?thesis by (simp add: eq drop_at [OF n])
    next
      case False
      with n have "n + 1 < length pat" by simp
      with True False n Suc.hyps(1) [of "n + 1"] Suc.hyps(2) show ?thesis
        by (simp add: eq drop_at [OF n])
    qed
  qed
qed

lemma substr_takeWhile: "substr s p (length (takeWhile P (drop p s))) = takeWhile P (drop p s)"
  by (simp add: substr_def takeWhile_eq_take [symmetric])

lemma drop_takeWhile: "drop (p + length (takeWhile P (drop p s))) s = dropWhile P (drop p s)"
  by (metis add.commute drop_drop dropWhile_eq_drop)

lemma takeWhile_reaches_end:
  "p + length (takeWhile P (drop p s)) \<ge> length s \<longleftrightarrow> dropWhile P (drop p s) = []"
  by (metis drop_eq_Nil drop_takeWhile)

lemma item_at_end: "dropWhile name_char s = [] \<Longrightarrow> item_at s = Some (s, [], [])"
  by (simp add: item_at_def Let_def)

text \<open>The two loops over positions read the item the grammar reads.\<close>

lemma scan_item_at:
  assumes "i < length pat"
  shows "case item_at (drop (Suc i) pat) of
           Some (name, fmt, r) \<Rightarrow> \<exists>n. scan_item pat i (Suc i) 0 0 [] = (n, 0, name, fmt) \<and> drop n pat = r
         | None \<Rightarrow> \<exists>n str. scan_item pat i (Suc i) 0 0 [] = (n, 1, str, [])"
proof -
  let ?s = "drop (Suc i) pat"
  define m where "m = Suc i + length (takeWhile name_char ?s)"
  have rest: "drop m pat = dropWhile name_char ?s" by (simp only: m_def drop_takeWhile)
  have name: "substr pat (i + 1) (m - i - 1) = takeWhile name_char ?s"
    using substr_takeWhile [of pat "Suc i" name_char] by (simp add: m_def)
  have scan: "scan_item pat i (Suc i) 0 0 [] =
     (if m \<ge> length pat then (length pat, 0, ?s, [])
      else if pat ! m = CHR 0x7B then scan_item pat i (m + 1) 1 m (takeWhile name_char ?s)
      else (m, 0, takeWhile name_char ?s, []))"
    using scan_name [of "Suc i" pat i 0] assms unfolding Let_def m_def [symmetric] name by simp
  show ?thesis
  proof (cases "m \<ge> length pat")
    case True
    then have "dropWhile name_char ?s = []" by (simp only: rest [symmetric] drop_all)
    with True show ?thesis by (auto simp: scan item_at_end)
  next
    case False
    then have d: "dropWhile name_char ?s = pat ! m # drop (m + 1) pat"
      using drop_at [of m pat] by (simp add: rest)
    show ?thesis
    proof (cases "pat ! m = CHR 0x7B")
      case plain: False
      have "item_at ?s = Some (takeWhile name_char ?s, [], dropWhile name_char ?s)"
        using plain by (simp add: item_at_def Let_def d del: drop_append)
      with False plain rest show ?thesis by (auto simp: scan)
    next
      case True
      let ?k = "length (takeWhile (\<lambda>c. c \<noteq> CHR 0x7D) (drop (m + 1) pat))"
      have fmt: "substr pat (m + 1) ?k = takeWhile (\<lambda>c. c \<noteq> CHR 0x7D) (drop (m + 1) pat)"
        by (rule substr_takeWhile)
      have "drop (m + 1 + ?k) pat = dropWhile (\<lambda>c. c \<noteq> CHR 0x7D) (drop (m + 1) pat)"
        by (rule drop_takeWhile)
      then have after: "drop (m + 1 + ?k + 1) pat = tl (dropWhile (\<lambda>c. c \<noteq> CHR 0x7D) (drop (m + 1) pat))"
        by (metis drop_Suc drop_drop tl_drop Suc_eq_plus1 add.commute)
      show ?thesis
        using scan_in_braces [of "m + 1" pat i m "takeWhile name_char ?s"] False True fmt after
        by (auto simp: scan item_at_def Let_def d split: if_splits)
    qed
  qed
qed

lemma init_loop_pieces:
  "i \<le> length pat \<Longrightarrow> (fst (init_loop pat i nstr), fst (snd (init_loop pat i nstr))) = pieces nstr (drop i pat)"
proof (induction pat i nstr rule: init_loop.induct)
  case (1 pat i nstr)
  show ?case
  proof (cases "i = length pat")
    case True
    then show ?thesis by (subst (1 2) init_loop.simps) simp
  next
    case False
    with 1 have i: "i < length pat" by simp
    note [simp] = drop_at [OF i]
    have hd: "drop (Suc i) pat \<noteq> [] \<and> hd (drop (Suc i) pat) = c \<longleftrightarrow> Suc i < length pat \<and> pat ! (Suc i) = c" for c
      by (auto simp: hd_drop_conv_nth)
    consider "pat ! i \<noteq> CHR 0x25" | "pat ! i = CHR 0x25" "Suc i < length pat \<and> pat ! (Suc i) = CHR 0x25"
      | "pat ! i = CHR 0x25" "\<not> (Suc i < length pat \<and> pat ! (Suc i) = CHR 0x25)" by blast
    then show ?thesis
    proof cases
      case 1
      then show ?thesis using "1.IH"(1) i by (subst (1 2) init_loop.simps) simp
    next
      case 2
      then show ?thesis using "1.IH"(2) i by (subst (1 2) init_loop.simps) (simp add: hd_drop_conv_nth)
    next
      case 3
      have p: "pieces nstr (drop i pat) =
          (case item_at (drop (Suc i) pat) of
              Some (name, fmt, r) \<Rightarrow> map_prod ((@) (flush nstr @ [(name, fmt, 1)])) id (pieces [] r)
            | None \<Rightarrow> map_prod ((#) (''<<pattern_error>>'', [], 0)) (\<lambda>e. True) (pieces nstr (drop (Suc i) pat)))"
        using 3 hd [of "CHR 0x25"] by auto
      show ?thesis
      proof (cases "item_at (drop (Suc i) pat)")
        case None
        then obtain n str where s: "scan_item pat i (Suc i) 0 0 [] = (n, 1, str, [])"
          using scan_item_at [OF i] by auto
        have e: "(fst (init_loop pat (Suc i) nstr), fst (snd (init_loop pat (Suc i) nstr))) = pieces nstr (drop (Suc i) pat)"
          using "1.IH"(4) [folded Suc_eq_plus1, OF _ _ _ s [symmetric]] 3 i by simp
        then show ?thesis unfolding p None using 3 i s e [symmetric]
          by (subst (1 2) init_loop.simps) (auto simp: case_prod_unfold)
      next
        case (Some a)
        obtain name fmt r where a: "a = (name, fmt, r)" by (cases a)
        then obtain n where s: "scan_item pat i (Suc i) 0 0 [] = (n, 0, name, fmt)" and r: "drop n pat = r"
          using scan_item_at [OF i] Some by auto
        have "n \<le> length pat \<or> r = []" using r by auto
        have e: "(fst (init_loop pat n []), fst (snd (init_loop pat n []))) = pieces [] r"
        proof (cases "n \<le> length pat")
          case True
          then show ?thesis using "1.IH"(3) [folded Suc_eq_plus1, OF _ _ _ s [symmetric]] 3 i r by simp
        next
          case False
          then have "r = []" using r by auto
          with False show ?thesis by (subst (1 2) init_loop.simps) simp
        qed
        show ?thesis unfolding p Some a using 3 i s e [symmetric]
          by (subst (1 2) init_loop.simps) (auto simp: case_prod_unfold)
      qed
    qed
  qed
qed

text \<open>
  C30. The positions the scanner of log patterns keeps are those of a grammar: for every pattern,
  valid or not, the tuples it collects and its error flag are those of reading literal text,
  then a percent sign with a name of letters and perhaps a format in braces, and so on.\<close>

theorem scanner_follows_the_grammar:
  "\<exists>cout. init_loop pat 0 [] = (fst (pieces [] pat), snd (pieces [] pat), cout)"
proof -
  obtain v e c where i: "init_loop pat 0 [] = (v, e, c)" by (cases "init_loop pat 0 []")
  have "(v, e) = pieces [] pat" using init_loop_pieces [of 0 pat "[]"] i by simp
  from this [symmetric] show ?thesis by (simp add: i)
qed

section \<open>Patterns of items\<close>

fun letter :: "FormatItem \<Rightarrow> string" where
  "letter MessageFormatItem = ''m''"
| "letter LevelFormatItem = ''p''"
| "letter ElapseFormatItem = ''r''"
| "letter NameFormatItem = ''c''"
| "letter ThreadIdFormatItem = ''t''"
| "letter NewLineFormatItem = ''n''"
| "letter (DateTimeFormatItem m_format) = ''d''"
| "letter FilenameFormatItem = ''f''"
| "letter LineFormatItem = ''l''"
| "letter FiberIdFormatItem = ''F''"
| "letter ThreadNameFormatItem = ''N''"
| "letter TabFormatItem = ''T''"
| "letter (StringFormatItem m_string) = []"

fun argument :: "FormatItem \<Rightarrow> string" where
  "argument (DateTimeFormatItem m_format) = m_format"
| "argument item = []"

text \<open>Braces separate a name from text that could continue it.\<close>

definition braces :: "string \<Rightarrow> string \<Rightarrow> string" where
  "braces fmt after =
     (if fmt = [] \<and> (after = [] \<or> \<not> (name_char (hd after) \<or> hd after = CHR 0x7B)) then [] else CHR 0x7B # fmt @ [CHR 0x7D])"

fun pattern_of :: "FormatItem list \<Rightarrow> string" where
  "pattern_of [] = []"
| "pattern_of (StringFormatItem s # items) = s @ pattern_of items"
| "pattern_of (item # items) =
     CHR 0x25 # letter item @ braces (argument item) (pattern_of items) @ pattern_of items"

text \<open>Items that a pattern can spell: literal text in one piece and without percent signs, a date format without a brace.\<close>

fun spellable :: "FormatItem list \<Rightarrow> bool" where
  "spellable [] = True"
| "spellable (StringFormatItem s # items) =
     (s \<noteq> [] \<and> CHR 0x25 \<notin> set s \<and> spellable items
      \<and> (case items of StringFormatItem t # r \<Rightarrow> False | r \<Rightarrow> True))"
| "spellable (DateTimeFormatItem f # items) = (f \<noteq> [] \<and> CHR 0x7D \<notin> set f \<and> spellable items)"
| "spellable (item # items) = spellable items"

fun is_text :: "FormatItem \<Rightarrow> bool" where
  "is_text (StringFormatItem s) = True"
| "is_text item = False"

definition tuple_of :: "FormatItem \<Rightarrow> string \<times> string \<times> int" where
  "tuple_of item = (case item of StringFormatItem s \<Rightarrow> (s, [], 0) | _ \<Rightarrow> (letter item, argument item, 1))"

lemma pattern_of_item:
  "\<not> is_text item \<Longrightarrow> pattern_of (item # items) =
     CHR 0x25 # letter item @ braces (argument item) (pattern_of items) @ pattern_of items"
  by (cases item) auto

lemma spellable_item:
  "\<not> is_text item \<Longrightarrow> spellable (item # items) \<Longrightarrow> CHR 0x7D \<notin> set (argument item) \<and> spellable items"
  by (cases item) auto

lemma letter_name: "\<not> is_text item \<Longrightarrow> \<exists>c. letter item = [c] \<and> name_char c \<and> c \<noteq> CHR 0x25"
  by (cases item) (auto simp: name_char_def isalpha_def)

lemma name_char_braces: "\<not> name_char (CHR 0x7B)"
  by (simp add: name_char_def isalpha_def)

lemma item_at_spelled:
  assumes "\<not> is_text item" and "CHR 0x7D \<notin> set (argument item)"
  shows "item_at (letter item @ braces (argument item) after @ after) = Some (letter item, argument item, after)"
proof -
  obtain c where c: "letter item = [c]" "name_char c" using letter_name [OF assms(1)] by blast
  show ?thesis
  proof (cases "braces (argument item) after = []")
    case True
    then have a: "argument item = []" "after = [] \<or> \<not> name_char (hd after) \<and> hd after \<noteq> CHR 0x7B"
      by (auto simp: braces_def split: if_splits)
    have "takeWhile name_char after = [] \<and> dropWhile name_char after = after"
      using a(2) by (cases after) auto
    with c a show ?thesis by (auto simp: item_at_def Let_def braces_def)
  next
    case False
    then have "braces (argument item) after = CHR 0x7B # argument item @ [CHR 0x7D]"
      by (auto simp: braces_def split: if_splits)
    with c name_char_braces assms(2) show ?thesis
      by (simp add: item_at_def Let_def takeWhile_append dropWhile_append)
  qed
qed

lemma pieces_text: "CHR 0x25 \<notin> set s \<Longrightarrow> pieces nstr (s @ r) = pieces (nstr @ s) r"
  by (induction s arbitrary: nstr) auto

lemma pieces_item:
  assumes "\<not> is_text item" and "CHR 0x7D \<notin> set (argument item)"
  shows "pieces nstr (CHR 0x25 # letter item @ braces (argument item) after @ after) =
    map_prod ((@) (flush nstr @ [(letter item, argument item, 1)])) id (pieces [] after)"
proof -
  obtain c where c: "letter item = [c]" "c \<noteq> CHR 0x25" using letter_name [OF assms(1)] by blast
  then show ?thesis using item_at_spelled [OF assms, of after] by simp
qed

lemma pieces_pattern:
  "spellable items \<Longrightarrow> (nstr = [] \<or> items = [] \<or> \<not> is_text (hd items)) \<Longrightarrow>
   pieces nstr (pattern_of items) = (flush nstr @ map tuple_of items, False)"
proof (induction items arbitrary: nstr)
  case Nil
  then show ?case by simp
next
  case (Cons item items)
  show ?case
  proof (cases "is_text item")
    case True
    then obtain s where s: "item = StringFormatItem s" by (cases item) auto
    have "pieces s (pattern_of items) = (flush s @ map tuple_of items, False)"
      using Cons s by (cases items) (auto split: FormatItem.splits)
    then show ?thesis using Cons.prems by (simp add: s pieces_text flush_def tuple_of_def)
  next
    case False
    have t: "tuple_of item = (letter item, argument item, 1)" using False by (cases item) (auto simp: tuple_of_def)
    have "pieces [] (pattern_of items) = (map tuple_of items, False)"
      using Cons spellable_item [OF False] by (simp add: flush_def)
    then show ?thesis
      using spellable_item [OF False Cons.prems(1)] by (simp add: pattern_of_item [OF False] pieces_item [OF False] t del: pieces.simps(2))
  qed
qed

lemma items_loop_tuples:
  "spellable items \<Longrightarrow> items_loop (map tuple_of items) = (items, False)"
  by (induction items rule: pattern_of.induct)
    (simp_all add: tuple_of_def s_format_items_def DateTimeFormatItem_new_def)

lemma init_loop_quiet: "\<not> fst (snd (init_loop pat i nstr)) \<Longrightarrow> snd (snd (init_loop pat i nstr)) = []"
proof (induction pat i nstr rule: init_loop.induct)
  case (1 pat i nstr)
  show ?case
    using 1 by (subst (asm) (9) init_loop.simps, subst init_loop.simps)
      (auto split: if_splits prod.splits simp del: init_loop.simps)
qed

lemma LogFormatter_new_pieces:
  "m_items (fst (LogFormatter_new pat)) = fst (items_loop (fst (pieces [] pat)))"
  "m_error (fst (LogFormatter_new pat)) \<longleftrightarrow> snd (pieces [] pat) \<or> snd (items_loop (fst (pieces [] pat)))"
  "\<not> snd (pieces [] pat) \<Longrightarrow> snd (LogFormatter_new pat) = []"
  using scanner_follows_the_grammar [of pat] init_loop_quiet [of pat 0 "[]"]
  by (auto simp: LogFormatter_new_def case_prod_unfold)

lemma last_tl_dropWhile: "xs \<noteq> [] \<Longrightarrow> \<not> P (last xs) \<Longrightarrow> dropWhile P xs \<noteq> [] \<and> last (dropWhile P xs) = last xs"
  by (induction xs) auto

text \<open>A pattern whose last character starts an item has an item without a name.\<close>

lemma item_at_keeps_end:
  assumes "s \<noteq> []" and "last s = CHR 0x25" and "item_at s = Some (name, fmt, r)"
  shows "r \<noteq> [] \<and> last r = CHR 0x25"
proof -
  have "\<not> name_char (CHR 0x25)" by (simp add: name_char_def isalpha_def)
  then have d: "dropWhile name_char s \<noteq> []" "last (dropWhile name_char s) = CHR 0x25"
    using last_tl_dropWhile [of s name_char] assms by auto
  show ?thesis
  proof (cases "hd (dropWhile name_char s) = CHR 0x7B")
    case False
    with assms(3) d show ?thesis by (auto simp: item_at_def Let_def)
  next
    case True
    let ?t = "tl (dropWhile name_char s)"
    have t: "?t \<noteq> []" "last ?t = CHR 0x25" using d True by (cases "dropWhile name_char s"; auto split: if_splits)+
    have m: "CHR 0x7D \<in> set ?t" and r: "r = tl (dropWhile (\<lambda>c. c \<noteq> CHR 0x7D) ?t)"
      using assms(3) d True by (auto simp: item_at_def Let_def split: if_splits)
    obtain as bs where ab: "?t = as @ CHR 0x7D # bs" "CHR 0x7D \<notin> set as"
      using split_list_first [OF m] by blast
    then have "r = bs" by (simp add: r dropWhile_append)
    with ab t show ?thesis by (auto split: if_splits)
  qed
qed

lemma pieces_end:
  "s \<noteq> [] \<Longrightarrow> last s = CHR 0x25 \<Longrightarrow> snd (pieces nstr s) \<or> ([], [], 1) \<in> set (fst (pieces nstr s))"
proof (induction nstr s rule: pieces.induct)
  case (2 nstr c s)
  show ?case
  proof (cases "s = []")
    case True
    with 2 show ?thesis by (simp add: item_at_def)
  next
    case s: False
    with 2 have l: "last s = CHR 0x25" by simp
    show ?thesis
    proof (cases "c = CHR 0x25 \<and> hd s \<noteq> CHR 0x25")
      case False
      with 2 s l show ?thesis by auto
    next
      case item: True
      show ?thesis
      proof (cases "item_at s")
        case None
        with 2 s l item show ?thesis by simp
      next
        case (Some a)
        obtain name fmt r where a: "a = (name, fmt, r)" by (cases a)
        have "snd (pieces [] r) \<or> ([], [], 1) \<in> set (fst (pieces [] r))"
          using "2.IH"(4) [OF _ _ Some a [symmetric] refl] item_at_keeps_end [OF s l, of name fmt r] item Some a by simp
        with item s Some a show ?thesis by auto
      qed
    qed
  qed
qed simp

lemma items_loop_unknown: "(str, fmt, 1) \<in> set vec \<Longrightarrow> s_format_items str = None \<Longrightarrow> snd (items_loop vec)"
  by (induction vec rule: items_loop.induct) (auto split: prod.splits option.splits)

text \<open>
  C31. Printing and parsing of log patterns are inverse on what a pattern can spell: the pattern
  of a list of items, with braces only where a name would run into the text behind it, is parsed
  to these items without an error or a message, and formatting an event concatenates the items'
  texts. A percent sign as text is not such a thing: the escape, two percent signs, is copied once
  and then the second one starts an item, and every pattern that ends in one is an error.\<close>

theorem pattern_round_trip:
  assumes "spellable items"
  shows "LogFormatter_new (pattern_of items) =
           (\<lparr>m_pattern = pattern_of items, m_items = items, m_error = False\<rparr>, [])
    \<and> LogFormatter_format strftime name (fst (LogFormatter_new (pattern_of items))) level event =
           concat (map (item_format strftime name level event) items)
    \<and> m_error (fst (LogFormatter_new (pat @ ''%'')))"
proof -
  have p: "pieces [] (pattern_of items) = (map tuple_of items, False)"
    using pieces_pattern [OF assms] by (simp add: flush_def)
  have pat: "m_pattern (fst (LogFormatter_new q)) = q" for q
    by (simp add: LogFormatter_new_def case_prod_unfold)
  have new: "LogFormatter_new (pattern_of items) = (\<lparr>m_pattern = pattern_of items, m_items = items, m_error = False\<rparr>, [])"
    using LogFormatter_new_pieces [of "pattern_of items"] items_loop_tuples [OF assms] pat [of "pattern_of items"]
    by (cases "LogFormatter_new (pattern_of items)") (simp add: p)
  have "m_error (fst (LogFormatter_new (pat @ ''%'')))"
    using pieces_end [of "pat @ ''%''" "[]"] items_loop_unknown [of "[]" "[]"]
    by (auto simp: LogFormatter_new_pieces(2) s_format_items_def)
  with new show ?thesis by (simp add: LogFormatter_format_def)
qed

text \<open>The default pattern of the loggers, and an event under it.\<close>

lemma pattern_round_trip_witness:
  "LogFormatter_new ''[%p]%d{%H}:%m'' =
     (\<lparr>m_pattern = ''[%p]%d{%H}:%m'',
       m_items = [StringFormatItem ''['', LevelFormatItem, StringFormatItem '']'', DateTimeFormatItem ''%H'',
                  StringFormatItem '':'', MessageFormatItem], m_error = False\<rparr>, [])
   \<and> m_error (fst (LogFormatter_new ''100%%''))"
proof -
  let ?items = "[StringFormatItem ''['', LevelFormatItem, StringFormatItem '']'', DateTimeFormatItem ''%H'',
                 StringFormatItem '':'', MessageFormatItem]"
  have sp: "spellable ?items" by simp
  have pat: "pattern_of ?items = ''[%p]%d{%H}:%m''"
    by (simp add: braces_def name_char_def isalpha_def)
  show ?thesis
    using pattern_round_trip [OF sp, of "\<lambda>f t. f" "[]" INFO undefined "''100%''"]
    by (simp only: pat) simp
qed

end
