(* ===== verification/Logger_Props.thy ===== *)
theory Logger_Props
  imports LogConfig_Props LogFormatter_Props
begin

text \<open>
  Where an event goes, and what holds over any sequence of calls.
\<close>

section \<open>Where an event goes\<close>

text \<open>A file appender as the event finds it, reopened when three seconds have passed.\<close>

definition touched :: "(string \<Rightarrow> bool) \<Rightarrow> u64 \<Rightarrow> appender \<Rightarrow> appender" where
  "touched can_open now a = (if now \<ge> ap_lastTime a + 3 then (reopen can_open a)\<lparr>ap_lastTime := now\<rparr> else a)"

definition takes :: "(string \<Rightarrow> bool) \<Rightarrow> LogEvent \<Rightarrow> appender \<Rightarrow> bool" where
  "takes can_open event a \<longleftrightarrow> ap_good (touched can_open (m_time event) a)"

definition event_text :: "(string \<Rightarrow> u64 \<Rightarrow> string) \<Rightarrow> log_world \<Rightarrow> Level \<Rightarrow> LogEvent \<Rightarrow> appender \<Rightarrow> string" where
  "event_text strftime w level event a =
     LogFormatter_format strftime (lg_name (the_logger w (m_logger event))) (the (ap_formatter a)) level event"

text \<open>What one appender adds to the output and to a file.\<close>

definition to_stdout :: "(string \<Rightarrow> bool) \<Rightarrow> (string \<Rightarrow> u64 \<Rightarrow> string) \<Rightarrow> log_world \<Rightarrow> Level \<Rightarrow> LogEvent \<Rightarrow> appender \<Rightarrow> string" where
  "to_stdout can_open strftime w level event a =
     (if level < ap_level a then []
      else (case ap_class a of
              StdoutLogAppender \<Rightarrow> event_text strftime w level event a
            | FileLogAppender filename \<Rightarrow> if takes can_open event a then [] else ''error'' @ endl))"

definition to_file ::
  "(string \<Rightarrow> bool) \<Rightarrow> (string \<Rightarrow> u64 \<Rightarrow> string) \<Rightarrow> log_world \<Rightarrow> Level \<Rightarrow> LogEvent \<Rightarrow> string \<Rightarrow> appender \<Rightarrow> string" where
  "to_file can_open strftime w level event path a =
     (if level < ap_level a then []
      else (case ap_class a of
              StdoutLogAppender \<Rightarrow> []
            | FileLogAppender filename \<Rightarrow>
                if c_str filename = path \<and> takes can_open event a then event_text strftime w level event a else []))"

lemma reopen_fields [simp]:
  "ap_class (reopen can_open a) = ap_class a" "ap_level (reopen can_open a) = ap_level a"
  "ap_formatter (reopen can_open a) = ap_formatter a" "ap_lastTime (reopen can_open a) = ap_lastTime a"
  "ap_hasFormatter (reopen can_open a) = ap_hasFormatter a"
  by (simp_all add: reopen_def split: appender_class.splits)

lemma touched_fields [simp]:
  "ap_class (touched can_open now a) = ap_class a" "ap_level (touched can_open now a) = ap_level a"
  "ap_formatter (touched can_open now a) = ap_formatter a"
  by (simp_all add: touched_def)

lemma takes_touched: "takes can_open event (touched can_open (m_time event) a) = takes can_open event a"
  by (auto simp: takes_def touched_def reopen_def split: appender_class.splits)

lemma touched_parts [simp]:
  "event_text strftime w level event (touched can_open now a) = event_text strftime w level event a"
  "to_stdout can_open strftime w level event (touched can_open (m_time event) a) = to_stdout can_open strftime w level event a"
  "to_file can_open strftime w level event path (touched can_open (m_time event) a) = to_file can_open strftime w level event path a"
  by (simp_all add: event_text_def to_stdout_def to_file_def takes_touched cong: appender_class.case_cong if_cong)

text \<open>The step of one appender, in terms of a world with the same loggers.\<close>

definition heard :: "(string \<Rightarrow> bool) \<Rightarrow> LogEvent \<Rightarrow> log_world \<Rightarrow> log_world \<Rightarrow> bool" where
  "heard can_open event w w' \<longleftrightarrow>
     length (lw_appenders w') = length (lw_appenders w) \<and> lw_loggers w' = lw_loggers w \<and> lw_managed w' = lw_managed w
     \<and> lw_root w' = lw_root w
     \<and> (\<forall>i < length (lw_appenders w). the_appender w' i \<in> {the_appender w i, touched can_open (m_time event) (the_appender w i)})"

lemma LogAppender_log_step:
  assumes "ready (lw_appenders w) i"
  obtains w' where "LogAppender_log can_open strftime level event i w = Inr w'" and "heard can_open event w w'"
    and "lw_stdout w' = lw_stdout w @ to_stdout can_open strftime w level event (the_appender w i)"
    and "\<And>path. lw_files w' path = lw_files w path @ to_file can_open strftime w level event path (the_appender w i)"
proof -
  let ?a = "the_appender w i"
  obtain f where f: "ap_formatter ?a = Some f" and i: "i < length (lw_appenders w)" using assms by (auto simp: ready_def)
  show ?thesis
  proof (cases "level < ap_level ?a")
    case True
    then show ?thesis
      by (intro that [of w])
        (auto simp: LogAppender_log_def File_log_def Stdout_log_def Let_def heard_def to_stdout_def to_file_def split: appender_class.splits)
  next
    case False
    show ?thesis
    proof (cases "ap_class ?a")
      case StdoutLogAppender
      let ?w = "print (event_text strftime w level event ?a) w"
      have "LogAppender_log can_open strftime level event i w = Inr ?w"
        using False f by (simp add: LogAppender_log_def StdoutLogAppender Stdout_log_def event_text_def not_less)
      then show ?thesis
        by (rule that) (simp_all add: heard_def False StdoutLogAppender to_stdout_def to_file_def)
    next
      case (FileLogAppender filename)
      let ?w1 = "put_appender i (touched can_open (m_time event) ?a) w"
      define w' where "w' = (if takes can_open event ?a
        then ?w1\<lparr>lw_files := (lw_files ?w1)(c_str filename := lw_files ?w1 (c_str filename) @ event_text strftime w level event ?a)\<rparr>
        else print (''error'' @ endl) ?w1)"
      have step: "LogAppender_log can_open strftime level event i w = Inr w'"
        using False f by (simp add: LogAppender_log_def FileLogAppender File_log_def event_text_def not_less w'_def
            takes_def touched_def [symmetric] Let_def split del: if_split cong: if_cong)
      have "heard can_open event w w'" using i by (auto simp: heard_def w'_def nth_list_update)
      then show ?thesis
        by (intro that [OF step]) (simp_all add: w'_def False FileLogAppender to_stdout_def to_file_def)
    qed
  qed
qed

lemma touched_touched: "touched can_open now (touched can_open now a) = touched can_open now a"
  by (auto simp: touched_def reopen_def split: appender_class.splits)

lemma heard_trans:
  assumes "heard can_open event w w1" and "heard can_open event w1 w2"
  shows "heard can_open event w w2"
proof -
  have "the_appender w2 i \<in> {the_appender w i, touched can_open (m_time event) (the_appender w i)}"
    if "i < length (lw_appenders w)" for i
  proof -
    have "the_appender w1 i \<in> {the_appender w i, touched can_open (m_time event) (the_appender w i)}"
      "the_appender w2 i \<in> {the_appender w1 i, touched can_open (m_time event) (the_appender w1 i)}"
      using assms that unfolding heard_def by auto
    then show ?thesis by (auto simp: touched_touched)
  qed
  with assms show ?thesis by (simp add: heard_def)
qed

lemma heard_parts:
  assumes "heard can_open event w w'" and "i < length (lw_appenders w)"
  shows "to_stdout can_open strftime w' level event (the_appender w' i) = to_stdout can_open strftime w level event (the_appender w i)"
    and "to_file can_open strftime w' level event path (the_appender w' i) = to_file can_open strftime w level event path (the_appender w i)"
proof -
  have "the_appender w' i = the_appender w i \<or> the_appender w' i = touched can_open (m_time event) (the_appender w i)"
    and "lw_loggers w' = lw_loggers w"
    using assms by (auto simp: heard_def)
  moreover from this have "event_text strftime w' = event_text strftime w"
    by (auto simp: event_text_def fun_eq_iff)
  moreover from this have "to_stdout can_open strftime w' = to_stdout can_open strftime w"
    "to_file can_open strftime w' = to_file can_open strftime w"
    by (simp_all add: to_stdout_def to_file_def fun_eq_iff split: appender_class.split)
  ultimately show "to_stdout can_open strftime w' level event (the_appender w' i) = to_stdout can_open strftime w level event (the_appender w i)"
    and "to_file can_open strftime w' level event path (the_appender w' i) = to_file can_open strftime w level event path (the_appender w i)"
    by auto
qed

lemma heard_ready: "heard can_open event w w' \<Longrightarrow> ready (lw_appenders w) i \<Longrightarrow> ready (lw_appenders w') i"
  by (auto simp: heard_def ready_def)

lemma heard_ok: "heard can_open event w w' \<Longrightarrow> log_ok w \<Longrightarrow> log_ok w'"
  using heard_ready [of can_open event w w'] logger_ok_mono [of "lw_appenders w" _ "lw_appenders w'"]
  by (auto simp: log_ok_def heard_def)

lemma log_loop_spec:
  "\<forall>i \<in> set is. ready (lw_appenders w) i \<Longrightarrow>
   \<exists>w'. log_loop can_open strftime level event is w = Inr w' \<and> heard can_open event w w'
     \<and> lw_stdout w' = lw_stdout w @ concat (map (\<lambda>i. to_stdout can_open strftime w level event (the_appender w i)) is)
     \<and> (\<forall>path. lw_files w' path = lw_files w path
          @ concat (map (\<lambda>i. to_file can_open strftime w level event path (the_appender w i)) is))"
proof (induction "is" arbitrary: w)
  case Nil
  then show ?case by (simp add: heard_def)
next
  case (Cons i "is")
  then have "ready (lw_appenders w) i" by simp
  then obtain w1 where w1: "LogAppender_log can_open strftime level event i w = Inr w1" "heard can_open event w w1"
    "lw_stdout w1 = lw_stdout w @ to_stdout can_open strftime w level event (the_appender w i)"
    "\<And>path. lw_files w1 path = lw_files w path @ to_file can_open strftime w level event path (the_appender w i)"
    by (rule LogAppender_log_step [of w i can_open strftime level event]) blast
  have "\<forall>j \<in> set is. ready (lw_appenders w1) j" using Cons.prems heard_ready [OF w1(2)] by simp
  then obtain w2 where w2: "log_loop can_open strftime level event is w1 = Inr w2" "heard can_open event w1 w2"
    "lw_stdout w2 = lw_stdout w1 @ concat (map (\<lambda>i. to_stdout can_open strftime w1 level event (the_appender w1 i)) is)"
    "\<forall>path. lw_files w2 path = lw_files w1 path
       @ concat (map (\<lambda>i. to_file can_open strftime w1 level event path (the_appender w1 i)) is)"
    using Cons.IH by blast
  have "\<forall>j \<in> set is. j < length (lw_appenders w)" using Cons.prems by (simp add: ready_def)
  then have eqs: "map (\<lambda>i. to_stdout can_open strftime w1 level event (the_appender w1 i)) is =
      map (\<lambda>i. to_stdout can_open strftime w level event (the_appender w i)) is"
    "map (\<lambda>i. to_file can_open strftime w1 level event path (the_appender w1 i)) is =
      map (\<lambda>i. to_file can_open strftime w level event path (the_appender w i)) is" for path
    using heard_parts [OF w1(2)] by simp_all
  show ?case
    using w1 w2(1) w2(3,4) [unfolded eqs] heard_trans [OF w1(2) w2(2)] by simp
qed

text \<open>The event a log statement builds.\<close>

definition stated :: "nat \<Rightarrow> Level \<Rightarrow> string \<Rightarrow> int \<Rightarrow> u32 \<Rightarrow> u32 \<Rightarrow> u64 \<Rightarrow> string \<Rightarrow> string \<Rightarrow> LogEvent" where
  "stated lg level file line thread_id fiber_id time thread_name content =
     (LogEvent_new lg level file line 0 thread_id fiber_id time thread_name)\<lparr>m_ss := content\<rparr>"

lemma statement_loops:
  assumes "log_ok w" and "lg < length (lw_loggers w)" and "lg_level (the_logger w lg) \<le> level"
  shows "SERVER_CC_LOG_LEVEL can_open strftime lg level file line thread_id fiber_id time thread_name content w =
      log_loop can_open strftime level (stated lg level file line thread_id fiber_id time thread_name content)
        (lg_appenders (the_logger w lg)) w"
    and "\<forall>i \<in> set (lg_appenders (the_logger w lg)). ready (lw_appenders w) i"
proof -
  have l: "lg_root (the_logger w lg) = None" "\<forall>i \<in> set (lg_appenders (the_logger w lg)). ready (lw_appenders w) i"
    using log_ok_logger [OF assms(1,2)] by (auto simp: logger_ok_def)
  obtain k where k: "length (lw_loggers w) = Suc k" using assms(2) by (cases "length (lw_loggers w)") auto
  show "\<forall>i \<in> set (lg_appenders (the_logger w lg)). ready (lw_appenders w) i" by (rule l(2))
  show "SERVER_CC_LOG_LEVEL can_open strftime lg level file line thread_id fiber_id time thread_name content w =
      log_loop can_open strftime level (stated lg level file line thread_id fiber_id time thread_name content)
        (lg_appenders (the_logger w lg)) w"
    using assms(3) l(1) k
    by (cases "lg_appenders (the_logger w lg) = []")
      (simp_all add: SERVER_CC_LOG_LEVEL_def LogEventWrapper_destroy_def stated_def LogEvent_new_def Logger_log_def)
qed



section \<open>Runs\<close>

text \<open>
  Calls on loggers and appenders that exist, with the files that open at that time. A null
  formatter is not passed.
\<close>

datatype log_op =
    Get string
  | NewStdout
  | NewFile string
  | Add nat nat
  | Remove nat nat
  | Clear nat
  | Set_level Level nat
  | Set_pattern string nat
  | Set_formatter LogFormatter nat
  | Appender_level Level nat
  | Appender_formatter LogFormatter nat
  | Definitions "LogDefine list" "LogDefine list"
  | Statement nat Level string int u32 u32 u64 string string

fun log_exec :: "(string \<Rightarrow> u64 \<Rightarrow> string) \<Rightarrow> (string \<Rightarrow> bool) \<Rightarrow> log_op \<Rightarrow> log_world \<Rightarrow> log_world res" where
  "log_exec strftime can_open (Get name) w = Inr (snd (getLogger name w))"
| "log_exec strftime can_open NewStdout w = Inr (snd (StdoutLogAppender_new w))"
| "log_exec strftime can_open (NewFile f) w = Inr (snd (FileLogAppender_new can_open f w))"
| "log_exec strftime can_open (Add i lg) w =
     Inr (if lg < length (lw_loggers w) \<and> i < length (lw_appenders w) then addAppender i lg w else w)"
| "log_exec strftime can_open (Remove i lg) w = Inr (if lg < length (lw_loggers w) then delAppender i lg w else w)"
| "log_exec strftime can_open (Clear lg) w = Inr (if lg < length (lw_loggers w) then clearAppenders lg w else w)"
| "log_exec strftime can_open (Set_level v lg) w = Inr (if lg < length (lw_loggers w) then Logger_setLevel v lg w else w)"
| "log_exec strftime can_open (Set_pattern p lg) w = Inr (if lg < length (lw_loggers w) then Logger_setPattern p lg w else w)"
| "log_exec strftime can_open (Set_formatter f lg) w =
     Inr (if lg < length (lw_loggers w) then Logger_setFormatter (Some f) lg w else w)"
| "log_exec strftime can_open (Appender_level v i) w = Inr (LogAppender_setLevel v i w)"
| "log_exec strftime can_open (Appender_formatter f i) w = Inr (LogAppender_setFormatter (Some f) i w)"
| "log_exec strftime can_open (Definitions old new) w = Inr (logs_changed can_open old new w)"
| "log_exec strftime can_open (Statement lg level file line tid fid time tname content) w =
     (if lg < length (lw_loggers w)
      then SERVER_CC_LOG_LEVEL can_open strftime lg level file line tid fid time tname content w else Inr w)"

fun log_run :: "(string \<Rightarrow> u64 \<Rightarrow> string) \<Rightarrow> ((string \<Rightarrow> bool) \<times> log_op) list \<Rightarrow> log_world \<Rightarrow> log_world res" where
  "log_run strftime [] w = Inr w"
| "log_run strftime ((can_open, op) # ops) w = bindR (log_exec strftime can_open op w) (log_run strftime ops)"

lemma statement_ok:
  assumes "log_ok w" and "lg < length (lw_loggers w)"
  shows "\<exists>w'. SERVER_CC_LOG_LEVEL can_open strftime lg level file line tid fid time tname content w = Inr w' \<and> log_ok w'"
proof (cases "lg_level (the_logger w lg) \<le> level")
  case False
  with assms show ?thesis by (simp add: SERVER_CC_LOG_LEVEL_def)
next
  case True
  note S = statement_loops(1) [OF assms True, of can_open strftime "file" line tid fid time tname content]
    statement_loops(2) [OF assms True]
  show ?thesis using S(1) log_loop_spec [OF S(2)] heard_ok [OF _ assms(1)] by metis
qed

lemma log_exec_ok: "log_ok w \<Longrightarrow> \<exists>w'. log_exec strftime can_open op w = Inr w' \<and> log_ok w'"
  by (cases op) (auto simp: getLogger_ok StdoutLogAppender_new_ok FileLogAppender_new_ok addAppender_ok delAppender_ok
      clearAppenders_ok Logger_setLevel_ok Logger_setPattern_ok Logger_setFormatter_ok LogAppender_setLevel_ok
      LogAppender_setFormatter_ok logs_changed_def fold_define_ok statement_ok)


end
