(* ===== verification/Daemon.thy ===== *)
theory Daemon
  imports Strings
begin

text \<open>
  The supervisor (daemon.h, daemon.cpp): a program that runs in the foreground, or a parent that
  forks it and starts it again when it crashed. The kernel is a script of the results of
  \<open>fork\<close> and of the statuses \<open>waitpid\<close> reports; the program itself is a function.
\<close>

section \<open>State\<close>

record process_info =
  parent_pid :: int
  main_pid :: int
  parent_start_time :: u64
  main_start_time :: u64
  restart_count :: u32

definition ProcessInfo_new :: process_info where
  "ProcessInfo_new =
     \<lparr>parent_pid = 0, main_pid = 0, parent_start_time = 0, main_start_time = 0, restart_count = 0\<rparr>"

definition ProcessInfo_toString :: "(u64 \<Rightarrow> string) \<Rightarrow> process_info \<Rightarrow> string" where
  "ProcessInfo_toString Time2Str p =
     ''[ProcessInfo parent_pid='' @ show_int (parent_pid p) @ '' main_pid='' @ show_int (main_pid p)
     @ '' parent_start_time='' @ Time2Str (parent_start_time p)
     @ '' main_start_time='' @ Time2Str (main_start_time p)
     @ '' restart_count='' @ show_nat (unat (restart_count p)) @ '']''"

section \<open>Running\<close>

text \<open>\<open>pid\<close> and \<open>now\<close> are what \<open>getpid\<close> and \<open>time\<close> answer in the process that runs.\<close>

definition real_start :: "int \<Rightarrow> u64 \<Rightarrow> ('a \<Rightarrow> process_info \<Rightarrow> int) \<Rightarrow> 'a \<Rightarrow> process_info \<Rightarrow> int \<times> process_info" where
  "real_start pid now main_cb args p =
     (let p1 = p\<lparr>main_pid := pid, main_start_time := now\<rparr> in (main_cb args p1, p1))"

text \<open>One \<open>fork\<close>: in the child, failed, or in the parent with the status of the child that ended.\<close>

datatype forked = In_child int u64 | Fork_failed | In_parent int

text \<open>
  What the process does: it returns a value, or it still waits for a child when the script ends.
  The seconds slept before each restart are recorded.
\<close>

datatype daemon_end = Returns int process_info "u32 list" | Waits process_info "u32 list"

fun daemon_loop :: "u32 \<Rightarrow> ('a \<Rightarrow> process_info \<Rightarrow> int) \<Rightarrow> 'a \<Rightarrow> forked list \<Rightarrow> process_info \<Rightarrow> u32 list \<Rightarrow> daemon_end" where
  "daemon_loop interval main_cb args [] p slept = Waits p slept"
| "daemon_loop interval main_cb args (In_child pid now # fs) p slept =
     (case real_start pid now main_cb args (p\<lparr>main_pid := pid, main_start_time := now\<rparr>) of
        (r, p1) \<Rightarrow> Returns r p1 slept)"
| "daemon_loop interval main_cb args (Fork_failed # fs) p slept = Returns (-1) p slept"
| "daemon_loop interval main_cb args (In_parent status # fs) p slept =
     (if status \<noteq> 0 \<and> status \<noteq> 9
      then daemon_loop interval main_cb args fs (p\<lparr>restart_count := restart_count p + 1\<rparr>) (slept @ [interval])
      else Returns 0 p slept)"

definition real_daemon ::
  "int \<Rightarrow> u64 \<Rightarrow> u32 \<Rightarrow> ('a \<Rightarrow> process_info \<Rightarrow> int) \<Rightarrow> 'a \<Rightarrow> forked list \<Rightarrow> process_info \<Rightarrow> daemon_end" where
  "real_daemon pid now interval main_cb args fs p =
     daemon_loop interval main_cb args fs (p\<lparr>parent_pid := pid, parent_start_time := now\<rparr>) []"

definition start_daemon ::
  "int \<Rightarrow> u64 \<Rightarrow> u32 \<Rightarrow> ('a \<Rightarrow> process_info \<Rightarrow> int) \<Rightarrow> 'a \<Rightarrow> bool \<Rightarrow> forked list \<Rightarrow> process_info \<Rightarrow> daemon_end" where
  "start_daemon pid now interval main_cb args is_daemon fs p =
     (if \<not> is_daemon
      then (case real_start pid now main_cb args (p\<lparr>parent_pid := pid, parent_start_time := now\<rparr>) of
              (r, p1) \<Rightarrow> Returns r p1 [])
      else real_daemon pid now interval main_cb args fs p)"

section \<open>Restarts\<close>

text \<open>A fork after which the supervisor goes on: its child crashed.\<close>

fun crashed :: "forked \<Rightarrow> bool" where
  "crashed (In_parent status) \<longleftrightarrow> status \<noteq> 0 \<and> status \<noteq> 9"
| "crashed f = False"

lemma restarts_again: "(p\<lparr>restart_count := c\<rparr>)\<lparr>restart_count := d\<rparr> = p\<lparr>restart_count := d\<rparr>"
  by simp

lemma daemon_loop_restarts:
  "list_all crashed fs \<Longrightarrow>
   daemon_loop interval main_cb args (fs @ rest) p slept =
   daemon_loop interval main_cb args rest (p\<lparr>restart_count := restart_count p + of_nat (length fs)\<rparr>)
     (slept @ replicate (length fs) interval)"
proof (induction fs arbitrary: p slept)
  case (Cons f fs)
  then obtain status where f: "f = In_parent status" "status \<noteq> 0 \<and> status \<noteq> 9" by (cases f) auto
  show ?case using Cons by (simp add: f add.assoc)
qed simp

text \<open>
  C38. The supervisor starts again exactly what crashed: after any number of children that ended with
  a status other than 0 and 9 it has slept the interval and counted one restart for each, modulo
  the width of the counter; with the next fork it runs the program in the child with the child's
  own process id and time, returns -1 when the fork failed, and returns 0 when the child finished
  or was killed; while children go on crashing it does not return.\<close>

theorem supervisor_restarts_what_crashed:
  fixes p :: process_info and pid :: int and now :: u64
  defines "q \<equiv> p\<lparr>parent_pid := pid, parent_start_time := now\<rparr>"
  assumes "list_all crashed fs"
  shows "start_daemon pid now interval main_cb args True (fs @ rest) p =
    (let p1 = q\<lparr>restart_count := restart_count p + of_nat (length fs)\<rparr>; slept = replicate (length fs) interval in
     case rest of
       [] \<Rightarrow> Waits p1 slept
     | In_child cpid t # _ \<Rightarrow>
         (let p2 = p1\<lparr>main_pid := cpid, main_start_time := t\<rparr> in Returns (main_cb args p2) p2 slept)
     | Fork_failed # _ \<Rightarrow> Returns (-1) p1 slept
     | In_parent status # rest' \<Rightarrow>
         (if status = 0 \<or> status = 9 then Returns 0 p1 slept
          else daemon_loop interval main_cb args rest p1 slept))"
  unfolding start_daemon_def real_daemon_def daemon_loop_restarts [OF assms(2)] q_def
  by (auto simp: real_start_def Let_def split: list.splits forked.splits)

lemma supervisor_restarts_what_crashed_witness:
  "start_daemon 10 100 5 (\<lambda>args p. args) 7 True [In_parent 11, In_parent 6, In_child 12 105] ProcessInfo_new =
   Returns 7 \<lparr>parent_pid = 10, main_pid = 12, parent_start_time = 100, main_start_time = 105, restart_count = 2\<rparr> [5, 5]"
proof -
  have "list_all crashed [In_parent 11, In_parent 6]" by simp
  from supervisor_restarts_what_crashed [OF this, of 10 100 5 "\<lambda>args p. args" 7 "[In_child 12 105]" ProcessInfo_new]
  show ?thesis by (simp add: ProcessInfo_new_def numeral_2_eq_2)
qed

end
