(* ===== verification/Env.thy ===== *)
theory Env
  imports Strings
begin

text \<open>
  The environment of the program (env.h, env.cpp): the parser of the command line, the stored
  arguments and help lines, environment variables, and the paths that derive from the executable.
\<close>

section \<open>State\<close>

text \<open>The map of arguments is never walked through, only looked up.\<close>

record env =
  m_args :: "string \<rightharpoonup> string"
  m_helps :: "(string \<times> string) list"
  m_program :: string
  m_exe :: string
  m_cwd :: string

definition Env_new :: env where
  "Env_new = \<lparr>m_args = Map.empty, m_helps = [], m_program = [], m_exe = [], m_cwd = []\<rparr>"

definition env_add :: "string \<Rightarrow> string \<Rightarrow> env \<Rightarrow> env" where
  "env_add key val e = e\<lparr>m_args := (m_args e)(key \<mapsto> val)\<rparr>"

definition env_has :: "string \<Rightarrow> env \<Rightarrow> bool" where
  "env_has key e \<longleftrightarrow> m_args e key \<noteq> None"

definition env_del :: "string \<Rightarrow> env \<Rightarrow> env" where
  "env_del key e = e\<lparr>m_args := (m_args e)(key := None)\<rparr>"

definition env_get :: "string \<Rightarrow> string \<Rightarrow> env \<Rightarrow> string" where
  "env_get key default_value e = (case m_args e key of Some v \<Rightarrow> v | None \<Rightarrow> default_value)"

section \<open>The command line\<close>

text \<open>
  The loop of \<open>init\<close> over the arguments behind the program's name, with the key that waits for
  its value; an invalid argument ends it and leaves what was stored so far.
\<close>

fun args_loop :: "string list \<Rightarrow> string option \<Rightarrow> env \<Rightarrow> bool \<times> env" where
  "args_loop [] now_key e = (True, case now_key of None \<Rightarrow> e | Some k \<Rightarrow> env_add k [] e)"
| "args_loop (a # as) now_key e =
     (if a \<noteq> [] \<and> hd a = CHR 0x2D
      then (if length a > 1
            then args_loop as (Some (tl a)) (case now_key of None \<Rightarrow> e | Some k \<Rightarrow> env_add k [] e)
            else (False, e))
      else (case now_key of
              Some k \<Rightarrow> args_loop as None (env_add k a e)
            | None \<Rightarrow> (False, e)))"

definition find_last_of :: "char \<Rightarrow> string \<Rightarrow> nat option" where
  "find_last_of c s = find (\<lambda>i. s ! i = c) (rev [0..<length s])"

text \<open>\<open>path\<close> is what \<open>/proc/<pid>/exe\<close> links to, empty when it cannot be read.\<close>

definition Env_init :: "string \<Rightarrow> string list \<Rightarrow> env \<Rightarrow> bool \<times> env" where
  "Env_init path argv e =
     args_loop (tl argv) None
       (e\<lparr>m_exe := path,
          m_cwd := (case find_last_of (CHR 0x2F) path of None \<Rightarrow> path | Some pos \<Rightarrow> take pos path) @ ''/''\<rparr>)"

section \<open>Help\<close>

definition removeHelp :: "string \<Rightarrow> env \<Rightarrow> env" where
  "removeHelp key e = e\<lparr>m_helps := filter (\<lambda>h. fst h \<noteq> key) (m_helps e)\<rparr>"

definition addHelp :: "string \<Rightarrow> string \<Rightarrow> env \<Rightarrow> env" where
  "addHelp key desc e = (let e1 = removeHelp key e in e1\<lparr>m_helps := m_helps e1 @ [(key, desc)]\<rparr>)"

definition printHelp :: "env \<Rightarrow> string" where
  "printHelp e =
     ''Usage: '' @ m_program e @ '' [options]'' @ [CHR 0x0A]
     @ concat (map (\<lambda>(key, desc). ''    -'' @ key @ '' : '' @ desc @ [CHR 0x0A]) (m_helps e))"

section \<open>Environment variables\<close>

text \<open>\<open>setenv\<close> refuses a name that is empty or has an equals sign.\<close>

definition setEnv :: "string \<Rightarrow> string \<Rightarrow> (string \<rightharpoonup> string) \<Rightarrow> bool \<times> (string \<rightharpoonup> string)" where
  "setEnv key val vars =
     (if c_str key = [] \<or> CHR 0x3D \<in> set (c_str key) then (False, vars)
      else (True, vars(c_str key \<mapsto> c_str val)))"

definition getEnv :: "string \<Rightarrow> string \<Rightarrow> (string \<rightharpoonup> string) \<Rightarrow> string" where
  "getEnv key default_value vars = (case vars (c_str key) of None \<Rightarrow> default_value | Some v \<Rightarrow> v)"

section \<open>Paths\<close>

definition getAbsolutePath :: "string \<Rightarrow> env \<Rightarrow> string" where
  "getAbsolutePath path e =
     (if path = [] then ''/'' else if hd path = CHR 0x2F then path else m_cwd e @ path)"

text \<open>\<open>work_path\<close> is the value of the variable \<open>server.work_path\<close>.\<close>

definition getAbsoluteWorkPath :: "string \<Rightarrow> string \<Rightarrow> string" where
  "getAbsoluteWorkPath work_path path =
     (if path = [] then ''/'' else if hd path = CHR 0x2F then path else work_path @ ''/'' @ path)"

definition getConfigPath :: "env \<Rightarrow> string" where
  "getConfigPath e = getAbsolutePath (env_get ''c'' ''conf'' e) e"

section \<open>What the parser accepts\<close>

text \<open>An option with or without a value, as it stands on the command line.\<close>

fun render :: "string \<times> string option \<Rightarrow> string list" where
  "render (k, None) = [CHR 0x2D # k]"
| "render (k, Some v) = [CHR 0x2D # k, v]"

fun option_ok :: "string \<times> string option \<Rightarrow> bool" where
  "option_ok (k, v) = (k \<noteq> [] \<and> (case v of None \<Rightarrow> True | Some t \<Rightarrow> t = [] \<or> hd t \<noteq> CHR 0x2D))"

definition store :: "env \<Rightarrow> (string \<times> string option) list \<Rightarrow> env" where
  "store e os = fold (\<lambda>(k, v). env_add k (case v of None \<Rightarrow> [] | Some t \<Rightarrow> t)) os e"

lemma store_simps [simp]:
  "store e [] = e"
  "store e ((k, v) # os) = store (env_add k (case v of None \<Rightarrow> [] | Some t \<Rightarrow> t) e) os"
  by (simp_all add: store_def)

lemma args_loop_accepts:
  "list_all option_ok os \<Longrightarrow> args_loop (concat (map render os)) None e = (True, store e os)
   \<and> (\<forall>k. args_loop (concat (map render os)) (Some k) e = (True, store (env_add k [] e) os))"
proof (induction os arbitrary: e)
  case (Cons o' os)
  obtain k v where o: "o' = (k, v)" by (cases o')
  show ?case
  proof (cases v)
    case None
    with Cons o show ?thesis by simp
  next
    case (Some t)
    with Cons o show ?thesis by (cases t) simp_all
  qed
qed simp

text \<open>What is accepted is a sequence of options, the first of which may be the value of a waiting key.\<close>

lemma args_loop_accepted:
  "args_loop as now_key e = (True, e') \<Longrightarrow>
   case now_key of
     None \<Rightarrow> \<exists>os. as = concat (map render os) \<and> list_all option_ok os \<and> e' = store e os
   | Some k \<Rightarrow> k \<noteq> [] \<longrightarrow> (\<exists>os. (CHR 0x2D # k) # as = concat (map render os) \<and> list_all option_ok os \<and> e' = store e os)"
proof (induction as arbitrary: now_key e)
  case Nil
  show ?case
  proof (cases now_key)
    case None
    with Nil show ?thesis by (auto intro: exI [of _ "[]"])
  next
    case (Some k)
    with Nil show ?thesis by (auto intro!: exI [of _ "[(k, None)]"])
  qed
next
  case (Cons a as)
  show ?case
  proof (cases "a \<noteq> [] \<and> hd a = CHR 0x2D")
    case True
    then obtain k where a: "a = CHR 0x2D # k" by (cases a) auto
    then have k: "k \<noteq> []" using Cons.prems by (auto split: if_splits)
    let ?e = "case now_key of None \<Rightarrow> e | Some k \<Rightarrow> env_add k [] e"
    have "args_loop as (Some k) ?e = (True, e')" using Cons.prems a k by simp
    from Cons.IH [OF this] k obtain os where
      os: "(CHR 0x2D # k) # as = concat (map render os)" "list_all option_ok os" "e' = store ?e os" by auto
    show ?thesis
    proof (cases now_key)
      case None
      with os a show ?thesis by auto
    next
      case (Some k')
      with os a have "(CHR 0x2D # k') # a # as = concat (map render ((k', None) # os))" "e' = store e ((k', None) # os)"
        by simp_all
      moreover have "k' \<noteq> [] \<longrightarrow> list_all option_ok ((k', None) # os)" using os(2) by simp
      ultimately show ?thesis unfolding Some option.case by blast
    qed
  next
    case False
    then obtain k where k: "now_key = Some k" and l: "args_loop as None (env_add k a e) = (True, e')"
      using Cons.prems by (cases now_key) auto
    from Cons.IH [OF l] obtain os where
      "as = concat (map render os)" "list_all option_ok os" "e' = store (env_add k a e) os" by auto
    moreover have "k \<noteq> [] \<longrightarrow> option_ok (k, Some a)" using False by auto
    ultimately have "(CHR 0x2D # k) # a # as = concat (map render ((k, Some a) # os))" "e' = store e ((k, Some a) # os)"
      "k \<noteq> [] \<longrightarrow> list_all option_ok ((k, Some a) # os)" by simp_all
    then show ?thesis unfolding k option.case by blast
  qed
qed

text \<open>
  C37. The command line is read as what it says: the parser accepts the arguments exactly when they
  are a sequence of options, each a dash and a name and then perhaps a value that does not start
  with a dash; it then stores the options in their order, the empty value for those without one,
  and nothing else of the state changes but the paths of the executable.\<close>

theorem options_parse_exactly:
  "Env_init path (program # as) e = (True, e') \<longleftrightarrow>
     (\<exists>os. as = concat (map render os) \<and> list_all option_ok os
       \<and> e' = store (snd (Env_init path [program] e)) os)"
  using args_loop_accepted [of as None] args_loop_accepts by (auto simp: Env_init_def)

end
