(* ===== verification/FSUtil.thy ===== *)
theory FSUtil
  imports CNumbers
begin

text \<open>
  What the program does with the file system (utils.cpp): the listing of a directory tree, the
  creation of a directory with its parents, and the check of a pid file. The file system itself is
  a parameter: the entries a directory shows, and the calls \<open>access\<close>, \<open>lstat\<close> and \<open>mkdir\<close>.
\<close>

section \<open>ListAllFile\<close>

text \<open>
  An entry of a directory as \<open>readdir\<close> shows it, with what opening the subdirectory gives:
  nothing when it is not accessible.
\<close>

datatype dirent = Reg | Subdir "(string \<times> dirent) list option" | Irregular

function list_entries :: "string list \<Rightarrow> string \<Rightarrow> string \<Rightarrow> (string \<times> dirent) list \<Rightarrow> string list" where
  "list_entries files path subfix [] = files"
| "list_entries files path subfix ((name, Subdir sub) # es) =
     (if name = ''.'' \<or> name = ''..'' then list_entries files path subfix es
      else list_entries
             (case sub of None \<Rightarrow> files | Some es' \<Rightarrow> list_entries files (path @ ''/'' @ name) subfix es')
             path subfix es)"
| "list_entries files path subfix ((name, Reg) # es) =
     (if subfix = [] then list_entries (files @ [path @ ''/'' @ name]) path subfix es
      else if length name < length subfix then list_entries files path subfix es
      else if drop (length name - length subfix) name = subfix
      then list_entries (files @ [path @ ''/'' @ name]) path subfix es
      else list_entries files path subfix es)"
| "list_entries files path subfix ((name, Irregular) # es) = list_entries files path subfix es"
  by pat_completeness auto
termination
  by (relation "measure (\<lambda>(files, path, subfix, es). size_list (size_prod (\<lambda>x. 0) size) es)") simp_all

definition ListAllFile :: "string list \<Rightarrow> string \<Rightarrow> string \<Rightarrow> (string \<times> dirent) list option \<Rightarrow> string list" where
  "ListAllFile files path subfix dir = (case dir of None \<Rightarrow> files | Some es \<Rightarrow> list_entries files path subfix es)"

section \<open>Mkdir\<close>

text \<open>The calls of the kernel over its own state.\<close>

record 's dir_calls =
  sys_access :: "string \<Rightarrow> 's \<Rightarrow> bool"
  sys_lstat :: "string \<Rightarrow> 's \<Rightarrow> bool"
  sys_mkdir :: "string \<Rightarrow> 's \<Rightarrow> bool \<times> 's"

definition mkdir_one :: "'s dir_calls \<Rightarrow> string \<Rightarrow> 's \<Rightarrow> bool \<times> 's" where
  "mkdir_one K dirname s = (if sys_access K dirname s then (True, s) else sys_mkdir K dirname s)"

text \<open>The loop over the slashes behind the first character: each prefix up to one is made.\<close>

fun mkdir_prefixes :: "'s dir_calls \<Rightarrow> string list \<Rightarrow> 's \<Rightarrow> bool \<times> 's" where
  "mkdir_prefixes K [] s = (True, s)"
| "mkdir_prefixes K (p # ps) s =
     (case mkdir_one K p s of (ok, s1) \<Rightarrow> if \<not> ok then (False, s1) else mkdir_prefixes K ps s1)"

definition parents :: "string \<Rightarrow> string list" where
  "parents path = map (\<lambda>i. take i path) (filter (\<lambda>i. path ! i = CHR 0x2F) [1..<length path])"

text \<open>The search for a slash starts behind the first character, which for an empty name is behind its end.\<close>

definition Mkdir :: "'s dir_calls \<Rightarrow> string \<Rightarrow> 's \<Rightarrow> (bool \<times> 's) res" where
  "Mkdir K dirname s =
     (let path = c_str dirname in
      if sys_lstat K path s then Inr (True, s)
      else if path = [] then Inl BadAccess
      else (case mkdir_prefixes K (parents path) s of
              (ok, s1) \<Rightarrow> Inr (if \<not> ok then (False, s1) else mkdir_one K path s1)))"

section \<open>IsRunningPidfile\<close>

text \<open>\<open>content\<close> is what the file holds when it can be opened; \<open>alive\<close> whether signal 0 reaches the process.\<close>

definition IsRunningPidfile :: "bool \<Rightarrow> string option \<Rightarrow> (int \<Rightarrow> bool) \<Rightarrow> bool" where
  "IsRunningPidfile lstat_ok content alive =
     (if \<not> lstat_ok then False
      else (case content of
              None \<Rightarrow> False
            | Some text \<Rightarrow>
                (if text = [] then False
                 else (let line = takeWhile (\<lambda>c. c \<noteq> CHR 0x0A) text in
                       if line = [] then False
                       else (let pid = atoi line in if pid \<le> 1 then False else alive pid)))))"

section \<open>What the listing finds\<close>

text \<open>The regular files under a directory: the path below it and the name.\<close>

inductive under :: "(string \<times> dirent) list \<Rightarrow> string \<Rightarrow> string \<Rightarrow> bool" where
  here: "(name, Reg) \<in> set es \<Longrightarrow> under es (CHR 0x2F # name) name"
| below: "(sub, Subdir (Some es')) \<in> set es \<Longrightarrow> sub \<noteq> ''.'' \<Longrightarrow> sub \<noteq> ''..'' \<Longrightarrow> under es' p name
    \<Longrightarrow> under es (CHR 0x2F # sub @ p) name"

definition ends_with :: "string \<Rightarrow> string \<Rightarrow> bool" where
  "ends_with subfix name \<longleftrightarrow> (\<exists>front. name = front @ subfix)"

lemma ends_with_drop:
  "ends_with subfix name \<longleftrightarrow> length subfix \<le> length name \<and> drop (length name - length subfix) name = subfix"
proof
  assume "length subfix \<le> length name \<and> drop (length name - length subfix) name = subfix"
  then show "ends_with subfix name" unfolding ends_with_def by (metis append_take_drop_id)
qed (auto simp: ends_with_def)

lemma ends_with_Nil [simp]: "ends_with [] name"
  by (simp add: ends_with_def)

inductive_simps under_Nil [simp]: "under [] p name"

lemma under_cons: "under (e # es) p name \<longleftrightarrow> under [e] p name \<or> under es p name"
proof
  assume "under (e # es) p name"
  then show "under [e] p name \<or> under es p name" by cases (auto intro: under.intros)
next
  assume "under [e] p name \<or> under es p name"
  then show "under (e # es) p name"
  proof
    assume "under [e] p name"
    then show ?thesis by cases (auto intro: under.intros)
  next
    assume "under es p name"
    then show ?thesis by cases (auto intro: under.intros)
  qed
qed

lemma under_one:
  "under [(n, Reg)] p name \<longleftrightarrow> p = ''/'' @ n \<and> name = n"
  "\<not> under [(n, Irregular)] p name"
  "\<not> under [(n, Subdir None)] p name"
  "n = ''.'' \<or> n = ''..'' \<Longrightarrow> \<not> under [(n, Subdir d)] p name"
  "n \<noteq> ''.'' \<Longrightarrow> n \<noteq> ''..'' \<Longrightarrow> under [(n, Subdir (Some es'))] p name \<longleftrightarrow> (\<exists>q. p = ''/'' @ n @ q \<and> under es' q name)"
  by (subst under.simps; auto)+

lemma list_entries_set:
  "f \<in> set (list_entries files path subfix es) \<longleftrightarrow>
   f \<in> set files \<or> (\<exists>p name. under es p name \<and> ends_with subfix name \<and> f = path @ p)"
proof (induction files path subfix es rule: list_entries.induct)
  case (1 files path subfix)
  then show ?case by simp
next
  case (2 files path subfix name sub es)
  show ?case
  proof (cases "name = ''.'' \<or> name = ''..''")
    case True
    have "under ((name, Subdir sub) # es) p n \<longleftrightarrow> under es p n" for p n
      using under_one(4) [OF True] by (subst under_cons) simp
    then show ?thesis using 2(1) [OF True] by (simp add: True)
  next
    case False
    show ?thesis
    proof (cases sub)
      case None
      have "under ((name, Subdir sub) # es) p n \<longleftrightarrow> under es p n" for p n
        using under_one(3) by (subst under_cons) (simp add: None)
      then show ?thesis using 2(3) [OF False] False by (simp add: None)
    next
      case (Some es')
      have "under ((name, Subdir sub) # es) p n \<longleftrightarrow> (\<exists>q. p = ''/'' @ name @ q \<and> under es' q n) \<or> under es p n" for p n
        using under_one(5) False by (subst under_cons) (simp add: Some)
      then show ?thesis using 2(2) [OF False Some] 2(3) [OF False] False by (simp add: Some) blast
    qed
  qed
next
  case (3 files path subfix name es)
  have u: "under ((name, Reg) # es) p n \<longleftrightarrow> (p = ''/'' @ name \<and> n = name) \<or> under es p n" for p n
    using under_one(1) by (subst under_cons) simp
  have l: "list_entries files path subfix ((name, Reg) # es) =
      list_entries (if ends_with subfix name then files @ [path @ ''/'' @ name] else files) path subfix es"
    by (auto simp: ends_with_drop)
  show ?case
  proof (cases "ends_with subfix name")
    case True
    have "f \<in> set (list_entries (files @ [path @ ''/'' @ name]) path subfix es) \<longleftrightarrow>
      f \<in> set (files @ [path @ ''/'' @ name]) \<or> (\<exists>p n. under es p n \<and> ends_with subfix n \<and> f = path @ p)"
      using 3(1,3) True by (cases "subfix = []") (auto simp: ends_with_drop)
    then show ?thesis using True unfolding l u by auto
  next
    case False
    have "f \<in> set (list_entries files path subfix es) \<longleftrightarrow>
      f \<in> set files \<or> (\<exists>p n. under es p n \<and> ends_with subfix n \<and> f = path @ p)"
      using 3(2,4) False by (cases "subfix = []"; cases "length name < length subfix") (auto simp: ends_with_drop)
    then show ?thesis using False unfolding l u by auto
  qed
next
  case (4 files path subfix name es)
  have "under ((name, Irregular) # es) p n \<longleftrightarrow> under es p n" for p n
    using under_one(2) by (subst under_cons) simp
  with 4 show ?case by simp
qed

text \<open>
  The listing finds the files of a tree: beside what the list held, it gets exactly the paths of
  the regular files under the directory whose names end with the suffix, and nothing for a
  directory that cannot be opened.\<close>

theorem listing_finds_the_files:
  "f \<in> set (ListAllFile files path subfix dir) \<longleftrightarrow>
     f \<in> set files \<or> (\<exists>es p name. dir = Some es \<and> under es p name \<and> ends_with subfix name \<and> f = path @ p)"
  by (cases dir) (simp_all add: ListAllFile_def list_entries_set)

section \<open>What a directory needs\<close>

lemma mkdir_one_access:
  assumes "\<And>p s s1. sys_mkdir K p s = (True, s1) \<Longrightarrow> sys_access K p s1"
    and "\<And>p q s ok s1. sys_mkdir K p s = (ok, s1) \<Longrightarrow> sys_access K q s \<Longrightarrow> sys_access K q s1"
    and "mkdir_one K d s = (ok, s1)"
  shows "(ok \<longrightarrow> sys_access K d s1) \<and> (sys_access K q s \<longrightarrow> sys_access K q s1)"
  using assms by (auto simp: mkdir_one_def split: if_splits)

lemma mkdir_prefixes_access:
  assumes "\<And>p s s1. sys_mkdir K p s = (True, s1) \<Longrightarrow> sys_access K p s1"
    and "\<And>p q s ok s1. sys_mkdir K p s = (ok, s1) \<Longrightarrow> sys_access K q s \<Longrightarrow> sys_access K q s1"
    and "mkdir_prefixes K ps s = (ok, s1)"
  shows "(ok \<longrightarrow> (\<forall>p \<in> set ps. sys_access K p s1)) \<and> (sys_access K q s \<longrightarrow> sys_access K q s1)"
  using assms(3)
proof (induction ps arbitrary: s q)
  case (Cons p ps)
  obtain b s2 where o: "mkdir_one K p s = (b, s2)" by (cases "mkdir_one K p s")
  note E = mkdir_one_access [OF assms(1,2) o]
  show ?case
  proof (cases b)
    case True
    then have "mkdir_prefixes K ps s2 = (ok, s1)" using Cons.prems by (simp add: o)
    from Cons.IH [OF this] E True show ?thesis by auto
  next
    case False
    then show ?thesis using Cons.prems E by (simp add: o)
  qed
qed simp

text \<open>
  When \<open>Mkdir\<close> had to work and says it succeeded, the directory and all its parents are there;
  only the empty name makes it read outside its text.
\<close>

lemma mkdir_makes_all_parents:
  assumes "\<And>p s s1. sys_mkdir K p s = (True, s1) \<Longrightarrow> sys_access K p s1"
    and "\<And>p q s ok s1. sys_mkdir K p s = (ok, s1) \<Longrightarrow> sys_access K q s \<Longrightarrow> sys_access K q s1"
    and "\<not> sys_lstat K (c_str dirname) s"
  shows "case Mkdir K dirname s of
      Inl e \<Rightarrow> c_str dirname = [] \<and> e = BadAccess
    | Inr (ok, s1) \<Rightarrow> ok \<longrightarrow> (\<forall>p \<in> set (parents (c_str dirname)) \<union> {c_str dirname}. sys_access K p s1)"
proof (cases "c_str dirname = []")
  case True
  with assms(3) show ?thesis by (simp add: Mkdir_def)
next
  case False
  obtain ok s1 where m: "mkdir_prefixes K (parents (c_str dirname)) s = (ok, s1)"
    by (cases "mkdir_prefixes K (parents (c_str dirname)) s")
  obtain b s2 where o: "mkdir_one K (c_str dirname) s1 = (b, s2)" by (cases "mkdir_one K (c_str dirname) s1")
  show ?thesis
    using assms(3) False mkdir_prefixes_access [OF assms(1,2) m] mkdir_one_access [OF assms(1,2) o]
    by (auto simp: Mkdir_def m o)
qed

end
