(* ===== verification/Sockets.thy ===== *)
theory Sockets
  imports Address Hook
begin

text \<open>
  The life of a socket (socket.h, socket.cpp): creation, bind, connect, listen, accept, close,
  its addresses, options and cancellation. The kernel is the set of open descriptors and a script
  of answers to the calls in their order; data transfer is in the theory of streams.
\<close>

section \<open>The kernel\<close>

text \<open>A call fails, succeeds, or succeeds and reports an address; when the script is empty it fails.\<close>

datatype answer = Fail | Okay | Named address

record kernel =
  kn_open :: "int list"
  kn_answers :: "answer list"

definition answer :: "kernel \<Rightarrow> answer \<times> kernel" where
  "answer k = (case kn_answers k of [] \<Rightarrow> (Fail, k) | a # as \<Rightarrow> (a, k\<lparr>kn_answers := as\<rparr>))"

text \<open>A new descriptor is the lowest that is not open.\<close>

definition lowest_free :: "kernel \<Rightarrow> int" where
  "lowest_free k = int (the (find (\<lambda>n. int n \<notin> set (kn_open k)) [0..<Suc (length (kn_open k))]))"

definition sys_open :: "kernel \<Rightarrow> int \<times> kernel" where
  "sys_open k =
     (case answer k of
        (Fail, k1) \<Rightarrow> (-1, k1)
      | (_, k1) \<Rightarrow> (lowest_free k1, k1\<lparr>kn_open := lowest_free k1 # kn_open k1\<rparr>))"

definition sys_call :: "kernel \<Rightarrow> int \<times> kernel" where
  "sys_call k = (case answer k of (Fail, k1) \<Rightarrow> (-1, k1) | (_, k1) \<Rightarrow> (0, k1))"

definition sys_close :: "int \<Rightarrow> kernel \<Rightarrow> kernel" where
  "sys_close fd k = k\<lparr>kn_open := remove1 fd (kn_open k)\<rparr>"

section \<open>Socket\<close>

definition SOCK_STREAM :: int where "SOCK_STREAM = 1"
definition SOCK_DGRAM :: int where "SOCK_DGRAM = 2"

record socket =
  so_sock :: int
  so_family :: u16
  so_type :: int
  so_protocol :: int
  so_isConnected :: bool
  so_localAddress :: "address option"
  so_remoteAddress :: "address option"

definition Socket_new :: "u16 \<Rightarrow> int \<Rightarrow> int \<Rightarrow> socket" where
  "Socket_new family type protocol =
     \<lparr>so_sock = -1, so_family = family, so_type = type, so_protocol = protocol, so_isConnected = False,
      so_localAddress = None, so_remoteAddress = None\<rparr>"

definition isValid :: "socket \<Rightarrow> bool" where "isValid s \<longleftrightarrow> so_sock s \<noteq> -1"

definition setOption :: "kernel \<Rightarrow> bool \<times> kernel" where
  "setOption k = (case sys_call k of (rt, k1) \<Rightarrow> (rt = 0, k1))"

text \<open>\<open>SO_REUSEADDR\<close>, and for a stream \<open>TCP_NODELAY\<close>; the results are not looked at.\<close>

definition initSock :: "socket \<Rightarrow> kernel \<Rightarrow> kernel" where
  "initSock s k =
     (let k1 = snd (setOption k) in if so_type s = SOCK_STREAM then snd (setOption k1) else k1)"

definition newSock :: "socket \<Rightarrow> kernel \<Rightarrow> socket \<times> kernel" where
  "newSock s k =
     (case sys_open k of
        (fd, k1) \<Rightarrow>
          (let s1 = s\<lparr>so_sock := fd\<rparr> in (s1, if fd \<noteq> -1 then initSock s1 k1 else k1)))"

definition CreateTCP :: "address \<Rightarrow> socket" where "CreateTCP a = Socket_new (getFamily a) SOCK_STREAM 0"
definition CreateTCPSocket :: socket where "CreateTCPSocket = Socket_new AF_INET SOCK_STREAM 0"
definition CreateTCPSocket6 :: socket where "CreateTCPSocket6 = Socket_new AF_INET6 SOCK_STREAM 0"
definition CreateUnixTCPSocket :: socket where "CreateUnixTCPSocket = Socket_new AF_UNIX SOCK_STREAM 0"
definition CreateUnixUDPSocket :: socket where "CreateUnixUDPSocket = Socket_new AF_UNIX SOCK_DGRAM 0"

text \<open>A datagram socket is opened at once and counts as connected, whether it opened or not.\<close>

definition new_datagram :: "u16 \<Rightarrow> kernel \<Rightarrow> socket \<times> kernel" where
  "new_datagram family k =
     (case newSock (Socket_new family SOCK_DGRAM 0) k of (s, k1) \<Rightarrow> (s\<lparr>so_isConnected := True\<rparr>, k1))"

definition CreateUDP :: "address \<Rightarrow> kernel \<Rightarrow> socket \<times> kernel" where "CreateUDP a = new_datagram (getFamily a)"
definition CreateUDPSocket :: "kernel \<Rightarrow> socket \<times> kernel" where "CreateUDPSocket = new_datagram AF_INET"
definition CreateUDPSocket6 :: "kernel \<Rightarrow> socket \<times> kernel" where "CreateUDPSocket6 = new_datagram AF_INET6"

section \<open>Addresses of a socket\<close>

definition address_for :: "byte_order \<Rightarrow> u16 \<Rightarrow> address" where
  "address_for host family =
     (if family = AF_INET then IPv4Address (IPv4Address_new host 0 0)
      else if family = AF_INET6 then IPv6Address IPv6Address_default
      else if family = AF_UNIX then UnixAddress_default
      else UnknownAddress (UnknownAddress_new family))"

text \<open>\<open>getpeername\<close> and \<open>getsockname\<close> fill the address; a failure answers with one that is not kept.\<close>

definition getRemoteAddress :: "byte_order \<Rightarrow> socket \<Rightarrow> kernel \<Rightarrow> address \<times> socket \<times> kernel" where
  "getRemoteAddress host s k =
     (case so_remoteAddress s of
        Some a \<Rightarrow> (a, s, k)
      | None \<Rightarrow>
          (case answer k of
             (Fail, k1) \<Rightarrow> (UnknownAddress (UnknownAddress_new (so_family s)), s, k1)
           | (Okay, k1) \<Rightarrow> (address_for host (so_family s), s\<lparr>so_remoteAddress := Some (address_for host (so_family s))\<rparr>, k1)
           | (Named a, k1) \<Rightarrow> (a, s\<lparr>so_remoteAddress := Some a\<rparr>, k1)))"

definition getLocalAddress :: "byte_order \<Rightarrow> socket \<Rightarrow> kernel \<Rightarrow> address \<times> socket \<times> kernel" where
  "getLocalAddress host s k =
     (case so_localAddress s of
        Some a \<Rightarrow> (a, s, k)
      | None \<Rightarrow>
          (case answer k of
             (Fail, k1) \<Rightarrow> (UnknownAddress (UnknownAddress_new (so_family s)), s, k1)
           | (Okay, k1) \<Rightarrow> (address_for host (so_family s), s\<lparr>so_localAddress := Some (address_for host (so_family s))\<rparr>, k1)
           | (Named a, k1) \<Rightarrow> (a, s\<lparr>so_localAddress := Some a\<rparr>, k1)))"

section \<open>Opening and closing\<close>

definition sock_close :: "socket \<Rightarrow> kernel \<Rightarrow> bool \<times> socket \<times> kernel" where
  "sock_close s k =
     (if \<not> so_isConnected s \<and> so_sock s = -1 then (True, s, k)
      else if so_sock s \<noteq> -1
      then (False, s\<lparr>so_isConnected := False, so_sock := -1\<rparr>, sys_close (so_sock s) k)
      else (False, s\<lparr>so_isConnected := False\<rparr>, k))"

definition Socket_destroy :: "socket \<Rightarrow> kernel \<Rightarrow> kernel" where
  "Socket_destroy s k = snd (snd (sock_close s k))"

text \<open>\<open>connect\<close>, with or without a timeout: the hooked call succeeds or fails.\<close>

definition sock_connect :: "byte_order \<Rightarrow> address \<Rightarrow> socket \<Rightarrow> kernel \<Rightarrow> bool \<times> socket \<times> kernel" where
  "sock_connect host addr s k =
     (let s0 = s\<lparr>so_remoteAddress := Some addr\<rparr>;
          (s1, k1) = (if \<not> isValid s0 then newSock s0 k else (s0, k))
      in if \<not> isValid s1 then (False, s1, k1)
         else if getFamily addr \<noteq> so_family s1 then (False, s1, k1)
         else (case sys_call k1 of
                 (rt, k2) \<Rightarrow>
                   (if rt \<noteq> 0 then (case sock_close s1 k2 of (_, s2, k3) \<Rightarrow> (False, s2, k3))
                    else (case getRemoteAddress host (s1\<lparr>so_isConnected := True\<rparr>) k2 of
                            (_, s2, k3) \<Rightarrow> (case getLocalAddress host s2 k3 of (_, s3, k4) \<Rightarrow> (True, s3, k4))))))"

definition reconnect :: "byte_order \<Rightarrow> socket \<Rightarrow> kernel \<Rightarrow> bool \<times> socket \<times> kernel" where
  "reconnect host s k =
     (case so_remoteAddress s of
        None \<Rightarrow> (False, s, k)
      | Some a \<Rightarrow> sock_connect host a (s\<lparr>so_localAddress := None\<rparr>) k)"

fun is_unix :: "address \<Rightarrow> bool" where
  "is_unix (UnixAddress a m_length) = True"
| "is_unix a = False"

text \<open>
  \<open>bind\<close>: for a Unix address a second socket tries to connect first, and is destroyed when
  it goes out of scope; if it connected, somebody listens there already.
\<close>

definition sock_bind :: "byte_order \<Rightarrow> address \<Rightarrow> socket \<Rightarrow> kernel \<Rightarrow> bool \<times> socket \<times> kernel" where
  "sock_bind host addr s k =
     (let (s1, k1) = (if \<not> isValid s then newSock s k else (s, k)) in
      if \<not> isValid s1 then (False, s1, k1)
      else if getFamily addr \<noteq> so_family s1 then (False, s1, k1)
      else
        (let (taken, k2) = (if is_unix addr
               then (case sock_connect host addr CreateUnixTCPSocket k1 of (ok, u, k2) \<Rightarrow> (ok, Socket_destroy u k2))
               else (False, k1))
         in if taken then (False, s1, k2)
            else (case sys_call k2 of
                    (rt, k3) \<Rightarrow>
                      (if rt \<noteq> 0 then (False, s1, k3)
                       else (case getLocalAddress host s1 k3 of (_, s2, k4) \<Rightarrow> (True, s2, k4))))))"

definition sock_listen :: "socket \<Rightarrow> kernel \<Rightarrow> bool \<times> kernel" where
  "sock_listen s k =
     (if \<not> isValid s then (False, k) else (case sys_call k of (rt, k1) \<Rightarrow> (rt = 0, k1)))"

text \<open>
  \<open>init\<close> takes the descriptor only if \<open>FdMgr\<close> knows it as an open socket. \<open>accept\<close>
  drops its new socket otherwise, but the descriptor was not in it.
\<close>

definition sock_init :: "byte_order \<Rightarrow> (int \<Rightarrow> fd_ctx option) \<Rightarrow> int \<Rightarrow> socket \<Rightarrow> kernel \<Rightarrow> bool \<times> socket \<times> kernel" where
  "sock_init host FdMgr_get fd s k =
     (case FdMgr_get fd of
        None \<Rightarrow> (False, s, k)
      | Some c \<Rightarrow>
          (if isSocket c \<and> \<not> isClose c
           then (let s1 = s\<lparr>so_sock := fd, so_isConnected := True\<rparr>;
                     k1 = initSock s1 k;
                     (_, s2, k2) = getLocalAddress host s1 k1;
                     (_, s3, k3) = getRemoteAddress host s2 k2
                 in (True, s3, k3))
           else (False, s, k)))"

definition sock_accept :: "byte_order \<Rightarrow> (int \<Rightarrow> fd_ctx option) \<Rightarrow> socket \<Rightarrow> kernel \<Rightarrow> socket option \<times> kernel" where
  "sock_accept host FdMgr_get s k =
     (let sock = Socket_new (so_family s) (so_type s) (so_protocol s) in
      case sys_open k of
        (newsock, k1) \<Rightarrow>
          (if newsock = -1 then (None, Socket_destroy sock k1)
           else (case sock_init host FdMgr_get newsock sock k1 of
                   (ok, sock1, k2) \<Rightarrow> if ok then (Some sock1, k2) else (None, Socket_destroy sock1 k2))))"

section \<open>Datagrams, options, cancellation\<close>

text \<open>The transfers whose result is the kernel's \<open>rt\<close>.\<close>

definition sendTo :: "int \<Rightarrow> socket \<Rightarrow> int" where
  "sendTo rt s = (if so_isConnected s then rt else -1)"

definition recvFrom :: "int \<Rightarrow> socket \<Rightarrow> int" where
  "recvFrom rt s = (if so_isConnected s then rt else -1)"

definition send_iov :: "int \<Rightarrow> socket \<Rightarrow> int" where
  "send_iov rt s = (if so_isConnected s then rt else -1)"

definition recv_iov :: "int \<Rightarrow> socket \<Rightarrow> int" where
  "recv_iov rt s = (if so_isConnected s then rt else -1)"

text \<open>\<open>timeval{int(v / 1000), int(v % 1000 * 1000)}\<close>.\<close>

definition timeval_of :: "64 word \<Rightarrow> u64 \<times> u64" where
  "timeval_of v =
     (scast (ucast (word_of_int (sint v sdiv 1000) :: u64) :: u32),
      scast (ucast (word_of_int (sint v smod 1000 * 1000) :: u64) :: u32))"

definition setTimeoutOption :: "bool \<Rightarrow> int \<Rightarrow> u64 \<Rightarrow> socket \<Rightarrow> hooks \<Rightarrow> hooks res" where
  "setTimeoutOption hook_enable optname v s h =
     (case timeval_of v of (tv_sec, tv_usec) \<Rightarrow> hook_setsockopt_timeout hook_enable (so_sock s) optname tv_sec tv_usec h)"

definition setSendTimeout :: "bool \<Rightarrow> u64 \<Rightarrow> socket \<Rightarrow> hooks \<Rightarrow> hooks res" where
  "setSendTimeout hook_enable = setTimeoutOption hook_enable SO_SNDTIMEO"

definition setRecvTimeout :: "bool \<Rightarrow> u64 \<Rightarrow> socket \<Rightarrow> hooks \<Rightarrow> hooks res" where
  "setRecvTimeout hook_enable = setTimeoutOption hook_enable SO_RCVTIMEO"

definition timeout_of :: "int \<Rightarrow> socket \<Rightarrow> hooks \<Rightarrow> u64 res" where
  "timeout_of optname s h =
     mapR (\<lambda>(found, _, _). case found of Some c \<Rightarrow> getTimeout optname c | None \<Rightarrow> - 1)
       (FdManager_get (\<lambda>_. None) (so_sock s) False (hk_fdm h) (hk_flags h))"

definition getSendTimeout :: "socket \<Rightarrow> hooks \<Rightarrow> u64 res" where
  "getSendTimeout = timeout_of SO_SNDTIMEO"

definition getRecvTimeout :: "socket \<Rightarrow> hooks \<Rightarrow> u64 res" where
  "getRecvTimeout = timeout_of SO_RCVTIMEO"

text \<open>\<open>getsockopt(SO_ERROR)\<close> stores \<open>err\<close>, or fails with \<open>errno\<close>.\<close>

definition getError :: "int \<Rightarrow> int \<Rightarrow> int \<Rightarrow> int" where
  "getError rt err errno = (if rt = 0 then err else errno)"

definition cancelRead :: "int \<Rightarrow> socket \<Rightarrow> 'c io \<Rightarrow> ('c io \<times> bool \<times> 'c posted) res" where
  "cancelRead rt s io = cancelEvent (so_sock s) READ rt io"

definition cancelWrite :: "int \<Rightarrow> socket \<Rightarrow> 'c io \<Rightarrow> ('c io \<times> bool \<times> 'c posted) res" where
  "cancelWrite rt s io = cancelEvent (so_sock s) WRITE rt io"

definition cancelAccept :: "int \<Rightarrow> socket \<Rightarrow> 'c io \<Rightarrow> ('c io \<times> bool \<times> 'c posted) res" where
  "cancelAccept rt s io = cancelEvent (so_sock s) READ rt io"

definition sock_cancelAll :: "int \<Rightarrow> socket \<Rightarrow> 'c io \<Rightarrow> ('c io \<times> bool \<times> 'c posted) res" where
  "sock_cancelAll rt s io = IOManager.cancelAll (so_sock s) rt io"

definition sock_dump :: "byte_order \<Rightarrow> socket \<Rightarrow> string res" where
  "sock_dump host s =
     bindR (case so_localAddress s of None \<Rightarrow> Inr [] | Some a \<Rightarrow> mapR (\<lambda>t. '' local_address='' @ t) (insert_text host a)) (\<lambda>local.
     mapR (\<lambda>remote.
         ''[Socket sock='' @ show_int (so_sock s) @ '' is_connected='' @ (if so_isConnected s then ''1'' else ''0'')
         @ '' family='' @ show_nat (unat (so_family s)) @ '' type='' @ show_int (so_type s)
         @ '' protocol='' @ show_int (so_protocol s) @ local @ remote @ '']'')
       (case so_remoteAddress s of None \<Rightarrow> Inr [] | Some a \<Rightarrow> mapR (\<lambda>t. '' remote_address='' @ t) (insert_text host a)))"

end
