(* ===== verification/TcpServer.thy ===== *)
theory TcpServer
  imports Sockets
begin

text \<open>
  The TCP server (tcpserver.h, tcpserver.cpp): binding, the accept loop, start and stop. Sockets
  are shared objects in a heap, a pointer is an index. What is scheduled is a list of tasks, which
  hold the sockets they name.
\<close>

section \<open>State\<close>

record net =
  nt_kernel :: kernel
  nt_heap :: "socket list"

record tcp_server =
  ts_socks :: "nat list"
  ts_worker :: nat
  ts_ioWorker :: nat
  ts_acceptWorker :: nat
  ts_recvTimeout :: u64
  ts_name :: string
  ts_type :: string
  ts_isStop :: bool

text \<open>The three kinds of callbacks, each with the scheduler it goes to.\<close>

datatype server_task = StartAccept nat | CloseSocks | HandleClient nat

type_synonym scheduled = "(nat \<times> server_task) list"

definition TcpServer_new :: "nat \<Rightarrow> nat \<Rightarrow> nat \<Rightarrow> u64 \<Rightarrow> tcp_server" where
  "TcpServer_new worker io_worker accept_worker read_timeout =
     \<lparr>ts_socks = [], ts_worker = worker, ts_ioWorker = io_worker, ts_acceptWorker = accept_worker,
      ts_recvTimeout = read_timeout, ts_name = ''server_cc/1.0.0'', ts_type = ''tcp'', ts_isStop = True\<rparr>"

section \<open>Objects\<close>

definition alloc :: "socket \<Rightarrow> net \<Rightarrow> nat \<times> net" where
  "alloc s n = (length (nt_heap n), n\<lparr>nt_heap := nt_heap n @ [s]\<rparr>)"

definition put_socket :: "nat \<Rightarrow> socket \<Rightarrow> kernel \<Rightarrow> net \<Rightarrow> net" where
  "put_socket i s k n = n\<lparr>nt_kernel := k, nt_heap := (nt_heap n)[i := s]\<rparr>"

definition close_at :: "nat \<Rightarrow> net \<Rightarrow> net" where
  "close_at i n = (case sock_close (nt_heap n ! i) (nt_kernel n) of (_, s, k) \<Rightarrow> put_socket i s k n)"

text \<open>The last pointer to a socket goes away: its destructor closes it.\<close>

definition release :: "nat set \<Rightarrow> nat list \<Rightarrow> net \<Rightarrow> net" where
  "release held is n = fold (\<lambda>i n. if i \<in> held then n else close_at i n) is n"

section \<open>bind\<close>

definition bind_one :: "byte_order \<Rightarrow> address \<Rightarrow> net \<Rightarrow> nat option \<times> net" where
  "bind_one host addr n =
     (case alloc (CreateTCP addr) n of
        (i, n1) \<Rightarrow>
          (case sock_bind host addr (nt_heap n1 ! i) (nt_kernel n1) of
             (bound, s, k) \<Rightarrow>
               (if \<not> bound then (None, close_at i (put_socket i s k n1))
                else (case sock_listen s k of
                        (listening, k1) \<Rightarrow>
                          (if \<not> listening then (None, close_at i (put_socket i s k1 n1))
                           else (Some i, put_socket i s k1 n1))))))"

fun bind_loop :: "byte_order \<Rightarrow> address list \<Rightarrow> nat list \<Rightarrow> address list \<Rightarrow> net \<Rightarrow> nat list \<times> address list \<times> net" where
  "bind_loop host [] socks fails n = (socks, fails, n)"
| "bind_loop host (a # as) socks fails n =
     (case bind_one host a n of
        (None, n1) \<Rightarrow> bind_loop host as socks (fails @ [a]) n1
      | (Some i, n1) \<Rightarrow> bind_loop host as (socks @ [i]) fails n1)"

text \<open>\<open>fails\<close> is the caller's list, with what it held before.\<close>

definition TcpServer_bind ::
  "byte_order \<Rightarrow> nat set \<Rightarrow> address list \<Rightarrow> address list \<Rightarrow> tcp_server \<Rightarrow> net \<Rightarrow> bool \<times> address list \<times> tcp_server \<times> net" where
  "TcpServer_bind host held addrs fails srv n =
     (case bind_loop host addrs (ts_socks srv) fails n of
        (socks, fails1, n1) \<Rightarrow>
          (if fails1 \<noteq> [] then (False, fails1, srv\<lparr>ts_socks := []\<rparr>, release held socks n1)
           else (True, fails1, srv\<lparr>ts_socks := socks\<rparr>, n1)))"

definition TcpServer_bind_addr ::
  "byte_order \<Rightarrow> nat set \<Rightarrow> address \<Rightarrow> tcp_server \<Rightarrow> net \<Rightarrow> bool \<times> tcp_server \<times> net" where
  "TcpServer_bind_addr host held addr srv n =
     (case TcpServer_bind host held [addr] [] srv n of (ok, fails, srv1, n1) \<Rightarrow> (ok, srv1, n1))"

section \<open>The accept loop\<close>

text \<open>
  One turn of \<open>startAccept\<close>: whether it goes on, and what it schedules; the flag is read anew
  in each turn. A client is a new object.
\<close>

definition accept_turn ::
  "byte_order \<Rightarrow> (int \<Rightarrow> fd_ctx option) \<Rightarrow> nat \<Rightarrow> tcp_server \<Rightarrow> net \<Rightarrow> bool \<times> scheduled \<times> net" where
  "accept_turn host FdMgr_get i srv n =
     (if ts_isStop srv then (False, [], n)
      else (case sock_accept host FdMgr_get (nt_heap n ! i) (nt_kernel n) of
              (None, k) \<Rightarrow> (True, [], n\<lparr>nt_kernel := k\<rparr>)
            | (Some client, k) \<Rightarrow>
                (case alloc client (n\<lparr>nt_kernel := k\<rparr>) of
                   (c, n1) \<Rightarrow> (True, [(ts_worker srv, HandleClient c)], n1))))"

section \<open>start and stop\<close>

definition TcpServer_start :: "tcp_server \<Rightarrow> bool \<times> scheduled \<times> tcp_server" where
  "TcpServer_start srv =
     (if \<not> ts_isStop srv then (True, [], srv)
      else (True, map (\<lambda>i. (ts_acceptWorker srv, StartAccept i)) (ts_socks srv), srv\<lparr>ts_isStop := False\<rparr>))"

definition TcpServer_stop :: "tcp_server \<Rightarrow> scheduled \<times> tcp_server" where
  "TcpServer_stop srv = ([(ts_acceptWorker srv, CloseSocks)], srv\<lparr>ts_isStop := True\<rparr>)"

text \<open>
  The callback \<open>stop\<close> schedules, when it runs: each socket's events are cancelled (\<open>rt i\<close> is
  the answer of the kernel) before it is closed.
\<close>

fun close_loop :: "(nat \<Rightarrow> int) \<Rightarrow> nat list \<Rightarrow> 'c io \<Rightarrow> net \<Rightarrow> ('c io \<times> net \<times> 'c posted) res" where
  "close_loop rt [] io n = Inr (io, n, [])"
| "close_loop rt (i # is) io n =
     bindR (sock_cancelAll (rt i) (nt_heap n ! i) io) (\<lambda>(io1, _, out).
       mapR (\<lambda>(io2, n2, out2). (io2, n2, out @ out2)) (close_loop rt is io1 (close_at i n)))"

definition close_socks :: "(nat \<Rightarrow> int) \<Rightarrow> tcp_server \<Rightarrow> 'c io \<Rightarrow> net \<Rightarrow> (tcp_server \<times> 'c io \<times> net \<times> 'c posted) res" where
  "close_socks rt srv io n =
     mapR (\<lambda>(io1, n1, out). (srv\<lparr>ts_socks := []\<rparr>, io1, n1, out)) (close_loop rt (ts_socks srv) io n)"

definition TcpServer_destroy :: "tcp_server \<Rightarrow> net \<Rightarrow> net" where
  "TcpServer_destroy srv n = fold close_at (ts_socks srv) n"

definition TcpServer_toString :: "byte_order \<Rightarrow> (nat \<Rightarrow> string) \<Rightarrow> string \<Rightarrow> tcp_server \<Rightarrow> net \<Rightarrow> string res" where
  "TcpServer_toString host worker_name prefix srv n =
     (let pfx = (if prefix = [] then ''    '' else prefix) in
      foldl (\<lambda>acc i. bindR acc (\<lambda>t. mapR (\<lambda>d. t @ pfx @ pfx @ d @ [CHR 0x0A]) (sock_dump host (nt_heap n ! i))))
        (Inr (prefix @ ''[type = '' @ ts_type srv @ '' name = '' @ ts_name srv
          @ '' worker = '' @ worker_name (ts_worker srv) @ '' accept_worker = '' @ worker_name (ts_acceptWorker srv)
          @ '' io_worker = '' @ worker_name (ts_ioWorker srv)
          @ '' recv_timeout = '' @ show_nat (unat (ts_recvTimeout srv)) @ '']'' @ [CHR 0x0A]))
        (ts_socks srv))"

end
