(* ===== verification/Application.thy ===== *)
theory Application
  imports Daemon Env FSUtil LogConfig TcpServer HttpServlet
begin

text \<open>
  The application (application.h, application.cpp) and the server it runs (http_server.h,
  http_server.cpp): the configuration of the servers and its conversions, the start-up checks, the
  main function and the fiber that resolves the addresses, binds and starts the servers.
\<close>

section \<open>Configuration of a server\<close>

record HttpServerConf =
  hc_address :: "string list"
  hc_keepalive :: int
  hc_timeout :: int
  hc_name :: string

definition HttpServerConf_new :: HttpServerConf where
  "HttpServerConf_new = \<lparr>hc_address = [], hc_keepalive = 0, hc_timeout = 1000 * 2 * 60, hc_name = []\<rparr>"

definition conf_isValid :: "HttpServerConf \<Rightarrow> bool" where
  "conf_isValid c \<longleftrightarrow> hc_address c \<noteq> []"

definition conf_eq :: "HttpServerConf \<Rightarrow> HttpServerConf \<Rightarrow> bool" where
  "conf_eq c oth \<longleftrightarrow>
     hc_address c = hc_address oth \<and> hc_keepalive c = hc_keepalive oth
     \<and> hc_timeout c = hc_timeout oth \<and> hc_name c = hc_name oth"

text \<open>\<open>yaml_int\<close> is the library's \<open>as<int>\<close>, of a node that may be missing.\<close>

definition get_int :: "(yaml option \<Rightarrow> cast_exn + int) \<Rightarrow> yaml_access \<Rightarrow> yaml \<Rightarrow> string \<Rightarrow> cast_exn + int" where
  "get_int yaml_int A n key = bindC (yaml_get A n key) yaml_int"

definition cast_to_HttpServerConf ::
  "yaml_lib \<Rightarrow> yaml_access \<Rightarrow> (yaml option \<Rightarrow> cast_exn + int) \<Rightarrow> (string, HttpServerConf) cast" where
  "cast_to_HttpServerConf Y A yaml_int v =
     bindC (load_node Y v) (\<lambda>node.
     bindC (yaml_get A node ''address'') (\<lambda>address_node.
     bindC (case address_node of
              None \<Rightarrow> Inr []
            | Some n \<Rightarrow> cast_all (\<lambda>i. as_string A (Some (yaml_at Y n i))) [0..<yaml_size n]) (\<lambda>address.
     bindC (get_int yaml_int A node ''keepalive'') (\<lambda>keepalive.
     bindC (get_int yaml_int A node ''timeout'') (\<lambda>timeout.
     bindC (get_string A node ''name'') (\<lambda>name.
       Inr \<lparr>hc_address = address, hc_keepalive = keepalive, hc_timeout = timeout, hc_name = name\<rparr>))))))"

definition HttpServerConf_node :: "HttpServerConf \<Rightarrow> yaml" where
  "HttpServerConf_node c = YMap (
     [(''keepalive'', YScalar (show_int (hc_keepalive c))),
      (''timeout'', YScalar (show_int (hc_timeout c))),
      (''name'', YScalar (hc_name c))]
     @ (if hc_address c = [] then [] else [(''address'', YSequence (map YScalar (hc_address c)))]))"

definition HttpServerConf_to_string :: "yaml_lib \<Rightarrow> (HttpServerConf, string) cast" where
  "HttpServerConf_to_string Y c = Inr (yaml_emit Y (HttpServerConf_node c))"

section \<open>HttpServer\<close>

record 'h http_server =
  hs_tcp :: tcp_server
  hs_isKeepalive :: bool
  hs_dispatch :: "'h dispatch"

definition HttpServer_new :: "bool \<Rightarrow> nat \<Rightarrow> nat \<Rightarrow> nat \<Rightarrow> u64 \<Rightarrow> 'h http_server" where
  "HttpServer_new keepalive worker io_worker accept_worker read_timeout =
     \<lparr>hs_tcp = (TcpServer_new worker io_worker accept_worker read_timeout)\<lparr>ts_type := ''http''\<rparr>,
      hs_isKeepalive = keepalive, hs_dispatch = ServletDispatch_new\<rparr>"

definition hs_setName :: "string \<Rightarrow> 'h http_server \<Rightarrow> 'h http_server" where
  "hs_setName v s = s\<lparr>hs_tcp := (hs_tcp s)\<lparr>ts_name := v\<rparr>, hs_dispatch := HttpServer_setName v (hs_dispatch s)\<rparr>"

section \<open>init\<close>

text \<open>
  What \<open>init\<close> asks of its surroundings, over the state \<open>'c\<close> of the configuration and \<open>'s\<close> of the
  file system: loading a directory, the two variables, what a pid file looks like, the calls.
\<close>

record ('c, 's) app_env =
  ae_exe :: string
  ae_load :: "(string \<Rightarrow> string) \<Rightarrow> string \<Rightarrow> 'c \<Rightarrow> 'c"
  ae_work_path :: "'c \<Rightarrow> string"
  ae_pid_file :: "'c \<Rightarrow> string"
  ae_pidfile :: "string \<Rightarrow> 's \<Rightarrow> bool \<times> string option"
  ae_alive :: "int \<Rightarrow> bool"
  ae_calls :: "'s dir_calls"

definition pidfile_path :: "('c, 's) app_env \<Rightarrow> 'c \<Rightarrow> string" where
  "pidfile_path W cfg = ae_work_path W cfg @ ''/'' @ ae_pid_file W cfg"

definition add_helps :: "env \<Rightarrow> env" where
  "add_helps e =
     addHelp ''p'' ''print help'' (addHelp ''c'' ''conf path default: ./conf''
       (addHelp ''d'' ''run as daemon'' (addHelp ''s'' ''start with the terminal'' e)))"

text \<open>The result, the environment, the configuration, what was printed and the file system.\<close>

definition Application_init ::
  "('c, 's) app_env \<Rightarrow> string list \<Rightarrow> env \<Rightarrow> 'c \<Rightarrow> 's \<Rightarrow> (bool \<times> env \<times> 'c \<times> string \<times> 's) res" where
  "Application_init W argv e cfg s =
     (let (args_ok, e1) = Env_init (ae_exe W) argv (add_helps e);
          is_print_help = (\<not> args_ok \<or> env_has ''p'' e1);
          cfg1 = ae_load W (\<lambda>p. getAbsolutePath p e1) (getConfigPath e1) cfg;
          run_type = (if env_has ''d'' e1 then 2 else if env_has ''s'' e1 then 1 else (0::nat));
          out = (if is_print_help then printHelp e1 else []) @ (if run_type = 0 then printHelp e1 else []);
          (lstat_ok, content) = ae_pidfile W (pidfile_path W cfg1) s
      in if IsRunningPidfile lstat_ok content (ae_alive W) then Inr (False, e1, cfg1, out, s)
         else mapR (\<lambda>(ok, s1). (ok, e1, cfg1, out, s1)) (Mkdir (ae_calls W) (ae_work_path W cfg1) s))"

section \<open>main\<close>

text \<open>
  \<open>main\<close> returns the same with and without the pid file; \<open>opens\<close> tells whether the file can be
  written. The schedulers it makes are known by their numbers, and \<open>run_fiber\<close> runs on the first.
\<close>

definition main_io :: nat where "main_io = 0"
definition worker_io :: nat where "worker_io = 1"

text \<open>What it returns, what it wrote into the pid file, and whether it ran the fiber.\<close>

definition Application_main :: "bool \<Rightarrow> int \<Rightarrow> int \<times> string option \<times> bool" where
  "Application_main opens pid = (if \<not> opens then (0, None, False) else (0, Some (show_int pid), True))"

section \<open>run_fiber\<close>

definition find_first_of :: "char \<Rightarrow> string \<Rightarrow> nat option" where
  "find_first_of c s = find (\<lambda>i. s ! i = c) [0..<length s]"

text \<open>
  The addresses one entry gives; a pointer to an interface's address that is no IP address is
  null. The parameters are the resolver and what \<open>getifaddrs\<close> answers.
\<close>

definition conf_address ::
  "byte_order \<Rightarrow> resolver \<Rightarrow> ifaddr list option \<Rightarrow> string \<Rightarrow> address option list res" where
  "conf_address host getaddrinfo getifaddrs a =
     (case find_first_of (CHR 0x3A) a of
        None \<Rightarrow> Inr []
      | Some pos \<Rightarrow>
          (case LookupAny getaddrinfo a (int (unat AF_INET)) 0 0 of
             Some addr \<Rightarrow> Inr [Some addr]
           | None \<Rightarrow>
               mapR (\<lambda>(ok, result).
                   if \<not> ok then []
                   else map (\<lambda>x. if is_ip (fst x)
                                 then Some (setPort host (word_of_int (atoi (drop (pos + 1) a))) (fst x))
                                 else None) result)
                 (GetInterfaceAddresses_iface host getifaddrs (take pos a) AF_INET [])))"

fun conf_addresses ::
  "byte_order \<Rightarrow> resolver \<Rightarrow> ifaddr list option \<Rightarrow> string list \<Rightarrow> address option list res" where
  "conf_addresses host getaddrinfo getifaddrs [] = Inr []"
| "conf_addresses host getaddrinfo getifaddrs (a # as) =
     bindR (conf_address host getaddrinfo getifaddrs a) (\<lambda>x.
       mapR (\<lambda>xs. x @ xs) (conf_addresses host getaddrinfo getifaddrs as))"

text \<open>A bind that gets a null pointer looks into it.\<close>

definition deref_all :: "'a option list \<Rightarrow> 'a list res" where
  "deref_all xs = (if None \<in> set xs then Inl NullDeref else Inr (map the xs))"

text \<open>The servers that run with what was scheduled, or the process exits.\<close>

datatype 'h run_end = Exited | Running "'h http_server list" scheduled

fun run_fiber ::
  "byte_order \<Rightarrow> resolver \<Rightarrow> ifaddr list option \<Rightarrow> u64 \<Rightarrow> HttpServerConf list \<Rightarrow> 'h http_server list \<Rightarrow> scheduled \<Rightarrow> net
    \<Rightarrow> ('h run_end \<times> net) res" where
  "run_fiber host getaddrinfo getifaddrs read_timeout [] servers tasks n = Inr (Running servers tasks, n)"
| "run_fiber host getaddrinfo getifaddrs read_timeout (i # is) servers tasks n =
     bindR (conf_addresses host getaddrinfo getifaddrs (hc_address i)) (\<lambda>ptrs.
     bindR (deref_all ptrs) (\<lambda>address.
       let server = HttpServer_new (hc_keepalive i \<noteq> 0) worker_io main_io main_io read_timeout in
       case TcpServer_bind host {} address [] (hs_tcp server) n of
         (ok, fails, tcp, n1) \<Rightarrow>
           (if \<not> ok then Inr (Exited, n1)
            else let named = hs_setName (hc_name i) (server\<lparr>hs_tcp := tcp\<rparr>);
                     (_, scheduled, started) = TcpServer_start (hs_tcp named)
                 in run_fiber host getaddrinfo getifaddrs read_timeout is
                      (servers @ [named\<lparr>hs_tcp := started\<rparr>]) (tasks @ scheduled) n1)))"

text \<open>\<open>run\<close>: the main function, under the supervisor when the option \<open>d\<close> is there.\<close>

definition Application_run ::
  "int \<Rightarrow> u64 \<Rightarrow> u32 \<Rightarrow> (string list \<Rightarrow> process_info \<Rightarrow> int) \<Rightarrow> string list \<Rightarrow> env \<Rightarrow> forked list \<Rightarrow> process_info \<Rightarrow> daemon_end" where
  "Application_run pid now interval main argv e fs p = start_daemon pid now interval main argv (env_has ''d'' e) fs p"

end
