(* ===== verification/Sockets_Props.thy ===== *)
theory Sockets_Props
  imports TcpServer "HOL-Library.Multiset"
begin

text \<open>
  Descriptors and their owners: what every operation on a socket does to the open descriptors,
  and that the sockets of a program own exactly the descriptors they opened.
\<close>

section \<open>One socket\<close>

definition fds :: "socket \<Rightarrow> int multiset" where
  "fds s = (if so_sock s = -1 then {#} else {#so_sock s#})"

definition open_fds :: "kernel \<Rightarrow> int multiset" where
  "open_fds k = mset (kn_open k)"

text \<open>From \<open>s\<close> and \<open>k\<close> to \<open>s'\<close> and \<open>k'\<close> the open descriptors change by what the socket gives up and takes.\<close>

definition moves :: "socket \<Rightarrow> kernel \<Rightarrow> socket \<Rightarrow> kernel \<Rightarrow> bool" where
  "moves s k s' k' \<longleftrightarrow>
     (fds s \<subseteq># open_fds k \<and> distinct (kn_open k) \<longrightarrow>
        fds s' \<subseteq># open_fds k' \<and> distinct (kn_open k') \<and> open_fds k' + fds s = open_fds k + fds s')"

lemma moves_refl [simp]: "moves s k s k"
  by (simp add: moves_def)

lemma moves_trans:
  assumes "moves s k s1 k1" and "moves s1 k1 s2 k2"
  shows "moves s k s2 k2"
  unfolding moves_def
proof
  assume "fds s \<subseteq># open_fds k \<and> distinct (kn_open k)"
  with assms(1) have 1: "fds s1 \<subseteq># open_fds k1 \<and> distinct (kn_open k1)" and e1: "open_fds k1 + fds s = open_fds k + fds s1"
    by (simp_all add: moves_def)
  with assms(2) have 2: "fds s2 \<subseteq># open_fds k2 \<and> distinct (kn_open k2)" and e2: "open_fds k2 + fds s1 = open_fds k1 + fds s2"
    by (simp_all add: moves_def)
  have "(open_fds k2 + fds s) + fds s1 = (open_fds k1 + fds s) + fds s2" using e2 by (simp add: ac_simps)
  also have "\<dots> = (open_fds k + fds s1) + fds s2" by (simp only: e1)
  also have "\<dots> = (open_fds k + fds s2) + fds s1" by (simp only: ac_simps)
  finally show "fds s2 \<subseteq># open_fds k2 \<and> distinct (kn_open k2) \<and> open_fds k2 + fds s = open_fds k + fds s2"
    using 2 by simp
qed

text \<open>Calls that open and close nothing.\<close>

lemma moves_quiet: "kn_open k' = kn_open k \<Longrightarrow> so_sock s' = so_sock s \<Longrightarrow> moves s k s' k'"
  by (simp add: moves_def fds_def open_fds_def)

lemma answer_open: "answer k = (a, k1) \<Longrightarrow> kn_open k1 = kn_open k"
  by (auto simp: answer_def split: list.splits)

lemma sys_call_open: "sys_call k = (rt, k1) \<Longrightarrow> kn_open k1 = kn_open k"
  by (auto simp: sys_call_def answer_open split: prod.splits answer.splits)

lemma setOption_open [simp]: "kn_open (snd (setOption k)) = kn_open k"
  by (auto simp: setOption_def dest: sys_call_open split: prod.splits)

lemma initSock_open [simp]: "kn_open (initSock s k) = kn_open k"
  by (simp add: initSock_def Let_def)

lemma getLocalAddress_quiet:
  "getLocalAddress host s k = (a, s1, k1) \<Longrightarrow> kn_open k1 = kn_open k \<and> so_sock s1 = so_sock s"
  by (auto simp: getLocalAddress_def dest: answer_open split: option.splits prod.splits answer.splits)

lemma getRemoteAddress_quiet:
  "getRemoteAddress host s k = (a, s1, k1) \<Longrightarrow> kn_open k1 = kn_open k \<and> so_sock s1 = so_sock s"
  by (auto simp: getRemoteAddress_def dest: answer_open split: option.splits prod.splits answer.splits)

text \<open>A new descriptor is one that was not open.\<close>

lemma lowest_free_new: "lowest_free k \<notin> set (kn_open k)" and lowest_free_pos: "0 \<le> lowest_free k"
proof -
  have "\<exists>n \<in> set [0..<Suc (length (kn_open k))]. int n \<notin> set (kn_open k)"
  proof (rule ccontr)
    assume "\<not> ?thesis"
    then have "int ` set [0..<Suc (length (kn_open k))] \<subseteq> set (kn_open k)" by blast
    then have "int ` {0..<Suc (length (kn_open k))} \<subseteq> set (kn_open k)" by (simp only: set_upt)
    then have "card (int ` {0..<Suc (length (kn_open k))}) \<le> card (set (kn_open k))"
      by (intro card_mono) auto
    then show False using card_length [of "kn_open k"] by (simp add: card_image)
  qed
  then obtain n where f: "find (\<lambda>n. int n \<notin> set (kn_open k)) [0..<Suc (length (kn_open k))] = Some n"
    by (metis find_None_iff option.exhaust)
  then have "lowest_free k = int n" by (simp only: lowest_free_def option.sel)
  moreover have "int n \<notin> set (kn_open k)" using f by (auto simp: find_Some_iff simp del: upt_Suc)
  ultimately show "lowest_free k \<notin> set (kn_open k)" "0 \<le> lowest_free k" by simp_all
qed

lemma sys_open_effect:
  assumes "sys_open k = (fd, k1)"
  shows "fd = -1 \<and> kn_open k1 = kn_open k \<or> 0 \<le> fd \<and> fd \<notin> set (kn_open k) \<and> kn_open k1 = fd # kn_open k"
proof -
  obtain a k0 where a: "answer k = (a, k0)" by (cases "answer k")
  show ?thesis
    using assms answer_open [OF a] lowest_free_new [of k0] lowest_free_pos [of k0]
    by (cases a) (auto simp: sys_open_def a)
qed

lemma newSock_moves:
  assumes "newSock s k = (s1, k1)" and "\<not> isValid s"
  shows "moves s k s1 k1"
proof -
  obtain fd k0 where o: "sys_open k = (fd, k0)" by (cases "sys_open k")
  show ?thesis
    using assms sys_open_effect [OF o]
    by (auto simp: newSock_def o Let_def moves_def fds_def open_fds_def isValid_def)
qed

lemma sock_close_moves:
  assumes "sock_close s k = (b, s1, k1)"
  shows "moves s k s1 k1" and "so_sock s1 = -1"
  using assms
  by (auto simp: sock_close_def moves_def fds_def open_fds_def sys_close_def distinct_remove1 split: if_splits)

lemma sock_connect_moves:
  assumes "sock_connect host addr s k = (b, s2, k2)"
  shows "moves s k s2 k2"
proof -
  let ?s = "s\<lparr>so_remoteAddress := Some addr\<rparr>"
  obtain s1 k1 where o: "(if \<not> isValid ?s then newSock ?s k else (?s, k)) = (s1, k1)"
    by (cases "if \<not> isValid ?s then newSock ?s k else (?s, k)")
  have "moves s k ?s k" by (rule moves_quiet) simp_all
  moreover have "moves ?s k s1 k1" using o newSock_moves [of ?s k s1 k1] by (auto split: if_splits)
  ultimately have m1: "moves s k s1 k1" by (rule moves_trans)
  show ?thesis
  proof (cases "isValid s1 \<and> getFamily addr = so_family s1")
    case False
    with assms m1 show ?thesis unfolding sock_connect_def Let_def o by (auto split: if_splits)
  next
    case True
    obtain rt k3 where c: "sys_call k1 = (rt, k3)" by (cases "sys_call k1")
    have m2: "moves s1 k1 s1 k3" using sys_call_open [OF c] by (rule moves_quiet) simp
    show ?thesis
    proof (cases "rt = 0")
      case False
      then have "sock_close s1 k3 = (fst (sock_close s1 k3), s2, k2)"
        using assms True unfolding sock_connect_def Let_def o by (auto simp: c split: prod.splits)
      from sock_close_moves(1) [OF this] m1 m2 show ?thesis by (blast intro: moves_trans)
    next
      case rt: True
      obtain a s4 k4 where r: "getRemoteAddress host (s1\<lparr>so_isConnected := True\<rparr>) k3 = (a, s4, k4)"
        by (metis prod.exhaust)
      obtain l s5 k5 where l: "getLocalAddress host s4 k4 = (l, s5, k5)" by (metis prod.exhaust)
      have "s2 = s5" "k2 = k5" using assms True rt unfolding sock_connect_def Let_def o by (auto simp: c r l)
      moreover have "moves s1 k3 s5 k5"
        using getRemoteAddress_quiet [OF r] getLocalAddress_quiet [OF l] by (intro moves_quiet) simp_all
      ultimately show ?thesis using m1 m2 by (blast intro: moves_trans)
    qed
  qed
qed

lemma Socket_destroy_moves:
  "fds s \<subseteq># open_fds k \<Longrightarrow> distinct (kn_open k) \<Longrightarrow>
   distinct (kn_open (Socket_destroy s k)) \<and> open_fds (Socket_destroy s k) + fds s = open_fds k"
  using sock_close_moves [of s k "fst (sock_close s k)" "fst (snd (sock_close s k))" "snd (snd (sock_close s k))"]
  by (auto simp: Socket_destroy_def moves_def fds_def)

lemma sock_bind_moves:
  assumes "sock_bind host addr s k = (b, s2, k2)"
  shows "moves s k s2 k2"
proof -
  obtain s1 k1 where o: "(if \<not> isValid s then newSock s k else (s, k)) = (s1, k1)"
    by (cases "if \<not> isValid s then newSock s k else (s, k)")
  have m1: "moves s k s1 k1" using o newSock_moves [of s k s1 k1] by (auto split: if_splits)
  show ?thesis
  proof (cases "isValid s1 \<and> getFamily addr = so_family s1")
    case False
    with assms m1 show ?thesis unfolding sock_bind_def Let_def o by (auto split: if_splits)
  next
    case True
    obtain taken k3 where t: "(if is_unix addr
        then (case sock_connect host addr CreateUnixTCPSocket k1 of (ok, u, k2) \<Rightarrow> (ok, Socket_destroy u k2))
        else (False, k1)) = (taken, k3)" by (metis prod.exhaust)
    have m2: "moves s1 k1 s1 k3"
    proof (cases "is_unix addr")
      case False
      with t show ?thesis by simp
    next
      case u: True
      obtain ok u k' where c: "sock_connect host addr CreateUnixTCPSocket k1 = (ok, u, k')" by (metis prod.exhaust)
      have k3: "k3 = Socket_destroy u k'" using t u by (simp add: c)
      have none: "fds CreateUnixTCPSocket = {#}" by (simp add: fds_def CreateUnixTCPSocket_def Socket_new_def)
      show ?thesis
        unfolding moves_def
      proof
        assume a: "fds s1 \<subseteq># open_fds k1 \<and> distinct (kn_open k1)"
        then have "fds u \<subseteq># open_fds k' \<and> distinct (kn_open k') \<and> open_fds k' = open_fds k1 + fds u"
          using sock_connect_moves [OF c] by (simp add: moves_def none)
        then show "fds s1 \<subseteq># open_fds k3 \<and> distinct (kn_open k3) \<and> open_fds k3 + fds s1 = open_fds k1 + fds s1"
          using Socket_destroy_moves [of u k'] a by (simp add: k3)
      qed
    qed
    obtain rt k4 where c: "sys_call k3 = (rt, k4)" by (cases "sys_call k3")
    have m3: "moves s1 k3 s1 k4" using sys_call_open [OF c] by (rule moves_quiet) simp
    obtain l s5 k5 where l: "getLocalAddress host s1 k4 = (l, s5, k5)" by (metis prod.exhaust)
    have m4: "moves s1 k4 s5 k5" using getLocalAddress_quiet [OF l] by (intro moves_quiet) simp_all
    have "(s2 = s1 \<and> k2 = k3) \<or> (s2 = s1 \<and> k2 = k4) \<or> (s2 = s5 \<and> k2 = k5)"
      using assms True unfolding sock_bind_def Let_def o by (auto simp: t c l split: if_splits)
    then show ?thesis using m1 m2 m3 m4 by (metis moves_trans)
  qed
qed

text \<open>What the result of a bind says of its socket.\<close>

lemma sock_listen_open: "sock_listen s k = (b, k1) \<Longrightarrow> kn_open k1 = kn_open k"
  by (auto simp: sock_listen_def dest: sys_call_open split: if_splits prod.splits)

lemma sock_init_ok:
  assumes "sock_init host FdMgr_get fd s k = (True, s1, k1)"
  shows "kn_open k1 = kn_open k" and "so_sock s1 = fd"
proof -
  obtain c where c: "FdMgr_get fd = Some c" "isSocket c \<and> \<not> isClose c"
    using assms by (auto simp: sock_init_def split: option.splits if_splits)
  let ?s = "s\<lparr>so_sock := fd, so_isConnected := True\<rparr>"
  obtain l s2 k2 where l: "getLocalAddress host ?s (initSock ?s k) = (l, s2, k2)" by (metis prod.exhaust)
  obtain r s3 k3 where r: "getRemoteAddress host s2 k2 = (r, s3, k3)" by (metis prod.exhaust)
  have "s1 = s3" "k1 = k3" using assms c by (auto simp: sock_init_def Let_def l r)
  then show "kn_open k1 = kn_open k" "so_sock s1 = fd"
    using getLocalAddress_quiet [OF l] getRemoteAddress_quiet [OF r] by simp_all
qed

text \<open>
  \<open>accept\<close>: a client owns its descriptor. Without one either nothing was opened, or the
  descriptor the manager does not know stays open with no owner.
\<close>

lemma sock_accept_effect:
  assumes "sock_accept host FdMgr_get s k = (r, k1)"
  shows "case r of
      Some client \<Rightarrow> so_sock client \<noteq> -1 \<and> so_sock client \<notin> set (kn_open k) \<and> kn_open k1 = so_sock client # kn_open k
    | None \<Rightarrow> kn_open k1 = kn_open k
        \<or> (\<exists>fd. fd \<notin> set (kn_open k) \<and> kn_open k1 = fd # kn_open k
              \<and> \<not> (\<exists>c. FdMgr_get fd = Some c \<and> isSocket c \<and> \<not> isClose c))"
proof -
  let ?s = "Socket_new (so_family s) (so_type s) (so_protocol s)"
  obtain fd k0 where o: "sys_open k = (fd, k0)" by (cases "sys_open k")
  note E = sys_open_effect [OF o]
  have gone: "Socket_destroy ?s k' = k'" for k' by (simp add: Socket_destroy_def sock_close_def Socket_new_def)
  show ?thesis
  proof (cases "fd = -1")
    case True
    with assms E gone show ?thesis by (auto simp: sock_accept_def o)
  next
    case False
    obtain ok s1 k2 where i: "sock_init host FdMgr_get fd ?s k0 = (ok, s1, k2)" by (metis prod.exhaust)
    show ?thesis
    proof (cases ok)
      case True
      with i sock_init_ok [of host FdMgr_get fd ?s k0 s1 k2] assms E False show ?thesis
        by (auto simp: sock_accept_def o)
    next
      case bad: False
      then have "s1 = ?s" "k2 = k0" "\<not> (\<exists>c. FdMgr_get fd = Some c \<and> isSocket c \<and> \<not> isClose c)"
        using i by (auto simp: sock_init_def Let_def split: option.splits if_splits prod.splits)
      with bad assms E False gone show ?thesis by (auto simp: sock_accept_def o i)
    qed
  qed
qed

end
