(* ===== verification/TcpServer_Props.thy ===== *)
theory TcpServer_Props
  imports Sockets_Props
begin

text \<open>
  The sockets of a program own what they opened, over any sequence of operations, and what a
  server's bind leaves behind.
\<close>

section \<open>The heap of sockets\<close>

definition owned :: "socket list \<Rightarrow> int multiset" where
  "owned ss = sum_list (map fds ss)"

definition net_ok :: "int multiset \<Rightarrow> net \<Rightarrow> bool" where
  "net_ok B n \<longleftrightarrow> distinct (kn_open (nt_kernel n)) \<and> open_fds (nt_kernel n) = B + owned (nt_heap n)"

lemma owned_update: "i < length ss \<Longrightarrow> owned (ss[i := s]) + fds (ss ! i) = owned ss + fds s"
  by (induction ss arbitrary: i) (auto simp: owned_def nth_Cons' ac_simps split: nat.splits)

lemma owned_nth: "i < length ss \<Longrightarrow> fds (ss ! i) \<subseteq># owned ss"
  by (induction ss arbitrary: i) (auto simp: owned_def nth_Cons' intro: subset_mset.add_increasing)

lemma owned_append [simp]: "owned (ss @ ts) = owned ss + owned ts"
  by (simp add: owned_def)

lemma net_ok_put:
  assumes "net_ok B n" and "i < length (nt_heap n)" and "moves (nt_heap n ! i) (nt_kernel n) s k"
  shows "net_ok B (put_socket i s k n)"
proof -
  have a: "fds (nt_heap n ! i) \<subseteq># open_fds (nt_kernel n)" "distinct (kn_open (nt_kernel n))"
    using assms(1) owned_nth [OF assms(2)] by (auto simp: net_ok_def intro: subset_mset.add_increasing)
  with assms(3) have m: "distinct (kn_open k)" "open_fds k + fds (nt_heap n ! i) = open_fds (nt_kernel n) + fds s"
    by (simp_all add: moves_def)
  have "open_fds k + fds (nt_heap n ! i) = (B + owned ((nt_heap n)[i := s])) + fds (nt_heap n ! i)"
    using m(2) assms(1) owned_update [OF assms(2), of s] by (simp add: net_ok_def add.assoc)
  with m(1) show ?thesis by (simp add: net_ok_def put_socket_def)
qed

lemma net_ok_alloc: "net_ok B n \<Longrightarrow> so_sock s = -1 \<Longrightarrow> net_ok B (snd (alloc s n))"
  by (simp add: net_ok_def alloc_def owned_def fds_def)

lemma net_ok_close: "net_ok B n \<Longrightarrow> i < length (nt_heap n) \<Longrightarrow> net_ok B (close_at i n)"
  using net_ok_put [of B n i] sock_close_moves(1) by (auto simp: close_at_def split: prod.splits)

lemma close_at_fields [simp]: "length (nt_heap (close_at i n)) = length (nt_heap n)"
  by (simp add: close_at_def put_socket_def split: prod.splits)

section \<open>Programs over sockets\<close>

datatype sock_op =
    New_tcp address
  | New_udp address
  | Connect address nat
  | Reconnect nat
  | Bind address nat
  | Listen nat
  | Accept "int \<Rightarrow> fd_ctx option" nat
  | Close nat

text \<open>The state with the descriptors that no object has; a pointer that leads nowhere is not used.\<close>

fun sock_exec :: "byte_order \<Rightarrow> sock_op \<Rightarrow> net \<times> int list \<Rightarrow> net \<times> int list" where
  "sock_exec host (New_tcp a) (n, lost) = (snd (alloc (CreateTCP a) n), lost)"
| "sock_exec host (New_udp a) (n, lost) =
     (case CreateUDP a (nt_kernel n) of (s, k) \<Rightarrow> (snd (alloc s (n\<lparr>nt_kernel := k\<rparr>)), lost))"
| "sock_exec host (Connect a i) (n, lost) =
     (if i \<ge> length (nt_heap n) then (n, lost)
      else case sock_connect host a (nt_heap n ! i) (nt_kernel n) of (b, s, k) \<Rightarrow> (put_socket i s k n, lost))"
| "sock_exec host (Reconnect i) (n, lost) =
     (if i \<ge> length (nt_heap n) then (n, lost)
      else case reconnect host (nt_heap n ! i) (nt_kernel n) of (b, s, k) \<Rightarrow> (put_socket i s k n, lost))"
| "sock_exec host (Bind a i) (n, lost) =
     (if i \<ge> length (nt_heap n) then (n, lost)
      else case sock_bind host a (nt_heap n ! i) (nt_kernel n) of (b, s, k) \<Rightarrow> (put_socket i s k n, lost))"
| "sock_exec host (Listen i) (n, lost) =
     (if i \<ge> length (nt_heap n) then (n, lost)
      else case sock_listen (nt_heap n ! i) (nt_kernel n) of (b, k) \<Rightarrow> (n\<lparr>nt_kernel := k\<rparr>, lost))"
| "sock_exec host (Accept FdMgr_get i) (n, lost) =
     (if i \<ge> length (nt_heap n) then (n, lost)
      else case sock_accept host FdMgr_get (nt_heap n ! i) (nt_kernel n) of
             (Some client, k) \<Rightarrow> (snd (alloc client (n\<lparr>nt_kernel := k\<rparr>)), lost)
           | (None, k) \<Rightarrow>
               (n\<lparr>nt_kernel := k\<rparr>, filter (\<lambda>fd. fd \<notin> set (kn_open (nt_kernel n))) (kn_open k) @ lost))"
| "sock_exec host (Close i) (n, lost) = (if i \<ge> length (nt_heap n) then (n, lost) else (close_at i n, lost))"

definition sock_run :: "byte_order \<Rightarrow> sock_op list \<Rightarrow> kernel \<Rightarrow> net \<times> int list" where
  "sock_run host ops k = fold (sock_exec host) ops (\<lparr>nt_kernel = k, nt_heap = []\<rparr>, [])"

text \<open>An accept under which the manager knows every descriptor as an open socket, as the hooked \<open>accept\<close> makes it.\<close>

fun known :: "sock_op \<Rightarrow> bool" where
  "known (Accept FdMgr_get i) = (\<forall>fd. case FdMgr_get fd of None \<Rightarrow> False | Some c \<Rightarrow> isSocket c \<and> \<not> isClose c)"
| "known op = True"

lemma reconnect_moves: "reconnect host s k = (b, s2, k2) \<Longrightarrow> moves s k s2 k2"
proof -
  assume r: "reconnect host s k = (b, s2, k2)"
  show ?thesis
  proof (cases "so_remoteAddress s")
    case (Some a)
    let ?s = "s\<lparr>so_localAddress := None\<rparr>"
    have "moves s k ?s k" by (rule moves_quiet) simp_all
    moreover have "moves ?s k s2 k2" using r Some sock_connect_moves by (simp add: reconnect_def)
    ultimately show ?thesis by (rule moves_trans)
  qed (use r in \<open>simp add: reconnect_def\<close>)
qed

lemma CreateUDP_effect:
  assumes "CreateUDP a k = (s, k1)" and "distinct (kn_open k)"
  shows "distinct (kn_open k1) \<and> open_fds k1 = open_fds k + fds s"
proof -
  let ?s = "Socket_new (getFamily a) SOCK_DGRAM 0"
  obtain s0 where n: "newSock ?s k = (s0, k1)" and s: "s = s0\<lparr>so_isConnected := True\<rparr>"
    using assms(1) by (auto simp: CreateUDP_def new_datagram_def split: prod.splits)
  have "moves ?s k s0 k1" by (rule newSock_moves [OF n]) (simp add: isValid_def Socket_new_def)
  with assms(2) show ?thesis by (simp add: s moves_def fds_def Socket_new_def)
qed

lemma sock_exec_ok:
  assumes "net_ok (B + mset lost) n"
  shows "case sock_exec host op (n, lost) of (n', lost') \<Rightarrow>
    net_ok (B + mset lost') n' \<and> (known op \<longrightarrow> lost' = lost)"
proof (cases op)
  case (New_udp a)
  obtain s k where c: "CreateUDP a (nt_kernel n) = (s, k)" by (cases "CreateUDP a (nt_kernel n)")
  show ?thesis using assms CreateUDP_effect [OF c] by (simp add: New_udp c net_ok_def alloc_def owned_def)
next
  case (Listen i)
  obtain b k where c: "sock_listen (nt_heap n ! i) (nt_kernel n) = (b, k)" by (metis prod.exhaust)
  show ?thesis using assms sock_listen_open [OF c] by (simp add: Listen c net_ok_def open_fds_def)
next
  case (Accept FdMgr_get i)
  obtain r k where c: "sock_accept host FdMgr_get (nt_heap n ! i) (nt_kernel n) = (r, k)" by (metis prod.exhaust)
  note E = sock_accept_effect [OF c]
  have none: "filter (\<lambda>fd. fd \<notin> set xs) xs = []" for xs :: "int list" by simp
  show ?thesis
  proof (cases r)
    case (Some client)
    with E assms show ?thesis by (auto simp: Accept c net_ok_def alloc_def owned_def fds_def open_fds_def)
  next
    case None
    with E consider "kn_open k = kn_open (nt_kernel n)"
      | fd where "fd \<notin> set (kn_open (nt_kernel n))" "kn_open k = fd # kn_open (nt_kernel n)"
        "\<not> (\<exists>c. FdMgr_get fd = Some c \<and> isSocket c \<and> \<not> isClose c)"
      by auto
    then show ?thesis
    proof cases
      case 1
      with assms show ?thesis by (simp add: Accept c None net_ok_def open_fds_def)
    next
      case 2
      then have "\<not> known op" by (auto simp: Accept split: option.splits)
      with 2 assms show ?thesis by (simp add: Accept c None net_ok_def open_fds_def none)
    qed
  qed
qed (use assms net_ok_alloc net_ok_close in
  \<open>auto simp: CreateTCP_def Socket_new_def split: prod.splits
     intro!: net_ok_put dest: sock_connect_moves sock_bind_moves reconnect_moves\<close>)

lemma sock_fold_ok:
  "net_ok (B + mset lost) n \<Longrightarrow>
   case fold (sock_exec host) ops (n, lost) of (n', lost') \<Rightarrow>
     net_ok (B + mset lost') n' \<and> (list_all known ops \<longrightarrow> lost' = lost)"
proof (induction ops arbitrary: n lost)
  case (Cons op ops)
  obtain n1 lost1 where e: "sock_exec host op (n, lost) = (n1, lost1)" by (metis prod.exhaust)
  show ?case using sock_exec_ok [OF Cons.prems, where host = host and op = op] Cons.IH [of lost1 n1] by (auto simp: e)
qed simp

text \<open>
  C33. Sockets own their descriptors: over any sequence of creations, connects, binds, listens,
  accepts and closes, with any answers of the kernel, the open descriptors are the ones that were
  open before, the ones the socket objects hold, each held once, and the accepted ones that the
  descriptor manager did not know as open sockets, which no object holds and nothing closes; when
  the manager knows every accepted descriptor, as behind the hooked accept, there are none of these.\<close>

theorem sockets_own_their_descriptors:
  assumes "distinct (kn_open k)" and "sock_run host ops k = (n, lost)"
  shows "distinct (kn_open (nt_kernel n))
    \<and> open_fds (nt_kernel n) = open_fds k + mset lost + owned (nt_heap n)
    \<and> (list_all known ops \<longrightarrow> lost = [])"
  using sock_fold_ok [where B = "open_fds k" and lost = "[]" and n = "\<lparr>nt_kernel = k, nt_heap = []\<rparr>" and host = host and ops = ops] assms
  by (simp add: sock_run_def net_ok_def owned_def ac_simps)

lemma sockets_own_their_descriptors_witness:
  "distinct (kn_open (nt_kernel (fst (sock_run LITTLE_ENDIAN
     [New_tcp (IPv4Address (IPv4Address_new LITTLE_ENDIAN 0 80)), Bind (IPv4Address (IPv4Address_new LITTLE_ENDIAN 0 80)) 0, Listen 0, Close 0]
     \<lparr>kn_open = [0, 1, 2], kn_answers = [Okay, Okay, Okay, Okay, Okay, Okay]\<rparr>))))"
  using sockets_own_their_descriptors [of "\<lparr>kn_open = [0, 1, 2], kn_answers = [Okay, Okay, Okay, Okay, Okay, Okay]\<rparr>" LITTLE_ENDIAN
      "[New_tcp (IPv4Address (IPv4Address_new LITTLE_ENDIAN 0 80)), Bind (IPv4Address (IPv4Address_new LITTLE_ENDIAN 0 80)) 0, Listen 0, Close 0]", OF _ prod.collapse [symmetric]]
  by simp

section \<open>Binding a server\<close>

lemma newSock_family: "newSock s k = (s1, k1) \<Longrightarrow> so_family s1 = so_family s"
  by (auto simp: newSock_def Let_def split: prod.splits)

lemma getLocalAddress_family: "getLocalAddress host s k = (a, s1, k1) \<Longrightarrow> so_family s1 = so_family s"
  by (auto simp: getLocalAddress_def split: option.splits prod.splits answer.splits)

lemma sock_bind_valid:
  assumes "sock_bind host addr s k = (True, s2, k2)"
  shows "isValid s2" and "so_family s2 = getFamily addr"
proof -
  obtain s1 k1 where o: "(if \<not> isValid s then newSock s k else (s, k)) = (s1, k1)"
    by (cases "if \<not> isValid s then newSock s k else (s, k)")
  obtain k4 a where "isValid s1 \<and> getFamily addr = so_family s1" and l: "getLocalAddress host s1 k4 = (a, s2, k2)"
    using assms unfolding sock_bind_def Let_def o by (auto split: if_splits prod.splits)
  then show "isValid s2" "so_family s2 = getFamily addr"
    using getLocalAddress_quiet [OF l] getLocalAddress_family [OF l] by (simp_all add: isValid_def)
qed

text \<open>The heap grows and the sockets that were there stay as they are.\<close>

definition heap_grows :: "net \<Rightarrow> net \<Rightarrow> bool" where
  "heap_grows n n' \<longleftrightarrow>
     length (nt_heap n) \<le> length (nt_heap n') \<and> (\<forall>i < length (nt_heap n). nt_heap n' ! i = nt_heap n ! i)"

lemma heap_grows_trans: "heap_grows n n1 \<Longrightarrow> heap_grows n1 n2 \<Longrightarrow> heap_grows n n2"
  by (auto simp: heap_grows_def)

lemma close_at_heap:
  "i < length (nt_heap n) \<Longrightarrow> so_sock (nt_heap (close_at i n) ! i) = -1"
  "j \<noteq> i \<Longrightarrow> nt_heap (close_at i n) ! j = nt_heap n ! j"
  using sock_close_moves(2) by (auto simp: close_at_def put_socket_def split: prod.splits)

lemma put_socket_fields [simp]:
  "length (nt_heap (put_socket i s k n)) = length (nt_heap n)" "nt_heap (put_socket i s k n) = (nt_heap n)[i := s]"
  by (simp_all add: put_socket_def)

lemma bind_one_effect:
  assumes "net_ok B n" and "bind_one host a n = (r, n')"
  shows "net_ok B n' \<and> heap_grows n n' \<and> length (nt_heap n') = length (nt_heap n) + 1
    \<and> (case r of
         None \<Rightarrow> so_sock (nt_heap n' ! length (nt_heap n)) = -1
       | Some i \<Rightarrow> i = length (nt_heap n) \<and> isValid (nt_heap n' ! i) \<and> so_family (nt_heap n' ! i) = getFamily a)"
proof -
  let ?i = "length (nt_heap n)"
  define n1 where "n1 = n\<lparr>nt_heap := nt_heap n @ [CreateTCP a]\<rparr>"
  have n1: "net_ok B n1" "?i < length (nt_heap n1)" "nt_heap n1 ! ?i = CreateTCP a" "length (nt_heap n1) = ?i + 1"
    using assms(1) by (simp_all add: n1_def net_ok_def owned_def fds_def CreateTCP_def Socket_new_def)
  have old: "j < ?i \<Longrightarrow> nt_heap n1 ! j = nt_heap n ! j" for j by (simp add: n1_def nth_append)
  obtain b s k where bd: "sock_bind host a (CreateTCP a) (nt_kernel n1) = (b, s, k)" by (metis prod.exhaust)
  have ok2: "net_ok B (put_socket ?i s k n1)"
    using net_ok_put [OF n1(1,2)] sock_bind_moves [OF bd] n1(3) by simp
  obtain l k1 where ls: "sock_listen s k = (l, k1)" by (cases "sock_listen s k")
  have "kn_open k1 = kn_open k" by (rule sock_listen_open [OF ls])
  with ok2 have ok3: "net_ok B (put_socket ?i s k1 n1)" by (simp add: net_ok_def put_socket_def open_fds_def)
  have step: "(r, n') = (if \<not> b then (None, close_at ?i (put_socket ?i s k n1))
      else if \<not> l then (None, close_at ?i (put_socket ?i s k1 n1)) else (Some ?i, put_socket ?i s k1 n1))"
    using assms(2) n1(3) by (simp add: bind_one_def alloc_def n1_def [symmetric] bd ls split: if_splits)
  have closed: "net_ok B (close_at ?i m) \<and> heap_grows n (close_at ?i m) \<and> length (nt_heap (close_at ?i m)) = ?i + 1
      \<and> so_sock (nt_heap (close_at ?i m) ! ?i) = -1"
    if "net_ok B m" "nt_heap m = (nt_heap n1)[?i := s]" for m
    using that n1(2,4) old net_ok_close [of B m ?i] close_at_heap(1) [of ?i m] close_at_heap(2) [of _ ?i m]
    by (auto simp: heap_grows_def)
  show ?thesis
  proof (cases "b \<and> l")
    case False
    then have "r = None" "n' = close_at ?i (put_socket ?i s k n1) \<or> n' = close_at ?i (put_socket ?i s k1 n1)"
      using step by (auto split: if_splits)
    then show ?thesis using closed [OF ok2] closed [OF ok3] by auto
  next
    case True
    then have "r = Some ?i" "n' = put_socket ?i s k1 n1" using step by simp_all
    then show ?thesis
      using ok3 n1(2,4) old sock_bind_valid [of host a "CreateTCP a" "nt_kernel n1" s k] bd True by (simp add: heap_grows_def)
  qed
qed

lemma bind_loop_effect:
  assumes "net_ok B n" and "bind_loop host addrs socks fails n = (socks', fails', n')"
  shows "net_ok B n' \<and> heap_grows n n'
    \<and> (\<exists>new bad. socks' = socks @ new \<and> fails' = fails @ bad \<and> distinct new
        \<and> set new \<subseteq> {length (nt_heap n)..<length (nt_heap n')}
        \<and> (\<forall>i \<in> set new. isValid (nt_heap n' ! i))
        \<and> (\<forall>i \<in> {length (nt_heap n)..<length (nt_heap n')} - set new. so_sock (nt_heap n' ! i) = -1)
        \<and> (bad = [] \<longrightarrow> map (\<lambda>i. so_family (nt_heap n' ! i)) new = map getFamily addrs))"
  using assms
proof (induction addrs arbitrary: socks fails n)
  case Nil
  then show ?case by (auto simp: heap_grows_def)
next
  case (Cons a as)
  obtain r n1 where b: "bind_one host a n = (r, n1)" by (cases "bind_one host a n")
  note E = bind_one_effect [OF Cons.prems(1) b]
  let ?i = "length (nt_heap n)"
  show ?case
  proof (cases r)
    case None
    have l: "bind_loop host as socks (fails @ [a]) n1 = (socks', fails', n')" using Cons.prems(2) by (simp add: b None)
    obtain new bad where N: "net_ok B n'" "heap_grows n1 n'" "socks' = socks @ new" "fails' = (fails @ [a]) @ bad" "distinct new"
      "set new \<subseteq> {length (nt_heap n1)..<length (nt_heap n')}" "\<forall>i \<in> set new. isValid (nt_heap n' ! i)"
      "\<forall>i \<in> {length (nt_heap n1)..<length (nt_heap n')} - set new. so_sock (nt_heap n' ! i) = -1"
      using Cons.IH [OF _ l] E by blast
    have "so_sock (nt_heap n' ! ?i) = -1" using N(2) E None by (simp add: heap_grows_def)
    then have "\<forall>i \<in> {?i..<length (nt_heap n')} - set new. so_sock (nt_heap n' ! i) = -1"
      using N(8) E by (metis DiffD1 DiffD2 DiffI Suc_eq_plus1 atLeastLessThan_iff le_antisym not_less_eq_eq)
    moreover have "set new \<subseteq> {?i..<length (nt_heap n')}" using N(6) E by auto
    ultimately show ?thesis
      using N E heap_grows_trans [of n n1 n'] by (intro conjI exI [of _ new] exI [of _ "a # bad"]) auto
  next
    case (Some i)
    have l: "bind_loop host as (socks @ [?i]) fails n1 = (socks', fails', n')" using Cons.prems(2) E by (simp add: b Some)
    obtain new bad where N: "net_ok B n'" "heap_grows n1 n'" "socks' = (socks @ [?i]) @ new" "fails' = fails @ bad" "distinct new"
      "set new \<subseteq> {length (nt_heap n1)..<length (nt_heap n')}" "\<forall>i \<in> set new. isValid (nt_heap n' ! i)"
      "\<forall>i \<in> {length (nt_heap n1)..<length (nt_heap n')} - set new. so_sock (nt_heap n' ! i) = -1"
      "bad = [] \<longrightarrow> map (\<lambda>i. so_family (nt_heap n' ! i)) new = map getFamily as"
      using Cons.IH [OF _ l] E by blast
    have i: "nt_heap n' ! ?i = nt_heap n1 ! ?i" "?i < length (nt_heap n')" using N(2) E by (auto simp: heap_grows_def)
    have v: "isValid (nt_heap n' ! ?i)" "so_family (nt_heap n' ! ?i) = getFamily a" using E Some by (auto simp: i(1))
    have "\<forall>j \<in> {?i..<length (nt_heap n')} - set (?i # new). so_sock (nt_heap n' ! j) = -1"
      using N(8) E by auto
    moreover have "distinct (?i # new)" "set (?i # new) \<subseteq> {?i..<length (nt_heap n')}" using N(5,6) E i(2) by auto
    ultimately show ?thesis
      using N E v heap_grows_trans [of n n1 n'] by (intro conjI exI [of _ "?i # new"] exI [of _ bad]) auto
  qed
qed

text \<open>The last pointers go away.\<close>

lemma release_effect:
  "net_ok B n \<Longrightarrow> \<forall>i \<in> set is. i < length (nt_heap n) \<Longrightarrow>
   net_ok B (release {} is n) \<and> length (nt_heap (release {} is n)) = length (nt_heap n)
   \<and> (\<forall>i \<in> set is. so_sock (nt_heap (release {} is n) ! i) = -1)
   \<and> (\<forall>j. j \<notin> set is \<longrightarrow> nt_heap (release {} is n) ! j = nt_heap n ! j)"
proof (induction "is" arbitrary: n)
  case Nil
  then show ?case by (simp add: release_def)
next
  case (Cons i "is")
  have r: "release {} (i # is) n = release {} is (close_at i n)" by (simp add: release_def)
  have "net_ok B (close_at i n)" using Cons.prems net_ok_close by simp
  moreover have "so_sock (nt_heap (close_at i n) ! i) = -1" using Cons.prems by (simp add: close_at_heap(1))
  moreover have "\<forall>j. j \<noteq> i \<longrightarrow> nt_heap (close_at i n) ! j = nt_heap n ! j" by (simp add: close_at_heap(2))
  moreover have "\<forall>j \<in> set is. j < length (nt_heap (close_at i n))" using Cons.prems by simp
  moreover note Cons.IH [of "close_at i n"]
  moreover have "so_sock (nt_heap (release {} is (close_at i n)) ! i) = -1"
    using calculation by (cases "i \<in> set is") simp_all
  ultimately show ?case unfolding r by simp
qed

lemma TcpServer_bind_effect:
  assumes "net_ok B n" and "\<forall>i \<in> set (ts_socks srv). i < length (nt_heap n)"
    and "TcpServer_bind host {} addrs [] srv n = (ok, fails, srv', n')"
  shows "net_ok B n' \<and> (ok \<longleftrightarrow> fails = [])
    \<and> (if ok then heap_grows n n' \<and> (\<exists>new. ts_socks srv' = ts_socks srv @ new \<and> distinct new
                \<and> (\<forall>i \<in> set new. length (nt_heap n) \<le> i \<and> i < length (nt_heap n') \<and> isValid (nt_heap n' ! i))
                \<and> map (\<lambda>i. so_family (nt_heap n' ! i)) new = map getFamily addrs)
       else ts_socks srv' = []
          \<and> (\<forall>i < length (nt_heap n'). i \<in> set (ts_socks srv) \<or> length (nt_heap n) \<le> i
                \<longrightarrow> so_sock (nt_heap n' ! i) = -1)
          \<and> (\<forall>i < length (nt_heap n). i \<notin> set (ts_socks srv) \<longrightarrow> nt_heap n' ! i = nt_heap n ! i))"
proof -
  obtain socks fails1 n1 where l: "bind_loop host addrs (ts_socks srv) [] n = (socks, fails1, n1)"
    by (metis prod.exhaust)
  obtain new where N: "net_ok B n1" "heap_grows n n1" "socks = ts_socks srv @ new" "distinct new"
    "set new \<subseteq> {length (nt_heap n)..<length (nt_heap n1)}" "\<forall>i \<in> set new. isValid (nt_heap n1 ! i)"
    "\<forall>i \<in> {length (nt_heap n)..<length (nt_heap n1)} - set new. so_sock (nt_heap n1 ! i) = -1"
    "fails1 = [] \<longrightarrow> map (\<lambda>i. so_family (nt_heap n1 ! i)) new = map getFamily addrs"
    using bind_loop_effect [OF assms(1) l] by auto
  show ?thesis
  proof (cases "fails1 = []")
    case True
    then have "ok" "fails = []" "n' = n1" "ts_socks srv' = socks"
      using assms(3) by (auto simp: TcpServer_bind_def l)
    then show ?thesis using N True by auto
  next
    case False
    then have e: "\<not> ok" "fails = fails1" "n' = release {} socks n1" "ts_socks srv' = []"
      using assms(3) by (auto simp: TcpServer_bind_def l)
    have len: "length (nt_heap n) \<le> length (nt_heap n1)" using N(2) by (simp add: heap_grows_def)
    then have "\<forall>i \<in> set socks. i < length (nt_heap n1)" using assms(2) N(3,5) by fastforce
    note R = release_effect [OF N(1) this, folded e(3)]
    have "so_sock (nt_heap n' ! i) = -1"
      if "i < length (nt_heap n')" "i \<in> set (ts_socks srv) \<or> length (nt_heap n) \<le> i" for i
    proof (cases "i \<in> set socks")
      case True
      with R show ?thesis by blast
    next
      case False
      then have "i \<in> {length (nt_heap n)..<length (nt_heap n1)} - set new" using that R N(3) by auto
      with N(7) R False show ?thesis by (metis (no_types))
    qed
    moreover have "nt_heap n' ! i = nt_heap n ! i" if "i < length (nt_heap n)" "i \<notin> set (ts_socks srv)" for i
    proof -
      have "i \<notin> set socks" using that N(3,5) by auto
      then have "nt_heap n' ! i = nt_heap n1 ! i" using R by blast
      then show ?thesis using that(1) N(2) by (simp add: heap_grows_def)
    qed
    ultimately show ?thesis using R e False by auto
  qed
qed



end
