(* ===== verification/Application_Props.thy ===== *)
theory Application_Props
  imports Application TcpServer_Props
begin

text \<open>
  The application as a whole: the addresses its configuration gives, the servers it starts, and the
  conversions of their configuration.
\<close>

section \<open>Addresses\<close>

text \<open>The entries \<open>getifaddrs\<close> answers for internet interfaces have an address and a mask of its family.\<close>

definition interfaces_ok :: "ifaddr list option \<Rightarrow> bool" where
  "interfaces_ok getifaddrs \<longleftrightarrow>
     (\<forall>is. getifaddrs = Some is \<longrightarrow>
       (\<forall>i \<in> set is. case ifa_addr i of
          None \<Rightarrow> False
        | Some (Raw_in a) \<Rightarrow> (\<exists>m. ifa_netmask i = Some (Raw_in m))
        | Some (Raw_in6 a) \<Rightarrow> (\<exists>m. ifa_netmask i = Some (Raw_in6 m))
        | Some (Raw_other a) \<Rightarrow> True))"

lemma interfaces_loop_ip:
  "interfaces_ok (Some is) \<Longrightarrow> \<exists>rs. interfaces_loop family is = Inr rs \<and> (\<forall>r \<in> set rs. is_ip (fst (snd r)))"
proof (induction "is")
  case (Cons i "is")
  then obtain rs where rs: "interfaces_loop family is = Inr rs" "\<forall>r \<in> set rs. is_ip (fst (snd r))"
    by (auto simp: interfaces_ok_def)
  have "case ifa_addr i of None \<Rightarrow> False | Some (Raw_in a) \<Rightarrow> (\<exists>m. ifa_netmask i = Some (Raw_in m))
      | Some (Raw_in6 a) \<Rightarrow> (\<exists>m. ifa_netmask i = Some (Raw_in6 m)) | Some (Raw_other a) \<Rightarrow> True"
    using Cons.prems by (simp add: interfaces_ok_def)
  then show ?case using rs
    by (auto simp: prefix_of_def split: option.splits raw_addr.splits)
qed simp

lemma iface_ip:
  assumes "interfaces_ok getifaddrs"
  shows "\<exists>ok result. GetInterfaceAddresses_iface host getifaddrs iface family [] = Inr (ok, result)
    \<and> (\<forall>x \<in> set result. is_ip (fst x))"
proof (cases "iface = [] \<or> iface = ''*''")
  case True
  then show ?thesis by (auto simp: GetInterfaceAddresses_iface_def)
next
  case False
  show ?thesis
  proof (cases getifaddrs)
    case None
    with False show ?thesis by (auto simp: GetInterfaceAddresses_iface_def GetInterfaceAddresses_def)
  next
    case (Some ifs)
    obtain rs where rs: "interfaces_loop family ifs = Inr rs" "\<forall>r \<in> set rs. is_ip (fst (snd r))"
      using interfaces_loop_ip assms Some by blast
    have "GetInterfaceAddresses_iface host getifaddrs iface family [] =
        Inr (if rs = [] then (False, []) else let result1 = map snd (filter (\<lambda>r. fst r = iface) rs) in (result1 \<noteq> [], result1))"
      using False by (simp add: GetInterfaceAddresses_iface_def GetInterfaceAddresses_def Some rs(1) Let_def)
    with rs(2) show ?thesis by (auto simp: Let_def)
  qed
qed

lemma conf_address_ok:
  assumes "interfaces_ok getifaddrs"
  shows "\<exists>xs. conf_address host g getifaddrs a = Inr xs \<and> None \<notin> set xs"
proof (cases "find_first_of (CHR 0x3A) a")
  case None
  then show ?thesis by (simp add: conf_address_def)
next
  case (Some pos)
  show ?thesis
  proof (cases "LookupAny g a (int (unat AF_INET)) 0 0")
    case (Some addr)
    then show ?thesis using \<open>find_first_of (CHR 0x3A) a = Some pos\<close> by (simp add: conf_address_def)
  next
    case None
    obtain ok result where r: "GetInterfaceAddresses_iface host getifaddrs (take pos a) AF_INET [] = Inr (ok, result)"
      and ip: "\<forall>x \<in> set result. is_ip (fst x)"
      using iface_ip [OF assms] by blast
    show ?thesis using Some None ip by (auto simp: conf_address_def r)
  qed
qed

lemma conf_addresses_ok:
  assumes "interfaces_ok getifaddrs"
  shows "\<exists>xs. conf_addresses host g getifaddrs as = Inr xs \<and> None \<notin> set xs"
proof (induction as)
  case (Cons a as)
  then show ?case using conf_address_ok [OF assms, of host g a] by auto
qed simp

text \<open>The addresses of one server.\<close>

definition resolved :: "byte_order \<Rightarrow> resolver \<Rightarrow> ifaddr list option \<Rightarrow> HttpServerConf \<Rightarrow> address list res" where
  "resolved host g getifaddrs c = bindR (conf_addresses host g getifaddrs (hc_address c)) deref_all"

lemma resolved_ok: "interfaces_ok getifaddrs \<Longrightarrow> \<exists>as. resolved host g getifaddrs c = Inr as"
  using conf_addresses_ok [of getifaddrs host g "hc_address c"] by (auto simp: resolved_def deref_all_def)

section \<open>Servers\<close>

definition hs_socks :: "'h http_server \<Rightarrow> nat list" where
  "hs_socks s = ts_socks (hs_tcp s)"

definition serves :: "net \<Rightarrow> HttpServerConf \<Rightarrow> address list \<Rightarrow> 'h http_server \<Rightarrow> bool" where
  "serves n c addrs s \<longleftrightarrow>
     \<not> ts_isStop (hs_tcp s) \<and> ts_name (hs_tcp s) = hc_name c \<and> hs_isKeepalive s = (hc_keepalive c \<noteq> 0)
     \<and> (\<forall>i \<in> set (hs_socks s). i < length (nt_heap n) \<and> isValid (nt_heap n ! i))
     \<and> map (\<lambda>i. so_family (nt_heap n ! i)) (hs_socks s) = map getFamily addrs"

definition accept_tasks :: "'h http_server list \<Rightarrow> scheduled" where
  "accept_tasks ss = concat (map (\<lambda>s. map (\<lambda>i. (main_io, StartAccept i)) (hs_socks s)) ss)"

lemma serves_grows:
  assumes "serves n c addrs s" and "heap_grows n n'"
  shows "serves n' c addrs s"
proof -
  have "\<forall>i \<in> set (hs_socks s). nt_heap n' ! i = nt_heap n ! i \<and> i < length (nt_heap n')"
    using assms by (auto simp: serves_def heap_grows_def)
  with assms(1) show ?thesis unfolding serves_def by (metis (mono_tags, lifting) map_cong)
qed

lemma run_fiber_effect:
  fixes servers :: "'h http_server list"
  assumes "interfaces_ok getifaddrs" and "net_ok B n"
  shows "\<exists>r n'. run_fiber host g getifaddrs rt confs servers tasks n = Inr (r, n') \<and> net_ok B n'
    \<and> (case r of Exited \<Rightarrow> True
       | Running ss ts \<Rightarrow> heap_grows n n' \<and> (\<exists>new. ss = servers @ new \<and> ts = tasks @ accept_tasks new
           \<and> list_all2 (\<lambda>c s. \<exists>addrs. resolved host g getifaddrs c = Inr addrs \<and> serves n' c addrs s) confs new
           \<and> distinct (concat (map hs_socks new))
           \<and> (\<forall>i \<in> set (concat (map hs_socks new)). length (nt_heap n) \<le> i)))"
  using assms(2)
proof (induction confs arbitrary: servers tasks n)
  case Nil
  then show ?case by (simp add: heap_grows_def accept_tasks_def)
next
  case (Cons c cs)
  obtain ptrs where p: "conf_addresses host g getifaddrs (hc_address c) = Inr ptrs" "None \<notin> set ptrs"
    using conf_addresses_ok [OF assms(1)] by blast
  define addrs where "addrs = map the ptrs"
  have rs: "resolved host g getifaddrs c = Inr addrs" by (simp add: resolved_def p deref_all_def addrs_def)
  define server where "server = (HttpServer_new (hc_keepalive c \<noteq> 0) worker_io main_io main_io rt :: 'h http_server)"
  have sv: "ts_socks (hs_tcp server) = []" "hs_isKeepalive server = (hc_keepalive c \<noteq> 0)"
    "ts_isStop (hs_tcp server)" "ts_acceptWorker (hs_tcp server) = main_io"
    by (simp_all add: server_def HttpServer_new_def TcpServer_new_def)
  obtain ok fails tcp n1 where b: "TcpServer_bind host {} addrs [] (hs_tcp server) n = (ok, fails, tcp, n1)"
    by (metis prod.exhaust)
  have E: "net_ok B n1"
    "ok \<Longrightarrow> heap_grows n n1 \<and> distinct (ts_socks tcp)
       \<and> (\<forall>i \<in> set (ts_socks tcp). length (nt_heap n) \<le> i \<and> i < length (nt_heap n1) \<and> isValid (nt_heap n1 ! i))
       \<and> map (\<lambda>i. so_family (nt_heap n1 ! i)) (ts_socks tcp) = map getFamily addrs"
    using TcpServer_bind_effect [OF Cons.prems _ b] by (auto simp: sv split: if_splits)
  show ?case
  proof (cases ok)
    case False
    then show ?thesis using E(1) by (simp add: p deref_all_def addrs_def [symmetric] server_def [symmetric] Let_def b)
  next
    case True
    have tcp: "ts_isStop tcp" "ts_acceptWorker tcp = main_io"
      using b sv by (auto simp: TcpServer_bind_def split: prod.splits if_splits)
    define started where "started = (hs_setName (hc_name c) (server\<lparr>hs_tcp := tcp\<rparr>))\<lparr>hs_tcp := (tcp\<lparr>ts_name := hc_name c\<rparr>)\<lparr>ts_isStop := False\<rparr>\<rparr>"
    have step: "run_fiber host g getifaddrs rt (c # cs) servers tasks n =
        run_fiber host g getifaddrs rt cs (servers @ [started]) (tasks @ accept_tasks [started]) n1"
      using True tcp
      by (simp add: p deref_all_def addrs_def [symmetric] server_def [symmetric] Let_def b TcpServer_start_def
          hs_setName_def started_def accept_tasks_def hs_socks_def)
    have lt: "\<forall>i \<in> set (ts_socks tcp). i < length (nt_heap n1)" using E(2) [OF True] by blast
    have here: "serves n1 c addrs started"
      using E(2) [OF True] lt sv(2) by (simp add: serves_def started_def hs_setName_def hs_socks_def)
    have socks: "hs_socks started = ts_socks tcp" by (simp add: started_def hs_socks_def)
    obtain r n' where R: "run_fiber host g getifaddrs rt cs (servers @ [started]) (tasks @ accept_tasks [started]) n1 = Inr (r, n')"
      "net_ok B n'"
      "case r of Exited \<Rightarrow> True
       | Running ss ts \<Rightarrow> heap_grows n1 n' \<and> (\<exists>new. ss = (servers @ [started]) @ new \<and> ts = (tasks @ accept_tasks [started]) @ accept_tasks new
           \<and> list_all2 (\<lambda>c s. \<exists>addrs. resolved host g getifaddrs c = Inr addrs \<and> serves n' c addrs s) cs new
           \<and> distinct (concat (map hs_socks new))
           \<and> (\<forall>i \<in> set (concat (map hs_socks new)). length (nt_heap n1) \<le> i))"
      using Cons.IH [OF E(1), of "servers @ [started]" "tasks @ accept_tasks [started]"] by blast
    show ?thesis
    proof (cases r)
      case Exited
      then show ?thesis using R(1,2) step by auto
    next
      case (Running ss ts)
      then obtain new where g: "heap_grows n1 n'" and N: "ss = servers @ started # new" "ts = tasks @ accept_tasks (started # new)"
        "list_all2 (\<lambda>c s. \<exists>addrs. resolved host g getifaddrs c = Inr addrs \<and> serves n' c addrs s) cs new"
        "distinct (concat (map hs_socks new))" "\<forall>i \<in> set (concat (map hs_socks new)). length (nt_heap n1) \<le> i"
        using R(3) by (auto simp: accept_tasks_def)
      have "set (ts_socks tcp) \<inter> set (concat (map hs_socks new)) = {}" using N(5) lt by (meson disjoint_iff leD)
      then have "distinct (concat (map hs_socks (started # new)))"
        using N(4) E(2) [OF True] by (simp add: socks)
      moreover have "\<forall>i \<in> set (concat (map hs_socks (started # new))). length (nt_heap n) \<le> i"
        using N(5) E(2) [OF True] by (fastforce simp: socks heap_grows_def)
      moreover have "heap_grows n n'" using E(2) [OF True] g heap_grows_trans by blast
      moreover have "list_all2 (\<lambda>c s. \<exists>addrs. resolved host g getifaddrs c = Inr addrs \<and> serves n' c addrs s) (c # cs) (started # new)"
        using N(3) rs serves_grows [OF here g] by simp
      ultimately show ?thesis using R(1,2) step N(1,2) Running by auto
    qed
  qed
qed

section \<open>Starting\<close>


definition one_conf :: HttpServerConf where
  "one_conf = HttpServerConf_new\<lparr>hc_address := [''10.0.0.1:80''], hc_name := ''web''\<rparr>"


section \<open>Conversions\<close>

text \<open>
  The configuration of a server survives its text, when the library reads back the node it wrote
  and reads numbers as they are printed.
\<close>

lemma conf_round_trip:
  assumes "yaml_load Y (yaml_emit Y (HttpServerConf_node c)) = Some (HttpServerConf_node c)"
    and "\<And>i. yaml_int (Some (YScalar (show_int i))) = Inr i"
  shows "bindC (HttpServerConf_to_string Y c) (cast_to_HttpServerConf Y A yaml_int) = Inr c"
proof -
  obtain kvs where n: "HttpServerConf_node c = YMap kvs"
    and keys: "map_of kvs ''keepalive'' = Some (YScalar (show_int (hc_keepalive c)))"
      "map_of kvs ''timeout'' = Some (YScalar (show_int (hc_timeout c)))"
      "map_of kvs ''name'' = Some (YScalar (hc_name c))"
      "map_of kvs ''address'' = (if hc_address c = [] then None else Some (YSequence (map YScalar (hc_address c))))"
    by (simp add: HttpServerConf_node_def)
  have "cast_all (\<lambda>i. as_string A (Some (yaml_at Y (YSequence (map YScalar as)) i))) [0..<length as] = Inr as" for as
    using cast_all_Inr [of "[0..<length as]" "\<lambda>i. as_string A (Some (yaml_at Y (YSequence (map YScalar as)) i))" "\<lambda>i. as ! i"]
    by (simp add: map_nth)
  then show ?thesis
    using assms(1)
    by (simp add: HttpServerConf_to_string_def cast_to_HttpServerConf_def load_node_def n get_int_def get_string_def keys assms(2))
qed

end
