(* ===== verification/Module.thy ===== *)
theory Module
  imports Application "HOL-Library.AList" "HOL-Library.Multiset"
begin

text \<open>
  The registry of loaded modules (module.h, module.cpp): two indices, by identifier and by type and
  identifier, kept together. A module is a shared object; \<open>obj\<close> gives what a pointer points to, and
  neither the identifier nor the type of a module ever changes. The maps are unordered: a list
  stands for one, its order for the order in which it is walked.
\<close>

section \<open>Modules\<close>

record module =
  md_name :: string
  md_version :: string
  md_filename :: string
  md_id :: string
  md_type :: u32

definition MODULE :: u32 where "MODULE = 0"
definition ROCK :: u32 where "ROCK = 1"

definition Module_new :: "string \<Rightarrow> string \<Rightarrow> string \<Rightarrow> u32 \<Rightarrow> module" where
  "Module_new name version filename type =
     \<lparr>md_name = name, md_version = version, md_filename = filename, md_id = name @ ''/'' @ version, md_type = type\<rparr>"

definition RockModule_new :: "string \<Rightarrow> string \<Rightarrow> string \<Rightarrow> module" where
  "RockModule_new name version filename = Module_new name version filename ROCK"

definition statusString :: "module \<Rightarrow> string" where
  "statusString m =
     ''Module name='' @ md_name m @ '' version='' @ md_version m @ '' filename='' @ md_filename m @ [CHR 0x0A]"

text \<open>
  \<open>registerService\<close>: what it registers for one local address of a server's socket. A loopback
  address is left out, and the address of the host stands for the wildcard.
\<close>

definition starts_with :: "string \<Rightarrow> string \<Rightarrow> bool" where
  "starts_with p s \<longleftrightarrow> take (length p) s = p"

fun service_address :: "byte_order \<Rightarrow> string \<Rightarrow> address \<Rightarrow> string option" where
  "service_address host GetIPv4 (IPv4Address a) =
     (let str = v4_insert host a in
      if starts_with ''127.0.0.1'' str then None
      else if starts_with ''0.0.0.0'' str then Some (GetIPv4 @ '':'' @ show_nat (unat (v4_getPort host a)))
      else Some str)"
| "service_address host GetIPv4 a = None"

definition registerService :: "byte_order \<Rightarrow> string \<Rightarrow> address list list option \<Rightarrow> string list" where
  "registerService host GetIPv4 servers =
     (case servers of
        None \<Rightarrow> []
      | Some svrs \<Rightarrow> concat (map (\<lambda>addrs. List.map_filter (service_address host GetIPv4) addrs) svrs))"

section \<open>ModuleManager\<close>

record module_mgr =
  mm_modules :: "(string \<times> nat) list"
  mm_type2Modules :: "(u32 \<times> (string \<times> nat) list) list"

definition ModuleManager_new :: module_mgr where
  "ModuleManager_new = \<lparr>mm_modules = [], mm_type2Modules = []\<rparr>"

definition mm_get :: "string \<Rightarrow> module_mgr \<Rightarrow> nat option" where
  "mm_get name m = map_of (mm_modules m) name"

text \<open>\<open>m_type2Modules[type]\<close> makes an empty map when there is none.\<close>

definition of_type :: "u32 \<Rightarrow> module_mgr \<Rightarrow> (string \<times> nat) list" where
  "of_type type m = (case map_of (mm_type2Modules m) type of None \<Rightarrow> [] | Some ms \<Rightarrow> ms)"

text \<open>The part of \<open>del\<close> under the lock, with the module that \<open>onUnload\<close> is called for after it.\<close>

definition del_locked :: "(nat \<Rightarrow> module) \<Rightarrow> string \<Rightarrow> module_mgr \<Rightarrow> nat option \<times> module_mgr" where
  "del_locked obj name m =
     (case map_of (mm_modules m) name of
        None \<Rightarrow> (None, m)
      | Some p \<Rightarrow>
          (let t = md_type (obj p);
               ms = AList.delete (md_id (obj p)) (of_type t m);
               types = AList.update t ms (mm_type2Modules m)
           in (Some p, \<lparr>mm_modules = AList.delete name (mm_modules m),
                        mm_type2Modules = (if ms = [] then AList.delete t types else types)\<rparr>)))"

text \<open>The part of \<open>add\<close> under its own lock.\<close>

definition add_locked :: "(nat \<Rightarrow> module) \<Rightarrow> nat \<Rightarrow> module_mgr \<Rightarrow> module_mgr" where
  "add_locked obj p m =
     \<lparr>mm_modules = AList.update (md_id (obj p)) p (mm_modules m),
      mm_type2Modules = AList.update (md_type (obj p)) (AList.update (md_id (obj p)) p (of_type (md_type (obj p)) m)) (mm_type2Modules m)\<rparr>"

text \<open>The operations, with the modules they unload.\<close>

definition mm_del :: "(nat \<Rightarrow> module) \<Rightarrow> string \<Rightarrow> module_mgr \<Rightarrow> module_mgr \<times> nat list" where
  "mm_del obj name m = (case del_locked obj name m of (None, m1) \<Rightarrow> (m1, []) | (Some p, m1) \<Rightarrow> (m1, [p]))"

definition mm_add :: "(nat \<Rightarrow> module) \<Rightarrow> nat \<Rightarrow> module_mgr \<Rightarrow> module_mgr \<times> nat list" where
  "mm_add obj p m = (case mm_del obj (md_id (obj p)) m of (m1, us) \<Rightarrow> (add_locked obj p m1, us))"

fun del_each :: "(nat \<Rightarrow> module) \<Rightarrow> string list \<Rightarrow> module_mgr \<Rightarrow> module_mgr \<times> nat list" where
  "del_each obj [] m = (m, [])"
| "del_each obj (k # ks) m =
     (case mm_del obj k m of (m1, us) \<Rightarrow> (case del_each obj ks m1 of (m2, vs) \<Rightarrow> (m2, us @ vs)))"

definition mm_delAll :: "(nat \<Rightarrow> module) \<Rightarrow> module_mgr \<Rightarrow> module_mgr \<times> nat list" where
  "mm_delAll obj m = del_each obj (map fst (mm_modules m)) m"

definition listAll :: "module_mgr \<Rightarrow> nat list \<Rightarrow> nat list" where
  "listAll m ms = ms @ map snd (mm_modules m)"

definition listByType :: "u32 \<Rightarrow> module_mgr \<Rightarrow> nat list \<Rightarrow> nat list" where
  "listByType type m ms = (case map_of (mm_type2Modules m) type of None \<Rightarrow> ms | Some t \<Rightarrow> ms @ map snd t)"

text \<open>\<open>foreach\<close>, \<open>onConnect\<close> and \<open>onDisconnect\<close>: the modules called, in order.\<close>

definition mm_foreach :: "u32 \<Rightarrow> (nat \<Rightarrow> 'a) \<Rightarrow> module_mgr \<Rightarrow> 'a list" where
  "mm_foreach type cb m = map cb (listByType type m [])"

definition mm_onConnect :: "(nat \<Rightarrow> 'a) \<Rightarrow> module_mgr \<Rightarrow> 'a list" where
  "mm_onConnect call m = map call (listAll m [])"

definition mm_onDisconnect :: "(nat \<Rightarrow> 'a) \<Rightarrow> module_mgr \<Rightarrow> 'a list" where
  "mm_onDisconnect call m = map call (listAll m [])"

text \<open>\<open>init\<close>: the libraries under the module path in the order of their names; \<open>load\<close> may give no module.\<close>

definition initModule :: "(nat \<Rightarrow> module) \<Rightarrow> (string \<Rightarrow> nat option) \<Rightarrow> string \<Rightarrow> module_mgr \<times> nat list \<Rightarrow> module_mgr \<times> nat list" where
  "initModule obj load path st =
     (case load path of
        None \<Rightarrow> st
      | Some p \<Rightarrow> (case mm_add obj p (fst st) of (m1, us) \<Rightarrow> (m1, snd st @ us)))"

fun insert_path :: "string \<Rightarrow> string list \<Rightarrow> string list" where
  "insert_path p [] = [p]"
| "insert_path p (q # qs) = (if str_less q p then q # insert_path p qs else p # q # qs)"

definition ModuleManager_init ::
  "(nat \<Rightarrow> module) \<Rightarrow> (string \<Rightarrow> nat option) \<Rightarrow> (string \<Rightarrow> (string \<times> dirent) list option) \<Rightarrow> string \<Rightarrow> env
    \<Rightarrow> module_mgr \<Rightarrow> module_mgr \<times> nat list" where
  "ModuleManager_init obj load dir module_path e m =
     (let path = getAbsolutePath module_path e;
          files = foldr insert_path (ListAllFile [] path ''.so'' (dir path)) []
      in fold (initModule obj load) files (m, []))"

end
