(* ===== verification/Module_Props.thy ===== *)
theory Module_Props
  imports Module
begin

text \<open>The two indices of the module registry agree, and a module is unloaded once for each time it leaves.\<close>

section \<open>The invariant\<close>

definition mods_ok :: "(nat \<Rightarrow> module) \<Rightarrow> module_mgr \<Rightarrow> bool" where
  "mods_ok obj m \<longleftrightarrow>
     distinct (map fst (mm_modules m)) \<and> distinct (map fst (mm_type2Modules m))
     \<and> (\<forall>id p. map_of (mm_modules m) id = Some p \<longrightarrow> md_id (obj p) = id)
     \<and> (\<forall>t ms. map_of (mm_type2Modules m) t = Some ms \<longrightarrow> ms \<noteq> [] \<and> distinct (map fst ms))
     \<and> (\<forall>t id p. map_of (of_type t m) id = Some p \<longleftrightarrow> map_of (mm_modules m) id = Some p \<and> md_type (obj p) = t)"

lemma mods_ok_new: "mods_ok obj ModuleManager_new"
  by (simp add: mods_ok_def ModuleManager_new_def of_type_def)

lemma of_type_distinct: "mods_ok obj m \<Longrightarrow> distinct (map fst (of_type t m))"
  by (auto simp: mods_ok_def of_type_def split: option.splits)

lemma map_of_deleted: "map_of (AList.delete k al) = (map_of al)(k := None)"
  by (rule delete_conv')

lemma map_of_updated: "map_of (AList.update k v al) = (map_of al)(k \<mapsto> v)"
  by (rule update_conv')

lemma mset_delete:
  "distinct (map fst al) \<Longrightarrow> map_of al k = Some v \<Longrightarrow>
   mset (map snd al) = add_mset v (mset (map snd (AList.delete k al)))"
proof (induction al)
  case (Cons x al)
  show ?case
  proof (cases "fst x = k")
    case True
    then have "k \<notin> fst ` set al" using Cons.prems by auto
    then show ?thesis using True Cons.prems by (cases x) simp
  next
    case False
    then show ?thesis using Cons by (cases x) (simp add: add_mset_commute)
  qed
qed simp

lemma update_new: "map_of al k = None \<Longrightarrow> AList.update k v al = al @ [(k, v)]"
  by (induction al) (auto split: if_splits)

section \<open>The locked parts\<close>

lemma del_locked_effect:
  assumes "mods_ok obj m" and "del_locked obj name m = (r, m')"
  shows "mods_ok obj m' \<and> map_of (mm_modules m') = (map_of (mm_modules m))(name := None)
    \<and> mset (map snd (mm_modules m)) = mset (map snd (mm_modules m')) + (case r of None \<Rightarrow> {#} | Some p \<Rightarrow> {#p#})"
proof (cases "map_of (mm_modules m) name")
  case None
  with assms show ?thesis by (auto simp: del_locked_def)
next
  case (Some p)
  let ?t = "md_type (obj p)"
  define ms where "ms = AList.delete name (of_type ?t m)"
  have id: "md_id (obj p) = name" using assms(1) Some by (simp add: mods_ok_def)
  have e: "r = Some p" "mm_modules m' = AList.delete name (mm_modules m)"
    "mm_type2Modules m' = (if ms = [] then AList.delete ?t (AList.update ?t ms (mm_type2Modules m))
       else AList.update ?t ms (mm_type2Modules m))"
    using assms(2) Some by (auto simp: del_locked_def Let_def id ms_def)
  have ty: "of_type t m' = (if t = ?t then ms else of_type t m)" for t
    by (auto simp: of_type_def e(3) map_of_deleted map_of_updated)
  have d: "distinct (map fst (mm_modules m))" "distinct (map fst ms)"
    using assms(1) of_type_distinct [OF assms(1)] by (auto simp: mods_ok_def ms_def intro: distinct_delete)
  have "mods_ok obj m'"
    unfolding mods_ok_def
  proof (intro conjI allI)
    show "distinct (map fst (mm_modules m'))" using d(1) by (simp add: e(2) distinct_delete)
    show "distinct (map fst (mm_type2Modules m'))"
      using assms(1) by (simp add: e(3) mods_ok_def distinct_delete distinct_update)
    show "map_of (mm_modules m') id = Some q \<longrightarrow> md_id (obj q) = id" for id q
      using assms(1) by (simp add: e(2) map_of_deleted mods_ok_def)
    show "map_of (mm_type2Modules m') t = Some ns \<longrightarrow> ns \<noteq> [] \<and> distinct (map fst ns)" for t ns
      using assms(1) d(2) by (auto simp: e(3) map_of_deleted map_of_updated mods_ok_def)
    show "map_of (of_type t m') id = Some q \<longleftrightarrow> map_of (mm_modules m') id = Some q \<and> md_type (obj q) = t" for t id q
      using assms(1) Some by (auto simp: ty e(2) ms_def map_of_deleted mods_ok_def)
  qed
  moreover have "mset (map snd (mm_modules m)) = add_mset p (mset (map snd (AList.delete name (mm_modules m))))"
    using Some d(1) by (rule mset_delete [rotated])
  ultimately show ?thesis by (simp add: e(1,2) map_of_deleted)
qed

lemma add_locked_effect:
  assumes "mods_ok obj m" and "map_of (mm_modules m) (md_id (obj p)) = None"
  shows "mods_ok obj (add_locked obj p m)
    \<and> map_of (mm_modules (add_locked obj p m)) = (map_of (mm_modules m))(md_id (obj p) \<mapsto> p)
    \<and> mset (map snd (mm_modules (add_locked obj p m))) = mset (map snd (mm_modules m)) + {#p#}"
proof -
  let ?t = "md_type (obj p)" and ?m = "add_locked obj p m"
  have e: "mm_modules ?m = AList.update (md_id (obj p)) p (mm_modules m)"
    "mm_type2Modules ?m = AList.update ?t (AList.update (md_id (obj p)) p (of_type ?t m)) (mm_type2Modules m)"
    by (simp_all add: add_locked_def)
  have ty: "of_type t ?m = (if t = ?t then AList.update (md_id (obj p)) p (of_type ?t m) else of_type t m)" for t
    by (auto simp: of_type_def e(2) map_of_updated)
  have "mods_ok obj ?m"
    unfolding mods_ok_def
  proof (intro conjI allI)
    show "distinct (map fst (mm_modules ?m))" "distinct (map fst (mm_type2Modules ?m))"
      using assms(1) by (simp_all add: e mods_ok_def distinct_update)
    show "map_of (mm_modules ?m) id = Some q \<longrightarrow> md_id (obj q) = id" for id q
      using assms(1) by (simp add: e(1) map_of_updated mods_ok_def)
    show "map_of (mm_type2Modules ?m) t = Some ns \<longrightarrow> ns \<noteq> [] \<and> distinct (map fst ns)" for t ns
      using assms(1) of_type_distinct [OF assms(1)] by (auto simp: e(2) map_of_updated mods_ok_def distinct_update)
    show "map_of (of_type t ?m) id = Some q \<longleftrightarrow> map_of (mm_modules ?m) id = Some q \<and> md_type (obj q) = t" for t id q
      using assms by (auto simp: ty e(1) map_of_updated mods_ok_def)
  qed
  moreover have "map_of (mm_modules ?m) = (map_of (mm_modules m))(md_id (obj p) \<mapsto> p)"
    by (simp add: e(1) map_of_updated)
  moreover have "mset (map snd (mm_modules ?m)) = mset (map snd (mm_modules m)) + {#p#}"
    by (simp add: e(1) update_new [OF assms(2)])
  ultimately show ?thesis by blast
qed

section \<open>The operations\<close>

definition present :: "module_mgr \<Rightarrow> nat multiset" where
  "present m = mset (listAll m [])"

lemma present_modules: "present m = mset (map snd (mm_modules m))"
  by (simp add: present_def listAll_def)

lemma mm_del_effect:
  assumes "mods_ok obj m" and "mm_del obj name m = (m', us)"
  shows "mods_ok obj m' \<and> map_of (mm_modules m') = (map_of (mm_modules m))(name := None) \<and> present m = present m' + mset us"
proof -
  obtain r m1 where d: "del_locked obj name m = (r, m1)" by (cases "del_locked obj name m")
  show ?thesis using assms(2) del_locked_effect [OF assms(1) d]
    by (auto simp: mm_del_def d present_modules split: option.splits)
qed

lemma mm_add_effect:
  assumes "mods_ok obj m" and "mm_add obj p m = (m', us)"
  shows "mods_ok obj m' \<and> map_of (mm_modules m') = (map_of (mm_modules m))(md_id (obj p) \<mapsto> p)
    \<and> present m + {#p#} = present m' + mset us"
proof -
  obtain m1 vs where d: "mm_del obj (md_id (obj p)) m = (m1, vs)" by (cases "mm_del obj (md_id (obj p)) m")
  note D = mm_del_effect [OF assms(1) d]
  then have "map_of (mm_modules m1) (md_id (obj p)) = None" by simp
  with D have A: "mods_ok obj (add_locked obj p m1)"
    "map_of (mm_modules (add_locked obj p m1)) = (map_of (mm_modules m1))(md_id (obj p) \<mapsto> p)"
    "present (add_locked obj p m1) = present m1 + {#p#}"
    using add_locked_effect [of obj m1 p] by (auto simp: present_modules)
  have "m' = add_locked obj p m1" "us = vs" using assms(2) by (auto simp: mm_add_def d)
  with A D show ?thesis by (simp add: ac_simps)
qed

lemma del_each_effect:
  "mods_ok obj m \<Longrightarrow> del_each obj ks m = (m', us) \<Longrightarrow>
   mods_ok obj m' \<and> map_of (mm_modules m') = (\<lambda>k. if k \<in> set ks then None else map_of (mm_modules m) k)
   \<and> present m = present m' + mset us"
proof (induction ks arbitrary: m m' us)
  case (Cons k ks)
  obtain m1 vs where d: "mm_del obj k m = (m1, vs)" by (cases "mm_del obj k m")
  obtain m2 ws where e: "del_each obj ks m1 = (m2, ws)" by (cases "del_each obj ks m1")
  note D = mm_del_effect [OF Cons.prems(1) d]
  with Cons.IH [OF _ e] have I: "mods_ok obj m2"
    "map_of (mm_modules m2) = (\<lambda>k. if k \<in> set ks then None else map_of (mm_modules m1) k)"
    "present m1 = present m2 + mset ws" by blast+
  have "m' = m2" "us = vs @ ws" using Cons.prems(2) by (auto simp: d e)
  with I D show ?case by (auto simp: ac_simps)
qed (simp add: fun_eq_iff)

lemma mm_delAll_effect:
  assumes "mods_ok obj m" and "mm_delAll obj m = (m', us)"
  shows "mods_ok obj m' \<and> mm_modules m' = [] \<and> present m = mset us"
proof -
  note D = del_each_effect [OF assms(1) assms(2) [unfolded mm_delAll_def]]
  have "map_of (mm_modules m') k = None" for k
    using D by (auto simp: map_of_eq_None_iff)
  then have "mm_modules m' = []" by (metis fun_upd_def map_of_eq_None_iff list.set_intros(1) image_eqI list.exhaust)
  with D show ?thesis by (simp add: present_modules)
qed

section \<open>Programs over the registry\<close>

datatype module_op = Add nat | Del string | Del_all

fun module_exec :: "(nat \<Rightarrow> module) \<Rightarrow> module_op \<Rightarrow> module_mgr \<Rightarrow> module_mgr \<times> nat list" where
  "module_exec obj (Add p) m = mm_add obj p m"
| "module_exec obj (Del name) m = mm_del obj name m"
| "module_exec obj Del_all m = mm_delAll obj m"

fun module_run :: "(nat \<Rightarrow> module) \<Rightarrow> module_op list \<Rightarrow> module_mgr \<Rightarrow> module_mgr \<times> nat list" where
  "module_run obj [] m = (m, [])"
| "module_run obj (op # ops) m =
     (case module_exec obj op m of (m1, us) \<Rightarrow> (case module_run obj ops m1 of (m2, vs) \<Rightarrow> (m2, us @ vs)))"

fun added :: "module_op list \<Rightarrow> nat list" where
  "added [] = []"
| "added (Add p # ops) = p # added ops"
| "added (op # ops) = added ops"

text \<open>The abstract registry: a finite map from identifiers to modules.\<close>

fun spec_exec :: "(nat \<Rightarrow> module) \<Rightarrow> module_op \<Rightarrow> (string \<rightharpoonup> nat) \<Rightarrow> (string \<rightharpoonup> nat)" where
  "spec_exec obj (Add p) a = a(md_id (obj p) \<mapsto> p)"
| "spec_exec obj (Del name) a = a(name := None)"
| "spec_exec obj Del_all a = Map.empty"

lemma module_exec_effect:
  assumes "mods_ok obj m" and "module_exec obj op m = (m1, vs)"
  shows "mods_ok obj m1 \<and> map_of (mm_modules m1) = spec_exec obj op (map_of (mm_modules m))
    \<and> present m + mset (added [op]) = present m1 + mset vs"
proof (cases op)
  case (Add p)
  with mm_add_effect [OF assms(1), of p m1 vs] assms(2) show ?thesis by simp
next
  case (Del name)
  with mm_del_effect [OF assms(1), of name m1 vs] assms(2) show ?thesis by simp
next
  case Del_all
  with mm_delAll_effect [OF assms(1), of m1 vs] assms(2) show ?thesis by (simp add: present_modules)
qed

lemma module_run_effect:
  "mods_ok obj m \<Longrightarrow> module_run obj ops m = (m', us) \<Longrightarrow>
   mods_ok obj m' \<and> map_of (mm_modules m') = fold (spec_exec obj) ops (map_of (mm_modules m))
   \<and> present m + mset (added ops) = present m' + mset us"
proof (induction ops arbitrary: m m' us)
  case (Cons op ops)
  obtain m1 vs where e: "module_exec obj op m = (m1, vs)" by (cases "module_exec obj op m")
  obtain m2 ws where r: "module_run obj ops m1 = (m2, ws)" by (cases "module_run obj ops m1")
  note E = module_exec_effect [OF Cons.prems(1) e, THEN conjunct1] module_exec_effect [OF Cons.prems(1) e]
  have a: "mset (added (op # ops)) = mset (added [op]) + mset (added ops)" by (cases op) simp_all
  have "m' = m2" and us: "us = vs @ ws" using Cons.prems(2) by (auto simp: e r)
  with Cons.IH [OF E(1) r] E(2) have I: "mods_ok obj m'" "present m1 + mset (added ops) = present m' + mset ws"
    "map_of (mm_modules m') = fold (spec_exec obj) (op # ops) (map_of (mm_modules m))" by simp_all
  have "present m + mset (added (op # ops)) = (present m1 + mset vs) + mset (added ops)"
    unfolding a using E(2) by (metis add.assoc)
  also have "\<dots> = present m' + mset us" using I(2) by (simp add: us ac_simps)
  finally show ?case using I by simp
qed simp

text \<open>
  C36. The registry is a map whose two indices agree: over any sequence of additions and removals it
  finds by identifier what a plain map would; it lists under a type exactly the modules that have
  it, each once; and every module that was added is either registered or was unloaded, once for
  each time it was added.\<close>

theorem registry_indices_agree:
  assumes "module_run obj ops ModuleManager_new = (m, unloaded)"
  shows "(\<forall>name. mm_get name m = fold (spec_exec obj) ops Map.empty name)
    \<and> (\<forall>t. mset (listByType t m []) = {# p \<in># mset (listAll m []). md_type (obj p) = t #})
    \<and> mset (added ops) = mset (listAll m []) + mset unloaded"
proof -
  note R = module_run_effect [OF mods_ok_new assms]
  have ok: "mods_ok obj m" using R by simp
  have d: "distinct (map fst (mm_modules m))" "distinct (map fst (of_type t m))" for t
    using ok of_type_distinct [OF ok] by (auto simp: mods_ok_def)
  have "mset (map snd (of_type t m)) = {# p \<in># mset (map snd (mm_modules m)). md_type (obj p) = t #}" for t
  proof -
    let ?f = "filter (\<lambda>x. md_type (obj (snd x)) = t) (mm_modules m)"
    have "(i, p) \<in> set (of_type t m) \<longleftrightarrow> (i, p) \<in> set ?f" for i p
    proof -
      have "(i, p) \<in> set (of_type t m) \<longleftrightarrow> map_of (of_type t m) i = Some p" by (rule map_of_eq_Some_iff [OF d(2), symmetric])
      also have "\<dots> \<longleftrightarrow> map_of (mm_modules m) i = Some p \<and> md_type (obj p) = t" using ok by (simp add: mods_ok_def)
      also have "\<dots> \<longleftrightarrow> (i, p) \<in> set ?f" by (simp add: map_of_eq_Some_iff [OF d(1)])
      finally show ?thesis .
    qed
    then have "set (of_type t m) = set ?f" by auto
    moreover have "distinct (of_type t m)" "distinct ?f"
      using d [THEN distinct_map [THEN iffD1]] by simp_all
    ultimately have "mset (of_type t m) = mset ?f" by (metis set_eq_iff_mset_eq_distinct)
    then have "mset (map snd (of_type t m)) = mset (map snd ?f)" by (metis mset_map)
    also have "map snd ?f = filter (\<lambda>p. md_type (obj p) = t) (map snd (mm_modules m))"
      by (simp add: filter_map comp_def)
    finally show ?thesis by (simp only: mset_filter)
  qed
  moreover have "listByType t m [] = map snd (of_type t m)" for t
    by (simp add: listByType_def of_type_def split: option.splits)
  ultimately show ?thesis
    using R by (simp add: mm_get_def listAll_def present_def ModuleManager_new_def)
qed

lemma registry_indices_agree_witness:
  "mset (added [Add 0, Add 1, Del ''a/1''])
   = mset (listAll (fst (module_run (\<lambda>p. Module_new ''a'' ''1'' [] (of_nat p)) [Add 0, Add 1, Del ''a/1''] ModuleManager_new)) [])
     + mset (snd (module_run (\<lambda>p. Module_new ''a'' ''1'' [] (of_nat p)) [Add 0, Add 1, Del ''a/1''] ModuleManager_new))"
  using registry_indices_agree [OF prod.collapse [symmetric],
      of "\<lambda>p. Module_new ''a'' ''1'' [] (of_nat p)" "[Add 0, Add 1, Del ''a/1'']"] by blast

section \<open>Two additions at once\<close>

text \<open>
  \<open>add\<close> takes the lock twice. When two threads add modules with one identifier and different types,
  both removals may come before both insertions: then the first module stays listed under its type
  although it is not registered, and no removal of the identifier takes it out.
\<close>

lemma interleaved_adds_leave_a_stale_entry:
  assumes "md_id (obj p) = md_id (obj q)" and "md_type (obj p) \<noteq> md_type (obj q)" and "p \<noteq> q"
    and "m = add_locked obj q (add_locked obj p ModuleManager_new)"
  shows "p \<notin> set (listAll m [])" and "p \<in> set (listByType (md_type (obj p)) (fst (mm_del obj (md_id (obj q)) m)) [])"
  using assms
  by (simp_all add: listAll_def listByType_def add_locked_def ModuleManager_new_def of_type_def mm_del_def del_locked_def Let_def)

end
