(* ===== verification/Database.thy ===== *)
theory Database
  imports CNumbers Endian
begin

text \<open>
  The database access (database/field.h, database/double_d_array.h, database/mysql_control.h):
  values of a column, the two-dimensional array they are returned in, and the object that runs
  queries. The MySQL library is a parameter, its answer to a query an argument.
\<close>

section \<open>Field\<close>

text \<open>The block of memory of a value, with its terminating NUL when it holds text.\<close>

record field =
  fd_length :: u32
  fd_value :: "string option"
  fd_type :: nat
  fd_raw :: bool

definition MYSQL_TYPE_TINY :: nat where "MYSQL_TYPE_TINY = 1"
definition MYSQL_TYPE_SHORT :: nat where "MYSQL_TYPE_SHORT = 2"
definition MYSQL_TYPE_LONG :: nat where "MYSQL_TYPE_LONG = 3"
definition MYSQL_TYPE_FLOAT :: nat where "MYSQL_TYPE_FLOAT = 4"
definition MYSQL_TYPE_DOUBLE :: nat where "MYSQL_TYPE_DOUBLE = 5"
definition MYSQL_TYPE_NULL :: nat where "MYSQL_TYPE_NULL = 6"
definition MYSQL_TYPE_TIMESTAMP :: nat where "MYSQL_TYPE_TIMESTAMP = 7"
definition MYSQL_TYPE_LONGLONG :: nat where "MYSQL_TYPE_LONGLONG = 8"
definition MYSQL_TYPE_INT24 :: nat where "MYSQL_TYPE_INT24 = 9"

definition Field_new :: field where
  "Field_new = \<lparr>fd_length = 0, fd_value = None, fd_type = MYSQL_TYPE_NULL, fd_raw = False\<rparr>"

definition CleanUp :: "field \<Rightarrow> field" where
  "CleanUp f = f\<lparr>fd_value := None\<rparr>"

text \<open>The parameter for the length hides the member, which keeps its value.\<close>

definition SetByteValue :: "string option \<Rightarrow> nat \<Rightarrow> nat \<Rightarrow> u32 \<Rightarrow> field \<Rightarrow> field res" where
  "SetByteValue newValue newSize newType len f =
     (let f1 = (if fd_value f \<noteq> None then CleanUp f else f) in
      case newValue of
        None \<Rightarrow> Inr (f1\<lparr>fd_type := newType, fd_raw := True\<rparr>)
      | Some bytes \<Rightarrow>
          (if length bytes < newSize then Inl BadAccess
           else Inr (f1\<lparr>fd_value := Some (take newSize bytes), fd_type := newType, fd_raw := True\<rparr>)))"

text \<open>\<open>newValue\<close> is a text with its NUL, or null.\<close>

definition SetStructuredValue :: "string option \<Rightarrow> nat \<Rightarrow> field \<Rightarrow> field res" where
  "SetStructuredValue newValue newType f =
     (let f1 = (if fd_value f \<noteq> None then CleanUp f else f) in
      case newValue of
        None \<Rightarrow> Inr (f1\<lparr>fd_type := newType, fd_raw := False\<rparr>)
      | Some bytes \<Rightarrow>
          (if CHR 0x00 \<notin> set bytes then Inl BadAccess
           else Inr (f1\<lparr>fd_value := Some (c_str bytes @ [CHR 0x00]), fd_length := of_nat (length (c_str bytes)),
                        fd_type := newType, fd_raw := False\<rparr>)))"

text \<open>The copy constructor, and assignment, which forgets the old block without freeing it.\<close>

definition Field_copy :: "field \<Rightarrow> field res" where
  "Field_copy other =
     (if fd_raw other then SetByteValue (fd_value other) (unat (fd_length other)) (fd_type other) (fd_length other) Field_new
      else SetStructuredValue (fd_value other) (fd_type other) Field_new)"

definition Field_assign :: "bool \<Rightarrow> field \<Rightarrow> field \<Rightarrow> field res" where
  "Field_assign same other f = (if same then Inr f else Field_copy other)"

subsection \<open>Reading\<close>

text \<open>The bytes of the block in the memory order of the host, or the number its text starts with.\<close>

definition raw_word :: "byte_order \<Rightarrow> nat \<Rightarrow> string \<Rightarrow> 'a::len word res" where
  "raw_word host n block =
     (if length block < n then Inl BadAccess else Inr (mem_word host (map of_char (take n block))))"

definition text_number :: "string \<Rightarrow> int res" where
  "text_number block = (if CHR 0x00 \<in> set block then Inr (atol block) else Inl BadAccess)"

definition get_number :: "byte_order \<Rightarrow> nat \<Rightarrow> field \<Rightarrow> 'a::len word res" where
  "get_number host n f =
     (case fd_value f of
        None \<Rightarrow> Inr 0
      | Some block \<Rightarrow> (if fd_raw f then raw_word host n block else mapR word_of_int (text_number block)))"

definition GetUInt8 :: "byte_order \<Rightarrow> field \<Rightarrow> u8 res" where "GetUInt8 host f = get_number host 1 f"
definition GetUInt16 :: "byte_order \<Rightarrow> field \<Rightarrow> u16 res" where "GetUInt16 host f = get_number host 2 f"
definition GetUInt32 :: "byte_order \<Rightarrow> field \<Rightarrow> u32 res" where "GetUInt32 host f = get_number host 4 f"
definition GetUInt64 :: "byte_order \<Rightarrow> field \<Rightarrow> u64 res" where "GetUInt64 host f = get_number host 8 f"

definition GetInt8 :: "byte_order \<Rightarrow> field \<Rightarrow> int res" where
  "GetInt8 host f = mapR sint (get_number host 1 f :: u8 res)"
definition GetInt16 :: "byte_order \<Rightarrow> field \<Rightarrow> int res" where
  "GetInt16 host f = mapR sint (get_number host 2 f :: u16 res)"
definition GetInt32 :: "byte_order \<Rightarrow> field \<Rightarrow> int res" where
  "GetInt32 host f = mapR sint (get_number host 4 f :: u32 res)"
definition GetInt64 :: "byte_order \<Rightarrow> field \<Rightarrow> int res" where
  "GetInt64 host f = mapR sint (get_number host 8 f :: u64 res)"

definition GetBool :: "byte_order \<Rightarrow> field \<Rightarrow> bool res" where
  "GetBool host f = mapR (\<lambda>v. v = 1) (GetUInt8 host f)"

text \<open>Floating-point values are their bit patterns; \<open>atof\<close> is a parameter.\<close>

definition get_float :: "(string \<Rightarrow> 'a::len word) \<Rightarrow> byte_order \<Rightarrow> nat \<Rightarrow> field \<Rightarrow> 'a word res" where
  "get_float atof host n f =
     (case fd_value f of
        None \<Rightarrow> Inr 0
      | Some block \<Rightarrow>
          (if fd_raw f then raw_word host n block
           else if CHR 0x00 \<in> set block then Inr (atof (c_str block)) else Inl BadAccess))"

definition GetFloat :: "(string \<Rightarrow> u32) \<Rightarrow> byte_order \<Rightarrow> field \<Rightarrow> u32 res" where
  "GetFloat atof host f = get_float atof host 4 f"
definition GetDouble :: "(string \<Rightarrow> u64) \<Rightarrow> byte_order \<Rightarrow> field \<Rightarrow> u64 res" where
  "GetDouble atof host f = get_float atof host 8 f"

definition GetCString :: "field \<Rightarrow> string option" where "GetCString f = fd_value f"

definition Field_GetString :: "field \<Rightarrow> string res" where
  "Field_GetString f =
     (case fd_value f of
        None \<Rightarrow> Inr []
      | Some block \<Rightarrow>
          (if fd_raw f
           then (if length block < unat (fd_length f) then Inl BadAccess else Inr (take (unat (fd_length f)) block))
           else if CHR 0x00 \<in> set block then Inr (c_str block) else Inl BadAccess))"

definition IsNull :: "field \<Rightarrow> bool" where "IsNull f \<longleftrightarrow> fd_value f = None"

text \<open>The parameter is compared with itself.\<close>

definition IsType :: "nat \<Rightarrow> field \<Rightarrow> bool" where "IsType type f \<longleftrightarrow> type = type"

definition IsNumeric :: "field \<Rightarrow> bool" where
  "IsNumeric f \<longleftrightarrow> fd_type f \<in> {MYSQL_TYPE_TINY, MYSQL_TYPE_SHORT, MYSQL_TYPE_INT24, MYSQL_TYPE_LONG,
     MYSQL_TYPE_FLOAT, MYSQL_TYPE_DOUBLE, MYSQL_TYPE_LONGLONG}"

text \<open>The other type codes of the library's header.\<close>

definition SizeForType :: "nat \<Rightarrow> nat \<Rightarrow> nat \<Rightarrow> nat" where
  "SizeForType sizeof_MYSQL_TIME type max_length =
     (if type = MYSQL_TYPE_NULL then 0
      else if type = MYSQL_TYPE_TINY then 1
      else if type = 13 \<or> type = MYSQL_TYPE_SHORT then 2
      else if type = MYSQL_TYPE_INT24 \<or> type = MYSQL_TYPE_LONG \<or> type = MYSQL_TYPE_FLOAT then 4
      else if type = MYSQL_TYPE_DOUBLE \<or> type = MYSQL_TYPE_LONGLONG \<or> type = 16 then 8
      else if type = MYSQL_TYPE_TIMESTAMP \<or> type = 10 \<or> type = 11 \<or> type = 12 then sizeof_MYSQL_TIME
      else if type \<in> {249, 250, 251, 252, 253, 254} then max_length + 1
      else if type = 0 \<or> type = 246 then 64
      else 0)"

section \<open>DoubleDArray\<close>

text \<open>
  The pointer to the elements and the flag may hold no value yet. \<open>dflt\<close> is what a new element is,
  and \<open>copy\<close> what assigning or returning one does.
\<close>

datatype 'a elements = Unset | Null | Block "'a list"

record 'a darray =
  da_init :: "bool option"
  da_array :: "'a elements"
  da_row :: int
  da_column :: int

definition DoubleDArray_new :: "'a darray" where
  "DoubleDArray_new = \<lparr>da_init = Some False, da_array = Null, da_row = 0, da_column = 0\<rparr>"

definition InitArray :: "'a \<Rightarrow> int \<Rightarrow> int \<Rightarrow> 'a darray \<Rightarrow> 'a darray res" where
  "InitArray dflt row column d =
     (if da_array d = Unset then Inl Indeterminate
      else if row * column < - (2 ^ 31) \<or> 2 ^ 31 \<le> row * column then Inl UndefinedArith
      else if row * column < 0 then Inl BadAlloc
      else Inr \<lparr>da_init = Some True, da_array = Block (replicate (nat (row * column)) dflt), da_row = row, da_column = column\<rparr>)"

text \<open>The constructor with a size makes another object and throws it away; its own members stay unset.\<close>

definition DoubleDArray_sized :: "'a \<Rightarrow> int \<Rightarrow> int \<Rightarrow> 'a darray res" where
  "DoubleDArray_sized dflt row column =
     InitArray dflt row column \<lparr>da_init = None, da_array = Unset, da_row = 0, da_column = 0\<rparr>"

definition ClearArray :: "'a darray \<Rightarrow> 'a darray res" where
  "ClearArray d =
     (case da_init d of
        None \<Rightarrow> Inl Indeterminate
      | Some False \<Rightarrow> Inr d
      | Some True \<Rightarrow> Inr \<lparr>da_init = Some False, da_array = Null, da_row = 0, da_column = 0\<rparr>)"

fun all_copied :: "('a \<Rightarrow> 'a res) \<Rightarrow> 'a list \<Rightarrow> 'a list res" where
  "all_copied copy [] = Inr []"
| "all_copied copy (x # xs) = bindR (copy x) (\<lambda>y. mapR (\<lambda>ys. y # ys) (all_copied copy xs))"

definition CloneArray :: "'a \<Rightarrow> ('a \<Rightarrow> 'a res) \<Rightarrow> 'a darray \<Rightarrow> 'a darray \<Rightarrow> 'a darray res" where
  "CloneArray dflt copy other d =
     bindR (ClearArray d) (\<lambda>d1.
       case da_init other of
         None \<Rightarrow> Inl Indeterminate
       | Some False \<Rightarrow> Inr d1
       | Some True \<Rightarrow>
           bindR (InitArray dflt (da_row other) (da_column other) d1) (\<lambda>d2.
             case da_array other of
               Block xs \<Rightarrow> mapR (\<lambda>ys. d2\<lparr>da_array := Block ys\<rparr>) (all_copied copy xs)
             | _ \<Rightarrow> Inl NullDeref))"

definition DoubleDArray_copy :: "'a \<Rightarrow> ('a \<Rightarrow> 'a res) \<Rightarrow> 'a darray \<Rightarrow> 'a darray res" where
  "DoubleDArray_copy dflt copy other =
     CloneArray dflt copy other \<lparr>da_init = None, da_array = Null, da_row = 0, da_column = 0\<rparr>"

definition DoubleDArray_assign :: "'a \<Rightarrow> ('a \<Rightarrow> 'a res) \<Rightarrow> bool \<Rightarrow> 'a darray \<Rightarrow> 'a darray \<Rightarrow> 'a darray res" where
  "DoubleDArray_assign dflt copy same other d = (if same then Inr d else CloneArray dflt copy other d)"

definition GetIndex :: "int \<Rightarrow> int \<Rightarrow> 'a darray \<Rightarrow> int res" where
  "GetIndex row column d =
     (case da_init d of
        None \<Rightarrow> Inl Indeterminate
      | Some initialised \<Rightarrow>
          bindR (assertR initialised AssertFailed) (\<lambda>_.
          bindR (assertR (column < da_column d) AssertFailed) (\<lambda>_.
          bindR (assertR (row < da_row d) AssertFailed) (\<lambda>_.
            let index = row * da_column d + column in
            if index < - (2 ^ 31) \<or> 2 ^ 31 \<le> index then Inl UndefinedArith else Inr index))))"

definition SetValue_at :: "('a \<Rightarrow> 'a res) \<Rightarrow> int \<Rightarrow> 'a \<Rightarrow> 'a darray \<Rightarrow> 'a darray res" where
  "SetValue_at copy index value d =
     (case da_array d of
        Block xs \<Rightarrow>
          (if 0 \<le> index \<and> nat index < length xs
           then mapR (\<lambda>v. d\<lparr>da_array := Block (xs[nat index := v])\<rparr>) (copy value) else Inl BadAccess)
      | Null \<Rightarrow> Inl NullDeref
      | Unset \<Rightarrow> Inl Indeterminate)"

definition SetValue :: "('a \<Rightarrow> 'a res) \<Rightarrow> int \<Rightarrow> int \<Rightarrow> 'a \<Rightarrow> 'a darray \<Rightarrow> 'a darray res" where
  "SetValue copy row column value d = bindR (GetIndex row column d) (\<lambda>index. SetValue_at copy index value d)"

definition GetValue :: "('a \<Rightarrow> 'a res) \<Rightarrow> int \<Rightarrow> int \<Rightarrow> 'a darray \<Rightarrow> 'a res" where
  "GetValue copy row column d =
     bindR (GetIndex row column d) (\<lambda>index.
       case da_array d of
         Block xs \<Rightarrow> (if 0 \<le> index \<and> nat index < length xs then copy (xs ! nat index) else Inl BadAccess)
       | Null \<Rightarrow> Inl NullDeref
       | Unset \<Rightarrow> Inl Indeterminate)"

end
