(* ===== verification/Mysql.thy ===== *)
theory Mysql
  imports Database
begin

text \<open>
  The object that runs queries (database/mysql_control.h). What the library answers to a statement
  is an argument: an error, or the number of affected rows with, for a query, its columns and rows.
  The texts of the library's own error log are not kept.
\<close>

section \<open>State\<close>

record query_rows =
  qr_fields :: "(string \<times> nat) list"
  qr_rows :: "string option list list"

datatype reply = Sql_error | Done int "query_rows option"

datatype log_kind = CONTROL_INFO | CONTROL_ERROR

record mysql_control =
  mc_connection :: bool
  mc_connected :: bool
  mc_result :: "query_rows option"
  mc_field :: "nat list"
  mc_row_count :: int
  mc_column_count :: int
  mc_sql :: string
  mc_log :: "(log_kind \<times> string \<times> string) list"

definition MysqlControl_new :: mysql_control where
  "MysqlControl_new =
     \<lparr>mc_connection = True, mc_connected = False, mc_result = None, mc_field = [],
      mc_row_count = 0, mc_column_count = 0, mc_sql = [], mc_log = []\<rparr>"

definition OutputLog :: "log_kind \<Rightarrow> string \<Rightarrow> mysql_control \<Rightarrow> mysql_control" where
  "OutputLog kind msg m = m\<lparr>mc_log := mc_log m @ [(kind, msg, mc_sql m)]\<rparr>"

section \<open>Connection\<close>

text \<open>\<open>ok\<close> tells whether the library connected; a failure loses the handle.\<close>

definition RealConnect :: "bool \<Rightarrow> mysql_control \<Rightarrow> bool \<times> mysql_control" where
  "RealConnect ok m =
     (if mc_connected m then (True, m)
      else if \<not> ok then (False, OutputLog CONTROL_ERROR ''real connect fail'' (m\<lparr>mc_connection := False\<rparr>))
      else (True, (OutputLog CONTROL_INFO ''real connect success'' (m\<lparr>mc_connection := True\<rparr>))\<lparr>mc_connected := True\<rparr>))"

definition ChangeUser :: "int \<Rightarrow> mysql_control \<Rightarrow> (bool \<times> mysql_control) res" where
  "ChangeUser res m =
     bindR (assertR (mc_connected m) AssertFailed) (\<lambda>_.
       Inr (if res \<noteq> 0 then (False, OutputLog CONTROL_ERROR ''change user fail'' m)
            else (True, OutputLog CONTROL_INFO ''change user success'' m)))"

definition ClearResult :: "mysql_control \<Rightarrow> mysql_control" where
  "ClearResult m =
     (if mc_result m = None then m else m\<lparr>mc_result := None, mc_row_count := 0, mc_column_count := 0\<rparr>)"

section \<open>Queries\<close>

text \<open>
  \<open>StringFormat\<close> as the queries call it: the list of their own arguments is passed as if it were the
  first of them, so any conversion but the percent sign reads what is not there.
\<close>

fun format_sql :: "string \<Rightarrow> string res" where
  "format_sql [] = Inr []"
| "format_sql (c # cs) =
     (if c \<noteq> CHR 0x25 then mapR (\<lambda>t. c # t) (format_sql cs)
      else (case cs of
              [] \<Rightarrow> Inl Indeterminate
            | d # ds \<Rightarrow> if d = CHR 0x25 then mapR (\<lambda>t. CHR 0x25 # t) (format_sql ds) else Inl Indeterminate))"

definition Query :: "(string \<Rightarrow> reply) \<Rightarrow> string \<Rightarrow> mysql_control \<Rightarrow> (int \<times> mysql_control) res" where
  "Query server order m =
     bindR (assertR (mc_connected m) AssertFailed) (\<lambda>_.
     bindR (format_sql (c_str order)) (\<lambda>sql.
       let m1 = m\<lparr>mc_sql := sql\<rparr> in
       Inr (case server sql of
              Sql_error \<Rightarrow> (-1, OutputLog CONTROL_ERROR ''sql error'' m1)
            | Done affected rows \<Rightarrow> (affected, OutputLog CONTROL_INFO ''query sql'' m1))))"

text \<open>A statement without a result leaves a null pointer, which the next call looks into.\<close>

definition QueryAndStore :: "(string \<Rightarrow> reply) \<Rightarrow> string \<Rightarrow> mysql_control \<Rightarrow> (int \<times> mysql_control) res" where
  "QueryAndStore server order m =
     bindR (assertR (mc_connected m) AssertFailed) (\<lambda>_.
     bindR (format_sql (c_str order)) (\<lambda>sql.
       let m1 = (ClearResult m)\<lparr>mc_sql := sql\<rparr> in
       case server sql of
         Sql_error \<Rightarrow> Inr (-1, OutputLog CONTROL_ERROR ''sql error'' m1)
       | Done affected rows \<Rightarrow>
           (case rows of
              None \<Rightarrow> Inl NullDeref
            | Some r \<Rightarrow>
                (let n = sint (word_of_int (int (length (qr_rows r))) :: 32 word) in
                 Inr (n, (OutputLog CONTROL_INFO ''query sql'' m1)
                      \<lparr>mc_result := Some r, mc_field := map snd (qr_fields r), mc_row_count := n,
                       mc_column_count := sint (word_of_int (int (length (qr_fields r))) :: 32 word)\<rparr>)))))"

section \<open>Results\<close>

text \<open>A value as the library hands it out, with a NUL behind it.\<close>

definition cell_text :: "string option \<Rightarrow> string option" where
  "cell_text v = map_option (\<lambda>t. t @ [CHR 0x00]) v"

definition GetOneNode :: "int \<Rightarrow> int \<Rightarrow> mysql_control \<Rightarrow> field res" where
  "GetOneNode row column m =
     (case mc_result m of
        None \<Rightarrow> Inr Field_new
      | Some r \<Rightarrow>
          (if row \<ge> mc_row_count m \<or> column \<ge> mc_column_count m then Inr Field_new
           else if row < 0 then Inl NullDeref
           else if column < 0 then Inl BadAccess
           else SetStructuredValue (cell_text (qr_rows r ! nat row ! nat column)) (mc_field m ! nat column) Field_new))"

text \<open>The loops over the columns of a row, each with its type, and over the rows.\<close>

fun fill_cells :: "int \<Rightarrow> int \<Rightarrow> (string option \<times> nat) list \<Rightarrow> field darray \<Rightarrow> field darray res" where
  "fill_cells i j [] data = Inr data"
| "fill_cells i j ((v, type) # cs) data =
     bindR (SetStructuredValue (cell_text v) type Field_new) (\<lambda>f.
     bindR (SetValue Field_copy i j f data) (fill_cells i (j + 1) cs))"

fun fill_rows :: "nat list \<Rightarrow> int \<Rightarrow> string option list list \<Rightarrow> field darray \<Rightarrow> field darray res" where
  "fill_rows types i [] data = Inr data"
| "fill_rows types i (r # rs) data = bindR (fill_cells i 0 (zip r types) data) (fill_rows types (i + 1) rs)"

definition GetAllResult :: "field darray \<Rightarrow> mysql_control \<Rightarrow> field darray res" where
  "GetAllResult data m =
     bindR (ClearArray data) (\<lambda>d.
       case mc_result m of
         None \<Rightarrow> Inr d
       | Some r \<Rightarrow>
           bindR (InitArray Field_new (mc_row_count m) (mc_column_count m) d) (fill_rows (mc_field m) 0 (qr_rows r)))"

definition GetOneResult :: "field darray \<Rightarrow> int \<Rightarrow> mysql_control \<Rightarrow> field darray res" where
  "GetOneResult data row m =
     bindR (ClearArray data) (\<lambda>d.
       case mc_result m of
         None \<Rightarrow> Inr d
       | Some r \<Rightarrow>
           (if row \<ge> mc_row_count m then Inr d
            else bindR (InitArray Field_new 1 (mc_column_count m) d) (\<lambda>d1.
                   if row < 0 then Inl NullDeref else fill_cells 0 0 (zip (qr_rows r ! nat row) (mc_field m)) d1)))"

definition GetHeaderName :: "string list \<Rightarrow> mysql_control \<Rightarrow> string list" where
  "GetHeaderName vec m = (case mc_result m of None \<Rightarrow> vec | Some r \<Rightarrow> map fst (qr_fields r))"

end
