(* ===== verification/Database_Props.thy ===== *)
theory Database_Props
  imports Mysql
begin

text \<open>What a field gives back, that the cells of an array do not alias, and that stored results come back.\<close>

section \<open>Fields\<close>

lemma c_str_twice [simp]: "c_str (c_str s) = c_str s"
  unfolding c_str_def by (induction s) (auto dest: set_takeWhileD)

lemma c_str_append_nul [simp]: "c_str (s @ [CHR 0x00]) = c_str s"
  unfolding c_str_def by (induction s) auto

text \<open>The field a column's value becomes.\<close>

definition cell :: "string option \<times> nat \<Rightarrow> field" where
  "cell c = (case c of
      (None, type) \<Rightarrow> Field_new\<lparr>fd_type := type\<rparr>
    | (Some t, type) \<Rightarrow> \<lparr>fd_length = of_nat (length (c_str t)), fd_value = Some (c_str t @ [CHR 0x00]), fd_type = type, fd_raw = False\<rparr>)"

lemma set_cell: "SetStructuredValue (cell_text v) type Field_new = Inr (cell (v, type))"
  by (cases v) (simp_all add: SetStructuredValue_def cell_text_def cell_def Field_new_def)

lemma copy_cell [simp]: "Field_copy (cell c) = Inr (cell c)"
  by (cases c; cases "fst c") (simp_all add: Field_copy_def SetStructuredValue_def cell_def Field_new_def)

definition text_of_cell :: "string option \<Rightarrow> string" where
  "text_of_cell v = (case v of None \<Rightarrow> [] | Some t \<Rightarrow> c_str t)"

lemma cell_string: "Field_GetString (cell (v, type)) = Inr (text_of_cell v)"
  by (cases v) (simp_all add: Field_GetString_def cell_def Field_new_def text_of_cell_def)

text \<open>A number that was stored as text is read back in every type it fits.\<close>

lemma cell_number:
  assumes "- (2 ^ 63) \<le> i" and "i < 2 ^ 63"
  shows "get_number host n (cell (Some (show_int i), type)) = Inr (word_of_int i)"
proof -
  have "atol (show_int i @ [CHR 0x00]) = atol (show_int i)" by (simp add: atol_def)
  then show ?thesis using atol_show [OF assms] by (simp add: get_number_def cell_def text_number_def)
qed

text \<open>
  A copy of a raw field keeps no byte of its value: its length was never set, so nothing is copied,
  and every reader of a number then looks behind the end of the block.
\<close>

lemma raw_copy_loses_the_value:
  assumes "SetByteValue (Some bytes) n type len Field_new = Inr f"
  shows "\<exists>g. Field_copy f = Inr g \<and> fd_value g = Some [] \<and> GetUInt8 host g = Inl BadAccess
    \<and> Field_GetString f = Inr []"
  using assms
  by (auto simp: SetByteValue_def Field_new_def Field_copy_def GetUInt8_def get_number_def raw_word_def
      Field_GetString_def split: if_splits)

section \<open>Arrays\<close>

text \<open>An array of \<open>r\<close> rows and \<open>c\<close> columns with the elements \<open>xs\<close>, row after row.\<close>

definition holds :: "nat \<Rightarrow> nat \<Rightarrow> 'a list \<Rightarrow> 'a darray \<Rightarrow> bool" where
  "holds r c xs d \<longleftrightarrow>
     da_init d = Some True \<and> da_array d = Block xs \<and> da_row d = int r \<and> da_column d = int c
     \<and> length xs = r * c \<and> r * c < 2 ^ 31"

lemma cell_index: "i < r \<Longrightarrow> j < c \<Longrightarrow> i * c + j < r * (c::nat)"
proof -
  assume "i < r" "j < c"
  then have "i * c + j < (i + 1) * c" by simp
  also have "\<dots> \<le> r * c" using \<open>i < r\<close> by (intro mult_le_mono) simp_all
  finally show ?thesis .
qed

lemma cell_index_inj:
  assumes "j < c" and "j' < c"
  shows "i * c + j = i' * c + j' \<longleftrightarrow> i = i' \<and> j = (j'::nat)"
proof
  assume "i * c + j = i' * c + j'"
  then have "(i * c + j) div c = (i' * c + j') div c" "(i * c + j) mod c = (i' * c + j') mod c" by simp_all
  then show "i = i' \<and> j = j'" using assms by simp
qed simp

lemma InitArray_holds:
  assumes "da_array d \<noteq> Unset" and "r * c < 2 ^ 31"
  shows "\<exists>d'. InitArray dflt (int r) (int c) d = Inr d' \<and> holds r c (replicate (r * c) dflt) d'"
proof -
  have "int r * int c = int (r * c)" by simp
  moreover have "int (r * c) < 2 ^ 31" using assms(2) by (metis of_nat_less_iff of_nat_numeral of_nat_power)
  ultimately show ?thesis using assms by (auto simp: InitArray_def holds_def nat_mult_distrib simp del: of_nat_mult)
qed

lemma GetIndex_holds:
  assumes "holds r c xs d" and "i < r" and "j < c"
  shows "GetIndex (int i) (int j) d = Inr (int (i * c + j))"
proof -
  have "i * c + j < 2 ^ 31" using cell_index [OF assms(2,3)] assms(1) by (simp add: holds_def)
  then have "int (i * c + j) < 2 ^ 31" by (metis of_nat_less_iff of_nat_numeral of_nat_power)
  moreover have "int (i * c + j) = int i * int c + int j" by simp
  moreover have "\<not> int (i * c + j) < - (2 ^ 31)"
    unfolding not_less by (rule order_trans [OF _ of_nat_0_le_iff]) simp
  ultimately show ?thesis using assms by (simp add: GetIndex_def holds_def Let_def del: of_nat_add of_nat_mult)
qed

lemma SetValue_holds:
  assumes "holds r c xs d" and "i < r" and "j < c" and "copy v = Inr w"
  shows "\<exists>d'. SetValue copy (int i) (int j) v d = Inr d' \<and> holds r c (xs[i * c + j := w]) d'"
  using assms cell_index [OF assms(2,3)]
  by (auto simp: SetValue_def GetIndex_holds [OF assms(1-3)] SetValue_at_def holds_def nat_add_distrib nat_mult_distrib
      simp del: of_nat_add of_nat_mult)

lemma GetValue_holds:
  assumes "holds r c xs d" and "i < r" and "j < c"
  shows "GetValue copy (int i) (int j) d = copy (xs ! (i * c + j))"
  using assms cell_index [OF assms(2,3)]
  by (simp add: GetValue_def GetIndex_holds [OF assms] holds_def del: of_nat_add of_nat_mult)


fun set_all :: "('a \<Rightarrow> 'a res) \<Rightarrow> (nat \<times> nat \<times> 'a) list \<Rightarrow> 'a darray \<Rightarrow> 'a darray res" where
  "set_all copy [] d = Inr d"
| "set_all copy ((i, j, v) # ws) d = bindR (SetValue copy (int i) (int j) v d) (set_all copy ws)"

definition latest :: "nat \<Rightarrow> nat \<Rightarrow> (nat \<times> nat \<times> 'a) list \<Rightarrow> 'a \<Rightarrow> 'a" where
  "latest i j ws x = foldl (\<lambda>x (i', j', v). if i' = i \<and> j' = j then v else x) x ws"

lemma set_all_holds:
  assumes "\<And>v. copy v = Inr v"
  shows "holds r c xs d \<Longrightarrow> \<forall>(i, j, v) \<in> set ws. i < r \<and> j < c \<Longrightarrow>
   \<exists>d' ys. set_all copy ws d = Inr d' \<and> holds r c ys d'
     \<and> (\<forall>i < r. \<forall>j < c. ys ! (i * c + j) = latest i j ws (xs ! (i * c + j)))"
proof (induction ws arbitrary: d xs)
  case Nil
  then show ?case by (auto simp: latest_def)
next
  case (Cons w ws)
  obtain i j v where w: "w = (i, j, v)" by (cases w)
  with Cons.prems have ij: "i < r" "j < c" by auto
  obtain d1 where d1: "SetValue copy (int i) (int j) v d = Inr d1" "holds r c (xs[i * c + j := v]) d1"
    using SetValue_holds [of r c xs d i j copy v v, OF Cons.prems(1) ij assms] by blast
  obtain d' ys where N: "set_all copy ws d1 = Inr d'" "holds r c ys d'"
    "\<forall>i' < r. \<forall>j' < c. ys ! (i' * c + j') = latest i' j' ws (xs[i * c + j := v] ! (i' * c + j'))"
    using Cons.IH [OF d1(2)] Cons.prems(2) by auto
  have "length xs = r * c" using Cons.prems(1) by (simp add: holds_def)
  then have "xs[i * c + j := v] ! (i' * c + j') = (if i = i' \<and> j = j' then v else xs ! (i' * c + j'))"
    if "i' < r" "j' < c" for i' j'
    using that ij cell_index [OF that] cell_index_inj [of j c j' i i'] by (simp add: nth_list_update)
  then show ?case using N d1 by (auto simp: w latest_def)
qed

text \<open>
  Cells do not alias: in an array of any size below the range of an int, whatever values are
  stored into whatever cells, each cell then gives the last value stored into it, and the initial
  value when there was none; no access fails.\<close>

theorem cells_do_not_alias:
  assumes "da_array d0 \<noteq> Unset" and "r * c < 2 ^ 31" and "\<And>v. copy v = Inr v"
    and "\<forall>(i, j, v) \<in> set ws. i < r \<and> j < c"
  shows "\<exists>d1 d. InitArray dflt (int r) (int c) d0 = Inr d1 \<and> set_all copy ws d1 = Inr d
    \<and> (\<forall>i < r. \<forall>j < c. GetValue copy (int i) (int j) d = Inr (latest i j ws dflt))"
proof -
  obtain d1 where d1: "InitArray dflt (int r) (int c) d0 = Inr d1" "holds r c (replicate (r * c) dflt) d1"
    using InitArray_holds [OF assms(1,2)] by blast
  obtain d ys where D: "set_all copy ws d1 = Inr d" "holds r c ys d"
    "\<forall>i < r. \<forall>j < c. ys ! (i * c + j) = latest i j ws (replicate (r * c) dflt ! (i * c + j))"
    using set_all_holds [of copy, OF assms(3) d1(2) assms(4)] by blast
  have "GetValue copy (int i) (int j) d = Inr (latest i j ws dflt)" if "i < r" "j < c" for i j
    using that D(3) cell_index [OF that] by (simp add: GetValue_holds [OF D(2) that] assms(3))
  with d1(1) D(1) show ?thesis by blast
qed

lemma cells_do_not_alias_witness:
  "\<exists>d1 d. InitArray (0::int) (int 2) (int 3) DoubleDArray_new = Inr d1 \<and> set_all Inr [(1, 2, 7), (0, 2, 5)] d1 = Inr d
    \<and> (\<forall>i < 2. \<forall>j < 3. GetValue Inr (int i) (int j) d = Inr (latest i j [(1, 2, 7), (0, 2, 5)] 0))"
  by (rule cells_do_not_alias) (simp_all add: DoubleDArray_new_def)

section \<open>Results\<close>

lemma update_overwrite: "p < length xs \<Longrightarrow> xs[p := x] = overwrite p [x] xs"
  by (simp add: overwrite_def upd_conv_take_nth_drop)

lemma fill_cells_holds:
  "holds r c xs d \<Longrightarrow> i < r \<Longrightarrow> j + length cs \<le> c \<Longrightarrow>
   \<exists>d'. fill_cells (int i) (int j) cs d = Inr d' \<and> holds r c (overwrite (i * c + j) (map cell cs) xs) d'"
proof (induction cs arbitrary: d xs j)
  case (Cons x cs)
  obtain v t where x: "x = (v, t)" by (cases x)
  have j: "j < c" using Cons.prems by simp
  obtain d1 where d1: "SetValue Field_copy (int i) (int j) (cell x) d = Inr d1" "holds r c (xs[i * c + j := cell x]) d1"
    using SetValue_holds [where copy = Field_copy and v = "cell x" and w = "cell x", OF Cons.prems(1,2) j copy_cell] by blast
  have p: "i * c + j < length xs" using cell_index [OF Cons.prems(2) j] Cons.prems(1) by (simp add: holds_def)
  obtain d' where N: "fill_cells (int i) (int (j + 1)) cs d1 = Inr d'"
    "holds r c (overwrite (i * c + (j + 1)) (map cell cs) (xs[i * c + j := cell x])) d'"
    using Cons.IH [OF d1(2) Cons.prems(2), of "j + 1"] Cons.prems(3) by auto
  have "i * c + j + length [cell x] + length (map cell cs) \<le> length xs"
  proof -
    have "i * c + (j + length (x # cs)) \<le> i * c + c" using Cons.prems(3) by simp
    also have "\<dots> = (i + 1) * c" by simp
    also have "\<dots> \<le> r * c" using Cons.prems(2) by (intro mult_le_mono) simp_all
    finally show ?thesis using Cons.prems(1) by (simp add: holds_def)
  qed
  from overwrite_append [OF this]
  have "overwrite (i * c + (j + 1)) (map cell cs) (xs[i * c + j := cell x]) = overwrite (i * c + j) (map cell (x # cs)) xs"
    by (simp add: update_overwrite [OF p])
  moreover have "fill_cells (int i) (int j) (x # cs) d = fill_cells (int i) (int (j + 1)) cs d1"
    using d1(1) by (simp add: x set_cell add.commute)
  ultimately show ?case using N by simp
qed simp

lemma fill_rows_holds:
  "holds r c xs d \<Longrightarrow> i + length rs \<le> r \<Longrightarrow> uniform c rs \<Longrightarrow> length types = c \<Longrightarrow>
   \<exists>d'. fill_rows types (int i) rs d = Inr d'
     \<and> holds r c (overwrite (i * c) (concat (map (\<lambda>row. map cell (zip row types)) rs)) xs) d'"
proof (induction rs arbitrary: d xs i)
  case (Cons row rs)
  let ?g = "\<lambda>row. map cell (zip row types)"
  have i: "i < r" using Cons.prems by simp
  have len: "length (?g row) = c" using Cons.prems by simp
  obtain d1 where d1: "fill_cells (int i) (int 0) (zip row types) d = Inr d1" "holds r c (overwrite (i * c + 0) (?g row) xs) d1"
    using fill_cells_holds [OF Cons.prems(1) i, of 0 "zip row types"] Cons.prems by auto
  obtain d' where N: "fill_rows types (int (i + 1)) rs d1 = Inr d'"
    "holds r c (overwrite ((i + 1) * c) (concat (map ?g rs)) (overwrite (i * c + 0) (?g row) xs)) d'"
    using Cons.IH [OF d1(2), of "i + 1"] Cons.prems by auto
  have u: "uniform c (map ?g rs)" using Cons.prems by (auto simp: uniform_def)
  have "i * c + length (?g row) + length (concat (map ?g rs)) \<le> length xs"
  proof -
    have "length (concat (map ?g rs)) = length rs * c" using length_concat_uniform [OF u] by simp
    then have "i * c + length (?g row) + length (concat (map ?g rs)) = (i + length (row # rs)) * c"
      by (simp only: len) (simp add: algebra_simps)
    also have "\<dots> \<le> r * c" using Cons.prems(2) by (rule mult_le_mono1)
    finally show ?thesis using Cons.prems(1) by (simp add: holds_def)
  qed
  from overwrite_append [OF this]
  have "overwrite (i * c + c) (concat (map ?g rs)) (overwrite (i * c) (?g row) xs) =
      overwrite (i * c) (?g row @ concat (map ?g rs)) xs"
    by (simp only: len)
  moreover have "i * c + c = (i + 1) * c" by simp
  ultimately have "overwrite ((i + 1) * c) (concat (map ?g rs)) (overwrite (i * c + 0) (?g row) xs) =
      overwrite (i * c) (concat (map ?g (row # rs))) xs"
    by (simp only: add_0_right list.map concat.simps)
  moreover have "fill_rows types (int i) (row # rs) d = fill_rows types (int (i + 1)) rs d1"
    using d1(1) by (simp add: add.commute)
  ultimately show ?case using N by simp
qed simp

lemma nth_concat_uniform:
  "uniform c xss \<Longrightarrow> i < length xss \<Longrightarrow> j < c \<Longrightarrow> concat xss ! (i * c + j) = xss ! i ! j"
proof -
  assume u: "uniform c xss" "i < length xss" "j < c"
  have "i * c + j < length (concat xss)" using cell_index [OF u(2,3)] length_concat_uniform [OF u(1)] by simp
  then have "concat xss ! (i * c + j) = hd (drop (i * c + j) (concat xss))" by (simp add: hd_drop_conv_nth)
  also have "\<dots> = hd (drop j (xss ! i) @ drop ((i + 1) * c) (concat xss))"
    using drop_concat_block [OF u(1,2), of j] u(3) by simp
  also have "\<dots> = xss ! i ! j" using u uniform_nth [OF u(1,2)] by (simp add: hd_append hd_drop_conv_nth)
  finally show ?thesis .
qed

lemma format_plain: "CHR 0x25 \<notin> set s \<Longrightarrow> format_sql s = Inr s"
  by (induction s) auto

text \<open>
  C39. What a query stored comes back: when the server answers a statement without percent signs with
  rows that fit an int in number and cells, the query returns their number, and the array they are
  copied into gives for every row and column the text of the value up to its first NUL, the empty
  text for a missing one.\<close>

theorem query_results_come_back:
  assumes "mc_connected m" and "CHR 0x25 \<notin> set (c_str order)"
    and "server (c_str order) = Done affected (Some q)"
    and "uniform (length (qr_fields q)) (qr_rows q)"
    and "length (qr_rows q) < 2 ^ 31" and "length (qr_fields q) < 2 ^ 31"
    and "length (qr_rows q) * length (qr_fields q) < 2 ^ 31"
  shows "\<exists>m' d. QueryAndStore server order m = Inr (int (length (qr_rows q)), m')
    \<and> GetAllResult DoubleDArray_new m' = Inr d
    \<and> (\<forall>i < length (qr_rows q). \<forall>j < length (qr_fields q).
        bindR (GetValue Field_copy (int i) (int j) d) Field_GetString = Inr (text_of_cell (qr_rows q ! i ! j)))"
proof -
  let ?r = "length (qr_rows q)" and ?c = "length (qr_fields q)" and ?types = "map snd (qr_fields q)"
  let ?g = "\<lambda>row. map cell (zip row ?types)"
  have small: "sint (word_of_nat n :: 32 word) = int n" if "n < 2 ^ 31" for n
  proof -
    have "sint (word_of_int (int n) :: 32 word) = int n"
      using that by (subst sint_sbintrunc') (simp add: signed_take_bit_int_eq_self)
    then show ?thesis by simp
  qed
  obtain m' where m': "QueryAndStore server order m = Inr (int ?r, m')"
    "mc_result m' = Some q" "mc_field m' = ?types" "mc_row_count m' = int ?r" "mc_column_count m' = int ?c"
    using assms small by (simp add: QueryAndStore_def format_plain Let_def)
  obtain d1 where d1: "InitArray Field_new (int ?r) (int ?c) DoubleDArray_new = Inr d1"
    "holds ?r ?c (replicate (?r * ?c) Field_new) d1"
    using InitArray_holds [of DoubleDArray_new ?r ?c Field_new] assms(7) by (auto simp: DoubleDArray_new_def)
  obtain d where d: "fill_rows ?types (int 0) (qr_rows q) d1 = Inr d"
    "holds ?r ?c (overwrite (0 * ?c) (concat (map ?g (qr_rows q))) (replicate (?r * ?c) Field_new)) d"
    using fill_rows_holds [OF d1(2), of 0 "qr_rows q" ?types] assms(4) by auto
  have u: "uniform ?c (map ?g (qr_rows q))" using assms(4) by (auto simp: uniform_def)
  have "length (concat (map ?g (qr_rows q))) = ?r * ?c" using length_concat_uniform [OF u] by simp
  then have h: "holds ?r ?c (concat (map ?g (qr_rows q))) d" using d(2) by (simp add: overwrite_def)
  have "bindR (GetValue Field_copy (int i) (int j) d) Field_GetString = Inr (text_of_cell (qr_rows q ! i ! j))"
    if "i < ?r" "j < ?c" for i j
    using nth_concat_uniform [OF u, of i j] that uniform_nth [OF assms(4) that(1)]
    by (simp add: GetValue_holds [OF h that] cell_string)
  moreover have "GetAllResult DoubleDArray_new m' = Inr d"
    using d1(1) d(1) by (simp add: GetAllResult_def m' ClearArray_def) (simp add: DoubleDArray_new_def)
  ultimately show ?thesis using m'(1) by blast
qed

definition two_rows :: query_rows where
  "two_rows = \<lparr>qr_fields = [(''id'', 3), (''name'', 253)], qr_rows = [[Some ''1'', Some ''x''], [Some ''2'', None]]\<rparr>"

lemma query_results_come_back_witness:
  "\<exists>m' d. QueryAndStore (\<lambda>s. Done (- 1) (Some two_rows)) ''select'' (MysqlControl_new\<lparr>mc_connected := True\<rparr>) = Inr (2, m')
    \<and> GetAllResult DoubleDArray_new m' = Inr d
    \<and> bindR (GetValue Field_copy 0 1 d) Field_GetString = Inr ''x''"
proof -
  have "\<exists>m' d. QueryAndStore (\<lambda>s. Done (- 1) (Some two_rows)) ''select'' (MysqlControl_new\<lparr>mc_connected := True\<rparr>)
        = Inr (int (length (qr_rows two_rows)), m')
    \<and> GetAllResult DoubleDArray_new m' = Inr d
    \<and> (\<forall>i < length (qr_rows two_rows). \<forall>j < length (qr_fields two_rows).
        bindR (GetValue Field_copy (int i) (int j) d) Field_GetString = Inr (text_of_cell (qr_rows two_rows ! i ! j)))"
    by (rule query_results_come_back) (simp_all add: two_rows_def c_str_def)
  then obtain m' d where "QueryAndStore (\<lambda>s. Done (- 1) (Some two_rows)) ''select'' (MysqlControl_new\<lparr>mc_connected := True\<rparr>) = Inr (2, m')"
    "GetAllResult DoubleDArray_new m' = Inr d"
    "\<forall>i < 2. \<forall>j < 2. bindR (GetValue Field_copy (int i) (int j) d) Field_GetString = Inr (text_of_cell (qr_rows two_rows ! i ! j))"
    by (auto simp: two_rows_def)
  moreover from this(3) [rule_format, of 0 1] have "bindR (GetValue Field_copy 0 1 d) Field_GetString = Inr ''x''"
    by (simp add: two_rows_def text_of_cell_def c_str_def)
  ultimately show ?thesis by blast
qed

end
