(* ===== verification/HookWrappers.thy ===== *)
theory HookWrappers
  imports Hook
begin

text \<open>
  The remaining wrappers of hook.cpp: the calls that only forward to \<open>do_io\<close>, with their event and
  timeout, \<open>connect\<close> with the configured timeout, and what \<open>fcntl\<close> does with each command.
\<close>

section \<open>Calls through do\_io\<close>

datatype io_call =
    Call_accept | Call_read | Call_readv | Call_recv | Call_recvfrom | Call_recvmsg
  | Call_write | Call_writev | Call_send | Call_sendto | Call_sendmsg

fun call_event :: "io_call \<Rightarrow> u32" where
  "call_event Call_write = WRITE"
| "call_event Call_writev = WRITE"
| "call_event Call_send = WRITE"
| "call_event Call_sendto = WRITE"
| "call_event Call_sendmsg = WRITE"
| "call_event c = READ"

fun call_timeout :: "io_call \<Rightarrow> int" where
  "call_timeout Call_write = SO_SNDTIMEO"
| "call_timeout Call_writev = SO_SNDTIMEO"
| "call_timeout Call_send = SO_SNDTIMEO"
| "call_timeout Call_sendto = SO_SNDTIMEO"
| "call_timeout Call_sendmsg = SO_SNDTIMEO"
| "call_timeout c = SO_RCVTIMEO"

text \<open>The table entry of the descriptor, and the call as its caller sees it.\<close>

definition ctx_of :: "int \<Rightarrow> hooks \<Rightarrow> fd_ctx option res" where
  "ctx_of fd h = mapR fst (FdManager_get (\<lambda>_. None) fd False (hk_fdm h) (hk_flags h))"

definition hooked_call :: "bool \<Rightarrow> io_call \<Rightarrow> int \<Rightarrow> io_round list \<Rightarrow> hooks \<Rightarrow> sysres option res" where
  "hooked_call hook_enable call fd rounds h =
     (if \<not> hook_enable then Inr (do_io False None (call_timeout call) rounds)
      else mapR (\<lambda>c. do_io hook_enable c (call_timeout call) rounds) (ctx_of fd h))"

text \<open>The suspension of such a call.\<close>

definition call_arm ::
  "io_call \<Rightarrow> nat \<Rightarrow> nat \<Rightarrow> int \<Rightarrow> u64 \<Rightarrow> nat option \<Rightarrow> nat \<Rightarrow> State \<Rightarrow> int \<Rightarrow> u64 \<Rightarrow> hooks \<Rightarrow> (hooks \<times> nat option \<times> bool) res" where
  "call_arm call tp ti fd to = do_io_arm tp ti fd (call_event call) to"

section \<open>connect\<close>

text \<open>
  \<open>s_connect_timeout\<close> gets the value of \<open>tcp.connect.timeout\<close>, an int, at the start and from the
  listener; a negative value becomes a very long time, and -1 none at all.
\<close>

definition connect_timeout_of :: "u32 \<Rightarrow> u64" where
  "connect_timeout_of value = scast value"

definition connect_arm ::
  "nat \<Rightarrow> nat \<Rightarrow> int \<Rightarrow> u64 \<Rightarrow> nat option \<Rightarrow> nat \<Rightarrow> State \<Rightarrow> int \<Rightarrow> u64 \<Rightarrow> hooks \<Rightarrow> (hooks \<times> nat option \<times> bool) res" where
  "connect_arm tp ti fd timeout_ms sch cur cur_state rt now h =
     (let timer = (if timeout_ms \<noteq> - 1 then Some tp else None);
          h1 = (if timeout_ms \<noteq> - 1
                then set_timers (fst (addConditionTimer tp timeout_ms (CancelIo ti fd WRITE) ti False now (hk_timers h))) h
                else h)
      in bindR (addEvent fd WRITE None sch cur cur_state rt (hk_io h1)) (\<lambda>(io1, r).
           let h2 = set_io io1 h1 in
           if r = 0 then Inr (h2, timer, True)
           else (case timer of
                   None \<Rightarrow> Inr (h2, timer, False)
                 | Some p \<Rightarrow> mapR (\<lambda>(ts, _). (set_timers ts h2, timer, False)) (cancel p (hk_timers h2)))))"

lemma connect_arms_like_a_write: "connect_arm tp ti fd = do_io_arm tp ti fd WRITE"
proof -
  have swap: "(\<lambda>(io1, r). if r = 0 then f io1 else g io1) = (\<lambda>(io1, r). if r \<noteq> (0::int) then g io1 else f io1)" for f g :: "hook_cb callback io \<Rightarrow> 'b"
    by auto
  show ?thesis by (intro ext) (simp add: connect_arm_def do_io_arm_def Let_def swap)
qed

text \<open>The whole call: the results of the first \<open>connect\<close>, of \<open>addEvent\<close>, the timeout and \<open>getsockopt\<close>.\<close>

definition connect_with_timeout ::
  "bool \<Rightarrow> fd_ctx option \<Rightarrow> u64 \<Rightarrow> sysres \<Rightarrow> bool \<Rightarrow> bool \<Rightarrow> int option \<Rightarrow> int \<Rightarrow> sysres" where
  "connect_with_timeout hook_enable fctx timeout_ms first add_ok timed_out so_error e =
     (case connect_decide hook_enable fctx of
        Direct_call \<Rightarrow> first
      | Connect_fail err \<Rightarrow> Fail err
      | Connect_managed \<Rightarrow>
          (case connect_first first of
             Some r \<Rightarrow> r
           | None \<Rightarrow> connect_after add_ok (if timeout_ms \<noteq> - 1 \<and> timed_out then ETIMEDOUT else 0) so_error e))"

definition hook_connect :: "bool \<Rightarrow> fd_ctx option \<Rightarrow> u64 \<Rightarrow> sysres \<Rightarrow> bool \<Rightarrow> bool \<Rightarrow> int option \<Rightarrow> int \<Rightarrow> sysres" where
  "hook_connect hook_enable fctx s_connect_timeout = connect_with_timeout hook_enable fctx s_connect_timeout"

section \<open>fcntl, getsockopt\<close>

text \<open>What the real \<open>fcntl\<close> gets as its argument for a command (by its number).\<close>

datatype fcntl_kind = Set_flags | Get_flags | Int_arg | No_arg | Pointer_arg

definition fcntl_kind :: "int \<Rightarrow> fcntl_kind" where
  "fcntl_kind cmd =
     (if cmd = 4 then Set_flags
      else if cmd = 3 then Get_flags
      else if cmd \<in> {0, 1030, 2, 8, 10, 1024, 1026, 1031} then Int_arg
      else if cmd \<in> {1, 9, 11, 1025, 1032} then No_arg
      else if cmd \<in> {6, 7, 5, 16, 15} then Pointer_arg
      else No_arg)"

text \<open>The calls hook.cpp resolves and replaces, in the order of its list.\<close>

definition hooked_names :: "string list" where
  "hooked_names =
     [''sleep'', ''usleep'', ''nanosleep'', ''socket'', ''connect'', ''accept'', ''read'', ''readv'', ''recv'',
      ''recvfrom'', ''recvmsg'', ''write'', ''writev'', ''send'', ''sendto'', ''sendmsg'', ''close'', ''fcntl'',
      ''ioctl'', ''getsockopt'', ''setsockopt'']"

definition hook_init :: "(string \<Rightarrow> 'p) \<Rightarrow> (string \<rightharpoonup> 'p)" where
  "hook_init dlsym = map_of (map (\<lambda>name. (name, dlsym name)) hooked_names)"

end
