(* ===== verification/Timeouts_Props.thy ===== *)
theory Timeouts_Props
  imports HookWrappers Sockets Hook_Props
begin

text \<open>A timeout that is set on a socket is the one its reading or writing calls then wait with.\<close>

lemma int_cast_u64:
  assumes "0 \<le> a" and "a < 2 ^ 31"
  shows "(scast (ucast (word_of_int a :: u64) :: u32) :: u64) = word_of_int a"
proof -
  have "uint (word_of_int a :: u64) = a" using assms by (simp add: uint_word_of_int_eq take_bit_int_eq_self)
  then have "(ucast (word_of_int a :: u64) :: u32) = word_of_int a" by (simp only: ucast_eq)
  moreover have "sint (word_of_int a :: u32) = a"
    using assms by (subst sint_sbintrunc') (simp add: signed_take_bit_int_eq_self)
  ultimately show ?thesis by (simp only: scast_eq)
qed

lemma timeval_round_trip:
  fixes v :: u64
  assumes "0 \<le> sint v" and "sint v < 1000 * 2 ^ 31" and "timeval_of v = (tv_sec, tv_usec)"
  shows "tv_sec * 1000 + word_of_int (sint tv_usec sdiv 1000) = v"
proof -
  define n where "n = sint v"
  have b: "0 \<le> n div 1000" "n div 1000 < 2 ^ 31" "0 \<le> n mod 1000 * 1000" "n mod 1000 * 1000 < 2 ^ 31"
    using assms(1,2) by (simp_all add: n_def)
  have q: "m sdiv 1000 = m div 1000 \<and> m smod 1000 = m mod 1000" if "0 \<le> m" for m :: int
    using that by (cases "m = 0") (simp_all add: signed_divide_int_def signed_modulo_int_def sgn_if)
  have "tv_sec = word_of_int (n div 1000)" "tv_usec = word_of_int (n mod 1000 * 1000)"
    using assms(3) q [OF assms(1)] int_cast_u64 [OF b(1,2)] int_cast_u64 [OF b(3,4)]
    by (auto simp only: timeval_of_def n_def prod.inject)
  moreover have "sint (word_of_int (n mod 1000 * 1000) :: u64) = n mod 1000 * 1000"
    using b by (subst sint_sbintrunc') (simp add: signed_take_bit_int_eq_self)
  ultimately have "tv_sec * 1000 + word_of_int (sint tv_usec sdiv 1000) = word_of_int (n div 1000) * 1000 + word_of_int (n mod 1000)"
    using q [OF b(3)] by simp
  also have "\<dots> = word_of_int (n div 1000 * 1000 + n mod 1000)" by (simp only: of_int_add of_int_mult of_int_numeral)
  also have "\<dots> = v" by (simp add: n_def)
  finally show ?thesis .
qed

text \<open>
  C40. A socket's timeouts reach its calls: on a managed blocking socket, setting the receive timeout
  to any number of milliseconds below 1000 * 2 ^ 31 succeeds, is read back exactly, leaves the send
  timeout as it was, and makes every reading call wait at most that long, while the writing calls
  keep theirs.\<close>

theorem socket_timeouts_reach_the_calls:
  assumes "0 \<le> so_sock s" and "fdm_lookup (so_sock s) (hk_fdm h) = Some c"
    and "m_isSocket c" and "\<not> m_isClosed c" and "\<not> m_userNonblock c"
    and "0 \<le> sint v" and "sint v < 1000 * 2 ^ 31"
  shows "\<exists>h1 c1. setRecvTimeout True v s h = Inr h1 \<and> getRecvTimeout s h1 = Inr v
    \<and> getSendTimeout s h1 = getSendTimeout s h \<and> ctx_of (so_sock s) h1 = Inr (Some c1)
    \<and> (\<forall>call. do_io_decide True (Some c1) (call_timeout call) =
         Managed (if call_event call = READ then v else m_sendTimeout c))"
proof -
  let ?c1 = "c\<lparr>m_recvTimeout := v\<rparr>"
  let ?h1 = "h\<lparr>hk_fdm := put_data (so_sock s) ?c1 (hk_fdm h)\<rparr>"
  obtain tv_sec tv_usec where t: "timeval_of v = (tv_sec, tv_usec)" by (cases "timeval_of v")
  have "setRecvTimeout True v s h = Inr ?h1"
    using assms(1,2) timeval_round_trip [OF assms(6,7) t]
    by (simp add: setRecvTimeout_def setTimeoutOption_def t hook_setsockopt_timeout_def FdManager_get_known setTimeout_def)
  moreover have look: "fdm_lookup (so_sock s) (hk_fdm ?h1) = Some ?c1"
    using assms(2) by (simp add: fdm_lookup_put)
  moreover have "getRecvTimeout s ?h1 = Inr v" "getSendTimeout s ?h1 = getSendTimeout s h" "ctx_of (so_sock s) ?h1 = Inr (Some ?c1)"
    using assms(1,2) look
    by (simp_all add: getRecvTimeout_def getSendTimeout_def timeout_of_def FdManager_get_known getTimeout_def ctx_of_def)
  moreover have "do_io_decide True (Some ?c1) (call_timeout call) = Managed (if call_event call = READ then v else m_sendTimeout c)" for call
    using assms(3-5) by (cases call) (simp_all add: do_io_decide_def isClose_def isSocket_def getUserNonblock_def getTimeout_def)
  ultimately show ?thesis by blast
qed

lemma socket_timeouts_reach_the_calls_witness:
  "\<exists>h1. setRecvTimeout True 1500 ((Socket_new AF_INET SOCK_STREAM 0)\<lparr>so_sock := 5\<rparr>) demo_hooks = Inr h1
    \<and> getRecvTimeout ((Socket_new AF_INET SOCK_STREAM 0)\<lparr>so_sock := 5\<rparr>) h1 = Inr 1500"
  using socket_timeouts_reach_the_calls [of "(Socket_new AF_INET SOCK_STREAM 0)\<lparr>so_sock := 5\<rparr>" demo_hooks
      "fst (FdCtx_new (\<lambda>_. Some True) 5 (\<lambda>_. 0))" 1500] demo_hooks_facts(2)
  by (auto simp: FdCtx_new_fields)

end
