(* ===== verification/Locks.thy ===== *)
theory Locks
  imports Prelude
begin

text \<open>
  Locks and threads (mutex.h, mutex.cpp, thread.h, thread.cpp): the guards that hold a lock for a
  scope, over a read-write lock with the behaviour POSIX gives it, the spinning lock of atomic
  operations, and the start of a thread. Each operation is one step, so that any interleaving of
  threads is a sequence of operations; one that cannot go on yet is not executed.
\<close>

section \<open>Locks\<close>

record rw_lock =
  rw_readers :: nat
  rw_writer :: bool

text \<open>A mutex is a lock that is only taken for writing.\<close>

datatype lock_kind = Read_lock | Write_lock

fun take_lock :: "lock_kind \<Rightarrow> rw_lock \<Rightarrow> rw_lock option" where
  "take_lock Read_lock l = (if rw_writer l then None else Some (l\<lparr>rw_readers := rw_readers l + 1\<rparr>))"
| "take_lock Write_lock l = (if rw_writer l \<or> rw_readers l > 0 then None else Some (l\<lparr>rw_writer := True\<rparr>))"

definition release_lock :: "rw_lock \<Rightarrow> rw_lock" where
  "release_lock l = (if rw_writer l then l\<lparr>rw_writer := False\<rparr> else l\<lparr>rw_readers := rw_readers l - 1\<rparr>)"

text \<open>The lock of atomic operations: one turn of the loop of \<open>lock\<close>, and \<open>unlock\<close>.\<close>

definition test_and_set :: "bool \<Rightarrow> bool \<times> bool" where
  "test_and_set flag = (flag, True)"

definition cas_lock_turn :: "bool \<Rightarrow> bool option" where
  "cas_lock_turn flag = (case test_and_set flag of (old, flag1) \<Rightarrow> if old then None else Some flag1)"

definition cas_unlock :: "bool \<Rightarrow> bool" where
  "cas_unlock flag = False"

text \<open>It does what the other locks do for writing.\<close>

lemma cas_lock_is_a_mutex:
  "map_option rw_writer (take_lock Write_lock \<lparr>rw_readers = 0, rw_writer = flag\<rparr>) = cas_lock_turn flag"
  "flag \<Longrightarrow> rw_writer (release_lock \<lparr>rw_readers = 0, rw_writer = flag\<rparr>) = cas_unlock flag"
  by (simp_all add: cas_lock_turn_def test_and_set_def release_lock_def cas_unlock_def)

section \<open>Guards\<close>

text \<open>A guard object: the kind of its lock and \<open>m_locked\<close>.\<close>

record lock_state =
  ls_lock :: rw_lock
  ls_guards :: "nat \<Rightarrow> (lock_kind \<times> bool) option"

datatype guard_op = Guard_new nat lock_kind | Guard_lock nat | Guard_unlock nat | Guard_delete nat

definition put_guard :: "nat \<Rightarrow> (lock_kind \<times> bool) option \<Rightarrow> rw_lock \<Rightarrow> lock_state \<Rightarrow> lock_state" where
  "put_guard i g l st = st\<lparr>ls_lock := l, ls_guards := (ls_guards st)(i := g)\<rparr>"

definition guard_unlock :: "nat \<Rightarrow> lock_state \<Rightarrow> lock_state" where
  "guard_unlock i st =
     (case ls_guards st i of
        Some (k, True) \<Rightarrow> put_guard i (Some (k, False)) (release_lock (ls_lock st)) st
      | _ \<Rightarrow> st)"

text \<open>An operation on an object that is not there, or one that has to wait, has no result.\<close>

fun guard_exec :: "guard_op \<Rightarrow> lock_state \<Rightarrow> lock_state option" where
  "guard_exec (Guard_new i k) st =
     (if ls_guards st i \<noteq> None then None
      else map_option (\<lambda>l. put_guard i (Some (k, True)) l st) (take_lock k (ls_lock st)))"
| "guard_exec (Guard_lock i) st =
     (case ls_guards st i of
        None \<Rightarrow> None
      | Some (k, m_locked) \<Rightarrow>
          (if m_locked then Some st
           else map_option (\<lambda>l. put_guard i (Some (k, True)) l st) (take_lock k (ls_lock st))))"
| "guard_exec (Guard_unlock i) st = (if ls_guards st i = None then None else Some (guard_unlock i st))"
| "guard_exec (Guard_delete i) st =
     (if ls_guards st i = None then None
      else (let st1 = guard_unlock i st in Some (put_guard i None (ls_lock st1) st1)))"

fun guard_run :: "guard_op list \<Rightarrow> lock_state \<Rightarrow> lock_state option" where
  "guard_run [] st = Some st"
| "guard_run (op # ops) st = (case guard_exec op st of None \<Rightarrow> None | Some st1 \<Rightarrow> guard_run ops st1)"

definition no_guards :: lock_state where
  "no_guards = \<lparr>ls_lock = \<lparr>rw_readers = 0, rw_writer = False\<rparr>, ls_guards = \<lambda>_. None\<rparr>"

section \<open>Exclusion\<close>

definition locked :: "lock_kind \<Rightarrow> lock_state \<Rightarrow> nat set" where
  "locked k st = {i. ls_guards st i = Some (k, True)}"

definition guards_ok :: "lock_state \<Rightarrow> bool" where
  "guards_ok st \<longleftrightarrow>
     finite (locked Read_lock st) \<and> rw_readers (ls_lock st) = card (locked Read_lock st)
     \<and> (if rw_writer (ls_lock st) then rw_readers (ls_lock st) = 0 \<and> (\<exists>i. locked Write_lock st = {i})
        else locked Write_lock st = {})"

lemma guards_ok_new: "guards_ok no_guards"
  by (simp add: guards_ok_def no_guards_def locked_def)

lemma locked_put:
  "locked k (put_guard i g l st) = (if g = Some (k, True) then insert i (locked k st) else locked k st - {i})"
  by (auto simp: locked_def put_guard_def)

lemma put_guard_lock [simp]: "ls_lock (put_guard i g l st) = l"
  by (simp add: put_guard_def)

lemma take_ok:
  assumes "guards_ok st" and "take_lock k (ls_lock st) = Some l" and "i \<notin> locked Read_lock st \<union> locked Write_lock st"
  shows "guards_ok (put_guard i (Some (k, True)) l st)"
proof (cases k)
  case Read_lock
  with assms show ?thesis by (auto simp: guards_ok_def locked_put split: if_splits)
next
  case Write_lock
  with assms show ?thesis by (auto simp: guards_ok_def locked_put split: if_splits)
qed

lemma unlock_ok:
  assumes "guards_ok st"
  shows "guards_ok (guard_unlock i st)" and "i \<notin> locked k (guard_unlock i st)"
proof -
  show "i \<notin> locked k (guard_unlock i st)"
    by (auto simp: guard_unlock_def put_guard_def locked_def split: option.splits bool.splits prod.splits)
  show "guards_ok (guard_unlock i st)"
  proof (cases "ls_guards st i")
    case None
    with assms show ?thesis by (simp add: guard_unlock_def)
  next
    case (Some g)
    obtain k' b where g: "g = (k', b)" by (cases g)
    show ?thesis
    proof (cases b)
      case False
      with assms Some g show ?thesis by (simp add: guard_unlock_def)
    next
      case True
      with Some g have i: "i \<in> locked k' st" by (simp add: locked_def)
      have other: "i \<notin> locked k'' st" if "k'' \<noteq> k'" for k'' using Some g that by (simp add: locked_def)
      have u: "guard_unlock i st = put_guard i (Some (k', False)) (release_lock (ls_lock st)) st"
        using Some g True by (simp add: guard_unlock_def)
      show ?thesis
      proof (cases k')
        case Read_lock
        with i assms have "\<not> rw_writer (ls_lock st)" by (auto simp: guards_ok_def)
        with Read_lock i assms show ?thesis by (simp add: u guards_ok_def locked_put release_lock_def card_Diff_singleton)
      next
        case Write_lock
        with i assms have w: "rw_writer (ls_lock st)" "locked Write_lock st = {i}" by (auto simp: guards_ok_def split: if_splits)
        with Write_lock assms other [of Read_lock] show ?thesis by (simp add: u guards_ok_def locked_put release_lock_def)
      qed
    qed
  qed
qed

lemma guard_exec_ok:
  assumes "guards_ok st" and "guard_exec op st = Some st1"
  shows "guards_ok st1"
proof (cases op)
  case (Guard_new i k)
  then have "i \<notin> locked Read_lock st \<union> locked Write_lock st" using assms(2) by (auto simp: locked_def split: if_splits)
  with Guard_new assms take_ok [OF assms(1)] show ?thesis by (auto split: if_splits)
next
  case (Guard_lock i)
  then obtain k b where g: "ls_guards st i = Some (k, b)" using assms(2) by (auto split: option.splits)
  show ?thesis
  proof (cases b)
    case True
    with Guard_lock g assms show ?thesis by simp
  next
    case False
    then have "i \<notin> locked Read_lock st \<union> locked Write_lock st" using g by (auto simp: locked_def)
    with Guard_lock g False assms take_ok [OF assms(1)] show ?thesis by auto
  qed
next
  case (Guard_unlock i)
  with assms unlock_ok(1) [OF assms(1)] show ?thesis by (auto split: if_splits)
next
  case (Guard_delete i)
  let ?u = "guard_unlock i st"
  have "guards_ok (put_guard i None (ls_lock ?u) ?u)"
  proof -
    have "locked k (put_guard i None (ls_lock ?u) ?u) = locked k ?u" for k
      using unlock_ok(2) [OF assms(1), of i k] by (simp add: locked_put)
    then have "guards_ok (put_guard i None (ls_lock ?u) ?u) = guards_ok ?u"
      unfolding guards_ok_def by (simp only: put_guard_lock)
    then show ?thesis using unlock_ok(1) [OF assms(1)] by simp
  qed
  with Guard_delete assms(2) show ?thesis by (auto simp: Let_def split: if_splits)
qed

lemma guard_run_ok: "guards_ok st \<Longrightarrow> guard_run ops st = Some st1 \<Longrightarrow> guards_ok st1"
  by (induction ops arbitrary: st) (auto split: option.splits dest: guard_exec_ok)

text \<open>
  Guards exclude: however threads interleave the construction, locking, unlocking and destruction
  of any number of guards on one lock, a locked write guard is the only locked guard, the lock is
  held by as many readers as there are locked read guards, and once every guard is unlocked or
  destroyed the lock is free.\<close>

theorem guards_exclude:
  assumes "guard_run ops no_guards = Some st"
  shows "(\<forall>i j k. ls_guards st i = Some (Write_lock, True) \<and> ls_guards st j = Some (k, True) \<longrightarrow> i = j)
    \<and> rw_readers (ls_lock st) = card {i. ls_guards st i = Some (Read_lock, True)}
    \<and> ((\<forall>i k. ls_guards st i \<noteq> Some (k, True)) \<longrightarrow> ls_lock st = ls_lock no_guards)"
proof -
  have ok: "guards_ok st" using guard_run_ok [OF guards_ok_new assms] .
  have "i = j" if i: "ls_guards st i = Some (Write_lock, True)" and j: "ls_guards st j = Some (k, True)" for i j k
  proof -
    have w: "rw_writer (ls_lock st)" "locked Write_lock st = {i}" "locked Read_lock st = {}"
    proof -
      have li: "i \<in> locked Write_lock st" using i by (simp add: locked_def)
      then show w: "rw_writer (ls_lock st)" using ok by (auto simp: guards_ok_def split: if_splits)
      then obtain m where "locked Write_lock st = {m}" using ok by (auto simp: guards_ok_def)
      with li show "locked Write_lock st = {i}" by simp
      show "locked Read_lock st = {}" using w ok by (metis card_eq_0_iff guards_ok_def)
    qed
    show ?thesis using j w(2,3) by (cases k) (auto simp: locked_def)
  qed
  moreover have "ls_lock st = ls_lock no_guards" if "\<forall>i k. ls_guards st i \<noteq> Some (k, True)"
    using ok that by (auto simp: guards_ok_def locked_def no_guards_def split: if_splits)
  ultimately show ?thesis using ok by (auto simp: guards_ok_def locked_def)
qed

lemma guards_exclude_witness:
  "\<exists>st. guard_run [Guard_new 0 Read_lock, Guard_new 1 Read_lock, Guard_delete 0, Guard_unlock 1, Guard_new 2 Write_lock] no_guards = Some st
    \<and> rw_readers (ls_lock st) = card {i. ls_guards st i = Some (Read_lock, True)}"
proof -
  obtain st where "guard_run [Guard_new 0 Read_lock, Guard_new 1 Read_lock, Guard_delete 0, Guard_unlock 1, Guard_new 2 Write_lock] no_guards = Some st"
    by (simp add: no_guards_def put_guard_def guard_unlock_def release_lock_def Let_def)
  with guards_exclude [OF this] show ?thesis by blast
qed

section \<open>Threads\<close>

record thread =
  th_name :: string
  th_pid :: int
  th_created :: bool
  th_has_cb :: bool
  th_semaphore :: nat

text \<open>The names: of the object, of the system thread, and \<open>SetName\<close> in a thread with an object.\<close>

definition Thread_new :: "string \<Rightarrow> thread" where
  "Thread_new name =
     \<lparr>th_name = (if name = [] then ''UNKNOWN'' else name), th_pid = -1, th_created = False, th_has_cb = True, th_semaphore = 0\<rparr>"

definition system_name :: "thread \<Rightarrow> string" where
  "system_name t = take 15 (th_name t)"

definition SetName :: "string \<Rightarrow> thread option \<times> string \<Rightarrow> thread option \<times> string" where
  "SetName name st =
     (if name = [] then st else (map_option (\<lambda>t. t\<lparr>th_name := name\<rparr>) (fst st), name))"

text \<open>
  \<open>join\<close> with the result of \<open>pthread_join\<close>, and the destructor: the system thread it would leave
  behind is detached, and only when nobody joined it.
\<close>

definition Thread_join :: "int \<Rightarrow> thread \<Rightarrow> thread res" where
  "Thread_join rt t =
     (if \<not> th_created t then Inr t
      else if rt \<noteq> 0 then Inl LogicError
      else Inr (t\<lparr>th_created := False\<rparr>))"

definition Thread_destroy :: "thread \<Rightarrow> bool" where
  "Thread_destroy t = th_created t"

lemma joined_is_not_detached: "Thread_join rt t = Inr t1 \<Longrightarrow> \<not> Thread_destroy t1 \<and> Thread_join rt' t1 = Inr t1"
  by (auto simp: Thread_join_def Thread_destroy_def split: if_splits)

text \<open>
  The start: where the constructor and the new thread are. The constructor throws when the thread
  cannot be created, and returns when the new thread has notified it.
\<close>

datatype starter = Creating | Waiting | Constructed | Threw

datatype runner = Not_started | Entered | Recorded | Swapped | Notified | Finished

inductive thread_step :: "int \<Rightarrow> starter \<times> runner \<times> thread \<Rightarrow> starter \<times> runner \<times> thread \<Rightarrow> bool" for tid where
  create: "thread_step tid (Creating, Not_started, t) (Waiting, Entered, t\<lparr>th_created := True\<rparr>)"
| fail: "thread_step tid (Creating, Not_started, t) (Threw, Not_started, t)"
| enter: "thread_step tid (c, Entered, t) (c, Recorded, t\<lparr>th_pid := tid\<rparr>)"
| swap: "thread_step tid (c, Recorded, t) (c, Swapped, t\<lparr>th_has_cb := False\<rparr>)"
| notify: "thread_step tid (c, Swapped, t) (c, Notified, t\<lparr>th_semaphore := th_semaphore t + 1\<rparr>)"
| wait: "th_semaphore t > 0 \<Longrightarrow> thread_step tid (Waiting, r, t) (Constructed, r, t\<lparr>th_semaphore := th_semaphore t - 1\<rparr>)"
| finish: "thread_step tid (c, Notified, t) (c, Finished, t)"

inductive_cases thread_stepE: "thread_step tid (c, r, t) st"

definition start_ok :: "int \<Rightarrow> starter \<times> runner \<times> thread \<Rightarrow> bool" where
  "start_ok tid st = (case st of (c, r, t) \<Rightarrow>
     (r \<in> {Notified, Finished} \<longrightarrow> th_pid t = tid \<and> \<not> th_has_cb t)
     \<and> (r = Swapped \<longrightarrow> th_pid t = tid \<and> \<not> th_has_cb t) \<and> (r = Recorded \<longrightarrow> th_pid t = tid)
     \<and> (c \<in> {Creating, Threw} \<longleftrightarrow> r = Not_started)
     \<and> th_semaphore t = (if r \<in> {Notified, Finished} \<and> c = Waiting then 1 else 0)
     \<and> (c = Constructed \<longrightarrow> r \<in> {Notified, Finished}))"

lemma start_ok_step: "thread_step tid st st' \<Longrightarrow> start_ok tid st \<Longrightarrow> start_ok tid st'"
  by (induction rule: thread_step.induct) (auto simp: start_ok_def split: if_splits, metis starter.exhaust)

lemma start_ok_new: "start_ok tid (Creating, Not_started, Thread_new name)"
  by (simp add: start_ok_def Thread_new_def)

text \<open>When the constructor has returned, the thread's id is recorded and it owns its function.\<close>

lemma constructed_means_running:
  assumes "(thread_step tid)\<^sup>*\<^sup>* (Creating, Not_started, Thread_new name) (Constructed, r, t)"
  shows "th_pid t = tid \<and> \<not> th_has_cb t \<and> r \<in> {Notified, Finished}"
proof -
  have "start_ok tid st" if "(thread_step tid)\<^sup>*\<^sup>* (Creating, Not_started, Thread_new name) st" for st
    using that by (induction rule: rtranclp_induct) (rule start_ok_new, rule start_ok_step)
  from this [OF assms] show ?thesis by (auto simp: start_ok_def)
qed

end
