(* ===== verification/Ragel.thy ===== *)
theory Ragel
  imports Prelude
begin

text \<open>
  The state machines that Ragel generated (http/http11_parser.cc, http/httpclient_parser.rl.cc,
  http/uri.rl.cc). A generated function is one \<open>switch\<close> over the state with a block per state and
  a block of actions per transition that has some; the tables of the machines list these blocks in
  the order of the file, and this theory says what running such a table does.
\<close>

section \<open>Tables\<close>

text \<open>
  \<open>St n\<close> is \<open>goto st<n>\<close>, \<open>Tr n\<close> is \<open>goto tr<n>\<close>. A row lists the ranges of \<open>char\<close>, a signed type,
  that leave for another block; every other one leaves for \<open>st0\<close>, the error. A \<open>State n\<close> compares
  the character itself, a \<open>Wide n\<close> first computes \<open>_widec\<close>.
\<close>

datatype target = St nat | Tr nat

type_synonym row = "(int \<times> int \<times> target) list"

datatype 'a block = State nat row | Wide nat row | Trans nat "'a list" nat

fun find_state :: "'a block list \<Rightarrow> nat \<Rightarrow> (bool \<times> row) option" where
  "find_state [] n = None"
| "find_state (State m r # bs) n = (if m = n then Some (False, r) else find_state bs n)"
| "find_state (Wide m r # bs) n = (if m = n then Some (True, r) else find_state bs n)"
| "find_state (Trans _ _ _ # bs) n = find_state bs n"

fun find_trans :: "'a block list \<Rightarrow> nat \<Rightarrow> ('a list \<times> nat) option" where
  "find_trans [] n = None"
| "find_trans (Trans m acts t # bs) n = (if m = n then Some (acts, t) else find_trans bs n)"
| "find_trans (State _ _ # bs) n = find_trans bs n"
| "find_trans (Wide _ _ # bs) n = find_trans bs n"

fun find_range :: "row \<Rightarrow> int \<Rightarrow> target option" where
  "find_range [] x = None"
| "find_range ((lo, hi, t) # r) x = (if lo \<le> x \<and> x \<le> hi then Some t else find_range r x)"

text \<open>A \<open>char\<close> as a number, and \<open>_widec\<close>: the characters whose transitions depend on a flag.\<close>

definition schar :: "char \<Rightarrow> int" where
  "schar c = (let x = of_char c in if x \<ge> 128 then x - 256 else x)"

definition widec :: "bool \<Rightarrow> int \<Rightarrow> int" where
  "widec relaxed x =
     (if x \<in> {94, 123, 125} then 128 + (x + 128) + (if relaxed then 256 else 0) else x)"

section \<open>One character\<close>

text \<open>
  Where a state goes with a character: nowhere when the \<open>switch\<close> has no block for it, to \<open>st0\<close>, or
  through a block of actions to a state.
\<close>

datatype 'a move = No_block | To_error | Move "'a list" nat

definition follow :: "'a block list \<Rightarrow> target \<Rightarrow> 'a move" where
  "follow T t =
     (case t of
        St n \<Rightarrow> Move [] n
      | Tr n \<Rightarrow> (case find_trans T n of None \<Rightarrow> No_block | Some (acts, m) \<Rightarrow> Move acts m))"

definition move :: "'a block list \<Rightarrow> bool \<Rightarrow> nat \<Rightarrow> int \<Rightarrow> 'a move" where
  "move T relaxed cs x =
     (case find_state T cs of
        None \<Rightarrow> No_block
      | Some (wide, r) \<Rightarrow>
          (case find_range r (if wide then widec relaxed x else x) of
             None \<Rightarrow> To_error
           | Some t \<Rightarrow> follow T t))"

section \<open>A run\<close>

text \<open>
  From state \<open>cs\<close> with the pointer at \<open>p\<close>: the state, the pointer and the data at \<open>_out\<close>. The
  actions of a transition see the pointer at the character; after an action with \<open>fbreak\<close> the
  pointer is advanced and the run ends.
\<close>

fun machine_run ::
  "'a block list \<Rightarrow> bool \<Rightarrow> ('a \<Rightarrow> bool) \<Rightarrow> ('a \<Rightarrow> nat \<Rightarrow> 's \<Rightarrow> 's) \<Rightarrow> nat \<Rightarrow> nat \<Rightarrow> string \<Rightarrow> 's \<Rightarrow> nat \<times> nat \<times> 's" where
  "machine_run T relaxed breaks act cs p [] s = (cs, p, s)"
| "machine_run T relaxed breaks act cs p (c # rest) s =
     (case move T relaxed cs (schar c) of
        No_block \<Rightarrow> (cs, p, s)
      | To_error \<Rightarrow> (0, p, s)
      | Move acts n \<Rightarrow>
          (let s1 = fold (\<lambda>a. act a p) acts s
           in if list_ex breaks acts then (n, p + 1, s1)
              else machine_run T relaxed breaks act n (p + 1) rest s1))"

section \<open>Lemmas\<close>

lemma schar_range: "- 128 \<le> schar c \<and> schar c \<le> 127"
proof -
  have "0 \<le> (of_char c :: int)" "of_char c < (256 :: int)"
    using of_char_mod_256 [of c, where ?'a = int] by (metis pos_mod_sign pos_mod_bound zero_less_numeral)+
  then show ?thesis by (auto simp: schar_def Let_def)
qed

lemma schar_inj: "schar a = schar b \<Longrightarrow> a = b"
proof -
  have "0 \<le> (of_char c :: int) \<and> of_char c < (256 :: int)" for c
    using of_char_mod_256 [of c, where ?'a = int] by (metis pos_mod_sign pos_mod_bound zero_less_numeral)
  from this [of a] this [of b] show "schar a = schar b \<Longrightarrow> a = b"
    by (auto simp: schar_def Let_def split: if_splits)
qed

lemma find_state_append:
  "find_state (a @ b) n = (case find_state a n of None \<Rightarrow> find_state b n | Some r \<Rightarrow> Some r)"
  by (induction a n rule: find_state.induct) auto

lemma find_trans_append:
  "find_trans (a @ b) n = (case find_trans a n of None \<Rightarrow> find_trans b n | Some r \<Rightarrow> Some r)"
  by (induction a n rule: find_trans.induct) auto

text \<open>The blocks a list has, so that a lookup passes over the lists without the one it wants.\<close>

fun state_nums :: "'a block list \<Rightarrow> nat list" where
  "state_nums [] = []"
| "state_nums (State n r # bs) = n # state_nums bs"
| "state_nums (Wide n r # bs) = n # state_nums bs"
| "state_nums (Trans n acts t # bs) = state_nums bs"

fun trans_nums :: "'a block list \<Rightarrow> nat list" where
  "trans_nums [] = []"
| "trans_nums (Trans n acts t # bs) = n # trans_nums bs"
| "trans_nums (State n r # bs) = trans_nums bs"
| "trans_nums (Wide n r # bs) = trans_nums bs"

lemma find_state_None: "n \<notin> set (state_nums b) \<Longrightarrow> find_state b n = None"
  by (induction b n rule: find_state.induct) auto

lemma find_trans_None: "n \<notin> set (trans_nums b) \<Longrightarrow> find_trans b n = None"
  by (induction b n rule: find_trans.induct) auto

text \<open>A class of characters that a state treats alike, by looking at each of them.\<close>

definition on_class :: "(int \<Rightarrow> bool) \<Rightarrow> bool \<Rightarrow> row \<Rightarrow> target \<Rightarrow> bool" where
  "on_class P wide r t \<longleftrightarrow>
     list_all (\<lambda>x. P x \<longrightarrow> find_range r x = Some t \<and> (wide \<longrightarrow> x \<noteq> 94 \<and> x \<noteq> 123 \<and> x \<noteq> 125)) [- 128..127]"

lemma class_move:
  assumes "find_state T cs = Some (wide, r)" and "on_class P wide r t" and "P (schar c)"
  shows "move T relaxed cs (schar c) = follow T t"
proof -
  have "schar c \<in> set [- 128..127]" using schar_range [of c] by (simp only: set_upto atLeastAtMost_iff)
  with assms(2,3) have "find_range r (schar c) = Some t \<and> (wide \<longrightarrow> schar c \<notin> {94, 123, 125})"
    by (auto simp only: on_class_def list_all_iff insert_iff empty_iff)
  with assms(1) show ?thesis by (simp add: move_def widec_def)
qed

text \<open>The characters of a token, as the names of headers are in both grammars.\<close>

definition token_code :: "int \<Rightarrow> bool" where
  "token_code x \<longleftrightarrow> x = 33 \<or> 35 \<le> x \<and> x \<le> 39 \<or> x = 42 \<or> x = 43 \<or> x = 45 \<or> x = 46 \<or> 48 \<le> x \<and> x \<le> 57
     \<or> 65 \<le> x \<and> x \<le> 90 \<or> 94 \<le> x \<and> x \<le> 122 \<or> x = 124 \<or> x = 126"

text \<open>Text of such characters and of escapes, a percent sign and two hexadecimal digits.\<close>

definition hex_code :: "int \<Rightarrow> bool" where
  "hex_code x \<longleftrightarrow> 48 \<le> x \<and> x \<le> 57 \<or> 65 \<le> x \<and> x \<le> 70 \<or> 97 \<le> x \<and> x \<le> 102"

inductive escaped :: "(int \<Rightarrow> bool) \<Rightarrow> string \<Rightarrow> bool" for P where
  nil: "escaped P []"
| plain: "P (schar c) \<Longrightarrow> escaped P xs \<Longrightarrow> escaped P (c # xs)"
| escape: "hex_code (schar a) \<Longrightarrow> hex_code (schar b) \<Longrightarrow> escaped P xs \<Longrightarrow> escaped P (CHR 0x25 # a # b # xs)"

code_pred escaped .

inductive_simps escaped_nil [simp]: "escaped P []"

inductive_simps escaped_cons: "escaped P (c # xs)"

lemma escaped_mono: "escaped P xs \<Longrightarrow> (\<And>x. P x \<Longrightarrow> Q x) \<Longrightarrow> escaped Q xs"
  by (induction rule: escaped.induct) (auto intro: escaped.intros)

lemma schar_percent [simp]: "schar (CHR 0x25) = 37"
  by (simp add: schar_def)

text \<open>The pointer stays in the data.\<close>

lemma machine_run_pointer:
  "machine_run T relaxed breaks act cs p rest s = (cs1, p1, s1) \<Longrightarrow> p \<le> p1 \<and> p1 \<le> p + length rest"
proof (induction rest arbitrary: cs p s)
  case (Cons c rest)
  then show ?case
  proof (cases "move T relaxed cs (schar c)")
    case (Move acts n)
    show ?thesis
    proof (cases "list_ex breaks acts")
      case True
      with Cons.prems Move show ?thesis by (auto simp: Let_def)
    next
      case False
      with Cons.prems Move have "machine_run T relaxed breaks act n (p + 1) rest (fold (\<lambda>a. act a p) acts s) = (cs1, p1, s1)"
        by (simp add: Let_def)
      from Cons.IH [OF this] show ?thesis by simp
    qed
  qed auto
qed auto

section \<open>Invariants of a run\<close>

text \<open>An invariant of the data and the pointer that the actions keep holds at the end of a run.\<close>

lemma machine_run_invariant:
  assumes "machine_run T relaxed breaks act cs p rest s = (cs1, p1, s1)" and "I p s"
    and "\<And>a q s. q < p + length rest \<Longrightarrow> I q s \<Longrightarrow> I q (act a q s)"
    and "\<And>q s. I q s \<Longrightarrow> I (q + 1) s"
  shows "\<exists>q. I q s1"
  using assms(1-3)
proof (induction rest arbitrary: cs p s)
  case (Cons c rest)
  then show ?case
  proof (cases "move T relaxed cs (schar c)")
    case (Move acts n)
    define s' where "s' = fold (\<lambda>a. act a p) acts s"
    have "I p (fold (\<lambda>a. act a p) as t)" if "I p t" for as t
      using that Cons.prems(3) [of p] by (induction as arbitrary: t) auto
    then have s': "I p s'" "I (p + 1) s'" using Cons.prems(2) assms(4) by (auto simp: s'_def)
    show ?thesis
    proof (cases "list_ex breaks acts")
      case True
      with Cons.prems(1) Move s' show ?thesis by (auto simp: machine_run.simps(2) Let_def s'_def)
    next
      case False
      with Cons.prems(1) Move have "machine_run T relaxed breaks act n (p + 1) rest s' = (cs1, p1, s1)"
        by (simp add: machine_run.simps(2) Let_def s'_def)
      then show ?thesis by (rule Cons.IH) (use s' Cons.prems(3) in auto)
    qed
  qed (auto simp: machine_run.simps(2))
qed auto

text \<open>Actions that no transition has unless it ends the run in a state of \<open>F\<close>.\<close>

definition only_into :: "('a \<Rightarrow> bool) \<Rightarrow> (nat \<Rightarrow> bool) \<Rightarrow> 'a block list \<Rightarrow> bool" where
  "only_into A F T \<longleftrightarrow> list_all (\<lambda>b. case b of Trans m acts t \<Rightarrow> list_ex A acts \<longrightarrow> F t | _ \<Rightarrow> True) T"

lemma only_into_append [simp]: "only_into A F (a @ b) \<longleftrightarrow> only_into A F a \<and> only_into A F b"
  by (simp add: only_into_def)

lemma only_into_move:
  assumes "only_into A F T" and "move T relaxed cs x = Move acts n" and "list_ex A acts"
  shows "F n"
proof -
  have "find_trans T m = Some (acts, n) \<Longrightarrow> list_ex A acts \<longrightarrow> F n" for m
    using assms(1) by (induction T m rule: find_trans.induct) (auto simp: only_into_def split: if_splits)
  with assms(2,3) show ?thesis
    by (auto simp: move_def follow_def split: option.splits prod.splits target.splits if_splits)
qed

lemma machine_run_unless:
  assumes "machine_run T relaxed A act cs p rest s = (cs1, p1, s1)" and "only_into A F T" and "J s"
    and "\<And>a q s. \<not> A a \<Longrightarrow> J s \<Longrightarrow> J (act a q s)"
  shows "J s1 \<or> F cs1"
  using assms(1,3)
proof (induction rest arbitrary: cs p s)
  case (Cons c rest)
  then show ?case
  proof (cases "move T relaxed cs (schar c)")
    case (Move acts n)
    show ?thesis
    proof (cases "list_ex A acts")
      case True
      with Cons.prems(1) Move only_into_move [OF assms(2) Move] show ?thesis
        by (auto simp: machine_run.simps(2) Let_def)
    next
      case False
      then have "J t \<Longrightarrow> J (fold (\<lambda>a. act a p) acts t)" for t
        using assms(4) by (induction acts arbitrary: t) auto
      with Cons False Move show ?thesis by (auto simp: machine_run.simps(2) Let_def)
    qed
  qed (auto simp: machine_run.simps(2))
qed auto

lemma only_into_no_trans: "trans_nums b = [] \<Longrightarrow> only_into A F b"
  by (induction b rule: trans_nums.induct) (auto simp: only_into_def)

lemma only_into_concat: "only_into A F (concat bs) \<longleftrightarrow> list_all (only_into A F) bs"
  by (induction bs) (simp_all add: only_into_def [of _ _ "[]"])

section \<open>Runs over text\<close>

text \<open>
  What every machine shares: a transition is one step, a state that a class of characters leaves
  unchanged reads any run of them, and so does a set of states that the class does not leave.
\<close>

locale ragel =
  fixes T :: "'a block list" and relaxed :: bool and breaks :: "'a \<Rightarrow> bool" and act :: "'a \<Rightarrow> nat \<Rightarrow> 's \<Rightarrow> 's"
begin

lemma step:
  "move T relaxed cs (schar c) = Move acts n \<Longrightarrow> \<not> list_ex breaks acts \<Longrightarrow>
   machine_run T relaxed breaks act cs p (c # rest) s
     = machine_run T relaxed breaks act n (p + 1) rest (fold (\<lambda>a. act a p) acts s)"
  by (simp add: Let_def)

lemma silent:
  "move T relaxed cs (schar c) = Move [] n \<Longrightarrow>
   machine_run T relaxed breaks act cs p (c # rest) s = machine_run T relaxed breaks act n (p + 1) rest s"
  by simp

lemma loop:
  "(\<And>c. c \<in> set xs \<Longrightarrow> move T relaxed cs (schar c) = Move [] cs) \<Longrightarrow>
   machine_run T relaxed breaks act cs p (xs @ rest) s = machine_run T relaxed breaks act cs (p + length xs) rest s"
  by (induction xs arbitrary: p) auto

text \<open>Text with escapes: state \<open>A\<close> reads the characters and \<open>B\<close> and \<open>C\<close> the digits of an escape.\<close>

lemma escapes:
  assumes "escaped P xs" and "\<And>c. P (schar c) \<Longrightarrow> move T relaxed A (schar c) = Move [] A" and "move T relaxed A 37 = Move [] B"
    and "\<And>c. hex_code (schar c) \<Longrightarrow> move T relaxed B (schar c) = Move [] C"
    and "\<And>c. hex_code (schar c) \<Longrightarrow> move T relaxed C (schar c) = Move [] A"
  shows "machine_run T relaxed breaks act A p (xs @ rest) s = machine_run T relaxed breaks act A (p + length xs) rest s"
  using assms(1)
proof (induction xs arbitrary: p rule: escaped.induct)
  case (escape a b xs)
  then show ?case using assms(3-5) by (simp add: schar_percent)
qed (use assms(2) in simp_all)

lemma enter_escapes:
  assumes "escaped P (c # xs)" and "P (schar c) \<Longrightarrow> move T relaxed E (schar c) = Move acts A" and "move T relaxed E 37 = Move acts B"
    and "\<not> list_ex breaks acts"
    and "\<And>c. P (schar c) \<Longrightarrow> move T relaxed A (schar c) = Move [] A" and "move T relaxed A 37 = Move [] B"
    and "\<And>c. hex_code (schar c) \<Longrightarrow> move T relaxed B (schar c) = Move [] C"
    and "\<And>c. hex_code (schar c) \<Longrightarrow> move T relaxed C (schar c) = Move [] A"
  shows "machine_run T relaxed breaks act E p ((c # xs) @ rest) s
    = machine_run T relaxed breaks act A (p + length (c # xs)) rest (fold (\<lambda>a. act a p) acts s)"
  using assms(1)
proof (cases rule: escaped.cases)
  case plain
  then show ?thesis using assms(2,4) escapes [OF plain(2) assms(5-8)] by (simp add: Let_def)
next
  case (escape a b ys)
  then show ?thesis using assms(3,4,7,8) escapes [OF escape(5) assms(5-8)] by (simp add: Let_def schar_percent)
qed

lemma closed:
  "cs \<in> S \<Longrightarrow> (\<And>c n. c \<in> set xs \<Longrightarrow> n \<in> S \<Longrightarrow> \<exists>m\<in>S. move T relaxed n (schar c) = Move [] m) \<Longrightarrow>
   \<exists>n\<in>S. machine_run T relaxed breaks act cs p (xs @ rest) s = machine_run T relaxed breaks act n (p + length xs) rest s"
proof (induction xs arbitrary: cs p)
  case (Cons c xs)
  obtain m where m: "m \<in> S" "move T relaxed cs (schar c) = Move [] m" using Cons.prems(2) [of c cs] Cons.prems(1) by auto
  obtain n where "n \<in> S" "machine_run T relaxed breaks act m (p + 1) (xs @ rest) s
      = machine_run T relaxed breaks act n (p + 1 + length xs) rest s"
    using Cons.IH [OF m(1), of "p + 1"] Cons.prems(2) by auto
  with m(2) show ?case by (intro bexI [of _ n]) auto
qed auto

end

text \<open>
  A stretch of text that the machine reads from one state to another, whatever stands before and
  behind it, has an effect on what the callbacks build; stretches compose. \<open>calm\<close> is what holds of the
  parser's record between them.
\<close>

locale stretches =
  fixes T :: "'a block list" and relaxed :: bool and breaks :: "'a \<Rightarrow> bool"
    and act :: "string \<Rightarrow> 'a \<Rightarrow> nat \<Rightarrow> 's \<times> 'e list \<Rightarrow> 's \<times> 'e list"
    and calm :: "'s \<Rightarrow> bool" and eff :: "'e list \<Rightarrow> ('q \<Rightarrow> 'q) \<Rightarrow> bool"
  assumes eff_Nil: "eff [] id"
    and eff_append: "eff es f \<Longrightarrow> eff fs g \<Longrightarrow> eff (es @ fs) (g \<circ> f)"
begin

definition reads :: "nat \<Rightarrow> string \<Rightarrow> nat \<Rightarrow> ('q \<Rightarrow> 'q) \<Rightarrow> bool" where
  "reads cs xs cs' f \<longleftrightarrow> (\<forall>pre rest s evs. calm s \<longrightarrow> length (pre @ xs @ rest) < 2 ^ 64 \<longrightarrow>
     (\<exists>s' es. machine_run T relaxed breaks (act (pre @ xs @ rest)) cs (length pre) (xs @ rest) (s, evs)
            = machine_run T relaxed breaks (act (pre @ xs @ rest)) cs' (length pre + length xs) rest (s', evs @ es)
        \<and> calm s' \<and> eff es f))"

lemma readsD:
  assumes "reads cs xs cs' f" and "calm s" and "length (pre @ xs @ rest) < 2 ^ 64"
  obtains s' es where
    "machine_run T relaxed breaks (act (pre @ xs @ rest)) cs (length pre) (xs @ rest) (s, evs)
      = machine_run T relaxed breaks (act (pre @ xs @ rest)) cs' (length pre + length xs) rest (s', evs @ es)"
    "calm s'" "eff es f"
  using assms unfolding reads_def by blast

lemma reads_append:
  assumes "reads cs xs cs' f" and "reads cs' ys cs'' g"
  shows "reads cs (xs @ ys) cs'' (g \<circ> f)"
  unfolding reads_def
proof (intro allI impI)
  fix pre rest s evs
  assume q: "calm s" and l: "length (pre @ (xs @ ys) @ rest) < 2 ^ 64"
  let ?run = "machine_run T relaxed breaks (act (pre @ xs @ ys @ rest))"
  obtain s1 es where 1: "?run cs (length pre) (xs @ ys @ rest) (s, evs)
      = ?run cs' (length pre + length xs) (ys @ rest) (s1, evs @ es)" "calm s1" "eff es f"
    using readsD [OF assms(1) q, of pre "ys @ rest" evs] l by auto
  obtain s2 fs where 2: "machine_run T relaxed breaks (act ((pre @ xs) @ ys @ rest)) cs' (length (pre @ xs)) (ys @ rest) (s1, evs @ es)
      = machine_run T relaxed breaks (act ((pre @ xs) @ ys @ rest)) cs'' (length (pre @ xs) + length ys) rest (s2, (evs @ es) @ fs)"
    "calm s2" "eff fs g"
    using readsD [OF assms(2) 1(2), of "pre @ xs" rest "evs @ es"] l by auto
  show "\<exists>s' es. machine_run T relaxed breaks (act (pre @ (xs @ ys) @ rest)) cs (length pre) ((xs @ ys) @ rest) (s, evs)
      = machine_run T relaxed breaks (act (pre @ (xs @ ys) @ rest)) cs'' (length pre + length (xs @ ys)) rest (s', evs @ es)
      \<and> calm s' \<and> eff es (g \<circ> f)"
    using 1 2 eff_append [OF 1(3) 2(3)] by (intro exI [of _ s2] exI [of _ "es @ fs"]) (simp add: add.assoc)
qed

lemma reads_Nil: "reads cs [] cs id"
  unfolding reads_def by (auto intro!: exI [of _ "[]"] simp: eff_Nil)

lemma reads_concat: "(\<And>x. x \<in> set xs \<Longrightarrow> reads cs (line x) cs (f x)) \<Longrightarrow> reads cs (concat (map line xs)) cs (fold f xs)"
proof (induction xs)
  case (Cons x xs)
  then show ?case using reads_append [of cs "line x" cs "f x" "concat (map line xs)" cs "fold f xs"] by (simp add: comp_def)
qed (simp add: reads_Nil)

end

declare machine_run.simps(2) [simp del]

end
