(* ===== verification/HttpTable.thy ===== *)
theory HttpTable
  imports Ragel
begin

text \<open>
  The blocks of http/http11_parser.cc, the machine for requests, in the order of the file. Each list
  holds the \<open>case\<close> blocks, as their ranges of characters, and the \<open>tr\<close> blocks, as their actions, of a
  stretch of the generated function.
\<close>

datatype http_act =
    H_mark | H_start_field | H_write_field | H_start_value | H_write_value | H_request_method | H_request_uri
  | H_fragment | H_start_query | H_query_string | H_http_version | H_request_path | H_done | H_xml | H_json

definition http_blocks_1 :: "http_act block list" where
  "http_blocks_1 =
    [State 1 [(48, 57, Tr 0), (60, 60, Tr 2), (64, 64, Tr 3), (65, 90, Tr 0)],
     Trans 0 [H_mark] 2,
     State 2 [(32, 32, Tr 4), (48, 57, St 175), (65, 90, St 175)],
     Trans 4 [H_request_method] 3,
     Wide 3 [(32, 32, Tr 6), (33, 33, Tr 7), (35, 35, Tr 8), (36, 36, Tr 7), (37, 37, Tr 9), (38, 46, Tr 7),
        (47, 47, Tr 10), (48, 57, Tr 7), (59, 59, Tr 7), (61, 61, Tr 7), (63, 63, Tr 11), (64, 64, Tr 7),
        (65, 90, Tr 12), (95, 95, Tr 7), (97, 122, Tr 12), (126, 126, Tr 7), (606, 606, Tr 7), (635, 635, Tr 7),
        (637, 637, Tr 7)],
     Trans 6 [H_mark, H_request_path, H_request_uri] 4,
     Trans 37 [H_request_path, H_request_uri] 4,
     Trans 44 [H_mark, H_fragment] 4,
     Trans 47 [H_fragment] 4,
     Trans 54 [H_start_query, H_query_string, H_request_uri] 4]"

definition http_blocks_2 :: "http_act block list" where
  "http_blocks_2 =
    [Trans 58 [H_query_string, H_request_uri] 4,
     State 4 [(72, 72, Tr 13)],
     Trans 13 [H_mark] 5,
     State 5 [(84, 84, St 6)],
     State 6 [(84, 84, St 7)],
     State 7 [(80, 80, St 8)],
     State 8 [(47, 47, St 9)],
     State 9 [(49, 49, St 10)],
     State 10 [(46, 46, St 11)],
     State 11 [(48, 49, St 12)],
     State 12 [(10, 10, Tr 21), (13, 13, Tr 22)],
     Trans 21 [H_http_version] 13,
     Trans 30 [H_start_value, H_write_value] 13,
     Trans 33 [H_write_value] 13,
     State 13 [(1, 8, Tr 23), (10, 10, Tr 24), (11, 12, Tr 23), (13, 13, Tr 25), (14, 31, Tr 23), (33, 33, Tr 23),
        (35, 39, Tr 23), (42, 43, Tr 23), (45, 46, Tr 23), (48, 57, Tr 23), (65, 90, Tr 23), (94, 122, Tr 23),
        (124, 124, Tr 23), (126, 126, Tr 23)],
     Trans 23 [H_start_field] 14]"

definition http_blocks_3 :: "http_act block list" where
  "http_blocks_3 =
    [State 14 [(1, 8, St 14), (10, 31, St 14), (33, 33, St 14), (35, 39, St 14), (42, 43, St 14), (45, 46, St 14),
        (48, 57, St 14), (58, 58, Tr 27), (65, 90, St 14), (94, 122, St 14), (124, 124, St 14), (126, 126, St 14)],
     Trans 27 [H_write_field] 15,
     Trans 29 [H_start_value] 15,
     State 15 [(- 128, - 1, Tr 28), (1, 8, Tr 28), (9, 9, Tr 29), (10, 10, Tr 30), (11, 12, Tr 28), (13, 13, Tr 31),
        (14, 31, Tr 28), (32, 32, Tr 29), (33, 126, Tr 28)],
     Trans 28 [H_start_value] 16,
     State 16 [(- 128, - 1, St 16), (1, 9, St 16), (10, 10, Tr 33), (11, 12, St 16), (13, 13, Tr 34),
        (14, 126, St 16)],
     Trans 22 [H_http_version] 17,
     Trans 31 [H_start_value, H_write_value] 17,
     Trans 34 [H_write_value] 17,
     State 17 [(10, 10, St 13)],
     Trans 24 [H_start_field, H_done] 348,
     Trans 36 [H_done] 348]"

definition http_blocks_4 :: "http_act block list" where
  "http_blocks_4 =
    [State 348 [(1, 8, St 14), (10, 31, St 14), (33, 33, St 14), (35, 39, St 14), (42, 43, St 14), (45, 46, St 14),
        (48, 57, St 14), (58, 58, Tr 27), (65, 90, St 14), (94, 122, St 14), (124, 124, St 14), (126, 126, St 14)],
     Trans 25 [H_start_field] 18,
     State 18 [(1, 8, St 14), (10, 10, Tr 36), (11, 31, St 14), (33, 33, St 14), (35, 39, St 14), (42, 43, St 14),
        (45, 46, St 14), (48, 57, St 14), (58, 58, Tr 27), (65, 90, St 14), (94, 122, St 14), (124, 124, St 14),
        (126, 126, St 14)],
     Trans 7 [H_mark] 19,
     Wide 19 [(32, 32, Tr 37), (33, 33, St 19), (35, 35, Tr 39), (36, 36, St 19), (37, 37, St 24), (38, 46, St 19),
        (47, 47, St 26), (48, 57, St 19), (59, 59, St 19), (61, 61, St 19), (63, 63, Tr 42), (64, 90, St 19),
        (95, 95, St 19), (97, 122, St 19), (126, 126, St 19), (606, 606, St 19), (635, 635, St 19), (637, 637, St 19)],
     Trans 8 [H_mark, H_request_path, H_request_uri] 20]"

definition http_blocks_5 :: "http_act block list" where
  "http_blocks_5 =
    [Trans 39 [H_request_path, H_request_uri] 20,
     Trans 55 [H_start_query, H_query_string, H_request_uri] 20,
     Trans 59 [H_query_string, H_request_uri] 20,
     Wide 20 [(- 128, - 1, Tr 43), (32, 32, Tr 44), (33, 33, Tr 43), (36, 36, Tr 43), (37, 37, Tr 45),
        (38, 59, Tr 43), (61, 61, Tr 43), (63, 90, Tr 43), (95, 95, Tr 43), (97, 122, Tr 43), (126, 126, Tr 43),
        (606, 606, Tr 43), (635, 635, Tr 43), (637, 637, Tr 43)],
     Trans 43 [H_mark] 21,
     Wide 21 [(- 128, - 1, St 21), (32, 32, Tr 47), (33, 33, St 21), (36, 36, St 21), (37, 37, St 22),
        (38, 59, St 21), (61, 61, St 21), (63, 90, St 21), (95, 95, St 21), (97, 122, St 21), (126, 126, St 21),
        (606, 606, St 21), (635, 635, St 21), (637, 637, St 21)],
     Trans 45 [H_mark] 22]"

definition http_blocks_6 :: "http_act block list" where
  "http_blocks_6 =
    [State 22 [(48, 57, St 23), (65, 70, St 23), (97, 102, St 23)],
     State 23 [(48, 57, St 21), (65, 70, St 21), (97, 102, St 21)],
     Trans 9 [H_mark] 24,
     State 24 [(48, 57, St 25), (65, 70, St 25), (97, 102, St 25)],
     State 25 [(48, 57, St 19), (65, 70, St 19), (97, 102, St 19)],
     Trans 203 [H_mark] 26,
     Wide 26 [(- 128, - 1, St 26), (32, 32, Tr 37), (33, 33, St 26), (35, 35, Tr 39), (36, 36, St 26),
        (37, 37, St 27), (38, 59, St 26), (61, 61, St 26), (63, 63, Tr 42), (64, 90, St 26), (95, 95, St 26),
        (97, 122, St 26), (126, 126, St 26), (606, 606, St 26), (635, 635, St 26), (637, 637, St 26)],
     Trans 204 [H_mark] 27,
     State 27 [(48, 57, St 28), (65, 70, St 28), (97, 102, St 28)],
     State 28 [(48, 57, St 26), (65, 70, St 26), (97, 102, St 26)],
     Trans 11 [H_mark, H_request_path] 29]"

definition http_blocks_7 :: "http_act block list" where
  "http_blocks_7 =
    [Trans 42 [H_request_path] 29,
     Wide 29 [(- 128, - 1, Tr 53), (32, 32, Tr 54), (33, 33, Tr 53), (35, 35, Tr 55), (36, 36, Tr 53),
        (37, 37, Tr 56), (38, 59, Tr 53), (61, 61, Tr 53), (63, 90, Tr 53), (95, 95, Tr 53), (97, 122, Tr 53),
        (126, 126, Tr 53), (606, 606, Tr 53), (635, 635, Tr 53), (637, 637, Tr 53)],
     Trans 53 [H_start_query] 30,
     Wide 30 [(- 128, - 1, St 30), (32, 32, Tr 58), (33, 33, St 30), (35, 35, Tr 59), (36, 36, St 30),
        (37, 37, St 31), (38, 59, St 30), (61, 61, St 30), (63, 90, St 30), (95, 95, St 30), (97, 122, St 30),
        (126, 126, St 30), (606, 606, St 30), (635, 635, St 30), (637, 637, St 30)],
     Trans 56 [H_start_query] 31,
     State 31 [(48, 57, St 32), (65, 70, St 32), (97, 102, St 32)],
     State 32 [(48, 57, St 30), (65, 70, St 30), (97, 102, St 30)],
     Trans 10 [H_mark] 33]"

definition http_blocks_8 :: "http_act block list" where
  "http_blocks_8 =
    [Wide 33 [(- 128, - 1, St 26), (32, 32, Tr 37), (33, 33, St 26), (35, 35, Tr 39), (36, 36, St 26),
        (37, 37, St 27), (38, 46, St 26), (47, 47, St 34), (48, 59, St 26), (61, 61, St 26), (63, 63, Tr 42),
        (64, 90, St 26), (95, 95, St 26), (97, 122, St 26), (126, 126, St 26), (606, 606, St 26), (635, 635, St 26),
        (637, 637, St 26)],
     Wide 34 [(32, 32, Tr 37), (33, 33, St 35), (35, 35, Tr 39), (36, 36, St 35), (37, 37, St 36), (38, 46, St 35),
        (47, 47, St 26), (48, 57, St 35), (58, 58, St 38), (59, 59, St 35), (61, 61, St 35), (63, 63, Tr 42),
        (64, 64, St 42), (65, 90, St 35), (91, 91, St 47), (95, 95, St 35), (97, 122, St 35), (126, 126, St 35),
        (606, 606, St 35), (635, 635, St 35), (637, 637, St 35)],
     Wide 35 [(32, 32, Tr 37), (33, 33, St 35), (35, 35, Tr 39), (36, 36, St 35), (37, 37, St 36), (38, 46, St 35),
        (47, 47, St 26), (48, 57, St 35), (58, 58, St 38), (59, 59, St 35), (61, 61, St 35), (63, 63, Tr 42),
        (64, 64, St 42), (65, 90, St 35), (95, 95, St 35), (97, 122, St 35), (126, 126, St 35), (606, 606, St 35),
        (635, 635, St 35), (637, 637, St 35)]]"

definition http_blocks_9 :: "http_act block list" where
  "http_blocks_9 =
    [State 36 [(48, 57, St 37), (65, 70, St 37), (97, 102, St 37)],
     State 37 [(48, 57, St 35), (65, 70, St 35), (97, 102, St 35)],
     Wide 38 [(32, 32, Tr 37), (33, 33, St 39), (35, 35, Tr 39), (36, 36, St 39), (37, 37, St 40), (38, 46, St 39),
        (47, 47, St 26), (48, 57, St 38), (58, 59, St 39), (61, 61, St 39), (63, 63, Tr 42), (64, 64, St 42),
        (65, 90, St 39), (95, 95, St 39), (97, 122, St 39), (126, 126, St 39), (606, 606, St 39), (635, 635, St 39),
        (637, 637, St 39)],
     Wide 39 [(33, 33, St 39), (36, 36, St 39), (37, 37, St 40), (38, 46, St 39), (48, 59, St 39), (61, 61, St 39),
        (64, 64, St 42), (65, 90, St 39), (95, 95, St 39), (97, 122, St 39), (126, 126, St 39), (606, 606, St 39),
        (635, 635, St 39), (637, 637, St 39)],
     State 40 [(48, 57, St 41), (65, 70, St 41), (97, 102, St 41)]]"

definition http_blocks_10 :: "http_act block list" where
  "http_blocks_10 =
    [State 41 [(48, 57, St 39), (65, 70, St 39), (97, 102, St 39)],
     Wide 42 [(32, 32, Tr 37), (33, 33, St 43), (35, 35, Tr 39), (36, 36, St 43), (37, 37, St 44), (38, 46, St 43),
        (47, 47, St 26), (48, 57, St 43), (58, 58, St 46), (59, 59, St 43), (61, 61, St 43), (63, 63, Tr 42),
        (65, 90, St 43), (91, 91, St 47), (95, 95, St 43), (97, 122, St 43), (126, 126, St 43), (606, 606, St 43),
        (635, 635, St 43), (637, 637, St 43)],
     Wide 43 [(32, 32, Tr 37), (33, 33, St 43), (35, 35, Tr 39), (36, 36, St 43), (37, 37, St 44), (38, 46, St 43),
        (47, 47, St 26), (48, 57, St 43), (58, 58, St 46), (59, 59, St 43), (61, 61, St 43), (63, 63, Tr 42),
        (65, 90, St 43), (95, 95, St 43), (97, 122, St 43), (126, 126, St 43), (606, 606, St 43), (635, 635, St 43),
        (637, 637, St 43)],
     State 44 [(48, 57, St 45), (65, 70, St 45), (97, 102, St 45)],
     State 45 [(48, 57, St 43), (65, 70, St 43), (97, 102, St 43)],
     State 46 [(32, 32, Tr 37), (35, 35, Tr 39), (47, 47, St 26), (48, 57, St 46), (63, 63, Tr 42)]]"

definition http_blocks_11 :: "http_act block list" where
  "http_blocks_11 =
    [State 47 [(6, 6, St 48), (48, 57, St 91), (58, 58, St 167), (65, 70, St 91), (97, 102, St 91),
        (118, 118, St 169)],
     State 48 [(48, 57, St 49), (65, 70, St 49), (97, 102, St 49)],
     State 49 [(48, 57, St 50), (58, 58, St 53), (65, 70, St 50), (97, 102, St 50)],
     State 50 [(48, 57, St 51), (58, 58, St 53), (65, 70, St 51), (97, 102, St 51)],
     State 51 [(48, 57, St 52), (58, 58, St 53), (65, 70, St 52), (97, 102, St 52)],
     State 52 [(58, 58, St 53)],
     State 53 [(48, 48, St 54), (49, 49, St 84), (50, 50, St 87), (51, 57, St 54), (65, 70, St 90), (97, 102, St 90)],
     State 54 [(46, 46, St 55), (48, 57, St 77), (58, 58, St 80), (65, 70, St 77), (97, 102, St 77)],
     State 55 [(48, 48, St 56), (49, 49, St 72), (50, 50, St 74), (51, 57, St 56)],
     State 56 [(46, 46, St 57)],
     State 57 [(48, 48, St 58), (49, 49, St 67), (50, 50, St 69), (51, 57, St 58)],
     State 58 [(46, 46, St 59)]]"

definition http_blocks_12 :: "http_act block list" where
  "http_blocks_12 =
    [State 59 [(48, 48, St 60), (49, 49, St 62), (50, 50, St 64), (51, 57, St 60)],
     State 60 [(93, 93, St 61)],
     State 61 [(32, 32, Tr 37), (35, 35, Tr 39), (47, 47, St 26), (58, 58, St 46), (63, 63, Tr 42)],
     State 62 [(48, 57, St 63), (93, 93, St 61)],
     State 63 [(48, 57, St 60), (93, 93, St 61)],
     State 64 [(48, 48, St 65), (53, 53, St 66), (93, 93, St 61)],
     State 65 [(48, 57, St 60)],
     State 66 [(48, 48, St 60)],
     State 67 [(46, 46, St 59), (48, 57, St 68)],
     State 68 [(46, 46, St 59), (48, 57, St 58)],
     State 69 [(46, 46, St 59), (48, 48, St 70), (53, 53, St 71)],
     State 70 [(48, 57, St 58)],
     State 71 [(48, 48, St 58)],
     State 72 [(46, 46, St 57), (48, 57, St 73)],
     State 73 [(46, 46, St 57), (48, 57, St 56)],
     State 74 [(46, 46, St 57), (48, 48, St 75), (53, 53, St 76)],
     State 75 [(48, 57, St 56)]]"

definition http_blocks_13 :: "http_act block list" where
  "http_blocks_13 =
    [State 76 [(48, 48, St 56)],
     State 77 [(48, 57, St 78), (58, 58, St 80), (65, 70, St 78), (97, 102, St 78)],
     State 78 [(48, 57, St 79), (58, 58, St 80), (65, 70, St 79), (97, 102, St 79)],
     State 79 [(58, 58, St 80)],
     State 80 [(48, 57, St 81), (65, 70, St 81), (97, 102, St 81)],
     State 81 [(48, 57, St 82), (65, 70, St 82), (93, 93, St 61), (97, 102, St 82)],
     State 82 [(48, 57, St 83), (65, 70, St 83), (93, 93, St 61), (97, 102, St 83)],
     State 83 [(48, 57, St 60), (65, 70, St 60), (93, 93, St 61), (97, 102, St 60)],
     State 84 [(46, 46, St 55), (48, 57, St 85), (58, 58, St 80), (65, 70, St 77), (97, 102, St 77)],
     State 85 [(46, 46, St 55), (48, 57, St 86), (58, 58, St 80), (65, 70, St 78), (97, 102, St 78)],
     State 86 [(46, 46, St 55), (48, 57, St 79), (58, 58, St 80), (65, 70, St 79), (97, 102, St 79)]]"

definition http_blocks_14 :: "http_act block list" where
  "http_blocks_14 =
    [State 87 [(46, 46, St 55), (48, 48, St 88), (49, 52, St 77), (53, 53, St 89), (54, 57, St 77), (58, 58, St 80),
        (65, 70, St 77), (97, 102, St 77)],
     State 88 [(48, 57, St 86), (58, 58, St 80), (65, 70, St 78), (97, 102, St 78)],
     State 89 [(48, 48, St 86), (49, 57, St 78), (58, 58, St 80), (65, 70, St 78), (97, 102, St 78)],
     State 90 [(48, 57, St 77), (58, 58, St 80), (65, 70, St 77), (97, 102, St 77)],
     State 91 [(48, 57, St 92), (58, 58, St 95), (65, 70, St 92), (97, 102, St 92)],
     State 92 [(48, 57, St 93), (58, 58, St 95), (65, 70, St 93), (97, 102, St 93)],
     State 93 [(48, 57, St 94), (58, 58, St 95), (65, 70, St 94), (97, 102, St 94)],
     State 94 [(58, 58, St 95)],
     State 95 [(48, 57, St 96), (58, 58, St 166), (65, 70, St 96), (97, 102, St 96)],
     State 96 [(48, 57, St 97), (58, 58, St 100), (65, 70, St 97), (97, 102, St 97)]]"

definition http_blocks_15 :: "http_act block list" where
  "http_blocks_15 =
    [State 97 [(48, 57, St 98), (58, 58, St 100), (65, 70, St 98), (97, 102, St 98)],
     State 98 [(48, 57, St 99), (58, 58, St 100), (65, 70, St 99), (97, 102, St 99)],
     State 99 [(58, 58, St 100)],
     State 100 [(48, 57, St 101), (58, 58, St 165), (65, 70, St 101), (97, 102, St 101)],
     State 101 [(48, 57, St 102), (58, 58, St 105), (65, 70, St 102), (97, 102, St 102)],
     State 102 [(48, 57, St 103), (58, 58, St 105), (65, 70, St 103), (97, 102, St 103)],
     State 103 [(48, 57, St 104), (58, 58, St 105), (65, 70, St 104), (97, 102, St 104)],
     State 104 [(58, 58, St 105)],
     State 105 [(48, 57, St 106), (58, 58, St 164), (65, 70, St 106), (97, 102, St 106)],
     State 106 [(48, 57, St 107), (58, 58, St 110), (65, 70, St 107), (97, 102, St 107)],
     State 107 [(48, 57, St 108), (58, 58, St 110), (65, 70, St 108), (97, 102, St 108)]]"

definition http_blocks_16 :: "http_act block list" where
  "http_blocks_16 =
    [State 108 [(48, 57, St 109), (58, 58, St 110), (65, 70, St 109), (97, 102, St 109)],
     State 109 [(58, 58, St 110)],
     State 110 [(48, 57, St 111), (58, 58, St 163), (65, 70, St 111), (97, 102, St 111)],
     State 111 [(48, 57, St 112), (58, 58, St 115), (65, 70, St 112), (97, 102, St 112)],
     State 112 [(48, 57, St 113), (58, 58, St 115), (65, 70, St 113), (97, 102, St 113)],
     State 113 [(48, 57, St 114), (58, 58, St 115), (65, 70, St 114), (97, 102, St 114)],
     State 114 [(58, 58, St 115)],
     State 115 [(48, 57, St 116), (58, 58, St 151), (65, 70, St 116), (97, 102, St 116)],
     State 116 [(48, 57, St 117), (58, 58, St 120), (65, 70, St 117), (97, 102, St 117)],
     State 117 [(48, 57, St 118), (58, 58, St 120), (65, 70, St 118), (97, 102, St 118)],
     State 118 [(48, 57, St 119), (58, 58, St 120), (65, 70, St 119), (97, 102, St 119)]]"

definition http_blocks_17 :: "http_act block list" where
  "http_blocks_17 =
    [State 119 [(58, 58, St 120)],
     State 120 [(48, 57, St 121), (58, 58, St 150), (65, 70, St 121), (97, 102, St 121)],
     State 121 [(48, 57, St 122), (58, 58, St 125), (65, 70, St 122), (97, 102, St 122)],
     State 122 [(48, 57, St 123), (58, 58, St 125), (65, 70, St 123), (97, 102, St 123)],
     State 123 [(48, 57, St 124), (58, 58, St 125), (65, 70, St 124), (97, 102, St 124)],
     State 124 [(58, 58, St 125)],
     State 125 [(48, 57, St 121), (58, 58, St 126), (65, 70, St 121), (97, 102, St 121)],
     State 126 [(2, 3, St 48), (48, 48, St 127), (49, 49, St 143), (50, 50, St 146), (51, 57, St 127),
        (65, 70, St 149), (93, 93, St 61), (97, 102, St 149)],
     State 127 [(46, 46, St 55), (48, 57, St 128), (58, 58, St 131), (65, 70, St 128), (93, 93, St 61),
        (97, 102, St 128)],
     State 128 [(48, 57, St 129), (58, 58, St 131), (65, 70, St 129), (93, 93, St 61), (97, 102, St 129)]]"

definition http_blocks_18 :: "http_act block list" where
  "http_blocks_18 =
    [State 129 [(48, 57, St 130), (58, 58, St 131), (65, 70, St 130), (93, 93, St 61), (97, 102, St 130)],
     State 130 [(58, 58, St 131), (93, 93, St 61)],
     State 131 [(48, 48, St 132), (49, 49, St 136), (50, 50, St 139), (51, 57, St 132), (65, 70, St 142),
        (97, 102, St 142)],
     State 132 [(46, 46, St 55), (48, 57, St 133), (58, 58, St 80), (65, 70, St 133), (93, 93, St 61),
        (97, 102, St 133)],
     State 133 [(48, 57, St 134), (58, 58, St 80), (65, 70, St 134), (93, 93, St 61), (97, 102, St 134)],
     State 134 [(48, 57, St 135), (58, 58, St 80), (65, 70, St 135), (93, 93, St 61), (97, 102, St 135)],
     State 135 [(58, 58, St 80), (93, 93, St 61)],
     State 136 [(46, 46, St 55), (48, 57, St 137), (58, 58, St 80), (65, 70, St 133), (93, 93, St 61),
        (97, 102, St 133)],
     State 137 [(46, 46, St 55), (48, 57, St 138), (58, 58, St 80), (65, 70, St 134), (93, 93, St 61),
        (97, 102, St 134)]]"

definition http_blocks_19 :: "http_act block list" where
  "http_blocks_19 =
    [State 138 [(46, 46, St 55), (48, 57, St 135), (58, 58, St 80), (65, 70, St 135), (93, 93, St 61),
        (97, 102, St 135)],
     State 139 [(46, 46, St 55), (48, 48, St 140), (49, 52, St 133), (53, 53, St 141), (54, 57, St 133),
        (58, 58, St 80), (65, 70, St 133), (93, 93, St 61), (97, 102, St 133)],
     State 140 [(48, 57, St 138), (58, 58, St 80), (65, 70, St 134), (93, 93, St 61), (97, 102, St 134)],
     State 141 [(48, 48, St 138), (49, 57, St 134), (58, 58, St 80), (65, 70, St 134), (93, 93, St 61),
        (97, 102, St 134)],
     State 142 [(48, 57, St 133), (58, 58, St 80), (65, 70, St 133), (93, 93, St 61), (97, 102, St 133)],
     State 143 [(46, 46, St 55), (48, 57, St 144), (58, 58, St 131), (65, 70, St 128), (93, 93, St 61),
        (97, 102, St 128)],
     State 144 [(46, 46, St 55), (48, 57, St 145), (58, 58, St 131), (65, 70, St 129), (93, 93, St 61),
        (97, 102, St 129)],
     State 145 [(46, 46, St 55), (48, 57, St 130), (58, 58, St 131), (65, 70, St 130), (93, 93, St 61),
        (97, 102, St 130)]]"

definition http_blocks_20 :: "http_act block list" where
  "http_blocks_20 =
    [State 146 [(46, 46, St 55), (48, 48, St 147), (49, 52, St 128), (53, 53, St 148), (54, 57, St 128),
        (58, 58, St 131), (65, 70, St 128), (93, 93, St 61), (97, 102, St 128)],
     State 147 [(48, 57, St 145), (58, 58, St 131), (65, 70, St 129), (93, 93, St 61), (97, 102, St 129)],
     State 148 [(48, 48, St 145), (49, 57, St 129), (58, 58, St 131), (65, 70, St 129), (93, 93, St 61),
        (97, 102, St 129)],
     State 149 [(48, 57, St 128), (58, 58, St 131), (65, 70, St 128), (93, 93, St 61), (97, 102, St 128)],
     State 150 [(2, 3, St 48), (48, 48, St 127), (49, 49, St 143), (50, 50, St 146), (51, 57, St 127),
        (65, 70, St 149), (97, 102, St 149)],
     State 151 [(2, 3, St 48), (48, 48, St 152), (49, 49, St 156), (50, 50, St 159), (51, 57, St 152),
        (65, 70, St 162), (97, 102, St 162)],
     State 152 [(46, 46, St 55), (48, 57, St 153), (58, 58, St 131), (65, 70, St 153), (97, 102, St 153)],
     State 153 [(48, 57, St 154), (58, 58, St 131), (65, 70, St 154), (97, 102, St 154)]]"

definition http_blocks_21 :: "http_act block list" where
  "http_blocks_21 =
    [State 154 [(48, 57, St 155), (58, 58, St 131), (65, 70, St 155), (97, 102, St 155)],
     State 155 [(58, 58, St 131)],
     State 156 [(46, 46, St 55), (48, 57, St 157), (58, 58, St 131), (65, 70, St 153), (97, 102, St 153)],
     State 157 [(46, 46, St 55), (48, 57, St 158), (58, 58, St 131), (65, 70, St 154), (97, 102, St 154)],
     State 158 [(46, 46, St 55), (48, 57, St 155), (58, 58, St 131), (65, 70, St 155), (97, 102, St 155)],
     State 159 [(46, 46, St 55), (48, 48, St 160), (49, 52, St 153), (53, 53, St 161), (54, 57, St 153),
        (58, 58, St 131), (65, 70, St 153), (97, 102, St 153)],
     State 160 [(48, 57, St 158), (58, 58, St 131), (65, 70, St 154), (97, 102, St 154)],
     State 161 [(48, 48, St 158), (49, 57, St 154), (58, 58, St 131), (65, 70, St 154), (97, 102, St 154)],
     State 162 [(48, 57, St 153), (58, 58, St 131), (65, 70, St 153), (97, 102, St 153)]]"

definition http_blocks_22 :: "http_act block list" where
  "http_blocks_22 =
    [State 163 [(2, 3, St 48), (48, 57, St 49), (65, 70, St 49), (97, 102, St 49)],
     State 164 [(2, 3, St 48)],
     State 165 [(3, 3, St 48)],
     State 166 [(4, 4, St 48)],
     State 167 [(58, 58, St 168)],
     State 168 [(2, 5, St 48), (48, 48, St 127), (49, 49, St 143), (50, 50, St 146), (51, 57, St 127),
        (65, 70, St 149), (93, 93, St 61), (97, 102, St 149)],
     State 169 [(48, 57, St 170), (65, 70, St 170), (97, 102, St 170)],
     State 170 [(46, 46, St 171), (48, 57, St 170), (65, 70, St 170), (97, 102, St 170)],
     Wide 171 [(33, 33, St 172), (36, 36, St 172), (38, 46, St 172), (48, 59, St 172), (61, 61, St 172),
        (65, 90, St 172), (95, 95, St 172), (97, 122, St 172), (126, 126, St 172), (606, 606, St 172),
        (635, 635, St 172), (637, 637, St 172)]]"

definition http_blocks_23 :: "http_act block list" where
  "http_blocks_23 =
    [Wide 172 [(33, 33, St 172), (36, 36, St 172), (38, 46, St 172), (48, 59, St 172), (61, 61, St 172),
        (65, 90, St 172), (93, 93, St 61), (95, 95, St 172), (97, 122, St 172), (126, 126, St 172), (606, 606, St 172),
        (635, 635, St 172), (637, 637, St 172)],
     Trans 12 [H_mark] 173,
     Wide 173 [(32, 32, Tr 37), (33, 33, St 19), (35, 35, Tr 39), (36, 36, St 19), (37, 37, St 24), (38, 42, St 19),
        (43, 43, St 173), (44, 44, St 19), (45, 46, St 173), (47, 47, St 26), (48, 57, St 173), (58, 58, St 174),
        (59, 59, St 19), (61, 61, St 19), (63, 63, Tr 42), (64, 64, St 19), (65, 90, St 173), (95, 95, St 19),
        (97, 122, St 173), (126, 126, St 19), (606, 606, St 19), (635, 635, St 19), (637, 637, St 19)]]"

definition http_blocks_24 :: "http_act block list" where
  "http_blocks_24 =
    [Wide 174 [(- 128, - 1, Tr 203), (32, 32, Tr 6), (33, 33, Tr 203), (35, 35, Tr 8), (36, 36, Tr 203),
        (37, 37, Tr 204), (38, 46, Tr 203), (47, 47, Tr 10), (48, 59, Tr 203), (61, 61, Tr 203), (63, 63, Tr 11),
        (64, 90, Tr 203), (95, 95, Tr 203), (97, 122, Tr 203), (126, 126, Tr 203), (606, 606, Tr 203),
        (635, 635, Tr 203), (637, 637, Tr 203)],
     State 175 [(32, 32, Tr 4), (48, 57, St 176), (65, 90, St 176)],
     State 176 [(32, 32, Tr 4), (48, 57, St 177), (65, 90, St 177)],
     State 177 [(32, 32, Tr 4), (48, 57, St 178), (65, 90, St 178)],
     State 178 [(32, 32, Tr 4), (48, 57, St 179), (65, 90, St 179)],
     State 179 [(32, 32, Tr 4), (48, 57, St 180), (65, 90, St 180)],
     State 180 [(32, 32, Tr 4), (48, 57, St 181), (65, 90, St 181)],
     State 181 [(32, 32, Tr 4), (48, 57, St 182), (65, 90, St 182)],
     State 182 [(32, 32, Tr 4), (48, 57, St 183), (65, 90, St 183)]]"

definition http_blocks_25 :: "http_act block list" where
  "http_blocks_25 =
    [State 183 [(32, 32, Tr 4), (48, 57, St 184), (65, 90, St 184)],
     State 184 [(32, 32, Tr 4), (48, 57, St 185), (65, 90, St 185)],
     State 185 [(32, 32, Tr 4), (48, 57, St 186), (65, 90, St 186)],
     State 186 [(32, 32, Tr 4), (48, 57, St 187), (65, 90, St 187)],
     State 187 [(32, 32, Tr 4), (48, 57, St 188), (65, 90, St 188)],
     State 188 [(32, 32, Tr 4), (48, 57, St 189), (65, 90, St 189)],
     State 189 [(32, 32, Tr 4), (48, 57, St 190), (65, 90, St 190)],
     State 190 [(32, 32, Tr 4), (48, 57, St 191), (65, 90, St 191)],
     State 191 [(32, 32, Tr 4), (48, 57, St 192), (65, 90, St 192)],
     State 192 [(32, 32, Tr 4), (48, 57, St 193), (65, 90, St 193)],
     State 193 [(32, 32, Tr 4)],
     Trans 2 [H_mark] 194,
     State 194 [(45, 46, St 195), (48, 57, St 195), (65, 90, St 195), (97, 122, St 195)]]"

definition http_blocks_26 :: "http_act block list" where
  "http_blocks_26 =
    [State 195 [(9, 13, Tr 224), (32, 32, Tr 224), (45, 46, St 195), (47, 47, Tr 224), (48, 57, St 195),
        (62, 62, Tr 224), (65, 90, St 195), (97, 122, St 195)],
     Trans 224 [H_request_path] 196,
     State 196 [(- 128, 61, St 196), (62, 62, St 197), (63, 127, St 196)],
     State 197 [(- 128, - 1, St 196), (0, 0, Tr 227), (1, 61, St 196), (62, 62, St 197), (63, 127, St 196)],
     Trans 227 [H_xml, H_done] 349,
     Trans 235 [H_json, H_done] 349,
     State 349 [],
     Trans 3 [H_mark] 198,
     Wide 198 [(32, 32, Tr 228), (33, 33, St 202), (36, 36, St 202), (37, 37, St 203), (38, 46, St 202),
        (47, 47, St 208), (48, 57, St 202), (59, 59, St 202), (61, 61, St 202), (64, 90, St 202), (95, 95, St 202),
        (97, 122, St 202), (126, 126, St 202), (606, 606, St 202), (635, 635, St 202), (637, 637, St 202)],
     Trans 228 [H_request_path] 199]"

definition http_blocks_27 :: "http_act block list" where
  "http_blocks_27 =
    [State 199 [(123, 123, Tr 232)],
     Trans 232 [H_mark] 200,
     State 200 [(- 128, 124, St 200), (125, 125, St 201), (126, 127, St 200)],
     State 201 [(- 128, - 1, St 200), (0, 0, Tr 235), (1, 124, St 200), (125, 125, St 201), (126, 127, St 200)],
     Wide 202 [(32, 32, Tr 228), (33, 33, St 202), (36, 36, St 202), (37, 37, St 203), (38, 46, St 202),
        (47, 47, St 205), (48, 57, St 202), (59, 59, St 202), (61, 61, St 202), (64, 90, St 202), (95, 95, St 202),
        (97, 122, St 202), (126, 126, St 202), (606, 606, St 202), (635, 635, St 202), (637, 637, St 202)],
     State 203 [(48, 57, St 204), (65, 70, St 204), (97, 102, St 204)],
     State 204 [(48, 57, St 202), (65, 70, St 202), (97, 102, St 202)],
     Wide 205 [(- 128, - 1, St 205), (32, 32, Tr 228), (33, 33, St 205), (36, 36, St 205), (37, 37, St 206),
        (38, 59, St 205), (61, 61, St 205), (64, 90, St 205), (95, 95, St 205), (97, 122, St 205), (126, 126, St 205),
        (606, 606, St 205), (635, 635, St 205), (637, 637, St 205)]]"

definition http_blocks_28 :: "http_act block list" where
  "http_blocks_28 =
    [State 206 [(48, 57, St 207), (65, 70, St 207), (97, 102, St 207)],
     State 207 [(48, 57, St 205), (65, 70, St 205), (97, 102, St 205)],
     Wide 208 [(- 128, - 1, St 205), (32, 32, Tr 228), (33, 33, St 205), (36, 36, St 205), (37, 37, St 206),
        (38, 46, St 205), (47, 47, St 209), (48, 59, St 205), (61, 61, St 205), (64, 90, St 205), (95, 95, St 205),
        (97, 122, St 205), (126, 126, St 205), (606, 606, St 205), (635, 635, St 205), (637, 637, St 205)],
     Wide 209 [(32, 32, Tr 228), (33, 33, St 210), (36, 36, St 210), (37, 37, St 211), (38, 46, St 210),
        (47, 47, St 205), (48, 57, St 210), (58, 58, St 213), (59, 59, St 210), (61, 61, St 210), (64, 64, St 217),
        (65, 90, St 210), (91, 91, St 222), (95, 95, St 210), (97, 122, St 210), (126, 126, St 210),
        (606, 606, St 210), (635, 635, St 210), (637, 637, St 210)]]"

definition http_blocks_29 :: "http_act block list" where
  "http_blocks_29 =
    [Wide 210 [(32, 32, Tr 228), (33, 33, St 210), (36, 36, St 210), (37, 37, St 211), (38, 46, St 210),
        (47, 47, St 205), (48, 57, St 210), (58, 58, St 213), (59, 59, St 210), (61, 61, St 210), (64, 64, St 217),
        (65, 90, St 210), (95, 95, St 210), (97, 122, St 210), (126, 126, St 210), (606, 606, St 210),
        (635, 635, St 210), (637, 637, St 210)],
     State 211 [(48, 57, St 212), (65, 70, St 212), (97, 102, St 212)],
     State 212 [(48, 57, St 210), (65, 70, St 210), (97, 102, St 210)],
     Wide 213 [(32, 32, Tr 228), (33, 33, St 214), (36, 36, St 214), (37, 37, St 215), (38, 46, St 214),
        (47, 47, St 205), (48, 57, St 213), (58, 59, St 214), (61, 61, St 214), (64, 64, St 217), (65, 90, St 214),
        (95, 95, St 214), (97, 122, St 214), (126, 126, St 214), (606, 606, St 214), (635, 635, St 214),
        (637, 637, St 214)]]"

definition http_blocks_30 :: "http_act block list" where
  "http_blocks_30 =
    [Wide 214 [(33, 33, St 214), (36, 36, St 214), (37, 37, St 215), (38, 46, St 214), (48, 59, St 214),
        (61, 61, St 214), (64, 64, St 217), (65, 90, St 214), (95, 95, St 214), (97, 122, St 214), (126, 126, St 214),
        (606, 606, St 214), (635, 635, St 214), (637, 637, St 214)],
     State 215 [(48, 57, St 216), (65, 70, St 216), (97, 102, St 216)],
     State 216 [(48, 57, St 214), (65, 70, St 214), (97, 102, St 214)],
     Wide 217 [(32, 32, Tr 228), (33, 33, St 218), (36, 36, St 218), (37, 37, St 219), (38, 46, St 218),
        (47, 47, St 205), (48, 57, St 218), (58, 58, St 221), (59, 59, St 218), (61, 61, St 218), (65, 90, St 218),
        (91, 91, St 222), (95, 95, St 218), (97, 122, St 218), (126, 126, St 218), (606, 606, St 218),
        (635, 635, St 218), (637, 637, St 218)]]"

definition http_blocks_31 :: "http_act block list" where
  "http_blocks_31 =
    [Wide 218 [(32, 32, Tr 228), (33, 33, St 218), (36, 36, St 218), (37, 37, St 219), (38, 46, St 218),
        (47, 47, St 205), (48, 57, St 218), (58, 58, St 221), (59, 59, St 218), (61, 61, St 218), (65, 90, St 218),
        (95, 95, St 218), (97, 122, St 218), (126, 126, St 218), (606, 606, St 218), (635, 635, St 218),
        (637, 637, St 218)],
     State 219 [(48, 57, St 220), (65, 70, St 220), (97, 102, St 220)],
     State 220 [(48, 57, St 218), (65, 70, St 218), (97, 102, St 218)],
     State 221 [(32, 32, Tr 228), (47, 47, St 205), (48, 57, St 221)],
     State 222 [(6, 6, St 223), (48, 57, St 266), (58, 58, St 342), (65, 70, St 266), (97, 102, St 266),
        (118, 118, St 344)],
     State 223 [(48, 57, St 224), (65, 70, St 224), (97, 102, St 224)],
     State 224 [(48, 57, St 225), (58, 58, St 228), (65, 70, St 225), (97, 102, St 225)],
     State 225 [(48, 57, St 226), (58, 58, St 228), (65, 70, St 226), (97, 102, St 226)]]"

definition http_blocks_32 :: "http_act block list" where
  "http_blocks_32 =
    [State 226 [(48, 57, St 227), (58, 58, St 228), (65, 70, St 227), (97, 102, St 227)],
     State 227 [(58, 58, St 228)],
     State 228 [(48, 48, St 229), (49, 49, St 259), (50, 50, St 262), (51, 57, St 229), (65, 70, St 265),
        (97, 102, St 265)],
     State 229 [(46, 46, St 230), (48, 57, St 252), (58, 58, St 255), (65, 70, St 252), (97, 102, St 252)],
     State 230 [(48, 48, St 231), (49, 49, St 247), (50, 50, St 249), (51, 57, St 231)],
     State 231 [(46, 46, St 232)],
     State 232 [(48, 48, St 233), (49, 49, St 242), (50, 50, St 244), (51, 57, St 233)],
     State 233 [(46, 46, St 234)],
     State 234 [(48, 48, St 235), (49, 49, St 237), (50, 50, St 239), (51, 57, St 235)],
     State 235 [(93, 93, St 236)],
     State 236 [(32, 32, Tr 228), (47, 47, St 205), (58, 58, St 221)],
     State 237 [(48, 57, St 238), (93, 93, St 236)],
     State 238 [(48, 57, St 235), (93, 93, St 236)],
     State 239 [(48, 48, St 240), (53, 53, St 241), (93, 93, St 236)]]"

definition http_blocks_33 :: "http_act block list" where
  "http_blocks_33 =
    [State 240 [(48, 57, St 235)],
     State 241 [(48, 48, St 235)],
     State 242 [(46, 46, St 234), (48, 57, St 243)],
     State 243 [(46, 46, St 234), (48, 57, St 233)],
     State 244 [(46, 46, St 234), (48, 48, St 245), (53, 53, St 246)],
     State 245 [(48, 57, St 233)],
     State 246 [(48, 48, St 233)],
     State 247 [(46, 46, St 232), (48, 57, St 248)],
     State 248 [(46, 46, St 232), (48, 57, St 231)],
     State 249 [(46, 46, St 232), (48, 48, St 250), (53, 53, St 251)],
     State 250 [(48, 57, St 231)],
     State 251 [(48, 48, St 231)],
     State 252 [(48, 57, St 253), (58, 58, St 255), (65, 70, St 253), (97, 102, St 253)],
     State 253 [(48, 57, St 254), (58, 58, St 255), (65, 70, St 254), (97, 102, St 254)],
     State 254 [(58, 58, St 255)],
     State 255 [(48, 57, St 256), (65, 70, St 256), (97, 102, St 256)]]"

definition http_blocks_34 :: "http_act block list" where
  "http_blocks_34 =
    [State 256 [(48, 57, St 257), (65, 70, St 257), (93, 93, St 236), (97, 102, St 257)],
     State 257 [(48, 57, St 258), (65, 70, St 258), (93, 93, St 236), (97, 102, St 258)],
     State 258 [(48, 57, St 235), (65, 70, St 235), (93, 93, St 236), (97, 102, St 235)],
     State 259 [(46, 46, St 230), (48, 57, St 260), (58, 58, St 255), (65, 70, St 252), (97, 102, St 252)],
     State 260 [(46, 46, St 230), (48, 57, St 261), (58, 58, St 255), (65, 70, St 253), (97, 102, St 253)],
     State 261 [(46, 46, St 230), (48, 57, St 254), (58, 58, St 255), (65, 70, St 254), (97, 102, St 254)],
     State 262 [(46, 46, St 230), (48, 48, St 263), (49, 52, St 252), (53, 53, St 264), (54, 57, St 252),
        (58, 58, St 255), (65, 70, St 252), (97, 102, St 252)],
     State 263 [(48, 57, St 261), (58, 58, St 255), (65, 70, St 253), (97, 102, St 253)],
     State 264 [(48, 48, St 261), (49, 57, St 253), (58, 58, St 255), (65, 70, St 253), (97, 102, St 253)]]"

definition http_blocks_35 :: "http_act block list" where
  "http_blocks_35 =
    [State 265 [(48, 57, St 252), (58, 58, St 255), (65, 70, St 252), (97, 102, St 252)],
     State 266 [(48, 57, St 267), (58, 58, St 270), (65, 70, St 267), (97, 102, St 267)],
     State 267 [(48, 57, St 268), (58, 58, St 270), (65, 70, St 268), (97, 102, St 268)],
     State 268 [(48, 57, St 269), (58, 58, St 270), (65, 70, St 269), (97, 102, St 269)],
     State 269 [(58, 58, St 270)],
     State 270 [(48, 57, St 271), (58, 58, St 341), (65, 70, St 271), (97, 102, St 271)],
     State 271 [(48, 57, St 272), (58, 58, St 275), (65, 70, St 272), (97, 102, St 272)],
     State 272 [(48, 57, St 273), (58, 58, St 275), (65, 70, St 273), (97, 102, St 273)],
     State 273 [(48, 57, St 274), (58, 58, St 275), (65, 70, St 274), (97, 102, St 274)],
     State 274 [(58, 58, St 275)],
     State 275 [(48, 57, St 276), (58, 58, St 340), (65, 70, St 276), (97, 102, St 276)]]"

definition http_blocks_36 :: "http_act block list" where
  "http_blocks_36 =
    [State 276 [(48, 57, St 277), (58, 58, St 280), (65, 70, St 277), (97, 102, St 277)],
     State 277 [(48, 57, St 278), (58, 58, St 280), (65, 70, St 278), (97, 102, St 278)],
     State 278 [(48, 57, St 279), (58, 58, St 280), (65, 70, St 279), (97, 102, St 279)],
     State 279 [(58, 58, St 280)],
     State 280 [(48, 57, St 281), (58, 58, St 339), (65, 70, St 281), (97, 102, St 281)],
     State 281 [(48, 57, St 282), (58, 58, St 285), (65, 70, St 282), (97, 102, St 282)],
     State 282 [(48, 57, St 283), (58, 58, St 285), (65, 70, St 283), (97, 102, St 283)],
     State 283 [(48, 57, St 284), (58, 58, St 285), (65, 70, St 284), (97, 102, St 284)],
     State 284 [(58, 58, St 285)],
     State 285 [(48, 57, St 286), (58, 58, St 338), (65, 70, St 286), (97, 102, St 286)],
     State 286 [(48, 57, St 287), (58, 58, St 290), (65, 70, St 287), (97, 102, St 287)]]"

definition http_blocks_37 :: "http_act block list" where
  "http_blocks_37 =
    [State 287 [(48, 57, St 288), (58, 58, St 290), (65, 70, St 288), (97, 102, St 288)],
     State 288 [(48, 57, St 289), (58, 58, St 290), (65, 70, St 289), (97, 102, St 289)],
     State 289 [(58, 58, St 290)],
     State 290 [(48, 57, St 291), (58, 58, St 326), (65, 70, St 291), (97, 102, St 291)],
     State 291 [(48, 57, St 292), (58, 58, St 295), (65, 70, St 292), (97, 102, St 292)],
     State 292 [(48, 57, St 293), (58, 58, St 295), (65, 70, St 293), (97, 102, St 293)],
     State 293 [(48, 57, St 294), (58, 58, St 295), (65, 70, St 294), (97, 102, St 294)],
     State 294 [(58, 58, St 295)],
     State 295 [(48, 57, St 296), (58, 58, St 325), (65, 70, St 296), (97, 102, St 296)],
     State 296 [(48, 57, St 297), (58, 58, St 300), (65, 70, St 297), (97, 102, St 297)],
     State 297 [(48, 57, St 298), (58, 58, St 300), (65, 70, St 298), (97, 102, St 298)]]"

definition http_blocks_38 :: "http_act block list" where
  "http_blocks_38 =
    [State 298 [(48, 57, St 299), (58, 58, St 300), (65, 70, St 299), (97, 102, St 299)],
     State 299 [(58, 58, St 300)],
     State 300 [(48, 57, St 296), (58, 58, St 301), (65, 70, St 296), (97, 102, St 296)],
     State 301 [(2, 3, St 223), (48, 48, St 302), (49, 49, St 318), (50, 50, St 321), (51, 57, St 302),
        (65, 70, St 324), (93, 93, St 236), (97, 102, St 324)],
     State 302 [(46, 46, St 230), (48, 57, St 303), (58, 58, St 306), (65, 70, St 303), (93, 93, St 236),
        (97, 102, St 303)],
     State 303 [(48, 57, St 304), (58, 58, St 306), (65, 70, St 304), (93, 93, St 236), (97, 102, St 304)],
     State 304 [(48, 57, St 305), (58, 58, St 306), (65, 70, St 305), (93, 93, St 236), (97, 102, St 305)],
     State 305 [(58, 58, St 306), (93, 93, St 236)],
     State 306 [(48, 48, St 307), (49, 49, St 311), (50, 50, St 314), (51, 57, St 307), (65, 70, St 317),
        (97, 102, St 317)]]"

definition http_blocks_39 :: "http_act block list" where
  "http_blocks_39 =
    [State 307 [(46, 46, St 230), (48, 57, St 308), (58, 58, St 255), (65, 70, St 308), (93, 93, St 236),
        (97, 102, St 308)],
     State 308 [(48, 57, St 309), (58, 58, St 255), (65, 70, St 309), (93, 93, St 236), (97, 102, St 309)],
     State 309 [(48, 57, St 310), (58, 58, St 255), (65, 70, St 310), (93, 93, St 236), (97, 102, St 310)],
     State 310 [(58, 58, St 255), (93, 93, St 236)],
     State 311 [(46, 46, St 230), (48, 57, St 312), (58, 58, St 255), (65, 70, St 308), (93, 93, St 236),
        (97, 102, St 308)],
     State 312 [(46, 46, St 230), (48, 57, St 313), (58, 58, St 255), (65, 70, St 309), (93, 93, St 236),
        (97, 102, St 309)],
     State 313 [(46, 46, St 230), (48, 57, St 310), (58, 58, St 255), (65, 70, St 310), (93, 93, St 236),
        (97, 102, St 310)],
     State 314 [(46, 46, St 230), (48, 48, St 315), (49, 52, St 308), (53, 53, St 316), (54, 57, St 308),
        (58, 58, St 255), (65, 70, St 308), (93, 93, St 236), (97, 102, St 308)],
     State 315 [(48, 57, St 313), (58, 58, St 255), (65, 70, St 309), (93, 93, St 236), (97, 102, St 309)]]"

definition http_blocks_40 :: "http_act block list" where
  "http_blocks_40 =
    [State 316 [(48, 48, St 313), (49, 57, St 309), (58, 58, St 255), (65, 70, St 309), (93, 93, St 236),
        (97, 102, St 309)],
     State 317 [(48, 57, St 308), (58, 58, St 255), (65, 70, St 308), (93, 93, St 236), (97, 102, St 308)],
     State 318 [(46, 46, St 230), (48, 57, St 319), (58, 58, St 306), (65, 70, St 303), (93, 93, St 236),
        (97, 102, St 303)],
     State 319 [(46, 46, St 230), (48, 57, St 320), (58, 58, St 306), (65, 70, St 304), (93, 93, St 236),
        (97, 102, St 304)],
     State 320 [(46, 46, St 230), (48, 57, St 305), (58, 58, St 306), (65, 70, St 305), (93, 93, St 236),
        (97, 102, St 305)],
     State 321 [(46, 46, St 230), (48, 48, St 322), (49, 52, St 303), (53, 53, St 323), (54, 57, St 303),
        (58, 58, St 306), (65, 70, St 303), (93, 93, St 236), (97, 102, St 303)],
     State 322 [(48, 57, St 320), (58, 58, St 306), (65, 70, St 304), (93, 93, St 236), (97, 102, St 304)],
     State 323 [(48, 48, St 320), (49, 57, St 304), (58, 58, St 306), (65, 70, St 304), (93, 93, St 236),
        (97, 102, St 304)]]"

definition http_blocks_41 :: "http_act block list" where
  "http_blocks_41 =
    [State 324 [(48, 57, St 303), (58, 58, St 306), (65, 70, St 303), (93, 93, St 236), (97, 102, St 303)],
     State 325 [(2, 3, St 223), (48, 48, St 302), (49, 49, St 318), (50, 50, St 321), (51, 57, St 302),
        (65, 70, St 324), (97, 102, St 324)],
     State 326 [(2, 3, St 223), (48, 48, St 327), (49, 49, St 331), (50, 50, St 334), (51, 57, St 327),
        (65, 70, St 337), (97, 102, St 337)],
     State 327 [(46, 46, St 230), (48, 57, St 328), (58, 58, St 306), (65, 70, St 328), (97, 102, St 328)],
     State 328 [(48, 57, St 329), (58, 58, St 306), (65, 70, St 329), (97, 102, St 329)],
     State 329 [(48, 57, St 330), (58, 58, St 306), (65, 70, St 330), (97, 102, St 330)],
     State 330 [(58, 58, St 306)],
     State 331 [(46, 46, St 230), (48, 57, St 332), (58, 58, St 306), (65, 70, St 328), (97, 102, St 328)],
     State 332 [(46, 46, St 230), (48, 57, St 333), (58, 58, St 306), (65, 70, St 329), (97, 102, St 329)]]"

definition http_blocks_42 :: "http_act block list" where
  "http_blocks_42 =
    [State 333 [(46, 46, St 230), (48, 57, St 330), (58, 58, St 306), (65, 70, St 330), (97, 102, St 330)],
     State 334 [(46, 46, St 230), (48, 48, St 335), (49, 52, St 328), (53, 53, St 336), (54, 57, St 328),
        (58, 58, St 306), (65, 70, St 328), (97, 102, St 328)],
     State 335 [(48, 57, St 333), (58, 58, St 306), (65, 70, St 329), (97, 102, St 329)],
     State 336 [(48, 48, St 333), (49, 57, St 329), (58, 58, St 306), (65, 70, St 329), (97, 102, St 329)],
     State 337 [(48, 57, St 328), (58, 58, St 306), (65, 70, St 328), (97, 102, St 328)],
     State 338 [(2, 3, St 223), (48, 57, St 224), (65, 70, St 224), (97, 102, St 224)],
     State 339 [(2, 3, St 223)],
     State 340 [(3, 3, St 223)],
     State 341 [(4, 4, St 223)],
     State 342 [(58, 58, St 343)],
     State 343 [(2, 5, St 223), (48, 48, St 302), (49, 49, St 318), (50, 50, St 321), (51, 57, St 302),
        (65, 70, St 324), (93, 93, St 236), (97, 102, St 324)]]"

definition http_blocks_43 :: "http_act block list" where
  "http_blocks_43 =
    [State 344 [(48, 57, St 345), (65, 70, St 345), (97, 102, St 345)],
     State 345 [(46, 46, St 346), (48, 57, St 345), (65, 70, St 345), (97, 102, St 345)],
     Wide 346 [(33, 33, St 347), (36, 36, St 347), (38, 46, St 347), (48, 59, St 347), (61, 61, St 347),
        (65, 90, St 347), (95, 95, St 347), (97, 122, St 347), (126, 126, St 347), (606, 606, St 347),
        (635, 635, St 347), (637, 637, St 347)],
     Wide 347 [(33, 33, St 347), (36, 36, St 347), (38, 46, St 347), (48, 59, St 347), (61, 61, St 347),
        (65, 90, St 347), (93, 93, St 236), (95, 95, St 347), (97, 122, St 347), (126, 126, St 347),
        (606, 606, St 347), (635, 635, St 347), (637, 637, St 347)]]"

definition http_table :: "http_act block list" where
  "http_table = concat
        [http_blocks_1, http_blocks_2, http_blocks_3, http_blocks_4, http_blocks_5, http_blocks_6,
     http_blocks_7, http_blocks_8, http_blocks_9, http_blocks_10, http_blocks_11, http_blocks_12,
     http_blocks_13, http_blocks_14, http_blocks_15, http_blocks_16, http_blocks_17, http_blocks_18,
     http_blocks_19, http_blocks_20, http_blocks_21, http_blocks_22, http_blocks_23, http_blocks_24,
     http_blocks_25, http_blocks_26, http_blocks_27, http_blocks_28, http_blocks_29, http_blocks_30,
     http_blocks_31, http_blocks_32, http_blocks_33, http_blocks_34, http_blocks_35, http_blocks_36,
     http_blocks_37, http_blocks_38, http_blocks_39, http_blocks_40, http_blocks_41, http_blocks_42,
     http_blocks_43]"

end
