(* ===== verification/Http11.thy ===== *)
theory Http11
  imports HttpTable HttpParser
begin

text \<open>
  The machine for requests (http/http11_parser.cc): its record, its actions, one call of
  \<open>http_parser_execute\<close> on a buffer, and the machine as the request parser uses it. Positions are
  offsets in the buffer; the lengths are of type \<open>size_t\<close> and wrap.
\<close>

section \<open>The parser's record\<close>

record http_parser =
  hp_cs :: nat
  hp_body_start :: nat
  hp_content_len :: int
  hp_nread :: nat
  hp_mark :: nat
  hp_field_start :: nat
  hp_field_len :: nat
  hp_query_start :: nat
  hp_xml_sent :: bool
  hp_json_sent :: bool

definition http_parser_start :: nat where "http_parser_start = 1"

definition http_parser_first_final :: nat where "http_parser_first_final = 348"

definition http_parser_error :: nat where "http_parser_error = 0"

text \<open>\<open>init\<close> leaves \<open>query_start\<close> as it found it.\<close>

definition http_parser_init :: "http_parser \<Rightarrow> http_parser" where
  "http_parser_init parser =
     parser\<lparr>hp_cs := http_parser_start, hp_body_start := 0, hp_content_len := 0, hp_mark := 0, hp_nread := 0,
       hp_field_len := 0, hp_field_start := 0, hp_xml_sent := False, hp_json_sent := False\<rparr>"

text \<open>A memory of zeros, for the concrete instances.\<close>

definition http_parser_zero :: http_parser where
  "http_parser_zero =
     \<lparr>hp_cs = 0, hp_body_start = 0, hp_content_len = 0, hp_nread = 0, hp_mark = 0, hp_field_start = 0,
      hp_field_len = 0, hp_query_start = 0, hp_xml_sent = False, hp_json_sent = False\<rparr>"

definition http_parser_has_error :: "http_parser \<Rightarrow> bool" where
  "http_parser_has_error parser \<longleftrightarrow> hp_cs parser = http_parser_error"

definition http_parser_is_finished :: "http_parser \<Rightarrow> bool" where
  "http_parser_is_finished parser \<longleftrightarrow> hp_cs parser \<ge> http_parser_first_final"

definition http_parser_finish :: "http_parser \<Rightarrow> int" where
  "http_parser_finish parser =
     (if http_parser_has_error parser then -1 else if http_parser_is_finished parser then 1 else 0)"

section \<open>Actions\<close>

fun http_action :: "string \<Rightarrow> http_act \<Rightarrow> nat \<Rightarrow> http_parser \<times> http_event list \<Rightarrow> http_parser \<times> http_event list" where
  "http_action buffer H_mark fpc (s, evs) = (s\<lparr>hp_mark := fpc\<rparr>, evs)"
| "http_action buffer H_start_field fpc (s, evs) = (s\<lparr>hp_field_start := fpc\<rparr>, evs)"
| "http_action buffer H_write_field fpc (s, evs) = (s\<lparr>hp_field_len := LEN (hp_field_start s) fpc\<rparr>, evs)"
| "http_action buffer H_start_value fpc (s, evs) = (s\<lparr>hp_mark := fpc\<rparr>, evs)"
| "http_action buffer H_write_value fpc (s, evs) =
     (s, evs @ [Field (take (hp_field_len s) (drop (hp_field_start s) buffer))
                      (take (LEN (hp_mark s) fpc) (drop (hp_mark s) buffer))])"
| "http_action buffer H_request_method fpc (s, evs) = (s, evs @ [element_at buffer request_method (hp_mark s) fpc])"
| "http_action buffer H_request_uri fpc (s, evs) = (s, evs @ [element_at buffer request_uri (hp_mark s) fpc])"
| "http_action buffer H_fragment fpc (s, evs) = (s, evs @ [element_at buffer fragment (hp_mark s) fpc])"
| "http_action buffer H_start_query fpc (s, evs) = (s\<lparr>hp_query_start := fpc\<rparr>, evs)"
| "http_action buffer H_query_string fpc (s, evs) = (s, evs @ [element_at buffer query_string (hp_query_start s) fpc])"
| "http_action buffer H_http_version fpc (s, evs) = (s, evs @ [element_at buffer http_version (hp_mark s) fpc])"
| "http_action buffer H_request_path fpc (s, evs) = (s, evs @ [element_at buffer request_path (hp_mark s) fpc])"
| "http_action buffer H_done fpc (s, evs) =
     (if hp_xml_sent s \<or> hp_json_sent s
      then (s\<lparr>hp_body_start := hp_mark s, hp_content_len := sint (word_of_int (int fpc - int (hp_mark s) + 1) :: u32)\<rparr>, evs)
      else (s\<lparr>hp_body_start := fpc + 1\<rparr>, evs @ [Element header_done (drop (fpc + 1) buffer) (length buffer - fpc - 1)]))"
| "http_action buffer H_xml fpc (s, evs) = (s\<lparr>hp_xml_sent := True\<rparr>, evs)"
| "http_action buffer H_json fpc (s, evs) = (s\<lparr>hp_json_sent := True\<rparr>, evs)"

section \<open>Execution\<close>

text \<open>The run over the buffer from offset 0, as every caller has it, and the assertions behind it.\<close>

definition http_parser_run :: "bool \<Rightarrow> http_parser \<Rightarrow> string \<Rightarrow> http_parser \<times> nat \<times> http_event list" where
  "http_parser_run uri_relaxed parser buffer =
     (if buffer = [] then (parser, 0, [])
      else (let parser1 = parser\<lparr>hp_nread := 0, hp_mark := 0, hp_field_len := 0, hp_field_start := 0\<rparr>
            in case machine_run http_table uri_relaxed (\<lambda>a. a = H_done) (http_action buffer) (hp_cs parser1) 0 buffer (parser1, []) of
                 (cs, p, parser2, evs) \<Rightarrow>
                   (let parser3 = (if \<not> http_parser_has_error parser2 then parser2\<lparr>hp_cs := cs\<rparr> else parser2)
                    in (parser3\<lparr>hp_nread := hp_nread parser3 + p\<rparr>, p, evs))))"

definition http_parser_execute :: "bool \<Rightarrow> http_parser \<Rightarrow> string \<Rightarrow> (http_parser \<times> nat \<times> http_event list) res" where
  "http_parser_execute uri_relaxed parser buffer =
     (case http_parser_run uri_relaxed parser buffer of
        (parser1, nread, evs) \<Rightarrow>
          (if buffer \<noteq> [] \<and> \<not> (hp_nread parser1 \<le> length buffer \<and> hp_body_start parser1 \<le> length buffer
                \<and> hp_mark parser1 < length buffer \<and> hp_field_len parser1 \<le> length buffer \<and> hp_field_start parser1 < length buffer)
           then Inl AssertFailed else Inr (parser1, nread, evs)))"

text \<open>The machine that the request parser runs.\<close>

definition http11_machine :: "bool \<Rightarrow> http_parser \<Rightarrow> http_parser http_machine" where
  "http11_machine uri_relaxed memory =
     \<lparr>hm_memory = memory,
      hm_init = http_parser_init,
      hm_execute = (\<lambda>parser data. mapR (\<lambda>(parser1, nread, evs). (parser1, int nread, evs)) (http_parser_execute uri_relaxed parser data)),
      hm_finish = http_parser_finish,
      hm_has_error = http_parser_has_error\<rparr>"

end
