(* ===== verification/HttpMoves.thy ===== *)
theory HttpMoves
  imports HttpTable
begin

text \<open>
  What the machine for requests does on the characters of a request: the blocks of the states a
  request passes through, looked up in the table, and the moves on each class of characters.
\<close>

named_theorems http_nums \<open>the numbers of the blocks of each list\<close>

lemma http_blocks_1_nums [http_nums]:
  "state_nums http_blocks_1 = [1, 2, 3]"
  "trans_nums http_blocks_1 = [0, 4, 6, 37, 44, 47, 54]"
  by (simp_all add: http_blocks_1_def)

lemma http_blocks_2_nums [http_nums]:
  "state_nums http_blocks_2 = [4, 5, 6, 7, 8, 9, 10, 11, 12, 13]"
  "trans_nums http_blocks_2 = [58, 13, 21, 30, 33, 23]"
  by (simp_all add: http_blocks_2_def)

lemma http_blocks_3_nums [http_nums]:
  "state_nums http_blocks_3 = [14, 15, 16, 17]"
  "trans_nums http_blocks_3 = [27, 29, 28, 22, 31, 34, 24, 36]"
  by (simp_all add: http_blocks_3_def)

lemma http_blocks_4_nums [http_nums]:
  "state_nums http_blocks_4 = [348, 18, 19]"
  "trans_nums http_blocks_4 = [25, 7, 8]"
  by (simp_all add: http_blocks_4_def)

lemma http_blocks_5_nums [http_nums]:
  "state_nums http_blocks_5 = [20, 21]"
  "trans_nums http_blocks_5 = [39, 55, 59, 43, 45]"
  by (simp_all add: http_blocks_5_def)

lemma http_blocks_6_nums [http_nums]:
  "state_nums http_blocks_6 = [22, 23, 24, 25, 26, 27, 28]"
  "trans_nums http_blocks_6 = [9, 203, 204, 11]"
  by (simp_all add: http_blocks_6_def)

lemma http_blocks_7_nums [http_nums]:
  "state_nums http_blocks_7 = [29, 30, 31, 32]"
  "trans_nums http_blocks_7 = [42, 53, 56, 10]"
  by (simp_all add: http_blocks_7_def)

lemma http_blocks_8_nums [http_nums]:
  "state_nums http_blocks_8 = [33, 34, 35]"
  "trans_nums http_blocks_8 = []"
  by (simp_all add: http_blocks_8_def)

lemma http_blocks_9_nums [http_nums]:
  "state_nums http_blocks_9 = [36, 37, 38, 39, 40]"
  "trans_nums http_blocks_9 = []"
  by (simp_all add: http_blocks_9_def)

lemma http_blocks_10_nums [http_nums]:
  "state_nums http_blocks_10 = [41, 42, 43, 44, 45, 46]"
  "trans_nums http_blocks_10 = []"
  by (simp_all add: http_blocks_10_def)

lemma http_blocks_11_nums [http_nums]:
  "state_nums http_blocks_11 = [47, 48, 49, 50, 51, 52, 53, 54, 55, 56, 57, 58]"
  "trans_nums http_blocks_11 = []"
  by (simp_all add: http_blocks_11_def)

lemma http_blocks_12_nums [http_nums]:
  "state_nums http_blocks_12 = [59, 60, 61, 62, 63, 64, 65, 66, 67, 68, 69, 70, 71, 72, 73, 74, 75]"
  "trans_nums http_blocks_12 = []"
  by (simp_all add: http_blocks_12_def)

lemma http_blocks_13_nums [http_nums]:
  "state_nums http_blocks_13 = [76, 77, 78, 79, 80, 81, 82, 83, 84, 85, 86]"
  "trans_nums http_blocks_13 = []"
  by (simp_all add: http_blocks_13_def)

lemma http_blocks_14_nums [http_nums]:
  "state_nums http_blocks_14 = [87, 88, 89, 90, 91, 92, 93, 94, 95, 96]"
  "trans_nums http_blocks_14 = []"
  by (simp_all add: http_blocks_14_def)

lemma http_blocks_15_nums [http_nums]:
  "state_nums http_blocks_15 = [97, 98, 99, 100, 101, 102, 103, 104, 105, 106, 107]"
  "trans_nums http_blocks_15 = []"
  by (simp_all add: http_blocks_15_def)

lemma http_blocks_16_nums [http_nums]:
  "state_nums http_blocks_16 = [108, 109, 110, 111, 112, 113, 114, 115, 116, 117, 118]"
  "trans_nums http_blocks_16 = []"
  by (simp_all add: http_blocks_16_def)

lemma http_blocks_17_nums [http_nums]:
  "state_nums http_blocks_17 = [119, 120, 121, 122, 123, 124, 125, 126, 127, 128]"
  "trans_nums http_blocks_17 = []"
  by (simp_all add: http_blocks_17_def)

lemma http_blocks_18_nums [http_nums]:
  "state_nums http_blocks_18 = [129, 130, 131, 132, 133, 134, 135, 136, 137]"
  "trans_nums http_blocks_18 = []"
  by (simp_all add: http_blocks_18_def)

lemma http_blocks_19_nums [http_nums]:
  "state_nums http_blocks_19 = [138, 139, 140, 141, 142, 143, 144, 145]"
  "trans_nums http_blocks_19 = []"
  by (simp_all add: http_blocks_19_def)

lemma http_blocks_20_nums [http_nums]:
  "state_nums http_blocks_20 = [146, 147, 148, 149, 150, 151, 152, 153]"
  "trans_nums http_blocks_20 = []"
  by (simp_all add: http_blocks_20_def)

lemma http_blocks_21_nums [http_nums]:
  "state_nums http_blocks_21 = [154, 155, 156, 157, 158, 159, 160, 161, 162]"
  "trans_nums http_blocks_21 = []"
  by (simp_all add: http_blocks_21_def)

lemma http_blocks_22_nums [http_nums]:
  "state_nums http_blocks_22 = [163, 164, 165, 166, 167, 168, 169, 170, 171]"
  "trans_nums http_blocks_22 = []"
  by (simp_all add: http_blocks_22_def)

lemma http_blocks_23_nums [http_nums]:
  "state_nums http_blocks_23 = [172, 173]"
  "trans_nums http_blocks_23 = [12]"
  by (simp_all add: http_blocks_23_def)

lemma http_blocks_24_nums [http_nums]:
  "state_nums http_blocks_24 = [174, 175, 176, 177, 178, 179, 180, 181, 182]"
  "trans_nums http_blocks_24 = []"
  by (simp_all add: http_blocks_24_def)

lemma http_blocks_25_nums [http_nums]:
  "state_nums http_blocks_25 = [183, 184, 185, 186, 187, 188, 189, 190, 191, 192, 193, 194]"
  "trans_nums http_blocks_25 = [2]"
  by (simp_all add: http_blocks_25_def)

lemma http_blocks_26_nums [http_nums]:
  "state_nums http_blocks_26 = [195, 196, 197, 349, 198]"
  "trans_nums http_blocks_26 = [224, 227, 235, 3, 228]"
  by (simp_all add: http_blocks_26_def)

lemma http_blocks_27_nums [http_nums]:
  "state_nums http_blocks_27 = [199, 200, 201, 202, 203, 204, 205]"
  "trans_nums http_blocks_27 = [232]"
  by (simp_all add: http_blocks_27_def)

lemma http_blocks_28_nums [http_nums]:
  "state_nums http_blocks_28 = [206, 207, 208, 209]"
  "trans_nums http_blocks_28 = []"
  by (simp_all add: http_blocks_28_def)

lemma http_blocks_29_nums [http_nums]:
  "state_nums http_blocks_29 = [210, 211, 212, 213]"
  "trans_nums http_blocks_29 = []"
  by (simp_all add: http_blocks_29_def)

lemma http_blocks_30_nums [http_nums]:
  "state_nums http_blocks_30 = [214, 215, 216, 217]"
  "trans_nums http_blocks_30 = []"
  by (simp_all add: http_blocks_30_def)

lemma http_blocks_31_nums [http_nums]:
  "state_nums http_blocks_31 = [218, 219, 220, 221, 222, 223, 224, 225]"
  "trans_nums http_blocks_31 = []"
  by (simp_all add: http_blocks_31_def)

lemma http_blocks_32_nums [http_nums]:
  "state_nums http_blocks_32 = [226, 227, 228, 229, 230, 231, 232, 233, 234, 235, 236, 237, 238, 239]"
  "trans_nums http_blocks_32 = []"
  by (simp_all add: http_blocks_32_def)

lemma http_blocks_33_nums [http_nums]:
  "state_nums http_blocks_33 = [240, 241, 242, 243, 244, 245, 246, 247, 248, 249, 250, 251, 252, 253, 254, 255]"
  "trans_nums http_blocks_33 = []"
  by (simp_all add: http_blocks_33_def)

lemma http_blocks_34_nums [http_nums]:
  "state_nums http_blocks_34 = [256, 257, 258, 259, 260, 261, 262, 263, 264]"
  "trans_nums http_blocks_34 = []"
  by (simp_all add: http_blocks_34_def)

lemma http_blocks_35_nums [http_nums]:
  "state_nums http_blocks_35 = [265, 266, 267, 268, 269, 270, 271, 272, 273, 274, 275]"
  "trans_nums http_blocks_35 = []"
  by (simp_all add: http_blocks_35_def)

lemma http_blocks_36_nums [http_nums]:
  "state_nums http_blocks_36 = [276, 277, 278, 279, 280, 281, 282, 283, 284, 285, 286]"
  "trans_nums http_blocks_36 = []"
  by (simp_all add: http_blocks_36_def)

lemma http_blocks_37_nums [http_nums]:
  "state_nums http_blocks_37 = [287, 288, 289, 290, 291, 292, 293, 294, 295, 296, 297]"
  "trans_nums http_blocks_37 = []"
  by (simp_all add: http_blocks_37_def)

lemma http_blocks_38_nums [http_nums]:
  "state_nums http_blocks_38 = [298, 299, 300, 301, 302, 303, 304, 305, 306]"
  "trans_nums http_blocks_38 = []"
  by (simp_all add: http_blocks_38_def)

lemma http_blocks_39_nums [http_nums]:
  "state_nums http_blocks_39 = [307, 308, 309, 310, 311, 312, 313, 314, 315]"
  "trans_nums http_blocks_39 = []"
  by (simp_all add: http_blocks_39_def)

lemma http_blocks_40_nums [http_nums]:
  "state_nums http_blocks_40 = [316, 317, 318, 319, 320, 321, 322, 323]"
  "trans_nums http_blocks_40 = []"
  by (simp_all add: http_blocks_40_def)

lemma http_blocks_41_nums [http_nums]:
  "state_nums http_blocks_41 = [324, 325, 326, 327, 328, 329, 330, 331, 332]"
  "trans_nums http_blocks_41 = []"
  by (simp_all add: http_blocks_41_def)

lemma http_blocks_42_nums [http_nums]:
  "state_nums http_blocks_42 = [333, 334, 335, 336, 337, 338, 339, 340, 341, 342, 343]"
  "trans_nums http_blocks_42 = []"
  by (simp_all add: http_blocks_42_def)

lemma http_blocks_43_nums [http_nums]:
  "state_nums http_blocks_43 = [344, 345, 346, 347]"
  "trans_nums http_blocks_43 = []"
  by (simp_all add: http_blocks_43_def)

lemma http_state_1:
  "find_state http_table 1 = Some (False,
    [(48, 57, Tr 0), (60, 60, Tr 2), (64, 64, Tr 3), (65, 90, Tr 0)])"
  by (simp add: http_table_def find_state_append find_state_None http_nums http_blocks_1_def)

lemma http_state_2:
  "find_state http_table 2 = Some (False,
    [(32, 32, Tr 4), (48, 57, St 175), (65, 90, St 175)])"
  by (simp add: http_table_def find_state_append find_state_None http_nums http_blocks_1_def)

lemma http_state_175:
  "find_state http_table 175 = Some (False,
    [(32, 32, Tr 4), (48, 57, St 176), (65, 90, St 176)])"
  by (simp add: http_table_def find_state_append find_state_None http_nums http_blocks_24_def)

lemma http_state_176:
  "find_state http_table 176 = Some (False,
    [(32, 32, Tr 4), (48, 57, St 177), (65, 90, St 177)])"
  by (simp add: http_table_def find_state_append find_state_None http_nums http_blocks_24_def)

lemma http_state_177:
  "find_state http_table 177 = Some (False,
    [(32, 32, Tr 4), (48, 57, St 178), (65, 90, St 178)])"
  by (simp add: http_table_def find_state_append find_state_None http_nums http_blocks_24_def)

lemma http_state_178:
  "find_state http_table 178 = Some (False,
    [(32, 32, Tr 4), (48, 57, St 179), (65, 90, St 179)])"
  by (simp add: http_table_def find_state_append find_state_None http_nums http_blocks_24_def)

lemma http_state_179:
  "find_state http_table 179 = Some (False,
    [(32, 32, Tr 4), (48, 57, St 180), (65, 90, St 180)])"
  by (simp add: http_table_def find_state_append find_state_None http_nums http_blocks_24_def)

lemma http_state_180:
  "find_state http_table 180 = Some (False,
    [(32, 32, Tr 4), (48, 57, St 181), (65, 90, St 181)])"
  by (simp add: http_table_def find_state_append find_state_None http_nums http_blocks_24_def)

lemma http_state_181:
  "find_state http_table 181 = Some (False,
    [(32, 32, Tr 4), (48, 57, St 182), (65, 90, St 182)])"
  by (simp add: http_table_def find_state_append find_state_None http_nums http_blocks_24_def)

lemma http_state_182:
  "find_state http_table 182 = Some (False,
    [(32, 32, Tr 4), (48, 57, St 183), (65, 90, St 183)])"
  by (simp add: http_table_def find_state_append find_state_None http_nums http_blocks_24_def)

lemma http_state_183:
  "find_state http_table 183 = Some (False,
    [(32, 32, Tr 4), (48, 57, St 184), (65, 90, St 184)])"
  by (simp add: http_table_def find_state_append find_state_None http_nums http_blocks_25_def)

lemma http_state_184:
  "find_state http_table 184 = Some (False,
    [(32, 32, Tr 4), (48, 57, St 185), (65, 90, St 185)])"
  by (simp add: http_table_def find_state_append find_state_None http_nums http_blocks_25_def)

lemma http_state_185:
  "find_state http_table 185 = Some (False,
    [(32, 32, Tr 4), (48, 57, St 186), (65, 90, St 186)])"
  by (simp add: http_table_def find_state_append find_state_None http_nums http_blocks_25_def)

lemma http_state_186:
  "find_state http_table 186 = Some (False,
    [(32, 32, Tr 4), (48, 57, St 187), (65, 90, St 187)])"
  by (simp add: http_table_def find_state_append find_state_None http_nums http_blocks_25_def)

lemma http_state_187:
  "find_state http_table 187 = Some (False,
    [(32, 32, Tr 4), (48, 57, St 188), (65, 90, St 188)])"
  by (simp add: http_table_def find_state_append find_state_None http_nums http_blocks_25_def)

lemma http_state_188:
  "find_state http_table 188 = Some (False,
    [(32, 32, Tr 4), (48, 57, St 189), (65, 90, St 189)])"
  by (simp add: http_table_def find_state_append find_state_None http_nums http_blocks_25_def)

lemma http_state_189:
  "find_state http_table 189 = Some (False,
    [(32, 32, Tr 4), (48, 57, St 190), (65, 90, St 190)])"
  by (simp add: http_table_def find_state_append find_state_None http_nums http_blocks_25_def)

lemma http_state_190:
  "find_state http_table 190 = Some (False,
    [(32, 32, Tr 4), (48, 57, St 191), (65, 90, St 191)])"
  by (simp add: http_table_def find_state_append find_state_None http_nums http_blocks_25_def)

lemma http_state_191:
  "find_state http_table 191 = Some (False,
    [(32, 32, Tr 4), (48, 57, St 192), (65, 90, St 192)])"
  by (simp add: http_table_def find_state_append find_state_None http_nums http_blocks_25_def)

lemma http_state_192:
  "find_state http_table 192 = Some (False,
    [(32, 32, Tr 4), (48, 57, St 193), (65, 90, St 193)])"
  by (simp add: http_table_def find_state_append find_state_None http_nums http_blocks_25_def)

lemma http_state_193:
  "find_state http_table 193 = Some (False,
    [(32, 32, Tr 4)])"
  by (simp add: http_table_def find_state_append find_state_None http_nums http_blocks_25_def)

lemma http_state_3:
  "find_state http_table 3 = Some (True,
    [(32, 32, Tr 6), (33, 33, Tr 7), (35, 35, Tr 8), (36, 36, Tr 7), (37, 37, Tr 9), (38, 46, Tr 7), (47, 47, Tr
      10), (48, 57, Tr 7), (59, 59, Tr 7), (61, 61, Tr 7), (63, 63, Tr 11), (64, 64, Tr 7), (65, 90, Tr 12),
      (95, 95, Tr 7), (97, 122, Tr 12), (126, 126, Tr 7), (606, 606, Tr 7), (635, 635, Tr 7), (637, 637, Tr 7)])"
  by (simp add: http_table_def find_state_append find_state_None http_nums http_blocks_1_def)

lemma http_state_33:
  "find_state http_table 33 = Some (True,
    [(- 128, - 1, St 26), (32, 32, Tr 37), (33, 33, St 26), (35, 35, Tr 39), (36, 36, St 26), (37, 37, St 27),
      (38, 46, St 26), (47, 47, St 34), (48, 59, St 26), (61, 61, St 26), (63, 63, Tr 42), (64, 90, St 26), (95,
      95, St 26), (97, 122, St 26), (126, 126, St 26), (606, 606, St 26), (635, 635, St 26), (637, 637, St 26)])"
  by (simp add: http_table_def find_state_append find_state_None http_nums http_blocks_8_def)

lemma http_state_26:
  "find_state http_table 26 = Some (True,
    [(- 128, - 1, St 26), (32, 32, Tr 37), (33, 33, St 26), (35, 35, Tr 39), (36, 36, St 26), (37, 37, St 27),
      (38, 59, St 26), (61, 61, St 26), (63, 63, Tr 42), (64, 90, St 26), (95, 95, St 26), (97, 122, St 26),
      (126, 126, St 26), (606, 606, St 26), (635, 635, St 26), (637, 637, St 26)])"
  by (simp add: http_table_def find_state_append find_state_None http_nums http_blocks_6_def)

lemma http_state_27:
  "find_state http_table 27 = Some (False,
    [(48, 57, St 28), (65, 70, St 28), (97, 102, St 28)])"
  by (simp add: http_table_def find_state_append find_state_None http_nums http_blocks_6_def)

lemma http_state_28:
  "find_state http_table 28 = Some (False,
    [(48, 57, St 26), (65, 70, St 26), (97, 102, St 26)])"
  by (simp add: http_table_def find_state_append find_state_None http_nums http_blocks_6_def)

lemma http_state_29:
  "find_state http_table 29 = Some (True,
    [(- 128, - 1, Tr 53), (32, 32, Tr 54), (33, 33, Tr 53), (35, 35, Tr 55), (36, 36, Tr 53), (37, 37, Tr 56),
      (38, 59, Tr 53), (61, 61, Tr 53), (63, 90, Tr 53), (95, 95, Tr 53), (97, 122, Tr 53), (126, 126, Tr 53),
      (606, 606, Tr 53), (635, 635, Tr 53), (637, 637, Tr 53)])"
  by (simp add: http_table_def find_state_append find_state_None http_nums http_blocks_7_def)

lemma http_state_30:
  "find_state http_table 30 = Some (True,
    [(- 128, - 1, St 30), (32, 32, Tr 58), (33, 33, St 30), (35, 35, Tr 59), (36, 36, St 30), (37, 37, St 31),
      (38, 59, St 30), (61, 61, St 30), (63, 90, St 30), (95, 95, St 30), (97, 122, St 30), (126, 126, St 30),
      (606, 606, St 30), (635, 635, St 30), (637, 637, St 30)])"
  by (simp add: http_table_def find_state_append find_state_None http_nums http_blocks_7_def)

lemma http_state_31:
  "find_state http_table 31 = Some (False,
    [(48, 57, St 32), (65, 70, St 32), (97, 102, St 32)])"
  by (simp add: http_table_def find_state_append find_state_None http_nums http_blocks_7_def)

lemma http_state_32:
  "find_state http_table 32 = Some (False,
    [(48, 57, St 30), (65, 70, St 30), (97, 102, St 30)])"
  by (simp add: http_table_def find_state_append find_state_None http_nums http_blocks_7_def)

lemma http_state_20:
  "find_state http_table 20 = Some (True,
    [(- 128, - 1, Tr 43), (32, 32, Tr 44), (33, 33, Tr 43), (36, 36, Tr 43), (37, 37, Tr 45), (38, 59, Tr 43),
      (61, 61, Tr 43), (63, 90, Tr 43), (95, 95, Tr 43), (97, 122, Tr 43), (126, 126, Tr 43), (606, 606, Tr 43),
      (635, 635, Tr 43), (637, 637, Tr 43)])"
  by (simp add: http_table_def find_state_append find_state_None http_nums http_blocks_5_def)

lemma http_state_21:
  "find_state http_table 21 = Some (True,
    [(- 128, - 1, St 21), (32, 32, Tr 47), (33, 33, St 21), (36, 36, St 21), (37, 37, St 22), (38, 59, St 21),
      (61, 61, St 21), (63, 90, St 21), (95, 95, St 21), (97, 122, St 21), (126, 126, St 21), (606, 606, St 21),
      (635, 635, St 21), (637, 637, St 21)])"
  by (simp add: http_table_def find_state_append find_state_None http_nums http_blocks_5_def)

lemma http_state_22:
  "find_state http_table 22 = Some (False,
    [(48, 57, St 23), (65, 70, St 23), (97, 102, St 23)])"
  by (simp add: http_table_def find_state_append find_state_None http_nums http_blocks_6_def)

lemma http_state_23:
  "find_state http_table 23 = Some (False,
    [(48, 57, St 21), (65, 70, St 21), (97, 102, St 21)])"
  by (simp add: http_table_def find_state_append find_state_None http_nums http_blocks_6_def)

lemma http_state_4:
  "find_state http_table 4 = Some (False,
    [(72, 72, Tr 13)])"
  by (simp add: http_table_def find_state_append find_state_None http_nums http_blocks_2_def)

lemma http_state_5:
  "find_state http_table 5 = Some (False,
    [(84, 84, St 6)])"
  by (simp add: http_table_def find_state_append find_state_None http_nums http_blocks_2_def)

lemma http_state_6:
  "find_state http_table 6 = Some (False,
    [(84, 84, St 7)])"
  by (simp add: http_table_def find_state_append find_state_None http_nums http_blocks_2_def)

lemma http_state_7:
  "find_state http_table 7 = Some (False,
    [(80, 80, St 8)])"
  by (simp add: http_table_def find_state_append find_state_None http_nums http_blocks_2_def)

lemma http_state_8:
  "find_state http_table 8 = Some (False,
    [(47, 47, St 9)])"
  by (simp add: http_table_def find_state_append find_state_None http_nums http_blocks_2_def)

lemma http_state_9:
  "find_state http_table 9 = Some (False,
    [(49, 49, St 10)])"
  by (simp add: http_table_def find_state_append find_state_None http_nums http_blocks_2_def)

lemma http_state_10:
  "find_state http_table 10 = Some (False,
    [(46, 46, St 11)])"
  by (simp add: http_table_def find_state_append find_state_None http_nums http_blocks_2_def)

lemma http_state_11:
  "find_state http_table 11 = Some (False,
    [(48, 49, St 12)])"
  by (simp add: http_table_def find_state_append find_state_None http_nums http_blocks_2_def)

lemma http_state_12:
  "find_state http_table 12 = Some (False,
    [(10, 10, Tr 21), (13, 13, Tr 22)])"
  by (simp add: http_table_def find_state_append find_state_None http_nums http_blocks_2_def)

lemma http_state_17:
  "find_state http_table 17 = Some (False,
    [(10, 10, St 13)])"
  by (simp add: http_table_def find_state_append find_state_None http_nums http_blocks_3_def)

lemma http_state_13:
  "find_state http_table 13 = Some (False,
    [(1, 8, Tr 23), (10, 10, Tr 24), (11, 12, Tr 23), (13, 13, Tr 25), (14, 31, Tr 23), (33, 33, Tr 23), (35,
      39, Tr 23), (42, 43, Tr 23), (45, 46, Tr 23), (48, 57, Tr 23), (65, 90, Tr 23), (94, 122, Tr 23), (124,
      124, Tr 23), (126, 126, Tr 23)])"
  by (simp add: http_table_def find_state_append find_state_None http_nums http_blocks_2_def)

lemma http_state_14:
  "find_state http_table 14 = Some (False,
    [(1, 8, St 14), (10, 31, St 14), (33, 33, St 14), (35, 39, St 14), (42, 43, St 14), (45, 46, St 14), (48,
      57, St 14), (58, 58, Tr 27), (65, 90, St 14), (94, 122, St 14), (124, 124, St 14), (126, 126, St 14)])"
  by (simp add: http_table_def find_state_append find_state_None http_nums http_blocks_3_def)

lemma http_state_15:
  "find_state http_table 15 = Some (False,
    [(- 128, - 1, Tr 28), (1, 8, Tr 28), (9, 9, Tr 29), (10, 10, Tr 30), (11, 12, Tr 28), (13, 13, Tr 31), (14,
      31, Tr 28), (32, 32, Tr 29), (33, 126, Tr 28)])"
  by (simp add: http_table_def find_state_append find_state_None http_nums http_blocks_3_def)

lemma http_state_16:
  "find_state http_table 16 = Some (False,
    [(- 128, - 1, St 16), (1, 9, St 16), (10, 10, Tr 33), (11, 12, St 16), (13, 13, Tr 34), (14, 126, St 16)])"
  by (simp add: http_table_def find_state_append find_state_None http_nums http_blocks_3_def)

lemma http_state_18:
  "find_state http_table 18 = Some (False,
    [(1, 8, St 14), (10, 10, Tr 36), (11, 31, St 14), (33, 33, St 14), (35, 39, St 14), (42, 43, St 14), (45,
      46, St 14), (48, 57, St 14), (58, 58, Tr 27), (65, 90, St 14), (94, 122, St 14), (124, 124, St 14), (126,
      126, St 14)])"
  by (simp add: http_table_def find_state_append find_state_None http_nums http_blocks_4_def)

lemma http_trans_0: "find_trans http_table 0 = Some ([H_mark], 2)"
  by (simp add: http_table_def find_trans_append find_trans_None http_nums http_blocks_1_def)

lemma http_trans_4: "find_trans http_table 4 = Some ([H_request_method], 3)"
  by (simp add: http_table_def find_trans_append find_trans_None http_nums http_blocks_1_def)

lemma http_trans_10: "find_trans http_table 10 = Some ([H_mark], 33)"
  by (simp add: http_table_def find_trans_append find_trans_None http_nums http_blocks_7_def)

lemma http_trans_13: "find_trans http_table 13 = Some ([H_mark], 5)"
  by (simp add: http_table_def find_trans_append find_trans_None http_nums http_blocks_2_def)

lemma http_trans_21: "find_trans http_table 21 = Some ([H_http_version], 13)"
  by (simp add: http_table_def find_trans_append find_trans_None http_nums http_blocks_2_def)

lemma http_trans_22: "find_trans http_table 22 = Some ([H_http_version], 17)"
  by (simp add: http_table_def find_trans_append find_trans_None http_nums http_blocks_3_def)

lemma http_trans_23: "find_trans http_table 23 = Some ([H_start_field], 14)"
  by (simp add: http_table_def find_trans_append find_trans_None http_nums http_blocks_2_def)

lemma http_trans_24: "find_trans http_table 24 = Some ([H_start_field, H_done], 348)"
  by (simp add: http_table_def find_trans_append find_trans_None http_nums http_blocks_3_def)

lemma http_trans_25: "find_trans http_table 25 = Some ([H_start_field], 18)"
  by (simp add: http_table_def find_trans_append find_trans_None http_nums http_blocks_4_def)

lemma http_trans_27: "find_trans http_table 27 = Some ([H_write_field], 15)"
  by (simp add: http_table_def find_trans_append find_trans_None http_nums http_blocks_3_def)

lemma http_trans_28: "find_trans http_table 28 = Some ([H_start_value], 16)"
  by (simp add: http_table_def find_trans_append find_trans_None http_nums http_blocks_3_def)

lemma http_trans_29: "find_trans http_table 29 = Some ([H_start_value], 15)"
  by (simp add: http_table_def find_trans_append find_trans_None http_nums http_blocks_3_def)

lemma http_trans_30: "find_trans http_table 30 = Some ([H_start_value, H_write_value], 13)"
  by (simp add: http_table_def find_trans_append find_trans_None http_nums http_blocks_2_def)

lemma http_trans_31: "find_trans http_table 31 = Some ([H_start_value, H_write_value], 17)"
  by (simp add: http_table_def find_trans_append find_trans_None http_nums http_blocks_3_def)

lemma http_trans_33: "find_trans http_table 33 = Some ([H_write_value], 13)"
  by (simp add: http_table_def find_trans_append find_trans_None http_nums http_blocks_2_def)

lemma http_trans_34: "find_trans http_table 34 = Some ([H_write_value], 17)"
  by (simp add: http_table_def find_trans_append find_trans_None http_nums http_blocks_3_def)

lemma http_trans_36: "find_trans http_table 36 = Some ([H_done], 348)"
  by (simp add: http_table_def find_trans_append find_trans_None http_nums http_blocks_3_def)

lemma http_trans_37: "find_trans http_table 37 = Some ([H_request_path, H_request_uri], 4)"
  by (simp add: http_table_def find_trans_append find_trans_None http_nums http_blocks_1_def)

lemma http_trans_39: "find_trans http_table 39 = Some ([H_request_path, H_request_uri], 20)"
  by (simp add: http_table_def find_trans_append find_trans_None http_nums http_blocks_5_def)

lemma http_trans_42: "find_trans http_table 42 = Some ([H_request_path], 29)"
  by (simp add: http_table_def find_trans_append find_trans_None http_nums http_blocks_7_def)

lemma http_trans_43: "find_trans http_table 43 = Some ([H_mark], 21)"
  by (simp add: http_table_def find_trans_append find_trans_None http_nums http_blocks_5_def)

lemma http_trans_44: "find_trans http_table 44 = Some ([H_mark, H_fragment], 4)"
  by (simp add: http_table_def find_trans_append find_trans_None http_nums http_blocks_1_def)

lemma http_trans_45: "find_trans http_table 45 = Some ([H_mark], 22)"
  by (simp add: http_table_def find_trans_append find_trans_None http_nums http_blocks_5_def)

lemma http_trans_47: "find_trans http_table 47 = Some ([H_fragment], 4)"
  by (simp add: http_table_def find_trans_append find_trans_None http_nums http_blocks_1_def)

lemma http_trans_53: "find_trans http_table 53 = Some ([H_start_query], 30)"
  by (simp add: http_table_def find_trans_append find_trans_None http_nums http_blocks_7_def)

lemma http_trans_54: "find_trans http_table 54 = Some ([H_start_query, H_query_string, H_request_uri], 4)"
  by (simp add: http_table_def find_trans_append find_trans_None http_nums http_blocks_1_def)

lemma http_trans_55: "find_trans http_table 55 = Some ([H_start_query, H_query_string, H_request_uri], 20)"
  by (simp add: http_table_def find_trans_append find_trans_None http_nums http_blocks_5_def)

lemma http_trans_56: "find_trans http_table 56 = Some ([H_start_query], 31)"
  by (simp add: http_table_def find_trans_append find_trans_None http_nums http_blocks_7_def)

lemma http_trans_58: "find_trans http_table 58 = Some ([H_query_string, H_request_uri], 4)"
  by (simp add: http_table_def find_trans_append find_trans_None http_nums http_blocks_2_def)

lemma http_trans_59: "find_trans http_table 59 = Some ([H_query_string, H_request_uri], 20)"
  by (simp add: http_table_def find_trans_append find_trans_None http_nums http_blocks_5_def)

lemmas http_states =
  http_state_1 http_state_2 http_state_175 http_state_176 http_state_177 http_state_178
  http_state_179 http_state_180 http_state_181 http_state_182 http_state_183 http_state_184
  http_state_185 http_state_186 http_state_187 http_state_188 http_state_189 http_state_190
  http_state_191 http_state_192 http_state_193 http_state_3 http_state_33 http_state_26
  http_state_27 http_state_28 http_state_29 http_state_30 http_state_31 http_state_32 http_state_20
  http_state_21 http_state_22 http_state_23 http_state_4 http_state_5 http_state_6 http_state_7
  http_state_8 http_state_9 http_state_10 http_state_11 http_state_12 http_state_17 http_state_13
  http_state_14 http_state_15 http_state_16 http_state_18

lemmas http_transs =
  http_trans_0 http_trans_4 http_trans_10 http_trans_13 http_trans_21 http_trans_22 http_trans_23
  http_trans_24 http_trans_25 http_trans_27 http_trans_28 http_trans_29 http_trans_30 http_trans_31
  http_trans_33 http_trans_34 http_trans_36 http_trans_37 http_trans_39 http_trans_42 http_trans_43
  http_trans_44 http_trans_45 http_trans_47 http_trans_53 http_trans_54 http_trans_55 http_trans_56
  http_trans_58 http_trans_59

section \<open>Characters\<close>

text \<open>
  The classes of the grammar by the number of a character: \<open>pchar\<close> of RFC 3986 without escapes
  and with every byte above ASCII, what else a path and a query may have, the letters of a method
  and the characters of a value, all but NUL, DEL and the ends of lines.
\<close>

definition plain_code :: "int \<Rightarrow> bool" where
  "plain_code x \<longleftrightarrow> x < 0 \<or> x = 33 \<or> x = 36 \<or> 38 \<le> x \<and> x \<le> 46 \<or> 48 \<le> x \<and> x \<le> 59 \<or> x = 61
     \<or> 64 \<le> x \<and> x \<le> 90 \<or> x = 95 \<or> 97 \<le> x \<and> x \<le> 122 \<or> x = 126"

definition path_code :: "int \<Rightarrow> bool" where "path_code x \<longleftrightarrow> plain_code x \<or> x = 47"

definition query_code :: "int \<Rightarrow> bool" where "query_code x \<longleftrightarrow> path_code x \<or> x = 63"

definition method_code :: "int \<Rightarrow> bool" where "method_code x \<longleftrightarrow> 48 \<le> x \<and> x \<le> 57 \<or> 65 \<le> x \<and> x \<le> 90"

definition value_code :: "int \<Rightarrow> bool" where "value_code x \<longleftrightarrow> x \<noteq> 0 \<and> x \<noteq> 10 \<and> x \<noteq> 13 \<and> x \<noteq> 127"

definition start_code :: "int \<Rightarrow> bool" where "start_code x \<longleftrightarrow> value_code x \<and> x \<noteq> 9 \<and> x \<noteq> 32"

section \<open>Moves\<close>

lemma method_moves:
  "method_code (schar c) \<Longrightarrow> move http_table r 1 (schar c) = Move [H_mark] 2"
  "method_code (schar c) \<Longrightarrow> move http_table r 2 (schar c) = Move [] 175"
  "method_code (schar c) \<Longrightarrow> move http_table r 175 (schar c) = Move [] 176"
  "method_code (schar c) \<Longrightarrow> move http_table r 176 (schar c) = Move [] 177"
  "method_code (schar c) \<Longrightarrow> move http_table r 177 (schar c) = Move [] 178"
  "method_code (schar c) \<Longrightarrow> move http_table r 178 (schar c) = Move [] 179"
  "method_code (schar c) \<Longrightarrow> move http_table r 179 (schar c) = Move [] 180"
  "method_code (schar c) \<Longrightarrow> move http_table r 180 (schar c) = Move [] 181"
  "method_code (schar c) \<Longrightarrow> move http_table r 181 (schar c) = Move [] 182"
  "method_code (schar c) \<Longrightarrow> move http_table r 182 (schar c) = Move [] 183"
  "method_code (schar c) \<Longrightarrow> move http_table r 183 (schar c) = Move [] 184"
  "method_code (schar c) \<Longrightarrow> move http_table r 184 (schar c) = Move [] 185"
  "method_code (schar c) \<Longrightarrow> move http_table r 185 (schar c) = Move [] 186"
  "method_code (schar c) \<Longrightarrow> move http_table r 186 (schar c) = Move [] 187"
  "method_code (schar c) \<Longrightarrow> move http_table r 187 (schar c) = Move [] 188"
  "method_code (schar c) \<Longrightarrow> move http_table r 188 (schar c) = Move [] 189"
  "method_code (schar c) \<Longrightarrow> move http_table r 189 (schar c) = Move [] 190"
  "method_code (schar c) \<Longrightarrow> move http_table r 190 (schar c) = Move [] 191"
  "method_code (schar c) \<Longrightarrow> move http_table r 191 (schar c) = Move [] 192"
  "method_code (schar c) \<Longrightarrow> move http_table r 192 (schar c) = Move [] 193"
  by (rule class_move [OF http_state_1, where P = method_code and t = "Tr 0", THEN trans]
      class_move [OF http_state_2, where P = method_code and t = "St 175", THEN trans]
      class_move [OF http_state_175, where P = method_code and t = "St 176", THEN trans]
      class_move [OF http_state_176, where P = method_code and t = "St 177", THEN trans]
      class_move [OF http_state_177, where P = method_code and t = "St 178", THEN trans]
      class_move [OF http_state_178, where P = method_code and t = "St 179", THEN trans]
      class_move [OF http_state_179, where P = method_code and t = "St 180", THEN trans]
      class_move [OF http_state_180, where P = method_code and t = "St 181", THEN trans]
      class_move [OF http_state_181, where P = method_code and t = "St 182", THEN trans]
      class_move [OF http_state_182, where P = method_code and t = "St 183", THEN trans]
      class_move [OF http_state_183, where P = method_code and t = "St 184", THEN trans]
      class_move [OF http_state_184, where P = method_code and t = "St 185", THEN trans]
      class_move [OF http_state_185, where P = method_code and t = "St 186", THEN trans]
      class_move [OF http_state_186, where P = method_code and t = "St 187", THEN trans]
      class_move [OF http_state_187, where P = method_code and t = "St 188", THEN trans]
      class_move [OF http_state_188, where P = method_code and t = "St 189", THEN trans]
      class_move [OF http_state_189, where P = method_code and t = "St 190", THEN trans]
      class_move [OF http_state_190, where P = method_code and t = "St 191", THEN trans]
      class_move [OF http_state_191, where P = method_code and t = "St 192", THEN trans]
      class_move [OF http_state_192, where P = method_code and t = "St 193", THEN trans];
      (assumption | simp add: follow_def http_transs; fail | code_simp))+

lemma space_moves:
  "move http_table r 2 32 = Move [H_request_method] 3"
  "move http_table r 175 32 = Move [H_request_method] 3"
  "move http_table r 176 32 = Move [H_request_method] 3"
  "move http_table r 177 32 = Move [H_request_method] 3"
  "move http_table r 178 32 = Move [H_request_method] 3"
  "move http_table r 179 32 = Move [H_request_method] 3"
  "move http_table r 180 32 = Move [H_request_method] 3"
  "move http_table r 181 32 = Move [H_request_method] 3"
  "move http_table r 182 32 = Move [H_request_method] 3"
  "move http_table r 183 32 = Move [H_request_method] 3"
  "move http_table r 184 32 = Move [H_request_method] 3"
  "move http_table r 185 32 = Move [H_request_method] 3"
  "move http_table r 186 32 = Move [H_request_method] 3"
  "move http_table r 187 32 = Move [H_request_method] 3"
  "move http_table r 188 32 = Move [H_request_method] 3"
  "move http_table r 189 32 = Move [H_request_method] 3"
  "move http_table r 190 32 = Move [H_request_method] 3"
  "move http_table r 191 32 = Move [H_request_method] 3"
  "move http_table r 192 32 = Move [H_request_method] 3"
  "move http_table r 193 32 = Move [H_request_method] 3"
  by (simp_all add: move_def follow_def widec_def http_states http_transs)

lemma path_moves:
  "plain_code (schar c) \<Longrightarrow> move http_table r 33 (schar c) = Move [] 26"
  "path_code (schar c) \<Longrightarrow> move http_table r 26 (schar c) = Move [] 26"
  "hex_code (schar c) \<Longrightarrow> move http_table r 27 (schar c) = Move [] 28"
  "hex_code (schar c) \<Longrightarrow> move http_table r 28 (schar c) = Move [] 26"
  by (rule class_move [OF http_state_33, where P = plain_code and t = "St 26", THEN trans]
      class_move [OF http_state_26, where P = path_code and t = "St 26", THEN trans]
      class_move [OF http_state_27, where P = hex_code and t = "St 28", THEN trans]
      class_move [OF http_state_28, where P = hex_code and t = "St 26", THEN trans];
      (assumption | simp add: follow_def http_transs; fail | code_simp))+

lemma query_moves:
  "query_code (schar c) \<Longrightarrow> move http_table r 29 (schar c) = Move [H_start_query] 30"
  "query_code (schar c) \<Longrightarrow> move http_table r 30 (schar c) = Move [] 30"
  "hex_code (schar c) \<Longrightarrow> move http_table r 31 (schar c) = Move [] 32"
  "hex_code (schar c) \<Longrightarrow> move http_table r 32 (schar c) = Move [] 30"
  by (rule class_move [OF http_state_29, where P = query_code and t = "Tr 53", THEN trans]
      class_move [OF http_state_30, where P = query_code and t = "St 30", THEN trans]
      class_move [OF http_state_31, where P = hex_code and t = "St 32", THEN trans]
      class_move [OF http_state_32, where P = hex_code and t = "St 30", THEN trans];
      (assumption | simp add: follow_def http_transs; fail | code_simp))+

lemma fragment_moves:
  "query_code (schar c) \<Longrightarrow> move http_table r 20 (schar c) = Move [H_mark] 21"
  "query_code (schar c) \<Longrightarrow> move http_table r 21 (schar c) = Move [] 21"
  "hex_code (schar c) \<Longrightarrow> move http_table r 22 (schar c) = Move [] 23"
  "hex_code (schar c) \<Longrightarrow> move http_table r 23 (schar c) = Move [] 21"
  by (rule class_move [OF http_state_20, where P = query_code and t = "Tr 43", THEN trans]
      class_move [OF http_state_21, where P = query_code and t = "St 21", THEN trans]
      class_move [OF http_state_22, where P = hex_code and t = "St 23", THEN trans]
      class_move [OF http_state_23, where P = hex_code and t = "St 21", THEN trans];
      (assumption | simp add: follow_def http_transs; fail | code_simp))+

lemma uri_moves:
  "move http_table r 3 47 = Move [H_mark] 33"
  "move http_table r 33 37 = Move [] 27"
  "move http_table r 26 37 = Move [] 27"
  "move http_table r 29 37 = Move [H_start_query] 31"
  "move http_table r 30 37 = Move [] 31"
  "move http_table r 20 37 = Move [H_mark] 22"
  "move http_table r 21 37 = Move [] 22"
  "move http_table r 33 32 = Move [H_request_path, H_request_uri] 4"
  "move http_table r 26 32 = Move [H_request_path, H_request_uri] 4"
  "move http_table r 33 35 = Move [H_request_path, H_request_uri] 20"
  "move http_table r 26 35 = Move [H_request_path, H_request_uri] 20"
  "move http_table r 33 63 = Move [H_request_path] 29"
  "move http_table r 26 63 = Move [H_request_path] 29"
  "move http_table r 30 32 = Move [H_query_string, H_request_uri] 4"
  "move http_table r 30 35 = Move [H_query_string, H_request_uri] 20"
  "move http_table r 21 32 = Move [H_fragment] 4"
  by (simp_all add: move_def follow_def widec_def http_states http_transs)

lemma version_moves:
  "move http_table r 4 72 = Move [H_mark] 5"
  "move http_table r 5 84 = Move [] 6"
  "move http_table r 6 84 = Move [] 7"
  "move http_table r 7 80 = Move [] 8"
  "move http_table r 8 47 = Move [] 9"
  "move http_table r 9 49 = Move [] 10"
  "move http_table r 10 46 = Move [] 11"
  "move http_table r 11 48 = Move [] 12"
  "move http_table r 11 49 = Move [] 12"
  "move http_table r 12 13 = Move [H_http_version] 17"
  "move http_table r 17 10 = Move [] 13"
  by (simp_all add: move_def follow_def widec_def http_states http_transs)

lemma header_classes:
  "token_code (schar c) \<Longrightarrow> move http_table r 13 (schar c) = Move [H_start_field] 14"
  "token_code (schar c) \<Longrightarrow> move http_table r 14 (schar c) = Move [] 14"
  "start_code (schar c) \<Longrightarrow> move http_table r 15 (schar c) = Move [H_start_value] 16"
  "value_code (schar c) \<Longrightarrow> move http_table r 16 (schar c) = Move [] 16"
  by (rule class_move [OF http_state_13, where P = token_code and t = "Tr 23", THEN trans]
      class_move [OF http_state_14, where P = token_code and t = "St 14", THEN trans]
      class_move [OF http_state_15, where P = start_code and t = "Tr 28", THEN trans]
      class_move [OF http_state_16, where P = value_code and t = "St 16", THEN trans];
      (assumption | simp add: follow_def http_transs; fail | code_simp))+

lemma header_moves:
  "move http_table r 14 58 = Move [H_write_field] 15"
  "move http_table r 15 32 = Move [H_start_value] 15"
  "move http_table r 15 13 = Move [H_start_value, H_write_value] 17"
  "move http_table r 16 13 = Move [H_write_value] 17"
  "move http_table r 13 13 = Move [H_start_field] 18"
  "move http_table r 18 10 = Move [H_done] 348"
  by (simp_all add: move_def follow_def widec_def http_states http_transs)

end
