(* ===== verification/Http11_Asserts.thy ===== *)
theory Http11_Asserts
  imports Http11 HttpMoves
begin

text \<open>
  The assertions behind a run of the machine for requests: in whatever pieces a request arrives,
  they hold at every call on a parser that is not finished.
\<close>

section \<open>The record of the parser\<close>

text \<open>What the assertions ask of a buffer of length \<open>n\<close>, kept by the actions while the pointer is in it.\<close>

definition within :: "nat \<Rightarrow> nat \<Rightarrow> http_parser \<Rightarrow> bool" where
  "within n q s \<longleftrightarrow> hp_nread s = 0 \<and> hp_body_start s \<le> n \<and> hp_mark s < n \<and> hp_field_len s \<le> n \<and> hp_field_start s < n
     \<and> hp_field_start s \<le> q"

lemma http_action_within:
  assumes "q < n" and "within n q (fst w)"
  shows "within n q (fst (http_action buffer a q w))"
  using assms LEN_le [of "hp_field_start (fst w)" q]
  by (cases w; cases a) (auto simp: within_def)

lemma http_action_body_start:
  "a \<noteq> H_done \<Longrightarrow> hp_body_start (fst (http_action buffer a q w)) = hp_body_start (fst w)"
  by (cases w; cases a) auto

text \<open>Only \<open>done\<close> sets \<open>body_start\<close>, and it ends the run in the final state.\<close>

lemma http_blocks_1_done: "only_into (\<lambda>a. a = H_done) (\<lambda>n. n \<ge> http_parser_first_final) http_blocks_1"
  by (simp add: http_blocks_1_def only_into_def http_parser_first_final_def)

lemma http_blocks_2_done: "only_into (\<lambda>a. a = H_done) (\<lambda>n. n \<ge> http_parser_first_final) http_blocks_2"
  by (simp add: http_blocks_2_def only_into_def http_parser_first_final_def)

lemma http_blocks_3_done: "only_into (\<lambda>a. a = H_done) (\<lambda>n. n \<ge> http_parser_first_final) http_blocks_3"
  by (simp add: http_blocks_3_def only_into_def http_parser_first_final_def)

lemma http_blocks_4_done: "only_into (\<lambda>a. a = H_done) (\<lambda>n. n \<ge> http_parser_first_final) http_blocks_4"
  by (simp add: http_blocks_4_def only_into_def http_parser_first_final_def)

lemma http_blocks_5_done: "only_into (\<lambda>a. a = H_done) (\<lambda>n. n \<ge> http_parser_first_final) http_blocks_5"
  by (simp add: http_blocks_5_def only_into_def http_parser_first_final_def)

lemma http_blocks_6_done: "only_into (\<lambda>a. a = H_done) (\<lambda>n. n \<ge> http_parser_first_final) http_blocks_6"
  by (simp add: http_blocks_6_def only_into_def http_parser_first_final_def)

lemma http_blocks_7_done: "only_into (\<lambda>a. a = H_done) (\<lambda>n. n \<ge> http_parser_first_final) http_blocks_7"
  by (simp add: http_blocks_7_def only_into_def http_parser_first_final_def)

lemma http_blocks_23_done: "only_into (\<lambda>a. a = H_done) (\<lambda>n. n \<ge> http_parser_first_final) http_blocks_23"
  by (simp add: http_blocks_23_def only_into_def http_parser_first_final_def)

lemma http_blocks_25_done: "only_into (\<lambda>a. a = H_done) (\<lambda>n. n \<ge> http_parser_first_final) http_blocks_25"
  by (simp add: http_blocks_25_def only_into_def http_parser_first_final_def)

lemma http_blocks_26_done: "only_into (\<lambda>a. a = H_done) (\<lambda>n. n \<ge> http_parser_first_final) http_blocks_26"
  by (simp add: http_blocks_26_def only_into_def http_parser_first_final_def)

lemma http_blocks_27_done: "only_into (\<lambda>a. a = H_done) (\<lambda>n. n \<ge> http_parser_first_final) http_blocks_27"
  by (simp add: http_blocks_27_def only_into_def http_parser_first_final_def)

lemmas http_blocks_done = http_blocks_1_done http_blocks_2_done http_blocks_3_done http_blocks_4_done http_blocks_5_done http_blocks_6_done http_blocks_7_done http_blocks_23_done http_blocks_25_done http_blocks_26_done http_blocks_27_done

lemma done_is_final: "only_into (\<lambda>a. a = H_done) (\<lambda>n. n \<ge> http_parser_first_final) http_table"
  by (simp only: http_table_def only_into_concat list.pred_inject simp_thms http_blocks_done only_into_no_trans http_nums)

lemma no_state_0: "find_state http_table http_parser_error = None"
  by (simp add: http_table_def find_state_append find_state_None http_nums http_parser_error_def)

section \<open>Calls\<close>

text \<open>The parsers that a sequence of calls leads to, each on the parser that the one before left unfinished.\<close>

inductive http_calls :: "bool \<Rightarrow> http_parser \<Rightarrow> http_parser \<Rightarrow> bool" for r :: bool and p0 :: http_parser where
  init: "http_calls r p0 (http_parser_init p0)"
| call: "http_calls r p0 parser \<Longrightarrow> \<not> http_parser_is_finished parser \<Longrightarrow> http_parser_run r parser buffer = (parser1, nread, evs)
    \<Longrightarrow> http_calls r p0 parser1"

text \<open>The assertions hold when nothing was in \<open>body_start\<close>, or nothing that lies behind the buffer.\<close>

lemma execute_run:
  assumes "hp_body_start parser \<le> length buffer" and "http_parser_run r parser buffer = (parser1, nread, evs)"
  shows "http_parser_execute r parser buffer = Inr (parser1, nread, evs) \<and> nread \<le> length buffer"
proof (cases "buffer = []")
  case False
  let ?n = "length buffer"
  let ?s = "parser\<lparr>hp_nread := 0, hp_mark := 0, hp_field_len := 0, hp_field_start := 0\<rparr>"
  obtain cs p parser2 evs' where m: "machine_run http_table r (\<lambda>a. a = H_done) (http_action buffer) (hp_cs parser) 0 buffer (?s, [])
      = (cs, p, parser2, evs')"
    by (metis prod_cases4)
  have "within ?n 0 ?s" using assms False by (simp add: within_def)
  then obtain q where w: "within ?n q parser2"
    using machine_run_invariant [OF m, where I = "\<lambda>q w. within ?n q (fst w)"] http_action_within
    by (auto simp: within_def)
  have p: "p \<le> ?n" using machine_run_pointer [OF m] by simp
  define parser3 where "parser3 = (if \<not> http_parser_has_error parser2 then parser2\<lparr>hp_cs := cs\<rparr> else parser2)\<lparr>hp_nread := p\<rparr>"
  have run: "http_parser_run r parser buffer = (parser3, p, evs')"
    using m False w by (simp add: http_parser_run_def Let_def parser3_def within_def)
  have "http_parser_execute r parser buffer = Inr (parser3, p, evs')"
    using w p False unfolding http_parser_execute_def run by (simp add: parser3_def within_def)
  then show ?thesis using run p assms(2) by simp
qed (use assms in \<open>simp_all add: http_parser_execute_def http_parser_run_def\<close>)

lemma run_body_start:
  assumes "http_parser_run r parser buffer = (parser1, nread, evs)" and "hp_body_start parser = 0"
  shows "hp_body_start parser1 = 0 \<or> http_parser_is_finished parser1"
proof (cases "buffer = []")
  case False
  let ?s = "parser\<lparr>hp_nread := 0, hp_mark := 0, hp_field_len := 0, hp_field_start := 0\<rparr>"
  obtain cs p parser2 where m: "machine_run http_table r (\<lambda>a. a = H_done) (http_action buffer) (hp_cs parser) 0 buffer (?s, [])
      = (cs, p, parser2, evs)"
    and 1: "hp_body_start parser1 = hp_body_start parser2"
      "hp_cs parser1 = (if http_parser_has_error parser2 then hp_cs parser2 else cs)"
    using assms(1) False by (auto simp: http_parser_run_def Let_def split: prod.splits if_splits)
  show ?thesis
  proof (cases "http_parser_has_error parser")
    case True
    with m no_state_0 False assms(2) 1(1) show ?thesis
      by (cases buffer) (auto simp: machine_run.simps(2) move_def http_parser_has_error_def)
  next
    case False
    have cs: "hp_cs (fst (http_action buffer a q w)) = hp_cs (fst w)" for a q w by (cases w; cases a) auto
    have "hp_cs parser2 = hp_cs parser"
      using machine_run_invariant [OF m, where I = "\<lambda>q w. hp_cs (fst w) = hp_cs parser"] cs by auto
    moreover have "hp_body_start parser2 = 0 \<or> cs \<ge> http_parser_first_final"
      using machine_run_unless [OF m done_is_final, where J = "\<lambda>w. hp_body_start (fst w) = 0"] assms(2) http_action_body_start by auto
    ultimately show ?thesis using 1 False by (auto simp: http_parser_has_error_def http_parser_is_finished_def)
  qed
qed (use assms in \<open>auto simp: http_parser_run_def\<close>)

lemma calls_body_start: "http_calls r p0 parser \<Longrightarrow> hp_body_start parser = 0 \<or> http_parser_is_finished parser"
  by (induction rule: http_calls.induct) (use run_body_start in \<open>auto simp: http_parser_init_def\<close>)



end
