(* ===== verification/Http11_Props.thy ===== *)
theory Http11_Props
  imports Http11_Asserts HttpSession_Props
begin

text \<open>
  The machine for requests reads what \<open>HttpRequest::dump\<close> writes. A stretch of text that the machine
  reads from one state to another, whatever stands before and behind it, has an effect on the
  request; stretches compose, and a request is a composition of them.
\<close>

section \<open>Stretches\<close>

definition quiet :: "http_parser \<Rightarrow> bool" where
  "quiet s \<longleftrightarrow> \<not> hp_xml_sent s \<and> \<not> hp_json_sent s \<and> hp_cs s \<noteq> 0 \<and> hp_body_start s = 0"

definition effect :: "http_event list \<Rightarrow> (HttpRequest \<Rightarrow> HttpRequest) \<Rightarrow> bool" where
  "effect evs f \<longleftrightarrow> (\<forall>parser :: http_parser HttpRequestParser.
     fold on_request evs parser = parser\<lparr>rp_data := f (rp_data parser)\<rparr>)"

lemma effect_Nil: "effect [] id"
  by (simp add: effect_def)

lemma effect_append: "effect es f \<Longrightarrow> effect fs g \<Longrightarrow> effect (es @ fs) (g \<circ> f)"
  by (simp add: effect_def)

abbreviation hrun :: "bool \<Rightarrow> string \<Rightarrow> nat \<Rightarrow> nat \<Rightarrow> string \<Rightarrow> http_parser \<times> http_event list \<Rightarrow> nat \<times> nat \<times> http_parser \<times> http_event list" where
  "hrun r buffer \<equiv> machine_run http_table r (\<lambda>a. a = H_done) (http_action buffer)"

interpretation hr: stretches http_table r "\<lambda>a. a = H_done" http_action quiet effect for r
  by unfold_locales (simp_all add: effect_Nil effect_append)

interpretation hm: ragel http_table r "\<lambda>a. a = H_done" "http_action buffer" for r buffer .

section \<open>The request line\<close>

lemma schar_eval: "schar (CHR 0x20) = 32" "schar (CHR 0x2F) = 47" "schar (CHR 0x3F) = 63" "schar (CHR 0x23) = 35" "schar (CHR 0x3A) = 58"
  "schar (CHR 0x0D) = 13" "schar (CHR 0x0A) = 10" "schar (CHR 0x48) = 72" "schar (CHR 0x54) = 84" "schar (CHR 0x50) = 80"
  "schar (CHR 0x31) = 49" "schar (CHR 0x30) = 48" "schar (CHR 0x2E) = 46"
  by (simp_all add: schar_def)

lemma method_next: "method_code (schar c) \<Longrightarrow> 175 \<le> n \<Longrightarrow> n < 193 \<Longrightarrow> move http_table r n (schar c) = Move [] (Suc n)"
proof -
  assume c: "method_code (schar c)" and "175 \<le> n" "n < 193"
  then have "n = 175 \<or> n = 176 \<or> n = 177 \<or> n = 178 \<or> n = 179 \<or> n = 180 \<or> n = 181 \<or> n = 182 \<or> n = 183 \<or> n = 184
      \<or> n = 185 \<or> n = 186 \<or> n = 187 \<or> n = 188 \<or> n = 189 \<or> n = 190 \<or> n = 191 \<or> n = 192" by presburger
  then show ?thesis by (elim disjE) (simp_all add: method_moves [OF c])
qed

lemma method_end: "175 \<le> n \<Longrightarrow> n \<le> 193 \<Longrightarrow> move http_table r n 32 = Move [H_request_method] 3"
proof -
  assume "175 \<le> n" "n \<le> 193"
  then have "n = 175 \<or> n = 176 \<or> n = 177 \<or> n = 178 \<or> n = 179 \<or> n = 180 \<or> n = 181 \<or> n = 182 \<or> n = 183 \<or> n = 184
      \<or> n = 185 \<or> n = 186 \<or> n = 187 \<or> n = 188 \<or> n = 189 \<or> n = 190 \<or> n = 191 \<or> n = 192 \<or> n = 193" by presburger
  then show ?thesis by (elim disjE) (simp_all add: space_moves)
qed

lemma method_tail:
  "\<forall>c \<in> set xs. method_code (schar c) \<Longrightarrow> 175 \<le> n \<Longrightarrow> n + length xs \<le> 193 \<Longrightarrow>
   hrun r buffer n p (xs @ CHR 0x20 # rest) s
     = hrun r buffer 3 (p + length xs + 1) rest (http_action buffer H_request_method (p + length xs) s)"
proof (induction xs arbitrary: n p)
  case Nil
  then show ?case using hm.step [of r n "CHR 0x20" "[H_request_method]" 3] method_end [of n r] by (simp add: schar_eval)
next
  case (Cons c xs)
  then show ?case using hm.silent [of r n c "Suc n"] method_next [of c n r] by simp
qed

lemma reads_method_text:
  assumes "xs = c # d # ys" and "\<forall>c \<in> set xs. method_code (schar c)" and "length xs \<le> 20"
    and "m \<noteq> INVALID_METHOD" and "HttpMethodToString m = xs" and "CHR 0x00 \<notin> set xs"
  shows "hr.reads r 1 (xs @ '' '') 3 (\<lambda>rq. rq\<lparr>rq_method := m\<rparr>)"
  unfolding hr.reads_def
proof (intro allI impI)
  fix pre rest s evs
  assume q: "quiet s" and l: "length (pre @ (xs @ '' '') @ rest) < 2 ^ 64"
  let ?b = "pre @ (xs @ '' '') @ rest"
  let ?s = "s\<lparr>hp_mark := length pre\<rparr>"
  have "hrun r ?b 1 (length pre) ((xs @ '' '') @ rest) (s, evs)
      = hrun r ?b 3 (length pre + length xs + 1) rest
          (http_action ?b H_request_method (length pre + length xs) (?s, evs))"
    using assms(1-3) hm.step [of r 1 c "[H_mark]" 2 ?b] hm.silent [of r 2 d 175 ?b] method_moves(1) [of c r] method_moves(2) [of d r]
      method_tail [of ys 175 r ?b "length pre + 2" rest "(?s, evs)"] by simp
  moreover have "http_action ?b H_request_method (length pre + length xs) (?s, evs)
      = (?s, evs @ [Element request_method (xs @ '' '' @ rest) (length xs)])"
    using element_cut [of pre xs "'' '' @ rest"] l by simp
  moreover have "effect [Element request_method (xs @ '' '' @ rest) (length xs)] (\<lambda>rq. rq\<lparr>rq_method := m\<rparr>)"
  proof -
    have "prefix xs (c_str (xs @ '' '' @ rest))" using assms(6) by (simp add: c_str_def takeWhile_append)
    then have "CharsToHttpMethod (xs @ '' '' @ rest) = m" using methods_round_trip [OF assms(4)] assms(5) by simp
    with assms(4) show ?thesis by (simp add: effect_def on_request_method_def)
  qed
  ultimately show "\<exists>s' es. hrun r ?b 1 (length pre) ((xs @ '' '') @ rest) (s, evs)
      = hrun r ?b 3 (length pre + length (xs @ '' '')) rest (s', evs @ es)
      \<and> quiet s' \<and> effect es (\<lambda>rq. rq\<lparr>rq_method := m\<rparr>)"
    using q by (intro exI [of _ ?s] exI [of _ "[Element request_method (xs @ '' '' @ rest) (length xs)]"]) (simp add: quiet_def)
qed

lemma method_texts:
  "\<forall>(n, m, s) \<in> set HTTP_METHOD_MAP. m = MSEARCH \<or> list_all (\<lambda>c. method_code (schar c)) s \<and> 2 \<le> length s \<and> length s \<le> 20"
  by code_simp

lemma reads_method:
  assumes "m \<noteq> INVALID_METHOD" and "m \<noteq> MSEARCH"
  shows "hr.reads r 1 (HttpMethodToString m @ '' '') 3 (\<lambda>rq. rq\<lparr>rq_method := m\<rparr>)"
proof -
  obtain n s where t: "(n, m, s) \<in> set HTTP_METHOD_MAP" using method_in_table [OF assms(1)] by blast
  note d = table_textD [OF t]
  have o: "\<forall>c \<in> set s. method_code (schar c)" "2 \<le> length s" "length s \<le> 20"
    using bspec [OF method_texts t] assms(2) by (auto simp: list_all_iff)
  then obtain c e ys where s: "s = c # e # ys" by (cases s; cases "tl s") auto
  show ?thesis unfolding d(1) by (rule reads_method_text [OF s o(1,3) assms(1) d(1,3)])
qed

text \<open>
  A path is \<open>/\<close> alone, or does not go on with another one; a query and a fragment are never empty.
\<close>

definition path_ok :: "string \<Rightarrow> bool" where
  "path_ok path \<longleftrightarrow> (case path of [] \<Rightarrow> False | c # tail \<Rightarrow> c = CHR 0x2F \<and> escaped path_code tail \<and> take 1 tail \<noteq> ''/'')"

lemma percent_not_class: "\<not> path_code 37" "\<not> query_code 37"
  by (simp_all add: path_code_def query_code_def plain_code_def)

lemma path_tail:
  assumes "escaped path_code tail" and "take 1 tail \<noteq> ''/''"
  shows "\<exists>A\<in>{33, 26}. hrun r b 33 p (tail @ rest) s
    = hrun r b A (p + length tail) rest s"
proof (cases tail)
  case (Cons c xs)
  have "schar c \<noteq> 47" using assms(2) Cons schar_inj [of c "CHR 0x2F"] by (auto simp: schar_eval)
  then have "path_code (schar c) \<Longrightarrow> plain_code (schar c)" by (simp add: path_code_def)
  then show ?thesis
    using hm.enter_escapes [of path_code c xs r 33 "[]" 26 27 28 b p rest s] assms(1) Cons path_moves uri_moves by auto
qed simp

definition path_acts :: "nat \<Rightarrow> http_act list" where
  "path_acts cs = (if cs = 29 then [H_request_path] else [H_request_path, H_request_uri])"

lemma path_end:
  "A \<in> {33, 26} \<Longrightarrow> (t, cs) \<in> {(CHR 0x20, 4), (CHR 0x23, 20), (CHR 0x3F, 29)} \<Longrightarrow>
   move http_table r A (schar t) = Move (path_acts cs) cs"
  using uri_moves [of r] by (auto simp: schar_eval path_acts_def)

lemma effect_path: "effect [Element request_path (path @ y) (length path)] (\<lambda>rq. rq\<lparr>rq_path := path\<rparr>)"
  by (simp add: effect_def on_request_path_def)

lemma effect_path_uri: "effect [Element request_path (path @ y) (length path), Element request_uri z n] (\<lambda>rq. rq\<lparr>rq_path := path\<rparr>)"
  by (simp add: effect_def on_request_path_def)

lemma reads_path:
  assumes "path_ok path" and t: "(t, cs) \<in> {(CHR 0x20, 4), (CHR 0x23, 20), (CHR 0x3F, 29)}"
  shows "hr.reads r 3 (path @ [t]) cs (\<lambda>rq. rq\<lparr>rq_path := path\<rparr>)"
  unfolding hr.reads_def
proof (intro allI impI)
  fix pre rest s evs
  assume q: "quiet s" and l: "length (pre @ (path @ [t]) @ rest) < 2 ^ 64"
  let ?b = "pre @ (path @ [t]) @ rest"
  let ?s = "s\<lparr>hp_mark := length pre\<rparr>"
  obtain tail where tail: "path = CHR 0x2F # tail" "escaped path_code tail" "take 1 tail \<noteq> ''/''"
    using assms(1) by (auto simp: path_ok_def split: list.splits)
  obtain A where A: "A \<in> {33, 26}" "hrun r ?b 33 (length pre + 1) (tail @ t # rest) (?s, evs)
      = hrun r ?b A (length pre + 1 + length tail) (t # rest) (?s, evs)"
    using path_tail [OF tail(2,3), of r ?b "length pre + 1" "t # rest" "(?s, evs)"] by blast
  have "hrun r ?b 3 (length pre) ((path @ [t]) @ rest) (s, evs)
      = hrun r ?b A (length pre + length path) (t # rest) (?s, evs)"
    using A(2) uri_moves(1) [of r] hm.step [of r 3 "CHR 0x2F" "[H_mark]" 33 ?b] tail(1) by (simp add: schar_eval)
  also have "\<dots> = hrun r ?b cs (length pre + length path + 1) rest
      (fold (\<lambda>a. http_action ?b a (length pre + length path)) (path_acts cs) (?s, evs))"
    using hm.step [OF path_end [OF A(1) t], of r ?b] by (simp add: path_acts_def)
  finally have run: "hrun r ?b 3 (length pre) ((path @ [t]) @ rest) (s, evs)
      = hrun r ?b cs (length pre + length (path @ [t])) rest
          (fold (\<lambda>a. http_action ?b a (length pre + length path)) (path_acts cs) (?s, evs))" by simp
  let ?e = "Element request_path (path @ t # rest) (length path)"
  let ?es = "if cs = 29 then [?e] else [?e, Element request_uri (path @ t # rest) (length path)]"
  have "fold (\<lambda>a. http_action ?b a (length pre + length path)) (path_acts cs) (?s, evs) = (?s, evs @ ?es)"
    using element_cut [of pre path "t # rest" request_path] element_cut [of pre path "t # rest" request_uri] l
    by (simp add: path_acts_def)
  moreover have "effect ?es (\<lambda>rq. rq\<lparr>rq_path := path\<rparr>)" by (simp add: effect_path effect_path_uri)
  ultimately show "\<exists>s' es. hrun r ?b 3 (length pre) ((path @ [t]) @ rest) (s, evs)
      = hrun r ?b cs (length pre + length (path @ [t])) rest (s', evs @ es)
      \<and> quiet s' \<and> effect es (\<lambda>rq. rq\<lparr>rq_path := path\<rparr>)"
    using run q by (intro exI [of _ ?s] exI [of _ ?es]) (simp add: quiet_def)
qed

lemma effect_query: "effect [Element query_string (q @ y) (length q), Element request_uri z n] (\<lambda>rq. rq\<lparr>rq_query := q\<rparr>)"
  by (simp add: effect_def on_request_query_def)

lemma reads_query:
  assumes "escaped query_code q" and "q \<noteq> []" and t: "(t, cs) \<in> {(CHR 0x20, 4), (CHR 0x23, 20)}"
  shows "hr.reads r 29 (q @ [t]) cs (\<lambda>rq. rq\<lparr>rq_query := q\<rparr>)"
  unfolding hr.reads_def
proof (intro allI impI)
  fix pre rest s evs
  assume q: "quiet s" and l: "length (pre @ (q @ [t]) @ rest) < 2 ^ 64"
  let ?b = "pre @ (q @ [t]) @ rest"
  let ?s = "s\<lparr>hp_query_start := length pre\<rparr>"
  obtain c xs where cx: "q = c # xs" using assms(2) by (cases q) auto
  have "hrun r ?b 29 (length pre) ((q @ [t]) @ rest) (s, evs) = hrun r ?b 30 (length pre + length q) (t # rest) (?s, evs)"
    using hm.enter_escapes [of query_code c xs r 29 "[H_start_query]" 30 31 32 ?b "length pre" "t # rest" "(s, evs)"] assms(1) cx
      query_moves uri_moves by simp
  also have "\<dots> = hrun r ?b cs (length pre + length q + 1) rest
      (fold (\<lambda>a. http_action ?b a (length pre + length q)) [H_query_string, H_request_uri] (?s, evs))"
    using t uri_moves [of r] by (intro hm.step) (auto simp: schar_eval)
  finally show "\<exists>s' es. hrun r ?b 29 (length pre) ((q @ [t]) @ rest) (s, evs)
      = hrun r ?b cs (length pre + length (q @ [t])) rest (s', evs @ es) \<and> quiet s' \<and> effect es (\<lambda>rq. rq\<lparr>rq_query := q\<rparr>)"
    using element_cut [of pre q "t # rest" query_string] l q effect_query
    by (intro exI [of _ ?s]) (auto simp: quiet_def element_at_def)
qed

lemma effect_fragment: "effect [Element fragment (f @ y) (length f)] (\<lambda>rq. rq\<lparr>rq_fragment := f\<rparr>)"
  by (simp add: effect_def on_request_fragment_def)

lemma reads_fragment:
  assumes "escaped query_code f" and "f \<noteq> []"
  shows "hr.reads r 20 (f @ '' '') 4 (\<lambda>rq. rq\<lparr>rq_fragment := f\<rparr>)"
  unfolding hr.reads_def
proof (intro allI impI)
  fix pre rest s evs
  assume q: "quiet s" and l: "length (pre @ (f @ '' '') @ rest) < 2 ^ 64"
  let ?b = "pre @ (f @ '' '') @ rest"
  let ?s = "s\<lparr>hp_mark := length pre\<rparr>"
  obtain c xs where cx: "f = c # xs" using assms(2) by (cases f) auto
  have "hrun r ?b 20 (length pre) ((f @ '' '') @ rest) (s, evs) = hrun r ?b 21 (length pre + length f) ('' '' @ rest) (?s, evs)"
    using hm.enter_escapes [of query_code c xs r 20 "[H_mark]" 21 22 23 ?b "length pre" "'' '' @ rest" "(s, evs)"] assms(1) cx
      fragment_moves uri_moves by simp
  also have "\<dots> = hrun r ?b 4 (length pre + length f + 1) rest (?s, evs @ [Element fragment (f @ '' '' @ rest) (length f)])"
    using uri_moves [of r] hm.step [of r 21 "CHR 0x20" "[H_fragment]" 4 ?b] element_cut [of pre f "'' '' @ rest"] l
    by (simp add: schar_eval)
  finally show "\<exists>s' es. hrun r ?b 20 (length pre) ((f @ '' '') @ rest) (s, evs)
      = hrun r ?b 4 (length pre + length (f @ '' '')) rest (s', evs @ es) \<and> quiet s' \<and> effect es (\<lambda>rq. rq\<lparr>rq_fragment := f\<rparr>)"
    using q effect_fragment by (intro exI [of _ ?s] exI [of _ "[Element fragment (f @ '' '' @ rest) (length f)]"]) (simp add: quiet_def)
qed

lemma effect_version:
  assumes "d \<in> {CHR 0x30, CHR 0x31}"
  shows "effect [Element http_version (''HTTP/1.'' @ d # CRLF @ rest) 8] (\<lambda>rq. rq\<lparr>rq_version := (if d = CHR 0x31 then 0x11 else 0x10)\<rparr>)"
  using assms by (auto simp: effect_def on_request_version_def version_of_def c_str_def eval_nat_numeral)

lemma reads_version_digit:
  assumes d: "d \<in> {CHR 0x30, CHR 0x31}"
  shows "hr.reads r 4 (''HTTP/1.'' @ d # CRLF) 13 (\<lambda>rq. rq\<lparr>rq_version := (if d = CHR 0x31 then 0x11 else 0x10)\<rparr>)"
  unfolding hr.reads_def
proof (intro allI impI)
  fix pre rest s evs
  assume q: "quiet s" and l: "length (pre @ (''HTTP/1.'' @ d # CRLF) @ rest) < 2 ^ 64"
  let ?b = "pre @ (''HTTP/1.'' @ d # CRLF) @ rest"
  let ?s = "s\<lparr>hp_mark := length pre\<rparr>"
  note m = version_moves [of r]
  have el: "element_at ?b http_version (length pre) (length pre + 8) = Element http_version (''HTTP/1.'' @ d # CRLF @ rest) 8"
    using l by (simp add: element_at_def LEN_sub)
  have e8: "length pre + 8 = Suc (Suc (Suc (Suc (Suc (Suc (Suc (Suc (length pre))))))))" by simp
  have d12: "move http_table r 11 (schar d) = Move [] 12" using d m(8,9) by (auto simp: schar_eval)
  have "hrun r ?b 4 (length pre) ((''HTTP/1.'' @ d # CRLF) @ rest) (s, evs) = hrun r ?b 12 (length pre + 8) (CRLF @ rest) (?s, evs)"
    using m(1-7) d12 by (simp add: hm.step schar_eval e8)
  also have "\<dots> = hrun r ?b 13 (length pre + 10) rest (?s, evs @ [Element http_version (''HTTP/1.'' @ d # CRLF @ rest) 8])"
    using m(10,11) el by (simp add: hm.step schar_eval add.assoc del: One_nat_def)
  finally have run: "hrun r ?b 4 (length pre) ((''HTTP/1.'' @ d # CRLF) @ rest) (s, evs)
      = hrun r ?b 13 (length pre + 10) rest (?s, evs @ [Element http_version (''HTTP/1.'' @ d # CRLF @ rest) 8])" .
  have qs: "quiet ?s" using q by (simp add: quiet_def)
  have len: "length (''HTTP/1.'' @ d # CRLF) = 10" by simp
  show "\<exists>s' es. hrun r ?b 4 (length pre) ((''HTTP/1.'' @ d # CRLF) @ rest) (s, evs)
      = hrun r ?b 13 (length pre + length (''HTTP/1.'' @ d # CRLF)) rest (s', evs @ es) \<and> quiet s'
      \<and> effect es (\<lambda>rq. rq\<lparr>rq_version := (if d = CHR 0x31 then 0x11 else 0x10)\<rparr>)"
    unfolding len by (intro exI conjI, rule run, rule qs, rule effect_version [OF d])
qed

lemma version_text_eval: "version_text 0x11 = ''1.1''" "version_text 0x10 = ''1.0''"
  by code_simp+

lemma reads_version:
  "v \<in> {0x10, 0x11} \<Longrightarrow> hr.reads r 4 (''HTTP/'' @ version_text v @ CRLF) 13 (\<lambda>rq. rq\<lparr>rq_version := v\<rparr>)"
  using reads_version_digit [of "CHR 0x30" r] reads_version_digit [of "CHR 0x31" r] by (auto simp: version_text_eval)

section \<open>Headers\<close>

definition field_ok :: "string \<times> string \<Rightarrow> bool" where
  "field_ok kv \<longleftrightarrow> fst kv \<noteq> [] \<and> list_all (\<lambda>c. token_code (schar c)) (fst kv)
     \<and> list_all (\<lambda>c. value_code (schar c)) (snd kv) \<and> list_all (\<lambda>c. start_code (schar c)) (take 1 (snd kv))"

text \<open>The name, up to the space behind the colon.\<close>

lemma run_name:
  assumes "k \<noteq> []" and "list_all (\<lambda>c. token_code (schar c)) k" and "p + length k < 2 ^ 64"
  shows "hrun r b 13 p (k @ '': '' @ rest) (s, evs)
    = hrun r b 15 (p + length k + 2) rest (s\<lparr>hp_field_start := p, hp_field_len := length k, hp_mark := p + length k + 1\<rparr>, evs)"
proof -
  obtain c xs where k: "k = c # xs" using assms(1) by (cases k) auto
  have "hrun r b 13 p (k @ '': '' @ rest) (s, evs) = hrun r b 14 (p + length k) ('': '' @ rest) (s\<lparr>hp_field_start := p\<rparr>, evs)"
    using assms(2) header_classes hm.loop [of xs r 14 b "p + 1" "'': '' @ rest"] by (simp add: k hm.step list_all_iff)
  then show ?thesis using assms(3) header_moves [of r] by (simp add: hm.step schar_eval LEN_sub)
qed

text \<open>The value and the end of the line.\<close>

lemma run_value:
  assumes "list_all (\<lambda>c. value_code (schar c)) v" and "list_all (\<lambda>c. start_code (schar c)) (take 1 v)"
  shows "hrun r b 15 p (v @ CRLF @ rest) (s, evs)
    = hrun r b 13 (p + length v + 2) rest (http_action b H_write_value (p + length v) (s\<lparr>hp_mark := p\<rparr>, evs))"
proof (cases v)
  case Nil
  then show ?thesis using header_moves [of r] version_moves [of r] by (simp add: hm.step schar_eval)
next
  case (Cons c xs)
  then have "hrun r b 15 p (v @ CRLF @ rest) (s, evs) = hrun r b 16 (p + length v) (CRLF @ rest) (s\<lparr>hp_mark := p\<rparr>, evs)"
    using assms header_classes hm.loop [of xs r 16 b "p + 1" "CRLF @ rest"] by (simp add: hm.step list_all_iff)
  then show ?thesis using header_moves [of r] version_moves [of r] by (simp add: hm.step schar_eval)
qed

lemma reads_header:
  assumes "field_ok (k, v)"
  shows "hr.reads r 13 (header_line (k, v)) 13 (rq_setHeader k v)"
  unfolding hr.reads_def
proof (intro allI impI)
  fix pre rest s evs
  assume q: "quiet s" and l: "length (pre @ header_line (k, v) @ rest) < 2 ^ 64"
  let ?b = "pre @ header_line (k, v) @ rest"
  let ?s = "s\<lparr>hp_field_start := length pre, hp_field_len := length k, hp_mark := length pre + length k + 2\<rparr>"
  have f: "k \<noteq> []" "list_all (\<lambda>c. token_code (schar c)) k" "list_all (\<lambda>c. value_code (schar c)) v"
    "list_all (\<lambda>c. start_code (schar c)) (take 1 v)" using assms by (simp_all add: field_ok_def)
  have line: "header_line (k, v) @ rest = k @ '': '' @ v @ CRLF @ rest" by (simp add: header_line_def)
  have len: "length pre + length (header_line (k, v)) = length pre + length k + 2 + length v + 2" by (simp add: header_line_def)
  have small: "length pre + length k < 2 ^ 64" "length pre + length k + 2 + length v < 2 ^ 64" using l by (simp_all add: header_line_def)
  have val: "http_action ?b H_write_value (length pre + length k + 2 + length v) (?s, evs) = (?s, evs @ [Field k v])"
    using LEN_sub [OF _ small(2), of "length pre + length k + 2"] by (simp add: header_line_def)
  have "hrun r ?b 13 (length pre) (header_line (k, v) @ rest) (s, evs)
      = hrun r ?b 13 (length pre + length (header_line (k, v))) rest (?s, evs @ [Field k v])"
    unfolding line len run_name [OF f(1,2) small(1)] run_value [OF f(3,4)] val [symmetric] by simp
  moreover have "effect [Field k v] (rq_setHeader k v)"
    using f(1) by (simp add: effect_def on_request_http_field_def)
  ultimately show "\<exists>s' es. hrun r ?b 13 (length pre) (header_line (k, v) @ rest) (s, evs)
      = hrun r ?b 13 (length pre + length (header_line (k, v))) rest (s', evs @ es) \<and> quiet s' \<and> effect es (rq_setHeader k v)"
    using q by (intro exI [of _ ?s] exI [of _ "[Field k v]"]) (simp add: quiet_def)
qed

lemma reads_headers:
  "\<forall>kv \<in> set hs. field_ok kv \<Longrightarrow> hr.reads r 13 (concat (map header_line hs)) 13 (fold (\<lambda>(k, v). rq_setHeader k v) hs)"
  using reads_header by (intro hr.reads_concat) fastforce

section \<open>Requests\<close>

definition request_ok :: "HttpRequest \<Rightarrow> bool" where
  "request_ok rq \<longleftrightarrow> rq_method rq \<notin> {INVALID_METHOD, MSEARCH} \<and> rq_version rq \<in> {0x10, 0x11} \<and> path_ok (rq_path rq)
     \<and> escaped query_code (rq_query rq) \<and> escaped query_code (rq_fragment rq) \<and> (\<forall>kv \<in> set (rq_headers rq). field_ok kv)"

text \<open>What reading a request line does, and what reading a whole head does.\<close>

definition line_of :: "HttpRequest \<Rightarrow> HttpRequest \<Rightarrow> HttpRequest" where
  "line_of rq q =
     q\<lparr>rq_method := rq_method rq, rq_path := rq_path rq,
       rq_query := (if rq_query rq = [] then rq_query q else rq_query rq),
       rq_fragment := (if rq_fragment rq = [] then rq_fragment q else rq_fragment rq), rq_version := rq_version rq\<rparr>"

definition sent_headers :: "HttpRequest \<Rightarrow> MapType" where
  "sent_headers rq = connection_header (rq_close rq) # kept (rq_headers rq) @ length_header (rq_body rq)"

definition head_of :: "HttpRequest \<Rightarrow> HttpRequest \<Rightarrow> HttpRequest" where
  "head_of rq = fold (\<lambda>(k, v). rq_setHeader k v) (sent_headers rq) \<circ> line_of rq"

lemma reads_request_line:
  assumes "request_ok rq"
  shows "hr.reads r 1 (request_line rq) 13 (line_of rq)"
proof -
  let ?q = "rq_query rq" and ?f = "rq_fragment rq"
  have ok: "rq_method rq \<noteq> INVALID_METHOD" "rq_method rq \<noteq> MSEARCH" "rq_version rq \<in> {0x10, 0x11}" "path_ok (rq_path rq)"
    "escaped query_code ?q" "escaped query_code ?f" using assms by (auto simp: request_ok_def)
  note m = reads_method [OF ok(1,2), of r] and v = reads_version [OF ok(3), of r] and p = reads_path [OF ok(4), where r = r]
    and q = reads_query [OF ok(5), where r = r] and f = reads_fragment [OF ok(6), of r]
  note j = hr.reads_append
  show ?thesis
  proof (cases "?q = []"; cases "?f = []")
    assume "?q = []" "?f = []"
    then show ?thesis using j [OF j [OF m p [of "CHR 0x20" 4]] v] by (simp add: request_line_def line_of_def [abs_def] comp_def)
  next
    assume "?q = []" "?f \<noteq> []"
    then show ?thesis using j [OF j [OF j [OF m p [of "CHR 0x23" 20]] f] v] by (simp add: request_line_def line_of_def [abs_def] comp_def)
  next
    assume "?q \<noteq> []" "?f = []"
    then show ?thesis using j [OF j [OF j [OF m p [of "CHR 0x3F" 29]] q [of "CHR 0x20" 4]] v]
      by (simp add: request_line_def line_of_def [abs_def] comp_def)
  next
    assume "?q \<noteq> []" "?f \<noteq> []"
    then show ?thesis using j [OF j [OF j [OF j [OF m p [of "CHR 0x3F" 29]] q [of "CHR 0x23" 20]] f] v]
      by (simp add: request_line_def line_of_def [abs_def] comp_def)
  qed
qed

lemma codes_token: "list_all (\<lambda>c. token_code (schar c)) ''connection''" "list_all (\<lambda>c. token_code (schar c)) ''content-length''"
  by code_simp+

lemma codes_value:
  "list_all (\<lambda>c. value_code (schar c)) ''close'' \<and> list_all (\<lambda>c. start_code (schar c)) (take 1 ''close'')"
  "list_all (\<lambda>c. value_code (schar c)) ''keep-alive'' \<and> list_all (\<lambda>c. start_code (schar c)) (take 1 ''keep-alive'')"
  by code_simp+

lemma digit_start: "48 \<le> schar c \<Longrightarrow> schar c \<le> 57 \<Longrightarrow> start_code (schar c)"
  by (simp add: start_code_def value_code_def)

lemma field_ok_show: "field_ok (''content-length'', show_nat n)"
proof -
  have "start_code (schar c)" if "c \<in> set (show_nat n)" for c
    using show_nat_codes [OF that] of_nat_of_char [of c, where ?'a = int] by (intro digit_start) (auto simp: schar_def Let_def)
  then show ?thesis using codes_token(2) by (auto simp: field_ok_def list_all_iff start_code_def dest: in_set_takeD)
qed

lemma sent_headers_ok: "request_ok rq \<Longrightarrow> \<forall>kv \<in> set (sent_headers rq). field_ok kv"
  using codes_token(1) codes_value field_ok_show [of "length (rq_body rq)"] set_kept
  by (auto simp: sent_headers_def request_ok_def connection_header_def length_header_def field_ok_def split: if_splits)

lemma rq_dump_eq: "rq_dump rq = (request_line rq @ concat (map header_line (sent_headers rq))) @ CRLF @ rq_body rq"
  by (simp add: rq_dump_def sent_headers_def dump_headers_eq dump_body_eq connection_line_eq)

text \<open>The end of the head stops the machine.\<close>

lemma run_end:
  assumes "quiet s"
  shows "hrun r b 13 p (CRLF @ rest) (s, evs) = (348, p + 2,
    s\<lparr>hp_field_start := p, hp_body_start := p + 2\<rparr>, evs @ [Element header_done (drop (p + 2) b) (length b - p - 2)])"
  using assms header_moves [of r] by (simp add: machine_run.simps(2) schar_eval quiet_def Let_def)

text \<open>One call on a buffer that holds a whole head.\<close>

lemma execute_request:
  assumes "request_ok rq" and "length (head @ CRLF @ rest) < 2 ^ 64"
    and head: "head = request_line rq @ concat (map header_line (sent_headers rq))"
  shows "\<exists>parser es. http_parser_run r (http_parser_init p0) (head @ CRLF @ rest) = (parser, length head + 2, es)
    \<and> http_parser_finish parser = 1 \<and> \<not> http_parser_has_error parser \<and> effect es (head_of rq)"
proof -
  let ?b = "head @ CRLF @ rest"
  let ?s = "http_parser_init p0"
  have s: "?s\<lparr>hp_nread := 0, hp_mark := 0, hp_field_len := 0, hp_field_start := 0\<rparr> = ?s" "quiet ?s" "hp_cs ?s = 1"
    by (simp_all add: http_parser_init_def http_parser_start_def quiet_def)
  have "hr.reads r 1 head 13 (head_of rq)"
    unfolding head head_of_def by (rule hr.reads_append [OF reads_request_line [OF assms(1)] reads_headers [OF sent_headers_ok [OF assms(1)]]])
  then obtain s' es where 1: "hrun r ?b 1 0 ?b (?s, []) = hrun r ?b 13 (length head) (CRLF @ rest) (s', es)" "quiet s'" "effect es (head_of rq)"
    using hr.readsD [OF _ s(2), of r 1 head 13 "head_of rq" "[]" "CRLF @ rest" "[]"] assms(2) by auto
  let ?e = "Element header_done (drop (length head + 2) ?b) (length ?b - length head - 2)"
  have 2: "effect (es @ [?e]) (head_of rq)" using effect_append [OF 1(3), of "[?e]" id] by (simp add: effect_def)
  have "http_parser_run r ?s ?b = (s'\<lparr>hp_field_start := length head, hp_body_start := length head + 2, hp_cs := 348,
      hp_nread := hp_nread s' + (length head + 2)\<rparr>, length head + 2, es @ [?e])"
    using 1(1,2) s run_end [OF 1(2), of r ?b "length head" rest es]
    by (simp add: http_parser_run_def Let_def http_parser_has_error_def http_parser_error_def quiet_def)
  with 2 show ?thesis
    by (simp add: http_parser_finish_def http_parser_has_error_def http_parser_error_def http_parser_is_finished_def
        http_parser_first_final_def)
qed

lemma rp_execute_request:
  assumes "request_ok rq" and "length (head @ CRLF @ rest) < 2 ^ 64"
    and "head = request_line rq @ concat (map header_line (sent_headers rq))"
  shows "\<exists>p. rp_execute (http11_machine r p0) (head @ CRLF @ rest) (HttpRequestParser_new (http11_machine r p0)) = Inr (p, rest)
    \<and> rp_data p = head_of rq (HttpRequest_new 0x11 True) \<and> rp_isFinished (http11_machine r p0) p = 1
    \<and> \<not> rp_hasError (http11_machine r p0) p"
proof -
  obtain parser es where e: "http_parser_run r (http_parser_init p0) (head @ CRLF @ rest) = (parser, length head + 2, es)"
    "http_parser_finish parser = 1" "\<not> http_parser_has_error parser" "effect es (head_of rq)"
    using execute_request [OF assms] by blast
  have "consume (int (length head + 2)) (head @ CRLF @ rest) = Inr rest"
    by (simp add: consume_def nat_add_distrib)
  moreover have "hp_body_start (http_parser_init p0) = 0" by (simp add: http_parser_init_def)
  ultimately show ?thesis using e execute_run [OF _ e(1)]
    by (simp add: rp_execute_def http11_machine_def HttpRequestParser_new_def effect_def rp_isFinished_def rp_hasError_def)
qed

text \<open>What the headers answer behind the reading.\<close>

lemma fold_setHeader: "fold (\<lambda>(k, v). rq_setHeader k v) hs rq = rq\<lparr>rq_headers := rq_headers (fold hdr_exec (map (\<lambda>(k, v). SetHeader k v) hs) rq)\<rparr>"
  by (induction hs arbitrary: rq) (auto simp: rq_setHeader_def)

lemma head_of_fields:
  "head_of rq (HttpRequest_new 0x11 True) = (line_of rq (HttpRequest_new 0x11 True))\<lparr>rq_headers :=
     rq_headers (fold hdr_exec (map (\<lambda>(k, v). SetHeader k v) (sent_headers rq)) (line_of rq (HttpRequest_new 0x11 True)))\<rparr>"
  by (simp add: head_of_def fold_setHeader)

lemma hdr_spec_map: "fold hdr_spec (map (\<lambda>(k, v). SetHeader k v) hs) f
    = f ++ map_of (rev (map (\<lambda>(k, v). (ci_key k, v)) hs))"
  by (induction hs arbitrary: f) (auto simp: map_add_assoc fun_eq_iff map_add_def split: option.splits)

lemma head_of_find:
  "smap_find CaseInsensitiveLess k (rq_headers (head_of rq (HttpRequest_new 0x11 True)))
     = map_of (rev (map (\<lambda>(k, v). (ci_key k, v)) (sent_headers rq))) (ci_key k)"
proof -
  have "hdr_inv (rq_headers (line_of rq (HttpRequest_new 0x11 True)))"
    "\<forall>k. smap_find CaseInsensitiveLess k (rq_headers (line_of rq (HttpRequest_new 0x11 True))) = Map.empty (ci_key k)"
    by (simp_all add: HttpRequest_new_def hdr_inv_def line_of_def)
  from hdr_run_refines [OF this, of "map (\<lambda>(k, v). SetHeader k v) (sent_headers rq)"]
  show ?thesis by (simp add: head_of_fields hdr_spec_map)
qed

definition by_key :: "MapType \<Rightarrow> (nat list \<times> string) list" where
  "by_key hs = map (\<lambda>(k, v). (ci_key k, v)) hs"

lemma find_by_key: "hdr_inv hs \<Longrightarrow> smap_find CaseInsensitiveLess k hs = map_of (by_key hs) (ci_key k)"
proof (induction hs)
  case (Cons x hs)
  obtain a b where x: "x = (a, b)" by (cases x)
  have inv: "hdr_inv hs" "\<forall>y \<in> set hs. CaseInsensitiveLess a (fst y)" using Cons.prems x by (auto simp: hdr_inv_def)
  consider "CaseInsensitiveLess a k" | "CaseInsensitiveLess k a" | "ci.equiv a k" by (auto simp: ci.equiv_def)
  then show ?case
  proof cases
    case 1
    then have "ci_key a \<noteq> ci_key k" using ci_equiv [of a k] by (auto simp: ci.equiv_def)
    with 1 Cons.IH [OF inv(1)] x show ?thesis by (simp add: by_key_def)
  next
    case 2
    then have below: "\<forall>y \<in> set hs. CaseInsensitiveLess k (fst y)" using inv(2) ci.lt_trans by blast
    have "ci_key k \<noteq> ci_key y" if "CaseInsensitiveLess k y" for y using that ci_equiv [of k y] by (auto simp: ci.equiv_def)
    with 2 below have "ci_key k \<notin> fst ` set (by_key (x # hs))" using x by (force simp: by_key_def)
    then have "map_of (by_key (x # hs)) (ci_key k) = None" by (simp only: map_of_eq_None_iff simp_thms)
    with 2 x show ?thesis by (simp add: ci.lt_asym)
  next
    case 3
    then have "ci_key a = ci_key k" by (simp only: ci_equiv)
    with 3 x show ?thesis by (simp add: by_key_def ci.equiv_def)
  qed
qed (simp add: by_key_def)

lemma map_of_rev_distinct: "distinct (map fst xs) \<Longrightarrow> map_of (rev xs) = map_of xs"
  by (rule map_of_eqI) (auto simp: rev_map [symmetric])

lemma find_kept: "ci_key k \<noteq> ci_key ''connection'' \<Longrightarrow> map_of (by_key (kept hs)) (ci_key k) = map_of (by_key hs) (ci_key k)"
proof (induction hs)
  case (Cons x hs)
  have "strcasecmp (c_str (fst x)) ''connection'' = 0 \<Longrightarrow> ci_key (fst x) = ci_key ''connection''"
    using strcasecmp_zero [OF c_str_no_nul [of "fst x"] c_str_no_nul [of "''connection''"]] by (simp add: ci_key_def c_str_def)
  with Cons show ?case by (cases x) (auto simp: kept_def by_key_def)
qed (simp add: kept_def by_key_def)

lemma keys_apart: "ci_key ''content-length'' \<noteq> ci_key ''connection''"
  by code_simp

lemma head_of_lookup:
  assumes "hdr_inv (rq_headers rq)"
  shows "smap_find CaseInsensitiveLess k (rq_headers (head_of rq (HttpRequest_new 0x11 True))) =
    (if rq_body rq \<noteq> [] \<and> ci_key k = ci_key ''content-length'' then Some (show_nat (length (rq_body rq)))
     else if ci_key k = ci_key ''connection'' then Some (if rq_close rq then ''close'' else ''keep-alive'')
     else smap_find CaseInsensitiveLess k (rq_headers rq))"
proof -
  let ?K = "by_key (kept (rq_headers rq))"
  have "distinct (map (ci_key \<circ> fst) (kept (rq_headers rq)))"
    unfolding kept_def by (rule distinct_map_filter [OF hdr_inv_distinct [OF assms]])
  then have "distinct (map fst ?K)" by (simp add: by_key_def comp_def case_prod_beta)
  note rev = map_of_rev_distinct [OF this]
  have same: "strcasecmp (c_str (fst x)) ''connection'' = 0" if "ci_key (fst x) = ci_key ''connection''" for x :: "string \<times> string"
    using that strcasecmp_zero [OF c_str_no_nul [of "fst x"] c_str_no_nul [of "''connection''"]] by (simp add: ci_key_def c_str_def)
  have "ci_key ''connection'' \<notin> fst ` set ?K"
    unfolding kept_def by_key_def using same by fastforce
  then have none: "map_of ?K (ci_key ''connection'') = None" by (simp only: map_of_eq_None_iff not_False_eq_True)
  have find: "smap_find CaseInsensitiveLess k (rq_headers (head_of rq (HttpRequest_new 0x11 True)))
      = map_of (by_key (rev (length_header (rq_body rq))) @ rev ?K @ by_key [connection_header (rq_close rq)]) (ci_key k)"
    by (simp add: head_of_find sent_headers_def by_key_def rev_map)
  have len: "by_key (rev (length_header (rq_body rq)))
      = (if rq_body rq \<noteq> [] then [(ci_key ''content-length'', show_nat (length (rq_body rq)))] else [])"
    and con: "by_key [connection_header (rq_close rq)] = [(ci_key ''connection'', if rq_close rq then ''close'' else ''keep-alive'')]"
    by (simp_all add: by_key_def length_header_def connection_header_def)
  show ?thesis
  proof (cases "ci_key k = ci_key ''connection''")
    case True
    then show ?thesis using none keys_apart by (simp add: find rev len con map_add_def)
  next
    case False
    then show ?thesis using find_kept [OF False, of "rq_headers rq"] find_by_key [OF assms, of k]
      by (auto simp: find rev len con map_add_def split: option.splits)
  qed
qed

text \<open>
  The whole way: the head in the first packet, the body in any pieces behind it. Two requests are the
  same when their parts are, and when they answer alike for every header.
\<close>

definition arrived :: "HttpRequest \<Rightarrow> HttpRequest \<Rightarrow> bool" where
  "arrived rq rq' \<longleftrightarrow> rq_method rq' = rq_method rq \<and> rq_path rq' = rq_path rq \<and> rq_query rq' = rq_query rq
     \<and> rq_fragment rq' = rq_fragment rq \<and> rq_version rq' = rq_version rq \<and> rq_body rq' = rq_body rq
     \<and> (\<forall>k def. rq_getHeader k def rq' =
          (if rq_body rq \<noteq> [] \<and> ci_key k = ci_key ''content-length'' then show_nat (length (rq_body rq))
           else if ci_key k = ci_key ''connection'' then (if rq_close rq then ''close'' else ''keep-alive'')
           else rq_getHeader k def rq))"

lemma head_of_arrives:
  assumes "hdr_inv (rq_headers rq)"
  shows "arrived rq ((head_of rq (HttpRequest_new 0x11 True))\<lparr>rq_body := rq_body rq\<rparr>)"
proof -
  have "rq_method (head_of rq (HttpRequest_new 0x11 True)) = rq_method rq" "rq_path (head_of rq (HttpRequest_new 0x11 True)) = rq_path rq"
    "rq_query (head_of rq (HttpRequest_new 0x11 True)) = rq_query rq" "rq_version (head_of rq (HttpRequest_new 0x11 True)) = rq_version rq"
    "rq_fragment (head_of rq (HttpRequest_new 0x11 True)) = rq_fragment rq"
    by (simp_all add: head_of_fields) (simp_all add: line_of_def HttpRequest_new_def)
  moreover have "rq_getHeader k def (q\<lparr>rq_body := b\<rparr>) = rq_getHeader k def q" for k def q b by (simp add: rq_getHeader_def)
  ultimately show ?thesis using head_of_lookup [OF assms] by (simp add: arrived_def rq_getHeader_def)
qed

lemma length_body_returns:
  assumes "sint cl = int n" and "0 < n" and "n < 2 ^ 31" and "n \<le> mx"
  shows "\<exists>r ss'. length_body mx cl d ss = Inr (r, ss') \<and> (r = None \<longrightarrow> length d < n)"
proof (cases "length d < n")
  case True
  then obtain rt bs ss1 where "readFixSize (n - length d) ss = Inr (rt, bs, ss1)"
    using readFixSize_reads_next_bytes [of "n - length d" ss] less_imp_diff_less [OF assms(3)] by auto
  moreover have "nat (int n - int (length d)) = n - length d" by simp
  ultimately show ?thesis using True assms(1,4) by (cases "rt \<le> 0") (simp_all add: length_body_def Let_def)
next
  case False
  with assms(1,4) show ?thesis by (cases "n = length d") (simp_all add: length_body_def Let_def)
qed



end
