(* ===== verification/Http11_Cut.thy ===== *)
theory Http11_Cut
  imports Http11_Props
begin

text \<open>
  What the boundaries of packets do to the machine for requests. \<open>http_parser_execute\<close> forgets its
  marks at every call and the receive loop moves on past what it consumed, so an element that
  spans two packets is reported with its second part only.
\<close>

section \<open>The end of a packet\<close>

text \<open>A value that the packet cuts: the machine waits in the value, everything is consumed.\<close>

lemma run_cut_value:
  assumes "v \<noteq> []" and "list_all (\<lambda>c. value_code (schar c)) v" and "list_all (\<lambda>c. start_code (schar c)) (take 1 v)"
  shows "hrun r b 15 p v (s, evs) = (16, p + length v, s\<lparr>hp_mark := p\<rparr>, evs)"
proof -
  obtain c xs where v: "v = c # xs" using assms(1) by (cases v) auto
  have "hrun r b 15 p (c # xs @ []) (s, evs) = hrun r b 16 (p + 1 + length xs) [] (s\<lparr>hp_mark := p\<rparr>, evs)"
    using assms v header_classes hm.loop [of xs r 16 b "p + 1" "[]"] by (simp add: hm.step list_all_iff)
  then show ?thesis by (simp add: v)
qed

lemma execute_cut:
  assumes "request_ok rq" and "field_ok (k, v)" and "v \<noteq> []" and "\<forall>kv \<in> set hs. field_ok kv"
    and head: "head = request_line rq @ concat (map header_line hs)"
    and "length (head @ k @ '': '' @ v) < 2 ^ 64"
  shows "\<exists>parser es. http_parser_run r (http_parser_init p0) (head @ k @ '': '' @ v) = (parser, length (head @ k @ '': '' @ v), es)
    \<and> hp_cs parser = 16 \<and> \<not> hp_xml_sent parser \<and> \<not> hp_json_sent parser \<and> hp_body_start parser = 0
    \<and> effect es (fold (\<lambda>(k, v). rq_setHeader k v) hs \<circ> line_of rq)"
proof -
  let ?b = "head @ k @ '': '' @ v"
  let ?s = "http_parser_init p0"
  have s: "?s\<lparr>hp_nread := 0, hp_mark := 0, hp_field_len := 0, hp_field_start := 0\<rparr> = ?s" "quiet ?s" "hp_cs ?s = 1"
    by (simp_all add: http_parser_init_def http_parser_start_def quiet_def)
  have f: "k \<noteq> []" "list_all (\<lambda>c. token_code (schar c)) k" "list_all (\<lambda>c. value_code (schar c)) v"
    "list_all (\<lambda>c. start_code (schar c)) (take 1 v)" using assms(2) by (simp_all add: field_ok_def)
  have "hr.reads r 1 head 13 (fold (\<lambda>(k, v). rq_setHeader k v) hs \<circ> line_of rq)"
    unfolding head by (rule hr.reads_append [OF reads_request_line [OF assms(1)] reads_headers [OF assms(4)]])
  then obtain s' es where 1: "hrun r ?b 1 0 ?b (?s, []) = hrun r ?b 13 (length head) (k @ '': '' @ v) (s', es)" "quiet s'"
    "effect es (fold (\<lambda>(k, v). rq_setHeader k v) hs \<circ> line_of rq)"
    using hr.readsD [OF _ s(2), of r 1 head 13 _ "[]" "k @ '': '' @ v" "[]"] assms(6) by auto
  have small: "length head + length k < 2 ^ 64" using assms(6) by simp
  have "hrun r ?b 1 0 ?b (?s, []) = (16, length ?b,
      s'\<lparr>hp_field_start := length head, hp_field_len := length k, hp_mark := length head + length k + 2\<rparr>, es)"
    unfolding 1(1) run_name [OF f(1,2) small] run_cut_value [OF assms(3) f(3,4)] by simp
  with 1(2,3) s assms(3) show ?thesis
    by (simp add: http_parser_run_def Let_def http_parser_has_error_def http_parser_error_def quiet_def)
qed

section \<open>The next packet\<close>

lemma execute_resumed:
  assumes "hp_cs parser = 16" "\<not> hp_xml_sent parser" "\<not> hp_json_sent parser" "hp_body_start parser = 0"
    and "list_all (\<lambda>c. value_code (schar c)) v" and "length (v @ CRLF @ CRLF @ rest) < 2 ^ 64"
  shows "\<exists>parser1 es. http_parser_run r parser (v @ CRLF @ CRLF @ rest) = (parser1, length v + 4, Field [] v # es)
    \<and> http_parser_finish parser1 = 1 \<and> \<not> http_parser_has_error parser1 \<and> effect (Field [] v # es) id"
proof -
  let ?b = "v @ CRLF @ CRLF @ rest"
  let ?s = "parser\<lparr>hp_nread := 0, hp_mark := 0, hp_field_len := 0, hp_field_start := 0\<rparr>"
  let ?e = "Element header_done (drop (length v + 4) ?b) (length ?b - (length v + 2) - 2)"
  have q: "quiet ?s" using assms(1-4) by (simp add: quiet_def)
  have "hrun r ?b 16 0 ?b (?s, []) = hrun r ?b 16 (length v) (CRLF @ CRLF @ rest) (?s, [])"
    using hm.loop [of v r 16 ?b 0 "CRLF @ CRLF @ rest"] header_classes(4) assms(5) by (simp add: list_all_iff)
  also have "\<dots> = hrun r ?b 13 (length v + 2) (CRLF @ rest) (?s, [Field [] v])"
    using header_moves [of r] version_moves [of r] assms(6) by (simp add: hm.step schar_eval LEN_sub)
  also have "\<dots> = (348, length v + 4, ?s\<lparr>hp_field_start := length v + 2, hp_body_start := length v + 4\<rparr>, [Field [] v, ?e])"
    unfolding run_end [OF q] by simp
  finally have "http_parser_run r parser ?b = (?s\<lparr>hp_field_start := length v + 2, hp_body_start := length v + 4, hp_cs := 348,
      hp_nread := length v + 4\<rparr>, length v + 4, [Field [] v, ?e])"
    using assms(1) by (simp add: http_parser_run_def Let_def http_parser_has_error_def http_parser_error_def)
  moreover have "effect [Field [] v, ?e] id" by (simp add: effect_def on_request_http_field_def)
  ultimately show ?thesis
    by (simp add: http_parser_finish_def http_parser_has_error_def http_parser_error_def http_parser_is_finished_def
        http_parser_first_final_def)
qed

text \<open>
  C15. A header across packets is lost: when a packet ends within the value of the last header of a
  request, the parser takes the whole packet, and behind the next packet, which holds the rest of
  the value and the end of the head, it is finished without an error with a request that has the
  line and the headers before, and nothing of the one that was cut.\<close>

theorem header_across_packets_is_lost:
  assumes "request_ok rq" and "\<forall>kv \<in> set hs. field_ok kv" and "field_ok (k, v)" and "v \<noteq> []"
    and "list_all (\<lambda>c. value_code (schar c)) v'"
    and "length (request_line rq @ concat (map header_line hs) @ k @ '': '' @ v) < 2 ^ 64"
    and "length (v' @ CRLF @ CRLF @ rest) < 2 ^ 64"
  shows "\<exists>p1 p2. rp_execute (http11_machine r p0) (request_line rq @ concat (map header_line hs) @ k @ '': '' @ v)
        (HttpRequestParser_new (http11_machine r p0)) = Inr (p1, [])
    \<and> rp_isFinished (http11_machine r p0) p1 = 0 \<and> \<not> rp_hasError (http11_machine r p0) p1
    \<and> rp_execute (http11_machine r p0) (v' @ CRLF @ CRLF @ rest) p1 = Inr (p2, rest)
    \<and> rp_isFinished (http11_machine r p0) p2 = 1 \<and> \<not> rp_hasError (http11_machine r p0) p2
    \<and> rp_data p2 = fold (\<lambda>(k, v). rq_setHeader k v) hs (line_of rq (HttpRequest_new 0x11 True))"
proof -
  let ?M = "http11_machine r p0"
  define head where "head = request_line rq @ concat (map header_line hs)"
  let ?b = "head @ k @ '': '' @ v"
  have b: "request_line rq @ concat (map header_line hs) @ k @ '': '' @ v = ?b" by (simp add: head_def)
  obtain parser es where 1: "http_parser_run r (http_parser_init p0) ?b = (parser, length ?b, es)" "hp_cs parser = 16"
    "\<not> hp_xml_sent parser" "\<not> hp_json_sent parser" "hp_body_start parser = 0"
    "effect es (fold (\<lambda>(k, v). rq_setHeader k v) hs \<circ> line_of rq)"
    using execute_cut [OF assms(1,3,4,2) head_def, of r p0] assms(6) b by auto
  obtain parser1 es1 where 2: "http_parser_run r parser (v' @ CRLF @ CRLF @ rest) = (parser1, length v' + 4, Field [] v' # es1)"
    "http_parser_finish parser1 = 1" "\<not> http_parser_has_error parser1" "effect (Field [] v' # es1) id"
    using execute_resumed [OF 1(2-5) assms(5,7)] by blast
  define p1 where "p1 = \<lparr>rp_parser = parser,
    rp_data = fold (\<lambda>(k, v). rq_setHeader k v) hs (line_of rq (HttpRequest_new 0x11 True)), rp_error = 0\<rparr>"
  have "rp_execute ?M ?b (HttpRequestParser_new ?M) = Inr (p1, [])"
    using 1(6) execute_run [OF _ 1(1)]
    by (simp add: rp_execute_def http11_machine_def HttpRequestParser_new_def effect_def consume_def p1_def http_parser_init_def)
  moreover have "rp_isFinished ?M p1 = 0" "\<not> rp_hasError ?M p1"
    using 1(2) by (simp_all add: p1_def rp_isFinished_def rp_hasError_def http11_machine_def http_parser_finish_def
        http_parser_has_error_def http_parser_error_def http_parser_is_finished_def http_parser_first_final_def)
  moreover have "consume (int (length v' + 4)) (v' @ CRLF @ CRLF @ rest) = Inr rest"
    by (simp add: consume_def nat_add_distrib)
  then have "rp_execute ?M (v' @ CRLF @ CRLF @ rest) p1 = Inr (p1\<lparr>rp_parser := parser1\<rparr>, rest)"
    using 2(4) execute_run [OF _ 2(1)] 1(5)
    by (simp add: rp_execute_def http11_machine_def p1_def effect_def)
  moreover have "rp_isFinished ?M (p1\<lparr>rp_parser := parser1\<rparr>) = 1" "\<not> rp_hasError ?M (p1\<lparr>rp_parser := parser1\<rparr>)"
    using 2(2,3) by (simp_all add: p1_def rp_isFinished_def rp_hasError_def http11_machine_def)
  ultimately show ?thesis unfolding b
    by (intro exI [of _ p1] exI [of _ "p1\<lparr>rp_parser := parser1\<rparr>"]) (simp add: p1_def)
qed

lemma header_across_packets_is_lost_witness:
  "\<exists>p1 p2 rq. rp_execute (http11_machine False http_parser_zero) (request_line rq @ ''Host: a'') (HttpRequestParser_new (http11_machine False http_parser_zero))
        = Inr (p1, [])
    \<and> rp_execute (http11_machine False http_parser_zero) (''b'' @ CRLF @ CRLF @ ''xyz'') p1 = Inr (p2, ''xyz'')
    \<and> rp_isFinished (http11_machine False http_parser_zero) p2 = 1
    \<and> rp_data p2 = line_of rq (HttpRequest_new 0x11 True)"
proof -
  let ?rq = "(HttpRequest_new 0x11 False)\<lparr>rq_path := ''/x''\<rparr>"
  have ok: "request_ok ?rq"
  proof -
    have "path_code (schar (CHR ''x''))" by code_simp
    then show ?thesis by (simp add: request_ok_def path_ok_def HttpRequest_new_def escaped.intros)
  qed
  have field: "field_ok (''Host'', ''a'')" by code_simp
  have value_b: "list_all (\<lambda>c. value_code (schar c)) ''b''" by code_simp
  have "length (request_line ?rq @ concat (map header_line []) @ ''Host'' @ '': '' @ ''a'') = 24" by code_simp
  then have len: "length (request_line ?rq @ concat (map header_line []) @ ''Host'' @ '': '' @ ''a'') < 2 ^ 64" by simp
  have "length (''b'' @ CRLF @ CRLF @ ''xyz'') = 8" by code_simp
  then have len': "length (''b'' @ CRLF @ CRLF @ ''xyz'') < 2 ^ 64" by simp
  note lost = header_across_packets_is_lost [OF ok _ field _ value_b len len', of False http_parser_zero]
  have line: "request_line ?rq @ concat (map header_line []) @ ''Host'' @ '': '' @ ''a'' = request_line ?rq @ ''Host: a''" by simp
  obtain p1 p2 where "rp_execute (http11_machine False http_parser_zero) (request_line ?rq @ ''Host: a'') (HttpRequestParser_new (http11_machine False http_parser_zero))
        = Inr (p1, [])"
    "rp_execute (http11_machine False http_parser_zero) (''b'' @ CRLF @ CRLF @ ''xyz'') p1 = Inr (p2, ''xyz'')"
    "rp_isFinished (http11_machine False http_parser_zero) p2 = 1"
    "rp_data p2 = fold (\<lambda>(k, v). rq_setHeader k v) [] (line_of ?rq (HttpRequest_new 0x11 True))"
    using lost [unfolded line] by (force simp only: list.set ball_empty list.distinct not_False_eq_True)
  moreover from this(4) have "rp_data p2 = line_of ?rq (HttpRequest_new 0x11 True)" by (simp only: fold_simps)
  ultimately show ?thesis by (intro exI conjI)
qed

end
