(* ===== verification/Spec2Isabelle.thy ===== *)
theory Spec2Isabelle
  imports ByteArray_Props Hook_Props HttpServlet HttpClient_Props Address_Props Config_Props Logger_Props Application_Props Module_Props Database_Props Timeouts_Props Locks Http11_Cut Http11_Asserts
begin

text \<open>
  NetNinja is a C++ server framework: coroutines that are scheduled on worker threads, an I/O
  manager that parks a coroutine until its descriptor is ready, replacements of the blocking system
  calls that use it, and on top of them sockets, streams, a TCP and an HTTP server, an HTTP client,
  configuration, logging and the start of a process. The development models the files under src/src;
  file names below are relative to it.

  How the parts interact. A \<^verbatim>\<open>Fiber\<close> runs on a worker of a \<^verbatim>\<open>Scheduler\<close>. An \<^verbatim>\<open>IOManager\<close> is a scheduler
  and a \<^verbatim>\<open>TimerManager\<close>; its idle fiber waits in epoll and turns ready events and due timers into
  tasks. A hooked call (\<^verbatim>\<open>hook.cpp\<close>) looks the descriptor up in \<^verbatim>\<open>FdManager\<close>, and where the original
  call would block it registers an event and a timeout and yields. \<^verbatim>\<open>Socket\<close> uses the hooked calls,
  \<^verbatim>\<open>SocketStream\<close> reads and writes a socket, \<^verbatim>\<open>HttpSession\<close> and \<^verbatim>\<open>HttpConnection\<close> read messages from a stream
  with the parsers around the machines that Ragel generated, \<^verbatim>\<open>TcpServer\<close> accepts, \<^verbatim>\<open>HttpServer\<close> answers
  through its servlets, and \<^verbatim>\<open>Application\<close> starts all that the configuration names.

  Conventions (theory Prelude). A fallible operation returns a sum, \<open>Inl\<close> with the fault a C++
  operation ends in (an exception, a failed assertion, an access out of bounds) or \<open>Inr\<close> with the
  value; \<open>bindR\<close> sequences them. Integers that may wrap are words of the width of their type, \<open>size_t\<close> a
  \<open>u64\<close> or a natural number with the wrap written out. Objects that are shared are addresses into a
  heap, a function or a list in the state; the rest are records of values. What a library, the
  kernel or another thread decides is an argument: a script of results for the calls in their order,
  or a step of the environment.

  Theories and the code they model.

  \<^item> Endian: \<^verbatim>\<open>endian.h\<close>, byte swaps and the memory image of an integer on hosts of both orders.
  \<^item> ByteArray, ByteArray_Codec, ByteArray_IO: \<^verbatim>\<open>bytearray.cpp\<close>, the chain of blocks with its position,
    the typed codecs, the scatter lists and files. ByteArray_Refine states the contract, a flat
    memory, and shows that every operation implements it; ByteArray_RoundTrip has the encodings
    of variable length against a reference, decoded over any byte source (a locale, interpreted
    on \<open>ba_read\<close>); ByteArray_Props collects the properties.
  \<^item> Timer: \<^verbatim>\<open>timer.cpp\<close>, the set ordered by \<open>Comparator\<close> over heap objects; \<open>listExpiredCb\<close> is split where
    its lock is dropped. Timer_Expiry: what fires, and the invariant over all operations.
  \<^item> Fiber: \<^verbatim>\<open>fiber.cpp\<close>, thread-local current fibers, saved contexts and reference counts.
    Fiber_Exclusive: under the switching discipline of the workers a fiber runs on one thread.
  \<^item> Scheduler: \<^verbatim>\<open>scheduler.cpp\<close>, with \<open>run\<close> as steps between its points of interference. Scheduler_Run: any
    interleaving of the workers' steps, the exactness of the two counters, when a worker leaves.
  \<^item> IOManager: \<^verbatim>\<open>iomanager.cpp\<close>, with epoll as the table of watched masks. IOManager_Inv: the invariant
    that ties contexts, masks and the pending count, kept by every operation and the idle loop.
  \<^item> FdManager, Hook, HookWrappers: \<^verbatim>\<open>fd_manager.cpp\<close> and \<^verbatim>\<open>hook.cpp\<close>. Hook_Props: one wake-up per
    suspension, the results of a hooked call; Timeouts_Props: from a socket's options to its calls.
  \<^item> Stream: \<^verbatim>\<open>stream.cpp\<close>, \<^verbatim>\<open>socket_stream.cpp\<close> and the transfers of \<^verbatim>\<open>socket.cpp\<close>. Stream_Props: the loops of
    fixed size once in a locale, interpreted four times.
  \<^item> Strings, CNumbers, StdContainers: the C and C++ library operations the sources use, the ordered
    containers as sorted lists over a locale of comparators.
  \<^item> Http: \<^verbatim>\<open>http/http.cpp\<close>, messages, header maps and their text. HttpParser: \<^verbatim>\<open>http/http_parser.cpp\<close> over any
    machine. HttpSession: \<^verbatim>\<open>http/http_session.cpp\<close> and the receiving half of \<^verbatim>\<open>http/http_connection.cpp\<close>.
    HttpSession_Props: what every received message takes from the stream, over a locale of
    incremental parsers; HttpSession_Quiet: what receiving leaves alone.
  \<^item> Ragel, HttpTable, Http11: \<^verbatim>\<open>http/http11_parser.cc\<close>, the machine for requests. The generated switch is
    a table of blocks in the order of the file, run by one interpreter. HttpMoves looks the blocks
    up that a request passes through; Http11_Props shows that the machine reads what
    \<open>HttpRequest::dump\<close> writes, which makes a request sent through a connection arrive; Http11_Cut
    and Http11_Asserts: what the boundaries of packets do.
  \<^item> HttpClient: the rest of \<^verbatim>\<open>http/http_connection.cpp\<close> (requests, errors, pool) and \<^verbatim>\<open>http/uri.h\<close>;
    HttpServlet: \<^verbatim>\<open>http/http_servlet.cpp\<close> and \<open>handleClient\<close> of \<^verbatim>\<open>http_server.cpp\<close>.
  \<^item> Address: \<^verbatim>\<open>address.cpp\<close>. Sockets: the rest of \<^verbatim>\<open>socket.cpp\<close>. TcpServer: \<^verbatim>\<open>tcpserver.cpp\<close>. Their \<open>_Props\<close>:
    masks and text of addresses, the ownership of descriptors, what a bind leaves behind.
  \<^item> Config: \<^verbatim>\<open>config.h\<close> and \<^verbatim>\<open>config.cpp\<close>. LogFormatter, Logger, LogConfig: \<^verbatim>\<open>logger.cpp\<close>. Their \<open>_Props\<close>:
    listeners and documents, the pattern scanner against a grammar, where an event goes.
  \<^item> Env, FSUtil, Daemon, Application: \<^verbatim>\<open>env.cpp\<close>, the file system part of \<^verbatim>\<open>utils.cpp\<close>, \<^verbatim>\<open>daemon.cpp\<close>,
    \<^verbatim>\<open>application.cpp\<close> and the start of \<^verbatim>\<open>http_server.cpp\<close>. Module: \<^verbatim>\<open>module.cpp\<close>. Database, Mysql: the files
    of \<^verbatim>\<open>database/\<close>. Locks: \<^verbatim>\<open>mutex.h\<close> and \<^verbatim>\<open>thread.cpp\<close>.

  Kinds of results. Refinement: the byte buffer is a flat array, header maps and the module registry
  are plain maps, dispatch follows the registrations. Invariants over every sequence or interleaving
  of operations: timers, fibers, scheduler, I/O manager, pool, sockets, loggers. Round trips: codecs,
  strings, requests through the parser, patterns, query results. Errors: what each failing call
  leaves behind. Several theorems state exactly where the code departs from what it is meant to
  do, for example a header that two packets share; the manifest lists these as findings.

  Bounds. Loops that end by themselves are structural or have a measure. The receive loops and the
  supervisor consume a script of kernel results, so the script bounds them; the theorems that
  they return hold for every script. The retry loop of \<open>do_io\<close> takes one round of results per turn
  in the same way. No theorem assumes that a loop ends.

  Not modelled. The machine for responses and the one for URIs (\<^verbatim>\<open>http/httpclient_parser.rl.cc\<close>,
  \<^verbatim>\<open>http/uri.rl.cc\<close>) are parameters of what uses them. pthread, ucontext, epoll, the YAML and MySQL
  libraries, name resolution, \<open>lexical_cast\<close>, \<open>fnmatch\<close> and local time are parameters with their
  documented behaviour where one is needed. Clocks, thread identifiers and backtraces of
  \<^verbatim>\<open>utils.cpp\<close>, the tests and the files of CMake are left out.
\<close>

end
